(* ===== verification/Prelude.thy ===== *)
theory Prelude
  imports Main "HOL-Library.Word" "HOL-Library.Monad_Syntax"
begin

text \<open>
  Shared vocabulary of the development: the machine integers and byte strings of the C code,
  the C library calls on byte arrays (\<open>memcpy\<close>, \<open>memset\<close>) with their out-of-range case
  made visible, big-endian encodings, and the generic list facts the component proofs share.

  Conventions used by every component theory.
  \<^item> \<open>uint8_t\<close> .. \<open>uint64_t\<close> are words of that width. A \<open>size_t\<close> that is the size of an object
    in memory is a \<open>nat\<close>; where 32-bit wrap-around can be observed the value is a word.
  \<^item> A C operation that can fail an \<open>assert\<close> or write outside its buffer returns an
    \<open>option\<close>: \<open>None\<close> is the failed assertion or the out-of-bounds access.
  \<^item> A status code (\<open>CTAP2_OK\<close> and the error codes) is the \<open>u8\<close> value the code returns.
\<close>

unbundle bit_operations_syntax

section \<open>Types\<close>

type_synonym u8 = "8 word"
type_synonym u16 = "16 word"
type_synonym u32 = "32 word"
type_synonym u64 = "64 word"
type_synonym bytes = "u8 list"

text \<open>The collections that carry the proofs: byte-array facts and state-invariant facts.\<close>

named_theorems buf_simps
named_theorems status_simps

section \<open>Assertions and byte arrays\<close>

definition require :: "bool \<Rightarrow> 'a option \<Rightarrow> 'a option" where
  "require b m = (if b then m else None)"

lemma require_True [simp]: "require True m = m"
  by (simp add: require_def)

lemma require_False [simp]: "require False m = None"
  by (simp add: require_def)

lemma require_eq_Some: "require b m = Some x \<longleftrightarrow> b \<and> m = Some x"
  by (simp add: require_def)

lemma require_split: "P (require b m) \<longleftrightarrow> (b \<longrightarrow> P m) \<and> (\<not> b \<longrightarrow> P None)"
  by (simp add: require_def)

text \<open>\<open>zeros n\<close> is what \<open>memset(p, 0, n)\<close> leaves.\<close>

definition zeros :: "nat \<Rightarrow> bytes" where
  "zeros n = replicate n 0"

lemma length_zeros [simp]: "length (zeros n) = n"
  by (simp add: zeros_def)

lemma zeros_0 [simp]: "zeros 0 = []"
  by (simp add: zeros_def)

lemma zeros_Suc: "zeros (Suc n) = 0 # zeros n"
  by (simp add: zeros_def)

text \<open>
  \<open>memcpy_at buf off d\<close> is \<open>memcpy(&buf[off], d, length d)\<close> on an array of
  \<open>length buf\<close> bytes; \<open>None\<close> when it would write past the end of the array.
\<close>

definition memcpy_at :: "'a list \<Rightarrow> nat \<Rightarrow> 'a list \<Rightarrow> 'a list option" where
  "memcpy_at buf off d =
     (if off + length d \<le> length buf then Some (take off buf @ d @ drop (off + length d) buf)
      else None)"

lemma memcpy_at_fits [buf_simps]:
  "off + length d \<le> length buf \<Longrightarrow>
   memcpy_at buf off d = Some (take off buf @ d @ drop (off + length d) buf)"
  by (simp add: memcpy_at_def)

lemma memcpy_at_length: "memcpy_at buf off d = Some buf' \<Longrightarrow> length buf' = length buf"
  by (auto simp: memcpy_at_def split: if_splits)

lemma memcpy_at_eq_Some:
  "memcpy_at buf off d = Some buf' \<longleftrightarrow>
   off + length d \<le> length buf \<and> buf' = take off buf @ d @ drop (off + length d) buf"
  by (auto simp: memcpy_at_def)

text \<open>The bytes a write leaves: the prefix before it, the data, the rest.\<close>

lemma memcpy_at_prefix:
  assumes "memcpy_at buf off d = Some buf'"
  shows "take (off + length d) buf' = take off buf @ d"
  using assms by (cases d) (auto simp: memcpy_at_eq_Some min_def)

lemma memcpy_at_outside:
  assumes "memcpy_at buf off d = Some buf'" and "i < off \<or> off + length d \<le> i" and "i < length buf"
  shows "buf' ! i = buf ! i"
  using assms by (cases "d = []") (auto simp: memcpy_at_eq_Some nth_append min_def)

section \<open>Byte order\<close>

definition hi8 :: "u16 \<Rightarrow> u8" where
  "hi8 w = ucast (drop_bit 8 w)"

definition lo8 :: "u16 \<Rightarrow> u8" where
  "lo8 w = ucast w"

definition be16 :: "u8 \<Rightarrow> u8 \<Rightarrow> u16" where
  "be16 h l = push_bit 8 (ucast h) OR ucast l"

lemma be16_hi_lo [simp]: "be16 (hi8 w) (lo8 w) = w"
  by (rule bit_word_eqI) (auto simp: be16_def hi8_def lo8_def bit_simps)

lemma hi8_be16 [simp]: "hi8 (be16 h l) = h"
  by (rule bit_word_eqI) (auto simp: be16_def hi8_def bit_simps dest: bit_imp_le_length)

lemma lo8_be16 [simp]: "lo8 (be16 h l) = l"
  by (rule bit_word_eqI) (auto simp: be16_def lo8_def bit_simps)

text \<open>
  The bytes of a \<open>uint32_t\<close> in memory. The target (Cortex-M33) is little-endian, the case
  \<open>compiler.h\<close> selects by \<open>__BYTE_ORDER__\<close>.
\<close>

definition le32 :: "u32 \<Rightarrow> bytes" where
  "le32 w = [ucast w, ucast (drop_bit 8 w), ucast (drop_bit 16 w), ucast (drop_bit 24 w)]"

definition le32_read :: "bytes \<Rightarrow> u32" where
  "le32_read bs = ucast (bs ! 0) OR push_bit 8 (ucast (bs ! 1)) OR push_bit 16 (ucast (bs ! 2))
     OR push_bit 24 (ucast (bs ! 3))"

lemma length_le32 [simp]: "length (le32 w) = 4"
  by (simp add: le32_def)

lemma le32_read_le32 [simp]: "le32_read (le32 w @ rest) = w"
proof (rule bit_word_eqI)
  fix n assume "n < LENGTH(32)"
  then consider "n < 8" | "8 \<le> n" "n < 16" | "16 \<le> n" "n < 24" | "24 \<le> n" "n < 32"
    by fastforce
  then show "bit (le32_read (le32 w @ rest)) n = bit w n"
    by cases (simp_all add: le32_read_def le32_def bit_simps less_diff_conv2)
qed

text \<open>
  A \<open>uint32_t\<close> access at an offset of a byte array; \<open>None\<close> outside the array.
\<close>

definition rd32 :: "bytes \<Rightarrow> nat \<Rightarrow> u32 option" where
  "rd32 m i = (if i + 4 \<le> length m then Some (le32_read (drop i m)) else None)"

definition wr32 :: "bytes \<Rightarrow> nat \<Rightarrow> u32 \<Rightarrow> bytes option" where
  "wr32 m i w = memcpy_at m i (le32 w)"

lemma rd32_at [buf_simps]: "i = length p \<Longrightarrow> rd32 (p @ le32 w @ q) i = Some w"
  by (simp add: rd32_def)

lemma wr32_at [buf_simps]:
  "i = length p \<Longrightarrow> length old = 4 \<Longrightarrow> wr32 (p @ old @ q) i w = Some (p @ le32 w @ q)"
  by (simp add: wr32_def memcpy_at_def)

lemma memcpy_at_append:
  "i = length p \<Longrightarrow> length d \<le> length r \<Longrightarrow> memcpy_at (p @ r) i d = Some (p @ d @ drop (length d) r)"
  by (simp add: memcpy_at_def)

lemma wr32_append:
  "i = length p \<Longrightarrow> 4 \<le> length r \<Longrightarrow> wr32 (p @ r) i w = Some (p @ le32 w @ drop 4 r)"
  by (simp add: wr32_def memcpy_at_append)

text \<open>The value of a big-endian byte string.\<close>

fun be_nat :: "bytes \<Rightarrow> nat" where
  "be_nat [] = 0"
| "be_nat (b # bs) = unat b * 256 ^ length bs + be_nat bs"

lemma be_nat_append: "be_nat (xs @ ys) = be_nat xs * 256 ^ length ys + be_nat ys"
  by (induction xs) (auto simp: algebra_simps power_add)

lemma unat_u8_le: "unat (b :: u8) \<le> 255"
  using unsigned_less [of b, where ?'a = nat] by simp

lemma be_nat_bound: "be_nat bs < 256 ^ length bs"
proof (induction bs)
  case (Cons b bs)
  have "unat b * 256 ^ length bs \<le> 255 * 256 ^ length bs"
    by (intro mult_right_mono unat_u8_le zero_le)
  then have "unat b * 256 ^ length bs + be_nat bs < 255 * 256 ^ length bs + 256 ^ length bs"
    using Cons.IH by (rule add_le_less_mono)
  then show ?case by simp
qed simp

lemma be_nat_zeros [simp]: "be_nat (zeros n) = 0"
  by (induction n) (auto simp: zeros_Suc)

section \<open>Generic facts\<close>

lemma bit7_iff: "(w :: u8) AND 0x80 \<noteq> 0 \<longleftrightarrow> bit w 7"
  using and_exp_eq_0_iff_not_bit [of w 7] by simp

lemma and_push_bit_1: "bit (w :: u8) n \<Longrightarrow> w AND push_bit n 1 = push_bit n 1"
  by (intro bit_word_eqI) (auto simp: bit_and_iff bit_exp_iff)

lemma bit7_eq_iff: "(w :: u8) AND 0x80 = 0x80 \<longleftrightarrow> bit w 7"
proof
  assume "w AND 0x80 = 0x80"
  then show "bit w 7" using bit7_iff [of w] by simp
next
  assume "bit w 7"
  then show "w AND 0x80 = 0x80" using and_push_bit_1 [of w 7] by simp
qed

lemma unat_of_nat_u32: "n < 2 ^ 32 \<Longrightarrow> unat (of_nat n :: u32) = n"
  by (simp add: unat_of_nat take_bit_nat_eq_self)


lemma take_take_append: "n \<le> length xs \<Longrightarrow> take n (xs @ ys) = take n xs"
  by simp

lemma chunk_length: "0 < n \<Longrightarrow> xs \<noteq> [] \<Longrightarrow> length (drop n xs) < length xs"
  by (cases xs) auto

end
