(* ===== verification/Ctaphid.thy ===== *)
theory Ctaphid
  imports Prelude
begin

text \<open>
  The CTAPHID transport layer (\<open>core/ctaphid.h\<close>, \<open>core/ctaphid.c\<close>): the packet layout, the
  channel buffer in which one request message is reassembled, channel allocation, the packet
  state machine \<open>ctaphid_process_packet\<close>, and the fragmentation of a response message into
  packets. The lemmas show the invariant of the buffer, that the code's assertions hold under it
  (with the one exception characterised exactly), that a transaction is isolated from the other
  channels, and that fragmentation and reassembly are inverse.
\<close>

section \<open>Constants and packet layout\<close>

abbreviation (input) CTAPHID_PACKET_INIT_PAYLOAD_SIZE :: nat where
  "CTAPHID_PACKET_INIT_PAYLOAD_SIZE \<equiv> 57"
abbreviation (input) CTAPHID_PACKET_CONT_PAYLOAD_SIZE :: nat where
  "CTAPHID_PACKET_CONT_PAYLOAD_SIZE \<equiv> 59"
abbreviation (input) CTAPHID_MAX_PAYLOAD_LENGTH :: nat where
  "CTAPHID_MAX_PAYLOAD_LENGTH \<equiv> 7609"
abbreviation (input) CTAPHID_TRANSACTION_TIMEOUT :: u32 where
  "CTAPHID_TRANSACTION_TIMEOUT \<equiv> 2000"
abbreviation (input) CTAPHID_BROADCAST_CID :: u32 where
  "CTAPHID_BROADCAST_CID \<equiv> 0xffffffff"
abbreviation (input) CTAPHID_PACKET_TYPE_INIT :: u8 where "CTAPHID_PACKET_TYPE_INIT \<equiv> 0x80"
abbreviation (input) CTAPHID_PING :: u8 where "CTAPHID_PING \<equiv> 0x81"
abbreviation (input) CTAPHID_INIT :: u8 where "CTAPHID_INIT \<equiv> 0x86"
abbreviation (input) CTAPHID_WINK :: u8 where "CTAPHID_WINK \<equiv> 0x88"
abbreviation (input) CTAPHID_CBOR :: u8 where "CTAPHID_CBOR \<equiv> 0x90"
abbreviation (input) CTAPHID_CANCEL :: u8 where "CTAPHID_CANCEL \<equiv> 0x91"
abbreviation (input) CTAPHID_KEEPALIVE :: u8 where "CTAPHID_KEEPALIVE \<equiv> 0xBB"
abbreviation (input) CTAPHID_ERROR :: u8 where "CTAPHID_ERROR \<equiv> 0xBF"
abbreviation (input) CTAPHID_PROTOCOL_VERSION :: u8 where "CTAPHID_PROTOCOL_VERSION \<equiv> 2"

abbreviation (input) CTAP1_ERR_INVALID_LENGTH :: u8 where "CTAP1_ERR_INVALID_LENGTH \<equiv> 0x03"
abbreviation (input) CTAP1_ERR_INVALID_SEQ :: u8 where "CTAP1_ERR_INVALID_SEQ \<equiv> 0x04"
abbreviation (input) CTAP1_ERR_TIMEOUT :: u8 where "CTAP1_ERR_TIMEOUT \<equiv> 0x05"
abbreviation (input) CTAP1_ERR_CHANNEL_BUSY :: u8 where "CTAP1_ERR_CHANNEL_BUSY \<equiv> 0x06"
abbreviation (input) CTAP1_ERR_INVALID_CHANNEL :: u8 where "CTAP1_ERR_INVALID_CHANNEL \<equiv> 0x0B"

text \<open>
  \<open>ctaphid_packet_t\<close>: the channel id and the 60-byte union of the initialization and the
  continuation layout; the accessors below are the two views of the union. \<open>init_bcnt\<close> is the
  length after \<open>lion_ntohs\<close>.
\<close>

record ctaphid_packet =
  pkt_cid :: u32
  pkt_body :: bytes

definition init_cmd :: "ctaphid_packet \<Rightarrow> u8" where
  "init_cmd p = pkt_body p ! 0"

definition init_bcnt :: "ctaphid_packet \<Rightarrow> nat" where
  "init_bcnt p = unat (be16 (pkt_body p ! 1) (pkt_body p ! 2))"

definition init_payload :: "ctaphid_packet \<Rightarrow> bytes" where
  "init_payload p = drop 3 (pkt_body p)"

definition cont_seq :: "ctaphid_packet \<Rightarrow> u8" where
  "cont_seq p = pkt_body p ! 0"

definition cont_payload :: "ctaphid_packet \<Rightarrow> bytes" where
  "cont_payload p = drop 1 (pkt_body p)"

definition wf_packet :: "ctaphid_packet \<Rightarrow> bool" where
  "wf_packet p \<longleftrightarrow> length (pkt_body p) = 60"

record ctaphid_channel_buffer =
  start_time :: u32
  buf_cid :: u32
  buf_cmd :: u8
  buf_cancel :: bool
  payload_length :: nat
  next_seq :: u8
  buf_offset :: nat
  buf_payload :: bytes

record ctaphid_state =
  highest_allocated_cid :: u32
  buffer :: ctaphid_channel_buffer

datatype process_packet_result =
    CTAPHID_RESULT_ERROR u8
  | CTAPHID_RESULT_IGNORED
  | CTAPHID_RESULT_CANCEL
  | CTAPHID_RESULT_ALLOCATE_CHANNEL
  | CTAPHID_RESULT_DISCARD_INCOMPLETE_MESSAGE
  | CTAPHID_RESULT_BUFFERING
  | CTAPHID_RESULT_MESSAGE

section \<open>Operations\<close>

definition ctaphid_allocate_channel :: "ctaphid_state \<Rightarrow> u32 \<times> ctaphid_state" where
  "ctaphid_allocate_channel s =
     (if highest_allocated_cid s + 1 = CTAPHID_BROADCAST_CID then (0, s)
      else let c = highest_allocated_cid s + 1 in (c, s\<lparr>highest_allocated_cid := c\<rparr>))"

definition ctaphid_create_init_packet :: "u32 \<Rightarrow> u8 \<Rightarrow> nat \<Rightarrow> ctaphid_packet option" where
  "ctaphid_create_init_packet cid cmd len =
     require (cmd AND 0x80 = 0x80) (
     require (len \<le> CTAPHID_MAX_PAYLOAD_LENGTH) (
     require (len \<le> 0xFFFF) (
       Some \<lparr>pkt_cid = cid,
             pkt_body = [cmd, hi8 (of_nat len), lo8 (of_nat len)]
               @ zeros CTAPHID_PACKET_INIT_PAYLOAD_SIZE\<rparr>)))"

definition ctaphid_create_error_packet :: "u32 \<Rightarrow> u8 \<Rightarrow> ctaphid_packet option" where
  "ctaphid_create_error_packet cid error_code =
     do { p \<leftarrow> ctaphid_create_init_packet cid CTAPHID_ERROR 1;
          Some (p\<lparr>pkt_body := (pkt_body p)[3 := error_code]\<rparr>) }"

definition ctaphid_create_ctaphid_init_response_packet ::
    "bytes \<Rightarrow> u32 \<Rightarrow> u32 \<Rightarrow> u8 \<Rightarrow> u8 \<Rightarrow> u8 \<Rightarrow> u8 \<Rightarrow> ctaphid_packet option" where
  "ctaphid_create_ctaphid_init_response_packet nonce transport_cid response_cid
       version_major version_minor version_build capabilities =
     require (8 \<le> length nonce) (
     do { p \<leftarrow> ctaphid_create_init_packet transport_cid CTAPHID_INIT 17;
          body \<leftarrow> memcpy_at (pkt_body p) 3
            (take 8 nonce @ le32 response_cid
             @ [CTAPHID_PROTOCOL_VERSION, version_major, version_minor, version_build, capabilities]);
          Some (p\<lparr>pkt_body := body\<rparr>) })"

text \<open>The \<open>while\<close> loop of \<open>ctaphid_message_to_packets\<close>: one continuation packet per turn.\<close>

function message_cont_packets :: "u32 \<Rightarrow> bytes \<Rightarrow> nat \<Rightarrow> nat \<Rightarrow> u8 \<Rightarrow> ctaphid_packet list" where
  "message_cont_packets cid data off remaining seq =
     (if 0 < remaining then
        let n = min remaining CTAPHID_PACKET_CONT_PAYLOAD_SIZE in
        \<lparr>pkt_cid = cid,
         pkt_body = seq # take n (drop off data) @ zeros (CTAPHID_PACKET_CONT_PAYLOAD_SIZE - n)\<rparr>
        # message_cont_packets cid data (off + n) (remaining - n) (seq + 1)
      else [])"
  by pat_completeness auto
termination
  by (relation "measure (\<lambda>(cid, data, off, remaining, seq). remaining)") auto

declare message_cont_packets.simps [simp del]

text \<open>
  The packets are listed in the order in which the code hands them to \<open>on_packet\<close>. A payload
  shorter than the length given with it would be read past its end: \<open>None\<close>.
\<close>

definition ctaphid_message_to_packets ::
    "u32 \<Rightarrow> u8 \<Rightarrow> nat \<Rightarrow> bytes \<Rightarrow> ctaphid_packet list option" where
  "ctaphid_message_to_packets cid cmd len data =
     require (len \<le> CTAPHID_MAX_PAYLOAD_LENGTH) (
     require (len \<le> 0xFFFF) (
     require (len \<le> length data) (
       do { p \<leftarrow> ctaphid_create_init_packet cid cmd len;
            if len = 0 then Some [p]
            else do {
              let n = min len CTAPHID_PACKET_INIT_PAYLOAD_SIZE;
              body \<leftarrow> memcpy_at (pkt_body p) 3 (take n data);
              Some (p\<lparr>pkt_body := body\<rparr> # message_cont_packets cid data n (len - n) 0) } })))"

definition is_idle :: "ctaphid_channel_buffer \<Rightarrow> bool" where
  "is_idle b \<longleftrightarrow> buf_cid b = 0"

definition is_complete_message :: "ctaphid_channel_buffer \<Rightarrow> bool" where
  "is_complete_message b \<longleftrightarrow> buf_offset b = payload_length b"

definition is_complete_message_cmd :: "ctaphid_channel_buffer \<Rightarrow> u8 \<Rightarrow> bool" where
  "is_complete_message_cmd b c \<longleftrightarrow> buf_cmd b = c \<and> is_complete_message b"

definition is_incomplete_message :: "ctaphid_channel_buffer \<Rightarrow> bool" where
  "is_incomplete_message b \<longleftrightarrow> buf_offset b < payload_length b"

definition ctaphid_is_idle :: "ctaphid_state \<Rightarrow> bool option" where
  "ctaphid_is_idle s =
     require (buf_cid (buffer s) \<noteq> CTAPHID_BROADCAST_CID) (Some (is_idle (buffer s)))"

definition ctaphid_has_complete_message_ready :: "ctaphid_state \<Rightarrow> bool option" where
  "ctaphid_has_complete_message_ready s =
     require (buf_cid (buffer s) \<noteq> CTAPHID_BROADCAST_CID) (
       if is_idle (buffer s) then Some False
       else require (buf_cmd (buffer s) \<noteq> 0) (Some (is_complete_message (buffer s))))"

definition ctaphid_has_incomplete_message_timeout :: "ctaphid_state \<Rightarrow> u32 \<Rightarrow> bool option" where
  "ctaphid_has_incomplete_message_timeout s current_time =
     (if is_incomplete_message (buffer s) then
        require (buf_cid (buffer s) \<noteq> CTAPHID_BROADCAST_CID) (
        require (buf_cmd (buffer s) \<noteq> 0) (
          Some (current_time - start_time (buffer s) > CTAPHID_TRANSACTION_TIMEOUT)))
      else Some False)"

definition reset_buffer :: "ctaphid_channel_buffer \<Rightarrow> ctaphid_channel_buffer" where
  "reset_buffer b = b\<lparr>start_time := 0, buf_cid := 0, buf_cmd := 0, buf_cancel := False,
     payload_length := 0, next_seq := 0, buf_offset := 0\<rparr>"

definition copy_payload_to_buffer ::
    "ctaphid_channel_buffer \<Rightarrow> bytes \<Rightarrow> nat
     \<Rightarrow> (process_packet_result \<times> ctaphid_channel_buffer) option" where
  "copy_payload_to_buffer b packet_payload packet_payload_size =
     require (payload_length b \<ge> buf_offset b) (
       do { let remaining_size = payload_length b - buf_offset b;
            let copy_size = min packet_payload_size remaining_size;
            buf \<leftarrow> memcpy_at (buf_payload b) (buf_offset b) (take copy_size packet_payload);
            let b' = b\<lparr>buf_payload := buf, buf_offset := buf_offset b + copy_size\<rparr>;
            if is_complete_message b' then Some (CTAPHID_RESULT_MESSAGE, b')
            else require (is_incomplete_message b') (Some (CTAPHID_RESULT_BUFFERING, b')) })"

definition is_initialization_packet :: "ctaphid_packet \<Rightarrow> bool" where
  "is_initialization_packet p \<longleftrightarrow> init_cmd p AND CTAPHID_PACKET_TYPE_INIT \<noteq> 0"

text \<open>
  \<open>ctaphid_init\<close> writes every field but the payload array, whose content stays what the
  memory held.
\<close>

definition ctaphid_init :: "ctaphid_state \<Rightarrow> ctaphid_state" where
  "ctaphid_init s = s\<lparr>highest_allocated_cid := 0, buffer := reset_buffer (buffer s)\<rparr>"

definition ctaphid_reset_to_idle :: "ctaphid_state \<Rightarrow> ctaphid_state" where
  "ctaphid_reset_to_idle s = s\<lparr>buffer := reset_buffer (buffer s)\<rparr>"

text \<open>
  \<open>ctaphid_process_packet\<close>, by its blocks: the channel check, \<open>CTAPHID_CANCEL\<close>,
  \<open>CTAPHID_INIT\<close>, any other initialization packet, and a continuation packet.
\<close>

definition invalid_channel :: "ctaphid_state \<Rightarrow> ctaphid_packet \<Rightarrow> bool" where
  "invalid_channel s p \<longleftrightarrow>
     (pkt_cid p = 0 \<or> pkt_cid p > highest_allocated_cid s)
     \<and> \<not> (pkt_cid p = CTAPHID_BROADCAST_CID \<and> init_cmd p = CTAPHID_INIT)"

definition process_cancel ::
    "ctaphid_state \<Rightarrow> ctaphid_packet \<Rightarrow> process_packet_result \<times> ctaphid_state" where
  "process_cancel s p =
     (if init_bcnt p \<noteq> 0 then (CTAPHID_RESULT_ERROR CTAP1_ERR_INVALID_LENGTH, s)
      else if pkt_cid p = buf_cid (buffer s) \<and> is_complete_message_cmd (buffer s) CTAPHID_CBOR
        then (CTAPHID_RESULT_CANCEL, s\<lparr>buffer := (buffer s)\<lparr>buf_cancel := True\<rparr>\<rparr>)
      else (CTAPHID_RESULT_IGNORED, s))"

definition process_init ::
    "ctaphid_state \<Rightarrow> ctaphid_packet \<Rightarrow> (process_packet_result \<times> ctaphid_state) option" where
  "process_init s p =
     (if init_bcnt p \<noteq> 8 then Some (CTAPHID_RESULT_ERROR CTAP1_ERR_INVALID_LENGTH, s)
      else if pkt_cid p = CTAPHID_BROADCAST_CID then Some (CTAPHID_RESULT_ALLOCATE_CHANNEL, s)
      else require (pkt_cid p \<noteq> 0 \<and> pkt_cid p \<le> highest_allocated_cid s) (
        Some (CTAPHID_RESULT_DISCARD_INCOMPLETE_MESSAGE,
              if pkt_cid p = buf_cid (buffer s) \<and> is_incomplete_message (buffer s)
              then s\<lparr>buffer := reset_buffer (buffer s)\<rparr> else s)))"

definition process_first_packet ::
    "ctaphid_state \<Rightarrow> ctaphid_packet \<Rightarrow> u32
     \<Rightarrow> (process_packet_result \<times> ctaphid_state) option" where
  "process_first_packet s p current_time =
     (if init_bcnt p > length (buf_payload (buffer s))
        then Some (CTAPHID_RESULT_ERROR CTAP1_ERR_INVALID_LENGTH, s)
      else if \<not> is_idle (buffer s) then Some (CTAPHID_RESULT_ERROR CTAP1_ERR_CHANNEL_BUSY, s)
      else require (pkt_cid p \<noteq> 0 \<and> pkt_cid p \<le> highest_allocated_cid s) (
        require (init_cmd p \<noteq> CTAPHID_CANCEL \<and> init_cmd p \<noteq> CTAPHID_INIT) (
          do { (r, b) \<leftarrow> copy_payload_to_buffer
                 ((buffer s)\<lparr>start_time := current_time, buf_cid := pkt_cid p,
                    buf_cmd := init_cmd p, buf_cancel := False, payload_length := init_bcnt p,
                    next_seq := 0, buf_offset := 0\<rparr>)
                 (init_payload p) CTAPHID_PACKET_INIT_PAYLOAD_SIZE;
               Some (r, s\<lparr>buffer := b\<rparr>) })))"

definition process_continuation ::
    "ctaphid_state \<Rightarrow> ctaphid_packet \<Rightarrow> (process_packet_result \<times> ctaphid_state) option" where
  "process_continuation s p =
     (if buf_cid (buffer s) \<noteq> pkt_cid p then Some (CTAPHID_RESULT_IGNORED, s)
      else require (buf_cmd (buffer s) \<noteq> 0) (
        require (payload_length (buffer s) \<noteq> 0) (
          if next_seq (buffer s) \<noteq> cont_seq p
            then Some (CTAPHID_RESULT_ERROR CTAP1_ERR_INVALID_SEQ, s)
          else do { (r, b) \<leftarrow> copy_payload_to_buffer
                      ((buffer s)\<lparr>next_seq := next_seq (buffer s) + 1\<rparr>)
                      (cont_payload p) CTAPHID_PACKET_CONT_PAYLOAD_SIZE;
                    Some (r, s\<lparr>buffer := b\<rparr>) })))"

definition ctaphid_process_packet ::
    "ctaphid_state \<Rightarrow> ctaphid_packet \<Rightarrow> u32
     \<Rightarrow> (process_packet_result \<times> ctaphid_state) option" where
  "ctaphid_process_packet s p current_time =
     (if invalid_channel s p then Some (CTAPHID_RESULT_ERROR CTAP1_ERR_INVALID_CHANNEL, s)
      else if is_initialization_packet p then
        (if init_cmd p = CTAPHID_CANCEL then Some (process_cancel s p)
         else if init_cmd p = CTAPHID_INIT then process_init s p
         else process_first_packet s p current_time)
      else process_continuation s p)"


section \<open>Helper facts\<close>

lemma cont_seq_bound: "\<not> bit (w :: u8) 7 \<Longrightarrow> unat w < 128"
proof -
  assume h: "\<not> bit w 7"
  have "take_bit 7 w = w"
  proof (rule bit_word_eqI)
    fix n assume "n < LENGTH(8)"
    then show "bit (take_bit 7 w) n = bit w n"
      using h by (cases "n = 7") (auto simp: bit_simps)
  qed
  then have "unat w = take_bit 7 (unat w)"
    by (metis unsigned_take_bit_eq)
  then show "unat w < 128"
    using take_bit_nat_less_exp [of 7 "unat w"] by simp
qed

section \<open>Invariant of the channel buffer\<close>

text \<open>
  The bytes received after the initialization packet and \<open>k\<close> continuation packets of a message
  of length \<open>len\<close>.
\<close>

definition received :: "nat \<Rightarrow> nat \<Rightarrow> nat" where
  "received len k =
     min len (CTAPHID_PACKET_INIT_PAYLOAD_SIZE + k * CTAPHID_PACKET_CONT_PAYLOAD_SIZE)"

definition buffer_inv :: "ctaphid_channel_buffer \<Rightarrow> bool" where
  "buffer_inv b \<longleftrightarrow>
     length (buf_payload b) = CTAPHID_MAX_PAYLOAD_LENGTH
     \<and> payload_length b \<le> CTAPHID_MAX_PAYLOAD_LENGTH
     \<and> (if buf_cid b = 0 then reset_buffer b = b
        else bit (buf_cmd b) 7 \<and> buf_cmd b \<noteq> CTAPHID_CANCEL \<and> buf_cmd b \<noteq> CTAPHID_INIT
             \<and> unat (next_seq b) \<le> 128
             \<and> buf_offset b = received (payload_length b) (unat (next_seq b)))"

definition hid_inv :: "ctaphid_state \<Rightarrow> bool" where
  "hid_inv s \<longleftrightarrow>
     highest_allocated_cid s < CTAPHID_BROADCAST_CID
     \<and> buf_cid (buffer s) \<le> highest_allocated_cid s
     \<and> buffer_inv (buffer s)"

lemma received_le [simp]: "received len k \<le> len"
  by (simp add: received_def)

lemma received_Suc:
  "received len (Suc k) = received len k + min 59 (len - received len k)"
  unfolding received_def by (auto simp: min_def)

lemma received_0: "received len 0 = min 57 len"
  by (simp add: received_def)

lemma received_128: "len \<le> CTAPHID_MAX_PAYLOAD_LENGTH \<Longrightarrow> received len 128 = len"
  by (simp add: received_def)

lemma reset_buffer_sel [simp]:
  "start_time (reset_buffer b) = 0" "buf_cid (reset_buffer b) = 0" "buf_cmd (reset_buffer b) = 0"
  "buf_cancel (reset_buffer b) = False" "payload_length (reset_buffer b) = 0"
  "next_seq (reset_buffer b) = 0" "buf_offset (reset_buffer b) = 0"
  "buf_payload (reset_buffer b) = buf_payload b"
  by (simp_all add: reset_buffer_def)

lemma reset_buffer_idem [simp]: "reset_buffer (reset_buffer b) = reset_buffer b"
  by (simp add: reset_buffer_def)

lemma buffer_inv_reset:
  "length (buf_payload b) = CTAPHID_MAX_PAYLOAD_LENGTH \<Longrightarrow> buffer_inv (reset_buffer b)"
  by (simp add: buffer_inv_def)

lemma buffer_inv_idle:
  assumes "buffer_inv b" and "buf_cid b = 0"
  shows "payload_length b = 0" "buf_offset b = 0" "buf_cmd b = 0" "next_seq b = 0"
proof -
  have "b = reset_buffer b" using assms by (simp add: buffer_inv_def)
  then show "payload_length b = 0" "buf_offset b = 0" "buf_cmd b = 0" "next_seq b = 0"
    by (metis reset_buffer_sel)+
qed

lemma copy_payload_to_buffer_inv:
  assumes "length (buf_payload b) = CTAPHID_MAX_PAYLOAD_LENGTH"
      and "payload_length b \<le> CTAPHID_MAX_PAYLOAD_LENGTH"
      and "buf_offset b \<le> payload_length b" and "length d = n"
  defines "m \<equiv> min n (payload_length b - buf_offset b)"
  shows "copy_payload_to_buffer b d n =
    Some (if buf_offset b + m = payload_length b then CTAPHID_RESULT_MESSAGE
            else CTAPHID_RESULT_BUFFERING,
          b\<lparr>buf_payload := take (buf_offset b) (buf_payload b) @ take m d
                              @ drop (buf_offset b + m) (buf_payload b),
            buf_offset := buf_offset b + m\<rparr>)"
  using assms
  by (auto simp: copy_payload_to_buffer_def buf_simps is_complete_message_def
      is_incomplete_message_def require_def min_def)

lemma copy_payload_to_buffer_keeps:
  assumes "copy_payload_to_buffer b d n = Some (r, b')" and "length d = n"
  shows "buf_cid b' = buf_cid b" "buf_cmd b' = buf_cmd b"
    "payload_length b' = payload_length b" "next_seq b' = next_seq b"
    "start_time b' = start_time b" "buf_cancel b' = buf_cancel b"
    "length (buf_payload b') = length (buf_payload b)"
    "buf_offset b' = buf_offset b + min n (payload_length b - buf_offset b)"
  using assms
  by (auto simp: copy_payload_to_buffer_def require_def Let_def memcpy_at_eq_Some
      split: if_splits bind_splits)

text \<open>The state the initialization packet and a continuation packet leave.\<close>

lemma process_first_packet_inv:
  assumes inv: "hid_inv s" and wf: "wf_packet p" and first: "bit (init_cmd p) 7"
      and cid: "pkt_cid p \<noteq> 0" "pkt_cid p \<le> highest_allocated_cid s"
      and cmd: "init_cmd p \<noteq> CTAPHID_CANCEL" "init_cmd p \<noteq> CTAPHID_INIT"
  shows "\<exists>r s'. process_first_packet s p t = Some (r, s') \<and> hid_inv s'"
proof (cases "init_bcnt p > length (buf_payload (buffer s)) \<or> \<not> is_idle (buffer s)")
  case True
  then show ?thesis using inv by (auto simp: process_first_packet_def)
next
  case False
  let ?b = "(buffer s)\<lparr>start_time := t, buf_cid := pkt_cid p, buf_cmd := init_cmd p,
    buf_cancel := False, payload_length := init_bcnt p, next_seq := 0, buf_offset := 0\<rparr>"
  have len: "length (buf_payload ?b) = CTAPHID_MAX_PAYLOAD_LENGTH"
    using inv by (simp add: hid_inv_def buffer_inv_def)
  have bc: "init_bcnt p \<le> CTAPHID_MAX_PAYLOAD_LENGTH"
    using False len by simp
  have d: "length (init_payload p) = 57"
    using wf by (simp add: wf_packet_def init_payload_def)
  obtain r b' where c: "copy_payload_to_buffer ?b (init_payload p) 57 = Some (r, b')"
    using copy_payload_to_buffer_inv [of ?b "init_payload p" 57] len bc d by auto
  have "buffer_inv b'"
    using copy_payload_to_buffer_keeps [OF c d] len bc first cmd cid
    by (simp add: buffer_inv_def received_0 min.commute)
  then have "hid_inv (s\<lparr>buffer := b'\<rparr>)"
    using inv copy_payload_to_buffer_keeps [OF c d] cid by (simp add: hid_inv_def)
  then show ?thesis
    using False cid cmd c by (simp add: process_first_packet_def)
qed

text \<open>
  A continuation packet for the busy channel: the code asserts a non-empty message here, which
  is the one assertion of the layer the invariant does not imply.
\<close>

definition zero_length_stuck :: "ctaphid_state \<Rightarrow> ctaphid_packet \<Rightarrow> bool" where
  "zero_length_stuck s p \<longleftrightarrow>
     \<not> is_initialization_packet p \<and> pkt_cid p \<noteq> 0
     \<and> pkt_cid p = buf_cid (buffer s) \<and> payload_length (buffer s) = 0"

lemma process_continuation_inv:
  assumes inv: "hid_inv s" and wf: "wf_packet p" and cont: "\<not> bit (cont_seq p) 7"
      and cid: "pkt_cid p \<noteq> 0"
      and len: "pkt_cid p = buf_cid (buffer s) \<Longrightarrow> payload_length (buffer s) \<noteq> 0"
  shows "\<exists>r s'. process_continuation s p = Some (r, s') \<and> hid_inv s'"
proof (cases "buf_cid (buffer s) = pkt_cid p \<and> next_seq (buffer s) = cont_seq p")
  case False
  have "buf_cid (buffer s) = pkt_cid p \<Longrightarrow> buf_cmd (buffer s) \<noteq> 0"
    using inv cid by (auto simp: hid_inv_def buffer_inv_def split: if_splits)
  then show ?thesis using False inv len by (auto simp: process_continuation_def require_def)
next
  case True
  let ?b = "(buffer s)\<lparr>next_seq := next_seq (buffer s) + 1\<rparr>"
  have b: "length (buf_payload ?b) = CTAPHID_MAX_PAYLOAD_LENGTH"
      "payload_length ?b \<le> CTAPHID_MAX_PAYLOAD_LENGTH" "bit (buf_cmd ?b) 7"
      "buf_cmd ?b \<noteq> CTAPHID_CANCEL" "buf_cmd ?b \<noteq> CTAPHID_INIT"
      "buf_offset ?b = received (payload_length ?b) (unat (next_seq (buffer s)))"
    using inv True cid by (auto simp: hid_inv_def buffer_inv_def split: if_splits)
  have sq: "unat (next_seq ?b) = Suc (unat (next_seq (buffer s)))" "unat (next_seq ?b) \<le> 128"
    using cont_seq_bound [OF cont] True by (auto simp: unat_word_ariths(1))
  have d: "length (cont_payload p) = 59"
    using wf by (simp add: wf_packet_def cont_payload_def)
  obtain r b' where c: "copy_payload_to_buffer ?b (cont_payload p) 59 = Some (r, b')"
    using copy_payload_to_buffer_inv [of ?b "cont_payload p" 59] b d by auto
  note k = copy_payload_to_buffer_keeps [OF c d]
  have "buffer_inv b'"
    using k b sq True cid by (simp add: buffer_inv_def received_Suc)
  then have "hid_inv (s\<lparr>buffer := b'\<rparr>)"
    using inv k by (simp add: hid_inv_def)
  moreover have "buf_cmd (buffer s) \<noteq> 0"
    using b(3) by auto
  ultimately show ?thesis
    using True len c by (auto simp: process_continuation_def)
qed

lemma process_cancel_inv:
  assumes inv: "hid_inv s"
  shows "hid_inv (snd (process_cancel s p))"
proof (cases "is_complete_message_cmd (buffer s) CTAPHID_CBOR")
  case False
  then show ?thesis using inv by (simp add: process_cancel_def)
next
  case True
  then have "buf_cid (buffer s) \<noteq> 0"
    using buffer_inv_idle(3) [of "buffer s"] inv
    by (auto simp: hid_inv_def is_complete_message_cmd_def)
  then show ?thesis
    using inv by (simp add: process_cancel_def hid_inv_def buffer_inv_def)
qed

lemma process_init_inv:
  assumes "hid_inv s" and "\<not> invalid_channel s p" and "init_cmd p = CTAPHID_INIT"
  shows "\<exists>r s'. process_init s p = Some (r, s') \<and> hid_inv s'"
  using assms
  by (auto simp: process_init_def invalid_channel_def hid_inv_def not_less require_def
      buffer_inv_def)

lemma valid_channel:
  assumes "\<not> invalid_channel s p" and "init_cmd p \<noteq> CTAPHID_INIT"
  shows "pkt_cid p \<noteq> 0" "pkt_cid p \<le> highest_allocated_cid s"
  using assms by (auto simp: invalid_channel_def)

lemma process_packet_total:
  assumes inv: "hid_inv s" and wf: "wf_packet p" and ok: "\<not> zero_length_stuck s p"
  shows "\<exists>r s'. ctaphid_process_packet s p t = Some (r, s') \<and> hid_inv s'"
proof (cases "invalid_channel s p")
  case True
  then show ?thesis using inv by (simp add: ctaphid_process_packet_def)
next
  case valid: False
  show ?thesis
  proof (cases "is_initialization_packet p")
    case True
    then have b: "bit (init_cmd p) 7"
      by (simp add: is_initialization_packet_def bit7_iff)
    consider "init_cmd p = CTAPHID_CANCEL" | "init_cmd p = CTAPHID_INIT"
      | "init_cmd p \<noteq> CTAPHID_CANCEL" "init_cmd p \<noteq> CTAPHID_INIT" by blast
    then show ?thesis
    proof cases
      case 1
      then show ?thesis
        using True valid process_cancel_inv [OF inv, of p]
        by (cases "process_cancel s p") (simp add: ctaphid_process_packet_def)
    next
      case 2
      then show ?thesis
        using True valid process_init_inv [OF inv valid] by (simp add: ctaphid_process_packet_def)
    next
      case 3
      then show ?thesis
        using True valid process_first_packet_inv [OF inv wf b _ _ 3] valid_channel [OF valid]
        by (simp add: ctaphid_process_packet_def)
    qed
  next
    case False
    then have c: "\<not> bit (cont_seq p) 7"
      using bit7_iff [of "init_cmd p"]
      by (simp add: is_initialization_packet_def init_cmd_def cont_seq_def)
    have "init_cmd p \<noteq> CTAPHID_INIT"
      using False by (auto simp: is_initialization_packet_def)
    then have "pkt_cid p \<noteq> 0"
      using valid_channel [OF valid] by blast
    then show ?thesis
      using process_continuation_inv [OF inv wf c] ok False valid
      by (simp add: ctaphid_process_packet_def zero_length_stuck_def)
  qed
qed

lemma process_packet_stuck:
  assumes inv: "hid_inv s" and stuck: "zero_length_stuck s p"
  shows "ctaphid_process_packet s p t = None"
proof -
  have "\<not> invalid_channel s p" "\<not> is_initialization_packet p"
    using assms by (auto simp: zero_length_stuck_def invalid_channel_def hid_inv_def)
  then show ?thesis
    using stuck by (simp add: ctaphid_process_packet_def process_continuation_def
        zero_length_stuck_def require_def)
qed

section \<open>Isolation of a transaction\<close>

text \<open>
  While a channel holds the buffer, packets of every other channel leave the whole state as it is.
\<close>

lemma busy_isolated:
  assumes inv: "hid_inv s" and busy: "buf_cid (buffer s) \<noteq> 0"
      and other: "pkt_cid p \<noteq> buf_cid (buffer s)"
  shows "\<exists>r. ctaphid_process_packet s p t = Some (r, s) \<and> r \<noteq> CTAPHID_RESULT_MESSAGE
           \<and> r \<noteq> CTAPHID_RESULT_BUFFERING \<and> r \<noteq> CTAPHID_RESULT_CANCEL"
proof -
  have "pkt_cid p \<noteq> CTAPHID_BROADCAST_CID \<Longrightarrow> \<not> invalid_channel s p \<Longrightarrow>
      pkt_cid p \<noteq> 0 \<and> pkt_cid p \<le> highest_allocated_cid s"
    by (auto simp: invalid_channel_def)
  then show ?thesis
    using other busy
    by (auto simp: ctaphid_process_packet_def process_cancel_def process_init_def is_idle_def
        process_first_packet_def process_continuation_def require_def)
qed

text \<open>A run of the layer on a sequence of timed packets, with the result of each call.\<close>

fun hid_run :: "ctaphid_state \<Rightarrow> (ctaphid_packet \<times> u32) list
    \<Rightarrow> (process_packet_result list \<times> ctaphid_state) option" where
  "hid_run s [] = Some ([], s)"
| "hid_run s ((p, t) # ps) =
     do { (r, s') \<leftarrow> ctaphid_process_packet s p t;
          (rs, s'') \<leftarrow> hid_run s' ps;
          Some (r # rs, s'') }"

text \<open>The packets of one channel in a sequence of packets of several.\<close>

definition channel_packets :: "u32 \<Rightarrow> (ctaphid_packet \<times> u32) list \<Rightarrow> ctaphid_packet list" where
  "channel_packets c ps = filter (\<lambda>p. pkt_cid p = c) (map fst ps)"

lemma channel_packets_simps [simp]:
  "channel_packets c [] = []"
  "channel_packets c ((p, t) # ps) =
     (if pkt_cid p = c then p # channel_packets c ps else channel_packets c ps)"
  by (simp_all add: channel_packets_def)

lemma small_seq_bit: "unat (w :: u8) < 128 \<Longrightarrow> \<not> bit w 7"
  using bit_unsigned_iff [of w 7, where ?'a = nat]
  by (auto simp: bit_iff_odd)

section \<open>Fragmentation and reassembly\<close>

text \<open>
  The next continuation packet of a message advances a buffer that holds its first \<open>off\<close> bytes.
\<close>

lemma process_next_continuation:
  assumes inv: "hid_inv s" and c: "buf_cid (buffer s) = c" "c \<noteq> 0"
      and len: "payload_length (buffer s) = length data"
      and off: "buf_offset (buffer s) = off" "off < length data"
      and got: "take off (buf_payload (buffer s)) = take off data"
      and p: "p = \<lparr>pkt_cid = c, pkt_body = next_seq (buffer s) # take n (drop off data)
                     @ zeros (59 - n)\<rparr>"
      and n: "n = min (length data - off) 59"
  shows "\<exists>s'. ctaphid_process_packet s p t = Some (if off + n = length data
             then CTAPHID_RESULT_MESSAGE else CTAPHID_RESULT_BUFFERING, s') \<and> hid_inv s'
           \<and> highest_allocated_cid s' = highest_allocated_cid s
           \<and> buf_cid (buffer s') = c \<and> payload_length (buffer s') = length data
           \<and> buf_cmd (buffer s') = buf_cmd (buffer s)
           \<and> start_time (buffer s') = start_time (buffer s)
           \<and> buf_offset (buffer s') = off + n \<and> next_seq (buffer s') = next_seq (buffer s) + 1
           \<and> take (off + n) (buf_payload (buffer s')) = take (off + n) data"
proof -
  have b: "length (buf_payload (buffer s)) = 7609" "length data \<le> 7609"
      "off = received (length data) (unat (next_seq (buffer s)))" "buf_cmd (buffer s) \<noteq> 0"
      "unat (next_seq (buffer s)) \<le> 128" "c \<le> highest_allocated_cid s"
    using inv c len off by (auto simp: hid_inv_def buffer_inv_def split: if_splits)
  have "unat (next_seq (buffer s)) \<noteq> 128"
    using b off received_128 [of "length data"] by (metis nat_neq_iff)
  then have nb: "\<not> bit (next_seq (buffer s)) 7"
    using b by (intro small_seq_bit) simp
  have wf: "wf_packet p" using p n off by (simp add: wf_packet_def)
  have cont: "\<not> is_initialization_packet p" "cont_seq p = next_seq (buffer s)"
      "take n (cont_payload p) = take n (drop off data)" "length (cont_payload p) = 59"
    using nb p n off bit7_iff [of "next_seq (buffer s)"]
    by (auto simp: is_initialization_packet_def init_cmd_def cont_seq_def cont_payload_def)
  have nz0: "data \<noteq> []" using off by auto
  have nz: "\<not> zero_length_stuck s p" using len off by (auto simp: zero_length_stuck_def)
  let ?b = "(buffer s)\<lparr>next_seq := next_seq (buffer s) + 1\<rparr>"
  let ?buf = "take off (buf_payload (buffer s)) @ take n (drop off data)
                @ drop (off + n) (buf_payload (buffer s))"
  let ?s' = "s\<lparr>buffer := ?b\<lparr>buf_payload := ?buf, buf_offset := off + n\<rparr>\<rparr>"
  have "copy_payload_to_buffer ?b (cont_payload p) 59 = Some (if off + n = length data
      then CTAPHID_RESULT_MESSAGE else CTAPHID_RESULT_BUFFERING,
      ?b\<lparr>buf_payload := ?buf, buf_offset := off + n\<rparr>)"
    using copy_payload_to_buffer_inv [of ?b "cont_payload p" 59] b len off cont n
    by (simp add: min.commute)
  moreover have "\<not> invalid_channel s p"
    using b c p by (simp add: invalid_channel_def not_less)
  ultimately have run: "ctaphid_process_packet s p t = Some (if off + n = length data
      then CTAPHID_RESULT_MESSAGE else CTAPHID_RESULT_BUFFERING, ?s')"
    using cont b(4) c len nz0 p
    by (simp add: ctaphid_process_packet_def process_continuation_def)
  have "hid_inv ?s'"
    using process_packet_total [OF inv wf nz, of t] run by simp
  moreover have "take (off + n) ?buf = take (off + n) data"
    using got b off n by (simp add: take_add)
  ultimately show ?thesis
    using run c len by simp
qed

lemma message_cont_packets_0 [simp]: "message_cont_packets c data off 0 seq = []"
  by (simp add: message_cont_packets.simps)

lemma message_cont_packets_Cons:
  "0 < r \<Longrightarrow> message_cont_packets c data off r seq =
     \<lparr>pkt_cid = c, pkt_body = seq # take (min r 59) (drop off data) @ zeros (59 - min r 59)\<rparr>
     # message_cont_packets c data (off + min r 59) (r - min r 59) (seq + 1)"
  by (subst message_cont_packets.simps) (simp add: Let_def)

text \<open>
  The continuation packets, interleaved with packets of other channels, complete the message;
  \<open>CTAPHID_RESULT_MESSAGE\<close> is reported once, and nothing after it changes the buffer.
\<close>

lemma run_continuations:
  assumes "hid_inv s" and "buf_cid (buffer s) = c" "c \<noteq> 0"
      and "payload_length (buffer s) = length data"
      and "take (buf_offset (buffer s)) (buf_payload (buffer s))
             = take (buf_offset (buffer s)) data"
      and "channel_packets c qs = message_cont_packets c data (buf_offset (buffer s))
             (length data - buf_offset (buffer s)) (next_seq (buffer s))"
  shows "\<exists>rs s'. hid_run s qs = Some (rs, s') \<and> hid_inv s'
           \<and> highest_allocated_cid s' = highest_allocated_cid s
           \<and> buf_cid (buffer s') = c \<and> payload_length (buffer s') = length data
           \<and> buf_cmd (buffer s') = buf_cmd (buffer s)
           \<and> start_time (buffer s') = start_time (buffer s)
           \<and> buf_offset (buffer s') = length data
           \<and> take (length data) (buf_payload (buffer s')) = data
           \<and> count_list rs CTAPHID_RESULT_MESSAGE
               = (if buf_offset (buffer s) < length data then 1 else 0)"
  using assms
proof (induction qs arbitrary: s)
  case Nil
  have "buf_offset (buffer s) \<le> length data"
    using Nil.prems(1-4) by (auto simp: hid_inv_def buffer_inv_def split: if_splits)
  moreover have "\<not> buf_offset (buffer s) < length data"
    using Nil.prems(6) message_cont_packets_Cons [of "length data - buf_offset (buffer s)"]
    by auto
  ultimately show ?case using Nil.prems by simp
next
  case (Cons q qs)
  obtain p t where q: "q = (p, t)" by (cases q)
  show ?case
  proof (cases "pkt_cid p = c")
    case False
    then obtain r where "ctaphid_process_packet s p t = Some (r, s)" "r \<noteq> CTAPHID_RESULT_MESSAGE"
      using busy_isolated [of s p t] Cons.prems by auto
    then show ?thesis
      using Cons.IH [OF Cons.prems(1-5)] Cons.prems(6) False q by auto
  next
    case True
    let ?off = "buf_offset (buffer s)"
    let ?n = "min (length data - ?off) 59"
    have lt: "?off < length data"
      using Cons.prems(6) True q by (cases "length data - ?off") auto
    note e = message_cont_packets_Cons [of "length data - ?off" c data ?off "next_seq (buffer s)"]
    have p: "p = \<lparr>pkt_cid = c, pkt_body = next_seq (buffer s) # take ?n (drop ?off data)
               @ zeros (59 - ?n)\<rparr>"
      and qs: "channel_packets c qs = message_cont_packets c data (?off + ?n)
               (length data - ?off - ?n) (next_seq (buffer s) + 1)"
      using Cons.prems(6) True q lt e by simp_all
    obtain s1 where s1: "ctaphid_process_packet s p t = Some (if ?off + ?n = length data
             then CTAPHID_RESULT_MESSAGE else CTAPHID_RESULT_BUFFERING, s1)"
        "hid_inv s1" "highest_allocated_cid s1 = highest_allocated_cid s"
        "buf_cid (buffer s1) = c" "payload_length (buffer s1) = length data"
        "buf_cmd (buffer s1) = buf_cmd (buffer s)"
        "start_time (buffer s1) = start_time (buffer s)"
        "buf_offset (buffer s1) = ?off + ?n" "next_seq (buffer s1) = next_seq (buffer s) + 1"
        "take (?off + ?n) (buf_payload (buffer s1)) = take (?off + ?n) data"
      using process_next_continuation
        [OF Cons.prems(1-4) refl lt Cons.prems(5) p refl, of t] by blast
    have qs': "channel_packets c qs = message_cont_packets c data (buf_offset (buffer s1))
        (length data - buf_offset (buffer s1)) (next_seq (buffer s1))"
      using qs s1 by simp
    have tk: "take (buf_offset (buffer s1)) (buf_payload (buffer s1))
        = take (buf_offset (buffer s1)) data"
      using s1 by simp
    obtain rs s' where r: "hid_run s1 qs = Some (rs, s')" "hid_inv s'"
        "highest_allocated_cid s' = highest_allocated_cid s1"
        "buf_cid (buffer s') = c" "payload_length (buffer s') = length data"
        "buf_cmd (buffer s') = buf_cmd (buffer s1)"
        "start_time (buffer s') = start_time (buffer s1)"
        "buf_offset (buffer s') = length data"
        "take (length data) (buf_payload (buffer s')) = data"
        "count_list rs CTAPHID_RESULT_MESSAGE
           = (if buf_offset (buffer s1) < length data then 1 else 0)"
      using Cons.IH [OF s1(2) s1(4) Cons.prems(3) s1(5) tk qs'] by blast
    have run: "hid_run s (q # qs) = Some ((if ?off + ?n = length data
        then CTAPHID_RESULT_MESSAGE else CTAPHID_RESULT_BUFFERING) # rs, s')"
      using s1(1) r(1) q by simp
    have "?off + ?n \<le> length data" using lt by simp
    then show ?thesis
      using run r(2-9) s1(3,6,7) r(10) lt unfolding s1(8) by (intro exI conjI) auto
  qed
qed

lemma drop_3_Cons: "drop (3 + k) (a # b # c # xs) = drop k xs"
  by (simp add: numeral_3_eq_3)

lemma message_to_packets_ok:
  assumes "bit cmd 7" and "length data \<le> CTAPHID_MAX_PAYLOAD_LENGTH"
  defines "n \<equiv> min (length data) 57"
  shows "ctaphid_message_to_packets c cmd (length data) data =
    Some (\<lparr>pkt_cid = c, pkt_body = [cmd, hi8 (of_nat (length data)), lo8 (of_nat (length data))]
             @ take n data @ zeros (57 - n)\<rparr>
          # message_cont_packets c data n (length data - n) 0)"
  using assms bit7_eq_iff [of cmd]
  by (auto simp: drop_3_Cons ctaphid_message_to_packets_def ctaphid_create_init_packet_def buf_simps Let_def
      zeros_def)

lemma process_message_start:
  assumes inv: "hid_inv s" and idle: "is_idle (buffer s)"
      and c: "c \<noteq> 0" "c \<le> highest_allocated_cid s"
      and cmd: "bit cmd 7" "cmd \<noteq> CTAPHID_CANCEL" "cmd \<noteq> CTAPHID_INIT"
      and len: "length data \<le> CTAPHID_MAX_PAYLOAD_LENGTH" and n: "n = min (length data) 57"
      and p: "p = \<lparr>pkt_cid = c, pkt_body = [cmd, hi8 (of_nat (length data)),
                lo8 (of_nat (length data))] @ take n data @ zeros (57 - n)\<rparr>"
  shows "\<exists>s'. ctaphid_process_packet s p t = Some (if n = length data
             then CTAPHID_RESULT_MESSAGE else CTAPHID_RESULT_BUFFERING, s') \<and> hid_inv s'
           \<and> highest_allocated_cid s' = highest_allocated_cid s
           \<and> buf_cid (buffer s') = c \<and> payload_length (buffer s') = length data
           \<and> buf_cmd (buffer s') = cmd \<and> start_time (buffer s') = t
           \<and> buf_offset (buffer s') = n \<and> next_seq (buffer s') = 0
           \<and> take n (buf_payload (buffer s')) = take n data"
proof -
  have wf: "wf_packet p" using p n by (simp add: wf_packet_def)
  have v: "init_cmd p = cmd" "init_bcnt p = length data" "pkt_cid p = c"
      "take n (init_payload p) = take n data" "length (init_payload p) = 57"
    using p n len
    by (auto simp: init_cmd_def init_bcnt_def init_payload_def unat_of_nat take_bit_nat_eq_self)
  have "is_initialization_packet p"
    using cmd v by (simp add: is_initialization_packet_def bit7_iff)
  then have nz: "\<not> zero_length_stuck s p" by (simp add: zero_length_stuck_def)
  have lp: "length (buf_payload (buffer s)) = 7609"
    using inv by (simp add: hid_inv_def buffer_inv_def)
  let ?b = "(buffer s)\<lparr>start_time := t, buf_cid := c, buf_cmd := cmd,
    buf_cancel := False, payload_length := length data, next_seq := 0, buf_offset := 0\<rparr>"
  let ?s' = "s\<lparr>buffer := ?b\<lparr>buf_payload := take n data @ drop n (buf_payload (buffer s)),
    buf_offset := n\<rparr>\<rparr>"
  have "copy_payload_to_buffer ?b (init_payload p) 57 = Some (if n = length data
      then CTAPHID_RESULT_MESSAGE else CTAPHID_RESULT_BUFFERING, buffer ?s')"
    using copy_payload_to_buffer_inv [of ?b "init_payload p" 57] len lp v n
    by (simp add: min.commute)
  moreover have "\<not> invalid_channel s p"
    using c v by (simp add: invalid_channel_def not_less)
  ultimately have run: "ctaphid_process_packet s p t = Some (if n = length data
      then CTAPHID_RESULT_MESSAGE else CTAPHID_RESULT_BUFFERING, ?s')"
    using \<open>is_initialization_packet p\<close> v c cmd lp len idle
    by (simp add: ctaphid_process_packet_def process_first_packet_def)
  moreover have "hid_inv ?s'"
    using process_packet_total [OF inv wf nz, of t] run by simp
  ultimately show ?thesis
    using n by simp
qed

section \<open>Properties\<close>

text \<open>
  C4: Fragmentation and reassembly are inverse, under interference. Splitting any message of at
  most 7609 bytes with \<open>ctaphid_message_to_packets\<close> succeeds, and feeding the packets to
  \<open>ctaphid_process_packet\<close> from an idle buffer, with packets of other channels interleaved
  after the first one in any way and at any times, never fails an assertion, reports
  \<open>CTAPHID_RESULT_MESSAGE\<close> exactly once, and leaves exactly the message, its command, its channel
  and the time of its first packet in the buffer.
\<close>

theorem message_reassembly:
  assumes "hid_inv s" and "is_idle (buffer s)"
      and "c \<noteq> 0" and "c \<le> highest_allocated_cid s"
      and "bit cmd 7" and "cmd \<noteq> CTAPHID_CANCEL" and "cmd \<noteq> CTAPHID_INIT"
      and "length data \<le> CTAPHID_MAX_PAYLOAD_LENGTH"
  shows "\<exists>p ps. ctaphid_message_to_packets c cmd (length data) data = Some (p # ps) \<and>
    (\<forall>qs t. channel_packets c qs = ps \<longrightarrow>
      (\<exists>rs s'. hid_run s ((p, t) # qs) = Some (rs, s')
         \<and> count_list rs CTAPHID_RESULT_MESSAGE = 1
         \<and> ctaphid_has_complete_message_ready s' = Some True
         \<and> buf_cid (buffer s') = c \<and> buf_cmd (buffer s') = cmd
         \<and> start_time (buffer s') = t
         \<and> take (payload_length (buffer s')) (buf_payload (buffer s')) = data
         \<and> highest_allocated_cid s' = highest_allocated_cid s \<and> hid_inv s'))"
proof -
  let ?n = "min (length data) 57"
  let ?p = "\<lparr>pkt_cid = c, pkt_body = [cmd, hi8 (of_nat (length data)),
    lo8 (of_nat (length data))] @ take ?n data @ zeros (57 - ?n)\<rparr>"
  let ?ps = "message_cont_packets c data ?n (length data - ?n) 0"
  have split: "ctaphid_message_to_packets c cmd (length data) data = Some (?p # ?ps)"
    using message_to_packets_ok [of cmd data c] assms by simp
  have "\<exists>rs s'. hid_run s ((?p, t) # qs) = Some (rs, s')
         \<and> count_list rs CTAPHID_RESULT_MESSAGE = 1
         \<and> ctaphid_has_complete_message_ready s' = Some True
         \<and> buf_cid (buffer s') = c \<and> buf_cmd (buffer s') = cmd
         \<and> start_time (buffer s') = t
         \<and> take (payload_length (buffer s')) (buf_payload (buffer s')) = data
         \<and> highest_allocated_cid s' = highest_allocated_cid s \<and> hid_inv s'"
    if qs: "channel_packets c qs = ?ps" for qs t
  proof -
    obtain s1 where s1: "ctaphid_process_packet s ?p t = Some (if ?n = length data
             then CTAPHID_RESULT_MESSAGE else CTAPHID_RESULT_BUFFERING, s1)" "hid_inv s1"
        "highest_allocated_cid s1 = highest_allocated_cid s"
        "buf_cid (buffer s1) = c" "payload_length (buffer s1) = length data"
        "buf_cmd (buffer s1) = cmd" "start_time (buffer s1) = t"
        "buf_offset (buffer s1) = ?n" "next_seq (buffer s1) = 0"
        "take ?n (buf_payload (buffer s1)) = take ?n data"
      using process_message_start [OF assms refl refl, of t] by blast
    have tk: "take (buf_offset (buffer s1)) (buf_payload (buffer s1))
        = take (buf_offset (buffer s1)) data"
      unfolding s1(8) by (rule s1(10))
    have qs': "channel_packets c qs = message_cont_packets c data (buf_offset (buffer s1))
        (length data - buf_offset (buffer s1)) (next_seq (buffer s1))"
      unfolding s1(8,9) by (rule qs)
    obtain rs s' where r: "hid_run s1 qs = Some (rs, s')" "hid_inv s'"
        "highest_allocated_cid s' = highest_allocated_cid s1"
        "buf_cid (buffer s') = c" "payload_length (buffer s') = length data"
        "buf_cmd (buffer s') = buf_cmd (buffer s1)"
        "start_time (buffer s') = start_time (buffer s1)"
        "buf_offset (buffer s') = length data"
        "take (length data) (buf_payload (buffer s')) = data"
        "count_list rs CTAPHID_RESULT_MESSAGE
           = (if buf_offset (buffer s1) < length data then 1 else 0)"
      using run_continuations [OF s1(2,4) assms(3) s1(5) tk qs'] by blast
    have "buf_cid (buffer s') \<noteq> CTAPHID_BROADCAST_CID"
      using r(2) by (auto simp: hid_inv_def)
    then have ready: "ctaphid_has_complete_message_ready s' = Some True"
      using r s1 assms(3,5)
      by (auto simp: ctaphid_has_complete_message_ready_def is_idle_def is_complete_message_def
          require_def)
    have "count_list (if ?n = length data then CTAPHID_RESULT_MESSAGE # rs
        else CTAPHID_RESULT_BUFFERING # rs) CTAPHID_RESULT_MESSAGE = 1"
      using r(10) s1(8) by auto
    then show ?thesis
      using s1 r(1-9) ready by (cases "?n = length data") auto
  qed
  then show ?thesis
    using split by blast
qed

text \<open>
  A concrete state: static memory is zero at reset, \<open>ctaphid_init\<close> has run, and one channel is
  allocated.
\<close>

definition hid_boot :: ctaphid_state where
  "hid_boot = \<lparr>highest_allocated_cid = 0,
     buffer = \<lparr>start_time = 0, buf_cid = 0, buf_cmd = 0, buf_cancel = False, payload_length = 0,
       next_seq = 0, buf_offset = 0, buf_payload = zeros CTAPHID_MAX_PAYLOAD_LENGTH\<rparr>\<rparr>"

definition hid_one_channel :: ctaphid_state where
  "hid_one_channel = snd (ctaphid_allocate_channel (ctaphid_init hid_boot))"

lemma hid_one_channel_eq: "hid_one_channel = hid_boot\<lparr>highest_allocated_cid := 1\<rparr>"
  by (simp add: hid_one_channel_def ctaphid_allocate_channel_def ctaphid_init_def hid_boot_def
      reset_buffer_def)

lemma hid_one_channel_inv: "hid_inv hid_one_channel" "is_idle (buffer hid_one_channel)"
    "highest_allocated_cid hid_one_channel = 1"
  by (simp_all add: hid_one_channel_eq hid_boot_def hid_inv_def buffer_inv_def reset_buffer_def
      is_idle_def)

theorem message_reassembly_witness:
  "\<exists>p ps. ctaphid_message_to_packets 1 CTAPHID_PING 100 (replicate 100 0x5A) = Some (p # ps) \<and>
    (\<forall>qs t. channel_packets 1 qs = ps \<longrightarrow>
      (\<exists>rs s'. hid_run hid_one_channel ((p, t) # qs) = Some (rs, s')
         \<and> take (payload_length (buffer s')) (buf_payload (buffer s')) = replicate 100 0x5A))"
proof -
  have "bit CTAPHID_PING 7" by (simp add: bit_numeral_simps)
  then show ?thesis
    using message_reassembly [of hid_one_channel 1 CTAPHID_PING "replicate 100 0x5A"]
      hid_one_channel_inv by fastforce
qed

text \<open>
  Every packet keeps the invariant of the channel buffer, and the code's assertions and buffer
  bounds hold for every packet in every state with the invariant, with one exception, which the
  theorem characterises exactly: a continuation packet on the channel that holds a complete
  message of length 0.
\<close>

theorem process_packet_safe:
  assumes "hid_inv s" and "wf_packet p"
  shows "(ctaphid_process_packet s p t = None \<longleftrightarrow> zero_length_stuck s p)
    \<and> (\<forall>r s'. ctaphid_process_packet s p t = Some (r, s') \<longrightarrow> hid_inv s')"
  using process_packet_total [OF assms, of t] process_packet_stuck [OF assms(1), of p t]
  by (cases "zero_length_stuck s p") auto

definition ping_packet :: "nat \<Rightarrow> ctaphid_packet" where
  "ping_packet len = \<lparr>pkt_cid = 1,
     pkt_body = [CTAPHID_PING, hi8 (of_nat len), lo8 (of_nat len)] @ zeros 57\<rparr>"

definition cont_packet :: "u8 \<Rightarrow> ctaphid_packet" where
  "cont_packet seq = \<lparr>pkt_cid = 1, pkt_body = seq # zeros 59\<rparr>"

theorem process_packet_safe_witness:
  "ctaphid_process_packet hid_one_channel (ping_packet 100) 0 \<noteq> None"
proof -
  have "wf_packet (ping_packet 100)"
    by (simp add: wf_packet_def ping_packet_def)
  moreover have "\<not> zero_length_stuck hid_one_channel (ping_packet 100)"
    using hid_one_channel_inv by (auto simp: zero_length_stuck_def is_idle_def)
  ultimately show ?thesis
    using process_packet_safe [of hid_one_channel "ping_packet 100" 0] hid_one_channel_inv
    by simp
qed

text \<open>
  A transaction is isolated. While a channel holds the buffer, no packet of another channel
  (its cancel requests, its synchronisations, its messages, its continuation packets, and the
  broadcast of a channel allocation) changes the state, completes a message or cancels one.
\<close>

theorem transaction_isolated:
  assumes "hid_inv s" and "buf_cid (buffer s) \<noteq> 0" and "pkt_cid p \<noteq> buf_cid (buffer s)"
  shows "\<exists>r. ctaphid_process_packet s p t = Some (r, s) \<and> r \<noteq> CTAPHID_RESULT_MESSAGE
           \<and> r \<noteq> CTAPHID_RESULT_BUFFERING \<and> r \<noteq> CTAPHID_RESULT_CANCEL"
  by (rule busy_isolated [OF assms])

definition hid_busy :: ctaphid_state where
  "hid_busy = hid_one_channel\<lparr>highest_allocated_cid := 2,
     buffer := (buffer hid_one_channel)\<lparr>buf_cid := 2, buf_cmd := CTAPHID_CBOR,
       payload_length := 100, buf_offset := 57\<rparr>\<rparr>"

theorem transaction_isolated_witness:
  "\<exists>r. ctaphid_process_packet hid_busy (ping_packet 3) 7 = Some (r, hid_busy)"
proof -
  have "bit CTAPHID_CBOR 7" by (simp add: bit_numeral_simps)
  then have "hid_inv hid_busy"
    by (simp add: hid_busy_def hid_one_channel_eq hid_boot_def hid_inv_def buffer_inv_def
        received_def)
  moreover have "buf_cid (buffer hid_busy) = 2" by (simp add: hid_busy_def)
  ultimately show ?thesis
    using transaction_isolated [of hid_busy "ping_packet 3" 7] by (auto simp: ping_packet_def)
qed

text \<open>The ids that \<open>n\<close> allocations in a row return.\<close>

fun allocate_run :: "nat \<Rightarrow> ctaphid_state \<Rightarrow> u32 list \<times> ctaphid_state" where
  "allocate_run 0 s = ([], s)"
| "allocate_run (Suc n) s =
     (let (c, s') = ctaphid_allocate_channel s; (cs, s'') = allocate_run n s' in (c # cs, s''))"

lemma allocate_channel_cases:
  assumes "highest_allocated_cid s < CTAPHID_BROADCAST_CID"
  shows "ctaphid_allocate_channel s =
    (if unat (highest_allocated_cid s) = 2 ^ 32 - 2 then (0, s)
     else (highest_allocated_cid s + 1,
           s\<lparr>highest_allocated_cid := highest_allocated_cid s + 1\<rparr>))"
proof -
  have "highest_allocated_cid s + 1 = CTAPHID_BROADCAST_CID
      \<longleftrightarrow> highest_allocated_cid s = 0xfffffffe"
    by (simp add: eq_diff_eq [symmetric])
  then show ?thesis
    by (auto simp: ctaphid_allocate_channel_def word_eq_iff_unsigned [where ?'a = nat] Let_def)
qed

lemma allocate_run_map:
  "unat (highest_allocated_cid s) = h \<Longrightarrow> h \<le> 2 ^ 32 - 2 \<Longrightarrow>
   fst (allocate_run n s)
     = map (\<lambda>i. if h + i < 2 ^ 32 - 2 then of_nat (h + i + 1) else 0) [0..<n]
   \<and> buffer (snd (allocate_run n s)) = buffer s"
proof (induction n arbitrary: s h)
  case (Suc n)
  have lt: "highest_allocated_cid s < CTAPHID_BROADCAST_CID"
    using Suc.prems by (simp add: word_less_nat_alt)
  have up: "[0..<Suc n] = 0 # map Suc [0..<n]"
    by (simp add: upt_conv_Cons map_Suc_upt del: upt_Suc)
  show ?case
  proof (cases "h = 2 ^ 32 - 2")
    case True
    then show ?thesis
      using Suc.IH [OF Suc.prems] allocate_channel_cases [OF lt] Suc.prems up
      by (simp add: split_beta del: upt_Suc)
  next
    case False
    define s1 where "s1 = s\<lparr>highest_allocated_cid := highest_allocated_cid s + 1\<rparr>"
    have "unat (highest_allocated_cid s1) = Suc h"
      using Suc.prems False by (simp add: s1_def unat_word_ariths(1))
    then have ih: "fst (allocate_run n s1) = map (\<lambda>i. if Suc h + i < 2 ^ 32 - 2
          then of_nat (Suc h + i + 1) else 0) [0..<n] \<and> buffer (snd (allocate_run n s1)) = buffer s1"
      using Suc.prems False by (intro Suc.IH) simp_all
    have "highest_allocated_cid s + 1 = of_nat (h + 1)"
      using Suc.prems(1) [symmetric] by simp
    then have "ctaphid_allocate_channel s = (of_nat (h + 1), s1)"
      using allocate_channel_cases [OF lt] Suc.prems(1) False by (simp add: s1_def)
    moreover have "buffer s1 = buffer s" by (simp add: s1_def)
    ultimately show ?thesis
      using ih Suc.prems False unfolding up by (auto simp: split_beta)
  qed
qed simp

text \<open>
  Channel allocation. After \<open>ctaphid_init\<close>, any number of allocations hands out the ids
  1, 2, 3, .. up to 0xfffffffe in this order and 0 from then on: the broadcast id is never
  allocated, no id is allocated twice, the counter never wraps, and the channel buffer of an
  ongoing transaction is not touched.
\<close>

theorem allocate_fresh:
  "fst (allocate_run n (ctaphid_init s))
     = map (\<lambda>i. if i < 2 ^ 32 - 2 then of_nat (i + 1) else 0) [0..<n]
   \<and> CTAPHID_BROADCAST_CID \<notin> set (fst (allocate_run n (ctaphid_init s)))
   \<and> distinct (filter (\<lambda>c. c \<noteq> 0) (fst (allocate_run n (ctaphid_init s))))
   \<and> buffer (snd (allocate_run n (ctaphid_init s))) = buffer (ctaphid_init s)"
proof -
  define f :: "nat \<Rightarrow> u32" where "f = (\<lambda>i. if i < 2 ^ 32 - 2 then of_nat (i + 1) else 0)"
  have "unat (highest_allocated_cid (ctaphid_init s)) = 0"
    by (simp add: ctaphid_init_def)
  from allocate_run_map [OF this, of n]
  have run: "fst (allocate_run n (ctaphid_init s)) = map f [0..<n]"
    "buffer (snd (allocate_run n (ctaphid_init s))) = buffer (ctaphid_init s)"
    by (simp_all add: f_def)
  have un: "unat (f i) = (if i < 2 ^ 32 - 2 then i + 1 else 0)" for i
    by (simp add: f_def unat_of_nat take_bit_nat_eq_self unat_word_ariths(1))
  have "f i \<noteq> CTAPHID_BROADCAST_CID" for i
  proof
    assume "f i = CTAPHID_BROADCAST_CID"
    then show False using un [of i] by (simp split: if_splits)
  qed
  then have "CTAPHID_BROADCAST_CID \<notin> set (map f [0..<n])"
    by auto
  moreover have "inj_on f {i. f i \<noteq> 0}"
  proof (rule inj_onI)
    fix i j assume "i \<in> {i. f i \<noteq> 0}" "j \<in> {i. f i \<noteq> 0}" "f i = f j"
    then have "unat (f i) = unat (f j)" "unat (f i) \<noteq> 0"
      by (auto simp: unat_eq_zero)
    then show "i = j" using un [of i] un [of j] by (simp split: if_splits)
  qed
  then have "distinct (filter (\<lambda>c. c \<noteq> 0) (map f [0..<n]))"
    by (auto simp: filter_map distinct_map o_def intro: inj_on_subset)
  ultimately show ?thesis
    unfolding f_def [symmetric] using run by simp
qed

text \<open>
  The assertion \<open>payload_length != 0\<close> of \<open>ctaphid_process_packet\<close> is reachable from the bus.
  After one channel allocation, an empty \<open>CTAPHID_PING\<close> message followed by a continuation packet
  with sequence number 0 on the same channel, before the response is sent, fails it; with the
  assertions compiled out the message would be reported a second time.
\<close>

theorem zero_length_assertion_reachable:
  "\<exists>s'. hid_run hid_one_channel [(ping_packet 0, 10)] = Some ([CTAPHID_RESULT_MESSAGE], s')
     \<and> hid_inv s' \<and> ctaphid_process_packet s' (cont_packet 0) 11 = None"
proof -
  have "\<not> invalid_channel hid_one_channel (ping_packet 0)"
    using hid_one_channel_inv by (simp add: invalid_channel_def ping_packet_def)
  moreover have "init_cmd (ping_packet 0) = CTAPHID_PING" "init_bcnt (ping_packet 0) = 0"
      "pkt_cid (ping_packet 0) = 1" "wf_packet (ping_packet 0)"
    by (simp_all add: ping_packet_def init_cmd_def init_bcnt_def wf_packet_def)
  moreover have "is_initialization_packet (ping_packet 0)"
    using \<open>init_cmd (ping_packet 0) = CTAPHID_PING\<close> by (simp add: is_initialization_packet_def)
  ultimately obtain s' where s': "ctaphid_process_packet hid_one_channel (ping_packet 0) 10
      = Some (CTAPHID_RESULT_MESSAGE, s')" "hid_inv s'" "buf_cid (buffer s') = 1"
      "payload_length (buffer s') = 0" 
    using process_message_start [of hid_one_channel 1 CTAPHID_PING "[]" 0 "ping_packet 0" 10]
      hid_one_channel_inv by (auto simp: ping_packet_def bit_numeral_simps)
  have "zero_length_stuck s' (cont_packet 0)"
    using s' by (simp add: zero_length_stuck_def is_initialization_packet_def init_cmd_def
        cont_packet_def)
  then show ?thesis
    using s' process_packet_stuck [of s' "cont_packet 0" 11] by simp
qed

end
