(* ===== verification/User_Presence.thy ===== *)
theory User_Presence
  imports Prelude
begin

text \<open>The result of a wait for user presence (\<open>core/ctap.h\<close>), shared by the two layers.\<close>

datatype ctap_user_presence_result =
    CTAP_UP_RESULT_CANCEL | CTAP_UP_RESULT_TIMEOUT | CTAP_UP_RESULT_DENY | CTAP_UP_RESULT_ALLOW

end
