(* ===== verification/App_Hid.thy ===== *)
theory App_Hid
  imports Ctaphid User_Presence
begin

text \<open>
  The application layer between the CTAPHID transport, the USB stack and the CTAP layer
  (\<open>targets/stm32h533/Src/app.c\<close>, the send queue of \<open>usb.c\<close>): the handler of incoming HID reports,
  the send queue, keepalive messages, the wait for user presence, and the main loop's message
  task. The main loop is a step relation, because reports arrive and are sent at every point
  where the code calls \<open>app_hid_task\<close>, also inside \<open>ctap_request\<close>. The TinyUSB stack
  decides when a report arrives and when one can be sent; \<open>HAL_GetTick\<close> is an argument.
\<close>

section \<open>State\<close>

abbreviation (input) CTAPHID_MESSAGE_MAX_NUM_PACKETS :: nat where
  "CTAPHID_MESSAGE_MAX_NUM_PACKETS \<equiv> 129"
abbreviation (input) CTAP1_ERR_INVALID_COMMAND :: u8 where "CTAP1_ERR_INVALID_COMMAND \<equiv> 0x01"
abbreviation (input) CTAP_STATUS_PROCESSING :: u8 where "CTAP_STATUS_PROCESSING \<equiv> 1"
abbreviation (input) CTAP_STATUS_UPNEEDED :: u8 where "CTAP_STATUS_UPNEEDED \<equiv> 2"

text \<open>
  \<open>sent\<close> is the sequence of reports the USB stack has accepted; the code keeps no such list, it
  is what the host observes.
\<close>

record app_state =
  app_ctaphid :: ctaphid_state
  send_queue :: "ctaphid_packet list"
  sent :: "ctaphid_packet list"
  last_status :: u8
  last_status_timestamp :: u32
  button_pressed :: bool
  nfc_ctap_in_use :: bool
  nfc_user_present :: bool

section \<open>Send queue\<close>

text \<open>
  \<open>tu_fifo\<close> in non-overwritable mode: a write to a full queue fails. \<open>None\<close> is
  \<open>Error_Handler\<close>.
\<close>

definition app_hid_report_send_queue_add ::
    "ctaphid_packet \<Rightarrow> bool \<Rightarrow> app_state \<Rightarrow> app_state option" where
  "app_hid_report_send_queue_add packet fail_if_full w =
     (if length (send_queue w) < CTAPHID_MESSAGE_MAX_NUM_PACKETS
        then Some (w\<lparr>send_queue := send_queue w @ [packet]\<rparr>)
      else if fail_if_full then None else Some w)"

definition app_hid_report_send_queue_is_empty :: "app_state \<Rightarrow> bool" where
  "app_hid_report_send_queue_is_empty w \<longleftrightarrow> send_queue w = []"

text \<open>\<open>accepted\<close> is the result of \<open>tud_hid_report\<close>.\<close>

definition app_hid_report_send_queue_send_one_if_possible ::
    "bool \<Rightarrow> app_state \<Rightarrow> app_state" where
  "app_hid_report_send_queue_send_one_if_possible accepted w =
     (case send_queue w of
        [] \<Rightarrow> w
      | p # ps \<Rightarrow> if accepted then w\<lparr>send_queue := ps, sent := sent w @ [p]\<rparr> else w)"

fun queue_packets :: "ctaphid_packet list \<Rightarrow> app_state \<Rightarrow> app_state option" where
  "queue_packets [] w = Some w"
| "queue_packets (p # ps) w =
     do { w' \<leftarrow> app_hid_report_send_queue_add p True w; queue_packets ps w' }"

section \<open>Incoming reports\<close>

definition app_capabilities :: u8 where
  "app_capabilities = 0x01 OR 0x04 OR 0x08"

text \<open>
  \<open>junk\<close> is the value of the local variable \<open>error_code\<close> before anything is assigned to it: the
  branch for an exhausted id space reads it.
\<close>

definition app_handle_incoming_hid_packet ::
    "u8 \<Rightarrow> u32 \<Rightarrow> ctaphid_packet \<Rightarrow> app_state \<Rightarrow> app_state option" where
  "app_handle_incoming_hid_packet junk current_time packet w =
     do { timeout \<leftarrow> ctaphid_has_incomplete_message_timeout (app_ctaphid w) current_time;
          s0 \<leftarrow> (if timeout then
                   do { _ \<leftarrow> ctaphid_create_error_packet (buf_cid (buffer (app_ctaphid w)))
                               CTAP1_ERR_TIMEOUT;
                        Some (ctaphid_reset_to_idle (app_ctaphid w)) }
                 else Some (app_ctaphid w));
          (result, s1) \<leftarrow> ctaphid_process_packet s0 packet current_time;
          case result of
            CTAPHID_RESULT_ERROR error_code \<Rightarrow>
              do { res \<leftarrow> ctaphid_create_error_packet (pkt_cid packet) error_code;
                   app_hid_report_send_queue_add res False (w\<lparr>app_ctaphid := s1\<rparr>) }
          | CTAPHID_RESULT_ALLOCATE_CHANNEL \<Rightarrow>
              (let (new_channel_id, s2) = ctaphid_allocate_channel s1 in
               if new_channel_id = 0 then
                 do { res \<leftarrow> ctaphid_create_error_packet (pkt_cid packet) junk;
                      app_hid_report_send_queue_add res False (w\<lparr>app_ctaphid := s2\<rparr>) }
               else
                 do { res \<leftarrow> ctaphid_create_ctaphid_init_response_packet (init_payload packet)
                        CTAPHID_BROADCAST_CID (highest_allocated_cid s2) 1 0 0 app_capabilities;
                      app_hid_report_send_queue_add res False (w\<lparr>app_ctaphid := s2\<rparr>) })
          | CTAPHID_RESULT_DISCARD_INCOMPLETE_MESSAGE \<Rightarrow>
              do { res \<leftarrow> ctaphid_create_ctaphid_init_response_packet (init_payload packet)
                     (pkt_cid packet) (highest_allocated_cid s1) 1 0 0 app_capabilities;
                   app_hid_report_send_queue_add res False (w\<lparr>app_ctaphid := s1\<rparr>) }
          | _ \<Rightarrow> Some (w\<lparr>app_ctaphid := s1\<rparr>) }"

text \<open>
  \<open>app_hid_task\<close>: \<open>tud_task\<close> delivers the reports that have arrived (\<open>bufsize\<close> equal to the
  packet size; others are dropped by \<open>tud_hid_set_report_cb\<close>), then one queued report is offered
  to the stack.
\<close>

record hid_input =
  arrived :: "ctaphid_packet list"
  accepted :: bool
  tick :: u32

fun deliver_reports :: "u8 \<Rightarrow> u32 \<Rightarrow> ctaphid_packet list \<Rightarrow> app_state \<Rightarrow> app_state option" where
  "deliver_reports junk now [] w = Some w"
| "deliver_reports junk now (p # ps) w =
     do { w' \<leftarrow> app_handle_incoming_hid_packet junk now p w; deliver_reports junk now ps w' }"

definition app_hid_task :: "u8 \<Rightarrow> hid_input \<Rightarrow> app_state \<Rightarrow> app_state option" where
  "app_hid_task junk i w =
     do { w' \<leftarrow> deliver_reports junk (tick i) (arrived i) w;
          Some (app_hid_report_send_queue_send_one_if_possible (accepted i) w') }"

section \<open>Keepalive and user presence\<close>

definition app_ctap_reset_keepalive :: "app_state \<Rightarrow> app_state" where
  "app_ctap_reset_keepalive w =
     w\<lparr>last_status := CTAP_STATUS_PROCESSING, last_status_timestamp := 0\<rparr>"

definition app_ctaphid_send_keepalive :: "u8 \<Rightarrow> u32 \<Rightarrow> app_state \<Rightarrow> app_state option" where
  "app_ctaphid_send_keepalive status now w =
     do { ready \<leftarrow> ctaphid_has_complete_message_ready (app_ctaphid w);
          require ready (
            do { p \<leftarrow> ctaphid_create_init_packet (buf_cid (buffer (app_ctaphid w)))
                   CTAPHID_KEEPALIVE 1;
                 w' \<leftarrow> app_hid_report_send_queue_add
                   (p\<lparr>pkt_body := (pkt_body p)[3 := status]\<rparr>) False w;
                 Some (w'\<lparr>last_status_timestamp := now\<rparr>) }) }"

text \<open>The NFC branch calls the RFAL worker, which does not touch this state.\<close>

definition app_ctap_send_keepalive_if_needed :: "u8 \<Rightarrow> u32 \<Rightarrow> app_state \<Rightarrow> app_state option" where
  "app_ctap_send_keepalive_if_needed current_status now w =
     (if nfc_ctap_in_use w then Some w
      else if current_status \<noteq> last_status w
        then app_ctaphid_send_keepalive current_status now (w\<lparr>last_status := current_status\<rparr>)
      else if now - last_status_timestamp w > 80
        then app_ctaphid_send_keepalive current_status now w
      else Some w)"

definition ctap_send_keepalive_if_needed ::
    "u8 \<Rightarrow> u8 \<Rightarrow> hid_input \<Rightarrow> app_state \<Rightarrow> app_state option" where
  "ctap_send_keepalive_if_needed junk current_status i w =
     do { w' \<leftarrow> app_ctap_send_keepalive_if_needed current_status (tick i) w;
          app_hid_task junk i w' }"

text \<open>
  The \<open>while (true)\<close> loop of \<open>ctap_wait_for_user_presence\<close>, driven by what the environment
  does in each turn: the reports of the USB stack, the time, and whether the button interrupt
  fired. \<open>None\<close> as the result: the given turns are over and the loop still waits.
\<close>

fun user_presence_loop :: "u8 \<Rightarrow> u32 \<Rightarrow> (hid_input \<times> bool) list \<Rightarrow> app_state
    \<Rightarrow> (ctap_user_presence_result option \<times> app_state) option" where
  "user_presence_loop junk start [] w = Some (None, w)"
| "user_presence_loop junk start ((i, button) # turns) w =
     do { w1 \<leftarrow> app_hid_task junk i w;
          let w2 = (if button then w1\<lparr>button_pressed := True\<rparr> else w1);
          if buf_cancel (buffer (app_ctaphid w2)) then Some (Some CTAP_UP_RESULT_CANCEL, w2)
          else if tick i - start > 30000 then Some (Some CTAP_UP_RESULT_TIMEOUT, w2)
          else if button_pressed w2
            then Some (Some CTAP_UP_RESULT_ALLOW, w2\<lparr>button_pressed := False\<rparr>)
          else do { w3 \<leftarrow> app_ctap_send_keepalive_if_needed CTAP_STATUS_UPNEEDED (tick i) w2;
                    user_presence_loop junk start turns w3 } }"

definition ctap_wait_for_user_presence :: "u8 \<Rightarrow> u32 \<Rightarrow> (hid_input \<times> bool) list \<Rightarrow> app_state
    \<Rightarrow> (ctap_user_presence_result option \<times> app_state) option" where
  "ctap_wait_for_user_presence junk start turns w =
     (if nfc_user_present w then Some (Some CTAP_UP_RESULT_ALLOW, w)
      else do { w1 \<leftarrow> app_ctap_send_keepalive_if_needed CTAP_STATUS_UPNEEDED start w;
                user_presence_loop junk start turns (w1\<lparr>button_pressed := False\<rparr>) })"

section \<open>The message task\<close>

text \<open>
  \<open>app_ctaphid_task\<close> after the send queue has drained, for a message that is not handed to
  \<open>ctap_request\<close>.
\<close>

definition app_ctaphid_answer_directly :: "u8 \<Rightarrow> app_state \<Rightarrow> app_state option" where
  "app_ctaphid_answer_directly cmd w =
     (let message = buffer (app_ctaphid w);
          reset = (\<lambda>w. w\<lparr>app_ctaphid := ctaphid_reset_to_idle (app_ctaphid w)\<rparr>) in
      if cmd = CTAPHID_PING then
        do { ps \<leftarrow> ctaphid_message_to_packets (buf_cid message) CTAPHID_PING
               (payload_length message) (buf_payload message);
             w' \<leftarrow> queue_packets ps w;
             Some (reset w') }
      else if cmd = CTAPHID_WINK then
        do { p \<leftarrow> (if payload_length message \<noteq> 0
                  then ctaphid_create_error_packet (buf_cid message) CTAP1_ERR_INVALID_LENGTH
                  else ctaphid_create_init_packet (buf_cid message) CTAPHID_WINK 0);
             w' \<leftarrow> app_hid_report_send_queue_add p True w;
             Some (reset w') }
      else if cmd = CTAPHID_CBOR then
        do { p \<leftarrow> ctaphid_create_error_packet (buf_cid message) CTAP1_ERR_INVALID_LENGTH;
             w' \<leftarrow> app_hid_report_send_queue_add p True w;
             Some (reset w') }
      else
        do { p \<leftarrow> ctaphid_create_error_packet (buf_cid message) CTAP1_ERR_INVALID_COMMAND;
             w' \<leftarrow> app_hid_report_send_queue_add p True w;
             Some (reset w') })"

text \<open>The response of \<open>ctap_request\<close>: the status byte and the response data.\<close>

definition app_ctaphid_answer_cbor :: "bytes \<Rightarrow> app_state \<Rightarrow> app_state option" where
  "app_ctaphid_answer_cbor response w =
     do { ps \<leftarrow> ctaphid_message_to_packets (buf_cid (buffer (app_ctaphid w))) CTAPHID_CBOR
            (length response) response;
          w' \<leftarrow> queue_packets ps w;
          Some (w'\<lparr>app_ctaphid := ctaphid_reset_to_idle (app_ctaphid w')\<rparr>) }"

text \<open>
  The points of the main loop at which the environment acts: at the top of the loop, in the two
  waits for an empty queue, and inside \<open>ctap_request\<close>. \<open>WaitBefore\<close> holds the local variable
  \<open>cmd\<close>, \<open>WaitAfter\<close> the response buffer.
\<close>

datatype point = MainLoop | WaitBefore u8 | Working | WaitAfter bytes

inductive app_step :: "point \<times> app_state \<Rightarrow> point \<times> app_state \<Rightarrow> bool" where
  receive: "wf_packet p \<Longrightarrow> app_handle_incoming_hid_packet junk now p w = Some w'
    \<Longrightarrow> app_step (pt, w) (pt, w')"
| transmit: "app_step (pt, w) (pt, app_hid_report_send_queue_send_one_if_possible a w)"
| start: "ctaphid_has_complete_message_ready (app_ctaphid w) = Some True
    \<Longrightarrow> app_step (MainLoop, w) (WaitBefore (buf_cmd (buffer (app_ctaphid w))), w)"
| direct: "app_hid_report_send_queue_is_empty w
    \<Longrightarrow> cmd \<noteq> CTAPHID_CBOR \<or> payload_length (buffer (app_ctaphid w)) = 0
    \<Longrightarrow> app_ctaphid_answer_directly cmd w = Some w'
    \<Longrightarrow> app_step (WaitBefore cmd, w) (MainLoop, w')"
| request: "app_hid_report_send_queue_is_empty w
    \<Longrightarrow> payload_length (buffer (app_ctaphid w)) \<noteq> 0
    \<Longrightarrow> app_step (WaitBefore CTAPHID_CBOR, w) (Working, app_ctap_reset_keepalive w)"
| keepalive: "app_ctap_send_keepalive_if_needed st now w = Some w'
    \<Longrightarrow> app_step (Working, w) (Working, w')"
| finish: "length data \<le> CTAPHID_MAX_PAYLOAD_LENGTH - 1
    \<Longrightarrow> app_step (Working, w) (WaitAfter (status # data), w)"
| answer: "app_hid_report_send_queue_is_empty w
    \<Longrightarrow> app_ctaphid_answer_cbor response w = Some w'
    \<Longrightarrow> app_step (WaitAfter response, w) (MainLoop, w')"

inductive_cases app_stepE: "app_step c c'"

section \<open>A complete message is kept until it is answered\<close>

definition message_of :: "ctaphid_channel_buffer \<Rightarrow> u32 \<times> u8 \<times> bytes" where
  "message_of b = (buf_cid b, buf_cmd b, take (payload_length b) (buf_payload b))"

definition holds_message :: "ctaphid_channel_buffer \<Rightarrow> bool" where
  "holds_message b \<longleftrightarrow> buf_cid b \<noteq> 0 \<and> is_complete_message b"

lemma process_packet_keeps_complete:
  assumes inv: "hid_inv s" and held: "holds_message (buffer s)" and wf: "wf_packet p"
      and step: "ctaphid_process_packet s p t = Some (r, s')"
  shows "message_of (buffer s') = message_of (buffer s) \<and> holds_message (buffer s')
         \<and> payload_length (buffer s') = payload_length (buffer s)
         \<and> highest_allocated_cid s' = highest_allocated_cid s"
proof (cases "pkt_cid p = buf_cid (buffer s)")
  case False
  then have "s' = s"
    using busy_isolated [OF inv _ False, of t] held step by (auto simp: holds_message_def)
  then show ?thesis using held by simp
next
  case own: True
  have c: "pkt_cid p \<noteq> 0" "pkt_cid p \<le> highest_allocated_cid s"
      "pkt_cid p \<noteq> CTAPHID_BROADCAST_CID" "buf_offset (buffer s) = payload_length (buffer s)"
      "length (buf_payload (buffer s)) = 7609" "payload_length (buffer s) \<le> 7609"
    using own held inv by (auto simp: holds_message_def hid_inv_def buffer_inv_def
        is_complete_message_def)
  have v: "\<not> invalid_channel s p" using c by (simp add: invalid_channel_def not_less)
  consider (init) "is_initialization_packet p" | (cont) "\<not> is_initialization_packet p" by blast
  then show ?thesis
  proof cases
    case init
    then show ?thesis
      using step v c held own
      by (auto simp: ctaphid_process_packet_def process_cancel_def process_init_def message_of_def
          process_first_packet_def require_def holds_message_def is_idle_def
          is_complete_message_def is_incomplete_message_def split: if_splits)
  next
    case cont
    have d: "length (cont_payload p) = 59" using wf by (simp add: wf_packet_def cont_payload_def)
    let ?b = "(buffer s)\<lparr>next_seq := next_seq (buffer s) + 1\<rparr>"
    have "copy_payload_to_buffer ?b (cont_payload p) 59 = Some (CTAPHID_RESULT_MESSAGE, ?b)"
      using copy_payload_to_buffer_inv [of ?b "cont_payload p" 59] c d by simp
    then show ?thesis
      using step v c held own cont
      by (auto simp: ctaphid_process_packet_def process_continuation_def require_def
          message_of_def holds_message_def is_complete_message_def split: if_splits)
  qed
qed

lemma allocate_channel_keeps:
  assumes "hid_inv s"
  shows "hid_inv (snd (ctaphid_allocate_channel s))"
    and "buffer (snd (ctaphid_allocate_channel s)) = buffer s"
proof -
  have lt: "highest_allocated_cid s < CTAPHID_BROADCAST_CID" using assms by (simp add: hid_inv_def)
  have "unat (highest_allocated_cid s) \<noteq> 2 ^ 32 - 2 \<Longrightarrow>
      unat (highest_allocated_cid s + 1) = Suc (unat (highest_allocated_cid s))
      \<and> Suc (unat (highest_allocated_cid s)) < 2 ^ 32 - 1"
    using lt by (auto simp: word_less_nat_alt unat_word_ariths(1))
  then show "hid_inv (snd (ctaphid_allocate_channel s))"
    using assms unfolding allocate_channel_cases [OF lt]
    by (auto simp: hid_inv_def word_less_nat_alt word_le_nat_alt)
  show "buffer (snd (ctaphid_allocate_channel s)) = buffer s"
    unfolding allocate_channel_cases [OF lt] by simp
qed

lemma create_error_packet_ok [simp]:
  "ctaphid_create_error_packet c e = Some \<lparr>pkt_cid = c, pkt_body = [CTAPHID_ERROR, 0, 1, e] @ zeros 56\<rparr>"
  using replicate_Suc [of 56 "0 :: u8"]
  by (simp add: ctaphid_create_error_packet_def ctaphid_create_init_packet_def hi8_def lo8_def
      zeros_def)

lemma create_init_response_ok:
  "8 \<le> length nonce \<Longrightarrow>
   \<exists>p. ctaphid_create_ctaphid_init_response_packet nonce tc rc a b c cap = Some p"
  by (simp add: ctaphid_create_ctaphid_init_response_packet_def ctaphid_create_init_packet_def
      buf_simps)

text \<open>The queue after a report whose loss is tolerated.\<close>

definition push_report :: "ctaphid_packet list \<Rightarrow> ctaphid_packet \<Rightarrow> ctaphid_packet list" where
  "push_report q p = (if length q < CTAPHID_MESSAGE_MAX_NUM_PACKETS then q @ [p] else q)"

lemma queue_add_False [simp]:
  "app_hid_report_send_queue_add p False w
     = Some (w\<lparr>send_queue := push_report (send_queue w) p\<rparr>)"
  by (simp add: app_hid_report_send_queue_add_def push_report_def)

lemma length_push_report: "length q \<le> 129 \<Longrightarrow> length (push_report q p) \<le> 129"
  by (simp add: push_report_def)

lemma queue_packets_ok:
  "length (send_queue w) + length ps \<le> CTAPHID_MESSAGE_MAX_NUM_PACKETS \<Longrightarrow>
   queue_packets ps w = Some (w\<lparr>send_queue := send_queue w @ ps\<rparr>)"
  by (induction ps arbitrary: w) (auto simp: app_hid_report_send_queue_add_def)

text \<open>The number of packets of a message, and their independence of the bytes behind it.\<close>

lemma length_message_cont_packets:
  "r \<le> 59 * k \<Longrightarrow> length (message_cont_packets c data off r seq) \<le> k"
proof (induction k arbitrary: off r seq)
  case (Suc k)
  then show ?case
    using Suc.IH [of "r - min r 59"] message_cont_packets_Cons [of r c data off seq]
    by (cases "r = 0") (auto simp: min_def)
qed simp

lemma message_cont_packets_take:
  "message_cont_packets c (take (off + r) data) off r seq = message_cont_packets c data off r seq"
proof (induction r arbitrary: off seq rule: less_induct)
  case (less r)
  show ?case
  proof (cases "r = 0")
    case False
    let ?n = "min r 59"
    have "message_cont_packets c (take (off + ?n + (r - ?n)) data) (off + ?n) (r - ?n) (seq + 1)
        = message_cont_packets c data (off + ?n) (r - ?n) (seq + 1)"
      using False by (intro less) simp
    moreover have "off + ?n + (r - ?n) = off + r" by simp
    moreover have "take ?n (drop off (take (off + r) data)) = take ?n (drop off data)"
      by (simp add: drop_take)
    ultimately show ?thesis
      using False by (simp add: message_cont_packets_Cons)
  qed simp
qed

lemma message_to_packets_take:
  assumes "len \<le> length data"
  shows "ctaphid_message_to_packets c cmd len data
       = ctaphid_message_to_packets c cmd (length (take len data)) (take len data)"
  using assms message_cont_packets_take [of c "min len 57" "len - min len 57" data 0]
  by (simp add: ctaphid_message_to_packets_def min_absorb2 min.commute Let_def cong: if_cong)

lemma message_to_packets_count:
  assumes "bit cmd 7" and "len \<le> CTAPHID_MAX_PAYLOAD_LENGTH" and "len \<le> length data"
  shows "\<exists>ps. ctaphid_message_to_packets c cmd len data = Some ps
              \<and> length ps \<le> CTAPHID_MESSAGE_MAX_NUM_PACKETS"
proof -
  have "len - min len 57 \<le> 59 * 128" using assms by simp
  from length_message_cont_packets [OF this]
  show ?thesis
    using assms message_to_packets_take [OF assms(3), of c cmd]
      message_to_packets_ok [of cmd "take len data" c]
    by (auto simp: min_absorb2)
qed

section \<open>Invariant of the main loop\<close>

definition app_inv :: "point \<times> app_state \<Rightarrow> bool" where
  "app_inv c \<longleftrightarrow>
     (let (pt, w) = c; b = buffer (app_ctaphid w) in
      hid_inv (app_ctaphid w) \<and> length (send_queue w) \<le> CTAPHID_MESSAGE_MAX_NUM_PACKETS
      \<and> (pt \<noteq> MainLoop \<longrightarrow> holds_message b)
      \<and> (case pt of
           MainLoop \<Rightarrow> True
         | WaitBefore cmd \<Rightarrow> cmd = buf_cmd b
         | Working \<Rightarrow> buf_cmd b = CTAPHID_CBOR \<and> payload_length b \<noteq> 0
         | WaitAfter response \<Rightarrow> buf_cmd b = CTAPHID_CBOR \<and> payload_length b \<noteq> 0
             \<and> length response \<le> CTAPHID_MAX_PAYLOAD_LENGTH))"

lemma timeout_ok:
  assumes "hid_inv s"
  shows "ctaphid_has_incomplete_message_timeout s now
       = Some (is_incomplete_message (buffer s) \<and> now - start_time (buffer s) > 2000)"
proof (cases "is_incomplete_message (buffer s)")
  case True
  then have "buf_cid (buffer s) \<noteq> 0"
    using assms buffer_inv_idle [of "buffer s"] by (auto simp: hid_inv_def is_incomplete_message_def)
  then have "bit (buf_cmd (buffer s)) 7"
    using assms by (simp add: hid_inv_def buffer_inv_def)
  then have "buf_cmd (buffer s) \<noteq> 0" by auto
  moreover have "buf_cid (buffer s) \<noteq> CTAPHID_BROADCAST_CID"
    using assms by (auto simp: hid_inv_def)
  ultimately show ?thesis
    using True by (simp add: ctaphid_has_incomplete_message_timeout_def)
next
  case False
  then show ?thesis by (simp add: ctaphid_has_incomplete_message_timeout_def)
qed

lemma reset_to_idle_inv: "hid_inv s \<Longrightarrow> hid_inv (ctaphid_reset_to_idle s)"
  by (auto simp: hid_inv_def ctaphid_reset_to_idle_def buffer_inv_def)

text \<open>
  The state with which a report is processed: a message that timed out is discarded first.
\<close>

definition expire :: "u32 \<Rightarrow> ctaphid_state \<Rightarrow> ctaphid_state" where
  "expire now s =
     (if is_incomplete_message (buffer s) \<and> now - start_time (buffer s) > 2000
      then ctaphid_reset_to_idle s else s)"

lemma expire_inv: "hid_inv s \<Longrightarrow> hid_inv (expire now s)"
  by (simp add: expire_def reset_to_idle_inv)

lemma expire_complete: "holds_message (buffer s) \<Longrightarrow> expire now s = s"
  by (auto simp: expire_def holds_message_def is_complete_message_def is_incomplete_message_def)

lemma zero_length_stuck_expire: "zero_length_stuck (expire now s) p \<longleftrightarrow> zero_length_stuck s p"
  by (auto simp: expire_def zero_length_stuck_def ctaphid_reset_to_idle_def
      is_incomplete_message_def)

lemma handle_incoming_unfold:
  assumes "hid_inv (app_ctaphid w)"
      and "ctaphid_process_packet (expire now (app_ctaphid w)) p now = Some (r, s1)"
      and "wf_packet p"
  shows "\<exists>s2 q. app_handle_incoming_hid_packet junk now p w
             = Some (w\<lparr>app_ctaphid := s2, send_queue := q\<rparr>)
           \<and> (s2 = s1 \<or> s2 = snd (ctaphid_allocate_channel s1))
           \<and> (length (send_queue w) \<le> 129 \<longrightarrow> length q \<le> 129)"
proof -
  have np: "8 \<le> length (init_payload p)"
    using assms(3) by (simp add: wf_packet_def init_payload_def)
  have e: "app_handle_incoming_hid_packet junk now p w =
     (case r of
            CTAPHID_RESULT_ERROR error_code \<Rightarrow>
              do { res \<leftarrow> ctaphid_create_error_packet (pkt_cid p) error_code;
                   app_hid_report_send_queue_add res False (w\<lparr>app_ctaphid := s1\<rparr>) }
          | CTAPHID_RESULT_ALLOCATE_CHANNEL \<Rightarrow>
              (let (new_channel_id, s2) = ctaphid_allocate_channel s1 in
               if new_channel_id = 0 then
                 do { res \<leftarrow> ctaphid_create_error_packet (pkt_cid p) junk;
                      app_hid_report_send_queue_add res False (w\<lparr>app_ctaphid := s2\<rparr>) }
               else
                 do { res \<leftarrow> ctaphid_create_ctaphid_init_response_packet (init_payload p)
                        CTAPHID_BROADCAST_CID (highest_allocated_cid s2) 1 0 0 app_capabilities;
                      app_hid_report_send_queue_add res False (w\<lparr>app_ctaphid := s2\<rparr>) })
          | CTAPHID_RESULT_DISCARD_INCOMPLETE_MESSAGE \<Rightarrow>
              do { res \<leftarrow> ctaphid_create_ctaphid_init_response_packet (init_payload p)
                     (pkt_cid p) (highest_allocated_cid s1) 1 0 0 app_capabilities;
                   app_hid_report_send_queue_add res False (w\<lparr>app_ctaphid := s1\<rparr>) }
          | _ \<Rightarrow> Some (w\<lparr>app_ctaphid := s1\<rparr>))"
    using assms(2) unfolding app_handle_incoming_hid_packet_def timeout_ok [OF assms(1)] expire_def
    by (auto split: if_splits)
  obtain cid s2 where a: "ctaphid_allocate_channel s1 = (cid, s2)"
    by (cases "ctaphid_allocate_channel s1")
  obtain r1 where r1: "ctaphid_create_ctaphid_init_response_packet (init_payload p)
      CTAPHID_BROADCAST_CID (highest_allocated_cid s2) 1 0 0 app_capabilities = Some r1"
    using create_init_response_ok [OF np] by blast
  obtain r2 where r2: "ctaphid_create_ctaphid_init_response_packet (init_payload p)
      (pkt_cid p) (highest_allocated_cid s1) 1 0 0 app_capabilities = Some r2"
    using create_init_response_ok [OF np] by blast
  show ?thesis
  proof (cases r)
    case CTAPHID_RESULT_ALLOCATE_CHANNEL
    then show ?thesis
      unfolding e using r1 length_push_report by (cases "cid = 0") (auto simp: a)
  next
    case (CTAPHID_RESULT_ERROR x)
    then show ?thesis unfolding e using length_push_report by auto
  next
    case CTAPHID_RESULT_DISCARD_INCOMPLETE_MESSAGE
    then show ?thesis unfolding e using r2 length_push_report by auto
  qed (simp_all add: e, (rule exI [of _ s1], rule exI [of _ "send_queue w"], simp)+)
qed

text \<open>A report, a keepalive and an answer, in a state with the invariant.\<close>

lemma handle_incoming_inv:
  assumes inv: "app_inv (pt, w)" and wf: "wf_packet p"
      and ok: "\<not> zero_length_stuck (app_ctaphid w) p"
  shows "\<exists>w'. app_handle_incoming_hid_packet junk now p w = Some w' \<and> app_inv (pt, w')
    \<and> (pt \<noteq> MainLoop \<longrightarrow>
        message_of (buffer (app_ctaphid w')) = message_of (buffer (app_ctaphid w)))"
proof -
  let ?s = "expire now (app_ctaphid w)"
  have s: "hid_inv ?s" "length (send_queue w) \<le> 129"
    using inv expire_inv by (auto simp: app_inv_def Let_def)
  obtain r s1 where r: "ctaphid_process_packet ?s p now = Some (r, s1)" "hid_inv s1"
    using process_packet_total [OF s(1) wf] ok zero_length_stuck_expire by blast
  obtain s2 q where w': "app_handle_incoming_hid_packet junk now p w
      = Some (w\<lparr>app_ctaphid := s2, send_queue := q\<rparr>)"
      "s2 = s1 \<or> s2 = snd (ctaphid_allocate_channel s1)" "length q \<le> 129"
    using handle_incoming_unfold [OF _ r(1) wf, of junk] inv s(2)
    by (auto simp: app_inv_def Let_def)
  have s2: "hid_inv s2" "buffer s2 = buffer s1"
    using w'(2) r(2) allocate_channel_keeps by auto
  have keep: "pt \<noteq> MainLoop \<Longrightarrow> message_of (buffer s1) = message_of (buffer (app_ctaphid w))
      \<and> holds_message (buffer s1)
      \<and> payload_length (buffer s1) = payload_length (buffer (app_ctaphid w))"
    using process_packet_keeps_complete [OF s(1) _ wf r(1)] expire_complete inv
    by (auto simp: app_inv_def Let_def)
  then have "app_inv (pt, w\<lparr>app_ctaphid := s2, send_queue := q\<rparr>)"
    using inv w'(3) s2
    by (cases pt) (auto simp: app_inv_def Let_def message_of_def)
  then show ?thesis
    using w'(1) keep s2(2) by auto
qed

lemma complete_message_ready:
  assumes "hid_inv s" and "holds_message (buffer s)"
  shows "ctaphid_has_complete_message_ready s = Some True"
    and "bit (buf_cmd (buffer s)) 7"
proof -
  show b: "bit (buf_cmd (buffer s)) 7"
    using assms by (simp add: hid_inv_def buffer_inv_def holds_message_def)
  then have "buf_cmd (buffer s) \<noteq> 0" by auto
  moreover have "buf_cid (buffer s) \<noteq> CTAPHID_BROADCAST_CID"
    using assms by (auto simp: hid_inv_def)
  ultimately show "ctaphid_has_complete_message_ready s = Some True"
    using assms by (simp add: ctaphid_has_complete_message_ready_def holds_message_def is_idle_def)
qed

lemma ready_holds_message:
  "ctaphid_has_complete_message_ready s = Some True \<Longrightarrow> holds_message (buffer s)"
  by (auto simp: ctaphid_has_complete_message_ready_def holds_message_def is_idle_def require_def
      split: if_splits)

lemma keepalive_inv:
  assumes inv: "app_inv (Working, w)"
  shows "\<exists>w'. app_ctap_send_keepalive_if_needed st now w = Some w' \<and> app_inv (Working, w')
    \<and> app_ctaphid w' = app_ctaphid w"
proof -
  have r: "ctaphid_has_complete_message_ready (app_ctaphid w) = Some True"
    using inv by (intro complete_message_ready) (auto simp: app_inv_def Let_def)
  have "\<exists>w'. app_ctaphid_send_keepalive st now v = Some w' \<and> app_inv (Working, w')
    \<and> app_ctaphid w' = app_ctaphid w"
    if "app_ctaphid v = app_ctaphid w" "send_queue v = send_queue w" for v
    using r that inv length_push_report
    by (auto simp: app_ctaphid_send_keepalive_def ctaphid_create_init_packet_def app_inv_def
        Let_def)
  then show ?thesis
    using inv by (auto simp: app_ctap_send_keepalive_if_needed_def)
qed

lemma send_one_inv:
  "app_inv (pt, w) \<Longrightarrow> app_inv (pt, app_hid_report_send_queue_send_one_if_possible a w)"
  by (auto simp: app_inv_def Let_def app_hid_report_send_queue_send_one_if_possible_def
      split: list.splits point.splits)

lemma send_one_keeps [simp]:
  "app_ctaphid (app_hid_report_send_queue_send_one_if_possible a w) = app_ctaphid w"
  by (auto simp: app_hid_report_send_queue_send_one_if_possible_def split: list.splits)

text \<open>All packets of a message carry its channel.\<close>

lemma message_cont_packets_cid:
  "p \<in> set (message_cont_packets c data off r seq) \<Longrightarrow> pkt_cid p = c"
proof (induction r arbitrary: off seq rule: less_induct)
  case (less r)
  then show ?case
    using less.IH [of "r - min r 59" "off + min r 59" "seq + 1"]
    by (cases "r = 0") (auto simp: message_cont_packets_Cons)
qed

lemma message_to_packets_cid:
  "ctaphid_message_to_packets c cmd len data = Some ps \<Longrightarrow> set (map pkt_cid ps) \<subseteq> {c}"
  using message_cont_packets_cid
  by (fastforce simp: ctaphid_message_to_packets_def ctaphid_create_init_packet_def require_eq_Some
      Let_def split: if_splits bind_splits)

lemma answer_directly_ok:
  assumes inv: "app_inv (WaitBefore cmd, w)" and q: "app_hid_report_send_queue_is_empty w"
  defines "b \<equiv> buffer (app_ctaphid w)"
  shows "\<exists>ps. app_ctaphid_answer_directly cmd w
      = Some (w\<lparr>send_queue := ps, app_ctaphid := ctaphid_reset_to_idle (app_ctaphid w)\<rparr>)
    \<and> length ps \<le> CTAPHID_MESSAGE_MAX_NUM_PACKETS \<and> set (map pkt_cid ps) \<subseteq> {buf_cid b}
    \<and> (cmd = CTAPHID_PING \<longrightarrow> ctaphid_message_to_packets (buf_cid b) CTAPHID_PING
          (length (take (payload_length b) (buf_payload b))) (take (payload_length b) (buf_payload b))
        = Some ps)"
proof -
  have b: "payload_length b \<le> 7609" "payload_length b \<le> length (buf_payload b)"
      "buf_cmd b = cmd" "send_queue w = []"
    using inv q by (auto simp: b_def app_inv_def Let_def hid_inv_def buffer_inv_def
        app_hid_report_send_queue_is_empty_def)
  show ?thesis
  proof (cases "cmd = CTAPHID_PING")
    case True
    have "bit CTAPHID_PING 7" by (simp add: bit_numeral_simps)
    then obtain ps where ps: "ctaphid_message_to_packets (buf_cid b) CTAPHID_PING
        (payload_length b) (buf_payload b) = Some ps" "length ps \<le> 129"
      using message_to_packets_count [OF _ b(1,2)] by blast
    have "queue_packets ps w = Some (w\<lparr>send_queue := ps\<rparr>)"
      using queue_packets_ok [of w ps] ps(2) b(4) by simp
    then have "app_ctaphid_answer_directly cmd w
        = Some (w\<lparr>send_queue := ps, app_ctaphid := ctaphid_reset_to_idle (app_ctaphid w)\<rparr>)"
      using True ps(1) by (simp add: app_ctaphid_answer_directly_def b_def Let_def)
    then show ?thesis
      using ps message_to_packets_cid [OF ps(1)]
        message_to_packets_take [OF b(2), of "buf_cid b" CTAPHID_PING] by auto
  next
    case False
    let ?err = "\<lambda>e. \<lparr>pkt_cid = buf_cid b, pkt_body = [CTAPHID_ERROR, 0, 1, e] @ zeros 56\<rparr>"
    let ?p = "if cmd = CTAPHID_WINK then (if payload_length b = 0 then
        \<lparr>pkt_cid = buf_cid b, pkt_body = [CTAPHID_WINK, 0, 0] @ zeros 57\<rparr>
        else ?err CTAP1_ERR_INVALID_LENGTH)
      else if cmd = CTAPHID_CBOR then ?err CTAP1_ERR_INVALID_LENGTH
      else ?err CTAP1_ERR_INVALID_COMMAND"
    have "app_ctaphid_answer_directly cmd w
        = Some (w\<lparr>send_queue := [?p], app_ctaphid := ctaphid_reset_to_idle (app_ctaphid w)\<rparr>)"
      using False b(4)
      by (simp add: app_ctaphid_answer_directly_def app_hid_report_send_queue_add_def Let_def
          b_def ctaphid_create_init_packet_def hi8_def lo8_def)
    then show ?thesis
      using False by auto
  qed
qed

lemma answer_cbor_ok:
  assumes inv: "app_inv (WaitAfter response, w)" and q: "app_hid_report_send_queue_is_empty w"
  defines "b \<equiv> buffer (app_ctaphid w)"
  shows "\<exists>ps. app_ctaphid_answer_cbor response w
      = Some (w\<lparr>send_queue := ps, app_ctaphid := ctaphid_reset_to_idle (app_ctaphid w)\<rparr>)
    \<and> length ps \<le> CTAPHID_MESSAGE_MAX_NUM_PACKETS
    \<and> ctaphid_message_to_packets (buf_cid b) CTAPHID_CBOR (length response) response = Some ps"
proof -
  have "bit CTAPHID_CBOR 7" by (simp add: bit_numeral_simps)
  moreover have "length response \<le> 7609" "send_queue w = []"
    using inv q by (auto simp: app_inv_def Let_def app_hid_report_send_queue_is_empty_def)
  ultimately obtain ps where ps: "ctaphid_message_to_packets (buf_cid b) CTAPHID_CBOR
      (length response) response = Some ps" "length ps \<le> 129" "send_queue w = []"
    using message_to_packets_count [of CTAPHID_CBOR "length response" response] by blast
  then have "queue_packets ps w = Some (w\<lparr>send_queue := ps\<rparr>)"
    using queue_packets_ok [of w ps] by simp
  then show ?thesis
    using ps by (simp add: app_ctaphid_answer_cbor_def b_def)
qed

lemma reset_keeps_inv:
  "app_inv (pt, w) \<Longrightarrow> length ps \<le> CTAPHID_MESSAGE_MAX_NUM_PACKETS \<Longrightarrow>
   app_inv (MainLoop, w\<lparr>send_queue := ps, app_ctaphid := ctaphid_reset_to_idle (app_ctaphid w)\<rparr>)"
  using reset_to_idle_inv by (auto simp: app_inv_def Let_def)

lemma app_step_receiveD:
  assumes "app_inv (pt, w)" and "wf_packet p"
      and "app_handle_incoming_hid_packet junk now p w = Some w'"
  shows "app_inv (pt, w') \<and> (pt \<noteq> MainLoop \<longrightarrow>
           message_of (buffer (app_ctaphid w')) = message_of (buffer (app_ctaphid w)))"
proof -
  have "\<not> zero_length_stuck (app_ctaphid w) p"
  proof
    assume "zero_length_stuck (app_ctaphid w) p"
    then have "ctaphid_process_packet (expire now (app_ctaphid w)) p now = None"
      using assms(1) expire_inv zero_length_stuck_expire
      by (intro process_packet_stuck) (auto simp: app_inv_def Let_def)
    then show False
      using assms(1,3)
      by (auto simp: app_handle_incoming_hid_packet_def timeout_ok app_inv_def Let_def expire_def
          split: if_splits)
  qed
  then show ?thesis
    using handle_incoming_inv [OF assms(1,2), of junk now] assms(3) by auto
qed

lemma app_step_inv: "app_step c c' \<Longrightarrow> app_inv c \<Longrightarrow> app_inv c'"
proof (induction rule: app_step.induct)
  case receive
  then show ?case using app_step_receiveD by blast
next
  case transmit
  then show ?case by (rule send_one_inv)
next
  case start
  then show ?case using ready_holds_message by (auto simp: app_inv_def Let_def)
next
  case direct
  then show ?case using answer_directly_ok reset_keeps_inv by (metis option.inject)
next
  case request
  then show ?case by (auto simp: app_inv_def Let_def app_ctap_reset_keepalive_def)
next
  case keepalive
  then show ?case using keepalive_inv by (metis option.inject)
next
  case finish
  then show ?case by (auto simp: app_inv_def Let_def)
next
  case answer
  then show ?case using answer_cbor_ok reset_keeps_inv by (metis option.inject)
qed

text \<open>The state when the main loop is entered.\<close>

definition app_boot :: app_state where
  "app_boot = \<lparr>app_ctaphid = ctaphid_init hid_boot, send_queue = [], sent = [],
     last_status = CTAP_STATUS_PROCESSING, last_status_timestamp = 0, button_pressed = False,
     nfc_ctap_in_use = False, nfc_user_present = False\<rparr>"

lemma app_boot_inv: "app_inv (MainLoop, app_boot)"
  by (simp add: app_inv_def app_boot_def hid_inv_def ctaphid_init_def buffer_inv_def hid_boot_def)

lemma app_reachable_inv: "app_step\<^sup>*\<^sup>* (MainLoop, app_boot) c \<Longrightarrow> app_inv c"
  by (induction rule: rtranclp_induct) (auto intro: app_boot_inv app_step_inv)

text \<open>Steps that do not return to the top of the main loop.\<close>

definition busy_step :: "point \<times> app_state \<Rightarrow> point \<times> app_state \<Rightarrow> bool" where
  "busy_step c c' \<longleftrightarrow> app_step c c' \<and> fst c \<noteq> MainLoop \<and> fst c' \<noteq> MainLoop"

lemma busy_step_keeps:
  assumes "busy_step c c'" and "app_inv c"
  shows "message_of (buffer (app_ctaphid (snd c'))) = message_of (buffer (app_ctaphid (snd c)))"
proof -
  have "app_step c c'" "fst c \<noteq> MainLoop" "fst c' \<noteq> MainLoop"
    using assms(1) by (auto simp: busy_step_def)
  then show ?thesis
    using assms(2)
  proof (induction rule: app_step.induct)
    case receive
    then show ?case using app_step_receiveD by fastforce
  next
    case (keepalive st now w w')
    then show ?case using keepalive_inv [of w st now] by auto
  qed (auto simp: app_ctap_reset_keepalive_def)
qed

lemma busy_run_keeps:
  assumes "busy_step\<^sup>*\<^sup>* c c'" and "app_inv c"
  shows "app_inv c' \<and>
    message_of (buffer (app_ctaphid (snd c'))) = message_of (buffer (app_ctaphid (snd c)))"
  using assms
  by (induction rule: rtranclp_induct)
    (use busy_step_keeps app_step_inv busy_step_def in auto)

section \<open>Properties\<close>



text \<open>
  The response goes to the request it answers. From the start of the processing of a message
  to the end of \<open>ctap_request\<close>, whatever reports arrive in between, the buffered request (channel,
  command and payload) stays the same; the response is then queued completely, as exactly the
  packets of a CBOR message on the channel of the request, and the buffer becomes idle.
\<close>

theorem request_is_answered:
  assumes "app_inv (MainLoop, w0)"
      and "ctaphid_has_complete_message_ready (app_ctaphid w0) = Some True"
      and "busy_step\<^sup>*\<^sup>* (WaitBefore (buf_cmd (buffer (app_ctaphid w0))), w0) (WaitAfter response, w)"
      and "app_hid_report_send_queue_is_empty w"
  shows "\<exists>ps w'. app_ctaphid_answer_cbor response w = Some w'
    \<and> message_of (buffer (app_ctaphid w)) = message_of (buffer (app_ctaphid w0))
    \<and> ctaphid_message_to_packets (buf_cid (buffer (app_ctaphid w0))) CTAPHID_CBOR
        (length response) response = Some ps
    \<and> send_queue w' = ps \<and> ctaphid_is_idle (app_ctaphid w') = Some True
    \<and> app_inv (MainLoop, w')"
proof -
  let ?c0 = "(WaitBefore (buf_cmd (buffer (app_ctaphid w0))), w0)"
  have "app_inv ?c0"
    using app_step_inv [OF app_step.start assms(1)] assms(2) by blast
  from busy_run_keeps [OF assms(3) this]
  have inv: "app_inv (WaitAfter response, w)"
    and m: "message_of (buffer (app_ctaphid w)) = message_of (buffer (app_ctaphid w0))"
    by auto
  from answer_cbor_ok [OF inv assms(4)] obtain ps where ps:
    "app_ctaphid_answer_cbor response w
      = Some (w\<lparr>send_queue := ps, app_ctaphid := ctaphid_reset_to_idle (app_ctaphid w)\<rparr>)"
    "length ps \<le> 129"
    "ctaphid_message_to_packets (buf_cid (buffer (app_ctaphid w))) CTAPHID_CBOR
      (length response) response = Some ps" by blast
  have "buf_cid (buffer (app_ctaphid w)) = buf_cid (buffer (app_ctaphid w0))"
    using m by (simp add: message_of_def)
  then show ?thesis
    using ps m reset_keeps_inv [OF inv ps(2)]
    by (auto simp: ctaphid_is_idle_def ctaphid_reset_to_idle_def is_idle_def)
qed

definition app_with_request :: app_state where
  "app_with_request = app_boot\<lparr>app_ctaphid := hid_one_channel\<lparr>buffer :=
     (buffer hid_one_channel)\<lparr>buf_cid := 1, buf_cmd := CTAPHID_CBOR, payload_length := 1,
       buf_offset := 1\<rparr>\<rparr>\<rparr>"

lemma app_with_request_inv: "app_inv (MainLoop, app_with_request)"
    "ctaphid_has_complete_message_ready (app_ctaphid app_with_request) = Some True"
  by (simp_all add: app_with_request_def app_inv_def app_boot_def hid_one_channel_eq hid_boot_def
      hid_inv_def buffer_inv_def received_def ctaphid_has_complete_message_ready_def is_idle_def
      is_complete_message_def bit_numeral_simps)

theorem request_is_answered_witness:
  "\<exists>w w'. app_ctaphid_answer_cbor [0x31] w = Some w'
     \<and> message_of (buffer (app_ctaphid w)) = message_of (buffer (app_ctaphid app_with_request))
     \<and> app_inv (MainLoop, w')"
proof -
  let ?w1 = "app_ctap_reset_keepalive app_with_request"
  have cmd: "buf_cmd (buffer (app_ctaphid app_with_request)) = CTAPHID_CBOR"
    by (simp add: app_with_request_def)
  have e: "app_hid_report_send_queue_is_empty app_with_request"
    "payload_length (buffer (app_ctaphid app_with_request)) \<noteq> 0"
    by (simp_all add: app_hid_report_send_queue_is_empty_def app_with_request_def app_boot_def)
  have "busy_step (WaitBefore CTAPHID_CBOR, app_with_request) (Working, ?w1)"
    unfolding busy_step_def using app_step.request [OF e] by simp
  moreover have "busy_step (Working, ?w1) (WaitAfter [0x31], ?w1)"
    unfolding busy_step_def using app_step.finish [of "[]" ?w1 "0x31"] by simp
  ultimately have "busy_step\<^sup>*\<^sup>* (WaitBefore CTAPHID_CBOR, app_with_request) (WaitAfter [0x31], ?w1)"
    by (meson converse_rtranclp_into_rtranclp r_into_rtranclp)
  moreover have "app_hid_report_send_queue_is_empty ?w1"
    using e by (simp add: app_hid_report_send_queue_is_empty_def app_ctap_reset_keepalive_def)
  ultimately show ?thesis
    using request_is_answered [OF app_with_request_inv] cmd by fastforce
qed

lemma hid_task_working:
  assumes "app_inv (Working, w)" and "list_all wf_packet (arrived i)"
  shows "\<exists>w'. app_hid_task junk i w = Some w' \<and> app_inv (Working, w')
    \<and> message_of (buffer (app_ctaphid w')) = message_of (buffer (app_ctaphid w))
    \<and> button_pressed w' = button_pressed w"
proof -
  have "\<exists>w'. deliver_reports junk now ps w = Some w' \<and> app_inv (Working, w')
      \<and> message_of (buffer (app_ctaphid w')) = message_of (buffer (app_ctaphid w))
      \<and> button_pressed w' = button_pressed w"
    if "app_inv (Working, w)" "list_all wf_packet ps" for now ps w
    using that
  proof (induction ps arbitrary: w)
    case (Cons p ps)
    have "\<not> zero_length_stuck (app_ctaphid w) p"
      using Cons.prems by (simp add: app_inv_def Let_def zero_length_stuck_def)
    then obtain w1 where w1: "app_handle_incoming_hid_packet junk now p w = Some w1"
        "app_inv (Working, w1)"
        "message_of (buffer (app_ctaphid w1)) = message_of (buffer (app_ctaphid w))"
      using handle_incoming_inv [OF Cons.prems(1), of p junk now] Cons.prems(2) by auto
    moreover have "button_pressed w1 = button_pressed w"
      using w1(1)
      by (auto simp: app_handle_incoming_hid_packet_def Let_def
          split: if_splits bind_splits process_packet_result.splits prod.splits)
    ultimately show ?case
      using Cons.IH [OF w1(2)] Cons.prems(2) by auto
  qed simp
  from this [OF assms, of "tick i"] obtain w' where
    "deliver_reports junk (tick i) (arrived i) w = Some w'" "app_inv (Working, w')"
    "message_of (buffer (app_ctaphid w')) = message_of (buffer (app_ctaphid w))"
    "button_pressed w' = button_pressed w" by blast
  moreover have "button_pressed (app_hid_report_send_queue_send_one_if_possible a v)
      = button_pressed v" for a v
    by (auto simp: app_hid_report_send_queue_send_one_if_possible_def split: list.splits)
  ultimately show ?thesis
    using send_one_inv by (auto simp: app_hid_task_def)
qed

lemma keepalive_button:
  "app_ctap_send_keepalive_if_needed st now w = Some w' \<Longrightarrow> button_pressed w' = button_pressed w"
  by (auto simp: app_ctap_send_keepalive_if_needed_def app_ctaphid_send_keepalive_def
      require_eq_Some split: if_splits bind_splits)

lemma user_presence_loop_inv:
  assumes "app_inv (Working, w)" and "list_all (\<lambda>(i, _). list_all wf_packet (arrived i)) turns"
  shows "\<exists>r w'. user_presence_loop junk start turns w = Some (r, w') \<and> app_inv (Working, w')
    \<and> message_of (buffer (app_ctaphid w')) = message_of (buffer (app_ctaphid w))
    \<and> (r = None \<longrightarrow> list_all (\<lambda>(i, _). tick i - start \<le> 30000) turns)
    \<and> (r = Some CTAP_UP_RESULT_ALLOW \<longrightarrow> button_pressed w \<or> list_ex snd turns)
    \<and> (r = Some CTAP_UP_RESULT_CANCEL \<longrightarrow> buf_cancel (buffer (app_ctaphid w')))
    \<and> (r = Some CTAP_UP_RESULT_TIMEOUT \<longrightarrow> list_ex (\<lambda>(i, _). tick i - start > 30000) turns)"
  using assms
proof (induction turns arbitrary: w)
  case (Cons t turns)
  obtain i button where t: "t = (i, button)" by (cases t)
  obtain w1 where w1: "app_hid_task junk i w = Some w1" "app_inv (Working, w1)"
      "message_of (buffer (app_ctaphid w1)) = message_of (buffer (app_ctaphid w))"
      "button_pressed w1 = button_pressed w"
    using hid_task_working [OF Cons.prems(1), of i junk] Cons.prems(2) t by auto
  define w2 where "w2 = (if button then w1\<lparr>button_pressed := True\<rparr> else w1)"
  have w2: "app_inv (Working, w2)" "app_ctaphid w2 = app_ctaphid w1"
      "button_pressed w2 \<Longrightarrow> button_pressed w \<or> button"
    using w1 by (auto simp: w2_def app_inv_def Let_def)
  consider (stop) "buf_cancel (buffer (app_ctaphid w2)) \<or> tick i - start > 30000
      \<or> button_pressed w2" | (go) "\<not> buf_cancel (buffer (app_ctaphid w2))"
      "\<not> tick i - start > 30000" "\<not> button_pressed w2" by blast
  then show ?case
  proof cases
    case stop
    have "app_inv (Working, w2\<lparr>button_pressed := False\<rparr>)"
      using w2(1) by (simp add: app_inv_def Let_def)
    then show ?thesis
      using stop w1 w2 t by (auto simp: w2_def [symmetric])
  next
    case go
    obtain w3 where w3: "app_ctap_send_keepalive_if_needed CTAP_STATUS_UPNEEDED (tick i) w2
        = Some w3" "app_inv (Working, w3)" "app_ctaphid w3 = app_ctaphid w2"
      using keepalive_inv [OF w2(1)] by blast
    have "user_presence_loop junk start (t # turns) w = user_presence_loop junk start turns w3"
      using w1(1) go w3(1) t by (simp add: w2_def [symmetric])
    then show ?thesis
      using Cons.IH [OF w3(2)] Cons.prems(2) w3(3) w2(2) w1(3) go t keepalive_button [OF w3(1)]
      by auto
  qed
qed simp

text \<open>
  C6: User presence. Waiting during a request over USB never fails and keeps the request, it
  returns at the latest in the first turn more than 30 seconds after it started, it reports a
  timeout only then and a cancellation only when the buffered request is cancelled, and it grants
  user presence only if the button was pressed in one of its turns: a press before the wait does
  not count.
\<close>

theorem user_presence_needs_button:
  assumes "app_inv (Working, w)" and "\<not> nfc_user_present w"
      and "list_all (\<lambda>(i, _). list_all wf_packet (arrived i)) turns"
  shows "\<exists>r w'. ctap_wait_for_user_presence junk start turns w = Some (r, w')
    \<and> app_inv (Working, w')
    \<and> message_of (buffer (app_ctaphid w')) = message_of (buffer (app_ctaphid w))
    \<and> (r = None \<longrightarrow> list_all (\<lambda>(i, _). tick i - start \<le> 30000) turns)
    \<and> (r = Some CTAP_UP_RESULT_ALLOW \<longrightarrow> list_ex snd turns)
    \<and> (r = Some CTAP_UP_RESULT_CANCEL \<longrightarrow> buf_cancel (buffer (app_ctaphid w')))
    \<and> (r = Some CTAP_UP_RESULT_TIMEOUT \<longrightarrow> list_ex (\<lambda>(i, _). tick i - start > 30000) turns)"
proof -
  obtain w1 where w1: "app_ctap_send_keepalive_if_needed CTAP_STATUS_UPNEEDED start w = Some w1"
      "app_inv (Working, w1)" "app_ctaphid w1 = app_ctaphid w"
    using keepalive_inv [OF assms(1)] by blast
  have "app_inv (Working, w1\<lparr>button_pressed := False\<rparr>)"
    using w1(2) by (simp add: app_inv_def Let_def)
  from user_presence_loop_inv [OF this assms(3), of junk start] show ?thesis
    using assms(2) w1 by (auto simp: ctap_wait_for_user_presence_def)
qed

theorem user_presence_needs_button_witness:
  "\<exists>r w'. ctap_wait_for_user_presence 0 100 [(\<lparr>arrived = [], accepted = False, tick = 200\<rparr>, False)]
      (app_with_request\<lparr>button_pressed := True\<rparr>) = Some (r, w')
    \<and> r \<noteq> Some CTAP_UP_RESULT_ALLOW \<and> r \<noteq> Some CTAP_UP_RESULT_TIMEOUT"
proof -
  have "app_inv (Working, app_with_request\<lparr>button_pressed := True\<rparr>)"
    using app_with_request_inv ready_holds_message [OF app_with_request_inv(2)]
    by (auto simp: app_inv_def Let_def app_with_request_def)
  moreover have "\<not> nfc_user_present (app_with_request\<lparr>button_pressed := True\<rparr>)"
    by (simp add: app_with_request_def app_boot_def)
  ultimately show ?thesis
    using user_presence_needs_button [of "app_with_request\<lparr>button_pressed := True\<rparr>"
        "[(\<lparr>arrived = [], accepted = False, tick = 200\<rparr>, False)]" 0 100] by auto
qed

definition init_packet :: "u32 \<Rightarrow> ctaphid_packet" where
  "init_packet c = \<lparr>pkt_cid = c, pkt_body = [CTAPHID_INIT, 0, 8] @ replicate 8 0x77 @ zeros 49\<rparr>"

definition app_two_channels :: app_state where
  "app_two_channels = app_boot\<lparr>app_ctaphid := hid_boot\<lparr>highest_allocated_cid := 2\<rparr>\<rparr>"

text \<open>
  Synchronisation on an allocated channel answers with another channel's id. With channels 1
  and 2 allocated, a CTAPHID_INIT request on channel 1 is answered on channel 1, but the channel id
  in the response (the four bytes after the nonce) is \<open>highest_allocated_cid\<close>, 2, where the comment
  above the call and the protocol ask for the id of the channel of the request.
\<close>

theorem synchronisation_reports_other_channel:
  "\<exists>p w'. app_handle_incoming_hid_packet junk now (init_packet 1) app_two_channels = Some w'
     \<and> send_queue w' = [p] \<and> pkt_cid p = 1 \<and> init_cmd p = CTAPHID_INIT
     \<and> take 8 (init_payload p) = replicate 8 0x77
     \<and> le32_read (drop 8 (init_payload p)) = 2"
proof -
  let ?s = "hid_boot\<lparr>highest_allocated_cid := 2\<rparr>"
  have e: "replicate 8 (0x77 :: u8) = [0x77, 0x77, 0x77, 0x77, 0x77, 0x77, 0x77, 0x77]"
    by (simp add: numeral_eq_Suc)
  have ip: "init_cmd (init_packet 1) = CTAPHID_INIT" "init_bcnt (init_packet 1) = 8"
      "pkt_cid (init_packet 1) = 1" "is_initialization_packet (init_packet 1)"
      "take 8 (init_payload (init_packet 1)) = replicate 8 0x77"
      "length (init_payload (init_packet 1)) = 57"
    by (simp_all add: init_packet_def init_cmd_def init_bcnt_def is_initialization_packet_def
        init_payload_def be16_def)
  have step: "ctaphid_process_packet ?s (init_packet 1) now
      = Some (CTAPHID_RESULT_DISCARD_INCOMPLETE_MESSAGE, ?s)"
    using ip by (simp add: ctaphid_process_packet_def process_init_def invalid_channel_def
        hid_boot_def)
  have t: "ctaphid_has_incomplete_message_timeout ?s now = Some False"
    by (simp add: ctaphid_has_incomplete_message_timeout_def is_incomplete_message_def hid_boot_def)
  obtain p where p: "ctaphid_create_ctaphid_init_response_packet (init_payload (init_packet 1))
      1 2 1 0 0 app_capabilities = Some p" "pkt_cid p = 1" "init_cmd p = CTAPHID_INIT"
      "take 8 (init_payload p) = replicate 8 0x77" "le32_read (drop 8 (init_payload p)) = 2"
    using ip le32_read_le32 [of 2]
    by (auto simp: ctaphid_create_ctaphid_init_response_packet_def buf_simps init_cmd_def
        init_payload_def ctaphid_create_init_packet_def e)
  have "app_handle_incoming_hid_packet junk now (init_packet 1) app_two_channels
      = Some (app_two_channels\<lparr>send_queue := [p]\<rparr>)"
    using step t p(1) ip
    by (simp add: app_handle_incoming_hid_packet_def app_two_channels_def app_boot_def
        push_report_def hid_boot_def)
  then show ?thesis
    using p by auto
qed

text \<open>
  A transaction timeout is silent. When an incomplete message has timed out, a further
  continuation packet of it discards the message, and no report is queued: the packet with
  \<open>CTAP1_ERR_TIMEOUT\<close> that the handler builds is never sent.
\<close>

theorem timeout_error_not_sent:
  assumes "hid_inv (app_ctaphid w)" and "is_incomplete_message (buffer (app_ctaphid w))"
      and "now - start_time (buffer (app_ctaphid w)) > CTAPHID_TRANSACTION_TIMEOUT"
      and "\<not> is_initialization_packet p" and "pkt_cid p = buf_cid (buffer (app_ctaphid w))"
  shows "app_handle_incoming_hid_packet junk now p w
       = Some (w\<lparr>app_ctaphid := ctaphid_reset_to_idle (app_ctaphid w)\<rparr>)"
proof -
  let ?s = "ctaphid_reset_to_idle (app_ctaphid w)"
  have busy: "buf_cid (buffer (app_ctaphid w)) \<noteq> 0"
    using assms(1,2) buffer_inv_idle [of "buffer (app_ctaphid w)"]
    by (auto simp: hid_inv_def is_incomplete_message_def)
  have "ctaphid_process_packet ?s p now = Some (CTAPHID_RESULT_IGNORED, ?s)"
    using assms busy
    by (auto simp: ctaphid_process_packet_def process_continuation_def invalid_channel_def
        ctaphid_reset_to_idle_def hid_inv_def)
  then show ?thesis
    using assms by (simp add: app_handle_incoming_hid_packet_def timeout_ok)
qed

theorem timeout_error_not_sent_witness:
  "send_queue (the (app_handle_incoming_hid_packet 0 5000 (cont_packet 0)
      (app_boot\<lparr>app_ctaphid := hid_one_channel\<lparr>buffer := (buffer hid_one_channel)\<lparr>buf_cid := 1,
         buf_cmd := CTAPHID_CBOR, payload_length := 100, buf_offset := 57\<rparr>\<rparr>\<rparr>))) = []"
proof -
  let ?h = "hid_one_channel\<lparr>buffer := (buffer hid_one_channel)\<lparr>buf_cid := 1,
         buf_cmd := CTAPHID_CBOR, payload_length := 100, buf_offset := 57\<rparr>\<rparr>"
  let ?w = "app_boot\<lparr>app_ctaphid := ?h\<rparr>"
  have "hid_inv ?h"
    by (simp add: hid_one_channel_eq hid_boot_def hid_inv_def buffer_inv_def received_def
        bit_numeral_simps)
  moreover have "\<not> is_initialization_packet (cont_packet 0)"
    by (simp add: is_initialization_packet_def init_cmd_def cont_packet_def)
  ultimately have "app_handle_incoming_hid_packet 0 5000 (cont_packet 0) ?w
      = Some (?w\<lparr>app_ctaphid := ctaphid_reset_to_idle (app_ctaphid ?w)\<rparr>)"
    by (intro timeout_error_not_sent)
      (simp_all add: is_incomplete_message_def hid_one_channel_eq hid_boot_def cont_packet_def)
  then show ?thesis
    by (simp add: app_boot_def)
qed

end
