(* ===== verification/Storage.thy ===== *)
theory Storage
  imports Prelude
begin

text \<open>
  The storage interface of the authenticator (\<open>core/ctap_storage.h\<close>): items with a key and a
  value, found by iteration and replaced by append-and-delete. The C interface is a structure of
  function pointers; its contract is the locale \<open>item_storage\<close> below, over the list of slots
  the storage holds. The client lemmas proved in the locale hold for every implementation that
  interprets it (\<open>Memory_Storage\<close>, \<open>Flash_Storage\<close>).
\<close>

section \<open>Items\<close>

datatype ctap_storage_status =
    CTAP_STORAGE_OK | CTAP_STORAGE_ERROR | CTAP_STORAGE_OUT_OF_MEMORY_ERROR
  | CTAP_STORAGE_ITEM_NOT_FOUND

abbreviation (input) CTAP_STORAGE_KEY_PIN_INFO :: u32 where "CTAP_STORAGE_KEY_PIN_INFO \<equiv> 1"
abbreviation (input) CTAP_STORAGE_KEY_CREDENTIAL :: u32 where "CTAP_STORAGE_KEY_CREDENTIAL \<equiv> 2"
abbreviation (input) CTAP_STORAGE_KEY_GLOBAL_SIGNATURE_COUNTER :: u32 where
  "CTAP_STORAGE_KEY_GLOBAL_SIGNATURE_COUNTER \<equiv> 3"

text \<open>
  \<open>item_data\<close> is the byte string the \<open>data\<close> pointer refers to when the call is made or returns.
\<close>

record ctap_storage_item =
  item_handle :: u32
  item_key :: u32
  item_size :: nat
  item_data :: bytes

text \<open>
  The function pointers of \<open>ctap_storage_t\<close> over a state \<open>'s\<close>. \<open>None\<close> is a failed assertion, an
  access outside the memory or a loop that does not end.
\<close>

record 's ctap_storage =
  find_item :: "'s \<Rightarrow> ctap_storage_item \<Rightarrow> (ctap_storage_status \<times> ctap_storage_item) option"
  create_or_update_item ::
    "'s \<Rightarrow> ctap_storage_item \<Rightarrow> (ctap_storage_status \<times> ctap_storage_item \<times> 's) option"
  delete_item :: "'s \<Rightarrow> u32 \<Rightarrow> (ctap_storage_status \<times> 's) option"
  increment_counter :: "'s \<Rightarrow> u32 \<Rightarrow> (ctap_storage_status \<times> u32 \<times> 's) option"
  estimate_num_remaining_items :: "'s \<Rightarrow> nat \<Rightarrow> nat"
  erase_storage :: "'s \<Rightarrow> (ctap_storage_status \<times> 's) option"

text \<open>32-bit arithmetic of \<open>size_t\<close> and \<open>uint32_t\<close> values, written out.\<close>

definition wrap32 :: "nat \<Rightarrow> nat" where
  "wrap32 n = n mod 2 ^ 32"

lemma wrap32_small [simp]: "n < 2 ^ 32 \<Longrightarrow> wrap32 n = n"
  by (simp add: wrap32_def)

section \<open>The contract\<close>

text \<open>
  A slot is one item in the storage, live or deleted, at a fixed handle. Deleted slots stay in
  place, which is why an iteration can be continued from the handle of an item that was deleted
  in the meantime.
\<close>

record slot =
  slot_handle :: u32
  slot_key :: u32
  slot_live :: bool
  slot_data :: bytes

definition slot_matches :: "u32 \<Rightarrow> slot \<Rightarrow> bool" where
  "slot_matches k x \<longleftrightarrow> slot_live x \<and> (k = 0 \<or> slot_key x = k)"

definition slot_item :: "slot \<Rightarrow> ctap_storage_item" where
  "slot_item x = \<lparr>item_handle = slot_handle x, item_key = slot_key x,
     item_size = length (slot_data x), item_data = slot_data x\<rparr>"

definition first_match ::
    "ctap_storage_item \<Rightarrow> slot list \<Rightarrow> ctap_storage_status \<times> ctap_storage_item" where
  "first_match it L =
     (case filter (slot_matches (item_key it)) L of
        [] \<Rightarrow> (CTAP_STORAGE_ITEM_NOT_FOUND, it)
      | x # _ \<Rightarrow> (CTAP_STORAGE_OK, slot_item x))"

definition kill :: "slot \<Rightarrow> slot" where
  "kill x = x\<lparr>slot_live := False\<rparr>"

text \<open>The live values under a key, in the order of the iteration.\<close>

definition live_items :: "u32 \<Rightarrow> slot list \<Rightarrow> ctap_storage_item list" where
  "live_items k L = map slot_item (filter (slot_matches k) L)"

locale item_storage =
  fixes rep :: "'s \<Rightarrow> slot list \<Rightarrow> bool"
    and fits :: "'s \<Rightarrow> nat \<Rightarrow> bool"
    and find_op :: "'s \<Rightarrow> ctap_storage_item \<Rightarrow> (ctap_storage_status \<times> ctap_storage_item) option"
    and create_or_update ::
      "'s \<Rightarrow> ctap_storage_item \<Rightarrow> (ctap_storage_status \<times> ctap_storage_item \<times> 's) option"
    and delete :: "'s \<Rightarrow> u32 \<Rightarrow> (ctap_storage_status \<times> 's) option"
  assumes rep_distinct: "rep s L \<Longrightarrow> distinct (map slot_handle L)"
    and rep_handle: "rep s L \<Longrightarrow> x \<in> set L \<Longrightarrow> slot_handle x \<noteq> 0 \<and> slot_key x \<noteq> 0"
    and find_first: "rep s L \<Longrightarrow> item_handle it = 0 \<Longrightarrow> find_op s it = Some (first_match it L)"
    and find_next: "rep s (L1 @ x # L2) \<Longrightarrow> item_handle it = slot_handle x
        \<Longrightarrow> item_size it = length (slot_data x) \<Longrightarrow> find_op s it = Some (first_match it L2)"
    and create: "rep s L \<Longrightarrow> item_handle it = 0 \<Longrightarrow> item_key it \<noteq> 0
        \<Longrightarrow> item_size it = length (item_data it) \<Longrightarrow> fits s (item_size it)
        \<Longrightarrow> \<exists>s' h. create_or_update s it
              = Some (CTAP_STORAGE_OK, it\<lparr>item_handle := h\<rparr>, s')
            \<and> rep s' (L @ [\<lparr>slot_handle = h, slot_key = item_key it, slot_live = True,
                  slot_data = item_data it\<rparr>])"
    and update: "rep s (L1 @ x # L2) \<Longrightarrow> slot_live x \<Longrightarrow> item_handle it = slot_handle x \<Longrightarrow> item_key it \<noteq> 0
        \<Longrightarrow> item_size it = length (item_data it) \<Longrightarrow> fits s (item_size it)
        \<Longrightarrow> \<exists>s' h. create_or_update s it
              = Some (CTAP_STORAGE_OK, it\<lparr>item_handle := h\<rparr>, s')
            \<and> rep s' (L1 @ kill x # L2 @ [\<lparr>slot_handle = h, slot_key = item_key it,
                  slot_live = True, slot_data = item_data it\<rparr>])"
    and delete: "rep s (L1 @ x # L2) \<Longrightarrow> slot_live x \<Longrightarrow> \<exists>s'. delete s (slot_handle x) = Some (CTAP_STORAGE_OK, s')
            \<and> rep s' (L1 @ kill x # L2)"

section \<open>Iteration\<close>

text \<open>
  The loop every client runs: find, handle the item, and search on from it. \<open>n\<close> bounds the
  number of items visited.
\<close>

fun collect_items :: "('s \<Rightarrow> ctap_storage_item \<Rightarrow> (ctap_storage_status \<times> ctap_storage_item) option)
    \<Rightarrow> 's \<Rightarrow> u32 \<Rightarrow> nat \<Rightarrow> ctap_storage_item \<Rightarrow> ctap_storage_item list option" where
  "collect_items find_op s k 0 it = None"
| "collect_items find_op s k (Suc n) it =
     do { (status, it') \<leftarrow> find_op s (it\<lparr>item_key := k\<rparr>);
          if status = CTAP_STORAGE_OK then
            do { rest \<leftarrow> collect_items find_op s k n it'; Some (it' # rest) }
          else Some [] }"

definition empty_item :: "u32 \<Rightarrow> ctap_storage_item" where
  "empty_item k = \<lparr>item_handle = 0, item_key = k, item_size = 0, item_data = []\<rparr>"

lemma live_items_append: "live_items k (L1 @ L2) = live_items k L1 @ live_items k L2"
  by (simp add: live_items_def)

lemma live_items_kill: "live_items k (kill x # L) = live_items k L"
  by (simp add: live_items_def slot_matches_def kill_def)

lemma first_match_Nil: "live_items (item_key it) L = [] \<Longrightarrow>
    first_match it L = (CTAP_STORAGE_ITEM_NOT_FOUND, it)"
  by (simp add: first_match_def live_items_def)

lemma first_match_Cons:
  assumes "live_items (item_key it) L = y # ys"
  shows "\<exists>L1 x L2. L = L1 @ x # L2 \<and> y = slot_item x \<and> live_items (item_key it) L1 = []
    \<and> live_items (item_key it) L2 = ys \<and> first_match it L = (CTAP_STORAGE_OK, y)"
proof -
  obtain x xs where f: "filter (slot_matches (item_key it)) L = x # xs" "y = slot_item x"
      "ys = map slot_item xs"
    using assms by (auto simp: live_items_def)
  then obtain L1 L2 where "L = L1 @ x # L2" "\<forall>z\<in>set L1. \<not> slot_matches (item_key it) z"
      "filter (slot_matches (item_key it)) L2 = xs"
    by (auto simp: filter_eq_Cons_iff)
  then show ?thesis
    using f by (intro exI conjI) (auto simp: live_items_def first_match_def)
qed

context item_storage
begin

lemma collect_from:
  assumes "rep s (L1 @ x # L2)" and "item_handle it = slot_handle x"
      and "item_size it = length (slot_data x)" and "length (live_items k L2) < n"
  shows "collect_items find_op s k n it = Some (live_items k L2)"
  using assms
proof (induction n arbitrary: it L1 x L2)
  case (Suc n)
  have f: "find_op s (it\<lparr>item_key := k\<rparr>) = Some (first_match (it\<lparr>item_key := k\<rparr>) L2)"
    using find_next [OF Suc.prems(1), of "it\<lparr>item_key := k\<rparr>"] Suc.prems(2,3) by simp
  show ?case
  proof (cases "live_items k L2")
    case Nil
    then show ?thesis
      using f first_match_Nil [of "it\<lparr>item_key := k\<rparr>" L2] by simp
  next
    case (Cons y ys)
    then obtain M1 z M2 where m: "L2 = M1 @ z # M2" "y = slot_item z" "live_items k M2 = ys"
        "first_match (it\<lparr>item_key := k\<rparr>) L2 = (CTAP_STORAGE_OK, y)"
      using first_match_Cons [of "it\<lparr>item_key := k\<rparr>" L2] by auto
    have "rep s ((L1 @ x # M1) @ z # M2)"
      using Suc.prems(1) m by simp
    then have "collect_items find_op s k n y = Some ys"
      using Suc.IH [of "L1 @ x # M1" z M2 y] m Suc.prems(4) Cons by (simp add: slot_item_def)
    then show ?thesis
      using f m Cons by simp
  qed
qed simp

text \<open>Iterating over a key visits exactly the live items under it, each once, in order.\<close>

lemma collect_all:
  assumes "rep s L" and "length (live_items k L) < n"
  shows "collect_items find_op s k n (empty_item k) = Some (live_items k L)"
proof (cases n)
  case (Suc m)
  have f: "find_op s (empty_item k) = Some (first_match (empty_item k) L)"
    using find_first [OF assms(1)] by (simp add: empty_item_def)
  show ?thesis
  proof (cases "live_items k L")
    case Nil
    then show ?thesis
      using f Suc first_match_Nil [of "empty_item k" L] by (simp add: empty_item_def)
  next
    case (Cons y ys)
    then obtain M1 z M2 where m: "L = M1 @ z # M2" "y = slot_item z" "live_items k M2 = ys"
        "first_match (empty_item k) L = (CTAP_STORAGE_OK, y)"
      using first_match_Cons [of "empty_item k" L] by (auto simp: empty_item_def)
    then have "collect_items find_op s k m y = Some ys"
      using collect_from [of s M1 z M2 y k m] assms Suc Cons by (simp add: slot_item_def)
    then show ?thesis
      using f m Cons Suc by (simp add: empty_item_def)
  qed
qed (use assms in simp)

text \<open>An item that was created is found again; replacing the only item of a key keeps it unique.\<close>

lemma create_then_collect:
  assumes "rep s L" and "item_handle it = 0" and "item_key it = k" and "k \<noteq> 0"
      and "item_size it = length (item_data it)" and "fits s (item_size it)"
      and "Suc (length (live_items k L)) < n"
  shows "\<exists>s' h. create_or_update s it = Some (CTAP_STORAGE_OK, it\<lparr>item_handle := h\<rparr>, s')
    \<and> collect_items find_op s' k n (empty_item k) = Some (live_items k L @ [it\<lparr>item_handle := h\<rparr>])"
proof -
  obtain s' h where s': "create_or_update s it = Some (CTAP_STORAGE_OK, it\<lparr>item_handle := h\<rparr>, s')"
      "rep s' (L @ [\<lparr>slot_handle = h, slot_key = k, slot_live = True, slot_data = item_data it\<rparr>])"
    using create [OF assms(1,2) _ assms(5,6)] assms(3,4) by auto
  have "live_items k [\<lparr>slot_handle = h, slot_key = k, slot_live = True,
      slot_data = item_data it\<rparr>] = [it\<lparr>item_handle := h\<rparr>]"
    using assms(3,5) by (simp add: live_items_def slot_matches_def slot_item_def)
  then show ?thesis
    using s' collect_all [OF s'(2), of k n] assms(7) by (auto simp: live_items_append)
qed

lemma update_then_collect:
  assumes "rep s (L1 @ x # L2)" and "slot_live x" and "item_handle it = slot_handle x" and "item_key it = k"
      and "k \<noteq> 0" and "item_size it = length (item_data it)" and "fits s (item_size it)"
      and "Suc (length (live_items k (L1 @ L2))) < n"
  shows "\<exists>s' h. create_or_update s it = Some (CTAP_STORAGE_OK, it\<lparr>item_handle := h\<rparr>, s')
    \<and> collect_items find_op s' k n (empty_item k)
        = Some (live_items k (L1 @ L2) @ [it\<lparr>item_handle := h\<rparr>])"
proof -
  obtain s' h where s': "create_or_update s it = Some (CTAP_STORAGE_OK, it\<lparr>item_handle := h\<rparr>, s')"
      "rep s' (L1 @ kill x # L2 @ [\<lparr>slot_handle = h, slot_key = k, slot_live = True,
        slot_data = item_data it\<rparr>])"
    using update [OF assms(1-3) _ assms(6,7)] assms(4,5) by auto
  have "live_items k [\<lparr>slot_handle = h, slot_key = k, slot_live = True,
      slot_data = item_data it\<rparr>] = [it\<lparr>item_handle := h\<rparr>]"
    using assms(4,6) by (simp add: live_items_def slot_matches_def slot_item_def)
  then have "live_items k (L1 @ kill x # L2 @ [\<lparr>slot_handle = h, slot_key = k, slot_live = True,
        slot_data = item_data it\<rparr>]) = live_items k (L1 @ L2) @ [it\<lparr>item_handle := h\<rparr>]"
    by (simp add: live_items_kill live_items_append)
  then show ?thesis
    using s' collect_all [OF s'(2), of k n] assms(8) by auto
qed

end

end
