(* ===== verification/Memory_Storage.thy ===== *)
theory Memory_Storage
  imports Storage
begin

text \<open>
  The storage in RAM (\<open>core/ctap_memory_storage.c\<close>): a log of items in a byte array, each with a
  16-byte header. The representation relation reads the array as a list of encoded entries; with
  it the operations are shown to implement the storage contract. The initialisation from existing
  content is characterised separately.
\<close>

section \<open>Operations\<close>

record ctap_memory_storage_context =
  memory :: bytes
  write_index :: nat

abbreviation (input) item_header_size :: nat where "item_header_size \<equiv> 16"

definition handle_to_index :: "u32 \<Rightarrow> nat option" where
  "handle_to_index handle = require (handle > 0) (Some (unat (handle - 1)))"

definition index_to_handle :: "nat \<Rightarrow> u32" where
  "index_to_handle index = of_nat index + 1"

definition mem_ceil_size_to_boundary :: "nat \<Rightarrow> nat" where
  "mem_ceil_size_to_boundary sz = wrap32 (sz + 3) div 4 * 4"

definition mem_compute_total_item_size :: "nat \<Rightarrow> nat" where
  "mem_compute_total_item_size sz = wrap32 (item_header_size + mem_ceil_size_to_boundary sz)"

text \<open>
  The \<open>while\<close> loop of \<open>ctap_memory_storage_find_item\<close>. The fuel is the number of turns; a
  well-formed log needs at most one turn per item, and a log whose item sizes wrap around to a
  total of 0 is the case in which the C loop does not end.
\<close>

fun mem_find_loop :: "nat \<Rightarrow> ctap_memory_storage_context \<Rightarrow> ctap_storage_item \<Rightarrow> nat
    \<Rightarrow> (ctap_storage_status \<times> ctap_storage_item) option" where
  "mem_find_loop 0 ctx item index = None"
| "mem_find_loop (Suc fuel) ctx item index =
     (if index < write_index ctx then
        do { key \<leftarrow> rd32 (memory ctx) index;
             if key = 0 then Some (CTAP_STORAGE_ITEM_NOT_FOUND, item)
             else do {
               sz \<leftarrow> rd32 (memory ctx) (index + 4);
               is_deleted \<leftarrow> rd32 (memory ctx) (index + 8);
               if is_deleted = 0 \<and> (item_key item = 0 \<or> item_key item = key) then
                 Some (CTAP_STORAGE_OK,
                   \<lparr>item_handle = index_to_handle index, item_key = key, item_size = unat sz,
                    item_data = take (unat sz) (drop (index + item_header_size) (memory ctx))\<rparr>)
               else mem_find_loop fuel ctx item
                 (wrap32 (index + mem_compute_total_item_size (unat sz))) } }
      else Some (CTAP_STORAGE_ITEM_NOT_FOUND, item))"

definition ctap_memory_storage_find_item :: "ctap_memory_storage_context \<Rightarrow> ctap_storage_item
    \<Rightarrow> (ctap_storage_status \<times> ctap_storage_item) option" where
  "ctap_memory_storage_find_item ctx item =
     do { index \<leftarrow> (if item_handle item \<noteq> 0 then
              do { i \<leftarrow> handle_to_index (item_handle item);
                   let index = wrap32 (i + mem_compute_total_item_size (item_size item));
                   require (index \<le> write_index ctx) (Some index) }
            else Some 0);
          mem_find_loop (Suc (write_index ctx)) ctx item index }"

fun mem_find_write_index_loop ::
    "nat \<Rightarrow> ctap_memory_storage_context \<Rightarrow> ctap_storage_item \<Rightarrow> nat option" where
  "mem_find_write_index_loop 0 ctx item = None"
| "mem_find_write_index_loop (Suc fuel) ctx item =
     do { (status, item') \<leftarrow> ctap_memory_storage_find_item ctx item;
          if status = CTAP_STORAGE_OK
            then mem_find_write_index_loop fuel ctx (item'\<lparr>item_key := 0\<rparr>)
          else if item_key item' \<noteq> 0 then
            do { i \<leftarrow> handle_to_index (item_handle item');
                 Some (wrap32 (i + mem_compute_total_item_size (item_size item'))) }
          else require (item_handle item' = 0) (Some 0) }"

definition ctap_memory_storage_find_write_index :: "ctap_memory_storage_context \<Rightarrow> nat option" where
  "ctap_memory_storage_find_write_index ctx =
     mem_find_write_index_loop (write_index ctx + 2) ctx (empty_item 0)"

definition ctap_memory_storage_init :: "ctap_memory_storage_context
    \<Rightarrow> (ctap_storage_status \<times> ctap_memory_storage_context) option" where
  "ctap_memory_storage_init ctx =
     do { index \<leftarrow> ctap_memory_storage_find_write_index ctx;
          Some (CTAP_STORAGE_OK, ctx\<lparr>write_index := index\<rparr>) }"

definition ctap_memory_storage_create_item :: "ctap_memory_storage_context \<Rightarrow> ctap_storage_item
    \<Rightarrow> (ctap_storage_status \<times> ctap_storage_item \<times> ctap_memory_storage_context) option" where
  "ctap_memory_storage_create_item ctx item =
     require (item_key item \<noteq> 0) (
       let total_item_size = mem_compute_total_item_size (item_size item);
           i = write_index ctx in
       if wrap32 (i + total_item_size) > length (memory ctx)
         then Some (CTAP_STORAGE_OUT_OF_MEMORY_ERROR, item, ctx)
       else do {
         m1 \<leftarrow> wr32 (memory ctx) i (item_key item);
         m2 \<leftarrow> wr32 m1 (i + 4) (of_nat (item_size item));
         m3 \<leftarrow> wr32 m2 (i + 8) 0;
         m4 \<leftarrow> (if item_size item > 0
               then require (item_size item \<le> length (item_data item))
                 (memcpy_at m3 (i + item_header_size) (take (item_size item) (item_data item)))
               else Some m3);
         Some (CTAP_STORAGE_OK, item\<lparr>item_handle := index_to_handle i\<rparr>,
               \<lparr>memory = m4, write_index = wrap32 (i + total_item_size)\<rparr>) })"

definition ctap_memory_storage_delete_item :: "ctap_memory_storage_context \<Rightarrow> u32
    \<Rightarrow> (ctap_storage_status \<times> ctap_memory_storage_context) option" where
  "ctap_memory_storage_delete_item ctx handle =
     do { index \<leftarrow> handle_to_index handle;
          require (index < write_index ctx) (
            do { m \<leftarrow> wr32 (memory ctx) (index + 8) 1;
                 Some (CTAP_STORAGE_OK, ctx\<lparr>memory := m\<rparr>) }) }"

definition ctap_memory_storage_create_or_update_item ::
    "ctap_memory_storage_context \<Rightarrow> ctap_storage_item
     \<Rightarrow> (ctap_storage_status \<times> ctap_storage_item \<times> ctap_memory_storage_context) option" where
  "ctap_memory_storage_create_or_update_item ctx item =
     require (item_key item \<noteq> 0) (
       if item_handle item \<noteq> 0 then
         do { (status, new_item, ctx1) \<leftarrow> ctap_memory_storage_create_item ctx item;
              if status \<noteq> CTAP_STORAGE_OK then Some (CTAP_STORAGE_ERROR, item, ctx1)
              else do {
                (status2, ctx2) \<leftarrow>
                  ctap_memory_storage_delete_item ctx1 (item_handle item);
                if status2 \<noteq> CTAP_STORAGE_OK then Some (CTAP_STORAGE_ERROR, item, ctx2)
                else Some (CTAP_STORAGE_OK, new_item, ctx2) } }
       else ctap_memory_storage_create_item ctx item)"

definition ctap_memory_storage_increment_counter :: "ctap_memory_storage_context \<Rightarrow> u32
    \<Rightarrow> (ctap_storage_status \<times> u32 \<times> ctap_memory_storage_context) option" where
  "ctap_memory_storage_increment_counter ctx increment =
     do { (status, item) \<leftarrow> ctap_memory_storage_find_item ctx
            (empty_item CTAP_STORAGE_KEY_GLOBAL_SIGNATURE_COUNTER);
          old \<leftarrow> (if status = CTAP_STORAGE_OK
                 then require (item_size item = 4) (rd32 (item_data item) 0)
                 else Some 0);
          let new = old + increment;
          (status2, item2, ctx2) \<leftarrow> ctap_memory_storage_create_or_update_item ctx
            (item\<lparr>item_size := 4, item_data := le32 new\<rparr>);
          if status2 = CTAP_STORAGE_OK then Some (CTAP_STORAGE_OK, new, ctx2)
          else Some (CTAP_STORAGE_ERROR, 0, ctx2) }"

definition ctap_memory_storage_estimate_num_remaining_items ::
    "ctap_memory_storage_context \<Rightarrow> nat \<Rightarrow> nat" where
  "ctap_memory_storage_estimate_num_remaining_items ctx sz =
     (length (memory ctx) - write_index ctx) div mem_compute_total_item_size sz"

definition ctap_memory_storage_erase :: "ctap_memory_storage_context
    \<Rightarrow> (ctap_storage_status \<times> ctap_memory_storage_context) option" where
  "ctap_memory_storage_erase ctx =
     (if write_index ctx > 0 then
        do { m \<leftarrow> memcpy_at (memory ctx) 0 (zeros (write_index ctx));
             Some (CTAP_STORAGE_OK, \<lparr>memory = m, write_index = 0\<rparr>) }
      else Some (CTAP_STORAGE_OK, ctx))"

definition memory_storage_ops :: "ctap_memory_storage_context ctap_storage" where
  "memory_storage_ops =
     \<lparr>find_item = ctap_memory_storage_find_item,
      create_or_update_item = ctap_memory_storage_create_or_update_item,
      delete_item = ctap_memory_storage_delete_item,
      increment_counter = ctap_memory_storage_increment_counter,
      estimate_num_remaining_items = ctap_memory_storage_estimate_num_remaining_items,
      erase_storage = ctap_memory_storage_erase\<rparr>"

section \<open>Representation\<close>

text \<open>
  One item in the array. \<open>e_word\<close> is the header's padding word and \<open>e_pad\<close> the bytes up to the
  next boundary, neither of which the code writes.
\<close>

record entry =
  e_key :: u32
  e_dead :: bool
  e_word :: bytes
  e_data :: bytes
  e_pad :: bytes

definition encode_entry :: "entry \<Rightarrow> bytes" where
  "encode_entry e = le32 (e_key e) @ le32 (of_nat (length (e_data e)))
     @ le32 (if e_dead e then 1 else 0) @ e_word e @ e_data e @ e_pad e"

definition wf_entry :: "entry \<Rightarrow> bool" where
  "wf_entry e \<longleftrightarrow> e_key e \<noteq> 0 \<and> length (e_word e) = 4
     \<and> length (encode_entry e) = mem_compute_total_item_size (length (e_data e))
     \<and> length (e_data e) < 2 ^ 31"

definition encode_log :: "entry list \<Rightarrow> bytes" where
  "encode_log E = concat (map encode_entry E)"

fun entry_slots :: "nat \<Rightarrow> entry list \<Rightarrow> slot list" where
  "entry_slots off [] = []"
| "entry_slots off (e # E) =
     \<lparr>slot_handle = index_to_handle off, slot_key = e_key e, slot_live = \<not> e_dead e,
      slot_data = e_data e\<rparr> # entry_slots (off + length (encode_entry e)) E"

definition log_of :: "ctap_memory_storage_context \<Rightarrow> entry list \<Rightarrow> bool" where
  "log_of ctx E \<longleftrightarrow>
     list_all wf_entry E \<and> length (memory ctx) < 2 ^ 31
     \<and> write_index ctx = length (encode_log E)
     \<and> (\<exists>rest. memory ctx = encode_log E @ rest)"

definition mem_rep :: "ctap_memory_storage_context \<Rightarrow> slot list \<Rightarrow> bool" where
  "mem_rep ctx L \<longleftrightarrow> (\<exists>E. log_of ctx E \<and> L = entry_slots 0 E)"

definition mem_fits :: "ctap_memory_storage_context \<Rightarrow> nat \<Rightarrow> bool" where
  "mem_fits ctx n \<longleftrightarrow> n < 2 ^ 31 - 32
     \<and> write_index ctx + mem_compute_total_item_size n \<le> length (memory ctx)"

lemma mem_total_eq: "n < 2 ^ 32 - 32 \<Longrightarrow> mem_compute_total_item_size n = 16 + (n + 3) div 4 * 4"
  by (simp add: mem_compute_total_item_size_def mem_ceil_size_to_boundary_def)

lemma encode_log_simps [simp]:
  "encode_log [] = []" "encode_log (e # E) = encode_entry e @ encode_log E"
  "encode_log (E @ F) = encode_log E @ encode_log F"
  by (simp_all add: encode_log_def)

lemma wf_entry_length:
  assumes "wf_entry e"
  shows "16 + length (e_data e) \<le> length (encode_entry e)" "0 < length (encode_entry e)"
    "length (encode_entry e) = 16 + (length (e_data e) + 3) div 4 * 4"
  using assms by (auto simp: wf_entry_def encode_entry_def mem_total_eq)

lemma rd32_entry:
  assumes "wf_entry e"
  shows "rd32 (p @ encode_entry e @ q) (length p) = Some (e_key e)"
    and "rd32 (p @ encode_entry e @ q) (length p + 4) = Some (of_nat (length (e_data e)))"
    and "rd32 (p @ encode_entry e @ q) (length p + 8) = Some (if e_dead e then 1 else 0)"
    and "take (length (e_data e)) (drop (length p + 16) (p @ encode_entry e @ q)) = e_data e"
proof -
  note d = encode_entry_def
  show "rd32 (p @ encode_entry e @ q) (length p) = Some (e_key e)"
    unfolding d using rd32_at [of "length p" p "e_key e"] by simp
  show "rd32 (p @ encode_entry e @ q) (length p + 4) = Some (of_nat (length (e_data e)))"
    unfolding d using rd32_at [of "length p + 4" "p @ le32 (e_key e)"] by simp
  show "rd32 (p @ encode_entry e @ q) (length p + 8) = Some (if e_dead e then 1 else 0)"
    unfolding d using rd32_at [of "length p + 8"
        "p @ le32 (e_key e) @ le32 (of_nat (length (e_data e)))"] by simp
  show "take (length (e_data e)) (drop (length p + 16) (p @ encode_entry e @ q)) = e_data e"
    using assms by (simp add: d wf_entry_def)
qed

lemma entry_slots_append:
  "entry_slots off (E @ F) = entry_slots off E @ entry_slots (off + length (encode_log E)) F"
  by (induction E arbitrary: off) (simp_all add: add.assoc)

lemma first_match_skip:
  "\<not> slot_matches (item_key it) x \<Longrightarrow> first_match it (x # L) = first_match it L"
  by (simp add: first_match_def)

lemma first_match_hit:
  "slot_matches (item_key it) x \<Longrightarrow> first_match it (x # L) = (CTAP_STORAGE_OK, slot_item x)"
  by (simp add: first_match_def)

text \<open>The find loop from an entry boundary is the first match among the remaining entries.\<close>

lemma mem_find_loop_log:
  assumes "log_of ctx (E @ F)" and "length F < fuel"
  shows "mem_find_loop fuel ctx it (length (encode_log E))
       = Some (first_match it (entry_slots (length (encode_log E)) F))"
  using assms
proof (induction F arbitrary: E fuel)
  case Nil
  then show ?case
    by (cases fuel) (simp_all add: log_of_def first_match_def)
next
  case (Cons e F)
  obtain fuel' where fuel: "fuel = Suc fuel'" using Cons.prems(2) by (cases fuel) auto
  obtain rest where m: "memory ctx = encode_log E @ encode_entry e @ encode_log F @ rest"
    using Cons.prems(1) by (auto simp: log_of_def)
  have wf: "wf_entry e" and lm: "length (memory ctx) < 2 ^ 31"
      "length (encode_log E) < write_index ctx"
    using Cons.prems(1) wf_entry_length by (auto simp: log_of_def)
  note rd = rd32_entry [OF wf, of "encode_log E" "encode_log F @ rest", folded m]
  have sz: "unat (of_nat (length (e_data e)) :: u32) = length (e_data e)"
    using wf by (intro unat_of_nat_u32) (simp add: wf_entry_def)
  have next_index: "wrap32 (length (encode_log E) + mem_compute_total_item_size (length (e_data e)))
      = length (encode_log (E @ [e]))"
    using wf lm m by (simp add: wf_entry_def)
  have ih: "mem_find_loop fuel' ctx it (length (encode_log (E @ [e])))
      = Some (first_match it (entry_slots (length (encode_log (E @ [e]))) F))"
    using Cons.IH [of "E @ [e]" fuel'] Cons.prems fuel by simp
  have key: "e_key e \<noteq> 0" using wf by (simp add: wf_entry_def)
  let ?x = "\<lparr>slot_handle = index_to_handle (length (encode_log E)), slot_key = e_key e,
    slot_live = \<not> e_dead e, slot_data = e_data e\<rparr>"
  show ?case
  proof (cases "slot_matches (item_key it) ?x")
    case True
    then show ?thesis
      using fuel rd key lm(2) sz
      by (auto simp: first_match_hit slot_matches_def slot_item_def)
  next
    case False
    then show ?thesis
      using fuel rd key lm(2) sz next_index ih
      by (auto simp: first_match_skip slot_matches_def)
  qed
qed

lemma handle_index [simp]: "off < 2 ^ 31 \<Longrightarrow> handle_to_index (index_to_handle off) = Some off"
  "off < 2 ^ 31 \<Longrightarrow> index_to_handle off \<noteq> 0"
  "off < 2 ^ 31 \<Longrightarrow> unat (index_to_handle off) = Suc off"
proof -
  assume "off < 2 ^ 31"
  then show u: "unat (index_to_handle off) = Suc off"
    by (simp add: index_to_handle_def unat_word_ariths(1) unat_of_nat_u32)
  then show nz: "index_to_handle off \<noteq> 0" by (metis nat.distinct(1) unat_0)
  show "handle_to_index (index_to_handle off) = Some off"
    using nz \<open>off < 2 ^ 31\<close>
    by (simp add: handle_to_index_def index_to_handle_def word_gt_0 unat_of_nat_u32)
qed

lemma entry_slots_handle:
  "off + length (encode_log E) < 2 ^ 31 \<Longrightarrow> list_all wf_entry E \<Longrightarrow> x \<in> set (entry_slots off E) \<Longrightarrow>
   off < unat (slot_handle x) \<and> unat (slot_handle x) \<le> off + length (encode_log E)
   \<and> slot_key x \<noteq> 0"
proof (induction E arbitrary: off)
  case (Cons e E)
  have l: "16 \<le> length (encode_entry e)" using Cons.prems wf_entry_length(1) [of e] by simp
  have "e_key e \<noteq> 0" using Cons.prems by (simp add: wf_entry_def)
  show ?case
  proof (cases "x \<in> set (entry_slots (off + length (encode_entry e)) E)")
    case True
    then show ?thesis using Cons.IH [OF _ _ True] Cons.prems(1,2) by simp
  next
    case False
    then show ?thesis using Cons.prems l \<open>e_key e \<noteq> 0\<close> by auto
  qed
qed simp

lemma entry_slots_distinct:
  "off + length (encode_log E) < 2 ^ 31 \<Longrightarrow> list_all wf_entry E \<Longrightarrow>
   distinct (map slot_handle (entry_slots off E))"
proof (induction E arbitrary: off)
  case (Cons e E)
  have l: "16 \<le> length (encode_entry e)" using Cons.prems wf_entry_length(1) [of e] by simp
  have "slot_handle x \<noteq> index_to_handle off"
    if "x \<in> set (entry_slots (off + length (encode_entry e)) E)" for x
  proof
    assume "slot_handle x = index_to_handle off"
    moreover have "off + length (encode_entry e) < unat (slot_handle x)"
      using entry_slots_handle [OF _ _ that] Cons.prems by simp
    ultimately show False using l Cons.prems(1) by simp
  qed
  then have "index_to_handle off \<notin> slot_handle ` set (entry_slots (off + length (encode_entry e)) E)"
    by (metis imageE)
  then show ?case
    using Cons by simp
qed simp

lemma entry_slots_split:
  assumes "entry_slots off E = L1 @ x # L2"
  shows "\<exists>E1 e E2. E = E1 @ e # E2 \<and> L1 = entry_slots off E1
    \<and> x = \<lparr>slot_handle = index_to_handle (off + length (encode_log E1)), slot_key = e_key e,
          slot_live = \<not> e_dead e, slot_data = e_data e\<rparr>
    \<and> L2 = entry_slots (off + length (encode_log E1) + length (encode_entry e)) E2"
  using assms
proof (induction L1 arbitrary: off E)
  case Nil
  then show ?case by (cases E) (auto intro: exI [of _ "[]"])
next
  case (Cons y L1)
  then obtain e' E' where E: "E = e' # E'" "entry_slots (off + length (encode_entry e')) E'
      = L1 @ x # L2" by (cases E) auto
  from Cons.IH [OF E(2)] obtain E1 e E2 where "E' = E1 @ e # E2"
      "L1 = entry_slots (off + length (encode_entry e')) E1"
      "x = \<lparr>slot_handle = index_to_handle (off + length (encode_entry e') + length (encode_log E1)),
          slot_key = e_key e, slot_live = \<not> e_dead e, slot_data = e_data e\<rparr>"
      "L2 = entry_slots (off + length (encode_entry e') + length (encode_log E1)
          + length (encode_entry e)) E2" by blast
  then show ?case
    using E Cons.prems by (intro exI [of _ "e' # E1"] exI [of _ e] exI [of _ E2]) (auto simp: add.assoc)
qed

lemma length_log_le:
  "list_all wf_entry E \<Longrightarrow> length E \<le> length (encode_log E)"
proof (induction E)
  case (Cons e E)
  have "16 \<le> length (encode_entry e)" using Cons.prems wf_entry_length(1) [of e] by simp
  then show ?case using Cons by simp
qed simp

lemma mem_create_ok:
  assumes rep: "log_of ctx E" and k: "item_key it \<noteq> 0"
      and n: "item_size it = length (item_data it)" and f: "mem_fits ctx (item_size it)"
  shows "\<exists>ctx' w p. ctap_memory_storage_create_item ctx it = Some (CTAP_STORAGE_OK,
      it\<lparr>item_handle := index_to_handle (length (encode_log E))\<rparr>, ctx')
    \<and> log_of ctx' (E @ [\<lparr>e_key = item_key it, e_dead = False, e_word = w,
          e_data = item_data it, e_pad = p\<rparr>])"
proof -
  let ?P = "encode_log E" and ?n = "length (item_data it)"
  obtain R where m: "memory ctx = ?P @ R" "write_index ctx = length ?P"
      "length (memory ctx) < 2 ^ 31" "list_all wf_entry E"
    using rep by (auto simp: log_of_def)
  define t where "t = mem_compute_total_item_size ?n"
  have nt: "?n < 2 ^ 31 - 32" "t = 16 + (?n + 3) div 4 * 4" "16 + ?n \<le> t" "t \<le> length R"
    using f m n mem_total_eq [of ?n] by (auto simp: mem_fits_def t_def)
  define W where "W = take 4 (drop 12 R)"
  let ?p = "drop (16 + ?n) (take t R)"
  let ?e = "\<lparr>e_key = item_key it, e_dead = False, e_word = W, e_data = item_data it, e_pad = ?p\<rparr>"
  have s1: "wr32 (?P @ R) (length ?P) (item_key it) = Some (?P @ le32 (item_key it) @ drop 4 R)"
    using nt by (intro wr32_append) simp_all
  have s2: "wr32 (?P @ le32 (item_key it) @ drop 4 R) (length ?P + 4) (of_nat ?n)
      = Some ((?P @ le32 (item_key it)) @ le32 (of_nat ?n) @ drop 4 (drop 4 R))"
    using nt wr32_append [of "length ?P + 4" "?P @ le32 (item_key it)"] by simp
  have s3: "wr32 (?P @ le32 (item_key it) @ le32 (of_nat ?n) @ drop 8 R) (length ?P + 8) 0
      = Some (?P @ le32 (item_key it) @ le32 (of_nat ?n) @ le32 0 @ drop 12 R)"
    using nt wr32_append [of "length ?P + 8" "?P @ le32 (item_key it) @ le32 (of_nat ?n)" "drop 8 R" 0]
    by simp
  have dr: "drop 12 R = W @ drop 16 R"
    using append_take_drop_id [of 4 "drop 12 R"] by (simp add: W_def)
  have s4: "memcpy_at (?P @ le32 (item_key it) @ le32 (of_nat ?n) @ le32 0 @ drop 12 R)
        (length ?P + 16) (item_data it)
      = Some (?P @ le32 (item_key it) @ le32 (of_nat ?n) @ le32 0 @ W @ item_data it
              @ drop (16 + ?n) R)"
    using nt memcpy_at_append [of "length ?P + 16"
        "?P @ le32 (item_key it) @ le32 (of_nat ?n) @ le32 0 @ W" "item_data it" "drop 16 R"]
    unfolding dr by (simp add: add.commute W_def)
  have "drop (16 + ?n) (take t R @ drop t R) = ?p @ drop t R"
    using nt by (simp del: append_take_drop_id)
  then have tl: "drop (16 + ?n) R = ?p @ drop t R" by simp
  let ?c = "\<lparr>memory = ?P @ encode_entry ?e @ drop t R, write_index = wrap32 (length ?P + t)\<rparr>"
  have "ctap_memory_storage_create_item ctx it = Some (CTAP_STORAGE_OK,
      it\<lparr>item_handle := index_to_handle (length ?P)\<rparr>, ?c)"
    using k n m nt s1 s2 s3 s4 tl dr
    by (auto simp: ctap_memory_storage_create_item_def Let_def t_def [symmetric] encode_entry_def)
  moreover have "wf_entry ?e"
    using k nt by (simp add: wf_entry_def encode_entry_def t_def [symmetric] W_def)
  moreover have "length (encode_entry ?e) = t"
    using nt by (simp add: encode_entry_def W_def)
  ultimately show ?thesis
    using m nt by (intro exI conjI) (auto simp: log_of_def)
qed

lemma mem_delete_ok:
  assumes rep: "log_of ctx (E1 @ e # E2)"
  shows "\<exists>ctx'. ctap_memory_storage_delete_item ctx (index_to_handle (length (encode_log E1)))
      = Some (CTAP_STORAGE_OK, ctx')
    \<and> log_of ctx' (E1 @ e\<lparr>e_dead := True\<rparr> # E2)
    \<and> write_index ctx' = write_index ctx
    \<and> length (memory ctx') = length (memory ctx)"
proof -
  let ?P = "encode_log E1"
  obtain R where m: "memory ctx = ?P @ encode_entry e @ encode_log E2 @ R"
      "write_index ctx = length (?P @ encode_entry e @ encode_log E2)"
      "length (memory ctx) < 2 ^ 31" "list_all wf_entry (E1 @ e # E2)"
    using rep by (auto simp: log_of_def)
  have wf: "wf_entry e" using m by simp
  have lt: "length ?P < write_index ctx" "length ?P < 2 ^ 31"
    using m wf_entry_length(2) [OF wf] by simp_all
  let ?A = "?P @ le32 (e_key e) @ le32 (of_nat (length (e_data e)))"
  let ?B = "e_word e @ e_data e @ e_pad e @ encode_log E2 @ R"
  let ?e = "e\<lparr>e_dead := True\<rparr>"
  have eq: "?A @ le32 1 @ ?B = ?P @ encode_entry ?e @ encode_log E2 @ R"
    by (simp add: encode_entry_def)
  have "wr32 (memory ctx) (length ?P + 8) 1 = Some (?A @ le32 1 @ ?B)"
    using wr32_at [of "length ?P + 8" ?A "le32 (if e_dead e then 1 else 0)" ?B 1] m
    by (simp add: encode_entry_def)
  then have run: "ctap_memory_storage_delete_item ctx (index_to_handle (length ?P))
      = Some (CTAP_STORAGE_OK, ctx\<lparr>memory := ?P @ encode_entry ?e @ encode_log E2 @ R\<rparr>)"
    using lt unfolding eq by (simp add: ctap_memory_storage_delete_item_def)
  have len: "length (encode_entry ?e) = length (encode_entry e)"
    by (simp add: encode_entry_def)
  have "wf_entry ?e" using wf unfolding wf_entry_def len by simp
  then show ?thesis
    using m len unfolding run by (auto simp: log_of_def)
qed

lemma entry_slots_kill:
  "entry_slots off (E1 @ e\<lparr>e_dead := True\<rparr> # E2)
     = entry_slots off E1 @ kill \<lparr>slot_handle = index_to_handle (off + length (encode_log E1)),
         slot_key = e_key e, slot_live = \<not> e_dead e, slot_data = e_data e\<rparr>
       # entry_slots (off + length (encode_log E1) + length (encode_entry e)) E2"
proof -
  have "length (encode_entry (e\<lparr>e_dead := True\<rparr>)) = length (encode_entry e)"
    by (simp add: encode_entry_def)
  then show ?thesis by (simp add: entry_slots_append kill_def)
qed

lemma log_of_bounds:
  assumes "log_of ctx (E @ F)"
  shows "length (encode_log E) \<le> write_index ctx" "write_index ctx < 2 ^ 31"
    "length F < Suc (write_index ctx)" "list_all wf_entry F"
proof -
  have l: "list_all wf_entry (E @ F)" "write_index ctx = length (encode_log (E @ F))"
      "write_index ctx \<le> length (memory ctx)" "length (memory ctx) < 2 ^ 31"
    using assms by (auto simp: log_of_def)
  then show "length (encode_log E) \<le> write_index ctx" "write_index ctx < 2 ^ 31"
    "list_all wf_entry F" by simp_all
  show "length F < Suc (write_index ctx)"
    using length_log_le [of F] l by simp
qed

lemma mem_find_first:
  assumes "log_of ctx E" and "item_handle it = 0"
  shows "ctap_memory_storage_find_item ctx it = Some (first_match it (entry_slots 0 E))"
  using mem_find_loop_log [of ctx "[]" E "Suc (write_index ctx)" it]
    log_of_bounds [of ctx "[]" E] assms
  by (simp add: ctap_memory_storage_find_item_def)

lemma mem_find_next:
  assumes rep: "log_of ctx (E1 @ e # E2)"
      and h: "item_handle it = index_to_handle (length (encode_log E1))"
      and n: "item_size it = length (e_data e)"
  shows "ctap_memory_storage_find_item ctx it
       = Some (first_match it (entry_slots (length (encode_log E1) + length (encode_entry e)) E2))"
proof -
  have b: "length (encode_log (E1 @ [e])) \<le> write_index ctx" "write_index ctx < 2 ^ 31"
      "length E2 < Suc (write_index ctx)" "list_all wf_entry E2" 
    using log_of_bounds [of ctx "E1 @ [e]" E2] rep by simp_all
  have "wf_entry e" using rep by (simp add: log_of_def)
  then have "wrap32 (length (encode_log E1) + mem_compute_total_item_size (item_size it))
      = length (encode_log (E1 @ [e]))"
    using b n by (simp add: wf_entry_def)
  then show ?thesis
    using mem_find_loop_log [of ctx "E1 @ [e]" E2 "Suc (write_index ctx)" it] rep b h
    by (simp add: ctap_memory_storage_find_item_def)
qed

lemma mem_update_ok:
  assumes E: "log_of s E" "entry_slots 0 E = L1 @ x # L2"
      and it: "item_handle it = slot_handle x" "item_key it \<noteq> 0"
        "item_size it = length (item_data it)" "mem_fits s (item_size it)"
  shows "\<exists>s' h E'. ctap_memory_storage_create_or_update_item s it
      = Some (CTAP_STORAGE_OK, it\<lparr>item_handle := h\<rparr>, s') \<and> log_of s' E'
    \<and> L1 @ kill x # L2 @ [\<lparr>slot_handle = h, slot_key = item_key it, slot_live = True,
        slot_data = item_data it\<rparr>] = entry_slots 0 E'"
proof -
  from entry_slots_split [OF E(2)] obtain E1 e E2 where e: "E = E1 @ e # E2"
    "L1 = entry_slots 0 E1" "x = \<lparr>slot_handle = index_to_handle (length (encode_log E1)),
      slot_key = e_key e, slot_live = \<not> e_dead e, slot_data = e_data e\<rparr>"
    "L2 = entry_slots (length (encode_log E1) + length (encode_entry e)) E2" by auto
  let ?h = "index_to_handle (length (encode_log E))"
  from mem_create_ok [OF E(1) it(2-4)] obtain s1 w p where s1:
    "ctap_memory_storage_create_item s it = Some (CTAP_STORAGE_OK, it\<lparr>item_handle := ?h\<rparr>, s1)"
    "log_of s1 (E1 @ e # (E2 @ [\<lparr>e_key = item_key it, e_dead = False, e_word = w,
        e_data = item_data it, e_pad = p\<rparr>]))" by (auto simp: e)
  from mem_delete_ok [OF s1(2)] obtain s2 where s2:
    "ctap_memory_storage_delete_item s1 (slot_handle x) = Some (CTAP_STORAGE_OK, s2)"
    "log_of s2 (E1 @ e\<lparr>e_dead := True\<rparr> # (E2 @ [\<lparr>e_key = item_key it, e_dead = False,
        e_word = w, e_data = item_data it, e_pad = p\<rparr>]))" by (auto simp: e)
  have "slot_handle x \<noteq> 0"
    using log_of_bounds(1,2) [of s E1 "e # E2"] E(1) e(1,3) by simp
  then have "ctap_memory_storage_create_or_update_item s it
      = Some (CTAP_STORAGE_OK, it\<lparr>item_handle := ?h\<rparr>, s2)"
    using s1(1) s2(1) it by (simp add: ctap_memory_storage_create_or_update_item_def)
  moreover have "L1 @ kill x # L2 @ [\<lparr>slot_handle = ?h, slot_key = item_key it, slot_live = True,
        slot_data = item_data it\<rparr>] = entry_slots 0 (E1 @ e\<lparr>e_dead := True\<rparr> # (E2 @
        [\<lparr>e_key = item_key it, e_dead = False, e_word = w, e_data = item_data it, e_pad = p\<rparr>]))"
    unfolding entry_slots_kill by (simp add: e entry_slots_append add.assoc)
  ultimately show ?thesis
    using s2(2) by blast
qed

interpretation mem: item_storage mem_rep mem_fits ctap_memory_storage_find_item
  ctap_memory_storage_create_or_update_item ctap_memory_storage_delete_item
proof (unfold_locales, goal_cases)
  case (1 s L)
  then show ?case
    by (auto simp: mem_rep_def log_of_def intro: entry_slots_distinct)
next
  case (2 s L x)
  then show ?case
    using entry_slots_handle [of 0 _ x] by (fastforce simp: mem_rep_def log_of_def)
next
  case (3 s L it)
  then show ?case using mem_find_first by (auto simp: mem_rep_def)
next
  case (4 s L1 x L2 it)
  then obtain E where E: "log_of s E" "entry_slots 0 E = L1 @ x # L2" by (auto simp: mem_rep_def)
  with entry_slots_split [OF E(2)] 4 show ?case using mem_find_next by fastforce
next
  case (5 s L it)
  then obtain E where E: "log_of s E" "L = entry_slots 0 E" by (auto simp: mem_rep_def)
  with mem_create_ok [of s E it] 5 show ?case
    by (fastforce simp: ctap_memory_storage_create_or_update_item_def mem_rep_def
        entry_slots_append)
next
  case (6 s L1 x L2 it)
  then obtain E where E: "log_of s E" "entry_slots 0 E = L1 @ x # L2" by (auto simp: mem_rep_def)
  from mem_update_ok [OF E] 6 show ?case by (auto simp: mem_rep_def)
next
  case (7 s L1 x L2)
  then obtain E where E: "log_of s E" "entry_slots 0 E = L1 @ x # L2" by (auto simp: mem_rep_def)
  with entry_slots_split [OF E(2)] obtain E1 e E2 where e: "E = E1 @ e # E2"
    "L1 = entry_slots 0 E1" "x = \<lparr>slot_handle = index_to_handle (length (encode_log E1)),
      slot_key = e_key e, slot_live = \<not> e_dead e, slot_data = e_data e\<rparr>"
    "L2 = entry_slots (length (encode_log E1) + length (encode_entry e)) E2" by auto
  with mem_delete_ok [of s E1 e E2] E(1) entry_slots_kill [of 0 E1 e E2] show ?case
    by (fastforce simp: mem_rep_def)
qed

section \<open>Erasing, counting, initialising\<close>

lemma mem_erase_rep:
  assumes "mem_rep ctx L"
  shows "\<exists>ctx'. ctap_memory_storage_erase ctx = Some (CTAP_STORAGE_OK, ctx') \<and> mem_rep ctx' []
    \<and> length (memory ctx') = length (memory ctx) \<and> write_index ctx' = 0"
proof -
  obtain E where E: "log_of ctx E" using assms by (auto simp: mem_rep_def)
  have empty: "mem_rep \<lparr>memory = m, write_index = 0\<rparr> []" if "length m < 2 ^ 31" for m
    using that unfolding mem_rep_def log_of_def by (intro exI [of _ "[]"]) simp
  have m: "write_index ctx \<le> length (memory ctx)" "length (memory ctx) < 2 ^ 31"
    using E by (auto simp: log_of_def)
  show ?thesis
  proof (cases "write_index ctx = 0")
    case True
    then have "ctx = \<lparr>memory = memory ctx, write_index = 0\<rparr>" by simp
    then have "mem_rep ctx []" using empty [OF m(2)] by metis
    then show ?thesis
      using True by (auto simp: ctap_memory_storage_erase_def)
  next
    case False
    have "memcpy_at (memory ctx) 0 (zeros (write_index ctx))
        = Some (zeros (write_index ctx) @ drop (write_index ctx) (memory ctx))"
      using m by (simp add: memcpy_at_def)
    then show ?thesis
      using False m empty [of "zeros (write_index ctx) @ drop (write_index ctx) (memory ctx)"]
      by (simp add: ctap_memory_storage_erase_def)
  qed
qed

lemma live_items_split:
  "live_items k L = y # ys \<Longrightarrow>
   \<exists>L1 x L2. L = L1 @ x # L2 \<and> y = slot_item x \<and> live_items k L1 = [] \<and> live_items k L2 = ys
     \<and> slot_live x"
proof -
  assume a: "live_items k L = y # ys"
  then obtain x xs where f: "filter (slot_matches k) L = x # xs" "y = slot_item x"
      "ys = map slot_item xs"
    by (auto simp: live_items_def)
  then obtain L1 L2 where "L = L1 @ x # L2" "\<forall>z\<in>set L1. \<not> slot_matches k z" "slot_matches k x"
      "filter (slot_matches k) L2 = xs"
    by (auto simp: filter_eq_Cons_iff)
  then show ?thesis
    using f by (intro exI conjI) (auto simp: live_items_def slot_matches_def)
qed

lemma mem_write_index_loop_stuck:
  assumes "mem_rep ctx (L1 @ x # L2)" and "item_handle it = slot_handle x"
      and "item_size it = length (slot_data x)" and "item_key it = 0"
  shows "mem_find_write_index_loop n ctx it = None"
  using assms
proof (induction n arbitrary: it L1 x L2)
  case (Suc n)
  have nz: "item_handle it \<noteq> 0"
    using mem.rep_handle [OF Suc.prems(1), of x] Suc.prems(2) by simp
  have f: "ctap_memory_storage_find_item ctx it = Some (first_match it L2)"
    using mem.find_next [OF Suc.prems(1-3)] .
  show ?case
  proof (cases "live_items 0 L2")
    case Nil
    then show ?thesis
      using f first_match_Nil [of it L2] Suc.prems(4) nz by (simp add: require_def)
  next
    case (Cons y ys)
    then obtain M1 z M2 where m: "L2 = M1 @ z # M2" "y = slot_item z"
        "first_match it L2 = (CTAP_STORAGE_OK, y)"
      using first_match_Cons [of it L2 y ys] Suc.prems(4) by auto
    then have "mem_find_write_index_loop n ctx (y\<lparr>item_key := 0\<rparr>) = None"
      using Suc.IH [of "L1 @ x # M1" z M2 "y\<lparr>item_key := 0\<rparr>"] Suc.prems(1)
      by (simp add: slot_item_def)
    then show ?thesis
      using f m by simp
  qed
qed simp

section \<open>Properties\<close>


definition empty_memory :: ctap_memory_storage_context where
  "empty_memory = \<lparr>memory = zeros 256, write_index = 0\<rparr>"

lemma empty_memory_rep: "mem_rep empty_memory []"
  unfolding mem_rep_def log_of_def empty_memory_def by (intro exI [of _ "[]"]) simp


text \<open>
  The RAM storage's signature counter. If at most one live item holds the counter (four
  bytes) and there is room, an increment returns the old value plus the increment modulo
  $2^{32}$ (the old value is 0 when there is no counter yet), exactly one live item holds the
  counter afterwards, with the returned value, and no live item of another key changes.
\<close>

theorem memory_counter_increment:
  assumes "mem_rep s L" and "mem_fits s 4"
      and "live_items 3 L = [] \<and> old = 0 \<or> live_items 3 L = [c] \<and> item_data c = le32 old"
  shows "\<exists>s' L' c'. ctap_memory_storage_increment_counter s increment
           = Some (CTAP_STORAGE_OK, old + increment, s')
         \<and> mem_rep s' L' \<and> live_items 3 L' = [c'] \<and> item_data c' = le32 (old + increment)
         \<and> (k \<noteq> 0 \<and> k \<noteq> 3 \<longrightarrow> live_items k L' = live_items k L)"
proof -
  have new: "live_items k [\<lparr>slot_handle = h, slot_key = 3, slot_live = True, slot_data = d\<rparr>]
      = (if k = 0 \<or> k = 3
         then [\<lparr>item_handle = h, item_key = 3, item_size = length d, item_data = d\<rparr>] else [])"
    for k h d by (simp add: live_items_def slot_matches_def slot_item_def)
  from assms(3) show ?thesis
  proof (elim disjE conjE)
    assume n: "live_items 3 L = []" "old = 0"
    let ?it = "(empty_item 3)\<lparr>item_size := 4, item_data := le32 increment\<rparr>"
    obtain s' h where s': "ctap_memory_storage_create_or_update_item s ?it
        = Some (CTAP_STORAGE_OK, ?it\<lparr>item_handle := h\<rparr>, s')"
        "mem_rep s' (L @ [\<lparr>slot_handle = h, slot_key = 3, slot_live = True,
           slot_data = le32 increment\<rparr>])"
      using mem.create [OF assms(1), of ?it] assms(2) by (auto simp: empty_item_def)
    have "ctap_memory_storage_find_item s (empty_item 3)
        = Some (CTAP_STORAGE_ITEM_NOT_FOUND, empty_item 3)"
      using mem.find_first [OF assms(1), of "empty_item 3"] n
        first_match_Nil [of "empty_item 3" L] by (simp add: empty_item_def)
    then have "ctap_memory_storage_increment_counter s increment
        = Some (CTAP_STORAGE_OK, old + increment, s')"
      using s'(1) n by (simp add: ctap_memory_storage_increment_counter_def)
    then show ?thesis
      using s'(2) n by (intro exI conjI) (auto simp: live_items_append new)
  next
    assume c: "live_items 3 L = [c]" "item_data c = le32 old"
    obtain L1 x L2 where x: "L = L1 @ x # L2" "c = slot_item x" "live_items 3 L1 = []"
        "live_items 3 L2 = []" "slot_live x"
      using live_items_split [OF c(1)] by auto
    have xk: "slot_key x = 3"
      using c(1) x by (auto simp: live_items_def slot_matches_def split: if_splits)
    let ?it = "c\<lparr>item_size := 4, item_data := le32 (old + increment)\<rparr>"
    obtain s' h where s': "ctap_memory_storage_create_or_update_item s ?it
        = Some (CTAP_STORAGE_OK, ?it\<lparr>item_handle := h\<rparr>, s')"
        "mem_rep s' (L1 @ kill x # L2 @ [\<lparr>slot_handle = h, slot_key = 3, slot_live = True,
           slot_data = le32 (old + increment)\<rparr>])"
      using mem.update [of s L1 x L2 ?it] assms(1,2) x xk by (auto simp: slot_item_def)
    have "ctap_memory_storage_find_item s (empty_item 3) = Some (CTAP_STORAGE_OK, c)"
      using mem.find_first [OF assms(1), of "empty_item 3"] c
        first_match_Cons [of "empty_item 3" L c "[]"] by (auto simp: empty_item_def)
    moreover have "item_size c = 4" "rd32 (item_data c) 0 = Some old"
      using c(2) x(2) le32_read_le32 [of old "[]"]
      by (simp_all add: slot_item_def rd32_def)
    ultimately have "ctap_memory_storage_increment_counter s increment
        = Some (CTAP_STORAGE_OK, old + increment, s')"
      using s'(1) by (simp add: ctap_memory_storage_increment_counter_def)
    moreover have "k \<noteq> 0 \<and> k \<noteq> 3 \<longrightarrow> live_items k [x] = []"
      using xk by (simp add: live_items_def slot_matches_def)
    moreover have "live_items k (x # L2) = live_items k [x] @ live_items k L2"
      using live_items_append [of k "[x]" L2] by simp
    ultimately show ?thesis
      using s'(2) x by (intro exI conjI) (auto simp: live_items_append live_items_kill new)
  qed
qed

theorem memory_counter_increment_witness:
  "\<exists>s'. ctap_memory_storage_increment_counter empty_memory 5 = Some (CTAP_STORAGE_OK, 5, s')"
proof -
  have "mem_fits empty_memory 4" by (simp add: mem_fits_def empty_memory_def mem_total_eq)
  from memory_counter_increment [OF empty_memory_rep this, of 0] show ?thesis
    by (fastforce simp: live_items_def)
qed

text \<open>
  Initialising the RAM storage again does not recover its content. When a live item exists,
  \<open>ctap_memory_storage_init\<close> fails the assertion in \<open>find_write_index\<close>, because the search loop
  has reset \<open>item.key\<close> to 0 before the test that should use the last item found; when none exists
  the write index becomes 0, whatever it was.
\<close>

theorem memory_init_loses_items:
  assumes "mem_rep s L"
  shows "ctap_memory_storage_init s
       = (if live_items 0 L = [] then Some (CTAP_STORAGE_OK, s\<lparr>write_index := 0\<rparr>) else None)"
proof (cases "live_items 0 L")
  case Nil
  then have "ctap_memory_storage_find_item s (empty_item 0)
      = Some (CTAP_STORAGE_ITEM_NOT_FOUND, empty_item 0)"
    using mem.find_first [OF assms, of "empty_item 0"] first_match_Nil [of "empty_item 0" L]
    by (simp add: empty_item_def)
  then show ?thesis
    using Nil by (simp add: ctap_memory_storage_init_def ctap_memory_storage_find_write_index_def
        empty_item_def numeral_2_eq_2)
next
  case (Cons y ys)
  then obtain M1 z M2 where m: "L = M1 @ z # M2" "y = slot_item z"
      "first_match (empty_item 0) L = (CTAP_STORAGE_OK, y)"
    using first_match_Cons [of "empty_item 0" L y ys] by (auto simp: empty_item_def)
  have "mem_find_write_index_loop n s (y\<lparr>item_key := 0\<rparr>) = None" for n
    using mem_write_index_loop_stuck [of s M1 z M2 "y\<lparr>item_key := 0\<rparr>" n] assms m
    by (simp add: slot_item_def)
  moreover have "ctap_memory_storage_find_item s (empty_item 0) = Some (CTAP_STORAGE_OK, y)"
    using mem.find_first [OF assms, of "empty_item 0"] m by (simp add: empty_item_def)
  ultimately have "mem_find_write_index_loop (Suc n) s (empty_item 0) = None" for n
    by simp
  then have "mem_find_write_index_loop (write_index s + 2) s (empty_item 0) = None"
    by (metis add_2_eq_Suc')
  then show ?thesis
    using Cons by (simp add: ctap_memory_storage_init_def ctap_memory_storage_find_write_index_def)
qed

theorem memory_init_loses_items_witness:
  "\<exists>s. ctap_memory_storage_increment_counter empty_memory 5 = Some (CTAP_STORAGE_OK, 5, s)
     \<and> ctap_memory_storage_init s = None"
proof -
  have "mem_fits empty_memory 4" by (simp add: mem_fits_def empty_memory_def mem_total_eq)
  let ?it = "(empty_item 3)\<lparr>item_size := 4, item_data := le32 5\<rparr>"
  obtain s' h where s': "ctap_memory_storage_create_or_update_item empty_memory ?it
      = Some (CTAP_STORAGE_OK, ?it\<lparr>item_handle := h\<rparr>, s')"
      "mem_rep s' ([] @ [\<lparr>slot_handle = h, slot_key = 3, slot_live = True, slot_data = le32 5\<rparr>])"
    using mem.create [OF empty_memory_rep, of ?it] \<open>mem_fits empty_memory 4\<close>
    by (auto simp: empty_item_def)
  have "ctap_memory_storage_find_item empty_memory (empty_item 3)
      = Some (CTAP_STORAGE_ITEM_NOT_FOUND, empty_item 3)"
    using mem.find_first [OF empty_memory_rep, of "empty_item 3"]
    by (simp add: empty_item_def first_match_def)
  then have "ctap_memory_storage_increment_counter empty_memory 5 = Some (CTAP_STORAGE_OK, 5, s')"
    using s'(1) by (simp add: ctap_memory_storage_increment_counter_def)
  then show ?thesis
    using memory_init_loses_items [OF s'(2)] by (auto simp: live_items_def slot_matches_def)
qed

section \<open>The structure of function pointers\<close>

definition CTAP_MEMORY_STORAGE_CONST_INIT :: "ctap_memory_storage_context ctap_storage" where
  "CTAP_MEMORY_STORAGE_CONST_INIT = \<lparr>
     find_item = ctap_memory_storage_find_item,
     create_or_update_item = ctap_memory_storage_create_or_update_item,
     delete_item = ctap_memory_storage_delete_item,
     increment_counter = ctap_memory_storage_increment_counter,
     estimate_num_remaining_items = ctap_memory_storage_estimate_num_remaining_items,
     erase_storage = ctap_memory_storage_erase\<rparr>"

end
