(* ===== verification/Flash_Storage.thy ===== *)
theory Flash_Storage
  imports Storage
begin

text \<open>
  The storage in the internal flash of the STM32H533
  (\<open>targets/stm32h533/Src/flash_storage.c\<close>): a log of items in sector 0 of bank 2, written in
  quad-words of 16 bytes, and the signature counter in the high-cycle data area, one word per
  value. The HAL functions that program and erase the flash are parameters; \<open>hal_ok\<close> states
  the documented behaviour the code relies on: a virgin (erased) quad-word can be programmed once
  and then holds the data. Nothing is assumed about programming a quad-word twice.
\<close>

section \<open>Memory and HAL\<close>

text \<open>The base addresses of the device header and the two sectors the code uses.\<close>

abbreviation (input) FLASH_BASE :: nat where "FLASH_BASE \<equiv> 0x08000000"
abbreviation (input) FLASH_EDATA_BASE :: nat where "FLASH_EDATA_BASE \<equiv> 0x09000000"
abbreviation (input) FLASH_EDATA_SIZE :: nat where "FLASH_EDATA_SIZE \<equiv> 0x18000"
abbreviation (input) FLASH_STORAGE_STANDARD_SECTOR_SIZE :: nat where
  "FLASH_STORAGE_STANDARD_SECTOR_SIZE \<equiv> 8192"
abbreviation (input) FLASH_STORAGE_EDATA_SECTOR_SIZE :: nat where
  "FLASH_STORAGE_EDATA_SECTOR_SIZE \<equiv> 6144"
abbreviation (input) FLASH_WORD_SIZE :: nat where "FLASH_WORD_SIZE \<equiv> 16"
abbreviation (input) FLASH_STORAGE_VIRGIN_UINT32 :: u32 where
  "FLASH_STORAGE_VIRGIN_UINT32 \<equiv> 0xFFFFFFFF"
abbreviation (input) FLASH_STORAGE_VERSION :: u32 where "FLASH_STORAGE_VERSION \<equiv> 3"

definition sector_base_address :: "nat \<Rightarrow> nat" where
  "sector_base_address sector = FLASH_BASE + 32 * FLASH_STORAGE_STANDARD_SECTOR_SIZE
     + sector * FLASH_STORAGE_STANDARD_SECTOR_SIZE"

definition high_cycling_area_base :: nat where
  "high_cycling_area_base = FLASH_EDATA_BASE + FLASH_EDATA_SIZE div 2"

definition high_cycling_area_end :: nat where
  "high_cycling_area_end = high_cycling_area_base + FLASH_STORAGE_EDATA_SECTOR_SIZE"

text \<open>
  \<open>sector0\<close> is the content of sector 0 of bank 2, \<open>edata\<close> the words of the first high-cycle
  sector. The addresses of the context are absolute.
\<close>

record flash =
  sector0 :: bytes
  edata :: "u32 list"
  write_address :: nat
  counter_write_address :: nat

text \<open>
  The HAL: programming a quad-word or a word of the high-cycle area at an offset gives success or
  failure and the new content; erasing a sector likewise. The option byte functions only succeed
  or fail.
\<close>

record flash_hal =
  hal_unlock :: bool
  hal_program :: "bytes \<Rightarrow> nat \<Rightarrow> bytes \<Rightarrow> bool \<times> bytes"
  hal_program_edata :: "u32 list \<Rightarrow> nat \<Rightarrow> u32 \<Rightarrow> bool \<times> u32 list"
  hal_erase :: "nat \<Rightarrow> flash \<Rightarrow> bool \<times> flash"
  hal_edata2r_cur :: u32
  hal_ob_unlock :: bool
  hal_ob_program :: bool
  hal_ob_launch :: bool

definition virgin :: "nat \<Rightarrow> bytes" where
  "virgin n = replicate n 0xFF"

lemma virgin_0 [simp]: "virgin 0 = []"
  by (simp add: virgin_def)

lemma length_virgin [simp]: "length (virgin n) = n"
  by (simp add: virgin_def)

lemma take_virgin [simp]: "take k (virgin n) = virgin (min k n)"
  by (simp add: virgin_def min.commute)

lemma drop_virgin [simp]: "drop k (virgin n) = virgin (n - k)"
  by (simp add: virgin_def)

text \<open>The documented behaviour of the HAL that the code relies on.\<close>

definition hal_ok :: "flash_hal \<Rightarrow> bool" where
  "hal_ok hal \<longleftrightarrow>
     (\<forall>p q n. length q = 16 \<longrightarrow> 16 dvd length p \<longrightarrow> 16 \<le> n \<longrightarrow>
        hal_program hal (p @ virgin n) (length p) q = (True, p @ q @ virgin (n - 16)))
     \<and> (\<forall>p r q. length q = 16 \<longrightarrow> 16 dvd length p \<longrightarrow>
        hal_program hal (p @ virgin 16 @ r) (length p) q = (True, p @ q @ r))
     \<and> (\<forall>ws i w. i < length ws \<longrightarrow> ws ! i = 0xFFFFFFFF \<longrightarrow>
        hal_program_edata hal ws i w = (True, ws[i := w]))
     \<and> (\<forall>fl. hal_erase hal 0 fl = (True, fl\<lparr>sector0 := virgin 8192\<rparr>))
     \<and> (\<forall>fl. hal_erase hal 24 fl = (True, fl\<lparr>edata := replicate 1536 0xFFFFFFFF\<rparr>))
     \<and> hal_unlock hal \<and> hal_ob_unlock hal \<and> hal_ob_program hal \<and> hal_ob_launch hal"

section \<open>Operations\<close>

definition flash_ceil_size_to_boundary :: "nat \<Rightarrow> nat" where
  "flash_ceil_size_to_boundary sz = wrap32 (sz + 15) div 16 * 16"

definition flash_compute_total_item_size :: "nat \<Rightarrow> nat" where
  "flash_compute_total_item_size sz =
     wrap32 (2 * FLASH_WORD_SIZE + flash_ceil_size_to_boundary sz + FLASH_WORD_SIZE)"

text \<open>A 32-bit load from an address of sector 0; \<open>None\<close> outside the sector.\<close>

definition flash_read :: "flash \<Rightarrow> nat \<Rightarrow> u32 option" where
  "flash_read fl address =
     require (sector_base_address 0 \<le> address) (rd32 (sector0 fl) (address - sector_base_address 0))"

definition is_virgin_word :: "flash \<Rightarrow> nat \<Rightarrow> bool option" where
  "is_virgin_word fl address =
     do { w0 \<leftarrow> flash_read fl address;
          w1 \<leftarrow> flash_read fl (address + 4);
          w2 \<leftarrow> flash_read fl (address + 8);
          w3 \<leftarrow> flash_read fl (address + 12);
          Some (FLASH_STORAGE_VIRGIN_UINT32 AND w0 AND w1 AND w2 AND w3
                  = FLASH_STORAGE_VIRGIN_UINT32) }"

definition erase_sector :: "flash_hal \<Rightarrow> nat \<Rightarrow> flash \<Rightarrow> (ctap_storage_status \<times> flash) option" where
  "erase_sector hal sector fl =
     require (sector < 32) (
       let (ok, fl') = hal_erase hal sector fl in
       Some (if ok then CTAP_STORAGE_OK else CTAP_STORAGE_ERROR, fl'))"

definition program_word :: "flash_hal \<Rightarrow> nat \<Rightarrow> bytes \<Rightarrow> flash \<Rightarrow> ctap_storage_status \<times> flash" where
  "program_word hal address d fl =
     (let (ok, sec) = hal_program hal (sector0 fl) (address - sector_base_address 0) d in
      (if ok then CTAP_STORAGE_OK else CTAP_STORAGE_ERROR, fl\<lparr>sector0 := sec\<rparr>))"

definition program_edata_word :: "flash_hal \<Rightarrow> nat \<Rightarrow> u32 \<Rightarrow> flash \<Rightarrow> ctap_storage_status \<times> flash" where
  "program_edata_word hal address w fl =
     (let (ok, ws) = hal_program_edata hal (edata fl) ((address - high_cycling_area_base) div 4) w in
      (if ok then CTAP_STORAGE_OK else CTAP_STORAGE_ERROR, fl\<lparr>edata := ws\<rparr>))"

definition ensure_high_cycling_area_enabled :: "flash_hal \<Rightarrow> ctap_storage_status" where
  "ensure_high_cycling_area_enabled hal =
     (let current = hal_edata2r_cur hal;
          edata_size = (if current AND 0x8000 \<noteq> 0 then (current AND 7) + 1 else 0) in
      if edata_size = 8 then CTAP_STORAGE_OK
      else if \<not> hal_ob_unlock hal then CTAP_STORAGE_ERROR
      else if \<not> hal_ob_program hal then CTAP_STORAGE_ERROR
      else if \<not> hal_ob_launch hal then CTAP_STORAGE_ERROR
      else CTAP_STORAGE_OK)"

definition should_initialize :: "flash \<Rightarrow> bool option" where
  "should_initialize fl =
     do { version \<leftarrow> flash_read fl (sector_base_address 0);
          if version \<noteq> FLASH_STORAGE_VERSION then Some True
          else do { v \<leftarrow> is_virgin_word fl (sector_base_address 0 + 16); Some (\<not> v) } }"

definition erase_and_init_sector ::
    "flash_hal \<Rightarrow> nat \<Rightarrow> flash \<Rightarrow> (ctap_storage_status \<times> flash) option" where
  "erase_and_init_sector hal sector fl =
     do { (status, fl1) \<leftarrow> erase_sector hal sector fl;
          if status \<noteq> CTAP_STORAGE_OK then Some (status, fl1)
          else Some (program_word hal (sector_base_address sector)
            (le32 FLASH_STORAGE_VERSION @ le32 0 @ le32 0 @ le32 0) fl1) }"

definition erase_high_cycling_area ::
    "flash_hal \<Rightarrow> flash \<Rightarrow> (ctap_storage_status \<times> flash) option" where
  "erase_high_cycling_area hal fl = erase_sector hal (32 - 8) fl"

text \<open>The first virgin word of the counter sector, or its end.\<close>

definition find_counter_write_address :: "flash \<Rightarrow> nat" where
  "find_counter_write_address fl =
     high_cycling_area_base
     + 4 * length (takeWhile (\<lambda>w. w \<noteq> FLASH_STORAGE_VIRGIN_UINT32) (edata fl))"

text \<open>
  The \<open>while\<close> loop of \<open>stm32h533_flash_storage_find_item\<close>, with fuel as in the RAM storage.
\<close>

fun flash_find_loop :: "nat \<Rightarrow> flash \<Rightarrow> ctap_storage_item \<Rightarrow> nat
    \<Rightarrow> (ctap_storage_status \<times> ctap_storage_item) option" where
  "flash_find_loop 0 fl item address = None"
| "flash_find_loop (Suc fuel) fl item address =
     (if address < sector_base_address 1 then
        do { v \<leftarrow> is_virgin_word fl address;
             if v then Some (CTAP_STORAGE_ITEM_NOT_FOUND, item)
             else do {
               key \<leftarrow> flash_read fl address;
               sz \<leftarrow> flash_read fl (address + 4);
               live \<leftarrow> is_virgin_word fl (address + 16);
               if live \<and> (item_key item = 0 \<or> item_key item = key) then
                 Some (CTAP_STORAGE_OK,
                   \<lparr>item_handle = of_nat address, item_key = key, item_size = unat sz,
                    item_data = take (unat sz)
                      (drop (address + 32 - sector_base_address 0) (sector0 fl))\<rparr>)
               else flash_find_loop fuel fl item
                 (wrap32 (address + flash_compute_total_item_size (unat sz))) } }
      else Some (CTAP_STORAGE_ITEM_NOT_FOUND, item))"

text \<open>A sector has room for at most 512 quad-words, so 512 turns visit every item of a log.\<close>

definition stm32h533_flash_storage_find_item ::
    "flash \<Rightarrow> ctap_storage_item \<Rightarrow> (ctap_storage_status \<times> ctap_storage_item) option" where
  "stm32h533_flash_storage_find_item fl item =
     (let min_address = sector_base_address 0 + 2 * FLASH_WORD_SIZE;
          max_address = sector_base_address 1 in
      do { address \<leftarrow> (if item_handle item \<noteq> 0 then
             let a = wrap32 (unat (item_handle item)
                       + flash_compute_total_item_size (item_size item)) in
             require (min_address \<le> a \<and> a < max_address) (Some a)
             else Some min_address);
           flash_find_loop 512 fl item address })"

fun flash_find_write_address_loop :: "nat \<Rightarrow> flash \<Rightarrow> ctap_storage_item \<Rightarrow> nat option" where
  "flash_find_write_address_loop 0 fl item = None"
| "flash_find_write_address_loop (Suc fuel) fl item =
     do { (status, item') \<leftarrow> stm32h533_flash_storage_find_item fl item;
          if status = CTAP_STORAGE_OK
            then flash_find_write_address_loop fuel fl (item'\<lparr>item_key := 0\<rparr>)
          else if item_handle item' = 0
            then Some (sector_base_address 0 + 2 * FLASH_WORD_SIZE)
          else Some (wrap32 (unat (item_handle item')
                 + flash_compute_total_item_size (item_size item'))) }"

definition find_write_address :: "flash \<Rightarrow> nat option" where
  "find_write_address fl = flash_find_write_address_loop 512 fl (empty_item 0)"

definition stm32h533_flash_storage_init ::
    "flash_hal \<Rightarrow> flash \<Rightarrow> (ctap_storage_status \<times> flash) option" where
  "stm32h533_flash_storage_init hal fl =
     (if \<not> hal_unlock hal then Some (CTAP_STORAGE_ERROR, fl)
      else do {
        init \<leftarrow> should_initialize fl;
        (status, fl1) \<leftarrow>
          (if \<not> init then Some (CTAP_STORAGE_OK, fl)
           else if ensure_high_cycling_area_enabled hal \<noteq> CTAP_STORAGE_OK
             then Some (CTAP_STORAGE_ERROR, fl)
           else do {
             (st, fl') \<leftarrow> erase_high_cycling_area hal fl;
             if st \<noteq> CTAP_STORAGE_OK then Some (st, fl') else erase_and_init_sector hal 0 fl' });
        if status \<noteq> CTAP_STORAGE_OK then Some (status, fl1)
        else do {
          wa \<leftarrow> find_write_address fl1;
          Some (CTAP_STORAGE_OK, fl1\<lparr>write_address := wa,
                  counter_write_address := find_counter_write_address fl1\<rparr>) } })"

text \<open>
  The loop of \<open>create_item\<close> over the full quad-words of the data; the number is the loop variable
  \<open>i\<close> when it ends.
\<close>

function flash_write_data :: "flash_hal \<Rightarrow> nat \<Rightarrow> bytes \<Rightarrow> nat \<Rightarrow> nat \<Rightarrow> flash
    \<Rightarrow> ctap_storage_status \<times> nat \<times> flash" where
  "flash_write_data hal address d sz i fl =
     (if i + FLASH_WORD_SIZE \<le> sz then
        (let (status, fl') = program_word hal (address + i) (take 16 (drop i d)) fl in
         if status \<noteq> CTAP_STORAGE_OK then (status, i, fl')
         else flash_write_data hal address d sz (i + FLASH_WORD_SIZE) fl')
      else (CTAP_STORAGE_OK, i, fl))"
  by pat_completeness auto
termination
  by (relation "measure (\<lambda>(hal, address, d, sz, i, fl). sz - i)") auto

declare flash_write_data.simps [simp del]

definition stm32h533_flash_storage_create_item :: "flash_hal \<Rightarrow> flash \<Rightarrow> ctap_storage_item
    \<Rightarrow> (ctap_storage_status \<times> ctap_storage_item \<times> flash) option" where
  "stm32h533_flash_storage_create_item hal fl item =
     require (item_key item \<noteq> 0) (
     require (item_size item \<le> length (item_data item)) (
       let sz = item_size item;
           total_item_size = flash_compute_total_item_size sz;
           item_address = write_address fl;
           data_address = item_address + 2 * FLASH_WORD_SIZE;
           aligned_size = flash_ceil_size_to_boundary sz in
       if wrap32 (item_address + total_item_size) > sector_base_address 1
         then Some (CTAP_STORAGE_OUT_OF_MEMORY_ERROR, item, fl)
       else
         let (st1, fl1) = program_word hal item_address
                (le32 (item_key item) @ le32 (of_nat sz) @ le32 0 @ le32 0) fl in
         if st1 \<noteq> CTAP_STORAGE_OK then Some (st1, item, fl1)
         else
           let (st2, i, fl2) = flash_write_data hal data_address (item_data item) sz 0 fl1 in
           if st2 \<noteq> CTAP_STORAGE_OK then Some (st2, item, fl2)
           else
             require (i < aligned_size \<longrightarrow> aligned_size - sz < FLASH_WORD_SIZE) (
             require ((if i < aligned_size then i + 16 else i) = aligned_size) (
               let (st3, fl3) =
                 (if i < aligned_size then program_word hal (data_address + i)
                    (take (sz - i) (drop i (item_data item)) @ virgin (aligned_size - sz)) fl2
                  else (CTAP_STORAGE_OK, fl2)) in
               if st3 \<noteq> CTAP_STORAGE_OK then Some (st3, item, fl3)
               else
                 let (st4, fl4) = program_word hal (data_address + aligned_size)
                   (le32 0 @ le32 0 @ le32 0 @ le32 1) fl3 in
                 if st4 \<noteq> CTAP_STORAGE_OK then Some (st4, item, fl4)
                 else Some (CTAP_STORAGE_OK, item\<lparr>item_handle := of_nat item_address\<rparr>,
                        fl4\<lparr>write_address := wrap32 (item_address + total_item_size)\<rparr>)))))"

definition stm32h533_flash_storage_delete_item ::
    "flash_hal \<Rightarrow> flash \<Rightarrow> u32 \<Rightarrow> (ctap_storage_status \<times> flash) option" where
  "stm32h533_flash_storage_delete_item hal fl handle =
     (let item_address = unat handle in
      require (handle > 0) (
      require (sector_base_address 0 + 32 \<le> item_address \<and> item_address < write_address fl) (
        Some (program_word hal (item_address + FLASH_WORD_SIZE) (zeros 16) fl))))"

definition stm32h533_flash_storage_create_or_update_item :: "flash_hal \<Rightarrow> flash
    \<Rightarrow> ctap_storage_item \<Rightarrow> (ctap_storage_status \<times> ctap_storage_item \<times> flash) option" where
  "stm32h533_flash_storage_create_or_update_item hal fl item =
     require (item_key item \<noteq> 0) (
       if item_handle item \<noteq> 0 then
         do { (status, new_item, fl1) \<leftarrow> stm32h533_flash_storage_create_item hal fl item;
              if status \<noteq> CTAP_STORAGE_OK then Some (status, item, fl1)
              else do {
                (status2, fl2) \<leftarrow> stm32h533_flash_storage_delete_item hal fl1 (item_handle item);
                if status2 \<noteq> CTAP_STORAGE_OK then Some (status2, item, fl2)
                else Some (CTAP_STORAGE_OK, new_item, fl2) } }
       else stm32h533_flash_storage_create_item hal fl item)"

definition stm32h533_flash_storage_increment_counter :: "flash_hal \<Rightarrow> flash \<Rightarrow> u32
    \<Rightarrow> (ctap_storage_status \<times> u32 \<times> flash) option" where
  "stm32h533_flash_storage_increment_counter hal fl increment =
     (let cw = counter_write_address fl;
          slot = (\<lambda>a. (a - high_cycling_area_base) div 4) in
      if cw + 4 > high_cycling_area_end then Some (CTAP_STORAGE_OUT_OF_MEMORY_ERROR, 0, fl)
      else
        let old = (if cw \<ge> high_cycling_area_base + 4 then edata fl ! slot (cw - 4) else 1);
            new_value = old + increment;
            (status, fl1) = program_edata_word hal cw new_value fl in
        if status \<noteq> CTAP_STORAGE_OK then Some (status, 0, fl1)
        else require (edata fl1 ! slot cw = new_value) (
          Some (CTAP_STORAGE_OK, new_value, fl1\<lparr>counter_write_address := cw + 4\<rparr>)))"

definition stm32h533_flash_storage_estimate_num_remaining_items :: "flash \<Rightarrow> nat \<Rightarrow> nat" where
  "stm32h533_flash_storage_estimate_num_remaining_items fl sz =
     (sector_base_address 1 - write_address fl) div flash_compute_total_item_size sz"

definition stm32h533_flash_storage_erase ::
    "flash_hal \<Rightarrow> flash \<Rightarrow> (ctap_storage_status \<times> flash) option" where
  "stm32h533_flash_storage_erase hal fl =
     (if write_address fl = FLASH_WORD_SIZE * 2 then Some (CTAP_STORAGE_OK, fl)
      else
        let (status, fl1) = program_word hal (sector_base_address 0 + FLASH_WORD_SIZE) (zeros 16) fl in
        if status \<noteq> CTAP_STORAGE_OK then Some (status, fl1)
        else stm32h533_flash_storage_init hal fl1)"

definition flash_storage_ops :: "flash_hal \<Rightarrow> flash ctap_storage" where
  "flash_storage_ops hal =
     \<lparr>find_item = stm32h533_flash_storage_find_item,
      create_or_update_item = stm32h533_flash_storage_create_or_update_item hal,
      delete_item = stm32h533_flash_storage_delete_item hal,
      increment_counter = stm32h533_flash_storage_increment_counter hal,
      estimate_num_remaining_items = stm32h533_flash_storage_estimate_num_remaining_items,
      erase_storage = stm32h533_flash_storage_erase hal\<rparr>"

section \<open>Representation\<close>

record fentry =
  f_key :: u32
  f_dead :: bool
  f_data :: bytes

definition flash_marker :: "bool \<Rightarrow> bytes" where
  "flash_marker dead = (if dead then zeros 16 else virgin 16)"

definition encode_fentry :: "fentry \<Rightarrow> bytes" where
  "encode_fentry e = (le32 (f_key e) @ le32 (of_nat (length (f_data e))) @ le32 0 @ le32 0)
     @ flash_marker (f_dead e)
     @ (f_data e @ virgin (flash_ceil_size_to_boundary (length (f_data e)) - length (f_data e)))
     @ (le32 0 @ le32 0 @ le32 0 @ le32 1)"

definition wf_fentry :: "fentry \<Rightarrow> bool" where
  "wf_fentry e \<longleftrightarrow> f_key e \<noteq> 0 \<and> length (f_data e) < 8192"

definition encode_flog :: "fentry list \<Rightarrow> bytes" where
  "encode_flog E = concat (map encode_fentry E)"

fun fentry_slots :: "nat \<Rightarrow> fentry list \<Rightarrow> slot list" where
  "fentry_slots address [] = []"
| "fentry_slots address (e # E) =
     \<lparr>slot_handle = of_nat address, slot_key = f_key e, slot_live = \<not> f_dead e,
      slot_data = f_data e\<rparr> # fentry_slots (address + length (encode_fentry e)) E"

abbreviation (input) flash_first :: nat where "flash_first \<equiv> sector_base_address 0 + 32"

text \<open>
  The sector below the write address is the header and the log, the rest is erased. \<open>flash_rep\<close>
  excludes a log that fills the sector to its very end: see the property on a full sector below.
\<close>

definition flash_log :: "flash \<Rightarrow> fentry list \<Rightarrow> bool" where
  "flash_log fl E \<longleftrightarrow>
     list_all wf_fentry E \<and> 32 + length (encode_flog E) \<le> 8192
     \<and> write_address fl = flash_first + length (encode_flog E)
     \<and> (\<exists>h. length h = 32 \<and>
          sector0 fl = h @ encode_flog E @ virgin (8192 - 32 - length (encode_flog E)))"

definition flash_rep :: "flash_hal \<Rightarrow> flash \<Rightarrow> slot list \<Rightarrow> bool" where
  "flash_rep hal fl L \<longleftrightarrow> hal_ok hal \<and> write_address fl < sector_base_address 1
     \<and> (\<exists>E. flash_log fl E \<and> L = fentry_slots flash_first E)"

definition flash_fits :: "flash \<Rightarrow> nat \<Rightarrow> bool" where
  "flash_fits fl n \<longleftrightarrow> n < 8192
     \<and> write_address fl + flash_compute_total_item_size n < sector_base_address 1"

lemma sector_base [simp]: "sector_base_address 0 = 134479872" "sector_base_address (Suc 0) = 134488064"
  by (simp_all add: sector_base_address_def)

lemma flash_total_eq: "n < 8192 \<Longrightarrow> flash_compute_total_item_size n = 48 + (n + 15) div 16 * 16"
  "n < 8192 \<Longrightarrow> flash_ceil_size_to_boundary n = (n + 15) div 16 * 16"
  by (simp_all add: flash_compute_total_item_size_def flash_ceil_size_to_boundary_def)

lemma length_flash_marker [simp]: "length (flash_marker d) = 16"
  by (simp add: flash_marker_def)

lemma encode_flog_simps [simp]:
  "encode_flog [] = []" "encode_flog (e # E) = encode_fentry e @ encode_flog E"
  "encode_flog (E @ F) = encode_flog E @ encode_flog F"
  by (simp_all add: encode_flog_def)

lemma length_encode_fentry:
  assumes "length (f_data e) < 8192"
  shows "length (encode_fentry e) = flash_compute_total_item_size (length (f_data e))"
    "48 + length (f_data e) \<le> length (encode_fentry e)" "16 dvd length (encode_fentry e)"
proof -
  have "length (f_data e) \<le> (length (f_data e) + 15) div 16 * 16" by simp
  then show l: "length (encode_fentry e) = flash_compute_total_item_size (length (f_data e))"
    using assms by (simp add: encode_fentry_def flash_total_eq)
  show "48 + length (f_data e) \<le> length (encode_fentry e)" "16 dvd length (encode_fentry e)"
    unfolding l using assms by (simp_all add: flash_total_eq)
qed

lemma dvd_encode_flog: "list_all wf_fentry E \<Longrightarrow> 16 dvd length (encode_flog E)"
proof (induction E)
  case (Cons e E)
  then show ?case using length_encode_fentry(3) [of e] by (simp add: wf_fentry_def)
qed simp

text \<open>Reading the log.\<close>

lemma flash_read_at:
  "sector0 fl = P @ le32 w @ Q \<Longrightarrow> a = sector_base_address 0 + length P \<Longrightarrow> flash_read fl a = Some w"
  by (simp add: flash_read_def rd32_def)

lemma is_virgin_word_at:
  assumes "sector0 fl = P @ (le32 a @ le32 b @ le32 c @ le32 d) @ Q"
      and "x = sector_base_address 0 + length P"
  shows "is_virgin_word fl x = Some (0xFFFFFFFF AND a AND b AND c AND d = 0xFFFFFFFF)"
proof -
  have "flash_read fl x = Some a" "flash_read fl (x + 4) = Some b"
      "flash_read fl (x + 8) = Some c" "flash_read fl (x + 12) = Some d"
    using flash_read_at [of fl P a "le32 b @ le32 c @ le32 d @ Q" x]
      flash_read_at [of fl "P @ le32 a" b "le32 c @ le32 d @ Q" "x + 4"]
      flash_read_at [of fl "P @ le32 a @ le32 b" c "le32 d @ Q" "x + 8"]
      flash_read_at [of fl "P @ le32 a @ le32 b @ le32 c" d Q "x + 12"] assms by simp_all
  then show ?thesis by (simp add: is_virgin_word_def)
qed

lemma replicate_16:
  "replicate 16 (x :: u8) = [x, x, x, x] @ [x, x, x, x] @ [x, x, x, x] @ [x, x, x, x]"
proof -
  have "replicate 16 x = replicate 4 x @ replicate 4 x @ replicate 4 x @ replicate 4 x"
    by (simp flip: replicate_add)
  moreover have "replicate 4 x = [x, x, x, x]" by (simp add: numeral_eq_Suc)
  ultimately show ?thesis by metis
qed

lemma virgin_16: "virgin 16 = le32 0xFFFFFFFF @ le32 0xFFFFFFFF @ le32 0xFFFFFFFF @ le32 0xFFFFFFFF"
proof -
  have "le32 0xFFFFFFFF = [0xFF, 0xFF, 0xFF, 0xFF]" by (simp add: le32_def drop_bit_eq_div)
  then show ?thesis unfolding virgin_def replicate_16 by metis
qed

lemma zeros_16: "zeros 16 = le32 0 @ le32 0 @ le32 0 @ le32 0"
  unfolding zeros_def replicate_16 by (simp add: le32_def)

text \<open>The four reads of the find loop on an entry of the log.\<close>

lemma flash_read_entry:
  assumes m: "sector0 fl = P @ encode_fentry e @ Q" and a: "a = sector_base_address 0 + length P"
      and wf: "wf_fentry e"
  shows "is_virgin_word fl a = Some False" "flash_read fl a = Some (f_key e)"
    "flash_read fl (a + 4) = Some (of_nat (length (f_data e)))"
    "is_virgin_word fl (a + 16) = Some (\<not> f_dead e)"
    "take (length (f_data e)) (drop (a + 32 - sector_base_address 0) (sector0 fl)) = f_data e"
proof -
  define pad where "pad = virgin (flash_ceil_size_to_boundary (length (f_data e)) - length (f_data e))"
  define T where "T = (f_data e @ pad) @ (le32 0 @ le32 0 @ le32 0 @ le32 1) @ Q"
  define H where "H = le32 (f_key e) @ le32 (of_nat (length (f_data e))) @ le32 0 @ le32 0"
  have m1: "sector0 fl = P @ H @ flash_marker (f_dead e) @ T"
    using m by (simp add: encode_fentry_def H_def T_def pad_def)
  then show "is_virgin_word fl a = Some False"
    using is_virgin_word_at [of fl P "f_key e" "of_nat (length (f_data e))" 0 0
        "flash_marker (f_dead e) @ T" a] a by (simp add: H_def)
  show "flash_read fl a = Some (f_key e)" "flash_read fl (a + 4) = Some (of_nat (length (f_data e)))"
    using m1 a flash_read_at [of fl P "f_key e"]
      flash_read_at [of fl "P @ le32 (f_key e)" "of_nat (length (f_data e))"]
    by (simp_all add: H_def)
  have lh: "length H = 16" by (simp add: H_def)
  show "is_virgin_word fl (a + 16) = Some (\<not> f_dead e)"
    using is_virgin_word_at [of fl "P @ H" 0 0 0 0 T "a + 16"]
      is_virgin_word_at [of fl "P @ H" "0xFFFFFFFF" "0xFFFFFFFF" "0xFFFFFFFF" "0xFFFFFFFF" T "a + 16"]
      m1 a lh
    by (cases "f_dead e") (simp_all add: flash_marker_def zeros_16 virgin_16)
  show "take (length (f_data e)) (drop (a + 32 - sector_base_address 0) (sector0 fl)) = f_data e"
    using m1 a lh by (simp add: T_def)
qed

lemma flash_virgin_entry:
  assumes "sector0 fl = P @ virgin n" and "16 \<le> n" and "a = sector_base_address 0 + length P"
  shows "is_virgin_word fl a = Some True"
proof -
  have "virgin n = virgin 16 @ virgin (n - 16)"
    using assms(2) by (simp add: virgin_def flip: replicate_add)
  then show ?thesis
    using assms is_virgin_word_at [of fl P "0xFFFFFFFF" "0xFFFFFFFF" "0xFFFFFFFF" "0xFFFFFFFF"
        "virgin (n - 16)" a] by (simp add: virgin_16)
qed

lemma fentry_slots_append:
  "fentry_slots a (E @ F) = fentry_slots a E @ fentry_slots (a + length (encode_flog E)) F"
  by (induction E arbitrary: a) (simp_all add: add.assoc)

lemma flash_log_room:
  assumes "flash_log fl E"
  shows "16 dvd length (encode_flog E)"
    "length (encode_flog E) = 8160 \<or> 48 + length (encode_flog E) \<le> 8192"
proof -
  have d: "16 dvd length (encode_flog E)" and l: "32 + length (encode_flog E) \<le> 8192"
    using assms dvd_encode_flog by (auto simp: flash_log_def)
  show "16 dvd length (encode_flog E)" by (rule d)
  show "length (encode_flog E) = 8160 \<or> 48 + length (encode_flog E) \<le> 8192"
    using d l by presburger
qed

lemma flash_find_loop_log:
  assumes "flash_log fl (E @ F)" and "length F < fuel"
  shows "flash_find_loop fuel fl it (flash_first + length (encode_flog E))
       = Some (first_match it (fentry_slots (flash_first + length (encode_flog E)) F))"
  using assms
proof (induction F arbitrary: E fuel)
  case Nil
  obtain h where h: "length h = 32"
      "sector0 fl = (h @ encode_flog E) @ virgin (8192 - 32 - length (encode_flog E))"
    using Nil.prems by (auto simp: flash_log_def)
  have "length (encode_flog E) \<noteq> 8160 \<Longrightarrow>
      is_virgin_word fl (flash_first + length (encode_flog E)) = Some True"
    using flash_log_room [of fl E] Nil.prems h(1)
    by (intro flash_virgin_entry [OF h(2)]) simp_all
  then show ?case
    using Nil.prems by (cases fuel; cases "length (encode_flog E) = 8160")
      (simp_all add: first_match_def)
next
  case (Cons e F)
  obtain fuel' where fuel: "fuel = Suc fuel'" using Cons.prems(2) by (cases fuel) auto
  obtain h where m: "sector0 fl = (h @ encode_flog E) @ encode_fentry e @ encode_flog F
      @ virgin (8192 - 32 - length (encode_flog (E @ e # F)))" "length h = 32"
    using Cons.prems(1) by (auto simp: flash_log_def)
  have wf: "wf_fentry e" and lt: "32 + length (encode_flog (E @ e # F)) \<le> 8192"
    using Cons.prems(1) by (auto simp: flash_log_def)
  have le: "length (f_data e) < 8192" using wf by (simp add: wf_fentry_def)
  note l = length_encode_fentry [OF le]
  let ?a = "flash_first + length (encode_flog E)"
  have a: "?a = sector_base_address 0 + length (h @ encode_flog E)" using m(2) by simp
  note rd = flash_read_entry [OF m(1) a wf]
  have sz: "unat (of_nat (length (f_data e)) :: u32) = length (f_data e)"
    using le by (simp add: unat_of_nat take_bit_nat_eq_self)
  have "wrap32 (?a + flash_compute_total_item_size (length (f_data e)))
      = flash_first + length (encode_flog (E @ [e]))"
    using l(1) lt by simp
  moreover have "flash_find_loop fuel' fl it (flash_first + length (encode_flog (E @ [e])))
      = Some (first_match it (fentry_slots (flash_first + length (encode_flog (E @ [e]))) F))"
    using Cons.IH [of "E @ [e]" fuel'] Cons.prems fuel by simp
  moreover have "?a < sector_base_address 1" using lt l(2) by simp
  ultimately show ?case
    using fuel rd sz l(1)
    by (auto simp: first_match_def slot_matches_def slot_item_def add.assoc)
qed

text \<open>Writing to the erased rest of the sector.\<close>

lemma program_virgin:
  assumes "hal_ok hal" and "sector0 fl = P @ virgin n" and "16 dvd length P" and "16 \<le> n"
      and "length q = 16" and "a = sector_base_address 0 + length P"
  shows "program_word hal a q fl = (CTAP_STORAGE_OK, fl\<lparr>sector0 := P @ q @ virgin (n - 16)\<rparr>)"
  using assms by (simp add: program_word_def hal_ok_def)

lemma program_virgin_inside:
  assumes "hal_ok hal" and "sector0 fl = P @ virgin 16 @ R" and "16 dvd length P"
      and "length q = 16" and "a = sector_base_address 0 + length P"
  shows "program_word hal a q fl = (CTAP_STORAGE_OK, fl\<lparr>sector0 := P @ q @ R\<rparr>)"
  using assms by (simp add: program_word_def hal_ok_def)

lemma flash_write_data_ok:
  assumes "hal_ok hal" and "sector0 fl = P @ take i d @ virgin n" and "16 dvd length P"
      and "16 dvd i" and "i \<le> sz" and "sz \<le> length d" and "sz - i \<le> n"
      and "a = sector_base_address 0 + length P"
  defines "j \<equiv> sz div 16 * 16"
  shows "flash_write_data hal a d sz i fl
       = (CTAP_STORAGE_OK, j, fl\<lparr>sector0 := P @ take j d @ virgin (n - (j - i))\<rparr>)"
  using assms(2,4,5,7)
proof (induction "sz - i" arbitrary: i n fl rule: less_induct)
  case less
  have il: "length (take i d) = i" using less.prems(3) assms(6) by simp
  show ?case
  proof (cases "i + 16 \<le> sz")
    case True
    let ?q = "take 16 (drop i d)" and ?fl = "fl\<lparr>sector0 := P @ take (i + 16) d @ virgin (n - 16)\<rparr>"
    have "program_word hal (a + i) ?q fl
        = (CTAP_STORAGE_OK, fl\<lparr>sector0 := (P @ take i d) @ ?q @ virgin (n - 16)\<rparr>)"
      using less.prems assms(1,3,6,8) True il
      by (intro program_virgin) simp_all
    then have w: "program_word hal (a + i) ?q fl = (CTAP_STORAGE_OK, ?fl)"
      by (simp add: take_add)
    have "flash_write_data hal a d sz (i + 16) ?fl
        = (CTAP_STORAGE_OK, j, ?fl\<lparr>sector0 := P @ take j d @ virgin (n - 16 - (j - (i + 16)))\<rparr>)"
      using less.prems True by (intro less.hyps) simp_all
    moreover have "i + 16 \<le> j"
    proof -
      have "i div 16 * 16 = i" using less.prems(2) by simp
      moreover have "(i + 16) div 16 \<le> sz div 16" using True by (rule div_le_mono)
      moreover have "(i + 16) div 16 = i div 16 + 1" by simp
      ultimately show ?thesis unfolding j_def by linarith
    qed
    ultimately show ?thesis
      using w True by (subst flash_write_data.simps) simp
  next
    case False
    have "i div 16 * 16 = i" using less.prems(2) by simp
    moreover have "i div 16 \<le> sz div 16" using less.prems(3) by (rule div_le_mono)
    ultimately have "sz < (i div 16 + 1) * 16"
      using False by (metis add_mult_distrib mult_1 not_le)
    then have "sz div 16 < i div 16 + 1" by (rule less_mult_imp_div_less)
    then have "i = j"
      using \<open>i div 16 * 16 = i\<close> \<open>i div 16 \<le> sz div 16\<close> by (simp add: j_def)
    moreover have "fl = fl\<lparr>sector0 := P @ take i d @ virgin n\<rparr>"
      using less.prems(1) by (cases fl) simp
    ultimately show ?thesis
      using False by (subst flash_write_data.simps) simp
  qed
qed

lemma ceil_cases:
  fixes n :: nat
  defines "j \<equiv> n div 16 * 16" and "c \<equiv> (n + 15) div 16 * 16"
  shows "j \<le> n" "n \<le> c" "c - n < 16" "j = n \<and> c = n \<or> j < n \<and> c = j + 16"
    "16 dvd j" "16 dvd c"
proof -
  show "16 dvd j" "16 dvd c" by (simp_all add: j_def c_def)
  define q r where "q = n div 16" and "r = n mod 16"
  have n: "n = 16 * q + r" "r < 16" by (simp_all add: q_def r_def)
  have j: "j = 16 * q" by (simp add: j_def q_def)
  have c: "c = 16 * q + (if r = 0 then 0 else 16)"
  proof (cases r)
    case 0
    then show ?thesis by (simp add: c_def n(1))
  next
    case (Suc r')
    have "n + 15 = 16 * (q + 1) + r'" "r' < 16" using n Suc by simp_all
    then have "(n + 15) div 16 = q + 1" by (simp add: div_nat_eqI)
    then show ?thesis using Suc by (simp add: c_def)
  qed
  show "j \<le> n" "n \<le> c" "c - n < 16" "j = n \<and> c = n \<or> j < n \<and> c = j + 16"
    using n j c by (auto split: if_splits)
qed

lemma flash_create_ok:
  assumes ok: "hal_ok hal" and log: "flash_log fl E" and k: "item_key it \<noteq> 0"
      and n: "item_size it = length (item_data it)" and f: "item_size it < 8192"
        "write_address fl + flash_compute_total_item_size (item_size it) \<le> sector_base_address 1"
  shows "\<exists>fl'. stm32h533_flash_storage_create_item hal fl it = Some (CTAP_STORAGE_OK,
      it\<lparr>item_handle := of_nat (flash_first + length (encode_flog E))\<rparr>, fl')
    \<and> flash_log fl' (E @ [\<lparr>f_key = item_key it, f_dead = False, f_data = item_data it\<rparr>])
    \<and> edata fl' = edata fl \<and> counter_write_address fl' = counter_write_address fl
    \<and> take 32 (sector0 fl') = take 32 (sector0 fl)"
proof -
  let ?d = "item_data it"
  define m c j t where "m = length ?d" and "c = (m + 15) div 16 * 16" and "j = m div 16 * 16"
    and "t = 48 + c"
  let ?l = "length (encode_flog E)"
  have m: "m < 8192" "flash_compute_total_item_size m = t" "flash_ceil_size_to_boundary m = c"
    using f n flash_total_eq [of m] by (auto simp: m_def c_def t_def)
  note jc = ceil_cases [of m, folded j_def c_def]
  obtain h where h: "length h = 32" "sector0 fl = (h @ encode_flog E) @ virgin (8160 - ?l)"
    using log by (auto simp: flash_log_def)
  let ?P = "h @ encode_flog E"
  have wa: "write_address fl = flash_first + ?l" using log by (simp add: flash_log_def)
  have room: "32 + ?l + t \<le> 8192"
    using f n m wa by (simp add: m_def)
  have dvd: "16 dvd length ?P" using flash_log_room(1) [OF log] h(1) by simp
  define H where "H = le32 (item_key it) @ le32 (of_nat m) @ le32 0 @ le32 0"
  define C where "C = le32 0 @ le32 0 @ le32 0 @ le32 1"
  have hl: "length H = 16" "length C = 16" by (simp_all add: H_def C_def)
  define N where "N = 8160 - ?l"
  have N: "t \<le> N" using room by (simp add: N_def)
  text \<open>The header, the full quad-words, the padded rest, the checksum.\<close>
  let ?fl1 = "fl\<lparr>sector0 := ?P @ H @ virgin (N - 16)\<rparr>"
  have s1: "program_word hal (flash_first + ?l) H fl = (CTAP_STORAGE_OK, ?fl1)"
    using program_virgin [OF ok h(2) dvd _ hl(1)] h(1) N by (simp add: t_def N_def)
  let ?Q = "?P @ H @ virgin 16"
  have split1: "?P @ H @ virgin (N - 16) = ?Q @ take 0 ?d @ virgin (N - 32)"
    using N by (simp add: t_def virgin_def flip: replicate_add)
  let ?fl2 = "fl\<lparr>sector0 := ?Q @ take j ?d @ virgin (N - 32 - j)\<rparr>"
  have s2: "flash_write_data hal (flash_first + ?l + 32) ?d m 0 ?fl1 = (CTAP_STORAGE_OK, j, ?fl2)"
  proof -
    have "flash_write_data hal (flash_first + ?l + 32) ?d m 0 ?fl1 = (CTAP_STORAGE_OK, m div 16 * 16,
        ?fl1\<lparr>sector0 := ?Q @ take (m div 16 * 16) ?d @ virgin (N - 32 - (m div 16 * 16 - 0))\<rparr>)"
    proof (rule flash_write_data_ok [OF ok])
      show "sector0 ?fl1 = ?Q @ take 0 ?d @ virgin (N - 32)" using split1 by simp
      show "16 dvd length ?Q" using flash_log_room(1) [OF log] h(1) hl by simp
      show "m - 0 \<le> N - 32" using N jc by (simp add: t_def)
      show "flash_first + ?l + 32 = sector_base_address 0 + length ?Q" using hl h(1) by simp
    qed (simp_all add: m_def)
    then show ?thesis by (simp add: j_def)
  qed
  have dvd_jc: "16 dvd 64 + (?l + j)" "16 dvd 64 + (?l + c)"
    using flash_log_room(1) [OF log] jc(5,6) by (auto intro!: dvd_add)
  define R where "R = take (m - j) (drop j ?d) @ virgin (c - m)"
  let ?fl3 = "fl\<lparr>sector0 := ?Q @ ?d @ virgin (c - m) @ virgin (N - 32 - c)\<rparr>"
  have s3: "(if j < c then program_word hal (flash_first + ?l + 32 + j) R ?fl2
             else (CTAP_STORAGE_OK, ?fl2)) = (CTAP_STORAGE_OK, ?fl3)"
  proof (cases "j < c")
    case True
    then have lt: "j < m" "c = j + 16" using jc(4) by auto
    then have "length R = 16" using jc by (simp add: R_def m_def)
    moreover have "?Q @ take j ?d @ virgin (N - 32 - j) = (?Q @ take j ?d) @ virgin (N - 32 - j)"
      by simp
    ultimately have "program_word hal (flash_first + ?l + 32 + j) R ?fl2 = (CTAP_STORAGE_OK,
        ?fl2\<lparr>sector0 := (?Q @ take j ?d) @ R @ virgin (N - 32 - j - 16)\<rparr>)"
      using lt dvd_jc hl h(1) N jc by (intro program_virgin [OF ok]) (simp_all add: t_def m_def)
    moreover have "take j ?d @ take (m - j) (drop j ?d) = ?d"
      by (simp add: m_def)
    ultimately show ?thesis using True lt by (simp add: R_def)
  next
    case False
    then have "j = m" "c = m" using jc(4) by auto
    then show ?thesis by (simp add: m_def virgin_def)
  qed
  let ?fl4 = "fl\<lparr>sector0 := ?Q @ (?d @ virgin (c - m)) @ C @ virgin (N - t)\<rparr>"
  have s4: "program_word hal (flash_first + ?l + 32 + c) C ?fl3 = (CTAP_STORAGE_OK, ?fl4)"
  proof -
    have "sector0 ?fl3 = (?Q @ ?d @ virgin (c - m)) @ virgin (N - 32 - c)" by simp
    from program_virgin [OF ok this _ _ hl(2)] show ?thesis
      using dvd_jc hl h(1) N jc by (simp add: t_def m_def add.assoc)
  qed
  have "stm32h533_flash_storage_create_item hal fl it = Some (CTAP_STORAGE_OK,
      it\<lparr>item_handle := of_nat (flash_first + ?l)\<rparr>,
      ?fl4\<lparr>write_address := flash_first + ?l + t\<rparr>)"
    using s1 s2 s3 s4 m wa k n jc room
    by (auto simp: stm32h533_flash_storage_create_item_def Let_def m_def [symmetric] H_def C_def
        R_def add.assoc)
  moreover have "flash_log (?fl4\<lparr>write_address := flash_first + ?l + t\<rparr>)
      (E @ [\<lparr>f_key = item_key it, f_dead = False, f_data = ?d\<rparr>])"
    using log h room m k hl jc
    by (auto simp: flash_log_def encode_fentry_def H_def C_def t_def m_def wf_fentry_def N_def
        flash_marker_def)
  moreover have "take 32 (sector0 ?fl4) = take 32 (sector0 fl)"
    using h by simp
  ultimately show ?thesis by fastforce
qed

lemma flash_delete_ok:
  assumes ok: "hal_ok hal" and log: "flash_log fl (E1 @ e # E2)" and live: "\<not> f_dead e"
  shows "\<exists>fl'. stm32h533_flash_storage_delete_item hal fl
        (of_nat (flash_first + length (encode_flog E1))) = Some (CTAP_STORAGE_OK, fl')
    \<and> flash_log fl' (E1 @ e\<lparr>f_dead := True\<rparr> # E2)"
proof -
  let ?l = "length (encode_flog E1)" and ?e = "e\<lparr>f_dead := True\<rparr>"
  define H where "H = le32 (f_key e) @ le32 (of_nat (length (f_data e))) @ le32 0 @ le32 0"
  define T where "T = (f_data e @ virgin (flash_ceil_size_to_boundary (length (f_data e))
    - length (f_data e))) @ (le32 0 @ le32 0 @ le32 0 @ le32 1)"
  have e: "encode_fentry e = H @ virgin 16 @ T" "encode_fentry ?e = H @ zeros 16 @ T"
    using live by (simp_all add: encode_fentry_def flash_marker_def H_def T_def)
  obtain h V where h: "length h = 32"
      "sector0 fl = h @ encode_flog E1 @ (H @ virgin 16 @ T) @ encode_flog E2 @ V"
      "V = virgin (8192 - 32 - length (encode_flog (E1 @ e # E2)))"
    using log by (auto simp: flash_log_def e)
  have wf: "list_all wf_fentry E1" "wf_fentry e" "write_address fl
      = flash_first + length (encode_flog (E1 @ e # E2))"
      "32 + length (encode_flog (E1 @ e # E2)) \<le> 8192" "list_all wf_fentry E2"
    using log by (auto simp: flash_log_def)
  have "16 dvd 48 + ?l" using dvd_encode_flog [OF wf(1)] by (auto intro!: dvd_add)
  moreover have "length H = 16" by (simp add: H_def)
  moreover have "sector0 fl = (h @ encode_flog E1 @ H) @ virgin 16 @ T @ encode_flog E2 @ V"
    using h by simp
  ultimately have pw: "program_word hal (flash_first + ?l + 16) (zeros 16) fl
      = (CTAP_STORAGE_OK, fl\<lparr>sector0 := (h @ encode_flog E1 @ H) @ zeros 16 @ T
           @ encode_flog E2 @ V\<rparr>)"
    using h(1) by (intro program_virgin_inside [OF ok]) simp_all
  let ?a = "flash_first + ?l"
  have a: "unat (of_nat ?a :: u32) = ?a"
    using wf(4) by (intro unat_of_nat_u32) simp
  have "unat (of_nat ?a :: u32) > 0" unfolding a by simp
  then have "(of_nat ?a :: u32) > 0" by (simp only: word_less_nat_alt unat_0)
  moreover have "length (encode_fentry e) > 0" by (simp add: e T_def)
  ultimately have "stm32h533_flash_storage_delete_item hal fl (of_nat ?a) = Some (CTAP_STORAGE_OK,
      fl\<lparr>sector0 := (h @ encode_flog E1 @ H) @ zeros 16 @ T @ encode_flog E2 @ V\<rparr>)"
    using pw wf(3) a by (simp add: stm32h533_flash_storage_delete_item_def Let_def del: of_nat_add)
  moreover have "length (encode_fentry ?e) = length (encode_fentry e)"
    by (simp add: e)
  moreover have "wf_fentry ?e" using wf(2) by (simp add: wf_fentry_def)
  ultimately show ?thesis
    using h wf by (fastforce simp: flash_log_def e)
qed

lemma fentry_slots_split:
  assumes "fentry_slots a E = L1 @ x # L2"
  shows "\<exists>E1 e E2. E = E1 @ e # E2 \<and> L1 = fentry_slots a E1
    \<and> x = \<lparr>slot_handle = of_nat (a + length (encode_flog E1)), slot_key = f_key e,
          slot_live = \<not> f_dead e, slot_data = f_data e\<rparr>
    \<and> L2 = fentry_slots (a + length (encode_flog E1) + length (encode_fentry e)) E2"
  using assms
proof (induction L1 arbitrary: a E)
  case Nil
  then show ?case by (cases E) (auto intro: exI [of _ "[]"])
next
  case (Cons y L1)
  then obtain e' E' where E: "E = e' # E'" "fentry_slots (a + length (encode_fentry e')) E'
      = L1 @ x # L2" by (cases E) auto
  from Cons.IH [OF E(2)] obtain E1 e E2 where "E' = E1 @ e # E2"
      "L1 = fentry_slots (a + length (encode_fentry e')) E1"
      "x = \<lparr>slot_handle = of_nat (a + length (encode_fentry e') + length (encode_flog E1)),
          slot_key = f_key e, slot_live = \<not> f_dead e, slot_data = f_data e\<rparr>"
      "L2 = fentry_slots (a + length (encode_fentry e') + length (encode_flog E1)
          + length (encode_fentry e)) E2" by blast
  then show ?case
    using E Cons.prems
    by (intro exI [of _ "e' # E1"] exI [of _ e] exI [of _ E2]) (auto simp: add.assoc)
qed

lemma fentry_slots_kill:
  "fentry_slots a (E1 @ e\<lparr>f_dead := True\<rparr> # E2)
     = fentry_slots a E1 @ kill \<lparr>slot_handle = of_nat (a + length (encode_flog E1)),
         slot_key = f_key e, slot_live = \<not> f_dead e, slot_data = f_data e\<rparr>
       # fentry_slots (a + length (encode_flog E1) + length (encode_fentry e)) E2"
proof -
  have "length (encode_fentry (e\<lparr>f_dead := True\<rparr>)) = length (encode_fentry e)"
    by (simp add: encode_fentry_def)
  then show ?thesis by (simp add: fentry_slots_append kill_def)
qed

lemma fentry_slots_handle:
  "a + length (encode_flog E) < 2 ^ 32 \<Longrightarrow> list_all wf_fentry E \<Longrightarrow> x \<in> set (fentry_slots a E) \<Longrightarrow>
   a \<le> unat (slot_handle x) \<and> unat (slot_handle x) < a + length (encode_flog E)
   \<and> slot_key x \<noteq> 0"
proof (induction E arbitrary: a)
  case (Cons e E)
  have l: "48 \<le> length (encode_fentry e)" "f_key e \<noteq> 0"
    using Cons.prems length_encode_fentry(2) [of e] by (simp_all add: wf_fentry_def)
  have u: "unat (of_nat a :: u32) = a"
    using Cons.prems(1) by (simp add: unat_of_nat take_bit_nat_eq_self)
  show ?case
  proof (cases "x \<in> set (fentry_slots (a + length (encode_fentry e)) E)")
    case True
    then show ?thesis using Cons.IH [OF _ _ True] Cons.prems(1,2) by simp
  next
    case False
    then show ?thesis using Cons.prems l u by auto
  qed
qed simp

lemma fentry_slots_distinct:
  "a + length (encode_flog E) < 2 ^ 32 \<Longrightarrow> list_all wf_fentry E \<Longrightarrow>
   distinct (map slot_handle (fentry_slots a E))"
proof (induction E arbitrary: a)
  case (Cons e E)
  have l: "48 \<le> length (encode_fentry e)"
    using Cons.prems length_encode_fentry(2) [of e] by (simp add: wf_fentry_def)
  have u: "unat (of_nat a :: u32) = a"
    using Cons.prems(1) by (simp add: unat_of_nat take_bit_nat_eq_self)
  have "slot_handle x \<noteq> of_nat a"
    if "x \<in> set (fentry_slots (a + length (encode_fentry e)) E)" for x
  proof
    assume "slot_handle x = of_nat a"
    moreover have "a + length (encode_fentry e) \<le> unat (slot_handle x)"
      using fentry_slots_handle [OF _ _ that] Cons.prems by simp
    ultimately show False using l u by simp
  qed
  then have "of_nat a \<notin> slot_handle ` set (fentry_slots (a + length (encode_fentry e)) E)"
    by (metis imageE)
  then show ?case
    using Cons by simp
qed simp

lemma flash_log_count:
  assumes "flash_log fl (E @ F)"
  shows "length F < 512"
proof -
  have "48 * length F \<le> length (encode_flog F)" if "list_all wf_fentry F" for F
    using that
  proof (induction F)
    case (Cons e F)
    then show ?case using length_encode_fentry(2) [of e] by (simp add: wf_fentry_def)
  qed simp
  from this [of F] show ?thesis using assms by (auto simp: flash_log_def)
qed

lemma flash_find_first:
  assumes "flash_log fl E" and "item_handle it = 0"
  shows "stm32h533_flash_storage_find_item fl it
       = Some (first_match it (fentry_slots flash_first E))"
  using flash_find_loop_log [of fl "[]" E 512 it] flash_log_count [of fl "[]" E] assms
  by (simp add: stm32h533_flash_storage_find_item_def Let_def)

lemma flash_find_next:
  assumes log: "flash_log fl (E1 @ e # E2)"
      and h: "item_handle it = of_nat (flash_first + length (encode_flog E1))"
      and n: "item_size it = length (f_data e)"
  shows "stm32h533_flash_storage_find_item fl it =
    (if 32 + length (encode_flog (E1 @ [e])) < 8192
     then Some (first_match it
       (fentry_slots (flash_first + length (encode_flog (E1 @ [e]))) E2))
     else None)"
proof -
  have wf: "wf_fentry e" "32 + length (encode_flog (E1 @ e # E2)) \<le> 8192"
    using log by (auto simp: flash_log_def)
  then have le: "length (f_data e) < 8192" by (simp add: wf_fentry_def)
  have u: "unat (item_handle it) = flash_first + length (encode_flog E1)"
    unfolding h using wf(2) by (intro unat_of_nat_u32) simp
  then have nz: "item_handle it \<noteq> 0" by (metis add_is_0 sector_base(1) unat_0 zero_neq_numeral)
  have a: "wrap32 (unat (item_handle it) + flash_compute_total_item_size (item_size it))
      = flash_first + length (encode_flog (E1 @ [e]))"
    using u n length_encode_fentry(1) [OF le] wf(2) by simp
  show ?thesis
    using nz a flash_find_loop_log [of fl "E1 @ [e]" E2 512 it]
      flash_log_count [of fl "E1 @ [e]" E2] log
    by (simp add: stm32h533_flash_storage_find_item_def Let_def)
qed

lemma flash_update_ok:
  assumes ok: "hal_ok hal" and log: "flash_log fl (E1 @ e # E2)" and live: "\<not> f_dead e"
      and it: "item_handle it = of_nat (flash_first + length (encode_flog E1))" "item_key it \<noteq> 0"
        "item_size it = length (item_data it)" "item_size it < 8192"
        "write_address fl + flash_compute_total_item_size (item_size it) \<le> sector_base_address 1"
  shows "\<exists>fl'. stm32h533_flash_storage_create_or_update_item hal fl it = Some (CTAP_STORAGE_OK,
      it\<lparr>item_handle := of_nat (flash_first + length (encode_flog (E1 @ e # E2)))\<rparr>, fl')
    \<and> flash_log fl' (E1 @ e\<lparr>f_dead := True\<rparr> # (E2
        @ [\<lparr>f_key = item_key it, f_dead = False, f_data = item_data it\<rparr>]))"
proof -
  have wf: "32 + length (encode_flog (E1 @ e # E2)) \<le> 8192"
    using log by (auto simp: flash_log_def)
  have u: "unat (item_handle it) = flash_first + length (encode_flog E1)"
    unfolding it(1) using wf by (intro unat_of_nat_u32) simp
  then have nz: "item_handle it \<noteq> 0" by (metis add_is_0 sector_base(1) unat_0 zero_neq_numeral)
  obtain fl1 where fl1: "stm32h533_flash_storage_create_item hal fl it = Some (CTAP_STORAGE_OK,
      it\<lparr>item_handle := of_nat (flash_first + length (encode_flog (E1 @ e # E2)))\<rparr>, fl1)"
      "flash_log fl1 (E1 @ e # (E2
        @ [\<lparr>f_key = item_key it, f_dead = False, f_data = item_data it\<rparr>]))"
    using flash_create_ok [OF ok log it(2-5)] by auto
  from flash_delete_ok [OF ok fl1(2) live] obtain fl2 where fl2:
    "stm32h533_flash_storage_delete_item hal fl1 (item_handle it) = Some (CTAP_STORAGE_OK, fl2)"
    "flash_log fl2 (E1 @ e\<lparr>f_dead := True\<rparr> # (E2
        @ [\<lparr>f_key = item_key it, f_dead = False, f_data = item_data it\<rparr>]))"
    unfolding it(1) by blast
  have "stm32h533_flash_storage_create_or_update_item hal fl it = Some (CTAP_STORAGE_OK,
      it\<lparr>item_handle := of_nat (flash_first + length (encode_flog (E1 @ e # E2)))\<rparr>, fl2)"
    using fl1(1) fl2(1) nz it(2)
    by (simp add: stm32h533_flash_storage_create_or_update_item_def del: of_nat_add)
  then show ?thesis using fl2(2) by blast
qed

lemma flash_log_write_address:
  "flash_log fl E \<Longrightarrow> write_address fl = flash_first + length (encode_flog E)"
  by (simp add: flash_log_def)

lemma length_new_fentry:
  assumes "length d < 8192"
  shows "length (encode_fentry \<lparr>f_key = k, f_dead = x, f_data = d\<rparr>)
       = flash_compute_total_item_size (length d)"
  using assms by (simp add: length_encode_fentry(1))

interpretation flash: item_storage "flash_rep hal" flash_fits stm32h533_flash_storage_find_item
  "stm32h533_flash_storage_create_or_update_item hal" "stm32h533_flash_storage_delete_item hal"
  for hal
proof (unfold_locales, goal_cases)
  case (1 s L)
  then show ?case
    by (auto simp: flash_rep_def flash_log_def intro!: fentry_slots_distinct)
next
  case (2 s L x)
  then obtain E where E: "flash_log s E" "L = fentry_slots flash_first E" by (auto simp: flash_rep_def)
  then have b: "flash_first + length (encode_flog E) < 2 ^ 32" "list_all wf_fentry E"
    by (auto simp: flash_log_def)
  have "flash_first \<le> unat (slot_handle x)" "slot_key x \<noteq> 0"
    using fentry_slots_handle [OF b, of x] 2(2) E(2) by auto
  then show ?case by (auto simp: unat_eq_zero)
next
  case (3 s L it)
  then show ?case using flash_find_first by (auto simp: flash_rep_def)
next
  case (4 s L1 x L2 it)
  then obtain E where E: "flash_log s E" "fentry_slots flash_first E = L1 @ x # L2"
      "write_address s < sector_base_address 1" by (auto simp: flash_rep_def)
  obtain E1 e E2 where e: "E = E1 @ e # E2"
      "x = \<lparr>slot_handle = of_nat (flash_first + length (encode_flog E1)), slot_key = f_key e,
          slot_live = \<not> f_dead e, slot_data = f_data e\<rparr>"
      "L2 = fentry_slots (flash_first + length (encode_flog E1) + length (encode_fentry e)) E2"
    using fentry_slots_split [OF E(2)] by blast
  have "32 + length (encode_flog (E1 @ [e])) < 8192"
    using E(1,3) e(1) flash_log_write_address [OF E(1)] by simp
  then show ?case
    using flash_find_next [of s E1 e E2 it] E(1) e 4(2,3) by (simp add: add.assoc del: of_nat_add)
next
  case (5 s L it)
  then obtain E where E: "flash_log s E" "L = fentry_slots flash_first E" "hal_ok hal"
    by (auto simp: flash_rep_def)
  have f: "item_size it < 8192"
      "write_address s + flash_compute_total_item_size (item_size it) < sector_base_address 1"
    using 5 by (simp_all add: flash_fits_def)
  from flash_create_ok [OF E(3,1) 5(3,4) f(1) less_imp_le [OF f(2)]]
  obtain fl' where fl': "stm32h533_flash_storage_create_item hal s it = Some (CTAP_STORAGE_OK,
      it\<lparr>item_handle := of_nat (flash_first + length (encode_flog E))\<rparr>, fl')"
      "flash_log fl' (E @ [\<lparr>f_key = item_key it, f_dead = False, f_data = item_data it\<rparr>])"
    by blast
  have "write_address fl' < sector_base_address 1"
    using flash_log_write_address [OF fl'(2)] flash_log_write_address [OF E(1)] f 5(4)
      length_new_fentry by simp
  then have "flash_rep hal fl' (L @ [\<lparr>slot_handle = of_nat (flash_first + length (encode_flog E)),
      slot_key = item_key it, slot_live = True, slot_data = item_data it\<rparr>])"
    unfolding flash_rep_def using fl'(2) E
    by (auto simp: fentry_slots_append simp del: of_nat_add intro!: exI [of _ "E @ [_]"])
  then show ?case
    using fl'(1) 5(2,3)
    by (auto simp: stm32h533_flash_storage_create_or_update_item_def simp del: of_nat_add)
next
  case (6 s L1 x L2 it)
  then obtain E where E: "flash_log s E" "fentry_slots flash_first E = L1 @ x # L2" "hal_ok hal"
    by (auto simp: flash_rep_def)
  obtain E1 e E2 where e: "E = E1 @ e # E2" "L1 = fentry_slots flash_first E1"
      "x = \<lparr>slot_handle = of_nat (flash_first + length (encode_flog E1)), slot_key = f_key e,
          slot_live = \<not> f_dead e, slot_data = f_data e\<rparr>"
      "L2 = fentry_slots (flash_first + length (encode_flog E1) + length (encode_fentry e)) E2"
    using fentry_slots_split [OF E(2)] by blast
  have f: "item_size it < 8192"
      "write_address s + flash_compute_total_item_size (item_size it) < sector_base_address 1"
    using 6 by (simp_all add: flash_fits_def)
  let ?n = "\<lparr>f_key = item_key it, f_dead = False, f_data = item_data it\<rparr>"
  let ?h = "of_nat (flash_first + length (encode_flog (E1 @ e # E2))) :: u32"
  have log: "flash_log s (E1 @ e # E2)" and live: "\<not> f_dead e"
      and h: "item_handle it = of_nat (flash_first + length (encode_flog E1))"
    using E(1) e 6(2,3) by simp_all
  from flash_update_ok [OF E(3) log live h 6(4,5) f(1) less_imp_le [OF f(2)]]
  obtain fl' where fl': "stm32h533_flash_storage_create_or_update_item hal s it
      = Some (CTAP_STORAGE_OK, it\<lparr>item_handle := ?h\<rparr>, fl')"
      "flash_log fl' (E1 @ e\<lparr>f_dead := True\<rparr> # (E2 @ [?n]))" by blast
  have len: "length (encode_fentry (e\<lparr>f_dead := True\<rparr>)) = length (encode_fentry e)"
    by (simp add: encode_fentry_def)
  have "write_address fl' < sector_base_address 1"
    using flash_log_write_address [OF fl'(2)] flash_log_write_address [OF log] f 6(5)
      length_new_fentry len by simp
  moreover have "L1 @ kill x # L2 @ [\<lparr>slot_handle = ?h, slot_key = item_key it, slot_live = True,
      slot_data = item_data it\<rparr>]
      = fentry_slots flash_first (E1 @ e\<lparr>f_dead := True\<rparr> # (E2 @ [?n]))"
    unfolding fentry_slots_kill by (simp add: e fentry_slots_append add.assoc)
  ultimately show ?case
    using fl' E(3) unfolding flash_rep_def by blast
next
  case (7 s L1 x L2)
  then obtain E where E: "flash_log s E" "fentry_slots flash_first E = L1 @ x # L2" "hal_ok hal"
      "write_address s < sector_base_address 1"
    by (auto simp: flash_rep_def)
  obtain E1 e E2 where e: "E = E1 @ e # E2" "L1 = fentry_slots flash_first E1"
      "x = \<lparr>slot_handle = of_nat (flash_first + length (encode_flog E1)), slot_key = f_key e,
          slot_live = \<not> f_dead e, slot_data = f_data e\<rparr>"
      "L2 = fentry_slots (flash_first + length (encode_flog E1) + length (encode_fentry e)) E2"
    using fentry_slots_split [OF E(2)] by blast
  have log: "flash_log s (E1 @ e # E2)" and live: "\<not> f_dead e"
    using E(1) e 7(2) by simp_all
  from flash_delete_ok [OF E(3) log live] obtain fl' where fl':
    "stm32h533_flash_storage_delete_item hal s (slot_handle x) = Some (CTAP_STORAGE_OK, fl')"
    "flash_log fl' (E1 @ e\<lparr>f_dead := True\<rparr> # E2)" by (auto simp: e simp del: of_nat_add)
  have len: "length (encode_fentry (e\<lparr>f_dead := True\<rparr>)) = length (encode_fentry e)"
    by (simp add: encode_fentry_def)
  have "write_address fl' < sector_base_address 1"
    using flash_log_write_address [OF fl'(2)] flash_log_write_address [OF log] E(4) len by simp
  moreover have "L1 @ kill x # L2 = fentry_slots flash_first (E1 @ e\<lparr>f_dead := True\<rparr> # E2)"
    unfolding fentry_slots_kill by (simp add: e)
  ultimately show ?case
    using fl' E(3) unfolding flash_rep_def by blast
qed

section \<open>Restart\<close>

text \<open>The log up to its last live entry.\<close>

definition trim_dead :: "fentry list \<Rightarrow> fentry list" where
  "trim_dead E = rev (dropWhile f_dead (rev E))"

lemma trim_dead_all: "list_all f_dead E \<Longrightarrow> trim_dead E = []"
  by (simp add: trim_dead_def list_all_iff)

lemma trim_dead_live: "\<not> f_dead z \<Longrightarrow> trim_dead (xs @ z # ys) = xs @ z # trim_dead ys"
  by (cases "list_all f_dead ys")
    (simp_all add: trim_dead_def dropWhile_append1 dropWhile_append2 dropWhile_append list_all_iff)

definition flash_formatted :: "flash \<Rightarrow> bool" where
  "flash_formatted fl \<longleftrightarrow>
     take 32 (sector0 fl) = (le32 3 @ le32 0 @ le32 0 @ le32 0) @ virgin 16"

lemma formatted_not_initialized:
  assumes "flash_formatted fl"
  shows "should_initialize fl = Some False"
proof -
  have m: "sector0 fl = (le32 3 @ le32 0 @ le32 0 @ le32 0) @ virgin 16 @ drop 32 (sector0 fl)"
    using assms append_take_drop_id [of 32 "sector0 fl"] by (simp add: flash_formatted_def)
  have "flash_read fl (sector_base_address 0) = Some 3"
    using flash_read_at [of fl "[]" 3 "(le32 0 @ le32 0 @ le32 0) @ virgin 16 @ drop 32 (sector0 fl)"]
      m by simp
  moreover have "is_virgin_word fl (sector_base_address 0 + 16) = Some True"
    using is_virgin_word_at [of fl "le32 3 @ le32 0 @ le32 0 @ le32 0" "0xFFFFFFFF" "0xFFFFFFFF"
        "0xFFFFFFFF" "0xFFFFFFFF" "drop 32 (sector0 fl)" "sector_base_address 0 + 16"] m
    by (simp add: virgin_16)
  ultimately show ?thesis by (simp add: should_initialize_def)
qed

lemma fentry_slots_no_live:
  "live_items 0 (fentry_slots a F) = [] \<longleftrightarrow> list_all f_dead F"
  by (induction F arbitrary: a) (auto simp: live_items_def slot_matches_def)

definition fentry_item :: "nat \<Rightarrow> fentry \<Rightarrow> ctap_storage_item" where
  "fentry_item a e = \<lparr>item_handle = of_nat a, item_key = f_key e,
     item_size = length (f_data e), item_data = f_data e\<rparr>"

text \<open>The first live entry of a log, as \<open>find_item\<close> with key 0 returns it.\<close>

lemma first_live_entry:
  assumes "\<not> list_all f_dead F" and "item_key it = 0"
  shows "\<exists>M1 z M2. F = M1 @ z # M2 \<and> list_all f_dead M1 \<and> \<not> f_dead z
    \<and> first_match it (fentry_slots a F)
        = (CTAP_STORAGE_OK, fentry_item (a + length (encode_flog M1)) z)"
  using assms(1)
proof (induction F arbitrary: a)
  case (Cons e F)
  show ?case
  proof (cases "f_dead e")
    case True
    then obtain M1 z M2 where m: "F = M1 @ z # M2" "list_all f_dead M1" "\<not> f_dead z"
        "first_match it (fentry_slots (a + length (encode_fentry e)) F)
          = (CTAP_STORAGE_OK, fentry_item (a + length (encode_fentry e) + length (encode_flog M1)) z)"
      using Cons.IH [of "a + length (encode_fentry e)"] Cons.prems by auto
    have "first_match it (fentry_slots a (e # F))
        = first_match it (fentry_slots (a + length (encode_fentry e)) F)"
      using True by (simp add: first_match_def slot_matches_def)
    then show ?thesis
      using m True by (intro exI [of _ "e # M1"] exI [of _ z] exI [of _ M2]) (simp add: add.assoc)
  next
    case False
    then show ?thesis
      using assms(2)
      by (intro exI [of _ "[]"] exI [of _ e] exI [of _ F])
        (simp add: first_match_def slot_matches_def slot_item_def fentry_item_def)
  qed
qed simp

lemma find_write_address_loop:
  assumes "flash_log fl (E1 @ e # F)" and "length F < fuel"
      and "item_handle it = of_nat (flash_first + length (encode_flog E1))"
      and "item_size it = length (f_data e)" and "item_key it = 0"
  shows "flash_find_write_address_loop fuel fl it =
    (if 32 + length (encode_flog (E1 @ e # trim_dead F)) < 8192
     then Some (flash_first + length (encode_flog (E1 @ e # trim_dead F))) else None)"
  using assms
proof (induction fuel arbitrary: E1 e F it)
  case (Suc fuel)
  have lt: "32 + length (encode_flog (E1 @ e # F)) \<le> 8192" "length (f_data e) < 8192"
    using Suc.prems(1) by (auto simp: flash_log_def wf_fentry_def)
  note nx = flash_find_next [OF Suc.prems(1,3,4)]
  show ?case
  proof (cases "list_all f_dead F")
    case True
    have u: "unat (item_handle it) = flash_first + length (encode_flog E1)"
      unfolding Suc.prems(3) using lt by (intro unat_of_nat_u32) simp
    then have nz: "item_handle it \<noteq> 0" by (metis add_is_0 sector_base(1) unat_0 zero_neq_numeral)
    have "first_match it (fentry_slots a F) = (CTAP_STORAGE_ITEM_NOT_FOUND, it)" for a
      using True fentry_slots_no_live [of a F] first_match_Nil [of it] Suc.prems(5) by simp
    then show ?thesis
      using nx True trim_dead_all [OF True] nz u Suc.prems(4) length_encode_fentry(1) [OF lt(2)] lt(1)
      by (auto simp: add.assoc)
  next
    case False
    let ?a = "flash_first + length (encode_flog (E1 @ [e]))"
    obtain M1 z M2 where m: "F = M1 @ z # M2" "\<not> f_dead z"
        "first_match it (fentry_slots ?a F)
          = (CTAP_STORAGE_OK, fentry_item (?a + length (encode_flog M1)) z)"
      using first_live_entry [OF False Suc.prems(5), of ?a] by blast
    have wz: "wf_fentry z" using Suc.prems(1) m(1) by (simp add: flash_log_def)
    then have "48 \<le> length (encode_fentry z)"
      using length_encode_fentry(2) [of z] by (simp add: wf_fentry_def)
    then have room: "32 + length (encode_flog (E1 @ [e])) < 8192" using lt(1) m(1) by simp
    have "flash_find_write_address_loop fuel fl
        ((fentry_item (?a + length (encode_flog M1)) z)\<lparr>item_key := 0\<rparr>) =
      (if 32 + length (encode_flog ((E1 @ e # M1) @ z # trim_dead M2)) < 8192
       then Some (flash_first + length (encode_flog ((E1 @ e # M1) @ z # trim_dead M2))) else None)"
      using Suc.prems(1,2) m(1) by (intro Suc.IH) (simp_all add: fentry_item_def add.assoc)
    then show ?thesis
      using nx room m trim_dead_live [OF m(2), of M1 M2] by simp
  qed
qed simp

lemma find_write_address_eq:
  assumes "flash_log fl E"
  shows "find_write_address fl =
    (if 32 + length (encode_flog (trim_dead E)) < 8192
     then Some (flash_first + length (encode_flog (trim_dead E))) else None)"
proof -
  have f: "stm32h533_flash_storage_find_item fl (empty_item 0)
      = Some (first_match (empty_item 0) (fentry_slots flash_first E))"
    using flash_find_first [OF assms] by (simp add: empty_item_def)
  show ?thesis
  proof (cases "list_all f_dead E")
    case True
    then have "first_match (empty_item 0) (fentry_slots flash_first E)
        = (CTAP_STORAGE_ITEM_NOT_FOUND, empty_item 0)"
      using fentry_slots_no_live [of flash_first E] first_match_Nil [of "empty_item 0"]
      by (simp add: empty_item_def)
    then have "flash_find_write_address_loop (Suc n) fl (empty_item 0) = Some flash_first" for n
      using f by (simp add: empty_item_def)
    from this [of 511] show ?thesis
      using trim_dead_all [OF True] by (simp add: find_write_address_def del: flash_find_write_address_loop.simps)
  next
    case False
    obtain M1 z M2 where m: "E = M1 @ z # M2" "\<not> f_dead z"
        "first_match (empty_item 0) (fentry_slots flash_first E)
          = (CTAP_STORAGE_OK, fentry_item (flash_first + length (encode_flog M1)) z)"
      using first_live_entry [OF False, of "empty_item 0" flash_first] by (auto simp: empty_item_def)
    have "length M2 < 511" using flash_log_count [of fl M1 "z # M2"] assms m(1) by simp
    then have "flash_find_write_address_loop 511 fl
        ((fentry_item (flash_first + length (encode_flog M1)) z)\<lparr>item_key := 0\<rparr>) =
      (if 32 + length (encode_flog (M1 @ z # trim_dead M2)) < 8192
       then Some (flash_first + length (encode_flog (M1 @ z # trim_dead M2))) else None)"
      using assms m(1) by (intro find_write_address_loop) (simp_all add: fentry_item_def)
    then have "flash_find_write_address_loop (Suc 511) fl (empty_item 0) =
      (if 32 + length (encode_flog (M1 @ z # trim_dead M2)) < 8192
       then Some (flash_first + length (encode_flog (M1 @ z # trim_dead M2))) else None)"
      using f m(3) by (subst flash_find_write_address_loop.simps) (simp del: flash_find_write_address_loop.simps)
    then show ?thesis
      using m(1) trim_dead_live [OF m(2), of M1 M2]
      by (simp add: find_write_address_def del: flash_find_write_address_loop.simps)
  qed
qed

section \<open>Properties\<close>

text \<open>A HAL with the documented behaviour that refuses to program a quad-word twice.\<close>

definition demo_hal :: flash_hal where
  "demo_hal = \<lparr>hal_unlock = True,
     hal_program = (\<lambda>sec off q. if take 16 (drop off sec) = virgin 16
       then (True, take off sec @ q @ drop (off + 16) sec) else (False, sec)),
     hal_program_edata = (\<lambda>ws i w. if ws ! i = 0xFFFFFFFF then (True, ws[i := w]) else (False, ws)),
     hal_erase = (\<lambda>sector fl. if sector = 0 then (True, fl\<lparr>sector0 := virgin 8192\<rparr>)
       else (True, fl\<lparr>edata := replicate 1536 0xFFFFFFFF\<rparr>)),
     hal_edata2r_cur = 0x8007, hal_ob_unlock = True, hal_ob_program = True, hal_ob_launch = True\<rparr>"

lemma demo_hal_ok: "hal_ok demo_hal"
  by (simp add: hal_ok_def demo_hal_def)

definition blank_flash :: flash where
  "blank_flash = \<lparr>sector0 = (le32 3 @ le32 0 @ le32 0 @ le32 0) @ virgin 16 @ virgin 8160,
     edata = replicate 1536 0xFFFFFFFF, write_address = sector_base_address 0 + 32,
     counter_write_address = high_cycling_area_base\<rparr>"

lemma blank_flash_log: "flash_log blank_flash []"
  unfolding flash_log_def blank_flash_def
  by (auto intro!: exI [of _ "(le32 3 @ le32 0 @ le32 0 @ le32 0) @ virgin 16"])

lemma blank_flash_formatted: "flash_formatted blank_flash"
  by (simp add: flash_formatted_def blank_flash_def)


lemma flash_log_one:
  assumes "length d < 8192" and "k \<noteq> 0"
      and "flash_compute_total_item_size (length d) \<le> 8160"
  shows "\<exists>fl. stm32h533_flash_storage_create_item demo_hal blank_flash
       \<lparr>item_handle = 0, item_key = k, item_size = length d, item_data = d\<rparr>
     = Some (CTAP_STORAGE_OK, \<lparr>item_handle = of_nat flash_first, item_key = k,
         item_size = length d, item_data = d\<rparr>, fl)
   \<and> flash_log fl [\<lparr>f_key = k, f_dead = False, f_data = d\<rparr>]"
  using flash_create_ok [OF demo_hal_ok blank_flash_log, of "\<lparr>item_handle = 0, item_key = k,
      item_size = length d, item_data = d\<rparr>"] assms
  by (auto simp: blank_flash_def)


text \<open>
  A restart recovers the items but not the write address. On a formatted sector that is not
  full, initialisation succeeds and changes no content, but it sets the write address behind the
  last \<^emph>\<open>live\<close> entry: exactly the old write address if no deleted entry follows it, and an
  address that points at an already programmed quad-word otherwise.
\<close>

theorem flash_restart_write_address:
  assumes "hal_unlock hal" and "flash_formatted fl" and "flash_log fl E"
      and "write_address fl < sector_base_address 1"
  shows "stm32h533_flash_storage_init hal fl = Some (CTAP_STORAGE_OK,
      fl\<lparr>write_address := flash_first + length (encode_flog (trim_dead E)),
         counter_write_address := find_counter_write_address fl\<rparr>)
    \<and> (E = trim_dead E \<longrightarrow> flash_first + length (encode_flog (trim_dead E)) = write_address fl)
    \<and> (E \<noteq> trim_dead E \<longrightarrow>
         is_virgin_word fl (flash_first + length (encode_flog (trim_dead E))) = Some False)"
proof -
  define T where "T = trim_dead E"
  have "\<exists>D. E = T @ D \<and> list_all f_dead D"
    unfolding T_def trim_dead_def
    by (rule exI [of _ "rev (takeWhile f_dead (rev E))"])
      (metis list_all_iff rev_append rev_rev_ident set_rev set_takeWhileD takeWhile_dropWhile_id)
  then obtain D where D: "E = T @ D" "list_all f_dead D" by blast
  have wa: "write_address fl = flash_first + length (encode_flog E)"
    using flash_log_write_address [OF assms(3)] .
  have "32 + length (encode_flog T) < 8192" using wa assms(4) D(1) by simp
  then have "find_write_address fl = Some (flash_first + length (encode_flog T))"
    using find_write_address_eq [OF assms(3)] by (simp add: T_def)
  then have init: "stm32h533_flash_storage_init hal fl = Some (CTAP_STORAGE_OK,
      fl\<lparr>write_address := flash_first + length (encode_flog T),
         counter_write_address := find_counter_write_address fl\<rparr>)"
    using assms(1) formatted_not_initialized [OF assms(2)]
    by (simp add: stm32h533_flash_storage_init_def)
  have "is_virgin_word fl (flash_first + length (encode_flog T)) = Some False" if ne: "E \<noteq> T"
  proof -
    obtain d D' where d: "D = d # D'" using D(1) ne by (cases D) auto
    obtain h V where m: "length h = 32" "sector0 fl = (h @ encode_flog T) @ encode_fentry d
        @ encode_flog D' @ V" and wf: "wf_fentry d"
      using assms(3) D(1) d by (auto simp: flash_log_def)
    show ?thesis
      using flash_read_entry(1) [OF m(2) _ wf] m(1) by simp
  qed
  then show ?thesis
    using init wa unfolding T_def [symmetric] by simp
qed

theorem flash_restart_write_address_witness:
  "\<exists>fl. stm32h533_flash_storage_init demo_hal blank_flash = Some (CTAP_STORAGE_OK, fl)"
  using flash_restart_write_address [OF _ blank_flash_formatted blank_flash_log, of demo_hal]
  by (simp add: demo_hal_def blank_flash_def)

text \<open>
  Filling the sector to its last byte is accepted and then fatal. An item that exactly fills
  the sector is stored with success, but continuing an iteration from it fails the assertion
  \<open>address < max_address\<close> of \<open>find_item\<close>, and so does the initialisation at every restart.
\<close>

theorem flash_full_sector_fails:
  assumes "hal_ok hal" and "flash_formatted fl" and "flash_log fl E" and "item_key it \<noteq> 0"
      and "item_size it = length (item_data it)" and "item_size it < 8192"
      and "write_address fl + flash_compute_total_item_size (item_size it) = sector_base_address 1"
  shows "\<exists>it' fl'. stm32h533_flash_storage_create_item hal fl it = Some (CTAP_STORAGE_OK, it', fl')
    \<and> stm32h533_flash_storage_find_item fl' it' = None
    \<and> stm32h533_flash_storage_init hal fl' = None"
proof -
  let ?e = "\<lparr>f_key = item_key it, f_dead = False, f_data = item_data it\<rparr>"
  let ?it' = "it\<lparr>item_handle := of_nat (flash_first + length (encode_flog E))\<rparr>"
  obtain fl' where fl': "stm32h533_flash_storage_create_item hal fl it
      = Some (CTAP_STORAGE_OK, ?it', fl')" "flash_log fl' (E @ [?e])"
      "take 32 (sector0 fl') = take 32 (sector0 fl)"
    using flash_create_ok [OF assms(1,3,4,5,6)] assms(7) by auto
  have "length (encode_fentry ?e) = flash_compute_total_item_size (item_size it)"
    using assms(5,6) by (simp add: length_new_fentry)
  then have full: "32 + length (encode_flog (E @ [?e])) = 8192"
    using assms(7) flash_log_write_address [OF assms(3)] by simp
  have "stm32h533_flash_storage_find_item fl' ?it' = None"
    using flash_find_next [of fl' E ?e "[]" ?it'] fl'(2) full assms(5) by simp
  have "find_write_address fl' = None"
    using find_write_address_eq [OF fl'(2)] trim_dead_live [of ?e E "[]"] full
    by (simp add: trim_dead_def)
  moreover have "flash_formatted fl'" using fl'(3) assms(2) by (simp add: flash_formatted_def)
  ultimately have "stm32h533_flash_storage_init hal fl' = None"
    using formatted_not_initialized [of fl'] assms(1)
    by (simp add: stm32h533_flash_storage_init_def hal_ok_def)
  then show ?thesis
    using fl'(1) \<open>stm32h533_flash_storage_find_item fl' ?it' = None\<close> by blast
qed

theorem flash_full_sector_fails_witness:
  "\<exists>it' fl'. stm32h533_flash_storage_create_item demo_hal blank_flash \<lparr>item_handle = 0,
       item_key = 2, item_size = 8112, item_data = replicate 8112 7\<rparr>
     = Some (CTAP_STORAGE_OK, it', fl') \<and> stm32h533_flash_storage_find_item fl' it' = None"
  using flash_full_sector_fails [OF demo_hal_ok blank_flash_formatted blank_flash_log,
      of "\<lparr>item_handle = 0, item_key = 2, item_size = 8112, item_data = replicate 8112 7\<rparr>"]
  by (auto simp: flash_total_eq blank_flash_def)

text \<open>
  The words of the counter sector below the write address are the values written so far.
\<close>

definition counter_log :: "flash \<Rightarrow> u32 list \<Rightarrow> bool" where
  "counter_log fl vs \<longleftrightarrow>
     edata fl = vs @ replicate (1536 - length vs) 0xFFFFFFFF \<and> length vs \<le> 1536
     \<and> 0xFFFFFFFF \<notin> set vs
     \<and> counter_write_address fl = high_cycling_area_base + 4 * length vs"

definition counter_value :: "u32 list \<Rightarrow> u32" where
  "counter_value vs = (if vs = [] then 1 else last vs)"

text \<open>
  C9: The signature counter in the high-cycle area. While a word is free, an increment stores and
  returns the last value (1 before the first) plus the increment, programming one erased word; with
  all 1536 words used it reports that no memory is left and changes nothing. Unless the new value is
  0xFFFFFFFF, which cannot be told from an erased word, the write address found at a restart is
  the one the increments left.
\<close>

theorem flash_counter_increment:
  assumes "hal_ok hal" and "counter_log fl vs" and "counter_value vs + increment \<noteq> 0xFFFFFFFF"
  shows "find_counter_write_address fl = counter_write_address fl
    \<and> stm32h533_flash_storage_increment_counter hal fl increment =
      (if length vs = 1536 then Some (CTAP_STORAGE_OUT_OF_MEMORY_ERROR, 0, fl)
       else Some (CTAP_STORAGE_OK, counter_value vs + increment,
              fl\<lparr>edata := vs @ (counter_value vs + increment)
                     # replicate (1535 - length vs) 0xFFFFFFFF,
                 counter_write_address := counter_write_address fl + 4\<rparr>))
    \<and> (length vs < 1536 \<longrightarrow>
        counter_log (fl\<lparr>edata := vs @ (counter_value vs + increment)
                     # replicate (1535 - length vs) 0xFFFFFFFF,
                 counter_write_address := counter_write_address fl + 4\<rparr>)
          (vs @ [counter_value vs + increment]))"
proof -
  let ?n = "length vs" and ?v = "counter_value vs + increment"
  have c: "edata fl = vs @ replicate (1536 - ?n) 0xFFFFFFFF" "?n \<le> 1536" "0xFFFFFFFF \<notin> set vs"
      "counter_write_address fl = high_cycling_area_base + 4 * ?n"
    using assms(2) by (auto simp: counter_log_def)
  have ed: "high_cycling_area_end = high_cycling_area_base + 4 * 1536"
    by (simp add: high_cycling_area_end_def)
  have "takeWhile (\<lambda>w. w \<noteq> 0xFFFFFFFF) (edata fl) = vs"
    using c(1,3) by (cases "1536 - ?n") (auto simp: takeWhile_append)
  then have find: "find_counter_write_address fl = counter_write_address fl"
    using c(4) by (simp add: find_counter_write_address_def)
  show ?thesis
  proof (cases "?n = 1536")
    case True
    then show ?thesis
      using find c(4) ed by (simp add: stm32h533_flash_storage_increment_counter_def Let_def)
  next
    case False
    then have n: "?n < 1536" using c(2) by simp
    then have r: "replicate (1536 - ?n) (0xFFFFFFFF :: u32)
        = 0xFFFFFFFF # replicate (1535 - ?n) 0xFFFFFFFF"
    proof -
      have "1536 - ?n = Suc (1535 - ?n)" using n by simp
      then show ?thesis by simp
    qed
    have "?n < length (edata fl)" "edata fl ! ?n = 0xFFFFFFFF"
      using c(1) n r by (simp_all add: nth_append)
    then have prog: "hal_program_edata hal (edata fl) ?n ?v = (True, (edata fl)[?n := ?v])"
      using assms(1) by (simp add: hal_ok_def)
    have upd: "(edata fl)[?n := ?v] = vs @ ?v # replicate (1535 - ?n) 0xFFFFFFFF"
      using c(1) r by (simp add: list_update_append)
    have old: "(if counter_write_address fl \<ge> high_cycling_area_base + 4
        then edata fl ! ((counter_write_address fl - 4 - high_cycling_area_base) div 4) else 1)
        = counter_value vs"
    proof (cases "vs = []")
      case False
      then have "(counter_write_address fl - 4 - high_cycling_area_base) div 4 = ?n - 1"
        using c(4) by (simp add: diff_mult_distrib2 [symmetric])
      moreover have "1 \<le> ?n" using False by (simp add: Suc_le_eq)
      ultimately show ?thesis
        using False c(1,4) by (simp add: counter_value_def last_conv_nth nth_append)
    qed (use c(4) in \<open>simp add: counter_value_def\<close>)
    have "stm32h533_flash_storage_increment_counter hal fl increment = Some (CTAP_STORAGE_OK, ?v,
              fl\<lparr>edata := (edata fl)[?n := ?v],
                 counter_write_address := counter_write_address fl + 4\<rparr>)"
      unfolding stm32h533_flash_storage_increment_counter_def Let_def program_edata_word_def old
      using n c(4) ed prog upd by simp
    then show ?thesis
      using find n c assms(3) unfolding upd by (simp add: counter_log_def)
  qed
qed

theorem flash_counter_increment_witness:
  "\<exists>fl. stm32h533_flash_storage_increment_counter demo_hal blank_flash 1
      = Some (CTAP_STORAGE_OK, 2, fl)"
proof -
  have "counter_log blank_flash []" by (simp add: counter_log_def blank_flash_def)
  from flash_counter_increment [OF demo_hal_ok this, of 1] show ?thesis
    by (simp add: counter_value_def)
qed

section \<open>The structure of function pointers\<close>

definition STM32H533_FLASH_STORAGE_CONST_INIT :: "flash_hal \<Rightarrow> flash ctap_storage" where
  "STM32H533_FLASH_STORAGE_CONST_INIT hal = \<lparr>
     find_item = stm32h533_flash_storage_find_item,
     create_or_update_item = stm32h533_flash_storage_create_or_update_item hal,
     delete_item = stm32h533_flash_storage_delete_item hal,
     increment_counter = stm32h533_flash_storage_increment_counter hal,
     estimate_num_remaining_items = stm32h533_flash_storage_estimate_num_remaining_items,
     erase_storage = stm32h533_flash_storage_erase hal\<rparr>"

end
