(* ===== verification/Sha256.thy ===== *)
theory Sha256
  imports Prelude
begin

text \<open>
  SHA-256 (\<open>crypto/sha256/sha256.c\<close>) and the interface \<open>hash_alg_t\<close> through which HMAC and HKDF
  use it (\<open>crypto/hash/hash.h\<close>). The implementation absorbs a message byte by byte into a
  64-byte buffer; the lemmas show that any sequence of updates followed by \<open>sha256_final\<close> is the
  iteration of the compression function over the padded message of FIPS 180-4, and the context
  implements the locale \<open>hash_algorithm\<close>. The compression function itself is tested against
  the published digest of "abc" in \<open>Sha256_Test\<close>.
\<close>

section \<open>Compression function\<close>

record sha256_ctx =
  data :: bytes
  data_length :: nat
  bit_length :: u64
  state :: "u32 list"

definition ROT_RIGHT :: "u32 \<Rightarrow> nat \<Rightarrow> u32" where
  "ROT_RIGHT a b = drop_bit b a OR push_bit (32 - b) a"

definition CH :: "u32 \<Rightarrow> u32 \<Rightarrow> u32 \<Rightarrow> u32" where
  "CH x y z = (x AND y) XOR (NOT x AND z)"

definition MAJ :: "u32 \<Rightarrow> u32 \<Rightarrow> u32 \<Rightarrow> u32" where
  "MAJ x y z = (x AND y) XOR (x AND z) XOR (y AND z)"

definition EP0 :: "u32 \<Rightarrow> u32" where
  "EP0 x = ROT_RIGHT x 2 XOR ROT_RIGHT x 13 XOR ROT_RIGHT x 22"

definition EP1 :: "u32 \<Rightarrow> u32" where
  "EP1 x = ROT_RIGHT x 6 XOR ROT_RIGHT x 11 XOR ROT_RIGHT x 25"

definition SIG0 :: "u32 \<Rightarrow> u32" where
  "SIG0 x = ROT_RIGHT x 7 XOR ROT_RIGHT x 18 XOR drop_bit 3 x"

definition SIG1 :: "u32 \<Rightarrow> u32" where
  "SIG1 x = ROT_RIGHT x 17 XOR ROT_RIGHT x 19 XOR drop_bit 10 x"

text \<open>The table of round constants, in rows of four.\<close>

definition sha256_k :: "u32 list" where
  "sha256_k = concat [
    [0x428a2f98, 0x71374491, 0xb5c0fbcf, 0xe9b5dba5],
    [0x3956c25b, 0x59f111f1, 0x923f82a4, 0xab1c5ed5],
    [0xd807aa98, 0x12835b01, 0x243185be, 0x550c7dc3],
    [0x72be5d74, 0x80deb1fe, 0x9bdc06a7, 0xc19bf174],
    [0xe49b69c1, 0xefbe4786, 0x0fc19dc6, 0x240ca1cc],
    [0x2de92c6f, 0x4a7484aa, 0x5cb0a9dc, 0x76f988da],
    [0x983e5152, 0xa831c66d, 0xb00327c8, 0xbf597fc7],
    [0xc6e00bf3, 0xd5a79147, 0x06ca6351, 0x14292967],
    [0x27b70a85, 0x2e1b2138, 0x4d2c6dfc, 0x53380d13],
    [0x650a7354, 0x766a0abb, 0x81c2c92e, 0x92722c85],
    [0xa2bfe8a1, 0xa81a664b, 0xc24b8b70, 0xc76c51a3],
    [0xd192e819, 0xd6990624, 0xf40e3585, 0x106aa070],
    [0x19a4c116, 0x1e376c08, 0x2748774c, 0x34b0bcb5],
    [0x391c0cb3, 0x4ed8aa4a, 0x5b9cca4f, 0x682e6ff3],
    [0x748f82ee, 0x78a5636f, 0x84c87814, 0x8cc70208],
    [0x90befffa, 0xa4506ceb, 0xbef9a3f7, 0xc67178f2]]"

text \<open>The first loop: sixteen big-endian words.\<close>

fun be_words :: "bytes \<Rightarrow> u32 list" where
  "be_words (b0 # b1 # b2 # b3 # bs) =
     (push_bit 24 (ucast b0) OR push_bit 16 (ucast b1) OR push_bit 8 (ucast b2) OR ucast b3)
     # be_words bs"
| "be_words _ = []"

text \<open>The second loop, \<open>n\<close> turns: \<open>m[i]\<close> from the sixteen words before it.\<close>

fun extend_schedule :: "nat \<Rightarrow> u32 list \<Rightarrow> u32 list" where
  "extend_schedule 0 m = m"
| "extend_schedule (Suc n) m =
     (let i = length m in
      extend_schedule n
        (m @ [SIG1 (m ! (i - 2)) + m ! (i - 7) + SIG0 (m ! (i - 15)) + m ! (i - 16)]))"

text \<open>The round loop over the round constants and the schedule.\<close>

type_synonym sha256_vars = "u32 \<times> u32 \<times> u32 \<times> u32 \<times> u32 \<times> u32 \<times> u32 \<times> u32"

fun sha256_rounds :: "(u32 \<times> u32) list \<Rightarrow> sha256_vars \<Rightarrow> sha256_vars" where
  "sha256_rounds [] v = v"
| "sha256_rounds ((k, m) # kms) (a, b, c, d, e, f, g, h) =
     (let t1 = h + EP1 e + CH e f g + k + m;
          t2 = EP0 a + MAJ a b c in
      sha256_rounds kms (t1 + t2, a, b, c, d + t1, e, f, g))"

definition compress :: "u32 list \<Rightarrow> bytes \<Rightarrow> u32 list" where
  "compress st block =
     (let m = extend_schedule 48 (be_words block);
          (a, b, c, d, e, f, g, h) = sha256_rounds (zip sha256_k m)
            (st ! 0, st ! 1, st ! 2, st ! 3, st ! 4, st ! 5, st ! 6, st ! 7) in
      [st ! 0 + a, st ! 1 + b, st ! 2 + c, st ! 3 + d,
       st ! 4 + e, st ! 5 + f, st ! 6 + g, st ! 7 + h])"

definition sha256_transform :: "sha256_ctx \<Rightarrow> bytes \<Rightarrow> sha256_ctx" where
  "sha256_transform ctx block = ctx\<lparr>state := compress (state ctx) block\<rparr>"

section \<open>Streaming interface\<close>

definition sha256_iv :: "u32 list" where
  "sha256_iv = [0x6a09e667, 0xbb67ae85, 0x3c6ef372, 0xa54ff53a] @
     [0x510e527f, 0x9b05688c, 0x1f83d9ab, 0x5be0cd19]"

definition sha256_init :: "sha256_ctx \<Rightarrow> sha256_ctx" where
  "sha256_init ctx = ctx\<lparr>data_length := 0, bit_length := 0, state := sha256_iv\<rparr>"

definition sha256_update_byte :: "u8 \<Rightarrow> sha256_ctx \<Rightarrow> sha256_ctx" where
  "sha256_update_byte b ctx =
     (let ctx1 = ctx\<lparr>data := (data ctx)[data_length ctx := b], data_length := data_length ctx + 1\<rparr> in
      if data_length ctx1 = 64 then
        (sha256_transform ctx1 (data ctx1))\<lparr>bit_length := bit_length ctx1 + 512, data_length := 0\<rparr>
      else ctx1)"

definition sha256_update :: "sha256_ctx \<Rightarrow> bytes \<Rightarrow> sha256_ctx" where
  "sha256_update ctx d = fold sha256_update_byte d ctx"

definition be64 :: "u64 \<Rightarrow> bytes" where
  "be64 w = [ucast (drop_bit 56 w), ucast (drop_bit 48 w), ucast (drop_bit 40 w),
     ucast (drop_bit 32 w), ucast (drop_bit 24 w), ucast (drop_bit 16 w), ucast (drop_bit 8 w),
     ucast w]"

definition be32 :: "u32 \<Rightarrow> bytes" where
  "be32 w = [ucast (drop_bit 24 w), ucast (drop_bit 16 w), ucast (drop_bit 8 w), ucast w]"

text \<open>The buffer is written with \<open>take\<close> and \<open>drop\<close> where the code has byte-wise loops.\<close>

definition sha256_final :: "sha256_ctx \<Rightarrow> bytes \<times> sha256_ctx" where
  "sha256_final ctx =
     (let n = data_length ctx;
          ctx1 =
            (if n < 56 then
               ctx\<lparr>data := take n (data ctx) @ [0x80] @ zeros (55 - n) @ drop 56 (data ctx)\<rparr>
             else
               let d = take n (data ctx) @ [0x80] @ zeros (63 - n);
                   ctx' = sha256_transform (ctx\<lparr>data := d\<rparr>) d in
               ctx'\<lparr>data := zeros 56 @ drop 56 d\<rparr>);
          bits = bit_length ctx1 + of_nat n * 8;
          d2 = take 56 (data ctx1) @ be64 bits;
          ctx2 = sha256_transform (ctx1\<lparr>bit_length := bits, data := d2\<rparr>) d2 in
      (concat (map be32 (state ctx2)), ctx2))"

section \<open>Specification\<close>

text \<open>Padding of FIPS 180-4 (5.1.1) and the iteration of the compression function.\<close>

definition sha256_padded :: "bytes \<Rightarrow> bytes" where
  "sha256_padded m = m @ [0x80] @ zeros ((119 - length m mod 64) mod 64)
     @ be64 (of_nat (8 * length m))"

function iterate_blocks :: "u32 list \<Rightarrow> bytes \<Rightarrow> u32 list" where
  "iterate_blocks st bs =
     (if length bs < 64 then st else iterate_blocks (compress st (take 64 bs)) (drop 64 bs))"
  by pat_completeness auto
termination
  by (relation "measure (\<lambda>(st, bs). length bs)") auto

declare iterate_blocks.simps [simp del]

definition sha256_spec :: "bytes \<Rightarrow> bytes" where
  "sha256_spec m = concat (map be32 (iterate_blocks sha256_iv (sha256_padded m)))"

lemma length_be64 [simp]: "length (be64 w) = 8"
  by (simp add: be64_def)

lemma length_be32 [simp]: "length (be32 w) = 4"
  by (simp add: be32_def)

lemma iterate_blocks_append:
  "64 dvd length xs \<Longrightarrow> iterate_blocks st (xs @ ys) = iterate_blocks (iterate_blocks st xs) ys"
proof (induction "length xs" arbitrary: xs st rule: less_induct)
  case less
  show ?case
  proof (cases "xs = []")
    case True
    then show ?thesis by (simp add: iterate_blocks.simps [of st "[]"])
  next
    case False
    then have l: "64 \<le> length xs" using less.prems by (simp add: dvd_imp_le)
    let ?st = "compress st (take 64 xs)"
    have "iterate_blocks st (xs @ ys) = iterate_blocks ?st (drop 64 xs @ ys)"
      by (subst iterate_blocks.simps) (use l in simp)
    moreover have "iterate_blocks st xs = iterate_blocks ?st (drop 64 xs)"
      by (subst iterate_blocks.simps) (use l in simp)
    moreover have "iterate_blocks ?st (drop 64 xs @ ys)
        = iterate_blocks (iterate_blocks ?st (drop 64 xs)) ys"
      using less.prems l by (intro less.hyps) (simp_all add: dvd_diff_nat)
    ultimately show ?thesis by simp
  qed
qed

lemma iterate_blocks_one: "length b = 64 \<Longrightarrow> iterate_blocks st b = compress st b"
  using iterate_blocks.simps [of st b] iterate_blocks.simps [of _ "[]"] by simp

section \<open>Streaming computes the specification\<close>

text \<open>The context has absorbed the message \<open>m\<close>.\<close>

definition absorbed :: "sha256_ctx \<Rightarrow> bytes \<Rightarrow> bool" where
  "absorbed ctx m \<longleftrightarrow>
     (let q = length m div 64 * 64; r = length m mod 64 in
      length (data ctx) = 64 \<and> data_length ctx = r \<and> take r (data ctx) = drop q m
      \<and> state ctx = iterate_blocks sha256_iv (take q m) \<and> bit_length ctx = of_nat (8 * q))"

lemma absorbed_init: "length (data ctx) = 64 \<Longrightarrow> absorbed (sha256_init ctx) []"
  by (simp add: absorbed_def sha256_init_def iterate_blocks.simps [of _ "[]"])

lemma absorbed_update_byte:
  assumes "absorbed ctx m"
  shows "absorbed (sha256_update_byte b ctx) (m @ [b])"
proof -
  define q r where "q = length m div 64 * 64" and "r = length m mod 64"
  have m: "length m = q + r" "r < 64" "64 dvd q" by (simp_all add: q_def r_def)
  have c: "length (data ctx) = 64" "data_length ctx = r" "take r (data ctx) = drop q m"
      "state ctx = iterate_blocks sha256_iv (take q m)" "bit_length ctx = of_nat (8 * q)"
    using assms by (simp_all add: absorbed_def Let_def q_def r_def)
  let ?d = "(data ctx)[r := b]"
  have tk: "take (Suc r) ?d = drop q m @ [b]"
    using c m by (simp add: take_Suc_conv_app_nth)
  show ?thesis
  proof (cases "r = 63")
    case False
    then have "Suc (length m) div 64 * 64 = q" "Suc (length m) mod 64 = Suc r"
      using False unfolding q_def r_def by (simp_all add: mod_Suc div_Suc)
    then show ?thesis
      using c m False tk by (simp add: absorbed_def sha256_update_byte_def Let_def)
  next
    case True
    then have e: "Suc (length m) mod 64 = 0" "Suc (length m) div 64 * 64 = q + 64"
      using True unfolding q_def r_def by (simp_all add: mod_Suc div_Suc)
    have "?d = drop q m @ [b]" using tk c(1) True by simp
    moreover have "iterate_blocks sha256_iv (take q m @ (drop q m @ [b]))
        = compress (iterate_blocks sha256_iv (take q m)) (drop q m @ [b])"
      using m True by (subst iterate_blocks_append) (simp_all add: iterate_blocks_one)
    then have "iterate_blocks sha256_iv (m @ [b])
        = compress (iterate_blocks sha256_iv (take q m)) (drop q m @ [b])"
      by (metis append_assoc append_take_drop_id)
    ultimately show ?thesis
      using c m True e by (simp add: absorbed_def sha256_update_byte_def Let_def
          sha256_transform_def)
  qed
qed

lemma absorbed_update: "absorbed ctx m \<Longrightarrow> absorbed (sha256_update ctx d) (m @ d)"
proof (induction d arbitrary: ctx m)
  case (Cons b d)
  from Cons.IH [OF absorbed_update_byte [OF Cons.prems, of b]] show ?case
    by (simp add: sha256_update_def)
qed (simp add: sha256_update_def)

lemma length_data_transform [simp]: "data (sha256_transform ctx b) = data ctx"
  by (simp add: sha256_transform_def)

lemma sha256_final_spec:
  assumes "absorbed ctx m"
  shows "fst (sha256_final ctx) = sha256_spec m" and "length (data (snd (sha256_final ctx))) = 64"
proof -
  define q r where "q = length m div 64 * 64" and "r = length m mod 64"
  have m: "length m = q + r" "r < 64" "64 dvd q" by (simp_all add: q_def r_def)
  have c: "length (data ctx) = 64" "data_length ctx = r" "take r (data ctx) = drop q m"
      "state ctx = iterate_blocks sha256_iv (take q m)" "bit_length ctx = of_nat (8 * q)"
    using assms by (simp_all add: absorbed_def Let_def q_def r_def)
  have bits: "bit_length ctx + of_nat r * 8 = of_nat (8 * length m)"
    using c(5) m(1) by (simp add: algebra_simps)
  let ?pad = "(119 - r) mod 64"
  have split: "sha256_padded m = take q m @ (drop q m @ [0x80] @ zeros ?pad
      @ be64 (of_nat (8 * length m)))"
    by (simp add: sha256_padded_def r_def)
  have it: "iterate_blocks sha256_iv (sha256_padded m) = iterate_blocks (state ctx)
      (drop q m @ [0x80] @ zeros ?pad @ be64 (of_nat (8 * length m)))"
    unfolding split using m c(4) by (subst iterate_blocks_append) simp_all
  show "fst (sha256_final ctx) = sha256_spec m"
  proof (cases "r < 56")
    case True
    then have "?pad = 55 - r" by (simp add: mod_if)
    moreover have "length (drop q m @ [0x80] @ zeros (55 - r) @ be64 (of_nat (8 * length m))) = 64"
      using m True by simp
    moreover have "take (56 - r) (0x80 # zeros (55 - r) @ x) = 0x80 # zeros (55 - r)" for x
    proof -
      have "56 - r = Suc (55 - r)" using True by simp
      then show ?thesis by simp
    qed
    ultimately show ?thesis
      using True c it bits m
      by (simp add: sha256_final_def Let_def sha256_spec_def sha256_transform_def iterate_blocks_one
          mult.commute)
  next
    case False
    then have p: "?pad = (63 - r) + 56" using m(2) by (simp add: mod_if)
    let ?b1 = "drop q m @ [0x80] @ zeros (63 - r)"
      and ?b2 = "zeros 56 @ be64 (of_nat (8 * length m))"
    have "drop q m @ [0x80] @ zeros ?pad @ be64 (of_nat (8 * length m)) = ?b1 @ ?b2"
      unfolding p by (simp add: zeros_def replicate_add)
    moreover have "length ?b1 = 64" "length ?b2 = 64" using m False by simp_all
    ultimately have "iterate_blocks sha256_iv (sha256_padded m)
        = compress (compress (state ctx) ?b1) ?b2"
      using it iterate_blocks_append [of ?b1 "state ctx" ?b2] by (simp add: iterate_blocks_one)
    then show ?thesis
      using False c bits m
      by (simp add: sha256_final_def Let_def sha256_spec_def sha256_transform_def mult.commute)
  qed
  show "length (data (snd (sha256_final ctx))) = 64"
    using c m by (simp add: sha256_final_def Let_def)
qed

lemma length_compress [simp]: "length (compress st b) = 8"
  by (simp add: compress_def Let_def split: prod.splits)

lemma length_iterate_blocks: "length st = 8 \<Longrightarrow> length (iterate_blocks st bs) = 8"
proof (induction st bs rule: iterate_blocks.induct)
  case (1 st bs)
  then show ?case using iterate_blocks.simps [of st bs] by simp
qed

lemma length_sha256_spec [simp]: "length (sha256_spec m) = 32"
proof -
  have "length (iterate_blocks sha256_iv (sha256_padded m)) = 8"
    by (rule length_iterate_blocks) (simp add: sha256_iv_def)
  then show ?thesis
    by (simp add: sha256_spec_def length_concat o_def sum_list_triv)
qed

section \<open>The interface of hash algorithms\<close>

text \<open>
  \<open>hash_alg_t\<close>: the sizes and the three functions, over contexts \<open>'c\<close>. \<open>hash_final\<close> also changes
  the context, which the callers initialise again.
\<close>

record 'c hash_alg =
  output_size :: nat
  block_size :: nat
  hash_init :: "'c \<Rightarrow> 'c"
  hash_update :: "'c \<Rightarrow> bytes \<Rightarrow> 'c"
  hash_final :: "'c \<Rightarrow> bytes \<times> 'c"

text \<open>
  The contract: a usable context that has been initialised and updated yields the hash of the
  concatenation of the updates and is usable again. For the software \<open>usable\<close> means that the
  memory of the context has the right size; the hardware can only be used again after the digest
  of the message before was computed.
\<close>

locale hash_algorithm =
  fixes alg :: "'c hash_alg"
    and usable :: "'c \<Rightarrow> bool"
    and has_absorbed :: "'c \<Rightarrow> bytes \<Rightarrow> bool"
    and H :: "bytes \<Rightarrow> bytes"
  assumes init_absorbed: "usable c \<Longrightarrow> has_absorbed (hash_init alg c) []"
    and update_absorbed: "has_absorbed c m \<Longrightarrow> has_absorbed (hash_update alg c d) (m @ d)"
    and final_hash: "has_absorbed c m \<Longrightarrow> fst (hash_final alg c) = H m"
    and final_usable: "has_absorbed c m \<Longrightarrow> usable (snd (hash_final alg c))"
    and length_H: "length (H m) = output_size alg"
    and output_pos: "0 < output_size alg"
    and output_le_block: "output_size alg \<le> block_size alg"

definition hash_alg_sha256 :: "sha256_ctx hash_alg" where
  "hash_alg_sha256 = \<lparr>output_size = 32, block_size = 64, hash_init = sha256_init,
     hash_update = sha256_update, hash_final = sha256_final\<rparr>"

definition sha256_usable :: "sha256_ctx \<Rightarrow> bool" where
  "sha256_usable ctx \<longleftrightarrow> length (data ctx) = 64"

interpretation sha256: hash_algorithm hash_alg_sha256 sha256_usable absorbed sha256_spec
proof unfold_locales
  fix c :: sha256_ctx and m d
  show "sha256_usable c \<Longrightarrow> absorbed (hash_init hash_alg_sha256 c) []"
    by (simp add: hash_alg_sha256_def sha256_usable_def absorbed_init)
  show "absorbed c m \<Longrightarrow> absorbed (hash_update hash_alg_sha256 c d) (m @ d)"
    by (simp add: hash_alg_sha256_def absorbed_update)
  show "absorbed c m \<Longrightarrow> fst (hash_final hash_alg_sha256 c) = sha256_spec m"
    by (simp add: hash_alg_sha256_def sha256_final_spec)
  show "absorbed c m \<Longrightarrow> sha256_usable (snd (hash_final hash_alg_sha256 c))"
    by (simp add: hash_alg_sha256_def sha256_final_spec sha256_usable_def)
qed (simp_all add: hash_alg_sha256_def)

section \<open>Properties\<close>

text \<open>
  C10: SHA-256 streaming. Initialising a context, whatever it held, feeding it any list of pieces
  and finalising yields the FIPS 180-4 hash of the concatenated pieces: the block buffering, the
  padding in its one- and two-block forms and the 64-bit length field are right for every message
  length and every way of splitting it.
\<close>

theorem sha256_streaming:
  assumes "length (data ctx) = 64"
  shows "fst (sha256_final (fold (\<lambda>d c. sha256_update c d) ds (sha256_init ctx)))
       = sha256_spec (concat ds)"
proof -
  have "absorbed (fold (\<lambda>d c. sha256_update c d) ds c) (m @ concat ds)" if "absorbed c m" for c m
    using that
  proof (induction ds arbitrary: c m)
    case (Cons d ds)
    from Cons.IH [OF absorbed_update [OF Cons.prems, of d]] show ?case by simp
  qed simp
  from this [OF absorbed_init [OF assms]] show ?thesis
    by (simp add: sha256_final_spec)
qed

theorem sha256_streaming_witness:
  "fst (sha256_final (fold (\<lambda>d c. sha256_update c d) [[0x61], [0x62, 0x63]] (sha256_init
      \<lparr>data = replicate 64 7, data_length = 9, bit_length = 3, state = []\<rparr>)))
   = sha256_spec [0x61, 0x62, 0x63]"
  using sha256_streaming [of "\<lparr>data = replicate 64 7, data_length = 9, bit_length = 3, state = []\<rparr>"
      "[[0x61], [0x62, 0x63]]"] by simp

end
