(* ===== verification/Sha256_Test.thy ===== *)
theory Sha256_Test
  imports Sha256
begin

text \<open>
  A known-answer test of the SHA-256 model, evaluated by the simplifier. It ties the compression
  function, its constants and the byte order of the digest to the published standard, which the
  streaming theorem of \<open>Sha256\<close> leaves open.
\<close>

text \<open>The digest of "abc" of FIPS 180-4, through the model of the code.\<close>

definition sha256_of :: "bytes \<Rightarrow> bytes" where
  "sha256_of m = fst (sha256_final (sha256_update (sha256_init
     \<lparr>data = zeros 64, data_length = 0, bit_length = 0, state = []\<rparr>) m))"

text \<open>
  The digest of "abc" published in FIPS 180-4, computed through the model of
  \<open>sha256_init\<close>, \<open>sha256_update\<close> and \<open>sha256_final\<close>.
\<close>

theorem sha256_abc:
  "sha256_of [0x61, 0x62, 0x63] = [0xba, 0x78, 0x16, 0xbf, 0x8f, 0x01, 0xcf, 0xea,
     0x41, 0x41, 0x40, 0xde, 0x5d, 0xae, 0x22, 0x23, 0xb0, 0x03, 0x61, 0xa3, 0x96, 0x17, 0x7a, 0x9c,
     0xb4, 0x10, 0xff, 0x61, 0xf2, 0x00, 0x15, 0xad]"
  by code_simp

end
