(* ===== verification/Hmac_Hkdf.thy ===== *)
theory Hmac_Hkdf
  imports Sha256
begin

text \<open>
  HMAC (\<open>crypto/hmac/hmac.c\<close>, RFC 2104) and HKDF (\<open>crypto/hkdf/hkdf.c\<close>, RFC 5869) over the hash
  interface. The functions are parametric in the \<open>hash_alg\<close> structure, as in the code; their
  correctness is proved in the locale \<open>hash_algorithm\<close> and used for SHA-256 through its
  interpretation.
\<close>

section \<open>HMAC\<close>

record 'c hmac_ctx =
  hmac_hash_ctx :: 'c
  o_key_pad :: bytes

text \<open>
  The block-sized key. A hashed key is followed by a \<open>memset\<close> of 32 bytes at offset 32, whatever
  the sizes of the algorithm are; the array is \<open>block_size\<close> bytes.
\<close>

definition hmac_block_sized_key :: "'c hash_alg \<Rightarrow> 'c \<Rightarrow> bytes \<Rightarrow> (bytes \<times> 'c) option" where
  "hmac_block_sized_key alg hash_ctx key =
     (let bs = block_size alg in
      if length key > bs then
        (let (h, ctx') = hash_final alg (hash_update alg (hash_init alg hash_ctx) key) in
         do { k1 \<leftarrow> memcpy_at (zeros bs) 0 h;
              k2 \<leftarrow> memcpy_at k1 32 (zeros 32);
              Some (k2, ctx') })
      else Some (key @ zeros (bs - length key), hash_ctx))"

definition hmac_init :: "'c hash_alg \<Rightarrow> 'c \<Rightarrow> bytes \<Rightarrow> 'c hmac_ctx option" where
  "hmac_init alg hash_ctx key =
     do { (block_sized_key, ctx1) \<leftarrow> hmac_block_sized_key alg hash_ctx key;
          let i_key_pad = map (\<lambda>b. b XOR 0x36) block_sized_key;
          let ctx2 = hash_update alg (hash_init alg ctx1) i_key_pad;
          Some \<lparr>hmac_hash_ctx = ctx2, o_key_pad = map (\<lambda>b. b XOR 0x5c) block_sized_key\<rparr> }"

definition hmac_update :: "'c hash_alg \<Rightarrow> 'c hmac_ctx \<Rightarrow> bytes \<Rightarrow> 'c hmac_ctx" where
  "hmac_update alg ctx d = ctx\<lparr>hmac_hash_ctx := hash_update alg (hmac_hash_ctx ctx) d\<rparr>"

definition hmac_final :: "'c hash_alg \<Rightarrow> 'c hmac_ctx \<Rightarrow> bytes \<times> 'c" where
  "hmac_final alg ctx =
     (let (inner, c1) = hash_final alg (hmac_hash_ctx ctx);
          c2 = hash_update alg (hash_init alg c1) (o_key_pad ctx);
          c3 = hash_update alg c2 (take (output_size alg) inner) in
      hash_final alg c3)"

text \<open>RFC 2104.\<close>

definition hmac_key :: "(bytes \<Rightarrow> bytes) \<Rightarrow> nat \<Rightarrow> bytes \<Rightarrow> bytes" where
  "hmac_key H bs key =
     (let k = if length key > bs then H key else key in k @ zeros (bs - length k))"

definition hmac_spec :: "(bytes \<Rightarrow> bytes) \<Rightarrow> nat \<Rightarrow> bytes \<Rightarrow> bytes \<Rightarrow> bytes" where
  "hmac_spec H bs key m =
     H (map (\<lambda>b. b XOR 0x5c) (hmac_key H bs key)
        @ H (map (\<lambda>b. b XOR 0x36) (hmac_key H bs key) @ m))"

section \<open>HKDF\<close>

definition hkdf_extract :: "'c hash_alg \<Rightarrow> 'c \<Rightarrow> bytes \<Rightarrow> bytes \<Rightarrow> (bytes \<times> 'c) option" where
  "hkdf_extract alg hash_ctx salt ikm =
     do { c \<leftarrow> hmac_init alg hash_ctx salt;
          Some (hmac_final alg (hmac_update alg c ikm)) }"

text \<open>One block: HMAC of the previous block, the info and the counter.\<close>

definition hkdf_block :: "'c hash_alg \<Rightarrow> 'c \<Rightarrow> bytes \<Rightarrow> bytes \<Rightarrow> bytes \<Rightarrow> u8 \<Rightarrow> (bytes \<times> 'c) option" where
  "hkdf_block alg hash_ctx prk prev info i =
     do { c \<leftarrow> hmac_init alg hash_ctx (take (output_size alg) prk);
          Some (hmac_final alg
            (hmac_update alg (hmac_update alg (hmac_update alg c prev) info) [i])) }"

text \<open>
  The loop of \<open>hkdf_expand\<close>. \<open>okm\<close> is what has been written so far, \<open>prev\<close> the bytes at
  \<open>okm_prev_pos\<close>; the fuel bounds the number of turns.
\<close>

fun hkdf_loop :: "nat \<Rightarrow> 'c hash_alg \<Rightarrow> 'c \<Rightarrow> bytes \<Rightarrow> bytes \<Rightarrow> nat \<Rightarrow> bytes \<Rightarrow> bytes \<Rightarrow> u8
    \<Rightarrow> (bytes \<times> bytes \<times> u8 \<times> 'c) option" where
  "hkdf_loop 0 alg hash_ctx prk info okm_length okm prev i = None"
| "hkdf_loop (Suc fuel) alg hash_ctx prk info okm_length okm prev i =
     (if length okm + output_size alg \<le> okm_length then
        do { (t, hash_ctx') \<leftarrow> hkdf_block alg hash_ctx prk prev info i;
             hkdf_loop fuel alg hash_ctx' prk info okm_length (okm @ t) t (i + 1) }
      else Some (okm, prev, i, hash_ctx))"

definition hkdf_expand :: "'c hash_alg \<Rightarrow> 'c \<Rightarrow> bytes \<Rightarrow> bytes \<Rightarrow> nat \<Rightarrow> (bytes \<times> 'c) option" where
  "hkdf_expand alg hash_ctx prk info okm_length =
     (if okm_length = 0 then Some ([], hash_ctx)
      else require (okm_length \<le> 255 * output_size alg) (
        do { (okm, prev, i, hash_ctx1) \<leftarrow>
               hkdf_loop 256 alg hash_ctx prk info okm_length [] [] 1;
             if length okm < okm_length then
               do { (t, hash_ctx2) \<leftarrow> hkdf_block alg hash_ctx1 prk prev info i;
                    let remaining_bytes = okm_length - length okm;
                    require (remaining_bytes < output_size alg)
                      (Some (okm @ take remaining_bytes t, hash_ctx2)) }
             else Some (okm, hash_ctx1) }))"

definition hkdf :: "'c hash_alg \<Rightarrow> 'c \<Rightarrow> bytes \<Rightarrow> bytes \<Rightarrow> bytes \<Rightarrow> nat \<Rightarrow> (bytes \<times> 'c) option" where
  "hkdf alg hash_ctx salt ikm info okm_length =
     require (okm_length \<le> 255 * output_size alg) (
       do { (prk, hash_ctx1) \<leftarrow> hkdf_extract alg hash_ctx salt ikm;
            hkdf_expand alg hash_ctx1 prk info okm_length })"

text \<open>RFC 5869: the blocks T(1), T(2), .. and the output keying material.\<close>

fun hkdf_T :: "(bytes \<Rightarrow> bytes \<Rightarrow> bytes) \<Rightarrow> bytes \<Rightarrow> bytes \<Rightarrow> nat \<Rightarrow> bytes" where
  "hkdf_T hmac prk info 0 = []"
| "hkdf_T hmac prk info (Suc n) =
     hmac prk (hkdf_T hmac prk info n @ info @ [of_nat (Suc n)])"

definition hkdf_spec :: "(bytes \<Rightarrow> bytes \<Rightarrow> bytes) \<Rightarrow> nat \<Rightarrow> bytes \<Rightarrow> bytes \<Rightarrow> bytes \<Rightarrow> nat \<Rightarrow> bytes" where
  "hkdf_spec hmac hash_len salt ikm info okm_length =
     take okm_length (concat (map (hkdf_T hmac (hmac salt ikm) info)
       [1..<Suc ((okm_length + hash_len - 1) div hash_len)]))"

lemma ceil_div_32:
  fixes q r :: nat
  assumes "L = 32 * q + r" and "0 < r" and "r < 32"
  shows "(L + 32 - 1) div 32 = Suc q"
  using assms by (intro div_nat_eqI) simp_all

section \<open>Correctness for every hash algorithm\<close>

text \<open>
  The sizes for which the \<open>memset\<close> of \<open>hmac_init\<close> is right.
\<close>

locale hash_algorithm_64_32 = hash_algorithm alg usable has_absorbed H
  for alg :: "'c hash_alg" and usable has_absorbed H +
  assumes sizes: "block_size alg = 64" "output_size alg = 32"
begin

lemma hmac_block_sized_key_ok:
  assumes "usable c"
  shows "\<exists>c'. hmac_block_sized_key alg c key = Some (hmac_key H 64 key, c') \<and> usable c'"
proof (cases "length key > 64")
  case True
  let ?c = "hash_update alg (hash_init alg c) key"
  have a: "has_absorbed ?c key"
    using update_absorbed [OF init_absorbed [OF assms], of key] by simp
  obtain h c' where f: "hash_final alg ?c = (h, c')" by (cases "hash_final alg ?c")
  have h: "h = H key" "usable c'"
    using final_hash [OF a] final_usable [OF a] f by simp_all
  have "length (H key) = 32" using length_H sizes by simp
  then have "memcpy_at (zeros 64) 0 h = Some (h @ zeros 32)"
    "memcpy_at (h @ zeros 32) 32 (zeros 32) = Some (h @ zeros 32)"
    using h(1) by (simp_all add: memcpy_at_def zeros_def)
  then show ?thesis
    using True f h sizes length_H [of key]
    by (simp add: hmac_block_sized_key_def hmac_key_def)
next
  case False
  then show ?thesis
    using assms sizes by (simp add: hmac_block_sized_key_def hmac_key_def)
qed

text \<open>A HMAC context that has absorbed \<open>m\<close> under \<open>key\<close>.\<close>

definition hmac_absorbed :: "'c hmac_ctx \<Rightarrow> bytes \<Rightarrow> bytes \<Rightarrow> bool" where
  "hmac_absorbed ctx key m \<longleftrightarrow>
     has_absorbed (hmac_hash_ctx ctx) (map (\<lambda>b. b XOR 0x36) (hmac_key H 64 key) @ m)
     \<and> o_key_pad ctx = map (\<lambda>b. b XOR 0x5c) (hmac_key H 64 key)"

lemma hmac_init_ok:
  assumes "usable c"
  shows "\<exists>ctx. hmac_init alg c key = Some ctx \<and> hmac_absorbed ctx key []"
proof -
  obtain c' where c': "hmac_block_sized_key alg c key = Some (hmac_key H 64 key, c')" "usable c'"
    using hmac_block_sized_key_ok [OF assms] by blast
  then show ?thesis
    using update_absorbed [OF init_absorbed [OF c'(2)]]
    by (simp add: hmac_init_def hmac_absorbed_def)
qed

lemma hmac_update_ok: "hmac_absorbed ctx key m \<Longrightarrow> hmac_absorbed (hmac_update alg ctx d) key (m @ d)"
  using update_absorbed by (fastforce simp: hmac_absorbed_def hmac_update_def)

lemma hmac_final_ok:
  assumes "hmac_absorbed ctx key m"
  shows "\<exists>c. hmac_final alg ctx = (hmac_spec H 64 key m, c) \<and> usable c"
proof -
  let ?k = "hmac_key H 64 key"
  let ?m = "map (\<lambda>b. b XOR 0x36) ?k @ m"
  have a: "has_absorbed (hmac_hash_ctx ctx) ?m" using assms by (simp add: hmac_absorbed_def)
  obtain inner c1 where f: "hash_final alg (hmac_hash_ctx ctx) = (inner, c1)"
    by (cases "hash_final alg (hmac_hash_ctx ctx)")
  have i: "inner = H ?m" "usable c1" "take (output_size alg) inner = H ?m"
    using final_hash [OF a] final_usable [OF a] f length_H [of ?m] by simp_all
  let ?c3 = "hash_update alg (hash_update alg (hash_init alg c1) (o_key_pad ctx)) (H ?m)"
  have b: "has_absorbed ?c3 (map (\<lambda>b. b XOR 0x5c) ?k @ H ?m)"
    using update_absorbed [OF update_absorbed [OF init_absorbed [OF i(2)]]] assms
    by (fastforce simp: hmac_absorbed_def)
  show ?thesis
    using final_hash [OF b] final_usable [OF b] f i
    by (cases "hash_final alg ?c3") (simp add: hmac_final_def hmac_spec_def)
qed

lemma length_hmac_spec: "length (hmac_spec H 64 key m) = 32"
  using length_H sizes by (simp add: hmac_spec_def)

lemma hkdf_extract_ok:
  assumes "usable c"
  shows "\<exists>c'. hkdf_extract alg c salt ikm = Some (hmac_spec H 64 salt ikm, c') \<and> usable c'"
  using hmac_init_ok [OF assms, of salt] hmac_update_ok hmac_final_ok
  by (fastforce simp: hkdf_extract_def)

lemma hkdf_block_ok:
  assumes "usable c" and "length prk = 32"
  shows "\<exists>c'. hkdf_block alg c prk prev info i
           = Some (hmac_spec H 64 prk (prev @ info @ [i]), c') \<and> usable c'"
proof -
  obtain ctx where ctx: "hmac_init alg c prk = Some ctx" "hmac_absorbed ctx prk []"
    using hmac_init_ok [OF assms(1)] by blast
  have "hmac_absorbed (hmac_update alg (hmac_update alg (hmac_update alg ctx prev) info) [i]) prk
      ((([] @ prev) @ info) @ [i])"
    using ctx(2) by (intro hmac_update_ok)
  then show ?thesis
    using hmac_final_ok ctx(1) assms(2) sizes by (fastforce simp: hkdf_block_def)
qed

abbreviation (input) T where
  "T prk info \<equiv> hkdf_T (hmac_spec H 64) prk info"

lemma hkdf_T_length: "0 < n \<Longrightarrow> length (T prk info n) = 32"
  using length_hmac_spec by (cases n) simp_all

lemma hkdf_blocks_length:
  "length (concat (map (T prk info) [1..<Suc j])) = 32 * j"
  using hkdf_T_length by (induction j) (simp_all add: length_hmac_spec)

lemma hkdf_loop_ok:
  assumes "usable c" and "length prk = 32" and "j \<le> L div 32" and "L div 32 - j < fuel"
  shows "\<exists>c'. hkdf_loop fuel alg c prk info L (concat (map (T prk info) [1..<Suc j]))
           (T prk info j) (of_nat (Suc j))
      = Some (concat (map (T prk info) [1..<Suc (L div 32)]), T prk info (L div 32),
              of_nat (Suc (L div 32)), c') \<and> usable c'"
  using assms
proof (induction fuel arbitrary: c j)
  case (Suc fuel)
  let ?okm = "concat (map (T prk info) [1..<Suc j])"
  have l: "length ?okm = 32 * j" by (rule hkdf_blocks_length)
  show ?case
  proof (cases "j = L div 32")
    case True
    then have "\<not> length ?okm + output_size alg \<le> L" using l sizes by simp
    then show ?thesis using True Suc.prems(1) by simp
  next
    case False
    then have j: "Suc j \<le> L div 32" using Suc.prems(3) by simp
    then have "32 * Suc j \<le> L" by simp
    then have fit: "length ?okm + output_size alg \<le> L" using l sizes by simp
    obtain c1 where c1: "hkdf_block alg c prk (T prk info j) info (of_nat (Suc j))
        = Some (T prk info (Suc j), c1)" "usable c1"
      using hkdf_block_ok [OF Suc.prems(1,2)] by fastforce
    have next_okm: "?okm @ T prk info (Suc j) = concat (map (T prk info) [1..<Suc (Suc j)])"
      by simp
    have next_i: "of_nat (Suc j) + 1 = (of_nat (Suc (Suc j)) :: u8)"
      by simp
    have step: "hkdf_loop (Suc fuel) alg c prk info L ?okm (T prk info j) (of_nat (Suc j))
        = hkdf_loop fuel alg c1 prk info L (concat (map (T prk info) [1..<Suc (Suc j)]))
            (T prk info (Suc j)) (of_nat (Suc (Suc j)))"
      using fit c1(1) unfolding next_okm [symmetric] next_i [symmetric]
      by (simp del: hkdf_T.simps of_nat_Suc)
    show ?thesis
      unfolding step using Suc.IH [OF c1(2) Suc.prems(2) j] Suc.prems(4) False j by simp
  qed
qed simp

lemma hkdf_expand_ok:
  assumes "usable c" and "length prk = 32" and "L \<le> 255 * 32"
  shows "\<exists>c'. hkdf_expand alg c prk info L
      = Some (take L (concat (map (T prk info) [1..<Suc ((L + 32 - 1) div 32)])), c') \<and> usable c'"
proof (cases "L = 0")
  case True
  then show ?thesis using assms(1) by (simp add: hkdf_expand_def)
next
  case False
  let ?n = "L div 32"
  let ?okm = "concat (map (T prk info) [1..<Suc ?n])"
  have n: "?n \<le> 255" using assms(3) div_le_mono [of L "255 * 32" 32] by simp
  obtain c1 where loop: "hkdf_loop 256 alg c prk info L [] [] 1
      = Some (?okm, T prk info ?n, of_nat (Suc ?n), c1)" "usable c1"
    using hkdf_loop_ok [OF assms(1,2), of 0 L 256 info] n by auto
  have l: "length ?okm = 32 * ?n" by (rule hkdf_blocks_length)
  have md: "L = 32 * ?n + L mod 32" "L mod 32 < 32" by simp_all
  show ?thesis
  proof (cases "L mod 32 = 0")
    case True
    then have eq: "32 * ?n = L" using md(1) by simp
    then have "(L + 32 - 1) div 32 = ?n" using False by (intro div_nat_eqI) simp_all
    moreover have "take L ?okm = ?okm" using l eq by simp
    ultimately show ?thesis
      using loop l eq False assms(3) sizes by (simp add: hkdf_expand_def)
  next
    case rest: False
    have pos: "0 < L mod 32" using rest by simp
    have "(L + 32 - 1) div 32 = Suc ?n" by (rule ceil_div_32 [OF md(1) pos md(2)])
    moreover obtain c2 where blk: "hkdf_block alg c1 prk (T prk info ?n) info (of_nat (Suc ?n))
        = Some (T prk info (Suc ?n), c2)" "usable c2"
      using hkdf_block_ok [OF loop(2) assms(2)] by fastforce
    moreover have "take L (concat (map (T prk info) [1..<Suc (Suc ?n)]))
        = ?okm @ take (L - 32 * ?n) (T prk info (Suc ?n))"
      using l md by simp
    moreover have "length ?okm < L" "L - length ?okm < output_size alg"
      using l md rest sizes by linarith+
    ultimately show ?thesis
      using loop l False assms(3) sizes
      by (simp add: hkdf_expand_def del: hkdf_T.simps upt_Suc of_nat_Suc)
  qed
qed

lemma hkdf_ok:
  assumes "usable c" and "L \<le> 255 * 32"
  shows "\<exists>c'. hkdf alg c salt ikm info L
      = Some (hkdf_spec (hmac_spec H 64) 32 salt ikm info L, c') \<and> usable c'"
proof -
  obtain c1 where c1: "hkdf_extract alg c salt ikm = Some (hmac_spec H 64 salt ikm, c1)" "usable c1"
    using hkdf_extract_ok [OF assms(1)] by blast
  obtain c2 where c2: "hkdf_expand alg c1 (hmac_spec H 64 salt ikm) info L
      = Some (hkdf_spec (hmac_spec H 64) 32 salt ikm info L, c2)" "usable c2"
    using hkdf_expand_ok [OF c1(2) length_hmac_spec assms(2), of salt ikm info]
    unfolding hkdf_spec_def by blast
  show ?thesis
    using c1(1) c2 assms(2) sizes by (simp add: hkdf_def)
qed

end

interpretation sha256_mac: hash_algorithm_64_32 hash_alg_sha256 sha256_usable absorbed sha256_spec
  by unfold_locales (simp_all add: hash_alg_sha256_def)

section \<open>Properties\<close>

text \<open>
  HMAC-SHA-256. For every key (short, block-sized or longer than a block) and every message in
  any number of pieces, \<open>hmac_init\<close>, \<open>hmac_update\<close> and \<open>hmac_final\<close> compute the HMAC of RFC 2104
  over SHA-256, and the single hash context they share is left usable.
\<close>

theorem hmac_sha256_correct:
  assumes "length (data c) = 64"
  shows "\<exists>ctx c'. hmac_init hash_alg_sha256 c key = Some ctx
    \<and> hmac_final hash_alg_sha256 (fold (\<lambda>d x. hmac_update hash_alg_sha256 x d) ds ctx)
        = (hmac_spec sha256_spec 64 key (concat ds), c')
    \<and> length (data c') = 64"
proof -
  obtain ctx where ctx: "hmac_init hash_alg_sha256 c key = Some ctx"
      "sha256_mac.hmac_absorbed ctx key []"
    using sha256_mac.hmac_init_ok [of c key] assms by (auto simp: sha256_usable_def)
  have "sha256_mac.hmac_absorbed (fold (\<lambda>d x. hmac_update hash_alg_sha256 x d) ds x) key (m @ concat ds)"
    if "sha256_mac.hmac_absorbed x key m" for x m
    using that
  proof (induction ds arbitrary: x m)
    case (Cons d ds)
    from Cons.IH [OF sha256_mac.hmac_update_ok [OF Cons.prems, of d]] show ?case by simp
  qed simp
  from sha256_mac.hmac_final_ok [OF this [OF ctx(2)]] show ?thesis
    using ctx(1) by (auto simp: sha256_usable_def)
qed

definition fresh_sha256_ctx :: sha256_ctx where
  "fresh_sha256_ctx = \<lparr>data = zeros 64, data_length = 0, bit_length = 0, state = []\<rparr>"

theorem hmac_sha256_correct_witness:
  "\<exists>ctx. hmac_init hash_alg_sha256 fresh_sha256_ctx (replicate 100 1) = Some ctx
     \<and> fst (hmac_final hash_alg_sha256 (hmac_update hash_alg_sha256 ctx [5]))
       = hmac_spec sha256_spec 64 (replicate 100 1) [5]"
  using hmac_sha256_correct [of fresh_sha256_ctx "replicate 100 1" "[[5]]"]
  by (fastforce simp: fresh_sha256_ctx_def)

text \<open>
  C11: HKDF-SHA-256. For every salt, input keying material and info and every length up to
  255 * 32 bytes, \<open>hkdf\<close> returns the output keying material of RFC 5869: the first \<open>L\<close> bytes of
  T(1) | T(2) | .., with the last block truncated when \<open>L\<close> is not a multiple of 32.
\<close>

theorem hkdf_sha256_correct:
  assumes "length (data c) = 64" and "L \<le> 255 * 32"
  shows "\<exists>c'. hkdf hash_alg_sha256 c salt ikm info L
      = Some (hkdf_spec (hmac_spec sha256_spec 64) 32 salt ikm info L, c')"
  using sha256_mac.hkdf_ok [of c L salt ikm info] assms by (auto simp: sha256_usable_def)

theorem hkdf_sha256_correct_witness:
  "\<exists>c'. hkdf hash_alg_sha256 fresh_sha256_ctx [1] [2] [3] 42
      = Some (hkdf_spec (hmac_spec sha256_spec 64) 32 [1] [2] [3] 42, c')"
  using hkdf_sha256_correct [of fresh_sha256_ctx 42 "[1]" "[2]" "[3]"]
  by (simp add: fresh_sha256_ctx_def)

end
