(* ===== verification/Strings_Asn1.thy ===== *)
theory Strings_Asn1
  imports Prelude
begin

text \<open>
  Strings with a size limit (\<open>core/ctap_string.c\<close>) and the DER encoding of ECDSA signatures
  (\<open>core/ctap_asn1.c\<close>). A \<open>ctap_string_t\<close> is the byte string its pointer and size denote; the
  truncating functions write into a storage buffer, whose bounds are checked by the model.
\<close>

section \<open>Strings\<close>

definition ctap_string_matches :: "bytes \<Rightarrow> bytes \<Rightarrow> bool" where
  "ctap_string_matches a b = (if length a \<noteq> length b then False else a = b)"

text \<open>A truncating function returns whether it truncated, the buffer and the stored size.\<close>

type_synonym truncate_fn = "bytes \<Rightarrow> bytes \<Rightarrow> nat \<Rightarrow> (bool \<times> bytes \<times> nat) option"

definition ctap_maybe_truncate_string :: truncate_fn where
  "ctap_maybe_truncate_string input_str buf buf_size =
     (if length input_str \<le> buf_size then
        do { buf' \<leftarrow> memcpy_at buf 0 input_str; Some (False, buf', length input_str) }
      else do { buf' \<leftarrow> memcpy_at buf 0 (take buf_size input_str); Some (True, buf', buf_size) })"

text \<open>\<open>memchr(rp_id->data, ':', rp_id->size)\<close>: the length up to and including the colon.\<close>

definition protocol_length :: "bytes \<Rightarrow> nat option" where
  "protocol_length s =
     (if 0x3A \<in> set s then Some (length (takeWhile (\<lambda>c. c \<noteq> 0x3A) s) + 1) else None)"

definition ctap_maybe_truncate_rp_id :: truncate_fn where
  "ctap_maybe_truncate_rp_id rp_id buf buf_size =
     require (buf_size \<ge> 32) (
       if length rp_id \<le> buf_size then
         do { buf' \<leftarrow> memcpy_at buf 0 rp_id; Some (False, buf', length rp_id) }
       else
         do { (buf1, used) \<leftarrow>
                (case protocol_length rp_id of
                   None \<Rightarrow> Some (buf, 0)
                 | Some protocol_len \<Rightarrow>
                     let to_copy = (if protocol_len \<le> buf_size then protocol_len else buf_size) in
                     do { b \<leftarrow> memcpy_at buf 0 (take to_copy rp_id); Some (b, to_copy) });
              if buf_size - used < 3 then Some (True, buf1, used)
              else do {
                buf2 \<leftarrow> memcpy_at buf1 used [0xe2, 0x80, 0xa6];
                let to_copy = buf_size - (used + 3);
                buf3 \<leftarrow> require (to_copy \<le> length rp_id)
                  (memcpy_at buf2 (used + 3) (drop (length rp_id - to_copy) rp_id));
                Some (True, buf3, buf_size) } })"

text \<open>The stored string, and whether it was truncated.\<close>

definition ctap_store_arbitrary_length_string ::
    "bytes \<Rightarrow> bytes \<Rightarrow> nat \<Rightarrow> truncate_fn \<Rightarrow> (bool \<times> bytes) option" where
  "ctap_store_arbitrary_length_string input_str buf buf_size truncate_fn =
     do { (was_truncated, buf', stored) \<leftarrow> truncate_fn input_str buf buf_size;
          require (stored \<le> buf_size) (require (stored \<le> length input_str)
            (Some (was_truncated, take stored buf'))) }"

text \<open>
  Truncation of relying party identifiers (CTAP 2.1, 6.8.7): a protocol prefix is preserved, the
  rest is an ellipsis (U+2026 in UTF-8) and the end of the identifier.
\<close>

definition rp_id_protocol :: "bytes \<Rightarrow> bytes" where
  "rp_id_protocol s =
     (if 0x3A \<in> set s then takeWhile (\<lambda>c. c \<noteq> 0x3A) s @ [0x3A] else [])"

definition truncated_rp_id :: "nat \<Rightarrow> bytes \<Rightarrow> bytes" where
  "truncated_rp_id n s =
     (let p = take n (rp_id_protocol s) in
      if n - length p < 3 then p
      else p @ [0xe2, 0x80, 0xa6] @ drop (length s - (n - length p - 3)) s)"

lemma rp_id_protocol_prefix:
  "case protocol_length s of None \<Rightarrow> rp_id_protocol s = []
   | Some k \<Rightarrow> k \<le> length s \<and> take k s = rp_id_protocol s \<and> length (rp_id_protocol s) = k"
proof (cases "0x3A \<in> set s")
  case True
  then obtain xs ys where s: "s = xs @ 0x3A # ys" "0x3A \<notin> set xs"
    by (meson split_list_first)
  then have "takeWhile (\<lambda>c. c \<noteq> 0x3A) s = xs"
    by (induction xs arbitrary: s) auto
  then show ?thesis
    using s True by (simp add: protocol_length_def rp_id_protocol_def)
next
  case False
  then show ?thesis by (simp add: protocol_length_def rp_id_protocol_def)
qed

lemma truncate_rp_id_long:
  assumes "32 \<le> n" and "n \<le> length buf" and "n < length s"
  shows "\<exists>buf'. ctap_maybe_truncate_rp_id s buf n
      = Some (True, buf', length (truncated_rp_id n s))
    \<and> take (length (truncated_rp_id n s)) buf' = truncated_rp_id n s
    \<and> length (truncated_rp_id n s) \<le> n"
proof -
  define p where "p = take n (rp_id_protocol s)"
  have lp: "length p \<le> n" by (simp add: p_def)
  obtain buf1 where buf1: "(case protocol_length s of
                   None \<Rightarrow> Some (buf, 0)
                 | Some k \<Rightarrow>
                     let to_copy = (if k \<le> n then k else n) in
                     do { b \<leftarrow> memcpy_at buf 0 (take to_copy s); Some (b, to_copy) })
      = Some (buf1, length p)" "take (length p) buf1 = p" "length buf1 = length buf"
  proof (cases "protocol_length s")
    case None
    then have "p = []" using rp_id_protocol_prefix [of s] by (simp add: p_def)
    then show ?thesis using None that by simp
  next
    case (Some k)
    then have k: "k \<le> length s" "take k s = rp_id_protocol s" "length (rp_id_protocol s) = k"
      using rp_id_protocol_prefix [of s] by simp_all
    have tk: "take (if k \<le> n then k else n) s = p" "length p = (if k \<le> n then k else n)"
      using k by (auto simp: p_def min_def take_take simp flip: k(2))
    have "memcpy_at buf 0 p = Some (p @ drop (length p) buf)"
      using lp assms(2) by (simp add: memcpy_at_def)
    then show ?thesis
      using Some that [of "p @ drop (length p) buf"] tk lp assms(2) by (simp add: Let_def)
  qed
  show ?thesis
  proof (cases "n - length p < 3")
    case True
    then have "truncated_rp_id n s = p" by (simp add: truncated_rp_id_def p_def)
    then show ?thesis
      using True buf1 assms lp by (simp add: ctap_maybe_truncate_rp_id_def)
  next
    case False
    let ?t = "n - (length p + 3)"
    let ?b2 = "p @ [0xe2, 0x80, 0xa6] @ drop (length p + 3) buf1"
    let ?tail = "drop (length s - ?t) s"
    have l3: "length [0xe2, 0x80, 0xa6 :: u8] = 3" by simp
    have s2: "memcpy_at buf1 (length p) [0xe2, 0x80, 0xa6] = Some ?b2"
      unfolding memcpy_at_def l3 using buf1(2,3) lp False assms(2) by simp
    have tl: "length ?tail = ?t" using assms(3) by simp
    have "memcpy_at ((p @ [0xe2, 0x80, 0xa6]) @ drop (length p + 3) buf1) (length p + 3) ?tail
        = Some ((p @ [0xe2, 0x80, 0xa6]) @ ?tail @ drop ?t (drop (length p + 3) buf1))"
      using tl buf1(3) lp False assms(2) by (subst memcpy_at_append) simp_all
    moreover have "drop ?t (drop (length p + 3) buf1) = drop n buf1"
      using lp False by simp
    ultimately have "memcpy_at ?b2 (length p + 3) ?tail
        = Some (p @ [0xe2, 0x80, 0xa6] @ ?tail @ drop n buf1)"
      by simp
    then have s3: "memcpy_at ?b2 (length p + 3) ?tail
        = Some (p @ [0xe2, 0x80, 0xa6] @ ?tail @ drop n buf1)" .
    have tr: "truncated_rp_id n s = p @ [0xe2, 0x80, 0xa6] @ ?tail"
      using False by (simp add: truncated_rp_id_def p_def Let_def)
    have ln: "length (truncated_rp_id n s) = n" unfolding tr using tl False by simp
    have tk: "take n (p @ [0xe2, 0x80, 0xa6] @ ?tail @ drop n buf1) = truncated_rp_id n s"
    proof -
      have "take n (truncated_rp_id n s @ drop n buf1) = truncated_rp_id n s" using ln by simp
      then show ?thesis unfolding tr by (simp only: append_assoc)
    qed
    have fits: "?t \<le> length s" using assms(3) by simp
    have g1: "(32 \<le> n) = True" "(length s \<le> n) = False" "(n - length p < 3) = False"
        "(n - (length p + 3) \<le> length s) = True"
      using assms(1,3) False by simp_all
    have "ctap_maybe_truncate_rp_id s buf n
        = Some (True, p @ [0xe2, 0x80, 0xa6] @ ?tail @ drop n buf1, n)"
      by (simp only: ctap_maybe_truncate_rp_id_def buf1(1) bind.simps prod.case g1 if_False
          if_True require_True option.case s2 Let_def [of "n - (length p + 3)"] s3)
    then show ?thesis using ln tk by simp
  qed
qed

section \<open>ASN.1\<close>

text \<open>
  The three steps of the code for one of the two integers: the padding byte, the number of
  leading zeros to skip, and the content bytes.
\<close>

definition asn1_pad :: "bytes \<Rightarrow> nat" where
  "asn1_pad r = (if r ! 0 AND 0x80 \<noteq> 0 then 1 else 0)"

definition asn1_leading_zeros :: "bytes \<Rightarrow> nat" where
  "asn1_leading_zeros r =
     (let z = length (takeWhile (\<lambda>b. b = 0) (take 32 r)) in
      if (z > 0 \<and> z < 32 \<and> r ! z AND 0x80 \<noteq> 0) \<or> z = 32 then z - 1 else z)"

definition asn1_integer :: "bytes \<Rightarrow> bytes" where
  "asn1_integer r =
     (let z = asn1_leading_zeros r; pad = asn1_pad r; len = 32 - z + pad in
      [0x02, of_nat len] @ (if pad = 1 then [0] else []) @ take (32 - z) (drop z r))"

definition ctap_convert_to_asn1_der_ecdsa_sig_value :: "bytes \<Rightarrow> (bytes \<times> nat) option" where
  "ctap_convert_to_asn1_der_ecdsa_sig_value signature =
     (let r = take 32 signature; s = take 32 (drop 32 signature);
          r_len = 32 - asn1_leading_zeros r + asn1_pad r;
          s_len = 32 - asn1_leading_zeros s + asn1_pad s;
          seq_len = 2 + r_len + 2 + s_len;
          out = [0x30, of_nat seq_len] @ asn1_integer r @ asn1_integer s in
      require (seq_len < 128) (require (length out = 2 + seq_len) (Some (out, 2 + seq_len))))"

text \<open>The content octets of a DER INTEGER that is not negative: shortest form, sign bit clear.\<close>

definition der_positive :: "bytes \<Rightarrow> bool" where
  "der_positive bs \<longleftrightarrow>
     bs \<noteq> [] \<and> \<not> bit (hd bs) 7 \<and> (1 < length bs \<and> hd bs = 0 \<longrightarrow> bit (bs ! 1) 7)"

definition der_integer :: "bytes \<Rightarrow> bytes" where
  "der_integer content = [0x02, of_nat (length content)] @ content"

lemma takeWhile_zeros:
  "takeWhile (\<lambda>b. b = 0) r = zeros (length (takeWhile (\<lambda>b. b = 0) (r :: bytes)))"
  by (induction r) (simp_all add: zeros_Suc)

lemma asn1_integer_ok:
  assumes "length r = 32"
  shows "\<exists>c. asn1_integer r = der_integer c \<and> der_positive c \<and> be_nat c = be_nat r
    \<and> length c = 32 - asn1_leading_zeros r + asn1_pad r \<and> length c \<le> 33"
proof -
  define z where "z = length (takeWhile (\<lambda>b. b = 0) r)"
  define rest where "rest = dropWhile (\<lambda>b. b = 0) r"
  have r: "r = zeros z @ rest" "z + length rest = 32"
    using takeWhile_zeros [of r] takeWhile_dropWhile_id [of "\<lambda>b. b = 0" r] assms
    unfolding z_def rest_def by (metis, metis length_append length_zeros)
  have val: "be_nat r = be_nat rest"
    unfolding r(1) by (simp add: be_nat_append)
  have lz: "asn1_leading_zeros r =
      (if (z > 0 \<and> z < 32 \<and> bit (r ! z) 7) \<or> z = 32 then z - 1 else z)"
    using assms bit7_iff [of "r ! z"] by (simp add: asn1_leading_zeros_def z_def Let_def)
  show ?thesis
  proof (cases rest)
    case Nil
    then have "z = 32" using r(2) by simp
    then have "r = zeros 31 @ [0]" using r(1) Nil zeros_Suc [of 31]
      by (simp add: zeros_def replicate_append_same [symmetric])
    moreover have "asn1_pad r = 0" using \<open>r = zeros 31 @ [0]\<close>
      by (simp add: asn1_pad_def zeros_def nth_append)
    ultimately show ?thesis
      using lz \<open>z = 32\<close> val Nil
      by (intro exI [of _ "[0]"]) (simp add: asn1_integer_def der_integer_def der_positive_def)
  next
    case (Cons b bs)
    have b: "b \<noteq> 0" using Cons hd_dropWhile [of "\<lambda>b. b = 0" r] by (simp add: rest_def)
    have zl: "z < 32" "length bs = 31 - z" using r(2) Cons by simp_all
    have rz: "r ! z = b" using r(1) Cons by (simp add: nth_append)
    show ?thesis
    proof (cases "z = 0")
      case True
      then have "r = b # bs" "r ! 0 = b" using r(1) Cons rz by simp_all
      then show ?thesis
        using True lz zl b val Cons bit7_iff [of b]
        by (intro exI [of _ "(if bit b 7 then [0] else []) @ r"])
          (auto simp: asn1_integer_def der_integer_def der_positive_def asn1_pad_def)
    next
      case False
      then have "r ! 0 = 0" using r(1) by (simp add: nth_append zeros_def)
      then have pad: "asn1_pad r = 0" by (simp add: asn1_pad_def)
      have dz: "drop z r = rest" using r(1) by simp
      have dz1: "drop (z - 1) r = 0 # rest"
      proof -
        obtain y where y: "z = Suc y" using False by (cases z) auto
        have "zeros z = zeros y @ [0]"
          unfolding y by (simp add: zeros_def replicate_append_same)
        then show ?thesis using r(1) y by simp
      qed
      show ?thesis
      proof (cases "bit b 7")
        case True
        then have "asn1_leading_zeros r = z - 1" using lz zl False rz by simp
        then show ?thesis
          using pad dz1 val Cons zl True False r(2)
          by (intro exI [of _ "0 # rest"])
            (auto simp: asn1_integer_def der_integer_def der_positive_def)
      next
        case nb: False
        then have "asn1_leading_zeros r = z" using lz zl rz by simp
        then show ?thesis
          using pad dz val Cons zl nb b r(2)
          by (intro exI [of _ rest]) (auto simp: asn1_integer_def der_integer_def der_positive_def)
      qed
    qed
  qed
qed

section \<open>Properties\<close>

text \<open>
  Truncation of relying party identifiers. Into any buffer of at least 32 bytes,
  \<open>ctap_store_arbitrary_length_string\<close> with \<open>ctap_maybe_truncate_rp_id\<close> stores an identifier that
  fits unchanged, and of a longer one exactly the protocol prefix, an ellipsis and as much of its
  end as fits (only the prefix when fewer than three bytes remain), never reading or writing
  outside the identifier and the buffer, and its assertions hold.
\<close>

theorem rp_id_truncation:
  assumes "32 \<le> n" and "n \<le> length buf"
  shows "ctap_store_arbitrary_length_string s buf n ctap_maybe_truncate_rp_id
       = Some (if length s \<le> n then (False, s) else (True, truncated_rp_id n s))"
proof (cases "length s \<le> n")
  case True
  then have "memcpy_at buf 0 s = Some (s @ drop (length s) buf)"
    using assms by (simp add: memcpy_at_def)
  then show ?thesis
    using True assms
    by (simp add: ctap_store_arbitrary_length_string_def ctap_maybe_truncate_rp_id_def)
next
  case False
  then obtain buf' where "ctap_maybe_truncate_rp_id s buf n
      = Some (True, buf', length (truncated_rp_id n s))"
    "take (length (truncated_rp_id n s)) buf' = truncated_rp_id n s"
    "length (truncated_rp_id n s) \<le> n"
    using truncate_rp_id_long [OF assms] by force
  then show ?thesis
    using False by (simp add: ctap_store_arbitrary_length_string_def)
qed

theorem rp_id_truncation_witness:
  "ctap_store_arbitrary_length_string ([0x61, 0x3A] @ replicate 40 0x62) (zeros 32) 32
     ctap_maybe_truncate_rp_id
   = Some (True, [0x61, 0x3A, 0xe2, 0x80, 0xa6] @ replicate 27 0x62)"
  using rp_id_truncation [of 32 "zeros 32" "[0x61, 0x3A] @ replicate 40 0x62"]
  by (simp add: truncated_rp_id_def rp_id_protocol_def drop_Cons')

text \<open>
  The DER encoding of an ES256 signature. For every 64-byte signature the output is a SEQUENCE
  of two INTEGERs in their shortest form, positive, with the values of the two halves; it is at
  most 72 bytes long, its length byte is right and the assertions hold.
\<close>

theorem der_signature_correct:
  assumes "length sig = 64"
  shows "\<exists>cr cs. ctap_convert_to_asn1_der_ecdsa_sig_value sig
      = Some ([0x30, of_nat (length (der_integer cr @ der_integer cs))]
               @ der_integer cr @ der_integer cs,
              length (der_integer cr @ der_integer cs) + 2)
    \<and> der_positive cr \<and> be_nat cr = be_nat (take 32 sig)
    \<and> der_positive cs \<and> be_nat cs = be_nat (drop 32 sig)
    \<and> length (der_integer cr @ der_integer cs) + 2 \<le> 72"
proof -
  let ?r = "take 32 sig" and ?s = "take 32 (drop 32 sig)"
  obtain cr where cr: "asn1_integer ?r = der_integer cr" "der_positive cr" "be_nat cr = be_nat ?r"
      "length cr = 32 - asn1_leading_zeros ?r + asn1_pad ?r" "length cr \<le> 33"
    using asn1_integer_ok [of ?r] assms by auto
  obtain cs where cs: "asn1_integer ?s = der_integer cs" "der_positive cs" "be_nat cs = be_nat ?s"
      "length cs = 32 - asn1_leading_zeros ?s + asn1_pad ?s" "length cs \<le> 33"
    using asn1_integer_ok [of ?s] assms by auto
  have s: "?s = drop 32 sig" using assms by simp
  have "ctap_convert_to_asn1_der_ecdsa_sig_value sig
      = Some ([0x30, of_nat (4 + length cr + length cs)] @ der_integer cr @ der_integer cs,
              6 + length cr + length cs)"
    using cr cs
    by (simp add: ctap_convert_to_asn1_der_ecdsa_sig_value_def Let_def der_integer_def add.assoc)
  then show ?thesis
    using cr cs unfolding s by (intro exI [of _ cr] exI [of _ cs]) (simp add: der_integer_def)
qed

theorem der_signature_correct_witness:
  "\<exists>out n. ctap_convert_to_asn1_der_ecdsa_sig_value (replicate 64 0xFF) = Some (out, n) \<and> n \<le> 72"
  using der_signature_correct [of "replicate 64 0xFF"] by force

end
