(* ===== verification/Ctap_State.thy ===== *)
theory Ctap_State
  imports Storage Sha256 Hmac_Hkdf
begin

text \<open>
  The data of the CTAP layer: status codes, the cryptographic interface (\<open>core/ctap_crypto.h\<close>),
  the PIN/UV auth protocol structure (\<open>core/ctap_pin_protocol.h\<close>), the pinUvAuthToken state
  (\<open>core/ctap_pin_uv_auth_token_state.h\<close>), and the state of the authenticator (\<open>core/ctap.h\<close>).
  The cryptographic functions and the storage are reached through pointers in the code and are
  parameters here: records of functions.
\<close>

section \<open>Status codes\<close>

abbreviation (input) CTAP2_OK :: u8 where "CTAP2_OK \<equiv> 0x00"
abbreviation (input) CTAP1_ERR_INVALID_COMMAND :: u8 where "CTAP1_ERR_INVALID_COMMAND \<equiv> 0x01"
abbreviation (input) CTAP1_ERR_INVALID_PARAMETER :: u8 where "CTAP1_ERR_INVALID_PARAMETER \<equiv> 0x02"
abbreviation (input) CTAP2_ERR_CBOR_UNEXPECTED_TYPE :: u8 where
  "CTAP2_ERR_CBOR_UNEXPECTED_TYPE \<equiv> 0x11"
abbreviation (input) CTAP2_ERR_INVALID_CBOR :: u8 where "CTAP2_ERR_INVALID_CBOR \<equiv> 0x12"
abbreviation (input) CTAP2_ERR_MISSING_PARAMETER :: u8 where "CTAP2_ERR_MISSING_PARAMETER \<equiv> 0x14"
abbreviation (input) CTAP2_ERR_UNSUPPORTED_ALGORITHM :: u8 where
  "CTAP2_ERR_UNSUPPORTED_ALGORITHM \<equiv> 0x26"
abbreviation (input) CTAP2_ERR_OPERATION_DENIED :: u8 where "CTAP2_ERR_OPERATION_DENIED \<equiv> 0x27"
abbreviation (input) CTAP2_ERR_KEEPALIVE_CANCEL :: u8 where "CTAP2_ERR_KEEPALIVE_CANCEL \<equiv> 0x2D"
abbreviation (input) CTAP2_ERR_USER_ACTION_TIMEOUT :: u8 where
  "CTAP2_ERR_USER_ACTION_TIMEOUT \<equiv> 0x2F"
abbreviation (input) CTAP2_ERR_NOT_ALLOWED :: u8 where "CTAP2_ERR_NOT_ALLOWED \<equiv> 0x30"
abbreviation (input) CTAP2_ERR_PIN_INVALID :: u8 where "CTAP2_ERR_PIN_INVALID \<equiv> 0x31"
abbreviation (input) CTAP2_ERR_PIN_BLOCKED :: u8 where "CTAP2_ERR_PIN_BLOCKED \<equiv> 0x32"
abbreviation (input) CTAP2_ERR_PIN_AUTH_INVALID :: u8 where "CTAP2_ERR_PIN_AUTH_INVALID \<equiv> 0x33"
abbreviation (input) CTAP2_ERR_PIN_AUTH_BLOCKED :: u8 where "CTAP2_ERR_PIN_AUTH_BLOCKED \<equiv> 0x34"
abbreviation (input) CTAP2_ERR_PIN_NOT_SET :: u8 where "CTAP2_ERR_PIN_NOT_SET \<equiv> 0x35"
abbreviation (input) CTAP2_ERR_PIN_POLICY_VIOLATION :: u8 where
  "CTAP2_ERR_PIN_POLICY_VIOLATION \<equiv> 0x37"
abbreviation (input) CTAP2_ERR_INVALID_SUBCOMMAND :: u8 where "CTAP2_ERR_INVALID_SUBCOMMAND \<equiv> 0x3E"
abbreviation (input) CTAP2_ERR_UNAUTHORIZED_PERMISSION :: u8 where
  "CTAP2_ERR_UNAUTHORIZED_PERMISSION \<equiv> 0x40"
abbreviation (input) CTAP1_ERR_OTHER :: u8 where "CTAP1_ERR_OTHER \<equiv> 0x7F"

text \<open>The macros on sets of parameters (\<open>core/ctap_parse.h\<close>).\<close>

definition ctap_param_to_mask :: "nat \<Rightarrow> u32" where
  "ctap_param_to_mask number = push_bit number 1"

definition ctap_is_present :: "u32 \<Rightarrow> u32 \<Rightarrow> bool" where
  "ctap_is_present present m \<longleftrightarrow> present AND m = m"

definition ctap_is_present_some :: "u32 \<Rightarrow> u32 \<Rightarrow> bool" where
  "ctap_is_present_some present m \<longleftrightarrow> present AND m \<noteq> 0"

lemma and_push_bit_1_eq:
  fixes p :: u32
  shows "p AND push_bit n 1 = (if bit p n then push_bit n 1 else 0)"
  by (rule bit_word_eqI) (auto simp: bit_simps)

lemma push_bit_1_nonzero:
  assumes "n < 32"
  shows "push_bit n (1 :: u32) \<noteq> 0"
proof
  assume "push_bit n (1 :: u32) = 0"
  then have "bit (push_bit n (1 :: u32)) n = bit (0 :: u32) n" by (rule arg_cong)
  with assms show False by (simp add: bit_simps)
qed

lemma ctap_is_present_bit [simp]:
  "n < 32 \<Longrightarrow> ctap_is_present p (ctap_param_to_mask n) \<longleftrightarrow> bit p n"
  unfolding ctap_is_present_def ctap_param_to_mask_def and_push_bit_1_eq
  using push_bit_1_nonzero [of n] by simp

lemma ctap_is_present_some_bit [simp]:
  "n < 32 \<Longrightarrow> ctap_is_present_some p (ctap_param_to_mask n) \<longleftrightarrow> bit p n"
  unfolding ctap_is_present_some_def ctap_param_to_mask_def and_push_bit_1_eq
  using push_bit_1_nonzero [of n] by simp

lemma ctap_is_present_or:
  "ctap_is_present p (a OR b) \<longleftrightarrow> ctap_is_present p a \<and> ctap_is_present p b"
proof -
  have "p AND m = m \<longleftrightarrow> (\<forall>i<32. bit m i \<longrightarrow> bit p i)" for m :: u32
    by (auto simp: bit_eq_iff [where 'a = u32] bit_simps)
  then show ?thesis by (auto simp: ctap_is_present_def bit_simps)
qed

lemma ctap_is_present_some_or:
  "ctap_is_present_some p (a OR b) \<longleftrightarrow> ctap_is_present_some p a \<or> ctap_is_present_some p b"
proof -
  have "p AND m \<noteq> 0 \<longleftrightarrow> (\<exists>i<32. bit m i \<and> bit p i)" for m :: u32
    by (auto simp: bit_eq_iff [where 'a = u32] bit_simps)
  then show ?thesis by (auto simp: ctap_is_present_some_def bit_simps)
qed

section \<open>The cryptographic interface\<close>

text \<open>
  \<open>ctap_crypto_t\<close>. The state of the random number generator, which the cryptographic context
  keeps, is a position: every function that may draw random data takes the position and returns
  the next one. Functions that write into a structure the caller keeps return the status and the
  bytes written; the others return \<open>None\<close> for \<open>CTAP_CRYPTO_ERROR\<close>. \<open>sha256_bound_ctx\<close> is the
  context memory after \<open>sha256_bind_ctx\<close>.
\<close>

record 'h ctap_crypto =
  rng_generate_data :: "nat \<Rightarrow> nat \<Rightarrow> bool \<times> bytes \<times> nat"
  ecc_secp256r1_compute_public_key :: "nat \<Rightarrow> bytes \<Rightarrow> bool \<times> bytes \<times> nat"
  ecc_secp256r1_sign :: "nat \<Rightarrow> bytes \<Rightarrow> bytes \<Rightarrow> bytes option \<Rightarrow> bytes option \<times> nat"
  ecc_secp256r1_shared_secret :: "nat \<Rightarrow> bytes \<Rightarrow> bytes \<Rightarrow> bytes option \<times> nat"
  aes_256_cbc_encrypt :: "bytes \<Rightarrow> bytes \<Rightarrow> bytes \<Rightarrow> bytes option"
  aes_256_cbc_decrypt :: "bytes \<Rightarrow> bytes \<Rightarrow> bytes \<Rightarrow> bytes option"
  sha256_compute_digest :: "bytes \<Rightarrow> bytes option"
  sha256_bound_ctx :: 'h
  crypto_sha256 :: "'h hash_alg"

text \<open>
  A key in COSE form (\<open>core/cose.h\<close>); \<open>int\<close> values of the target are 32 bits wide.
\<close>

record COSE_Key =
  cose_present :: u32
  key_kty :: int
  key_alg :: int
  key_crv :: int
  pubkey_x :: bytes
  pubkey_y :: bytes

section \<open>The response encoder\<close>

text \<open>
  The calls of the TinyCBOR encoder as a list of operations. TinyCBOR is not part of the
  repository: whether an operation succeeds after the ones before it is the parameter
  \<open>enc_ok\<close> (it fails when the response buffer is full). The macro \<open>cbor_encoding_check\<close> turns
  a failure into \<open>CTAP1_ERR_OTHER\<close>.
\<close>

datatype cbor_op =
    Create_Map nat | Create_Array nat | Close_Container
  | Encode_Int int | Encode_Bytes bytes | Encode_Text bytes | Encode_Boolean bool

type_synonym encoder = "cbor_op list"
type_synonym enc_ok = "cbor_op list \<Rightarrow> bool"

fun cbor_encode :: "enc_ok \<Rightarrow> encoder \<Rightarrow> cbor_op list \<Rightarrow> u8 \<times> encoder" where
  "cbor_encode enc_ok encoder [] = (CTAP2_OK, encoder)"
| "cbor_encode enc_ok encoder (op # ops) =
     (if enc_ok (encoder @ [op]) then cbor_encode enc_ok (encoder @ [op]) ops
      else (CTAP1_ERR_OTHER, encoder))"

lemma cbor_encode_OK: "cbor_encode enc_ok e ops = (s, e') \<Longrightarrow> s = CTAP2_OK \<Longrightarrow> e' = e @ ops"
proof (induction ops arbitrary: e)
  case (Cons op ops)
  from Cons.prems Cons.IH [of "e @ [op]"] show ?case by (simp split: if_splits)
qed simp

lemma cbor_encode_status: "fst (cbor_encode enc_ok e ops) \<in> {CTAP2_OK, CTAP1_ERR_OTHER}"
  by (induction ops arbitrary: e) auto

section \<open>PIN/UV auth protocols\<close>

text \<open>
  \<open>ctap_pin_protocol_t\<close>: the keys, the constants and the function pointers that differ between
  the two protocols. A function that writes into a buffer of its caller takes the size of that
  buffer; the outer \<open>None\<close> is a failed assertion or an access out of bounds, the inner \<open>None\<close> the
  return value 1.
\<close>

record 'h ctap_pin_protocol =
  pin_uv_auth_token :: bytes
  key_agreement_public_key :: bytes
  key_agreement_private_key :: bytes
  version :: nat
  shared_secret_length :: nat
  encryption_extra_length :: nat
  protocol_kdf :: "'h ctap_crypto \<Rightarrow> bytes \<Rightarrow> bytes option option"
  protocol_encrypt :: "'h ctap_crypto \<Rightarrow> nat \<Rightarrow> bytes \<Rightarrow> bytes \<Rightarrow> nat \<Rightarrow> (bytes option \<times> nat) option"
  protocol_decrypt :: "'h ctap_crypto \<Rightarrow> bytes \<Rightarrow> bytes \<Rightarrow> nat \<Rightarrow> bytes option option"
  verify_init_with_shared_secret :: "'h ctap_crypto \<Rightarrow> nat \<Rightarrow> bytes \<Rightarrow> 'h hmac_ctx option"
  verify_final :: "'h ctap_crypto \<Rightarrow> 'h hmac_ctx \<Rightarrow> bytes \<Rightarrow> bool option"

section \<open>The state\<close>

record ctap_pin_uv_auth_token_state =
  rpId_set :: bool
  rpId_hash :: bytes
  permissions :: u32
  usage_timer_start :: u32
  usage_timer_last_use :: u32
  in_use :: bool
  initial_usage_time_limit :: u32
  user_present_time_limit :: u32
  max_usage_time_period :: u32
  user_verified :: bool
  user_present :: bool

text \<open>\<open>memset(token_state, 0, sizeof(ctap_pin_uv_auth_token_state))\<close>.\<close>

definition zero_token_state :: ctap_pin_uv_auth_token_state where
  "zero_token_state = \<lparr>rpId_set = False, rpId_hash = zeros 32, permissions = 0,
     usage_timer_start = 0, usage_timer_last_use = 0, in_use = False,
     initial_usage_time_limit = 0, user_present_time_limit = 0, max_usage_time_period = 0,
     user_verified = False, user_present = False\<rparr>"

text \<open>
  A credential handle: the bytes of the credential source the pointer refers to, and the storage
  handle of its item.
\<close>

record ctap_credential_handle =
  source :: bytes
  cred_item_handle :: u32

record ctap_get_assertion_state =
  client_data_hash :: bytes
  auth_data_rp_id_hash :: bytes
  auth_data_flags :: u8
  ga_extensions :: u8
  hmac_pin_protocol :: nat
  hmac_shared_secret :: bytes
  hmac_salt :: bytes
  ga_credentials :: "ctap_credential_handle list"
  ga_next_credential_idx :: nat

record ctap_cred_mgmt_enumerate_rps_state =
  rp_ids :: "(bytes \<times> bytes) list"
  next_rp_idx :: nat

record ctap_cred_mgmt_enumerate_credentials_state =
  cm_credentials :: "ctap_credential_handle list"
  cm_next_credential_idx :: nat

datatype ctap_stateful_command =
    CTAP_STATEFUL_CMD_NONE | CTAP_STATEFUL_CMD_GET_ASSERTION
  | CTAP_STATEFUL_CMD_CRED_MGMT_ENUMERATE_RPS | CTAP_STATEFUL_CMD_CRED_MGMT_ENUMERATE_CREDENTIALS

text \<open>The union, by the member that was written last; all bytes zero after a discard.\<close>

datatype stateful_data =
    Zeroed
  | Get_Assertion ctap_get_assertion_state
  | Enumerate_Rps ctap_cred_mgmt_enumerate_rps_state
  | Enumerate_Credentials ctap_cred_mgmt_enumerate_credentials_state

record ctap_stateful_command_state =
  active_cmd :: ctap_stateful_command
  last_cmd_time :: u32
  cmd_data :: stateful_data

definition zero_stateful_state :: ctap_stateful_command_state where
  "zero_stateful_state =
     \<lparr>active_cmd = CTAP_STATEFUL_CMD_NONE, last_cmd_time = 0, cmd_data = Zeroed\<rparr>"

text \<open>The persistent PIN information, and its bytes in the storage (the structure is packed).\<close>

record ctap_pin_persistent_state =
  pin_total_remaining_attempts :: u8
  pin_min_code_point_length :: u8
  is_pin_set :: u8
  pin_code_point_length :: u8
  pin_hash :: bytes

definition pin_state_bytes :: "ctap_pin_persistent_state \<Rightarrow> bytes" where
  "pin_state_bytes p = [pin_total_remaining_attempts p, pin_min_code_point_length p, is_pin_set p,
     pin_code_point_length p] @ pin_hash p"

definition pin_state_of_bytes :: "bytes \<Rightarrow> ctap_pin_persistent_state" where
  "pin_state_of_bytes b = \<lparr>pin_total_remaining_attempts = b ! 0, pin_min_code_point_length = b ! 1,
     is_pin_set = b ! 2, pin_code_point_length = b ! 3, pin_hash = take 16 (drop 4 b)\<rparr>"

lemma pin_state_of_bytes_bytes [simp]:
  "length (pin_hash p) = 16 \<Longrightarrow> pin_state_of_bytes (pin_state_bytes p) = p"
  by (simp add: pin_state_of_bytes_def pin_state_bytes_def)

lemma pin_state_bytes_of_bytes:
  assumes "length b = 20"
  shows "pin_state_bytes (pin_state_of_bytes b) = b"
proof -
  obtain b0 b1 b2 b3 r where "b = b0 # b1 # b2 # b3 # r" "length r = 16"
    using assms by (auto simp: numeral_eq_Suc length_Suc_conv)
  then show ?thesis by (simp add: pin_state_of_bytes_def pin_state_bytes_def)
qed

text \<open>
  The authenticator. \<open>storage\<close> is the state behind the storage pointer, \<open>rng_position\<close> the state
  of the random number generator (kept by the cryptographic context in the code).
\<close>

record ('h, 's) ctap_state =
  storage :: 's
  rng_position :: nat
  pin_state :: ctap_pin_persistent_state
  pin_state_item_handle :: u32
  init_time :: u32
  current_time :: u32
  pin_protocols :: "'h ctap_pin_protocol list"
  pin_boot_remaining_attempts :: u8
  pin_uv_auth_token_state :: ctap_pin_uv_auth_token_state
  stateful_command_state :: ctap_stateful_command_state

definition ctap_is_pin_set :: "('h, 's) ctap_state \<Rightarrow> bool" where
  "ctap_is_pin_set s \<longleftrightarrow> is_pin_set (pin_state s) = 1"

definition ctap_get_pin_total_remaining_attempts :: "('h, 's) ctap_state \<Rightarrow> u8" where
  "ctap_get_pin_total_remaining_attempts s = pin_total_remaining_attempts (pin_state s)"

definition ctap_get_pin_min_code_point_length :: "('h, 's) ctap_state \<Rightarrow> u8" where
  "ctap_get_pin_min_code_point_length s = pin_min_code_point_length (pin_state s)"

definition ctap_has_stateful_command_state :: "('h, 's) ctap_state \<Rightarrow> bool" where
  "ctap_has_stateful_command_state s \<longleftrightarrow>
     active_cmd (stateful_command_state s) \<noteq> CTAP_STATEFUL_CMD_NONE"

text \<open>A state whose other members are zero, as static storage is before \<open>ctap_init\<close>.\<close>

definition zero_ctap_state :: "'s \<Rightarrow> 'h ctap_pin_protocol list \<Rightarrow> ('h, 's) ctap_state" where
  "zero_ctap_state st protocols = \<lparr>storage = st, rng_position = 0,
     pin_state = \<lparr>pin_total_remaining_attempts = 0, pin_min_code_point_length = 0, is_pin_set = 0,
       pin_code_point_length = 0, pin_hash = zeros 16\<rparr>,
     pin_state_item_handle = 0, init_time = 0, current_time = 0, pin_protocols = protocols,
     pin_boot_remaining_attempts = 0, pin_uv_auth_token_state = zero_token_state,
     stateful_command_state = zero_stateful_state\<rparr>"

end
