(* ===== verification/Pin_Uv_Auth_Token.thy ===== *)
theory Pin_Uv_Auth_Token
  imports Ctap_State
begin

text \<open>
  The pinUvAuthToken state machine (\<open>core/ctap_pin_uv_auth_token.c\<close>) and the state of stateful
  commands (\<open>core/ctap.c\<close>), with the lifetime of a token over every sequence of requests.
\<close>

section \<open>State of stateful commands\<close>

definition ctap_discard_stateful_command_state ::
    "('h, 's) ctap_state \<Rightarrow> ('h, 's) ctap_state" where
  "ctap_discard_stateful_command_state s =
     (if \<not> ctap_has_stateful_command_state s then s
      else s\<lparr>stateful_command_state := zero_stateful_state\<rparr>)"

definition ctap_update_stateful_command_timer ::
    "('h, 's) ctap_state \<Rightarrow> ('h, 's) ctap_state option" where
  "ctap_update_stateful_command_timer s =
     require (ctap_has_stateful_command_state s)
       (Some (s\<lparr>stateful_command_state :=
          (stateful_command_state s)\<lparr>last_cmd_time := current_time s\<rparr>\<rparr>))"

definition ctap_discard_stateful_command_state_if_expired ::
    "('h, 's) ctap_state \<Rightarrow> bool \<times> ('h, 's) ctap_state" where
  "ctap_discard_stateful_command_state_if_expired s =
     (if ctap_has_stateful_command_state s
         \<and> current_time s - last_cmd_time (stateful_command_state s) > 30 * 1000
      then (True, ctap_discard_stateful_command_state s) else (False, s))"

section \<open>The token\<close>

abbreviation (input) CTAP_PIN_UV_AUTH_TOKEN_INITIAL_USAGE_TIME_LIMIT_USB :: u32 where
  "CTAP_PIN_UV_AUTH_TOKEN_INITIAL_USAGE_TIME_LIMIT_USB \<equiv> 30 * 1000"
abbreviation (input) CTAP_PIN_UV_AUTH_TOKEN_MAX_USAGE_TIME_PERIOD :: u32 where
  "CTAP_PIN_UV_AUTH_TOKEN_MAX_USAGE_TIME_PERIOD \<equiv> 10 * 60 * 1000"
abbreviation (input) permission_mc :: u32 where "permission_mc \<equiv> 0x01"
abbreviation (input) permission_ga :: u32 where "permission_ga \<equiv> 0x02"
abbreviation (input) permission_cm :: u32 where "permission_cm \<equiv> 0x04"
abbreviation (input) permission_be :: u32 where "permission_be \<equiv> 0x08"
abbreviation (input) permission_lbw :: u32 where "permission_lbw \<equiv> 0x10"

definition ctap_pin_uv_auth_token_begin_using ::
    "('h, 's) ctap_state \<Rightarrow> bool \<Rightarrow> u32 \<Rightarrow> ('h, 's) ctap_state" where
  "ctap_pin_uv_auth_token_begin_using s user_is_present perms =
     s\<lparr>pin_uv_auth_token_state := (pin_uv_auth_token_state s)\<lparr>
        rpId_hash := zeros 32, rpId_set := False, permissions := perms,
        user_present := user_is_present, user_verified := True,
        initial_usage_time_limit := CTAP_PIN_UV_AUTH_TOKEN_INITIAL_USAGE_TIME_LIMIT_USB,
        user_present_time_limit := CTAP_PIN_UV_AUTH_TOKEN_INITIAL_USAGE_TIME_LIMIT_USB,
        max_usage_time_period := CTAP_PIN_UV_AUTH_TOKEN_MAX_USAGE_TIME_PERIOD,
        usage_timer_start := current_time s, in_use := True\<rparr>\<rparr>"

definition ctap_pin_uv_auth_token_stop_using ::
    "('h, 's) ctap_state \<Rightarrow> ('h, 's) ctap_state" where
  "ctap_pin_uv_auth_token_stop_using s =
     (if \<not> in_use (pin_uv_auth_token_state s) then s
      else
        let s1 = (if ctap_has_stateful_command_state s
                  then ctap_discard_stateful_command_state s else s) in
        s1\<lparr>pin_uv_auth_token_state := zero_token_state\<rparr>)"

definition ctap_pin_uv_auth_token_clear_user_present_flag ::
    "('h, 's) ctap_state \<Rightarrow> ('h, 's) ctap_state" where
  "ctap_pin_uv_auth_token_clear_user_present_flag s =
     (if in_use (pin_uv_auth_token_state s)
      then s\<lparr>pin_uv_auth_token_state := (pin_uv_auth_token_state s)\<lparr>user_present := False\<rparr>\<rparr>
      else s)"

definition ctap_pin_uv_auth_token_clear_user_verified_flag ::
    "('h, 's) ctap_state \<Rightarrow> ('h, 's) ctap_state" where
  "ctap_pin_uv_auth_token_clear_user_verified_flag s =
     (if in_use (pin_uv_auth_token_state s)
      then s\<lparr>pin_uv_auth_token_state := (pin_uv_auth_token_state s)\<lparr>user_verified := False\<rparr>\<rparr>
      else s)"

definition ctap_pin_uv_auth_token_clear_permissions_except_lbw ::
    "('h, 's) ctap_state \<Rightarrow> ('h, 's) ctap_state" where
  "ctap_pin_uv_auth_token_clear_permissions_except_lbw s =
     (if in_use (pin_uv_auth_token_state s)
      then s\<lparr>pin_uv_auth_token_state := (pin_uv_auth_token_state s)\<lparr>
             permissions := permissions (pin_uv_auth_token_state s) AND permission_lbw\<rparr>\<rparr>
      else s)"

definition ctap_pin_uv_auth_token_check_usage_timer ::
    "('h, 's) ctap_state \<Rightarrow> bool \<times> ('h, 's) ctap_state" where
  "ctap_pin_uv_auth_token_check_usage_timer s =
     (let t = pin_uv_auth_token_state s in
      if \<not> in_use t then (False, s)
      else
        let elapsed_since_start = current_time s - usage_timer_start t;
            used_at_least_once = (usage_timer_last_use t > usage_timer_start t) in
        if elapsed_since_start > max_usage_time_period t
        then (True, ctap_pin_uv_auth_token_stop_using s)
        else if \<not> used_at_least_once \<and> elapsed_since_start > initial_usage_time_limit t
        then (True, ctap_pin_uv_auth_token_stop_using s)
        else if user_present t \<and> elapsed_since_start > user_present_time_limit t
        then (False, ctap_pin_uv_auth_token_clear_user_present_flag s)
        else (False, s))"

definition ctap_pin_uv_auth_token_get_user_present_flag_value :: "('h, 's) ctap_state \<Rightarrow> bool" where
  "ctap_pin_uv_auth_token_get_user_present_flag_value s =
     (if in_use (pin_uv_auth_token_state s) then user_present (pin_uv_auth_token_state s)
      else False)"

definition ctap_pin_uv_auth_token_get_user_verified_flag_value :: "('h, 's) ctap_state \<Rightarrow> bool" where
  "ctap_pin_uv_auth_token_get_user_verified_flag_value s =
     (if in_use (pin_uv_auth_token_state s) then user_verified (pin_uv_auth_token_state s)
      else False)"

definition ctap_pin_uv_auth_token_has_permissions ::
    "('h, 's) ctap_state \<Rightarrow> u32 \<Rightarrow> bool" where
  "ctap_pin_uv_auth_token_has_permissions s perms =
     (if in_use (pin_uv_auth_token_state s)
      then permissions (pin_uv_auth_token_state s) AND perms = perms else False)"

section \<open>Lifetime\<close>

text \<open>
  What happens to a token after it was issued: a request comes (the clock is read into
  \<open>current_time\<close> and the usage timer is checked), the token is used to verify a request, its
  flags and permissions are cleared. The index counts the milliseconds since it was issued, the
  flag records whether it was used at a later clock value than the one it was issued at.
\<close>

inductive token_run :: "('h, 's) ctap_state \<Rightarrow> nat \<Rightarrow> bool \<Rightarrow> ('h, 's) ctap_state \<Rightarrow> bool"
  for s0 where
  issued: "token_run s0 0 False (ctap_pin_uv_auth_token_begin_using s0 up perms)"
| request: "token_run s0 e used s \<Longrightarrow>
    token_run s0 (e + d) used (snd (ctap_pin_uv_auth_token_check_usage_timer
      (s\<lparr>current_time := current_time s + of_nat d\<rparr>)))"
| use: "token_run s0 e used s \<Longrightarrow> in_use (pin_uv_auth_token_state s) \<Longrightarrow>
    token_run s0 e (used \<or> current_time s0 < now)
      (s\<lparr>pin_uv_auth_token_state := (pin_uv_auth_token_state s)\<lparr>usage_timer_last_use := now\<rparr>\<rparr>)"
| clear_up: "token_run s0 e used s \<Longrightarrow>
    token_run s0 e used (ctap_pin_uv_auth_token_clear_user_present_flag s)"
| clear_uv: "token_run s0 e used s \<Longrightarrow>
    token_run s0 e used (ctap_pin_uv_auth_token_clear_user_verified_flag s)"
| clear_perms: "token_run s0 e used s \<Longrightarrow>
    token_run s0 e used (ctap_pin_uv_auth_token_clear_permissions_except_lbw s)"

lemmas token_defs = ctap_pin_uv_auth_token_begin_using_def ctap_pin_uv_auth_token_stop_using_def
  ctap_pin_uv_auth_token_clear_user_present_flag_def
  ctap_pin_uv_auth_token_clear_user_verified_flag_def
  ctap_pin_uv_auth_token_clear_permissions_except_lbw_def
  ctap_discard_stateful_command_state_def

text \<open>What every reachable token state satisfies while the token is in use.\<close>

definition token_inv :: "('h, 's) ctap_state \<Rightarrow> nat \<Rightarrow> bool \<Rightarrow> ('h, 's) ctap_state \<Rightarrow> bool" where
  "token_inv s0 e used s \<longleftrightarrow> (let t = pin_uv_auth_token_state s in
     current_time s = current_time s0 + of_nat e \<and>
     (in_use t \<longrightarrow> usage_timer_start t = current_time s0
       \<and> initial_usage_time_limit t = 30000 \<and> user_present_time_limit t = 30000
       \<and> max_usage_time_period t = 600000
       \<and> (usage_timer_last_use t > current_time s0 \<longrightarrow> used)) \<and>
     (\<not> in_use t \<longrightarrow> t = zero_token_state))"

lemma current_time_ops [simp]:
  "current_time (ctap_discard_stateful_command_state s) = current_time s"
  "current_time (ctap_pin_uv_auth_token_stop_using s) = current_time s"
  "current_time (snd (ctap_pin_uv_auth_token_check_usage_timer s)) = current_time s"
  by (simp_all add: token_defs ctap_pin_uv_auth_token_check_usage_timer_def Let_def)

lemma stop_using_token:
  "in_use (pin_uv_auth_token_state s) \<Longrightarrow>
   pin_uv_auth_token_state (ctap_pin_uv_auth_token_stop_using s) = zero_token_state"
  by (simp add: ctap_pin_uv_auth_token_stop_using_def Let_def)

lemma in_use_zero [simp]: "in_use zero_token_state = False"
  by (simp add: zero_token_state_def)

inductive_cases token_run_cases: "token_run s0 e used s"

lemma token_inv_same:
  "token_inv s0 e used s \<Longrightarrow> pin_uv_auth_token_state s' = pin_uv_auth_token_state s \<Longrightarrow>
   current_time s' = current_time s \<Longrightarrow> token_inv s0 e used s'"
  by (simp add: token_inv_def Let_def)

lemma token_inv_clear [simp]:
  "token_inv s0 e used s \<Longrightarrow>
   token_inv s0 e used (ctap_pin_uv_auth_token_clear_user_present_flag s)"
  "token_inv s0 e used s \<Longrightarrow>
   token_inv s0 e used (ctap_pin_uv_auth_token_clear_user_verified_flag s)"
  "token_inv s0 e used s \<Longrightarrow>
   token_inv s0 e used (ctap_pin_uv_auth_token_clear_permissions_except_lbw s)"
  by (auto simp: token_inv_def token_defs Let_def)

lemma token_inv_stop_using [simp]:
  "token_inv s0 e used s \<Longrightarrow> token_inv s0 e used (ctap_pin_uv_auth_token_stop_using s)"
  by (auto simp: token_inv_def ctap_pin_uv_auth_token_stop_using_def
      ctap_discard_stateful_command_state_def Let_def)

lemma check_usage_timer_cases:
  "snd (ctap_pin_uv_auth_token_check_usage_timer s)
     \<in> {s, ctap_pin_uv_auth_token_stop_using s, ctap_pin_uv_auth_token_clear_user_present_flag s}"
  by (simp add: ctap_pin_uv_auth_token_check_usage_timer_def Let_def)

lemma token_inv_tick:
  "token_inv s0 e used s \<Longrightarrow>
   token_inv s0 (e + d) used (s\<lparr>current_time := current_time s + of_nat d\<rparr>)"
  by (simp add: token_inv_def Let_def)

lemma token_inv_request:
  assumes "token_inv s0 e used s"
  shows "token_inv s0 (e + d) used (snd (ctap_pin_uv_auth_token_check_usage_timer
           (s\<lparr>current_time := current_time s + of_nat d\<rparr>)))"
  using token_inv_tick [OF assms, of d]
    check_usage_timer_cases [of "s\<lparr>current_time := current_time s + of_nat d\<rparr>"]
  by auto

lemma token_run_inv:
  assumes "token_run s0 e used s" and "pin_uv_auth_token_state s0 = zero_token_state"
  shows "token_inv s0 e used s"
  using assms(1)
proof (induction rule: token_run.induct)
  case (issued up perms)
  then show ?case
    using assms(2) by (simp add: token_inv_def ctap_pin_uv_auth_token_begin_using_def Let_def
        zero_token_state_def)
next
  case (use e used s now)
  then show ?case by (auto simp: token_inv_def Let_def)
qed (simp_all add: token_inv_request)

section \<open>Properties\<close>

text \<open>
  C12: The lifetime of a pinUvAuthToken. Take any run that starts with the issue of a token and
  consists of requests, uses of the token and clearing of its flags, and a request that comes
  \<open>e + d\<close> milliseconds after the issue (within the 49.7 days the 32-bit clock takes to wrap). If
  that is more than 10 minutes, or more than 30 seconds and the token was never used, then the
  request is processed with no token: its state is zero, so it grants no permission. If it is at
  most 30 seconds, a token in use stays in use. A token that expires at this request takes the
  state of a stateful command with it.
\<close>

theorem token_lifetime:
  assumes "pin_uv_auth_token_state s0 = zero_token_state" and "token_run s0 e used s"
      and "e + d < 2 ^ 32"
      and "s' = snd (ctap_pin_uv_auth_token_check_usage_timer
                  (s\<lparr>current_time := current_time s + of_nat d\<rparr>))"
  shows "(600000 < e + d \<or> 30000 < e + d \<and> \<not> used \<longrightarrow>
            pin_uv_auth_token_state s' = zero_token_state
            \<and> (\<forall>p. \<not> ctap_pin_uv_auth_token_has_permissions s' p))
       \<and> (e + d \<le> 30000 \<longrightarrow>
            in_use (pin_uv_auth_token_state s') = in_use (pin_uv_auth_token_state s))
       \<and> (in_use (pin_uv_auth_token_state s) \<and> \<not> in_use (pin_uv_auth_token_state s') \<longrightarrow>
            \<not> ctap_has_stateful_command_state s')"
proof -
  let ?t = "s\<lparr>current_time := current_time s + of_nat d\<rparr>"
  have inv: "token_inv s0 (e + d) used ?t"
    using token_inv_tick token_run_inv [OF assms(2,1)] by blast
  show ?thesis
  proof (cases "in_use (pin_uv_auth_token_state s)")
    case False
    then have "s' = ?t" "pin_uv_auth_token_state s = zero_token_state"
      using assms(4) inv
      by (simp_all add: ctap_pin_uv_auth_token_check_usage_timer_def token_inv_def Let_def)
    then show ?thesis by (simp add: ctap_pin_uv_auth_token_has_permissions_def)
  next
    case True
    define E where "E = current_time ?t - usage_timer_start (pin_uv_auth_token_state ?t)"
    have E: "unat E = e + d"
      using inv True assms(3)
      by (simp add: E_def token_inv_def Let_def unat_of_nat_u32 del: of_nat_add)
    have lims: "max_usage_time_period (pin_uv_auth_token_state ?t) = 600000"
        "initial_usage_time_limit (pin_uv_auth_token_state ?t) = 30000"
        "\<not> used \<Longrightarrow> \<not> usage_timer_last_use (pin_uv_auth_token_state ?t)
            > usage_timer_start (pin_uv_auth_token_state ?t)"
      using inv True by (auto simp: token_inv_def Let_def)
    have gt: "E > 600000 \<longleftrightarrow> 600000 < e + d" "E > 30000 \<longleftrightarrow> 30000 < e + d"
      using E by (simp_all add: word_less_nat_alt)
    have st: "\<not> ctap_has_stateful_command_state (ctap_pin_uv_auth_token_stop_using ?t)"
      using True by (simp add: ctap_pin_uv_auth_token_stop_using_def Let_def
          ctap_discard_stateful_command_state_def ctap_has_stateful_command_state_def
          zero_stateful_state_def)
    have s': "s' = (if 600000 < e + d \<or> \<not> usage_timer_last_use (pin_uv_auth_token_state ?t)
            > usage_timer_start (pin_uv_auth_token_state ?t) \<and> 30000 < e + d
        then ctap_pin_uv_auth_token_stop_using ?t else
        if user_present (pin_uv_auth_token_state ?t)
           \<and> E > user_present_time_limit (pin_uv_auth_token_state ?t)
        then ctap_pin_uv_auth_token_clear_user_present_flag ?t else ?t)"
      using True lims gt unfolding assms(4) ctap_pin_uv_auth_token_check_usage_timer_def Let_def
        E_def [symmetric] by simp
    show ?thesis
      using True lims(3) st unfolding s'
      by (auto simp: stop_using_token ctap_pin_uv_auth_token_has_permissions_def
          ctap_pin_uv_auth_token_clear_user_present_flag_def)
  qed
qed

theorem token_lifetime_witness:
  "\<not> ctap_pin_uv_auth_token_has_permissions (snd (ctap_pin_uv_auth_token_check_usage_timer
     ((ctap_pin_uv_auth_token_begin_using (zero_ctap_state () [] :: (unit, unit) ctap_state) False 3)
        \<lparr>current_time := 30001\<rparr>))) 2"
proof -
  let ?init = "zero_ctap_state () [] :: (unit, unit) ctap_state" and ?p = "False" and ?perms = "3 :: u32"
  let ?s = "ctap_pin_uv_auth_token_begin_using ?init ?p ?perms"
  have t: "current_time ?s + of_nat 30001 = 30001"
    by (simp add: ctap_pin_uv_auth_token_begin_using_def zero_ctap_state_def)
  have "\<not> ctap_pin_uv_auth_token_has_permissions (snd (ctap_pin_uv_auth_token_check_usage_timer
      (?s\<lparr>current_time := current_time ?s + of_nat 30001\<rparr>))) 2"
    using token_lifetime [of ?init 0 False ?s 30001, OF _ token_run.issued _ refl]
    by (simp add: zero_ctap_state_def)
  then show ?thesis unfolding t .
qed

end
