(* ===== verification/Crypto_Software.thy ===== *)
theory Crypto_Software
  imports Ctap_State
begin

text \<open>
  The software implementation of the cryptographic interface (\<open>core/ctap_crypto_software.c\<close>).
  The elliptic curve (micro-ecc), AES (tiny-AES-c) and the Mersenne Twister are libraries outside
  the repository's own code: parameters, collected in a record. SHA-256 is the one of
  \<open>crypto/sha256\<close>.
\<close>

text \<open>
  \<open>tinymt32\<close> is the stream of words the generator produces from its seed. The functions of
  micro-ecc may draw random words and return the new position; \<open>None\<close> and \<open>False\<close> stand for a
  return value other than 1.
\<close>

record crypto_libraries =
  tinymt32 :: "nat \<Rightarrow> u32"
  uECC_compute_public_key :: "nat \<Rightarrow> bytes \<Rightarrow> bool \<times> bytes \<times> nat"
  uECC_sign :: "nat \<Rightarrow> bytes \<Rightarrow> bytes \<Rightarrow> bytes option \<times> nat"
  uECC_sign_with_k :: "nat \<Rightarrow> bytes \<Rightarrow> bytes \<Rightarrow> bytes \<Rightarrow> bytes option \<times> nat"
  uECC_valid_public_key :: "bytes \<Rightarrow> bool"
  uECC_shared_secret :: "nat \<Rightarrow> bytes \<Rightarrow> bytes \<Rightarrow> bytes option \<times> nat"
  AES_CBC_encrypt_buffer :: "bytes \<Rightarrow> bytes \<Rightarrow> bytes \<Rightarrow> bytes"
  AES_CBC_decrypt_buffer :: "bytes \<Rightarrow> bytes \<Rightarrow> bytes \<Rightarrow> bytes"

text \<open>The loop over full words: the bytes written and the next position.\<close>

function rng_full_words :: "(nat \<Rightarrow> u32) \<Rightarrow> nat \<Rightarrow> nat \<Rightarrow> bytes \<Rightarrow> bytes \<times> nat" where
  "rng_full_words mt rng len buffer =
     (if length buffer + 4 \<le> len then rng_full_words mt (rng + 1) len (buffer @ le32 (mt rng))
      else (buffer, rng))"
  by pat_completeness auto
termination by (relation "measure (\<lambda>(mt, rng, len, buffer). len - length buffer)") auto

declare rng_full_words.simps [simp del]

definition ctap_software_crypto_rng_generate_data ::
    "crypto_libraries \<Rightarrow> nat \<Rightarrow> nat \<Rightarrow> bool \<times> bytes \<times> nat" where
  "ctap_software_crypto_rng_generate_data libs rng len =
     (let (buffer, rng1) = rng_full_words (tinymt32 libs) rng len [] in
      if length buffer < len
      then (True, buffer @ take (len - length buffer) (le32 (tinymt32 libs rng1)), rng1 + 1)
      else (True, buffer, rng1))"

definition ctap_software_crypto_ecc_secp256r1_compute_public_key ::
    "crypto_libraries \<Rightarrow> nat \<Rightarrow> bytes \<Rightarrow> bool \<times> bytes \<times> nat" where
  "ctap_software_crypto_ecc_secp256r1_compute_public_key libs rng private_key =
     uECC_compute_public_key libs rng private_key"

definition ctap_software_crypto_ecc_secp256r1_sign ::
    "crypto_libraries \<Rightarrow> nat \<Rightarrow> bytes \<Rightarrow> bytes \<Rightarrow> bytes option \<Rightarrow> bytes option \<times> nat" where
  "ctap_software_crypto_ecc_secp256r1_sign libs rng private_key message_hash optional_fixed_k =
     (case optional_fixed_k of
        Some k \<Rightarrow> uECC_sign_with_k libs rng private_key message_hash k
      | None \<Rightarrow> uECC_sign libs rng private_key message_hash)"

definition ctap_software_crypto_ecc_secp256r1_shared_secret ::
    "crypto_libraries \<Rightarrow> nat \<Rightarrow> bytes \<Rightarrow> bytes \<Rightarrow> bytes option \<times> nat" where
  "ctap_software_crypto_ecc_secp256r1_shared_secret libs rng public_key private_key =
     (if \<not> uECC_valid_public_key libs public_key then (None, rng)
      else uECC_shared_secret libs rng public_key private_key)"

definition ctap_software_crypto_aes_256_cbc_encrypt ::
    "crypto_libraries \<Rightarrow> bytes \<Rightarrow> bytes \<Rightarrow> bytes \<Rightarrow> bytes option" where
  "ctap_software_crypto_aes_256_cbc_encrypt libs iv key d =
     Some (AES_CBC_encrypt_buffer libs iv key d)"

definition ctap_software_crypto_aes_256_cbc_decrypt ::
    "crypto_libraries \<Rightarrow> bytes \<Rightarrow> bytes \<Rightarrow> bytes \<Rightarrow> bytes option" where
  "ctap_software_crypto_aes_256_cbc_decrypt libs iv key d =
     Some (AES_CBC_decrypt_buffer libs iv key d)"

definition ctap_software_crypto_sha256_compute_digest :: "bytes \<Rightarrow> bytes option" where
  "ctap_software_crypto_sha256_compute_digest d =
     Some (fst (sha256_final (sha256_update (sha256_init fresh_sha256_ctx) d)))"

definition CTAP_SOFTWARE_CRYPTO_CONST_INIT :: "crypto_libraries \<Rightarrow> sha256_ctx ctap_crypto" where
  "CTAP_SOFTWARE_CRYPTO_CONST_INIT libs = \<lparr>
     rng_generate_data = ctap_software_crypto_rng_generate_data libs,
     ecc_secp256r1_compute_public_key = ctap_software_crypto_ecc_secp256r1_compute_public_key libs,
     ecc_secp256r1_sign = ctap_software_crypto_ecc_secp256r1_sign libs,
     ecc_secp256r1_shared_secret = ctap_software_crypto_ecc_secp256r1_shared_secret libs,
     aes_256_cbc_encrypt = ctap_software_crypto_aes_256_cbc_encrypt libs,
     aes_256_cbc_decrypt = ctap_software_crypto_aes_256_cbc_decrypt libs,
     sha256_compute_digest = ctap_software_crypto_sha256_compute_digest,
     sha256_bound_ctx = fresh_sha256_ctx,
     crypto_sha256 = hash_alg_sha256\<rparr>"

lemma software_digest [simp]:
  "sha256_compute_digest (CTAP_SOFTWARE_CRYPTO_CONST_INIT libs) d = Some (sha256_spec d)"
proof -
  have "absorbed (sha256_update (sha256_init fresh_sha256_ctx) d) d"
    using absorbed_update [OF absorbed_init [of fresh_sha256_ctx], of d]
    by (simp add: fresh_sha256_ctx_def)
  then show ?thesis
    by (simp add: CTAP_SOFTWARE_CRYPTO_CONST_INIT_def ctap_software_crypto_sha256_compute_digest_def
        sha256_final_spec)
qed

section \<open>The random bytes\<close>

lemma rng_full_words_ok:
  assumes "length buffer \<le> len" and "buffer = concat (map (\<lambda>i. le32 (mt i)) [r0..<rng])" and "r0 \<le> rng"
  shows "rng_full_words mt rng len buffer
       = (concat (map (\<lambda>i. le32 (mt i)) [r0..<r0 + len div 4]), r0 + len div 4)"
  using assms
proof (induction mt rng len buffer rule: rng_full_words.induct)
  case (1 mt rng len buffer)
  have l: "length buffer = 4 * (rng - r0)"
    unfolding 1(3) by (simp add: length_concat comp_def sum_list_triv)
  show ?case
  proof (cases "length buffer + 4 \<le> len")
    case True
    have "buffer @ le32 (mt rng) = concat (map (\<lambda>i. le32 (mt i)) [r0..<rng + 1])"
      unfolding 1(3) using 1(4) by (simp add: comp_def)
    then show ?thesis
      using 1(1) [OF True] True 1(4) by (subst rng_full_words.simps) simp
  next
    case False
    then have "r0 + len div 4 = rng" using l 1(2,4) by simp
    then show ?thesis
      using False unfolding 1(3) [symmetric] by (subst rng_full_words.simps) (simp add: 1(3))
  qed
qed

lemma software_rng_ok:
  "ctap_software_crypto_rng_generate_data libs rng len
     = (True, take len (concat (map (\<lambda>i. le32 (tinymt32 libs i)) [rng..<rng + (len + 3) div 4])),
        rng + (len + 3) div 4)"
proof -
  let ?w = "\<lambda>i. le32 (tinymt32 libs i)" and ?q = "len div 4"
  have f: "rng_full_words (tinymt32 libs) rng len []
      = (concat (map ?w [rng..<rng + ?q]), rng + ?q)"
    by (rule rng_full_words_ok) simp_all
  have l: "length (concat (map ?w [rng..<rng + ?q])) = 4 * ?q"
    by (simp add: length_concat comp_def sum_list_triv)
  show ?thesis
  proof (cases "4 * ?q < len")
    case True
    then have q: "(len + 3) div 4 = Suc ?q" by presburger
    show ?thesis
      using True l f by (simp add: ctap_software_crypto_rng_generate_data_def q)
  next
    case False
    then have eq: "4 * ?q = len" by (metis div_times_less_eq_dividend mult.commute nat_less_le)
    then have "(len + 3) div 4 = ?q" by presburger
    then show ?thesis
      using False l f eq by (simp add: ctap_software_crypto_rng_generate_data_def)
  qed
qed

end
