(* ===== verification/Pin_Protocol.thy ===== *)
theory Pin_Protocol
  imports Crypto_Software
begin

text \<open>
  The two PIN/UV auth protocols (\<open>core/ctap_pin_protocol.c\<close>): key agreement, key derivation,
  encryption and message authentication, over the cryptographic interface.
\<close>

section \<open>Keys\<close>

definition ctap_str :: "string \<Rightarrow> bytes" where
  "ctap_str s = map of_char s"

text \<open>The functions that return an \<open>int\<close> return 0 for success: here a flag that is true then.\<close>

definition ctap_pin_protocol_regenerate ::
    "'h ctap_crypto \<Rightarrow> nat \<Rightarrow> 'h ctap_pin_protocol \<Rightarrow> bool \<times> nat \<times> 'h ctap_pin_protocol" where
  "ctap_pin_protocol_regenerate crypto rng p =
     (let (ok, private, rng1) = rng_generate_data crypto rng 32;
          p1 = p\<lparr>key_agreement_private_key := private\<rparr> in
      if \<not> ok then (False, rng1, p1)
      else
        let (ok2, public, rng2) = ecc_secp256r1_compute_public_key crypto rng1 private in
        (ok2, rng2, p1\<lparr>key_agreement_public_key := public\<rparr>))"

definition ctap_pin_protocol_reset_pin_uv_auth_token ::
    "'h ctap_crypto \<Rightarrow> nat \<Rightarrow> 'h ctap_pin_protocol \<Rightarrow> bool \<times> nat \<times> 'h ctap_pin_protocol" where
  "ctap_pin_protocol_reset_pin_uv_auth_token crypto rng p =
     (let (ok, token, rng1) = rng_generate_data crypto rng 32 in
      (ok, rng1, p\<lparr>pin_uv_auth_token := token\<rparr>))"

definition ctap_pin_protocol_initialize ::
    "'h ctap_crypto \<Rightarrow> nat \<Rightarrow> 'h ctap_pin_protocol \<Rightarrow> bool \<times> nat \<times> 'h ctap_pin_protocol" where
  "ctap_pin_protocol_initialize crypto rng p =
     (let (ok, rng1, p1) = ctap_pin_protocol_regenerate crypto rng p in
      if \<not> ok then (False, rng1, p1)
      else ctap_pin_protocol_reset_pin_uv_auth_token crypto rng1 p1)"

definition ctap_pin_protocol_get_public_key ::
    "enc_ok \<Rightarrow> 'h ctap_pin_protocol \<Rightarrow> encoder \<Rightarrow> u8 \<times> encoder" where
  "ctap_pin_protocol_get_public_key enc_ok p encoder =
     (let x = take 32 (key_agreement_public_key p);
          y = take 32 (drop 32 (key_agreement_public_key p)) in
      cbor_encode enc_ok encoder
        [Create_Map 5, Encode_Int 1, Encode_Int 2, Encode_Int 3, Encode_Int (-25),
         Encode_Int (-1), Encode_Int 1, Encode_Int (-2), Encode_Bytes x,
         Encode_Int (-3), Encode_Bytes y, Close_Container])"

definition ctap_pin_protocol_decapsulate ::
    "'h ctap_crypto \<Rightarrow> nat \<Rightarrow> 'h ctap_pin_protocol \<Rightarrow> COSE_Key \<Rightarrow> (bytes option \<times> nat) option" where
  "ctap_pin_protocol_decapsulate crypto rng p peer_public_key =
     (case ecc_secp256r1_shared_secret crypto rng
             (pubkey_x peer_public_key @ pubkey_y peer_public_key) (key_agreement_private_key p) of
        (None, rng1) \<Rightarrow> Some (None, rng1)
      | (Some ecdh_shared_point_z, rng1) \<Rightarrow>
          do { shared_secret \<leftarrow> protocol_kdf p crypto ecdh_shared_point_z;
               Some (shared_secret, rng1) })"

definition ctap_pin_protocol_v1_kdf :: "'h ctap_crypto \<Rightarrow> bytes \<Rightarrow> bytes option option" where
  "ctap_pin_protocol_v1_kdf crypto ecdh_shared_point_z =
     Some (sha256_compute_digest crypto (take 32 ecdh_shared_point_z))"

definition ctap_pin_protocol_v2_kdf :: "'h ctap_crypto \<Rightarrow> bytes \<Rightarrow> bytes option option" where
  "ctap_pin_protocol_v2_kdf crypto ecdh_shared_point_z =
     do { (hmac_key, ctx) \<leftarrow> hkdf (crypto_sha256 crypto) (sha256_bound_ctx crypto) (zeros 32)
            (take 32 ecdh_shared_point_z) (ctap_str ''CTAP2 HMAC key'') 32;
          (aes_key, ctx') \<leftarrow> hkdf (crypto_sha256 crypto) ctx (zeros 32)
            (take 32 ecdh_shared_point_z) (ctap_str ''CTAP2 AES key'') 32;
          Some (Some (hmac_key @ aes_key)) }"

section \<open>Encryption\<close>

abbreviation (input) CTAP_CRYPTO_AES_BLOCK_SIZE :: nat where "CTAP_CRYPTO_AES_BLOCK_SIZE \<equiv> 16"

definition ctap_pin_protocol_v1_encrypt ::
    "'h ctap_crypto \<Rightarrow> nat \<Rightarrow> bytes \<Rightarrow> bytes \<Rightarrow> nat \<Rightarrow> (bytes option \<times> nat) option" where
  "ctap_pin_protocol_v1_encrypt crypto rng shared_secret plaintext buf_size =
     (if length plaintext mod CTAP_CRYPTO_AES_BLOCK_SIZE \<noteq> 0 then Some (None, rng)
      else require (length plaintext \<le> buf_size) (
        Some (aes_256_cbc_encrypt crypto (zeros 16) (take 32 shared_secret) plaintext, rng)))"

definition ctap_pin_protocol_v2_encrypt ::
    "'h ctap_crypto \<Rightarrow> nat \<Rightarrow> bytes \<Rightarrow> bytes \<Rightarrow> nat \<Rightarrow> (bytes option \<times> nat) option" where
  "ctap_pin_protocol_v2_encrypt crypto rng shared_secret plaintext buf_size =
     (if length plaintext mod CTAP_CRYPTO_AES_BLOCK_SIZE \<noteq> 0 then Some (None, rng)
      else
        let (ok, random_iv, rng1) = rng_generate_data crypto rng 16 in
        if \<not> ok then Some (None, rng1)
        else require (64 \<le> length shared_secret) (require (16 + length plaintext \<le> buf_size) (
          Some (map_option (\<lambda>c. random_iv @ c)
                  (aes_256_cbc_encrypt crypto random_iv (take 32 (drop 32 shared_secret)) plaintext),
                rng1))))"

definition ctap_pin_protocol_v1_decrypt ::
    "'h ctap_crypto \<Rightarrow> bytes \<Rightarrow> bytes \<Rightarrow> nat \<Rightarrow> bytes option option" where
  "ctap_pin_protocol_v1_decrypt crypto shared_secret ciphertext buf_size =
     (if length ciphertext mod CTAP_CRYPTO_AES_BLOCK_SIZE \<noteq> 0 then Some None
      else require (length ciphertext \<le> buf_size) (
        Some (aes_256_cbc_decrypt crypto (zeros 16) (take 32 shared_secret) ciphertext)))"

definition ctap_pin_protocol_v2_decrypt ::
    "'h ctap_crypto \<Rightarrow> bytes \<Rightarrow> bytes \<Rightarrow> nat \<Rightarrow> bytes option option" where
  "ctap_pin_protocol_v2_decrypt crypto shared_secret ciphertext buf_size =
     (if length ciphertext < CTAP_CRYPTO_AES_BLOCK_SIZE
         \<or> length ciphertext mod CTAP_CRYPTO_AES_BLOCK_SIZE \<noteq> 0 then Some None
      else
        let iv = take 16 ciphertext; actual_ciphertext = drop 16 ciphertext in
        require (64 \<le> length shared_secret) (require (length actual_ciphertext \<le> buf_size) (
          Some (aes_256_cbc_decrypt crypto iv (take 32 (drop 32 shared_secret))
                  actual_ciphertext))))"

section \<open>Message authentication\<close>

definition ctap_pin_protocol_verify_init ::
    "'h ctap_crypto \<Rightarrow> bytes \<Rightarrow> 'h hmac_ctx option" where
  "ctap_pin_protocol_verify_init crypto hmac_key' =
     hmac_init (crypto_sha256 crypto) (sha256_bound_ctx crypto) hmac_key'"

text \<open>The second argument is the \<open>shared_secret_length\<close> of the protocol.\<close>

definition ctap_pin_protocol_v1_verify_init_with_shared_secret ::
    "'h ctap_crypto \<Rightarrow> nat \<Rightarrow> bytes \<Rightarrow> 'h hmac_ctx option" where
  "ctap_pin_protocol_v1_verify_init_with_shared_secret crypto secret_length shared_secret =
     ctap_pin_protocol_verify_init crypto (take secret_length shared_secret)"

definition ctap_pin_protocol_v2_verify_init_with_shared_secret ::
    "'h ctap_crypto \<Rightarrow> nat \<Rightarrow> bytes \<Rightarrow> 'h hmac_ctx option" where
  "ctap_pin_protocol_v2_verify_init_with_shared_secret crypto secret_length shared_secret =
     require (secret_length = 64) (ctap_pin_protocol_verify_init crypto (take 32 shared_secret))"

text \<open>The inner \<open>None\<close> is the return value 1; the use of the token is recorded in its state.\<close>

definition ctap_pin_protocol_verify_init_with_pin_uv_auth_token ::
    "'h ctap_crypto \<Rightarrow> 'h ctap_pin_protocol \<Rightarrow> u32 \<Rightarrow> ctap_pin_uv_auth_token_state
     \<Rightarrow> ('h hmac_ctx option \<times> ctap_pin_uv_auth_token_state) option" where
  "ctap_pin_protocol_verify_init_with_pin_uv_auth_token crypto p now token_state =
     (if \<not> in_use token_state then Some (None, token_state)
      else do { ctx \<leftarrow> ctap_pin_protocol_verify_init crypto (pin_uv_auth_token p);
                Some (Some ctx, token_state\<lparr>usage_timer_last_use := now\<rparr>) })"

definition ctap_pin_protocol_verify_update ::
    "'h ctap_crypto \<Rightarrow> 'h hmac_ctx \<Rightarrow> bytes \<Rightarrow> 'h hmac_ctx" where
  "ctap_pin_protocol_verify_update crypto ctx message_data =
     hmac_update (crypto_sha256 crypto) ctx message_data"

definition ctap_pin_protocol_v1_verify_final ::
    "'h ctap_crypto \<Rightarrow> 'h hmac_ctx \<Rightarrow> bytes \<Rightarrow> bool option" where
  "ctap_pin_protocol_v1_verify_final crypto ctx signature =
     require (output_size (crypto_sha256 crypto) = 32) (
       let hmac = fst (hmac_final (crypto_sha256 crypto) ctx) in
       Some (\<not> (length signature \<noteq> 16 \<or> take 16 hmac \<noteq> signature)))"

definition ctap_pin_protocol_v2_verify_final ::
    "'h ctap_crypto \<Rightarrow> 'h hmac_ctx \<Rightarrow> bytes \<Rightarrow> bool option" where
  "ctap_pin_protocol_v2_verify_final crypto ctx signature =
     require (output_size (crypto_sha256 crypto) = 32) (
       let hmac = fst (hmac_final (crypto_sha256 crypto) ctx) in
       Some (\<not> (length signature \<noteq> 32 \<or> take 32 hmac \<noteq> signature)))"

section \<open>The protocol structures\<close>

definition CTAP_PIN_PROTOCOL_V1_CONST_INIT :: "'h ctap_pin_protocol" where
  "CTAP_PIN_PROTOCOL_V1_CONST_INIT = \<lparr>pin_uv_auth_token = zeros 32,
     key_agreement_public_key = zeros 64, key_agreement_private_key = zeros 32,
     version = 1, shared_secret_length = 32, encryption_extra_length = 0,
     protocol_kdf = ctap_pin_protocol_v1_kdf,
     protocol_encrypt = ctap_pin_protocol_v1_encrypt,
     protocol_decrypt = ctap_pin_protocol_v1_decrypt,
     verify_init_with_shared_secret = ctap_pin_protocol_v1_verify_init_with_shared_secret,
     verify_final = ctap_pin_protocol_v1_verify_final\<rparr>"

definition CTAP_PIN_PROTOCOL_V2_CONST_INIT :: "'h ctap_pin_protocol" where
  "CTAP_PIN_PROTOCOL_V2_CONST_INIT = \<lparr>pin_uv_auth_token = zeros 32,
     key_agreement_public_key = zeros 64, key_agreement_private_key = zeros 32,
     version = 2, shared_secret_length = 64, encryption_extra_length = CTAP_CRYPTO_AES_BLOCK_SIZE,
     protocol_kdf = ctap_pin_protocol_v2_kdf,
     protocol_encrypt = ctap_pin_protocol_v2_encrypt,
     protocol_decrypt = ctap_pin_protocol_v2_decrypt,
     verify_init_with_shared_secret = ctap_pin_protocol_v2_verify_init_with_shared_secret,
     verify_final = ctap_pin_protocol_v2_verify_final\<rparr>"

definition CTAP_STATE_CONST_INIT :: "'s \<Rightarrow> ('h, 's) ctap_state" where
  "CTAP_STATE_CONST_INIT st =
     zero_ctap_state st [CTAP_PIN_PROTOCOL_V1_CONST_INIT, CTAP_PIN_PROTOCOL_V2_CONST_INIT]"

section \<open>Correctness for every implementation of the interface\<close>

text \<open>
  What the protocols rely on: SHA-256 through \<open>hash_alg_t\<close> and through the one-call digest agree,
  and a bound context can be used.
\<close>

locale ctap_crypto_mac = hash_algorithm_64_32 "crypto_sha256 crypto" usable has_absorbed H
  for crypto :: "'h ctap_crypto" and usable has_absorbed H +
  assumes bound_usable: "usable (sha256_bound_ctx crypto)"
    and digest: "sha256_compute_digest crypto d = Some (H d)"
begin

lemma verify_init_ok:
  "\<exists>ctx. ctap_pin_protocol_verify_init crypto key = Some ctx \<and> hmac_absorbed ctx key []"
  using hmac_init_ok [OF bound_usable] by (simp add: ctap_pin_protocol_verify_init_def)

lemma verify_updates_ok:
  "hmac_absorbed ctx key m \<Longrightarrow>
   hmac_absorbed (fold (\<lambda>d x. ctap_pin_protocol_verify_update crypto x d) ds ctx) key (m @ concat ds)"
proof (induction ds arbitrary: ctx m)
  case (Cons d ds)
  from Cons.IH [OF hmac_update_ok [OF Cons.prems, of d]] show ?case
    by (simp add: ctap_pin_protocol_verify_update_def)
qed simp

lemma verify_finals_ok:
  assumes "hmac_absorbed ctx key m"
  shows "ctap_pin_protocol_v1_verify_final crypto ctx sig
           = Some (sig = take 16 (hmac_spec H 64 key m))"
    and "ctap_pin_protocol_v2_verify_final crypto ctx sig = Some (sig = hmac_spec H 64 key m)"
proof -
  obtain c where f: "hmac_final (crypto_sha256 crypto) ctx = (hmac_spec H 64 key m, c)"
    using hmac_final_ok [OF assms] by blast
  have l: "length (hmac_spec H 64 key m) = 32" by (rule length_hmac_spec)
  show "ctap_pin_protocol_v1_verify_final crypto ctx sig
      = Some (sig = take 16 (hmac_spec H 64 key m))"
    using f l sizes by (auto simp: ctap_pin_protocol_v1_verify_final_def)
  show "ctap_pin_protocol_v2_verify_final crypto ctx sig = Some (sig = hmac_spec H 64 key m)"
    using f l sizes by (auto simp: ctap_pin_protocol_v2_verify_final_def)
qed

lemma verify_ok:
  "\<exists>ctx. ctap_pin_protocol_verify_init crypto key = Some ctx
     \<and> ctap_pin_protocol_v1_verify_final crypto
         (fold (\<lambda>d x. ctap_pin_protocol_verify_update crypto x d) ds ctx) sig
         = Some (sig = take 16 (hmac_spec H 64 key (concat ds)))
     \<and> ctap_pin_protocol_v2_verify_final crypto
         (fold (\<lambda>d x. ctap_pin_protocol_verify_update crypto x d) ds ctx) sig
         = Some (sig = hmac_spec H 64 key (concat ds))"
proof -
  obtain ctx where ctx: "ctap_pin_protocol_verify_init crypto key = Some ctx"
      "hmac_absorbed ctx key []"
    using verify_init_ok by blast
  from verify_finals_ok [OF verify_updates_ok [OF ctx(2), of ds]] show ?thesis
    using ctx(1) by simp
qed

lemma v2_kdf_ok:
  "ctap_pin_protocol_v2_kdf crypto z = Some (Some
     (hkdf_spec (hmac_spec H 64) 32 (zeros 32) (take 32 z) (ctap_str ''CTAP2 HMAC key'') 32
      @ hkdf_spec (hmac_spec H 64) 32 (zeros 32) (take 32 z) (ctap_str ''CTAP2 AES key'') 32))"
proof -
  obtain c1 where c1: "hkdf (crypto_sha256 crypto) (sha256_bound_ctx crypto) (zeros 32) (take 32 z)
      (ctap_str ''CTAP2 HMAC key'') 32
      = Some (hkdf_spec (hmac_spec H 64) 32 (zeros 32) (take 32 z) (ctap_str ''CTAP2 HMAC key'') 32,
              c1)" "usable c1"
    using hkdf_ok [OF bound_usable, of 32] by fastforce
  obtain c2 where "hkdf (crypto_sha256 crypto) c1 (zeros 32) (take 32 z)
      (ctap_str ''CTAP2 AES key'') 32
      = Some (hkdf_spec (hmac_spec H 64) 32 (zeros 32) (take 32 z) (ctap_str ''CTAP2 AES key'') 32,
              c2)"
    using hkdf_ok [OF c1(2), of 32] by fastforce
  then show ?thesis using c1(1) by (simp add: ctap_pin_protocol_v2_kdf_def)
qed

lemma v2_kdf_length:
  "length (hkdf_spec (hmac_spec H 64) 32 salt ikm info 32) = 32"
  by (simp add: hkdf_spec_def length_hmac_spec)

lemma v1_kdf_ok: "ctap_pin_protocol_v1_kdf crypto z = Some (Some (H (take 32 z)))"
  by (simp add: ctap_pin_protocol_v1_kdf_def digest)

end

lemma software_crypto_sel [simp]:
  "crypto_sha256 (CTAP_SOFTWARE_CRYPTO_CONST_INIT libs) = hash_alg_sha256"
  "sha256_bound_ctx (CTAP_SOFTWARE_CRYPTO_CONST_INIT libs) = fresh_sha256_ctx"
  "rng_generate_data (CTAP_SOFTWARE_CRYPTO_CONST_INIT libs)
     = ctap_software_crypto_rng_generate_data libs"
  "aes_256_cbc_encrypt (CTAP_SOFTWARE_CRYPTO_CONST_INIT libs)
     = ctap_software_crypto_aes_256_cbc_encrypt libs"
  "aes_256_cbc_decrypt (CTAP_SOFTWARE_CRYPTO_CONST_INIT libs)
     = ctap_software_crypto_aes_256_cbc_decrypt libs"
  by (simp_all add: CTAP_SOFTWARE_CRYPTO_CONST_INIT_def)

interpretation sw_crypto: ctap_crypto_mac "CTAP_SOFTWARE_CRYPTO_CONST_INIT libs"
    sha256_usable absorbed sha256_spec for libs
  unfolding ctap_crypto_mac_def ctap_crypto_mac_axioms_def
  using sha256_mac.hash_algorithm_64_32_axioms
  by (simp add: sha256_usable_def fresh_sha256_ctx_def)

section \<open>Properties\<close>

abbreviation (input) software_crypto :: "crypto_libraries \<Rightarrow> sha256_ctx ctap_crypto" where
  "software_crypto \<equiv> CTAP_SOFTWARE_CRYPTO_CONST_INIT"

abbreviation (input) protocol_v1 :: "sha256_ctx ctap_pin_protocol" where
  "protocol_v1 \<equiv> CTAP_PIN_PROTOCOL_V1_CONST_INIT"

abbreviation (input) protocol_v2 :: "sha256_ctx ctap_pin_protocol" where
  "protocol_v2 \<equiv> CTAP_PIN_PROTOCOL_V2_CONST_INIT"

lemmas protocol_inits = CTAP_PIN_PROTOCOL_V1_CONST_INIT_def CTAP_PIN_PROTOCOL_V2_CONST_INIT_def

text \<open>
  C15: Verification of pinUvAuthParam. With the software implementation, for any shared secret, any
  message in any number of pieces and any signature: protocol one accepts exactly the first
  16 bytes, protocol two exactly all 32 bytes, of the HMAC-SHA-256 (RFC 2104) of the message under
  the first 32 bytes of the shared secret; a signature of another length is refused.
\<close>

theorem verify_accepts_exactly_hmac:
  "(\<exists>ctx. verify_init_with_shared_secret protocol_v1 (software_crypto libs) (shared_secret_length protocol_v1) secret
            = Some ctx
       \<and> verify_final protocol_v1 (software_crypto libs)
           (fold (\<lambda>d x. ctap_pin_protocol_verify_update (software_crypto libs) x d) ds ctx) sig
         = Some (sig = take 16 (hmac_spec sha256_spec 64 (take 32 secret) (concat ds))))
   \<and> (\<exists>ctx. verify_init_with_shared_secret protocol_v2 (software_crypto libs) (shared_secret_length protocol_v2) secret
            = Some ctx
       \<and> verify_final protocol_v2 (software_crypto libs)
           (fold (\<lambda>d x. ctap_pin_protocol_verify_update (software_crypto libs) x d) ds ctx) sig
         = Some (sig = hmac_spec sha256_spec 64 (take 32 secret) (concat ds)))"
  using sw_crypto.verify_ok [of libs "take 32 secret" ds sig]
  by (auto simp: protocol_inits ctap_pin_protocol_v1_verify_init_with_shared_secret_def
      ctap_pin_protocol_v2_verify_init_with_shared_secret_def)

text \<open>
  Key agreement. When the elliptic curve library yields the 32-byte point coordinate \<open>z\<close>, the
  shared secret is SHA-256 of \<open>z\<close> in protocol one, and in protocol two the HKDF output for the
  HMAC key followed by the one for the AES key; its length is the \<open>shared_secret_length\<close> of
  the protocol, so it fills the buffer of the caller exactly. A point the library rejects gives
  an error and no secret.
\<close>

theorem decapsulate_shared_secret:
  assumes "uECC_shared_secret libs rng (pubkey_x peer @ pubkey_y peer) priv = (Some z, rng1)"
      and "length z = 32"
      and "secret1 = sha256_spec z"
      and "secret2 = hkdf_spec (hmac_spec sha256_spec 64) 32 (zeros 32) z
                       (ctap_str ''CTAP2 HMAC key'') 32
                   @ hkdf_spec (hmac_spec sha256_spec 64) 32 (zeros 32) z
                       (ctap_str ''CTAP2 AES key'') 32"
  shows "ctap_pin_protocol_decapsulate (software_crypto libs) rng
           (protocol_v1\<lparr>key_agreement_private_key := priv\<rparr>) peer
         = Some (if uECC_valid_public_key libs (pubkey_x peer @ pubkey_y peer)
                 then (Some secret1, rng1) else (None, rng))
       \<and> ctap_pin_protocol_decapsulate (software_crypto libs) rng
           (protocol_v2\<lparr>key_agreement_private_key := priv\<rparr>) peer
         = Some (if uECC_valid_public_key libs (pubkey_x peer @ pubkey_y peer)
                 then (Some secret2, rng1) else (None, rng))
       \<and> length secret1 = shared_secret_length protocol_v1 \<and> length secret2 = shared_secret_length protocol_v2"
  unfolding assms(3,4) using assms(1,2) sw_crypto.v1_kdf_ok [of libs z] sw_crypto.v2_kdf_ok [of libs z]
    sw_crypto.length_H
  by (simp_all add: ctap_pin_protocol_decapsulate_def protocol_inits 
      CTAP_SOFTWARE_CRYPTO_CONST_INIT_def ctap_software_crypto_ecc_secp256r1_shared_secret_def
      hash_alg_sha256_def sw_crypto.v2_kdf_length)

text \<open>Libraries for the witnesses: a stream of words, a curve that multiplies, a cipher that XORs.\<close>

definition example_libraries :: crypto_libraries where
  "example_libraries = \<lparr>tinymt32 = (\<lambda>n. of_nat (3 * n + 1)),
     uECC_compute_public_key = (\<lambda>rng k. (True, k @ k, rng)),
     uECC_sign = (\<lambda>rng k h. (Some (k @ h), rng + 1)),
     uECC_sign_with_k = (\<lambda>rng k h d. (Some (k @ h), rng)),
     uECC_valid_public_key = (\<lambda>p. length p = 64),
     uECC_shared_secret = (\<lambda>rng p k. (Some (map2 (*) (take 32 p) k), rng + 1)),
     AES_CBC_encrypt_buffer = (\<lambda>iv key d. map (\<lambda>b. b XOR hd key) d),
     AES_CBC_decrypt_buffer = (\<lambda>iv key d. map (\<lambda>b. b XOR hd key) d)\<rparr>"

theorem decapsulate_shared_secret_witness:
  "ctap_pin_protocol_decapsulate (software_crypto example_libraries) 5
      (protocol_v1\<lparr>key_agreement_private_key := replicate 32 2\<rparr>)
      \<lparr>cose_present = 0, key_kty = 2, key_alg = -25, key_crv = 1,
        pubkey_x = replicate 32 3, pubkey_y = zeros 32\<rparr>
   = Some (Some (sha256_spec (replicate 32 6)), 6)"
  using decapsulate_shared_secret [of example_libraries 5 "\<lparr>cose_present = 0, key_kty = 2,
      key_alg = -25, key_crv = 1, pubkey_x = replicate 32 3, pubkey_y = zeros 32\<rparr>"
      "replicate 32 2" "replicate 32 6" 6, OF _ _ refl refl]
  by (simp add: example_libraries_def zip_replicate map_replicate_const)

text \<open>
  C16: Encryption round trip. If the cipher of the library is inverted by its decryption and keeps
  lengths, then in both protocols what \<open>encrypt\<close> produces for a plaintext of whole blocks is
  \<open>encryption_extra_length\<close> bytes longer, and \<open>decrypt\<close> under the same shared secret gives the
  plaintext back, whatever the random initialisation vector was.
\<close>

theorem encrypt_decrypt_roundtrip:
  assumes aes: "\<And>iv key d. length d mod 16 = 0 \<Longrightarrow>
              AES_CBC_decrypt_buffer libs iv key (AES_CBC_encrypt_buffer libs iv key d) = d
            \<and> length (AES_CBC_encrypt_buffer libs iv key d) = length d"
      and "p = protocol_v1 \<or> p = protocol_v2"
      and "length secret = shared_secret_length p" and "length plain mod 16 = 0"
      and "length plain + encryption_extra_length p \<le> n" and "length plain \<le> m"
  shows "\<exists>c rng1. protocol_encrypt p (software_crypto libs) rng secret plain n = Some (Some c, rng1)
    \<and> length c = length plain + encryption_extra_length p
    \<and> protocol_decrypt p (software_crypto libs) secret c m = Some (Some plain)"
proof -
  have iv: "rng_generate_data (software_crypto libs) rng 16
      = (True, take 16 (concat (map (\<lambda>i. le32 (tinymt32 libs i)) [rng..<rng + 4])), rng + 4)"
    by (simp add: software_rng_ok)
  have "[rng..<rng + 4] = [rng, rng + 1, rng + 2, rng + 3]" by (simp add: upt_rec)
  then have "length (take 16 (concat (map (\<lambda>i. le32 (tinymt32 libs i)) [rng..<rng + 4]))) = 16"
    by simp
  then obtain r where r: "rng_generate_data (software_crypto libs) rng 16 = (True, r, rng + 4)" "length r = 16"
    using iv by simp
  show ?thesis
    using assms(2) r aes [OF assms(4)] assms(3-6)
    by (auto simp: protocol_inits ctap_pin_protocol_v1_encrypt_def ctap_pin_protocol_v2_encrypt_def
        ctap_pin_protocol_v1_decrypt_def ctap_pin_protocol_v2_decrypt_def
        ctap_software_crypto_aes_256_cbc_encrypt_def ctap_software_crypto_aes_256_cbc_decrypt_def)
qed

theorem encrypt_decrypt_roundtrip_witness:
  "\<exists>c rng1. protocol_encrypt protocol_v2 (software_crypto example_libraries) 7 (replicate 64 9) (replicate 32 1) 48
       = Some (Some c, rng1)
     \<and> length c = 48
     \<and> protocol_decrypt protocol_v2 (software_crypto example_libraries) (replicate 64 9) c 32
       = Some (Some (replicate 32 1))"
proof -
  have aes: "AES_CBC_decrypt_buffer example_libraries iv key (AES_CBC_encrypt_buffer example_libraries iv key d) = d
      \<and> length (AES_CBC_encrypt_buffer example_libraries iv key d) = length d" for iv key d
    by (simp add: example_libraries_def comp_def xor.assoc)
  show ?thesis
    using encrypt_decrypt_roundtrip [of example_libraries protocol_v2
        "replicate 64 9" "replicate 32 1" 48 32 7] aes
    by (simp add: protocol_inits)
qed

end
