(* ===== verification/Cbor_Decode.thy ===== *)
theory Cbor_Decode
  imports Ctap_State Strings_Asn1
begin

text \<open>
  The decoding interface of TinyCBOR as the parsers use it, the checking macros of
  \<open>core/ctap_cbor.h\<close> and \<open>core/ctap_common.h\<close>, and the basic parsers of \<open>core/ctap_parse.c\<close>.
  TinyCBOR is a submodule that is not part of the repository: its functions are a record of
  functions over an abstract iterator \<open>'v\<close> (a \<open>CborValue\<close>), and every parser takes that record.
\<close>

section \<open>The TinyCBOR decoder\<close>

text \<open>
  \<open>None\<close> is a \<open>CborError\<close> other than \<open>CborNoError\<close>. \<open>value_extra\<close> and \<open>integer_too_large\<close> are
  the field and the flag of a \<open>CborValue\<close> the code reads directly; \<open>source_ptr\<close> is the position
  of an iterator in the request. A string chunk is \<open>None\<close> when the data pointer is \<open>NULL\<close>.
\<close>

record 'v tinycbor =
  cbor_value_is_map :: "'v \<Rightarrow> bool"
  cbor_value_is_array :: "'v \<Rightarrow> bool"
  cbor_value_is_integer :: "'v \<Rightarrow> bool"
  cbor_value_is_unsigned_integer :: "'v \<Rightarrow> bool"
  cbor_value_is_byte_string :: "'v \<Rightarrow> bool"
  cbor_value_is_text_string :: "'v \<Rightarrow> bool"
  cbor_value_is_boolean :: "'v \<Rightarrow> bool"
  cbor_value_is_length_known :: "'v \<Rightarrow> bool"
  cbor_value_enter_container :: "'v \<Rightarrow> 'v option"
  cbor_value_leave_container :: "'v \<Rightarrow> 'v \<Rightarrow> 'v option"
  cbor_value_get_map_length :: "'v \<Rightarrow> nat option"
  cbor_value_get_array_length :: "'v \<Rightarrow> nat option"
  cbor_value_get_string_length :: "'v \<Rightarrow> nat option"
  cbor_value_get_int_checked :: "'v \<Rightarrow> int option"
  cbor_value_get_uint64 :: "'v \<Rightarrow> u64 option"
  cbor_value_get_boolean :: "'v \<Rightarrow> bool option"
  integer_too_large :: "'v \<Rightarrow> bool"
  value_extra :: "'v \<Rightarrow> u16"
  cbor_value_advance_fixed :: "'v \<Rightarrow> 'v option"
  cbor_value_advance :: "'v \<Rightarrow> 'v option"
  cbor_value_begin_string_iteration :: "'v \<Rightarrow> 'v option"
  cbor_value_get_byte_string_chunk :: "'v \<Rightarrow> (bytes option \<times> 'v) option"
  cbor_value_get_text_string_chunk :: "'v \<Rightarrow> (bytes option \<times> 'v) option"
  cbor_value_finish_string_iteration :: "'v \<Rightarrow> 'v option"
  cbor_value_copy_text_string :: "'v \<Rightarrow> nat \<Rightarrow> (bytes \<times> 'v) option"
  source_ptr :: "'v \<Rightarrow> nat"

section \<open>Results\<close>

text \<open>
  What a parser returns: the values and the moved iterator with \<open>CTAP2_OK\<close>, or a status code
  other than \<open>CTAP2_OK\<close>, or \<open>Abort\<close>: a failed assertion or a dereferenced null pointer. After an
  error the partly filled structures are not read by any caller, so an error carries only its code.
\<close>

datatype 'a presult = Ok 'a | Err u8 | Abort

primrec ctap_check :: "'a presult \<Rightarrow> ('a \<Rightarrow> 'b presult) \<Rightarrow> 'b presult" where
  "ctap_check (Ok x) k = k x"
| "ctap_check (Err e) k = Err e"
| "ctap_check Abort k = Abort"

primrec cbor_decoding_check :: "'a option \<Rightarrow> ('a \<Rightarrow> 'b presult) \<Rightarrow> 'b presult" where
  "cbor_decoding_check (Some x) k = k x"
| "cbor_decoding_check None k = Err CTAP2_ERR_INVALID_CBOR"

definition ctap_cbor_ensure_type :: "bool \<Rightarrow> 'b presult \<Rightarrow> 'b presult" where
  "ctap_cbor_ensure_type b k = (if b then k else Err CTAP2_ERR_CBOR_UNEXPECTED_TYPE)"

definition assert_that :: "bool \<Rightarrow> 'b presult \<Rightarrow> 'b presult" where
  "assert_that b k = (if b then k else Abort)"

lemma ctap_check_eq_Ok: "ctap_check r k = Ok y \<longleftrightarrow> (\<exists>x. r = Ok x \<and> k x = Ok y)"
  by (cases r) auto

lemma cbor_decoding_check_eq_Ok: "cbor_decoding_check r k = Ok y \<longleftrightarrow> (\<exists>x. r = Some x \<and> k x = Ok y)"
  by (cases r) auto

lemma ensure_type_eq_Ok: "ctap_cbor_ensure_type b k = Ok y \<longleftrightarrow> b \<and> k = Ok y"
  by (simp add: ctap_cbor_ensure_type_def)

lemma assert_that_eq_Ok: "assert_that b k = Ok y \<longleftrightarrow> b \<and> k = Ok y"
  by (simp add: assert_that_def)

lemmas presult_eq_Ok = ctap_check_eq_Ok cbor_decoding_check_eq_Ok ensure_type_eq_Ok
  assert_that_eq_Ok

lemma ctap_check_cong [fundef_cong]:
  "r = r' \<Longrightarrow> (\<And>x. r' = Ok x \<Longrightarrow> k x = k' x) \<Longrightarrow> ctap_check r k = ctap_check r' k'"
  by (cases r') auto

section \<open>Basic parsers\<close>

definition ctap_cbor_value_get_uint8 :: "'v tinycbor \<Rightarrow> 'v \<Rightarrow> (u8 \<Rightarrow> 'b presult) \<Rightarrow> 'b presult" where
  "ctap_cbor_value_get_uint8 dec v k =
     assert_that (cbor_value_is_unsigned_integer dec v) (
       cbor_decoding_check (if integer_too_large dec v then None
         else if value_extra dec v > 255 then None
         else Some (ucast (value_extra dec v))) k)"

definition parse_uint8 :: "'v tinycbor \<Rightarrow> 'v \<Rightarrow> (u8 \<times> 'v) presult" where
  "parse_uint8 dec it =
     ctap_cbor_ensure_type (cbor_value_is_unsigned_integer dec it) (
     ctap_cbor_value_get_uint8 dec it (\<lambda>result.
     cbor_decoding_check (cbor_value_advance_fixed dec it) (\<lambda>it1.
     Ok (result, it1))))"

definition parse_byte_string_to_ctap_string :: "'v tinycbor \<Rightarrow> 'v \<Rightarrow> (bytes \<times> 'v) presult" where
  "parse_byte_string_to_ctap_string dec it =
     ctap_cbor_ensure_type (cbor_value_is_byte_string dec it) (
     if \<not> cbor_value_is_length_known dec it then Err CTAP2_ERR_INVALID_CBOR
     else
     cbor_decoding_check (cbor_value_begin_string_iteration dec it) (\<lambda>it1.
     cbor_decoding_check (cbor_value_get_byte_string_chunk dec it1) (\<lambda>(chunk, it2).
     assert_that (chunk \<noteq> None) (
     cbor_decoding_check (cbor_value_finish_string_iteration dec it2) (\<lambda>it3.
     Ok (the chunk, it3))))))"

definition parse_text_string_to_ctap_string :: "'v tinycbor \<Rightarrow> 'v \<Rightarrow> (bytes \<times> 'v) presult" where
  "parse_text_string_to_ctap_string dec it =
     ctap_cbor_ensure_type (cbor_value_is_text_string dec it) (
     if \<not> cbor_value_is_length_known dec it then Err CTAP2_ERR_INVALID_CBOR
     else
     cbor_decoding_check (cbor_value_begin_string_iteration dec it) (\<lambda>it1.
     cbor_decoding_check (cbor_value_get_text_string_chunk dec it1) (\<lambda>(chunk, it2).
     assert_that (chunk \<noteq> None) (
     cbor_decoding_check (cbor_value_finish_string_iteration dec it2) (\<lambda>it3.
     Ok (the chunk, it3))))))"

definition parse_copy_fixed_byte_string :: "'v tinycbor \<Rightarrow> 'v \<Rightarrow> nat \<Rightarrow> (bytes \<times> 'v) presult" where
  "parse_copy_fixed_byte_string dec it expected_length =
     ctap_check (parse_byte_string_to_ctap_string dec it) (\<lambda>(byte_string, it1).
     if length byte_string \<noteq> expected_length then Err CTAP2_ERR_CBOR_UNEXPECTED_TYPE
     else Ok (byte_string, it1))"

text \<open>The repeated sequence that reads an \<open>int\<close> and moves on.\<close>

definition parse_int :: "'v tinycbor \<Rightarrow> 'v \<Rightarrow> (int \<times> 'v) presult" where
  "parse_int dec it =
     ctap_cbor_ensure_type (cbor_value_is_integer dec it) (
     cbor_decoding_check (cbor_value_get_int_checked dec it) (\<lambda>result.
     cbor_decoding_check (cbor_value_advance_fixed dec it) (\<lambda>it1.
     Ok (result, it1))))"

section \<open>Maps\<close>

text \<open>
  \<open>ctap_parse_map_enter\<close>, the loop over the pairs and \<open>ctap_parse_map_leave\<close>. The key is read by
  \<open>get_key\<close> (\<open>ctap_parse_map_get_int_key\<close> or \<open>ctap_parse_map_get_string_key\<close>); \<open>entry\<close> handles
  the value of one key and updates the parameters.
\<close>

fun parse_entries :: "nat \<Rightarrow> ('v \<Rightarrow> ('k \<times> 'v) presult) \<Rightarrow> ('k \<Rightarrow> 'p \<Rightarrow> 'v \<Rightarrow> ('p \<times> 'v) presult)
    \<Rightarrow> 'p \<Rightarrow> 'v \<Rightarrow> ('p \<times> 'v) presult" where
  "parse_entries 0 get_key entry p m = Ok (p, m)"
| "parse_entries (Suc n) get_key entry p m =
     ctap_check (get_key m) (\<lambda>(key, m1).
     ctap_check (entry key p m1) (\<lambda>(p1, m2).
     parse_entries n get_key entry p1 m2))"

definition parse_map :: "'v tinycbor \<Rightarrow> ('v \<Rightarrow> ('k \<times> 'v) presult)
    \<Rightarrow> ('k \<Rightarrow> 'p \<Rightarrow> 'v \<Rightarrow> ('p \<times> 'v) presult) \<Rightarrow> 'p \<Rightarrow> 'v \<Rightarrow> ('p \<times> 'v) presult" where
  "parse_map dec get_key entry p it =
     ctap_cbor_ensure_type (cbor_value_is_map dec it) (
     cbor_decoding_check (cbor_value_enter_container dec it) (\<lambda>m.
     cbor_decoding_check (cbor_value_get_map_length dec it) (\<lambda>map_length.
     ctap_check (parse_entries map_length get_key entry p m) (\<lambda>(p1, m1).
     cbor_decoding_check (cbor_value_leave_container dec it m1) (\<lambda>it1.
     Ok (p1, it1))))))"

text \<open>The default case of the parsers: skip the value of an unknown key.\<close>

definition skip_value :: "'v tinycbor \<Rightarrow> 'p \<Rightarrow> 'v \<Rightarrow> ('p \<times> 'v) presult" where
  "skip_value dec p m = cbor_decoding_check (cbor_value_advance dec m) (\<lambda>m1. Ok (p, m1))"

text \<open>What every entry preserves holds of the result of a map.\<close>

lemma parse_entries_invariant:
  assumes "parse_entries n get_key entry p m = Ok (p', m')" and "I p"
      and "\<And>k q v q' v'. I q \<Longrightarrow> entry k q v = Ok (q', v') \<Longrightarrow> I q'"
  shows "I p'"
  using assms(1,2)
proof (induction n arbitrary: p m)
  case (Suc n)
  then show ?case using assms(3) by (fastforce simp: presult_eq_Ok)
qed simp

lemma parse_map_invariant:
  assumes "parse_map dec get_key entry p it = Ok (p', it')" and "I p"
      and "\<And>k q v q' v'. I q \<Longrightarrow> entry k q v = Ok (q', v') \<Longrightarrow> I q'"
  shows "I p'"
  using assms(1) parse_entries_invariant [of _ get_key entry p _ p' _ I, OF _ assms(2,3)]
  by (fastforce simp: parse_map_def presult_eq_Ok)

end
