(* ===== verification/Ctap_Parse.thy ===== *)
theory Ctap_Parse
  imports Cbor_Decode Pin_Protocol
begin

text \<open>
  The parsers of the request parameters (\<open>core/ctap_parse.c\<close>, \<open>core/ctap_parse.h\<close>). A parameter
  structure starts zeroed and collects the values and, in \<open>present\<close>, which of them were given. A
  \<open>ctap_string_t\<close> is the byte string its pointer and size denote.
\<close>

section \<open>Parameter structures\<close>

definition zero_COSE_Key :: COSE_Key where
  "zero_COSE_Key = \<lparr>cose_present = 0, key_kty = 0, key_alg = 0, key_crv = 0,
     pubkey_x = zeros 32, pubkey_y = zeros 32\<rparr>"

record CTAP_userEntity =
  user_fields :: u32
  user_id :: bytes
  user_name :: bytes
  user_displayName :: bytes

definition zero_CTAP_userEntity :: CTAP_userEntity where
  "zero_CTAP_userEntity = \<lparr>user_fields = 0, user_id = [], user_name = [], user_displayName = []\<rparr>"

record CTAP_credDesc =
  credDesc_type :: u8
  credDesc_id :: bytes

record CTAP_credParams =
  credParams_type :: u8
  credParams_alg :: int

record CTAP_mc_ga_options =
  options_present :: u8
  options_values :: u8

record CTAP_mc_ga_common =
  params_present :: u32
  clientDataHash :: bytes
  rpId :: bytes
  extensions_present :: u8
  options :: CTAP_mc_ga_options
  pinUvAuthParam :: bytes
  pinUvAuthProtocol :: u8

definition zero_CTAP_mc_ga_common :: CTAP_mc_ga_common where
  "zero_CTAP_mc_ga_common = \<lparr>params_present = 0, clientDataHash = [], rpId = [],
     extensions_present = 0, options = \<lparr>options_present = 0, options_values = 0\<rparr>,
     pinUvAuthParam = [], pinUvAuthProtocol = 0\<rparr>"

text \<open>The saved iterators (\<open>pubKeyCredParams\<close>, \<open>excludeList\<close>, \<open>allowList\<close>) are \<open>None\<close> while zeroed.\<close>

record 'v CTAP_makeCredential =
  mc_common :: CTAP_mc_ga_common
  mc_user :: CTAP_userEntity
  pubKeyCredParams :: "'v option"
  pubKeyCredParams_chosen :: CTAP_credParams
  excludeList :: "'v option"
  credProtect :: u8

definition zero_CTAP_makeCredential :: "'v CTAP_makeCredential" where
  "zero_CTAP_makeCredential = \<lparr>mc_common = zero_CTAP_mc_ga_common,
     mc_user = zero_CTAP_userEntity, pubKeyCredParams = None,
     pubKeyCredParams_chosen = \<lparr>credParams_type = 0, credParams_alg = 0\<rparr>, excludeList = None,
     credProtect = 0\<rparr>"

record CTAP_getAssertion_hmac_secret =
  hs_present :: u32
  hs_keyAgreement :: COSE_Key
  hs_saltEnc :: bytes
  hs_saltAuth :: bytes
  hs_pinUvAuthProtocol :: u8

record 'v CTAP_getAssertion =
  ga_common :: CTAP_mc_ga_common
  allowList :: "'v option"
  hmac_secret :: CTAP_getAssertion_hmac_secret

definition zero_CTAP_getAssertion :: "'v CTAP_getAssertion" where
  "zero_CTAP_getAssertion = \<lparr>ga_common = zero_CTAP_mc_ga_common, allowList = None,
     hmac_secret = \<lparr>hs_present = 0, hs_keyAgreement = zero_COSE_Key, hs_saltEnc = [],
       hs_saltAuth = [], hs_pinUvAuthProtocol = 0\<rparr>\<rparr>"

record CTAP_clientPIN =
  cp_present :: u32
  cp_pinUvAuthProtocol :: u8
  cp_subCommand :: u8
  cp_keyAgreement :: COSE_Key
  cp_pinUvAuthParam :: bytes
  cp_newPinEnc :: bytes
  cp_pinHashEnc :: bytes
  cp_permissions :: u32
  cp_rpId :: bytes

definition zero_CTAP_clientPIN :: CTAP_clientPIN where
  "zero_CTAP_clientPIN = \<lparr>cp_present = 0, cp_pinUvAuthProtocol = 0, cp_subCommand = 0,
     cp_keyAgreement = zero_COSE_Key, cp_pinUvAuthParam = [], cp_newPinEnc = [],
     cp_pinHashEnc = [], cp_permissions = 0, cp_rpId = []\<rparr>"

text \<open>\<open>raw_start\<close> and \<open>raw_size\<close> delimit the bytes of the map in the request.\<close>

record CTAP_credentialManagement_subCmdParams =
  raw_start :: nat
  raw_size :: nat
  sub_present :: u32
  rpIDHash :: bytes
  credentialID :: CTAP_credDesc
  sub_user :: CTAP_userEntity

record CTAP_credentialManagement =
  cm_present :: u32
  cm_subCommand :: u8
  cm_subCommandParams :: CTAP_credentialManagement_subCmdParams
  cm_pinUvAuthProtocol :: u8
  cm_pinUvAuthParam :: bytes

definition zero_CTAP_credentialManagement :: CTAP_credentialManagement where
  "zero_CTAP_credentialManagement = \<lparr>cm_present = 0, cm_subCommand = 0,
     cm_subCommandParams = \<lparr>raw_start = 0, raw_size = 0, sub_present = 0, rpIDHash = [],
       credentialID = \<lparr>credDesc_type = 0, credDesc_id = []\<rparr>, sub_user = zero_CTAP_userEntity\<rparr>,
     cm_pinUvAuthProtocol = 0, cm_pinUvAuthParam = []\<rparr>"

text \<open>\<open>ctap_set_present\<close> on the bit set of a structure.\<close>

definition ctap_set_present :: "nat \<Rightarrow> u32 \<Rightarrow> u32" where
  "ctap_set_present number present = present OR ctap_param_to_mask number"

lemma bit_ctap_set_present [simp]:
  "i < 32 \<Longrightarrow> n < 32 \<Longrightarrow> bit (ctap_set_present n p) i \<longleftrightarrow> bit p i \<or> i = n"
  by (auto simp: ctap_set_present_def ctap_param_to_mask_def bit_simps)

section \<open>Keys\<close>

abbreviation (input) COSE_Key_field_kty :: nat where "COSE_Key_field_kty \<equiv> 1"
abbreviation (input) COSE_Key_field_alg :: nat where "COSE_Key_field_alg \<equiv> 2"
abbreviation (input) COSE_Key_field_crv :: nat where "COSE_Key_field_crv \<equiv> 3"
abbreviation (input) COSE_Key_field_pubkey_x :: nat where "COSE_Key_field_pubkey_x \<equiv> 4"
abbreviation (input) COSE_Key_field_pubkey_y :: nat where "COSE_Key_field_pubkey_y \<equiv> 5"

definition parse_cose_key_entry ::
    "'v tinycbor \<Rightarrow> int \<Rightarrow> COSE_Key \<Rightarrow> 'v \<Rightarrow> (COSE_Key \<times> 'v) presult" where
  "parse_cose_key_entry dec key c m =
     (if key = 1 then
        ctap_check (parse_int dec m) (\<lambda>(v, m1).
        Ok (c\<lparr>key_kty := v, cose_present := ctap_set_present COSE_Key_field_kty (cose_present c)\<rparr>,
            m1))
      else if key = 3 then
        ctap_check (parse_int dec m) (\<lambda>(v, m1).
        Ok (c\<lparr>key_alg := v, cose_present := ctap_set_present COSE_Key_field_alg (cose_present c)\<rparr>,
            m1))
      else if key = -1 then
        ctap_check (parse_int dec m) (\<lambda>(v, m1).
        Ok (c\<lparr>key_crv := v, cose_present := ctap_set_present COSE_Key_field_crv (cose_present c)\<rparr>,
            m1))
      else if key = -2 then
        ctap_check (parse_copy_fixed_byte_string dec m 32) (\<lambda>(v, m1).
        Ok (c\<lparr>pubkey_x := v,
              cose_present := ctap_set_present COSE_Key_field_pubkey_x (cose_present c)\<rparr>, m1))
      else if key = -3 then
        ctap_check (parse_copy_fixed_byte_string dec m 32) (\<lambda>(v, m1).
        Ok (c\<lparr>pubkey_y := v,
              cose_present := ctap_set_present COSE_Key_field_pubkey_y (cose_present c)\<rparr>, m1))
      else skip_value dec c m)"

definition parse_cose_key :: "'v tinycbor \<Rightarrow> COSE_Key \<Rightarrow> 'v \<Rightarrow> (COSE_Key \<times> 'v) presult" where
  "parse_cose_key dec cose_key it =
     ctap_check (parse_map dec (parse_int dec) (parse_cose_key_entry dec) cose_key it) (\<lambda>(c, it1).
     if \<not> ctap_is_present (cose_present c) (ctap_param_to_mask COSE_Key_field_kty)
     then Err CTAP2_ERR_CBOR_UNEXPECTED_TYPE
     else if key_kty c = 2 then
       let required_params = ctap_param_to_mask COSE_Key_field_crv
             OR ctap_param_to_mask COSE_Key_field_pubkey_x
             OR ctap_param_to_mask COSE_Key_field_pubkey_y in
       if \<not> ctap_is_present (cose_present c) required_params
       then Err CTAP2_ERR_CBOR_UNEXPECTED_TYPE
       else Ok (c, it1)
     else Err CTAP2_ERR_CBOR_UNEXPECTED_TYPE)"

definition parse_pin_uv_auth_protocol_public_key ::
    "'v tinycbor \<Rightarrow> COSE_Key \<Rightarrow> 'v \<Rightarrow> (COSE_Key \<times> 'v) presult" where
  "parse_pin_uv_auth_protocol_public_key dec cose_key it =
     ctap_check (parse_cose_key dec cose_key it) (\<lambda>(c, it1).
     if \<not> ctap_is_present (cose_present c) (ctap_param_to_mask COSE_Key_field_alg)
     then Err CTAP2_ERR_CBOR_UNEXPECTED_TYPE
     else if key_alg c \<noteq> -25 then Err CTAP2_ERR_CBOR_UNEXPECTED_TYPE
     else if key_crv c \<noteq> 1 then Err CTAP2_ERR_CBOR_UNEXPECTED_TYPE
     else Ok (c, it1))"

section \<open>authenticatorClientPIN\<close>

abbreviation (input) CTAP_clientPIN_pinUvAuthProtocol :: nat where "CTAP_clientPIN_pinUvAuthProtocol \<equiv> 1"
abbreviation (input) CTAP_clientPIN_subCommand :: nat where "CTAP_clientPIN_subCommand \<equiv> 2"
abbreviation (input) CTAP_clientPIN_keyAgreement :: nat where "CTAP_clientPIN_keyAgreement \<equiv> 3"
abbreviation (input) CTAP_clientPIN_pinUvAuthParam :: nat where "CTAP_clientPIN_pinUvAuthParam \<equiv> 4"
abbreviation (input) CTAP_clientPIN_newPinEnc :: nat where "CTAP_clientPIN_newPinEnc \<equiv> 5"
abbreviation (input) CTAP_clientPIN_pinHashEnc :: nat where "CTAP_clientPIN_pinHashEnc \<equiv> 6"
abbreviation (input) CTAP_clientPIN_permissions :: nat where "CTAP_clientPIN_permissions \<equiv> 9"
abbreviation (input) CTAP_clientPIN_rpId :: nat where "CTAP_clientPIN_rpId \<equiv> 10"

definition ctap_parse_client_pin_entry ::
    "'v tinycbor \<Rightarrow> int \<Rightarrow> CTAP_clientPIN \<Rightarrow> 'v \<Rightarrow> (CTAP_clientPIN \<times> 'v) presult" where
  "ctap_parse_client_pin_entry dec key p m =
     (let present = (\<lambda>n. ctap_set_present n (cp_present p)) in
      if key = 1 then
        ctap_check (parse_uint8 dec m) (\<lambda>(v, m1).
        Ok (p\<lparr>cp_pinUvAuthProtocol := v, cp_present := present CTAP_clientPIN_pinUvAuthProtocol\<rparr>, m1))
      else if key = 2 then
        ctap_check (parse_uint8 dec m) (\<lambda>(v, m1).
        Ok (p\<lparr>cp_subCommand := v, cp_present := present CTAP_clientPIN_subCommand\<rparr>, m1))
      else if key = 3 then
        ctap_check (parse_pin_uv_auth_protocol_public_key dec (cp_keyAgreement p) m) (\<lambda>(v, m1).
        Ok (p\<lparr>cp_keyAgreement := v, cp_present := present CTAP_clientPIN_keyAgreement\<rparr>, m1))
      else if key = 4 then
        ctap_check (parse_byte_string_to_ctap_string dec m) (\<lambda>(v, m1).
        Ok (p\<lparr>cp_pinUvAuthParam := v, cp_present := present CTAP_clientPIN_pinUvAuthParam\<rparr>, m1))
      else if key = 5 then
        ctap_check (parse_byte_string_to_ctap_string dec m) (\<lambda>(v, m1).
        Ok (p\<lparr>cp_newPinEnc := v, cp_present := present CTAP_clientPIN_newPinEnc\<rparr>, m1))
      else if key = 6 then
        ctap_check (parse_byte_string_to_ctap_string dec m) (\<lambda>(v, m1).
        Ok (p\<lparr>cp_pinHashEnc := v, cp_present := present CTAP_clientPIN_pinHashEnc\<rparr>, m1))
      else if key = 9 then
        ctap_cbor_ensure_type (cbor_value_is_unsigned_integer dec m) (
        cbor_decoding_check (cbor_value_get_uint64 dec m) (\<lambda>v.
        ctap_cbor_ensure_type (v \<le> 0xFFFFFFFF) (
        cbor_decoding_check (cbor_value_advance_fixed dec m) (\<lambda>m1.
        Ok (p\<lparr>cp_permissions := ucast v, cp_present := present CTAP_clientPIN_permissions\<rparr>, m1)))))
      else if key = 10 then
        ctap_check (parse_text_string_to_ctap_string dec m) (\<lambda>(v, m1).
        Ok (p\<lparr>cp_rpId := v, cp_present := present CTAP_clientPIN_rpId\<rparr>, m1))
      else skip_value dec p m)"

text \<open>
  The parameter pointer is \<open>NULL\<close> (here \<open>None\<close>) for a request without parameters.
  \<open>ctap_parse_map_enter\<close> reads through it before it is compared with \<open>NULL\<close>.
\<close>

definition ctap_parse_client_pin ::
    "'v tinycbor \<Rightarrow> 'v option \<Rightarrow> (CTAP_clientPIN \<times> 'v) presult" where
  "ctap_parse_client_pin dec it =
     (case it of
        None \<Rightarrow> Abort
      | Some v \<Rightarrow>
          ctap_check (parse_map dec (parse_int dec) (ctap_parse_client_pin_entry dec)
                        zero_CTAP_clientPIN v) (\<lambda>(p, v1).
          if \<not> ctap_is_present (cp_present p) (ctap_param_to_mask CTAP_clientPIN_subCommand)
          then Err CTAP2_ERR_MISSING_PARAMETER
          else Ok (p, v1)))"

section \<open>Entities and options\<close>

definition parse_rp_entity_entry ::
    "'v tinycbor \<Rightarrow> bytes \<Rightarrow> bytes \<times> bool \<Rightarrow> 'v \<Rightarrow> ((bytes \<times> bool) \<times> 'v) presult" where
  "parse_rp_entity_entry dec key p m =
     (if ctap_string_matches key (ctap_str ''id'') then
        ctap_check (parse_text_string_to_ctap_string dec m) (\<lambda>(v, m1). Ok ((v, True), m1))
      else if ctap_string_matches key (ctap_str ''name'') then
        ctap_cbor_ensure_type (cbor_value_is_text_string dec m) (skip_value dec p m)
      else if ctap_string_matches key (ctap_str ''icon'') then
        ctap_cbor_ensure_type (cbor_value_is_byte_string dec m) (skip_value dec p m)
      else skip_value dec p m)"

definition parse_rp_entity :: "'v tinycbor \<Rightarrow> bytes \<Rightarrow> 'v \<Rightarrow> (bytes \<times> 'v) presult" where
  "parse_rp_entity dec rp_id it =
     ctap_check (parse_map dec (parse_text_string_to_ctap_string dec) (parse_rp_entity_entry dec)
                   (rp_id, False) it) (\<lambda>((v, id_parsed), it1).
     if \<not> id_parsed then Err CTAP2_ERR_CBOR_UNEXPECTED_TYPE else Ok (v, it1))"

abbreviation (input) CTAP_USER_ENTITY_ID_MAX_SIZE :: nat where "CTAP_USER_ENTITY_ID_MAX_SIZE \<equiv> 64"
abbreviation (input) CTAP_userEntity_id :: nat where "CTAP_userEntity_id \<equiv> 1"
abbreviation (input) CTAP_userEntity_name :: nat where "CTAP_userEntity_name \<equiv> 2"
abbreviation (input) CTAP_userEntity_displayName :: nat where "CTAP_userEntity_displayName \<equiv> 3"

definition parse_user_entity_entry ::
    "'v tinycbor \<Rightarrow> bytes \<Rightarrow> CTAP_userEntity \<Rightarrow> 'v \<Rightarrow> (CTAP_userEntity \<times> 'v) presult" where
  "parse_user_entity_entry dec key u m =
     (if ctap_string_matches key (ctap_str ''id'') then
        ctap_check (parse_byte_string_to_ctap_string dec m) (\<lambda>(v, m1).
        if length v > CTAP_USER_ENTITY_ID_MAX_SIZE then Err CTAP2_ERR_CBOR_UNEXPECTED_TYPE
        else Ok (u\<lparr>user_id := v, user_fields := ctap_set_present CTAP_userEntity_id (user_fields u)\<rparr>,
                 m1))
      else if ctap_string_matches key (ctap_str ''name'') then
        ctap_check (parse_text_string_to_ctap_string dec m) (\<lambda>(v, m1).
        Ok (u\<lparr>user_name := v, user_fields := ctap_set_present CTAP_userEntity_name (user_fields u)\<rparr>,
            m1))
      else if ctap_string_matches key (ctap_str ''displayName'') then
        ctap_check (parse_text_string_to_ctap_string dec m) (\<lambda>(v, m1).
        Ok (u\<lparr>user_displayName := v,
              user_fields := ctap_set_present CTAP_userEntity_displayName (user_fields u)\<rparr>, m1))
      else if ctap_string_matches key (ctap_str ''icon'') then
        ctap_cbor_ensure_type (cbor_value_is_byte_string dec m) (skip_value dec u m)
      else skip_value dec u m)"

definition parse_user_entity ::
    "'v tinycbor \<Rightarrow> CTAP_userEntity \<Rightarrow> 'v \<Rightarrow> (CTAP_userEntity \<times> 'v) presult" where
  "parse_user_entity dec user it =
     ctap_check (parse_map dec (parse_text_string_to_ctap_string dec) (parse_user_entity_entry dec)
                   user it) (\<lambda>(u, it1).
     if \<not> ctap_is_present (user_fields u) (ctap_param_to_mask CTAP_userEntity_id)
     then Err CTAP2_ERR_CBOR_UNEXPECTED_TYPE else Ok (u, it1))"

abbreviation (input) CTAP_ma_ga_option_rk :: u8 where "CTAP_ma_ga_option_rk \<equiv> 1"
abbreviation (input) CTAP_ma_ga_option_up :: u8 where "CTAP_ma_ga_option_up \<equiv> 2"
abbreviation (input) CTAP_ma_ga_option_uv :: u8 where "CTAP_ma_ga_option_uv \<equiv> 4"

definition mc_ga_option_of_key :: "bytes \<Rightarrow> u8 option" where
  "mc_ga_option_of_key key =
     (if ctap_string_matches key (ctap_str ''rk'') then Some CTAP_ma_ga_option_rk
      else if ctap_string_matches key (ctap_str ''up'') then Some CTAP_ma_ga_option_up
      else if ctap_string_matches key (ctap_str ''uv'') then Some CTAP_ma_ga_option_uv
      else None)"

definition parse_mc_ga_options_entry ::
    "'v tinycbor \<Rightarrow> bytes \<Rightarrow> CTAP_mc_ga_options \<Rightarrow> 'v \<Rightarrow> (CTAP_mc_ga_options \<times> 'v) presult" where
  "parse_mc_ga_options_entry dec key opts m =
     (case mc_ga_option_of_key key of
        None \<Rightarrow> skip_value dec opts m
      | Some option \<Rightarrow>
          ctap_cbor_ensure_type (cbor_value_is_boolean dec m) (
          cbor_decoding_check (cbor_value_get_boolean dec m) (\<lambda>value.
          cbor_decoding_check (cbor_value_advance_fixed dec m) (\<lambda>m1.
          Ok (opts\<lparr>options_present := options_present opts OR option,
                options_values := (if value then options_values opts OR option
                                   else options_values opts)\<rparr>, m1)))))"

definition parse_mc_ga_options ::
    "'v tinycbor \<Rightarrow> CTAP_mc_ga_options \<Rightarrow> 'v \<Rightarrow> (CTAP_mc_ga_options \<times> 'v) presult" where
  "parse_mc_ga_options dec opts it =
     parse_map dec (parse_text_string_to_ctap_string dec) (parse_mc_ga_options_entry dec) opts it"

section \<open>authenticatorMakeCredential\<close>

abbreviation (input) CTAP_extension_credProtect :: u8 where "CTAP_extension_credProtect \<equiv> 1"
abbreviation (input) CTAP_extension_hmac_secret :: u8 where "CTAP_extension_hmac_secret \<equiv> 2"

text \<open>The accumulator: \<open>extensions_present\<close> and \<open>credProtect\<close>.\<close>

definition parse_make_credential_extensions_entry ::
    "'v tinycbor \<Rightarrow> bytes \<Rightarrow> u8 \<times> u8 \<Rightarrow> 'v \<Rightarrow> ((u8 \<times> u8) \<times> 'v) presult" where
  "parse_make_credential_extensions_entry dec key p m =
     (if ctap_string_matches key (ctap_str ''credProtect'') then
        ctap_check (parse_uint8 dec m) (\<lambda>(v, m1).
        Ok ((fst p OR CTAP_extension_credProtect, v), m1))
      else if ctap_string_matches key (ctap_str ''hmac-secret'') then
        ctap_cbor_ensure_type (cbor_value_is_boolean dec m) (
        cbor_decoding_check (cbor_value_get_boolean dec m) (\<lambda>value.
        cbor_decoding_check (cbor_value_advance_fixed dec m) (\<lambda>m1.
        Ok (if value then (fst p OR CTAP_extension_hmac_secret, snd p) else p, m1))))
      else skip_value dec p m)"

definition parse_make_credential_extensions ::
    "'v tinycbor \<Rightarrow> 'v CTAP_makeCredential \<Rightarrow> 'v \<Rightarrow> ('v CTAP_makeCredential \<times> 'v) presult" where
  "parse_make_credential_extensions dec mc it =
     ctap_check (parse_map dec (parse_text_string_to_ctap_string dec)
                   (parse_make_credential_extensions_entry dec)
                   (extensions_present (mc_common mc), credProtect mc) it) (\<lambda>((ext, cp), it1).
     Ok (mc\<lparr>mc_common := (mc_common mc)\<lparr>extensions_present := ext\<rparr>, credProtect := cp\<rparr>, it1))"

definition mc_set_present :: "nat \<Rightarrow> 'v CTAP_makeCredential \<Rightarrow> 'v CTAP_makeCredential" where
  "mc_set_present n mc = mc\<lparr>mc_common := (mc_common mc)\<lparr>params_present :=
     ctap_set_present n (params_present (mc_common mc))\<rparr>\<rparr>"

definition ctap_parse_make_credential_entry ::
    "'v tinycbor \<Rightarrow> int \<Rightarrow> 'v CTAP_makeCredential \<Rightarrow> 'v \<Rightarrow> ('v CTAP_makeCredential \<times> 'v) presult" where
  "ctap_parse_make_credential_entry dec key mc m =
     (let params = mc_common mc in
      if key = 1 then
        ctap_check (parse_byte_string_to_ctap_string dec m) (\<lambda>(v, m1).
        if length v \<noteq> 32 then Err CTAP1_ERR_INVALID_PARAMETER
        else Ok (mc_set_present 1 (mc\<lparr>mc_common := params\<lparr>clientDataHash := v\<rparr>\<rparr>), m1))
      else if key = 2 then
        ctap_check (parse_rp_entity dec (rpId params) m) (\<lambda>(v, m1).
        Ok (mc_set_present 2 (mc\<lparr>mc_common := params\<lparr>rpId := v\<rparr>\<rparr>), m1))
      else if key = 3 then
        ctap_check (parse_user_entity dec (mc_user mc) m) (\<lambda>(v, m1).
        Ok (mc_set_present 3 (mc\<lparr>mc_user := v\<rparr>), m1))
      else if key = 4 then
        ctap_cbor_ensure_type (cbor_value_is_array dec m) (
        cbor_decoding_check (cbor_value_advance dec m) (\<lambda>m1.
        Ok (mc_set_present 4 (mc\<lparr>pubKeyCredParams := Some m\<rparr>), m1)))
      else if key = 5 then
        ctap_cbor_ensure_type (cbor_value_is_array dec m) (
        cbor_decoding_check (cbor_value_advance dec m) (\<lambda>m1.
        Ok (mc_set_present 5 (mc\<lparr>excludeList := Some m\<rparr>), m1)))
      else if key = 6 then
        ctap_check (parse_make_credential_extensions dec mc m) (\<lambda>(mc1, m1).
        Ok (mc_set_present 6 mc1, m1))
      else if key = 7 then
        ctap_check (parse_mc_ga_options dec (options params) m) (\<lambda>(v, m1).
        Ok (mc_set_present 7 (mc\<lparr>mc_common := params\<lparr>options := v\<rparr>\<rparr>), m1))
      else if key = 8 then
        ctap_check (parse_byte_string_to_ctap_string dec m) (\<lambda>(v, m1).
        Ok (mc_set_present 8 (mc\<lparr>mc_common := params\<lparr>pinUvAuthParam := v\<rparr>\<rparr>), m1))
      else if key = 9 then
        ctap_check (parse_uint8 dec m) (\<lambda>(v, m1).
        Ok (mc_set_present 9 (mc\<lparr>mc_common := params\<lparr>pinUvAuthProtocol := v\<rparr>\<rparr>), m1))
      else if key = 10 then
        ctap_cbor_ensure_type (cbor_value_is_unsigned_integer dec m) (
        cbor_decoding_check (cbor_value_advance_fixed dec m) (\<lambda>m1.
        Ok (mc_set_present 10 mc, m1)))
      else skip_value dec mc m)"

definition ctap_parse_make_credential ::
    "'v tinycbor \<Rightarrow> 'v option \<Rightarrow> ('v CTAP_makeCredential \<times> 'v) presult" where
  "ctap_parse_make_credential dec it =
     (case it of
        None \<Rightarrow> Abort
      | Some v \<Rightarrow>
          ctap_check (parse_map dec (parse_int dec) (ctap_parse_make_credential_entry dec)
                        zero_CTAP_makeCredential v) (\<lambda>(mc, v1).
          let required_params = ctap_param_to_mask 1 OR ctap_param_to_mask 2
                OR ctap_param_to_mask 3 OR ctap_param_to_mask 4 in
          if \<not> ctap_is_present (params_present (mc_common mc)) required_params
          then Err CTAP2_ERR_MISSING_PARAMETER else Ok (mc, v1)))"

section \<open>Credential parameters and descriptors\<close>

abbreviation (input) CTAP_pubKeyCredType_public_key :: u8 where "CTAP_pubKeyCredType_public_key \<equiv> 1"

text \<open>\<open>strncmp(type, "public-key", n) == 0\<close> for the \<open>n\<close> bytes in \<open>type\<close>, at most 10.\<close>

definition is_public_key_type :: "bytes \<Rightarrow> bool" where
  "is_public_key_type type \<longleftrightarrow> type = take (length type) (ctap_str ''public-key'')"

definition parse_cred_params_entry :: "'v tinycbor \<Rightarrow> bytes \<Rightarrow> CTAP_credParams \<times> bool \<times> bool \<Rightarrow> 'v
    \<Rightarrow> ((CTAP_credParams \<times> bool \<times> bool) \<times> 'v) presult" where
  "parse_cred_params_entry dec key acc m =
     (let (p, type_parsed, alg_parsed) = acc in
      if ctap_string_matches key (ctap_str ''type'') then
        ctap_cbor_ensure_type (cbor_value_is_text_string dec m) (
        cbor_decoding_check (cbor_value_get_string_length dec m) (\<lambda>actual_type_length.
        if actual_type_length > 10 then
          cbor_decoding_check (cbor_value_advance dec m) (\<lambda>m1. Ok ((p, True, alg_parsed), m1))
        else
          cbor_decoding_check (cbor_value_copy_text_string dec m 10) (\<lambda>(type, m1).
          Ok ((if is_public_key_type type
               then p\<lparr>credParams_type := CTAP_pubKeyCredType_public_key\<rparr> else p,
               True, alg_parsed), m1))))
      else if ctap_string_matches key (ctap_str ''alg'') then
        ctap_check (parse_int dec m) (\<lambda>(v, m1).
        Ok ((p\<lparr>credParams_alg := v\<rparr>, type_parsed, True), m1))
      else skip_value dec acc m)"

text \<open>The structure is the caller's: \<open>cred_params\<close> is what it holds before the call.\<close>

definition parse_cred_params ::
    "'v tinycbor \<Rightarrow> CTAP_credParams \<Rightarrow> 'v \<Rightarrow> (CTAP_credParams \<times> 'v) presult" where
  "parse_cred_params dec cred_params it =
     ctap_check (parse_map dec (parse_text_string_to_ctap_string dec) (parse_cred_params_entry dec)
                   (cred_params, False, False) it) (\<lambda>((p, type_parsed, alg_parsed), it1).
     if \<not> type_parsed \<or> \<not> alg_parsed then Err CTAP2_ERR_INVALID_CBOR else Ok (p, it1))"

definition ctap_is_supported_pub_key_cred_alg :: "CTAP_credParams \<Rightarrow> bool" where
  "ctap_is_supported_pub_key_cred_alg cred_params \<longleftrightarrow>
     (if credParams_type cred_params \<noteq> CTAP_pubKeyCredType_public_key then False
      else credParams_alg cred_params \<in> set [-7])"

text \<open>
  The loop over the array. \<open>cred_params\<close> is declared in the loop body without an initial value:
  \<open>stack i\<close> is what it holds when turn \<open>i\<close> begins. \<open>chosen\<close> is \<open>None\<close> until an algorithm is chosen.
\<close>

fun parse_pub_key_cred_params_loop :: "nat \<Rightarrow> nat \<Rightarrow> 'v tinycbor \<Rightarrow> (nat \<Rightarrow> CTAP_credParams)
    \<Rightarrow> CTAP_credParams option \<Rightarrow> 'v \<Rightarrow> CTAP_credParams option presult" where
  "parse_pub_key_cred_params_loop 0 i dec stack chosen array = Ok chosen"
| "parse_pub_key_cred_params_loop (Suc n) i dec stack chosen array =
     ctap_check (parse_cred_params dec (stack i) array) (\<lambda>(cred_params, array1).
     parse_pub_key_cred_params_loop n (Suc i) dec stack
       (if chosen = None \<and> ctap_is_supported_pub_key_cred_alg cred_params
        then Some cred_params else chosen) array1)"

definition ctap_parse_make_credential_pub_key_cred_params ::
    "'v tinycbor \<Rightarrow> (nat \<Rightarrow> CTAP_credParams) \<Rightarrow> 'v CTAP_makeCredential
     \<Rightarrow> 'v CTAP_makeCredential presult" where
  "ctap_parse_make_credential_pub_key_cred_params dec stack mc =
     (case pubKeyCredParams mc of
        None \<Rightarrow> Abort
      | Some v \<Rightarrow>
          assert_that (cbor_value_is_array dec v) (
          cbor_decoding_check (cbor_value_enter_container dec v) (\<lambda>array.
          cbor_decoding_check (cbor_value_get_array_length dec v) (\<lambda>array_length.
          ctap_check (parse_pub_key_cred_params_loop array_length 0 dec stack None array) (\<lambda>chosen.
          case chosen of
            None \<Rightarrow> Err CTAP2_ERR_UNSUPPORTED_ALGORITHM
          | Some cred_params \<Rightarrow> Ok (mc\<lparr>pubKeyCredParams_chosen := cred_params\<rparr>))))))"

definition parse_cred_desc_entry :: "'v tinycbor \<Rightarrow> bytes \<Rightarrow> CTAP_credDesc \<times> bool \<times> bool \<Rightarrow> 'v
    \<Rightarrow> ((CTAP_credDesc \<times> bool \<times> bool) \<times> 'v) presult" where
  "parse_cred_desc_entry dec key acc m =
     (let (d, type_parsed, id_parsed) = acc in
      if ctap_string_matches key (ctap_str ''type'') then
        ctap_check (parse_text_string_to_ctap_string dec m) (\<lambda>(type, m1).
        Ok ((d\<lparr>credDesc_type := (if ctap_string_matches type (ctap_str ''public-key'')
                                then CTAP_pubKeyCredType_public_key else 0)\<rparr>, True, id_parsed), m1))
      else if ctap_string_matches key (ctap_str ''id'') then
        ctap_check (parse_byte_string_to_ctap_string dec m) (\<lambda>(v, m1).
        Ok ((d\<lparr>credDesc_id := v\<rparr>, type_parsed, True), m1))
      else skip_value dec acc m)"

definition parse_cred_desc ::
    "'v tinycbor \<Rightarrow> CTAP_credDesc \<Rightarrow> 'v \<Rightarrow> (CTAP_credDesc \<times> 'v) presult" where
  "parse_cred_desc dec cred_desc it =
     ctap_check (parse_map dec (parse_text_string_to_ctap_string dec) (parse_cred_desc_entry dec)
                   (cred_desc, False, False) it) (\<lambda>((d, type_parsed, id_parsed), it1).
     if \<not> type_parsed \<or> \<not> id_parsed then Err CTAP2_ERR_INVALID_CBOR else Ok (d, it1))"

record 'v ctap_parse_pub_key_cred_desc_list_ctx =
  list_it :: 'v
  list_length :: nat
  list_next_idx :: nat
  list_item :: CTAP_credDesc

text \<open>A zeroed iterator is not an array. \<open>item0\<close> is what the \<open>item\<close> of the context holds.\<close>

definition ctap_parse_pub_key_cred_desc_list_init :: "'v tinycbor \<Rightarrow> CTAP_credDesc \<Rightarrow> 'v option
    \<Rightarrow> 'v ctap_parse_pub_key_cred_desc_list_ctx presult" where
  "ctap_parse_pub_key_cred_desc_list_init dec item0 list =
     (case list of
        None \<Rightarrow> Err CTAP2_ERR_CBOR_UNEXPECTED_TYPE
      | Some v \<Rightarrow>
          ctap_cbor_ensure_type (cbor_value_is_array dec v) (
          cbor_decoding_check (cbor_value_enter_container dec v) (\<lambda>it.
          cbor_decoding_check (cbor_value_get_array_length dec v) (\<lambda>len.
          Ok \<lparr>list_it = it, list_length = len, list_next_idx = 0, list_item = item0\<rparr>))))"

definition ctap_parse_pub_key_cred_desc_list_next_cred ::
    "'v tinycbor \<Rightarrow> 'v ctap_parse_pub_key_cred_desc_list_ctx
     \<Rightarrow> (CTAP_credDesc option \<times> 'v ctap_parse_pub_key_cred_desc_list_ctx) presult" where
  "ctap_parse_pub_key_cred_desc_list_next_cred dec ctx =
     (if list_next_idx ctx = list_length ctx then Ok (None, ctx)
      else
        ctap_check (parse_cred_desc dec (list_item ctx) (list_it ctx)) (\<lambda>(d, it1).
        Ok (Some d, ctx\<lparr>list_it := it1, list_item := d, list_next_idx := list_next_idx ctx + 1\<rparr>)))"

section \<open>authenticatorGetAssertion\<close>

definition parse_get_assertion_hmac_secret_entry :: "'v tinycbor \<Rightarrow> int
    \<Rightarrow> CTAP_getAssertion_hmac_secret \<Rightarrow> 'v \<Rightarrow> (CTAP_getAssertion_hmac_secret \<times> 'v) presult" where
  "parse_get_assertion_hmac_secret_entry dec key h m =
     (if key = 1 then
        ctap_check (parse_pin_uv_auth_protocol_public_key dec (hs_keyAgreement h) m) (\<lambda>(v, m1).
        Ok (h\<lparr>hs_keyAgreement := v, hs_present := ctap_set_present 1 (hs_present h)\<rparr>, m1))
      else if key = 2 then
        ctap_check (parse_byte_string_to_ctap_string dec m) (\<lambda>(v, m1).
        Ok (h\<lparr>hs_saltEnc := v, hs_present := ctap_set_present 2 (hs_present h)\<rparr>, m1))
      else if key = 3 then
        ctap_check (parse_byte_string_to_ctap_string dec m) (\<lambda>(v, m1).
        Ok (h\<lparr>hs_saltAuth := v, hs_present := ctap_set_present 3 (hs_present h)\<rparr>, m1))
      else if key = 4 then
        ctap_check (parse_uint8 dec m) (\<lambda>(v, m1).
        Ok (h\<lparr>hs_pinUvAuthProtocol := v, hs_present := ctap_set_present 4 (hs_present h)\<rparr>, m1))
      else skip_value dec h m)"

definition parse_get_assertion_hmac_secret_extension :: "'v tinycbor
    \<Rightarrow> CTAP_getAssertion_hmac_secret \<Rightarrow> 'v \<Rightarrow> (CTAP_getAssertion_hmac_secret \<times> 'v) presult" where
  "parse_get_assertion_hmac_secret_extension dec params it =
     ctap_check (parse_map dec (parse_int dec) (parse_get_assertion_hmac_secret_entry dec)
                   params it) (\<lambda>(h, it1).
     let required_params = ctap_param_to_mask 1 OR ctap_param_to_mask 2 OR ctap_param_to_mask 3 in
     if \<not> ctap_is_present (hs_present h) required_params then Err CTAP2_ERR_MISSING_PARAMETER
     else Ok (h, it1))"

definition parse_get_assertion_extensions_entry ::
    "'v tinycbor \<Rightarrow> bytes \<Rightarrow> 'v CTAP_getAssertion \<Rightarrow> 'v \<Rightarrow> ('v CTAP_getAssertion \<times> 'v) presult" where
  "parse_get_assertion_extensions_entry dec key ga m =
     (if ctap_string_matches key (ctap_str ''hmac-secret'') then
        ctap_check (parse_get_assertion_hmac_secret_extension dec (hmac_secret ga) m) (\<lambda>(h, m1).
        Ok (ga\<lparr>hmac_secret := h, ga_common := (ga_common ga)\<lparr>extensions_present :=
              extensions_present (ga_common ga) OR CTAP_extension_hmac_secret\<rparr>\<rparr>, m1))
      else skip_value dec ga m)"

definition parse_get_assertion_extensions ::
    "'v tinycbor \<Rightarrow> 'v CTAP_getAssertion \<Rightarrow> 'v \<Rightarrow> ('v CTAP_getAssertion \<times> 'v) presult" where
  "parse_get_assertion_extensions dec ga it =
     parse_map dec (parse_text_string_to_ctap_string dec) (parse_get_assertion_extensions_entry dec)
       ga it"

definition ga_set_present :: "nat \<Rightarrow> 'v CTAP_getAssertion \<Rightarrow> 'v CTAP_getAssertion" where
  "ga_set_present n ga = ga\<lparr>ga_common := (ga_common ga)\<lparr>params_present :=
     ctap_set_present n (params_present (ga_common ga))\<rparr>\<rparr>"

definition ctap_parse_get_assertion_entry ::
    "'v tinycbor \<Rightarrow> int \<Rightarrow> 'v CTAP_getAssertion \<Rightarrow> 'v \<Rightarrow> ('v CTAP_getAssertion \<times> 'v) presult" where
  "ctap_parse_get_assertion_entry dec key ga m =
     (let params = ga_common ga in
      if key = 1 then
        ctap_check (parse_text_string_to_ctap_string dec m) (\<lambda>(v, m1).
        Ok (ga_set_present 1 (ga\<lparr>ga_common := params\<lparr>rpId := v\<rparr>\<rparr>), m1))
      else if key = 2 then
        ctap_check (parse_byte_string_to_ctap_string dec m) (\<lambda>(v, m1).
        Ok (ga_set_present 2 (ga\<lparr>ga_common := params\<lparr>clientDataHash := v\<rparr>\<rparr>), m1))
      else if key = 3 then
        ctap_cbor_ensure_type (cbor_value_is_array dec m) (
        cbor_decoding_check (cbor_value_advance dec m) (\<lambda>m1.
        Ok (ga_set_present 3 (ga\<lparr>allowList := Some m\<rparr>), m1)))
      else if key = 4 then
        ctap_check (parse_get_assertion_extensions dec ga m) (\<lambda>(ga1, m1).
        Ok (ga_set_present 4 ga1, m1))
      else if key = 5 then
        ctap_check (parse_mc_ga_options dec (options params) m) (\<lambda>(v, m1).
        Ok (ga_set_present 5 (ga\<lparr>ga_common := params\<lparr>options := v\<rparr>\<rparr>), m1))
      else if key = 6 then
        ctap_check (parse_byte_string_to_ctap_string dec m) (\<lambda>(v, m1).
        Ok (ga_set_present 6 (ga\<lparr>ga_common := params\<lparr>pinUvAuthParam := v\<rparr>\<rparr>), m1))
      else if key = 7 then
        ctap_check (parse_uint8 dec m) (\<lambda>(v, m1).
        Ok (ga_set_present 7 (ga\<lparr>ga_common := params\<lparr>pinUvAuthProtocol := v\<rparr>\<rparr>), m1))
      else skip_value dec ga m)"

definition ctap_parse_get_assertion ::
    "'v tinycbor \<Rightarrow> 'v option \<Rightarrow> ('v CTAP_getAssertion \<times> 'v) presult" where
  "ctap_parse_get_assertion dec it =
     (case it of
        None \<Rightarrow> Abort
      | Some v \<Rightarrow>
          ctap_check (parse_map dec (parse_int dec) (ctap_parse_get_assertion_entry dec)
                        zero_CTAP_getAssertion v) (\<lambda>(ga, v1).
          let required_params = ctap_param_to_mask 1 OR ctap_param_to_mask 2 in
          if \<not> ctap_is_present (params_present (ga_common ga)) required_params
          then Err CTAP2_ERR_MISSING_PARAMETER else Ok (ga, v1)))"

section \<open>authenticatorCredentialManagement\<close>

definition parse_credential_management_subcommand_params_entry :: "'v tinycbor \<Rightarrow> int
    \<Rightarrow> CTAP_credentialManagement_subCmdParams \<Rightarrow> 'v
    \<Rightarrow> (CTAP_credentialManagement_subCmdParams \<times> 'v) presult" where
  "parse_credential_management_subcommand_params_entry dec key p m =
     (if key = 1 then
        ctap_check (parse_byte_string_to_ctap_string dec m) (\<lambda>(v, m1).
        if length v \<noteq> 32 then Err CTAP1_ERR_INVALID_PARAMETER
        else Ok (p\<lparr>rpIDHash := v, sub_present := ctap_set_present 1 (sub_present p)\<rparr>, m1))
      else if key = 2 then
        ctap_check (parse_cred_desc dec (credentialID p) m) (\<lambda>(v, m1).
        Ok (p\<lparr>credentialID := v, sub_present := ctap_set_present 2 (sub_present p)\<rparr>, m1))
      else if key = 3 then
        ctap_check (parse_user_entity dec (sub_user p) m) (\<lambda>(v, m1).
        Ok (p\<lparr>sub_user := v, sub_present := ctap_set_present 3 (sub_present p)\<rparr>, m1))
      else skip_value dec p m)"

definition parse_credential_management_subcommand_params :: "'v tinycbor
    \<Rightarrow> CTAP_credentialManagement_subCmdParams \<Rightarrow> 'v
    \<Rightarrow> (CTAP_credentialManagement_subCmdParams \<times> 'v) presult" where
  "parse_credential_management_subcommand_params dec params it =
     ctap_check (parse_map dec (parse_int dec)
                   (parse_credential_management_subcommand_params_entry dec)
                   (params\<lparr>raw_start := source_ptr dec it\<rparr>) it) (\<lambda>(p, it1).
     let raw_size' = source_ptr dec it1 - raw_start p in
     assert_that (raw_size' > 0) (Ok (p\<lparr>raw_size := raw_size'\<rparr>, it1)))"

definition ctap_parse_credential_management_entry :: "'v tinycbor \<Rightarrow> int
    \<Rightarrow> CTAP_credentialManagement \<Rightarrow> 'v \<Rightarrow> (CTAP_credentialManagement \<times> 'v) presult" where
  "ctap_parse_credential_management_entry dec key p m =
     (if key = 1 then
        ctap_check (parse_uint8 dec m) (\<lambda>(v, m1).
        Ok (p\<lparr>cm_subCommand := v, cm_present := ctap_set_present 1 (cm_present p)\<rparr>, m1))
      else if key = 2 then
        ctap_check (parse_credential_management_subcommand_params dec (cm_subCommandParams p) m)
          (\<lambda>(v, m1).
        Ok (p\<lparr>cm_subCommandParams := v, cm_present := ctap_set_present 2 (cm_present p)\<rparr>, m1))
      else if key = 3 then
        ctap_check (parse_uint8 dec m) (\<lambda>(v, m1).
        Ok (p\<lparr>cm_pinUvAuthProtocol := v, cm_present := ctap_set_present 3 (cm_present p)\<rparr>, m1))
      else if key = 4 then
        ctap_check (parse_byte_string_to_ctap_string dec m) (\<lambda>(v, m1).
        Ok (p\<lparr>cm_pinUvAuthParam := v, cm_present := ctap_set_present 4 (cm_present p)\<rparr>, m1))
      else skip_value dec p m)"

definition ctap_parse_credential_management ::
    "'v tinycbor \<Rightarrow> 'v option \<Rightarrow> (CTAP_credentialManagement \<times> 'v) presult" where
  "ctap_parse_credential_management dec it =
     (case it of
        None \<Rightarrow> Abort
      | Some v \<Rightarrow>
          ctap_check (parse_map dec (parse_int dec) (ctap_parse_credential_management_entry dec)
                        zero_CTAP_credentialManagement v) (\<lambda>(p, v1).
          if \<not> ctap_is_present (cm_present p) (ctap_param_to_mask 1)
          then Err CTAP2_ERR_MISSING_PARAMETER else Ok (p, v1)))"

end
