(* ===== verification/Cbor_Contract.thy ===== *)
theory Cbor_Contract
  imports Ctap_Parse
begin

text \<open>
  What the parsers guarantee about every input. The documented behaviour of TinyCBOR is stated
  over a relation \<open>rep v ns\<close>: the iterator \<open>v\<close> is inside nested containers, with the numbers \<open>ns\<close>
  of data items that remain in each of them, the innermost first. TinyCBOR may report an error at
  any point (malformed input), but a successful call moves the iterator as documented. The rules
  below compose the parsers as in a Hoare logic.
\<close>

section \<open>Contract of the decoder\<close>

definition tinycbor_ok :: "'v tinycbor \<Rightarrow> ('v \<Rightarrow> nat list \<Rightarrow> bool) \<Rightarrow> bool" where
  "tinycbor_ok dec rep \<longleftrightarrow>
     (\<forall>v w n S. rep v (Suc n # S) \<longrightarrow> cbor_value_advance dec v = Some w \<longrightarrow> rep w (n # S)) \<and>
     (\<forall>v w n S. rep v (Suc n # S) \<longrightarrow> cbor_value_advance_fixed dec v = Some w \<longrightarrow>
        cbor_value_is_integer dec v \<or> cbor_value_is_boolean dec v \<longrightarrow> rep w (n # S)) \<and>
     (\<forall>v. cbor_value_is_unsigned_integer dec v \<longrightarrow> cbor_value_is_integer dec v) \<and>
     (\<forall>v m k n S. rep v (Suc n # S) \<longrightarrow> cbor_value_is_map dec v \<longrightarrow>
        cbor_value_enter_container dec v = Some m \<longrightarrow> cbor_value_get_map_length dec v = Some k \<longrightarrow>
        rep m (2 * k # Suc n # S)) \<and>
     (\<forall>v m k n S. rep v (Suc n # S) \<longrightarrow> cbor_value_is_array dec v \<longrightarrow>
        cbor_value_enter_container dec v = Some m \<longrightarrow> cbor_value_get_array_length dec v = Some k \<longrightarrow>
        rep m (k # Suc n # S)) \<and>
     (\<forall>v m w n S. rep v (Suc n # S) \<longrightarrow> rep m (0 # Suc n # S) \<longrightarrow>
        cbor_value_leave_container dec v m = Some w \<longrightarrow>
        rep w (n # S) \<and> source_ptr dec v < source_ptr dec w) \<and>
     (\<forall>v a b c w n S. rep v (Suc n # S) \<longrightarrow> cbor_value_is_byte_string dec v \<longrightarrow>
        cbor_value_is_length_known dec v \<longrightarrow> cbor_value_begin_string_iteration dec v = Some a \<longrightarrow>
        cbor_value_get_byte_string_chunk dec a = Some (c, b) \<longrightarrow>
        c \<noteq> None \<and> (cbor_value_finish_string_iteration dec b = Some w \<longrightarrow> rep w (n # S))) \<and>
     (\<forall>v a b c w n S. rep v (Suc n # S) \<longrightarrow> cbor_value_is_text_string dec v \<longrightarrow>
        cbor_value_is_length_known dec v \<longrightarrow> cbor_value_begin_string_iteration dec v = Some a \<longrightarrow>
        cbor_value_get_text_string_chunk dec a = Some (c, b) \<longrightarrow>
        c \<noteq> None \<and> (cbor_value_finish_string_iteration dec b = Some w \<longrightarrow> rep w (n # S))) \<and>
     (\<forall>v k b w n S. rep v (Suc n # S) \<longrightarrow> cbor_value_is_text_string dec v \<longrightarrow>
        cbor_value_get_string_length dec v = Some k \<longrightarrow> k \<le> 10 \<longrightarrow>
        cbor_value_copy_text_string dec v 10 = Some (b, w) \<longrightarrow> rep w (n # S))"

section \<open>Triples\<close>

text \<open>
  \<open>parses rep P Q\<close>: on an iterator with an item before it, \<open>P\<close> consumes exactly that item and its
  value satisfies \<open>Q\<close>, or reports one of the error codes of the parsers; no assertion fails.
\<close>

definition parse_errors :: "u8 set" where
  "parse_errors = {CTAP2_ERR_CBOR_UNEXPECTED_TYPE, CTAP2_ERR_INVALID_CBOR,
     CTAP2_ERR_MISSING_PARAMETER, CTAP1_ERR_INVALID_PARAMETER}"

definition result_ok :: "('v \<Rightarrow> bool) \<Rightarrow> ('a \<Rightarrow> bool) \<Rightarrow> ('a \<times> 'v) presult \<Rightarrow> bool" where
  "result_ok at Q r \<longleftrightarrow> (case r of Ok (x, w) \<Rightarrow> Q x \<and> at w | Err e \<Rightarrow> e \<in> parse_errors | Abort \<Rightarrow> False)"

definition parses :: "('v \<Rightarrow> nat list \<Rightarrow> bool) \<Rightarrow> ('v \<Rightarrow> ('a \<times> 'v) presult) \<Rightarrow> ('a \<Rightarrow> bool) \<Rightarrow> bool" where
  "parses rep P Q \<longleftrightarrow> (\<forall>v n S. rep v (Suc n # S) \<longrightarrow> result_ok (\<lambda>w. rep w (n # S)) Q (P v))"

lemma result_ok_Ok [simp]: "result_ok at Q (Ok (x, w)) \<longleftrightarrow> Q x \<and> at w"
  by (simp add: result_ok_def)

lemma result_ok_Err [simp]: "result_ok at Q (Err e) \<longleftrightarrow> e \<in> parse_errors"
  by (simp add: result_ok_def)

lemma result_ok_Abort [simp]: "\<not> result_ok at Q Abort"
  by (simp add: result_ok_def)

lemma parse_errors_simps [simp]:
  "0x11 \<in> parse_errors" "0x12 \<in> parse_errors" "0x14 \<in> parse_errors" "0x02 \<in> parse_errors"
  by (simp_all add: parse_errors_def)

lemma result_ok_weaken:
  "result_ok at Q r \<Longrightarrow> (\<And>x. Q x \<Longrightarrow> R x) \<Longrightarrow> result_ok at R r"
  by (auto simp: result_ok_def split: presult.splits)

lemma parses_weaken: "parses rep P Q \<Longrightarrow> (\<And>x. Q x \<Longrightarrow> R x) \<Longrightarrow> parses rep P R"
  unfolding parses_def
proof (intro allI impI)
  fix v n S
  assume *: "\<forall>v n S. rep v (Suc n # S) \<longrightarrow> result_ok (\<lambda>w. rep w (n # S)) Q (P v)"
    "\<And>x. Q x \<Longrightarrow> R x" "rep v (Suc n # S)"
  then have "result_ok (\<lambda>w. rep w (n # S)) Q (P v)" by blast
  then show "result_ok (\<lambda>w. rep w (n # S)) R (P v)" using *(2) by (rule result_ok_weaken)
qed

lemma parsesD: "parses rep P Q \<Longrightarrow> rep v (Suc n # S) \<Longrightarrow> result_ok (\<lambda>w. rep w (n # S)) Q (P v)"
  by (simp add: parses_def)

text \<open>The rules for the macros.\<close>

lemma result_ok_check:
  "result_ok at1 Q r \<Longrightarrow> (\<And>x w. Q x \<Longrightarrow> at1 w \<Longrightarrow> result_ok at R (k (x, w))) \<Longrightarrow>
   result_ok at R (ctap_check r k)"
  by (cases r) (auto simp: result_ok_def)

lemma result_ok_decoding:
  "(\<And>x. r = Some x \<Longrightarrow> result_ok at R (k x)) \<Longrightarrow> result_ok at R (cbor_decoding_check r k)"
  by (cases r) auto

lemma result_ok_ensure:
  "(b \<Longrightarrow> result_ok at R k) \<Longrightarrow> result_ok at R (ctap_cbor_ensure_type b k)"
  by (simp add: ctap_cbor_ensure_type_def)

lemma result_ok_assert:
  "b \<Longrightarrow> result_ok at R k \<Longrightarrow> result_ok at R (assert_that b k)"
  by (simp add: assert_that_def)

lemma parses_check:
  assumes "parses rep P Q"
      and "\<And>x w n S. Q x \<Longrightarrow> rep w (n # S) \<Longrightarrow> result_ok (\<lambda>w. rep w (n # S)) R (k (x, w))"
  shows "parses rep (\<lambda>v. ctap_check (P v) k) R"
  unfolding parses_def using result_ok_check [OF parsesD [OF assms(1)]] assms(2) by blast

section \<open>Basic parsers\<close>

lemmas dec_advance = tinycbor_ok_def [THEN iffD1, THEN conjunct1, rule_format]
lemmas dec_advance_fixed = tinycbor_ok_def [THEN iffD1, THEN conjunct2, THEN conjunct1, rule_format]
lemmas dec_unsigned = tinycbor_ok_def [THEN iffD1, THEN conjunct2, THEN conjunct2, THEN conjunct1, rule_format]
lemmas dec_enter_map = tinycbor_ok_def [THEN iffD1, THEN conjunct2, THEN conjunct2, THEN conjunct2, THEN conjunct1, rule_format]
lemmas dec_enter_array = tinycbor_ok_def [THEN iffD1, THEN conjunct2, THEN conjunct2, THEN conjunct2, THEN conjunct2, THEN conjunct1, rule_format]
lemmas dec_leave = tinycbor_ok_def [THEN iffD1, THEN conjunct2, THEN conjunct2, THEN conjunct2, THEN conjunct2, THEN conjunct2, THEN conjunct1, rule_format]
lemmas dec_byte_chunk = tinycbor_ok_def [THEN iffD1, THEN conjunct2, THEN conjunct2, THEN conjunct2, THEN conjunct2, THEN conjunct2, THEN conjunct2, THEN conjunct1, rule_format]
lemmas dec_text_chunk = tinycbor_ok_def [THEN iffD1, THEN conjunct2, THEN conjunct2, THEN conjunct2, THEN conjunct2, THEN conjunct2, THEN conjunct2, THEN conjunct2, THEN conjunct1, rule_format]
lemmas dec_copy = tinycbor_ok_def [THEN iffD1, THEN conjunct2, THEN conjunct2, THEN conjunct2, THEN conjunct2, THEN conjunct2, THEN conjunct2, THEN conjunct2, THEN conjunct2, rule_format]

lemma skip_parses:
  assumes "tinycbor_ok dec rep" and "Q p"
  shows "parses rep (skip_value dec p) Q"
  unfolding parses_def skip_value_def
  using assms dec_advance [OF assms(1)] by (auto intro!: result_ok_decoding)

lemma fixed_rep:
  assumes "tinycbor_ok dec rep" and "rep v (Suc n # S)" and "cbor_value_advance_fixed dec v = Some w"
      and "cbor_value_is_integer dec v \<or> cbor_value_is_unsigned_integer dec v
             \<or> cbor_value_is_boolean dec v"
  shows "rep w (n # S)"
  using dec_advance_fixed [OF assms(1-3)] dec_unsigned [OF assms(1)] assms(4) by blast

lemma parse_int_parses:
  assumes "tinycbor_ok dec rep"
  shows "parses rep (parse_int dec) (\<lambda>_. True)"
  unfolding parses_def parse_int_def
  using fixed_rep [OF assms] by (auto intro!: result_ok_ensure result_ok_decoding)

lemma parse_uint8_parses:
  assumes "tinycbor_ok dec rep"
  shows "parses rep (parse_uint8 dec) (\<lambda>_. True)"
  unfolding parses_def parse_uint8_def ctap_cbor_value_get_uint8_def
  using fixed_rep [OF assms]
  by (auto intro!: result_ok_ensure result_ok_decoding result_ok_assert)

lemma parse_byte_string_parses:
  assumes "tinycbor_ok dec rep"
  shows "parses rep (parse_byte_string_to_ctap_string dec) (\<lambda>_. True)"
  unfolding parses_def parse_byte_string_to_ctap_string_def
  using dec_byte_chunk [OF assms]
  by (auto intro!: result_ok_ensure result_ok_decoding result_ok_assert split: if_splits)

lemma parse_text_string_parses:
  assumes "tinycbor_ok dec rep"
  shows "parses rep (parse_text_string_to_ctap_string dec) (\<lambda>_. True)"
  unfolding parses_def parse_text_string_to_ctap_string_def
  using dec_text_chunk [OF assms]
  by (auto intro!: result_ok_ensure result_ok_decoding result_ok_assert split: if_splits)

lemma parse_fixed_parses:
  "tinycbor_ok dec rep \<Longrightarrow> parses rep (\<lambda>v. parse_copy_fixed_byte_string dec v k) (\<lambda>b. length b = k)"
  unfolding parse_copy_fixed_byte_string_def
  by (rule parses_check [OF parse_byte_string_parses]) auto

section \<open>Maps\<close>

lemma parse_entries_ok:
  assumes "parses rep get_key (\<lambda>_. True)" and "\<And>k q. I q \<Longrightarrow> parses rep (entry k q) I"
      and "I p" and "rep m (2 * n # S)"
  shows "result_ok (\<lambda>w. rep w (0 # S)) I (parse_entries n get_key entry p m)"
  using assms(3,4)
proof (induction n arbitrary: p m)
  case (Suc n)
  have "2 * Suc n = Suc (Suc (2 * n))" by simp
  then have key: "result_ok (\<lambda>w. rep w (Suc (2 * n) # S)) (\<lambda>_. True) (get_key m)"
    using parsesD [OF assms(1), of m "Suc (2 * n)" S] Suc.prems(2) by simp
  show ?case
    unfolding parse_entries.simps
    by (rule result_ok_check [OF key])
      (auto intro!: result_ok_check [OF parsesD [OF assms(2) [OF Suc.prems(1)]]] Suc.IH)
qed simp

lemma parse_map_parses:
  assumes "tinycbor_ok dec rep" and "parses rep get_key (\<lambda>_. True)"
      and "\<And>k q. I q \<Longrightarrow> parses rep (entry k q) I" and "I p"
  shows "parses rep (parse_map dec get_key entry p) I"
  unfolding parses_def parse_map_def
proof (intro allI impI result_ok_ensure result_ok_decoding)
  fix v n S m k
  assume v: "rep v (Suc n # S)" "cbor_value_is_map dec v"
      "cbor_value_enter_container dec v = Some m" "cbor_value_get_map_length dec v = Some k"
  have m: "rep m (2 * k # Suc n # S)" by (rule dec_enter_map [OF assms(1) v])
  show "result_ok (\<lambda>w. rep w (n # S)) I
      (ctap_check (parse_entries k get_key entry p m) (\<lambda>(p1, m1).
         cbor_decoding_check (cbor_value_leave_container dec v m1) (\<lambda>it1. Ok (p1, it1))))"
    by (rule result_ok_check [OF parse_entries_ok [OF assms(2,3,4) m]])
      (auto intro!: result_ok_decoding dest: dec_leave [OF assms(1) v(1)])
qed

lemma parses_if:
  "(b \<Longrightarrow> parses rep A Q) \<Longrightarrow> (\<not> b \<Longrightarrow> parses rep B Q) \<Longrightarrow>
   parses rep (\<lambda>m. if b then A m else B m) Q"
  by (cases b) simp_all

lemma parses_ensure:
  "parses rep P Q \<Longrightarrow> parses rep (\<lambda>m. ctap_cbor_ensure_type (t m) (P m)) Q"
  by (auto simp: parses_def intro: result_ok_ensure)

section \<open>Keys and client PIN parameters\<close>

definition cose_buffers :: "COSE_Key \<Rightarrow> bool" where
  "cose_buffers c \<longleftrightarrow> length (pubkey_x c) = 32 \<and> length (pubkey_y c) = 32"

text \<open>An EC2 key on P-256 for ECDH-ES+HKDF-256 with both coordinates.\<close>

definition agreement_key :: "COSE_Key \<Rightarrow> bool" where
  "agreement_key c \<longleftrightarrow> cose_buffers c \<and> key_kty c = 2 \<and> key_alg c = -25 \<and> key_crv c = 1
     \<and> bit (cose_present c) COSE_Key_field_kty \<and> bit (cose_present c) COSE_Key_field_alg
     \<and> bit (cose_present c) COSE_Key_field_crv \<and> bit (cose_present c) COSE_Key_field_pubkey_x
     \<and> bit (cose_present c) COSE_Key_field_pubkey_y"

lemma parse_cose_key_entry_parses:
  assumes "tinycbor_ok dec rep" and "cose_buffers c"
  shows "parses rep (parse_cose_key_entry dec key c) cose_buffers"
  unfolding parse_cose_key_entry_def [abs_def]
  using assms(2)
  by (intro parses_if parses_check [OF parse_int_parses [OF assms(1)]]
      parses_check [OF parse_fixed_parses [OF assms(1)]] skip_parses [OF assms(1)])
    (auto simp: cose_buffers_def)

lemma parse_agreement_key_parses:
  assumes "tinycbor_ok dec rep" and "cose_buffers c"
  shows "parses rep (parse_pin_uv_auth_protocol_public_key dec c) agreement_key"
proof -
  have map: "parses rep (parse_map dec (parse_int dec) (parse_cose_key_entry dec) c) cose_buffers"
    using assms by (intro parse_map_parses parse_int_parses parse_cose_key_entry_parses)
  have key: "parses rep (parse_cose_key dec c) (\<lambda>c. cose_buffers c \<and> key_kty c = 2
      \<and> bit (cose_present c) 1 \<and> bit (cose_present c) 3 \<and> bit (cose_present c) 4
      \<and> bit (cose_present c) 5)"
    unfolding parse_cose_key_def [abs_def]
    by (rule parses_check [OF map]) (auto simp: Let_def ctap_is_present_or)
  show ?thesis
    unfolding parse_pin_uv_auth_protocol_public_key_def [abs_def]
    by (rule parses_check [OF key]) (auto simp: agreement_key_def)
qed

definition client_pin_inv :: "CTAP_clientPIN \<Rightarrow> bool" where
  "client_pin_inv p \<longleftrightarrow> cose_buffers (cp_keyAgreement p)
     \<and> (bit (cp_present p) CTAP_clientPIN_keyAgreement \<longrightarrow> agreement_key (cp_keyAgreement p))"

lemma agreement_key_buffers [simp]: "agreement_key c \<Longrightarrow> cose_buffers c"
  by (simp add: agreement_key_def)

lemma parse_client_pin_entry_parses:
  assumes "tinycbor_ok dec rep" and "client_pin_inv p"
  shows "parses rep (ctap_parse_client_pin_entry dec key p) client_pin_inv"
proof -
  have c: "cose_buffers (cp_keyAgreement p)" using assms(2) by (simp add: client_pin_inv_def)
  have perms: "parses rep (\<lambda>m. ctap_cbor_ensure_type (cbor_value_is_unsigned_integer dec m) (
        cbor_decoding_check (cbor_value_get_uint64 dec m) (\<lambda>v.
        ctap_cbor_ensure_type (v \<le> 0xFFFFFFFF) (
        cbor_decoding_check (cbor_value_advance_fixed dec m) (\<lambda>m1.
        Ok (p\<lparr>cp_permissions := ucast v, cp_present := ctap_set_present
              CTAP_clientPIN_permissions (cp_present p)\<rparr>, m1)))))) client_pin_inv"
    unfolding parses_def using fixed_rep [OF assms(1)] assms(2)
    by (auto simp: client_pin_inv_def intro!: result_ok_ensure result_ok_decoding)
  show ?thesis
    unfolding ctap_parse_client_pin_entry_def [abs_def] Let_def
    using assms(2)
    by (intro parses_if perms parses_check [OF parse_uint8_parses [OF assms(1)]]
        parses_check [OF parse_byte_string_parses [OF assms(1)]]
        parses_check [OF parse_text_string_parses [OF assms(1)]]
        parses_check [OF parse_agreement_key_parses [OF assms(1) c]] skip_parses [OF assms(1)])
      (auto simp: client_pin_inv_def)
qed

lemma client_pin_parses:
  assumes "tinycbor_ok dec rep"
  shows "parses rep (\<lambda>v. ctap_parse_client_pin dec (Some v))
    (\<lambda>p. client_pin_inv p \<and> bit (cp_present p) CTAP_clientPIN_subCommand)"
proof -
  have z: "client_pin_inv zero_CTAP_clientPIN"
    by (simp add: client_pin_inv_def zero_CTAP_clientPIN_def cose_buffers_def zero_COSE_Key_def)
  have map: "parses rep (parse_map dec (parse_int dec) (ctap_parse_client_pin_entry dec)
      zero_CTAP_clientPIN) client_pin_inv"
    using assms z by (intro parse_map_parses parse_int_parses parse_client_pin_entry_parses)
  show ?thesis
    unfolding ctap_parse_client_pin_def option.case
    by (rule parses_check [OF map]) auto
qed

section \<open>Make credential parameters\<close>

lemma rp_entity_parses:
  assumes "tinycbor_ok dec rep"
  shows "parses rep (parse_rp_entity dec v0) (\<lambda>_. True)"
proof -
  have entry: "parses rep (parse_rp_entity_entry dec key q) (\<lambda>_. True)" for key q
    unfolding parse_rp_entity_entry_def [abs_def]
    by (intro parses_if parses_check [OF parse_text_string_parses [OF assms]] parses_ensure
        skip_parses [OF assms]) auto
  show ?thesis
    unfolding parse_rp_entity_def [abs_def]
    by (rule parses_check [OF parse_map_parses [OF assms parse_text_string_parses [OF assms] entry
        TrueI]]) auto
qed

definition user_inv :: "CTAP_userEntity \<Rightarrow> bool" where
  "user_inv u \<longleftrightarrow> length (user_id u) \<le> CTAP_USER_ENTITY_ID_MAX_SIZE"

lemma user_entity_parses:
  assumes "tinycbor_ok dec rep" and "user_inv u0"
  shows "parses rep (parse_user_entity dec u0)
    (\<lambda>u. user_inv u \<and> bit (user_fields u) CTAP_userEntity_id)"
proof -
  have entry: "parses rep (parse_user_entity_entry dec key u) user_inv" if "user_inv u" for key u
    unfolding parse_user_entity_entry_def [abs_def]
    using that
    by (intro parses_if parses_check [OF parse_text_string_parses [OF assms(1)]]
        parses_check [OF parse_byte_string_parses [OF assms(1)]] parses_ensure
        skip_parses [OF assms(1)])
      (auto simp: user_inv_def)
  show ?thesis
    unfolding parse_user_entity_def [abs_def]
    by (rule parses_check [OF parse_map_parses [OF assms(1) parse_text_string_parses [OF assms(1)]
        entry assms(2)]]) auto
qed

lemma boolean_parses:
  assumes "tinycbor_ok dec rep" and "\<And>b. Q (f b)"
  shows "parses rep (\<lambda>m. ctap_cbor_ensure_type (cbor_value_is_boolean dec m) (
          cbor_decoding_check (cbor_value_get_boolean dec m) (\<lambda>value.
          cbor_decoding_check (cbor_value_advance_fixed dec m) (\<lambda>m1. Ok (f value, m1))))) Q"
  unfolding parses_def using fixed_rep [OF assms(1)] assms(2)
  by (auto intro!: result_ok_ensure result_ok_decoding)

lemma mc_ga_options_parses:
  assumes "tinycbor_ok dec rep"
  shows "parses rep (parse_mc_ga_options dec o0) (\<lambda>_. True)"
proof -
  have entry: "parses rep (parse_mc_ga_options_entry dec key q) (\<lambda>_. True)" for key q
    unfolding parse_mc_ga_options_entry_def [abs_def]
    by (cases "mc_ga_option_of_key key")
      (auto intro!: skip_parses [OF assms] boolean_parses [OF assms])
  show ?thesis
    unfolding parse_mc_ga_options_def [abs_def]
    by (rule parse_map_parses [OF assms parse_text_string_parses [OF assms] entry TrueI])
qed

lemma make_credential_extensions_parses:
  assumes "tinycbor_ok dec rep"
  shows "parses rep (parse_make_credential_extensions dec mc)
    (\<lambda>mc1. \<exists>ext cp. mc1 = mc\<lparr>mc_common := (mc_common mc)\<lparr>extensions_present := ext\<rparr>,
                           credProtect := cp\<rparr>)"
proof -
  have entry: "parses rep (parse_make_credential_extensions_entry dec key q) (\<lambda>_. True)" for key q
    unfolding parse_make_credential_extensions_entry_def [abs_def]
    by (intro parses_if parses_check [OF parse_uint8_parses [OF assms]] boolean_parses [OF assms]
        skip_parses [OF assms]) auto
  show ?thesis
    unfolding parse_make_credential_extensions_def [abs_def]
    by (rule parses_check [OF parse_map_parses [OF assms parse_text_string_parses [OF assms] entry
        TrueI]]) (auto split: prod.splits)
qed

lemma array_parses:
  assumes "tinycbor_ok dec rep" and "\<And>m. cbor_value_is_array dec m \<Longrightarrow> Q (f m)"
  shows "parses rep (\<lambda>m. ctap_cbor_ensure_type (cbor_value_is_array dec m) (
        cbor_decoding_check (cbor_value_advance dec m) (\<lambda>m1. Ok (f m, m1)))) Q"
  unfolding parses_def using dec_advance [OF assms(1)] assms(2)
  by (auto intro!: result_ok_ensure result_ok_decoding)

definition saved_array :: "'v tinycbor \<Rightarrow> 'v option \<Rightarrow> bool" where
  "saved_array dec it \<longleftrightarrow> (\<exists>v. it = Some v \<and> cbor_value_is_array dec v)"

lemma saved_array_Some [simp]: "saved_array dec (Some v) \<longleftrightarrow> cbor_value_is_array dec v"
  by (simp add: saved_array_def)

definition make_credential_inv :: "'v tinycbor \<Rightarrow> 'v CTAP_makeCredential \<Rightarrow> bool" where
  "make_credential_inv dec mc \<longleftrightarrow> (let present = params_present (mc_common mc) in
     (bit present 1 \<longrightarrow> length (clientDataHash (mc_common mc)) = 32)
     \<and> user_inv (mc_user mc) \<and> (bit present 3 \<longrightarrow> bit (user_fields (mc_user mc)) CTAP_userEntity_id)
     \<and> (bit present 4 \<longrightarrow> saved_array dec (pubKeyCredParams mc))
     \<and> (bit present 5 \<longrightarrow> saved_array dec (excludeList mc)))"

lemma make_credential_entry_parses:
  assumes "tinycbor_ok dec rep" and "make_credential_inv dec mc"
  shows "parses rep (ctap_parse_make_credential_entry dec key mc) (make_credential_inv dec)"
proof -
  have u: "user_inv (mc_user mc)" using assms(2) by (simp add: make_credential_inv_def Let_def)
  have ea: "parses rep (\<lambda>m. ctap_cbor_ensure_type (cbor_value_is_unsigned_integer dec m) (
        cbor_decoding_check (cbor_value_advance_fixed dec m) (\<lambda>m1.
        Ok (mc_set_present 10 mc, m1)))) (make_credential_inv dec)"
    unfolding parses_def using fixed_rep [OF assms(1)] assms(2)
    by (auto simp: make_credential_inv_def mc_set_present_def Let_def
        intro!: result_ok_ensure result_ok_decoding)
  show ?thesis
    unfolding ctap_parse_make_credential_entry_def [abs_def] Let_def
    using assms(2)
    by (intro parses_if ea array_parses [OF assms(1)]
        parses_check [OF parse_uint8_parses [OF assms(1)]]
        parses_check [OF parse_byte_string_parses [OF assms(1)]]
        parses_check [OF rp_entity_parses [OF assms(1)]]
        parses_check [OF user_entity_parses [OF assms(1) u]]
        parses_check [OF make_credential_extensions_parses [OF assms(1)]]
        parses_check [OF mc_ga_options_parses [OF assms(1)]] skip_parses [OF assms(1)])
      (auto simp: make_credential_inv_def mc_set_present_def Let_def)
qed

lemma make_credential_parses:
  assumes "tinycbor_ok dec rep"
  shows "parses rep (\<lambda>v. ctap_parse_make_credential dec (Some v))
    (\<lambda>mc. make_credential_inv dec mc \<and> (\<forall>i\<in>{1, 2, 3, 4}. bit (params_present (mc_common mc)) i))"
proof -
  have z: "make_credential_inv dec zero_CTAP_makeCredential"
    by (simp add: make_credential_inv_def zero_CTAP_makeCredential_def zero_CTAP_mc_ga_common_def
        zero_CTAP_userEntity_def user_inv_def)
  have map: "parses rep (parse_map dec (parse_int dec) (ctap_parse_make_credential_entry dec)
      zero_CTAP_makeCredential) (make_credential_inv dec)"
    using assms z by (intro parse_map_parses parse_int_parses make_credential_entry_parses)
  show ?thesis
    unfolding ctap_parse_make_credential_def option.case
    by (rule parses_check [OF map]) (auto simp: Let_def ctap_is_present_or)
qed

section \<open>Get assertion parameters\<close>

definition hmac_secret_inv :: "CTAP_getAssertion_hmac_secret \<Rightarrow> bool" where
  "hmac_secret_inv h \<longleftrightarrow> cose_buffers (hs_keyAgreement h)
     \<and> (bit (hs_present h) 1 \<longrightarrow> agreement_key (hs_keyAgreement h))"

lemma hmac_secret_parses:
  assumes "tinycbor_ok dec rep" and "hmac_secret_inv h0"
  shows "parses rep (parse_get_assertion_hmac_secret_extension dec h0)
    (\<lambda>h. hmac_secret_inv h \<and> (\<forall>i\<in>{1, 2, 3}. bit (hs_present h) i))"
proof -
  have entry: "parses rep (parse_get_assertion_hmac_secret_entry dec key h) hmac_secret_inv"
    if "hmac_secret_inv h" for key h
  proof -
    have c: "cose_buffers (hs_keyAgreement h)" using that by (simp add: hmac_secret_inv_def)
    show ?thesis
      unfolding parse_get_assertion_hmac_secret_entry_def [abs_def]
      using that
      by (intro parses_if parses_check [OF parse_uint8_parses [OF assms(1)]]
          parses_check [OF parse_byte_string_parses [OF assms(1)]]
          parses_check [OF parse_agreement_key_parses [OF assms(1) c]] skip_parses [OF assms(1)])
        (auto simp: hmac_secret_inv_def)
  qed
  show ?thesis
    unfolding parse_get_assertion_hmac_secret_extension_def [abs_def]
    by (rule parses_check [OF parse_map_parses [OF assms(1) parse_int_parses [OF assms(1)] entry
        assms(2)]]) (auto simp: Let_def ctap_is_present_or)
qed

text \<open>A parsed hmac-secret extension is complete.\<close>

definition get_assertion_inv :: "'v tinycbor \<Rightarrow> 'v CTAP_getAssertion \<Rightarrow> bool" where
  "get_assertion_inv dec ga \<longleftrightarrow> hmac_secret_inv (hmac_secret ga)
     \<and> (bit (params_present (ga_common ga)) 3 \<longrightarrow> saved_array dec (allowList ga))
     \<and> (bit (extensions_present (ga_common ga)) 1 \<longrightarrow>
          (\<forall>i\<in>{1, 2, 3}. bit (hs_present (hmac_secret ga)) i))"

lemma get_assertion_extensions_parses:
  assumes "tinycbor_ok dec rep" and "get_assertion_inv dec ga0"
  shows "parses rep (parse_get_assertion_extensions dec ga0) (get_assertion_inv dec)"
proof -
  have entry: "parses rep (parse_get_assertion_extensions_entry dec key ga) (get_assertion_inv dec)"
    if "get_assertion_inv dec ga" for key ga
  proof -
    have h: "hmac_secret_inv (hmac_secret ga)" using that by (simp add: get_assertion_inv_def)
    show ?thesis
      unfolding parse_get_assertion_extensions_entry_def [abs_def]
      using that
      by (intro parses_if parses_check [OF hmac_secret_parses [OF assms(1) h]]
          skip_parses [OF assms(1)])
        (auto simp: get_assertion_inv_def)
  qed
  show ?thesis
    unfolding parse_get_assertion_extensions_def [abs_def]
    by (rule parse_map_parses [OF assms(1) parse_text_string_parses [OF assms(1)] entry assms(2)])
qed

lemma get_assertion_entry_parses:
  assumes "tinycbor_ok dec rep" and "get_assertion_inv dec ga"
  shows "parses rep (ctap_parse_get_assertion_entry dec key ga) (get_assertion_inv dec)"
  unfolding ctap_parse_get_assertion_entry_def [abs_def] Let_def
  using assms(2)
  by (intro parses_if array_parses [OF assms(1)]
      parses_check [OF parse_uint8_parses [OF assms(1)]]
      parses_check [OF parse_byte_string_parses [OF assms(1)]]
      parses_check [OF parse_text_string_parses [OF assms(1)]]
      parses_check [OF get_assertion_extensions_parses [OF assms]]
      parses_check [OF mc_ga_options_parses [OF assms(1)]] skip_parses [OF assms(1)])
    (auto simp: get_assertion_inv_def ga_set_present_def)

lemma get_assertion_parses:
  assumes "tinycbor_ok dec rep"
  shows "parses rep (\<lambda>v. ctap_parse_get_assertion dec (Some v))
    (\<lambda>ga. get_assertion_inv dec ga \<and> (\<forall>i\<in>{1, 2}. bit (params_present (ga_common ga)) i))"
proof -
  have z: "get_assertion_inv dec zero_CTAP_getAssertion"
    by (simp add: get_assertion_inv_def zero_CTAP_getAssertion_def zero_CTAP_mc_ga_common_def
        hmac_secret_inv_def cose_buffers_def zero_COSE_Key_def)
  have map: "parses rep (parse_map dec (parse_int dec) (ctap_parse_get_assertion_entry dec)
      zero_CTAP_getAssertion) (get_assertion_inv dec)"
    using assms z by (intro parse_map_parses parse_int_parses get_assertion_entry_parses)
  show ?thesis
    unfolding ctap_parse_get_assertion_def option.case
    by (rule parses_check [OF map]) (auto simp: Let_def ctap_is_present_or)
qed

section \<open>Credential lists\<close>

lemma cred_desc_parses:
  assumes "tinycbor_ok dec rep"
  shows "parses rep (parse_cred_desc dec d0) (\<lambda>_. True)"
proof -
  have entry: "parses rep (parse_cred_desc_entry dec key q) (\<lambda>_. True)" for key q
    unfolding parse_cred_desc_entry_def [abs_def] Let_def case_prod_beta
    by (intro parses_if skip_parses [OF assms] TrueI
        parses_check [OF parse_text_string_parses [OF assms]]
        parses_check [OF parse_byte_string_parses [OF assms]]) simp_all
  show ?thesis
    unfolding parse_cred_desc_def [abs_def]
    by (rule parses_check [OF parse_map_parses [OF assms parse_text_string_parses [OF assms] entry
        TrueI]]) (auto split: prod.splits)
qed

lemma cred_params_parses:
  assumes "tinycbor_ok dec rep"
  shows "parses rep (parse_cred_params dec p0) (\<lambda>_. True)"
proof -
  have type: "parses rep (\<lambda>m. ctap_cbor_ensure_type (cbor_value_is_text_string dec m) (
        cbor_decoding_check (cbor_value_get_string_length dec m) (\<lambda>actual_type_length.
        if actual_type_length > 10 then
          cbor_decoding_check (cbor_value_advance dec m) (\<lambda>m1. Ok (f m, m1))
        else
          cbor_decoding_check (cbor_value_copy_text_string dec m 10) (\<lambda>(type, m1).
          Ok (g type, m1))))) (\<lambda>_. True)" for f g
    unfolding parses_def
  proof (intro allI impI result_ok_ensure result_ok_decoding)
    fix v n S k
    assume a: "rep v (Suc n # S)" "cbor_value_is_text_string dec v"
      "cbor_value_get_string_length dec v = Some k"
    show "result_ok (\<lambda>w. rep w (n # S)) (\<lambda>_. True)
      (if k > 10 then cbor_decoding_check (cbor_value_advance dec v) (\<lambda>m1. Ok (f v, m1))
       else cbor_decoding_check (cbor_value_copy_text_string dec v 10) (\<lambda>(type, m1).
          Ok (g type, m1)))"
    proof (cases "k > 10")
      case True
      then show ?thesis
        using dec_advance [OF assms a(1)] by (simp add: result_ok_decoding)
    next
      case False
      then have "k \<le> 10" by simp
      from dec_copy [OF assms a this] False show ?thesis
        by (auto intro!: result_ok_decoding)
    qed
  qed
  have entry: "parses rep (parse_cred_params_entry dec key q) (\<lambda>_. True)" for key q
    unfolding parse_cred_params_entry_def [abs_def] Let_def case_prod_beta
    by (intro parses_if skip_parses [OF assms] TrueI type [unfolded case_prod_beta]
        parses_check [OF parse_int_parses [OF assms]]) simp_all
  show ?thesis
    unfolding parse_cred_params_def [abs_def]
    by (rule parses_check [OF parse_map_parses [OF assms parse_text_string_parses [OF assms] entry
        TrueI]]) (auto split: prod.splits)
qed

section \<open>Credential management parameters\<close>

definition sub_params_inv :: "CTAP_credentialManagement_subCmdParams \<Rightarrow> bool" where
  "sub_params_inv p \<longleftrightarrow> user_inv (sub_user p) \<and> (bit (sub_present p) 1 \<longrightarrow> length (rpIDHash p) = 32)
     \<and> (bit (sub_present p) 3 \<longrightarrow> bit (user_fields (sub_user p)) CTAP_userEntity_id)"

lemma sub_params_parses:
  assumes "tinycbor_ok dec rep" and "sub_params_inv p0"
  shows "parses rep (parse_credential_management_subcommand_params dec p0)
    (\<lambda>p. sub_params_inv p \<and> 0 < raw_size p)"
proof -
  have entry: "parses rep (parse_credential_management_subcommand_params_entry dec key p)
      (\<lambda>p. sub_params_inv p \<and> raw_start p = r)" if "sub_params_inv p \<and> raw_start p = r" for key p r
  proof -
    have u: "user_inv (sub_user p)" using that by (simp add: sub_params_inv_def)
    show ?thesis
      unfolding parse_credential_management_subcommand_params_entry_def [abs_def]
      using that
      by (intro parses_if parses_check [OF parse_byte_string_parses [OF assms(1)]]
          parses_check [OF cred_desc_parses [OF assms(1)]]
          parses_check [OF user_entity_parses [OF assms(1) u]] skip_parses [OF assms(1)])
        (auto simp: sub_params_inv_def)
  qed
  show ?thesis
    unfolding parses_def parse_credential_management_subcommand_params_def
      parse_map_def
  proof (intro allI impI)
    fix v n S
    assume v: "rep v (Suc n # S)"
    let ?p0 = "p0\<lparr>raw_start := source_ptr dec v\<rparr>"
    let ?I = "\<lambda>p. sub_params_inv p \<and> raw_start p = source_ptr dec v"
    have i0: "?I ?p0" using assms(2) by (simp add: sub_params_inv_def)
    show "result_ok (\<lambda>w. rep w (n # S)) (\<lambda>p. sub_params_inv p \<and> 0 < raw_size p)
      (ctap_check
        (ctap_cbor_ensure_type (cbor_value_is_map dec v)
          (cbor_decoding_check (cbor_value_enter_container dec v)
            (\<lambda>m. cbor_decoding_check (cbor_value_get_map_length dec v)
              (\<lambda>map_length. ctap_check
                (parse_entries map_length (parse_int dec)
                  (parse_credential_management_subcommand_params_entry dec) ?p0 m)
                (\<lambda>(p1, m1). cbor_decoding_check (cbor_value_leave_container dec v m1)
                  (\<lambda>it1. Ok (p1, it1)))))))
        (\<lambda>(p, it1). let raw_size' = source_ptr dec it1 - raw_start p in
          assert_that (raw_size' > 0) (Ok (p\<lparr>raw_size := raw_size'\<rparr>, it1))))"
    proof (rule result_ok_check [where ?at1.0 = "\<lambda>w. rep w (n # S) \<and> source_ptr dec v < source_ptr dec w"
          and Q = ?I], intro result_ok_ensure result_ok_decoding)
      fix m k
      assume a: "cbor_value_is_map dec v" "cbor_value_enter_container dec v = Some m"
        "cbor_value_get_map_length dec v = Some k"
      have m: "rep m (2 * k # Suc n # S)" by (rule dec_enter_map [OF assms(1) v a])
      show "result_ok (\<lambda>w. rep w (n # S) \<and> source_ptr dec v < source_ptr dec w) ?I
        (ctap_check (parse_entries k (parse_int dec)
          (parse_credential_management_subcommand_params_entry dec) ?p0 m)
          (\<lambda>(p1, m1). cbor_decoding_check (cbor_value_leave_container dec v m1)
             (\<lambda>it1. Ok (p1, it1))))"
        by (rule result_ok_check [OF parse_entries_ok [OF parse_int_parses [OF assms(1)] entry i0 m]])
          (auto intro!: result_ok_decoding dest: dec_leave [OF assms(1) v])
    next
      fix p w
      assume "?I p" "rep w (n # S) \<and> source_ptr dec v < source_ptr dec w"
      then show "result_ok (\<lambda>w. rep w (n # S)) (\<lambda>p. sub_params_inv p \<and> 0 < raw_size p)
        (case (p, w) of (p, it1) \<Rightarrow> let raw_size' = source_ptr dec it1 - raw_start p in
          assert_that (raw_size' > 0) (Ok (p\<lparr>raw_size := raw_size'\<rparr>, it1)))"
        by (simp add: Let_def assert_that_def sub_params_inv_def)
    qed
  qed
qed

definition credential_management_inv :: "CTAP_credentialManagement \<Rightarrow> bool" where
  "credential_management_inv p \<longleftrightarrow> sub_params_inv (cm_subCommandParams p)
     \<and> (bit (cm_present p) 2 \<longrightarrow> 0 < raw_size (cm_subCommandParams p))"

lemma credential_management_parses:
  assumes "tinycbor_ok dec rep"
  shows "parses rep (\<lambda>v. ctap_parse_credential_management dec (Some v))
    (\<lambda>p. credential_management_inv p \<and> bit (cm_present p) 1)"
proof -
  have entry: "parses rep (ctap_parse_credential_management_entry dec key p)
      credential_management_inv" if "credential_management_inv p" for key p
  proof -
    have s: "sub_params_inv (cm_subCommandParams p)"
      using that by (simp add: credential_management_inv_def)
    show ?thesis
      unfolding ctap_parse_credential_management_entry_def [abs_def]
      using that
      by (intro parses_if parses_check [OF parse_uint8_parses [OF assms]]
          parses_check [OF parse_byte_string_parses [OF assms]]
          parses_check [OF sub_params_parses [OF assms s]] skip_parses [OF assms])
        (auto simp: credential_management_inv_def)
  qed
  have z: "credential_management_inv zero_CTAP_credentialManagement"
    by (simp add: credential_management_inv_def zero_CTAP_credentialManagement_def
        sub_params_inv_def user_inv_def zero_CTAP_userEntity_def)
  show ?thesis
    unfolding ctap_parse_credential_management_def option.case
    by (rule parses_check [OF parse_map_parses [OF assms parse_int_parses [OF assms] entry z]]) auto
qed

end
