(* ===== verification/Cbor_Reference.thy ===== *)
theory Cbor_Reference
  imports Cbor_Contract
begin

text \<open>
  A decoder that satisfies the contract of \<open>Cbor_Contract\<close>: it walks a tree of data items. It
  stands in for TinyCBOR where a concrete request is parsed, and shows that the contract can be
  met. The properties of the command parsers follow.
\<close>

section \<open>A decoder over trees\<close>

datatype item =
    I_Int int | I_Bytes bytes | I_Text bytes | I_Bool bool
  | I_Map "(item \<times> item) list" | I_Array "item list"

text \<open>An iterator: the items left in each open container, innermost first, and a position.\<close>

type_synonym ref_it = "item list list \<times> nat"

definition ref_head :: "ref_it \<Rightarrow> item option" where
  "ref_head v = (case fst v of (x # xs) # r \<Rightarrow> Some x | _ \<Rightarrow> None)"

definition ref_next :: "ref_it \<Rightarrow> ref_it option" where
  "ref_next v = (case fst v of (x # xs) # r \<Rightarrow> Some (xs # r, Suc (snd v)) | _ \<Rightarrow> None)"

definition ref_enter :: "ref_it \<Rightarrow> ref_it option" where
  "ref_enter v = (case ref_head v of
     Some (I_Map kvs) \<Rightarrow> Some (concat (map (\<lambda>(k, x). [k, x]) kvs) # fst v, snd v)
   | Some (I_Array xs) \<Rightarrow> Some (xs # fst v, snd v)
   | _ \<Rightarrow> None)"

definition ref_int :: "ref_it \<Rightarrow> int option" where
  "ref_int v = (case ref_head v of Some (I_Int i) \<Rightarrow> Some i | _ \<Rightarrow> None)"

definition ref_bytes :: "ref_it \<Rightarrow> bytes option" where
  "ref_bytes v = (case ref_head v of Some (I_Bytes b) \<Rightarrow> Some b | _ \<Rightarrow> None)"

definition ref_text :: "ref_it \<Rightarrow> bytes option" where
  "ref_text v = (case ref_head v of Some (I_Text b) \<Rightarrow> Some b | _ \<Rightarrow> None)"

definition ref_decoder :: "ref_it tinycbor" where
  "ref_decoder = \<lparr>
     cbor_value_is_map = (\<lambda>v. case ref_head v of Some (I_Map _) \<Rightarrow> True | _ \<Rightarrow> False),
     cbor_value_is_array = (\<lambda>v. case ref_head v of Some (I_Array _) \<Rightarrow> True | _ \<Rightarrow> False),
     cbor_value_is_integer = (\<lambda>v. ref_int v \<noteq> None),
     cbor_value_is_unsigned_integer = (\<lambda>v. case ref_int v of Some i \<Rightarrow> 0 \<le> i | _ \<Rightarrow> False),
     cbor_value_is_byte_string = (\<lambda>v. ref_bytes v \<noteq> None),
     cbor_value_is_text_string = (\<lambda>v. ref_text v \<noteq> None),
     cbor_value_is_boolean = (\<lambda>v. case ref_head v of Some (I_Bool _) \<Rightarrow> True | _ \<Rightarrow> False),
     cbor_value_is_length_known = (\<lambda>v. True),
     cbor_value_enter_container = ref_enter,
     cbor_value_leave_container = (\<lambda>v m. ref_next v),
     cbor_value_get_map_length =
       (\<lambda>v. case ref_head v of Some (I_Map kvs) \<Rightarrow> Some (length kvs) | _ \<Rightarrow> None),
     cbor_value_get_array_length =
       (\<lambda>v. case ref_head v of Some (I_Array xs) \<Rightarrow> Some (length xs) | _ \<Rightarrow> None),
     cbor_value_get_string_length = (\<lambda>v. map_option length (ref_text v)),
     cbor_value_get_int_checked = (\<lambda>v. case ref_int v of
        Some i \<Rightarrow> if - (2 ^ 31) \<le> i \<and> i < 2 ^ 31 then Some i else None | None \<Rightarrow> None),
     cbor_value_get_uint64 = (\<lambda>v. map_option of_int (ref_int v)),
     cbor_value_get_boolean = (\<lambda>v. case ref_head v of Some (I_Bool b) \<Rightarrow> Some b | _ \<Rightarrow> None),
     integer_too_large = (\<lambda>v. case ref_int v of Some i \<Rightarrow> 65536 \<le> i | None \<Rightarrow> False),
     value_extra = (\<lambda>v. case ref_int v of Some i \<Rightarrow> of_int i | None \<Rightarrow> 0),
     cbor_value_advance_fixed = ref_next,
     cbor_value_advance = ref_next,
     cbor_value_begin_string_iteration = Some,
     cbor_value_get_byte_string_chunk = (\<lambda>v. map_option (\<lambda>b. (Some b, v)) (ref_bytes v)),
     cbor_value_get_text_string_chunk = (\<lambda>v. map_option (\<lambda>b. (Some b, v)) (ref_text v)),
     cbor_value_finish_string_iteration = ref_next,
     cbor_value_copy_text_string = (\<lambda>v n. case (ref_text v, ref_next v) of
        (Some b, Some w) \<Rightarrow> if length b \<le> n then Some (b, w) else None | _ \<Rightarrow> None),
     source_ptr = snd\<rparr>"

definition ref_rep :: "ref_it \<Rightarrow> nat list \<Rightarrow> bool" where
  "ref_rep v ns \<longleftrightarrow> map length (fst v) = ns"

lemma length_concat_pairs [simp]: "length (concat (map (\<lambda>(k, x). [k, x]) kvs)) = 2 * length kvs"
  by (induction kvs) auto

lemma ref_next_rep:
  "ref_rep v (Suc n # S) \<Longrightarrow> ref_next v = Some w \<Longrightarrow> ref_rep w (n # S) \<and> snd v < snd w"
  by (cases v) (auto simp: ref_rep_def ref_next_def length_Suc_conv split: list.splits)

lemma ref_enter_map_rep:
  "ref_rep v (Suc n # S) \<Longrightarrow> ref_head v = Some (I_Map kvs) \<Longrightarrow> ref_enter v = Some m \<Longrightarrow>
   ref_rep m (2 * length kvs # Suc n # S)"
  by (auto simp: ref_rep_def ref_enter_def)

lemma ref_enter_array_rep:
  "ref_rep v (Suc n # S) \<Longrightarrow> ref_head v = Some (I_Array xs) \<Longrightarrow> ref_enter v = Some m \<Longrightarrow>
   ref_rep m (length xs # Suc n # S)"
  by (auto simp: ref_rep_def ref_enter_def)

lemma ref_decoder_ok: "tinycbor_ok ref_decoder ref_rep"
  unfolding tinycbor_ok_def ref_decoder_def tinycbor.simps
proof (intro conjI)
  show "\<forall>v m k n S. ref_rep v (Suc n # S) \<longrightarrow>
      (case ref_head v of Some (I_Map _) \<Rightarrow> True | _ \<Rightarrow> False) \<longrightarrow> ref_enter v = Some m \<longrightarrow>
      (case ref_head v of Some (I_Map kvs) \<Rightarrow> Some (length kvs) | _ \<Rightarrow> None) = Some k \<longrightarrow>
      ref_rep m (2 * k # Suc n # S)"
    using ref_enter_map_rep by (auto split: option.splits item.splits)
  show "\<forall>v m k n S. ref_rep v (Suc n # S) \<longrightarrow>
      (case ref_head v of Some (I_Array _) \<Rightarrow> True | _ \<Rightarrow> False) \<longrightarrow> ref_enter v = Some m \<longrightarrow>
      (case ref_head v of Some (I_Array xs) \<Rightarrow> Some (length xs) | _ \<Rightarrow> None) = Some k \<longrightarrow>
      ref_rep m (k # Suc n # S)"
    using ref_enter_array_rep by (auto split: option.splits item.splits)
qed (use ref_next_rep in \<open>auto split: option.splits if_splits\<close>)

lemmas ref_simps = ref_decoder_def ref_head_def ref_next_def ref_enter_def ref_int_def ref_bytes_def
  ref_text_def parse_map_def parse_int_def parse_uint8_def parse_byte_string_to_ctap_string_def
  parse_text_string_to_ctap_string_def ctap_cbor_value_get_uint8_def ctap_cbor_ensure_type_def
  assert_that_def

section \<open>Properties\<close>



text \<open>
  The hash of the client data in getAssertion. The parser of makeCredential rejects a
  clientDataHash that is not 32 bytes long, the parser of getAssertion accepts one of any length,
  the empty one included, although the command copies 32 bytes from it.
\<close>

theorem get_assertion_accepts_short_hash:
  "(\<exists>ga w. ctap_parse_get_assertion ref_decoder (Some ([[I_Map
        [(I_Int 1, I_Text (ctap_str ''rp'')), (I_Int 2, I_Bytes [])]]], 0)) = Ok (ga, w)
     \<and> clientDataHash (ga_common ga) = [])
   \<and> ctap_parse_make_credential ref_decoder (Some ([[I_Map [(I_Int 1, I_Bytes [])]]], 0))
     = Err CTAP1_ERR_INVALID_PARAMETER"
  by (simp add: ctap_parse_get_assertion_def ctap_parse_make_credential_def ref_simps
      ctap_parse_get_assertion_entry_def ctap_parse_make_credential_entry_def Let_def
      ga_set_present_def ctap_is_present_or zero_CTAP_getAssertion_def
      zero_CTAP_mc_ga_common_def)

text \<open>
  Entries of pubKeyCredParams whose type is not "public-key". The result of one entry with the
  supported algorithm -7 depends on memory the code never initialised: with an unknown type the
  structure keeps the type it happened to hold, so the entry is chosen when that was
  "public-key". A proper prefix of "public-key", the empty string included, is taken for it.
\<close>

theorem cred_params_type_unchecked:
  "ctap_parse_make_credential_pub_key_cred_params ref_decoder stack
     (zero_CTAP_makeCredential\<lparr>pubKeyCredParams := Some ([[I_Array [I_Map
        [(I_Text (ctap_str ''alg''), I_Int (-7)), (I_Text (ctap_str ''type''), I_Text (ctap_str ''x''))]]]], 0)\<rparr>)
   = (if credParams_type (stack 0) = 1
      then Ok (zero_CTAP_makeCredential\<lparr>pubKeyCredParams := Some ([[I_Array [I_Map
        [(I_Text (ctap_str ''alg''), I_Int (-7)), (I_Text (ctap_str ''type''), I_Text (ctap_str ''x''))]]]], 0),
        pubKeyCredParams_chosen := (stack 0)\<lparr>credParams_alg := -7\<rparr>\<rparr>)
      else Err CTAP2_ERR_UNSUPPORTED_ALGORITHM)
   \<and> is_public_key_type (ctap_str ''public'') \<and> is_public_key_type []"
  by (simp add: ctap_parse_make_credential_pub_key_cred_params_def ref_simps is_public_key_type_def
      parse_cred_params_def parse_cred_params_entry_def ctap_string_matches_def ctap_str_def
      ctap_is_supported_pub_key_cred_alg_def Let_def)

end
