(* ===== verification/Client_Pin.thy ===== *)
theory Client_Pin
  imports Ctap_Parse Pin_Protocol Pin_Uv_Auth_Token
begin

text \<open>
  The command authenticatorClientPIN (\<open>core/ctap_pin.c\<close>): retry counters, setting and changing
  the PIN, and the issue of pinUvAuthTokens. The properties of the command are in
  \<open>Client_Pin_Security\<close>.
\<close>

section \<open>Interfaces and status checks\<close>

text \<open>
  The structures of function pointers a command reaches through the state (\<open>state->crypto\<close>,
  \<open>state->storage\<close>; they never change) and the encoder.
\<close>

record ('h, 's) ctap_interfaces =
  crypto_ops :: "'h ctap_crypto"
  storage_ops :: "'s ctap_storage"
  encoder_ok :: enc_ok

text \<open>
  \<open>ctap_check\<close> on an operation that changes the state: a status other than \<open>CTAP2_OK\<close> is
  returned with the state reached so far. \<open>None\<close> is a failed assertion or undefined behaviour.
\<close>

definition ctap_check_state ::
    "(u8 \<times> 'a) option \<Rightarrow> ('a \<Rightarrow> (u8 \<times> 'b) option) \<Rightarrow> ('a \<Rightarrow> 'b) \<Rightarrow> (u8 \<times> 'b) option" where
  "ctap_check_state r k ret =
     (case r of None \<Rightarrow> None
      | Some (status, x) \<Rightarrow> if status \<noteq> CTAP2_OK then Some (status, ret x) else k x)"

lemma ctap_check_state_None [simp]: "ctap_check_state None k ret = None"
  by (simp add: ctap_check_state_def)

lemma ctap_check_state_Some [simp]:
  "ctap_check_state (Some (status, x)) k ret
     = (if status \<noteq> CTAP2_OK then Some (status, ret x) else k x)"
  by (simp add: ctap_check_state_def)

lemma ctap_check_state_eq_Some:
  "ctap_check_state r k ret = Some y \<longleftrightarrow>
     (\<exists>status x. r = Some (status, x) \<and>
        (if status \<noteq> CTAP2_OK then y = (status, ret x) else k x = Some y))"
  by (cases r) (auto split: if_splits)

section \<open>Code points\<close>

fun count_unicode_code_points_in_utf8_string :: "bytes \<Rightarrow> nat" where
  "count_unicode_code_points_in_utf8_string [] = 0"
| "count_unicode_code_points_in_utf8_string (b # str) =
     (if b AND 0xC0 \<noteq> 0x80 then 1 else 0) + count_unicode_code_points_in_utf8_string str"

section \<open>The persistent PIN state and the retry counters\<close>

abbreviation (input) CTAP_PIN_TOTAL_ATTEMPTS :: u8 where "CTAP_PIN_TOTAL_ATTEMPTS \<equiv> 8"
abbreviation (input) CTAP_PIN_PER_BOOT_ATTEMPTS :: u8 where "CTAP_PIN_PER_BOOT_ATTEMPTS \<equiv> 3"

definition update_persistent_pin_state ::
    "('h, 's) ctap_interfaces \<Rightarrow> ('h, 's) ctap_state \<Rightarrow> ('h, 's) ctap_state option" where
  "update_persistent_pin_state env s =
     do { (status, item, st) \<leftarrow> create_or_update_item (storage_ops env) (storage s)
            \<lparr>item_handle = pin_state_item_handle s, item_key = CTAP_STORAGE_KEY_PIN_INFO,
             item_size = 20, item_data = pin_state_bytes (pin_state s)\<rparr>;
          Some (if status = CTAP_STORAGE_OK
                then s\<lparr>storage := st, pin_state_item_handle := item_handle item\<rparr>
                else s\<lparr>storage := st\<rparr>) }"

definition decrement_pin_remaining_attempts ::
    "('h, 's) ctap_interfaces \<Rightarrow> ('h, 's) ctap_state \<Rightarrow> ('h, 's) ctap_state option" where
  "decrement_pin_remaining_attempts env s =
     require (pin_boot_remaining_attempts s > 0) (
     let s1 = s\<lparr>pin_boot_remaining_attempts := pin_boot_remaining_attempts s - 1\<rparr> in
     require (ctap_get_pin_total_remaining_attempts s1 > 0) (
     update_persistent_pin_state env (s1\<lparr>pin_state := (pin_state s1)\<lparr>
       pin_total_remaining_attempts := pin_total_remaining_attempts (pin_state s1) - 1\<rparr>\<rparr>)))"

definition reset_pin_remaining_attempts ::
    "('h, 's) ctap_interfaces \<Rightarrow> ('h, 's) ctap_state \<Rightarrow> bool \<Rightarrow> ('h, 's) ctap_state option" where
  "reset_pin_remaining_attempts env s perform_persistent_update =
     (let s1 = s\<lparr>pin_boot_remaining_attempts := CTAP_PIN_PER_BOOT_ATTEMPTS\<rparr> in
      if ctap_get_pin_total_remaining_attempts s1 < CTAP_PIN_TOTAL_ATTEMPTS then
        let s2 = s1\<lparr>pin_state := (pin_state s1)\<lparr>
                   pin_total_remaining_attempts := CTAP_PIN_TOTAL_ATTEMPTS\<rparr>\<rparr> in
        if perform_persistent_update then update_persistent_pin_state env s2 else Some s2
      else Some s1)"

definition check_pin_remaining_attempts :: "('h, 's) ctap_state \<Rightarrow> u8" where
  "check_pin_remaining_attempts s =
     (if ctap_get_pin_total_remaining_attempts s = 0 then CTAP2_ERR_PIN_BLOCKED
      else if pin_boot_remaining_attempts s = 0 then CTAP2_ERR_PIN_AUTH_BLOCKED
      else CTAP2_OK)"

text \<open>
  The pointer to a protocol is its index in \<open>pin_protocols\<close>. The result of \<open>regenerate\<close> is
  ignored by the code.
\<close>

definition regenerate_protocol ::
    "('h, 's) ctap_interfaces \<Rightarrow> nat \<Rightarrow> ('h, 's) ctap_state \<Rightarrow> ('h, 's) ctap_state" where
  "regenerate_protocol env i s =
     (let (ok, rng1, p1) = ctap_pin_protocol_regenerate (crypto_ops env) (rng_position s)
                             (pin_protocols s ! i) in
      s\<lparr>rng_position := rng1, pin_protocols := (pin_protocols s)[i := p1]\<rparr>)"

definition handle_invalid_pin :: "('h, 's) ctap_interfaces \<Rightarrow> ('h, 's) ctap_state \<Rightarrow> nat
    \<Rightarrow> (u8 \<times> ('h, 's) ctap_state) option" where
  "handle_invalid_pin env s i =
     do { s1 \<leftarrow> decrement_pin_remaining_attempts env s;
          let s2 = regenerate_protocol env i s1;
          ctap_check_state (Some (check_pin_remaining_attempts s2, s2))
            (\<lambda>s3. Some (CTAP2_ERR_PIN_INVALID, s3)) id }"

definition check_pin_hash :: "('h, 's) ctap_interfaces \<Rightarrow> ('h, 's) ctap_state \<Rightarrow> nat \<Rightarrow> bytes
    \<Rightarrow> bytes \<Rightarrow> (u8 \<times> ('h, 's) ctap_state) option" where
  "check_pin_hash env s i pin_hash_enc shared_secret =
     require (ctap_get_pin_total_remaining_attempts s > 0) (
     require (pin_boot_remaining_attempts s > 0) (
     if \<not> ctap_is_pin_set s then Some (CTAP2_ERR_PIN_NOT_SET, s)
     else
       let p = pin_protocols s ! i;
           pin_hash_length = length pin_hash_enc - encryption_extra_length p in
       if length pin_hash_enc < encryption_extra_length p then handle_invalid_pin env s i
       else if pin_hash_length \<noteq> 16 then handle_invalid_pin env s i
       else do {
         decrypted \<leftarrow> protocol_decrypt p (crypto_ops env) shared_secret pin_hash_enc pin_hash_length;
         case decrypted of
           None \<Rightarrow> handle_invalid_pin env s i
         | Some hash \<Rightarrow>
             if pin_hash (pin_state s) \<noteq> hash then handle_invalid_pin env s i
             else do { s1 \<leftarrow> reset_pin_remaining_attempts env s True; Some (CTAP2_OK, s1) } }))"

section \<open>Setting a PIN\<close>

text \<open>The loop that drops trailing zero bytes: the length that remains of the first \<open>n\<close> bytes.\<close>

fun new_pin_length_loop :: "nat \<Rightarrow> bytes \<Rightarrow> nat" where
  "new_pin_length_loop 0 padded_new_pin = 0"
| "new_pin_length_loop (Suc n) padded_new_pin =
     (if padded_new_pin ! n \<noteq> 0 then Suc n else new_pin_length_loop n padded_new_pin)"

definition set_pin :: "('h, 's) ctap_interfaces \<Rightarrow> ('h, 's) ctap_state \<Rightarrow> nat \<Rightarrow> bytes \<Rightarrow> bytes
    \<Rightarrow> (u8 \<times> ('h, 's) ctap_state) option" where
  "set_pin env s i new_pin_enc shared_secret =
     (let p = pin_protocols s ! i;
          padded_new_pin_length = length new_pin_enc - encryption_extra_length p in
      if length new_pin_enc < encryption_extra_length p then Some (CTAP1_ERR_INVALID_PARAMETER, s)
      else if padded_new_pin_length \<noteq> 64 then Some (CTAP1_ERR_INVALID_PARAMETER, s)
      else do {
        decrypted \<leftarrow> protocol_decrypt p (crypto_ops env) shared_secret new_pin_enc 64;
        case decrypted of
          None \<Rightarrow> Some (CTAP2_ERR_PIN_AUTH_INVALID, s)
        | Some padded_new_pin \<Rightarrow>
            let new_pin_length = new_pin_length_loop 64 padded_new_pin;
                new_pin = take new_pin_length padded_new_pin in
            if new_pin_length > 63 then Some (CTAP2_ERR_PIN_POLICY_VIOLATION, s)
            else
              let new_pin_code_point_length = count_unicode_code_points_in_utf8_string new_pin in
              if new_pin_code_point_length < unat (ctap_get_pin_min_code_point_length s)
              then Some (CTAP2_ERR_PIN_POLICY_VIOLATION, s)
              else require (new_pin_code_point_length \<le> 63) (
                case sha256_compute_digest (crypto_ops env) new_pin of
                  None \<Rightarrow> Some (CTAP1_ERR_OTHER, s)
                | Some new_pin_hash \<Rightarrow> do {
                    s1 \<leftarrow> reset_pin_remaining_attempts env (s\<lparr>pin_state := (pin_state s)\<lparr>
                            pin_hash := take 16 new_pin_hash,
                            pin_code_point_length := of_nat new_pin_code_point_length,
                            is_pin_set := 1\<rparr>\<rparr>) False;
                    s2 \<leftarrow> update_persistent_pin_state env s1;
                    Some (CTAP2_OK, s2) }) })"

text \<open>
  Key agreement for a request: the inner \<open>None\<close> is a rejected key. The check of
  \<open>pinUvAuthParam\<close> under the shared secret over the parts of the message.
\<close>

definition decapsulate_request :: "('h, 's) ctap_interfaces \<Rightarrow> ('h, 's) ctap_state \<Rightarrow> nat
    \<Rightarrow> COSE_Key \<Rightarrow> (bytes option \<times> ('h, 's) ctap_state) option" where
  "decapsulate_request env s i key_agreement =
     do { (shared_secret, rng1) \<leftarrow> ctap_pin_protocol_decapsulate (crypto_ops env) (rng_position s)
            (pin_protocols s ! i) key_agreement;
          Some (shared_secret, s\<lparr>rng_position := rng1\<rparr>) }"

definition verify_request :: "('h, 's) ctap_interfaces \<Rightarrow> ('h, 's) ctap_state \<Rightarrow> nat \<Rightarrow> bytes
    \<Rightarrow> bytes list \<Rightarrow> bytes \<Rightarrow> bool option" where
  "verify_request env s i shared_secret parts signature =
     (let p = pin_protocols s ! i in
      do { ctx \<leftarrow> verify_init_with_shared_secret p (crypto_ops env) (shared_secret_length p) shared_secret;
           verify_final p (crypto_ops env)
             (fold (\<lambda>d c. ctap_pin_protocol_verify_update (crypto_ops env) c d) parts ctx) signature })"

definition ctap_client_pin_set_pin :: "('h, 's) ctap_interfaces \<Rightarrow> ('h, 's) ctap_state \<Rightarrow> nat
    \<Rightarrow> CTAP_clientPIN \<Rightarrow> (u8 \<times> ('h, 's) ctap_state) option" where
  "ctap_client_pin_set_pin env s i cp =
     (let mandatory_params = ctap_param_to_mask CTAP_clientPIN_keyAgreement
            OR ctap_param_to_mask CTAP_clientPIN_pinUvAuthParam
            OR ctap_param_to_mask CTAP_clientPIN_newPinEnc in
      if \<not> ctap_is_present (cp_present cp) mandatory_params
      then Some (CTAP2_ERR_MISSING_PARAMETER, s)
      else if ctap_is_pin_set s then Some (CTAP2_ERR_PIN_AUTH_INVALID, s)
      else do {
        (secret, s1) \<leftarrow> decapsulate_request env s i (cp_keyAgreement cp);
        case secret of
          None \<Rightarrow> Some (CTAP1_ERR_INVALID_PARAMETER, s1)
        | Some shared_secret \<Rightarrow> do {
            valid \<leftarrow> verify_request env s1 i shared_secret [cp_newPinEnc cp] (cp_pinUvAuthParam cp);
            if \<not> valid then Some (CTAP2_ERR_PIN_AUTH_INVALID, s1)
            else set_pin env s1 i (cp_newPinEnc cp) shared_secret } })"

section \<open>Changing the PIN\<close>

text \<open>\<open>ctap_all_pin_protocols_reset_pin_uv_auth_token\<close> (\<open>core/ctap.c\<close>), results ignored.\<close>

fun reset_pin_uv_auth_tokens :: "'h ctap_crypto \<Rightarrow> nat \<Rightarrow> 'h ctap_pin_protocol list
    \<Rightarrow> nat \<times> 'h ctap_pin_protocol list" where
  "reset_pin_uv_auth_tokens crypto rng [] = (rng, [])"
| "reset_pin_uv_auth_tokens crypto rng (p # ps) =
     (let (ok, rng1, p1) = ctap_pin_protocol_reset_pin_uv_auth_token crypto rng p;
          (rng2, ps1) = reset_pin_uv_auth_tokens crypto rng1 ps in
      (rng2, p1 # ps1))"

definition ctap_all_pin_protocols_reset_pin_uv_auth_token ::
    "('h, 's) ctap_interfaces \<Rightarrow> ('h, 's) ctap_state \<Rightarrow> ('h, 's) ctap_state" where
  "ctap_all_pin_protocols_reset_pin_uv_auth_token env s =
     (let (rng1, ps) = reset_pin_uv_auth_tokens (crypto_ops env) (rng_position s) (pin_protocols s) in
      ctap_pin_uv_auth_token_stop_using (s\<lparr>rng_position := rng1, pin_protocols := ps\<rparr>))"

definition ctap_client_pin_change_pin :: "('h, 's) ctap_interfaces \<Rightarrow> ('h, 's) ctap_state \<Rightarrow> nat
    \<Rightarrow> CTAP_clientPIN \<Rightarrow> (u8 \<times> ('h, 's) ctap_state) option" where
  "ctap_client_pin_change_pin env s i cp =
     (let mandatory_params = ctap_param_to_mask CTAP_clientPIN_keyAgreement
            OR ctap_param_to_mask CTAP_clientPIN_newPinEnc
            OR ctap_param_to_mask CTAP_clientPIN_pinUvAuthParam in
      if \<not> ctap_is_present (cp_present cp) mandatory_params
      then Some (CTAP2_ERR_MISSING_PARAMETER, s)
      else ctap_check_state (Some (check_pin_remaining_attempts s, s)) (\<lambda>s. do {
        (secret, s1) \<leftarrow> decapsulate_request env s i (cp_keyAgreement cp);
        case secret of
          None \<Rightarrow> Some (CTAP1_ERR_INVALID_PARAMETER, s1)
        | Some shared_secret \<Rightarrow> do {
            valid \<leftarrow> verify_request env s1 i shared_secret [cp_newPinEnc cp, cp_pinHashEnc cp]
                       (cp_pinUvAuthParam cp);
            if \<not> valid then Some (CTAP2_ERR_PIN_AUTH_INVALID, s1)
            else
              ctap_check_state (check_pin_hash env s1 i (cp_pinHashEnc cp) shared_secret) (\<lambda>s2.
              ctap_check_state (set_pin env s2 i (cp_newPinEnc cp) shared_secret) (\<lambda>s3.
              Some (CTAP2_OK, ctap_all_pin_protocols_reset_pin_uv_auth_token env s3)) id) id } }) id)"

section \<open>Issuing a pinUvAuthToken\<close>

abbreviation (input) CTAP_clientPIN_res_keyAgreement :: int where "CTAP_clientPIN_res_keyAgreement \<equiv> 1"
abbreviation (input) CTAP_clientPIN_res_pinUvAuthToken :: int where "CTAP_clientPIN_res_pinUvAuthToken \<equiv> 2"
abbreviation (input) CTAP_clientPIN_res_pinRetries :: int where "CTAP_clientPIN_res_pinRetries \<equiv> 3"
abbreviation (input) CTAP_clientPIN_res_powerCycleState :: int where "CTAP_clientPIN_res_powerCycleState \<equiv> 4"

definition ctap_compute_rp_id_hash :: "'h ctap_crypto \<Rightarrow> bytes \<Rightarrow> bytes \<Rightarrow> bytes" where
  "ctap_compute_rp_id_hash c rp_id_hash rp_id =
     (case sha256_compute_digest c rp_id of None \<Rightarrow> rp_id_hash | Some h \<Rightarrow> h)"

text \<open>The state with which the token is encrypted for the platform: fresh tokens, one in use.\<close>

definition issue_pin_uv_auth_token :: "('h, 's) ctap_interfaces \<Rightarrow> ('h, 's) ctap_state \<Rightarrow> u32
    \<Rightarrow> bytes option \<Rightarrow> ('h, 's) ctap_state" where
  "issue_pin_uv_auth_token env s perms rp_id =
     (let s1 = ctap_all_pin_protocols_reset_pin_uv_auth_token env s;
          s2 = ctap_pin_uv_auth_token_begin_using s1 False perms;
          t = pin_uv_auth_token_state s2 in
      case rp_id of
        None \<Rightarrow> s2
      | Some rp \<Rightarrow> s2\<lparr>pin_uv_auth_token_state := t\<lparr>
            rpId_hash := ctap_compute_rp_id_hash (crypto_ops env) (rpId_hash t) rp,
            rpId_set := True\<rparr>\<rparr>)"

definition get_pin_token_using_pin_with_permissions :: "('h, 's) ctap_interfaces
    \<Rightarrow> ('h, 's) ctap_state \<Rightarrow> nat \<Rightarrow> COSE_Key \<Rightarrow> bytes \<Rightarrow> u32 \<Rightarrow> bytes option \<Rightarrow> encoder
    \<Rightarrow> (u8 \<times> ('h, 's) ctap_state \<times> encoder) option" where
  "get_pin_token_using_pin_with_permissions env s i key_agreement pin_hash_enc perms rp_id encoder =
     ctap_check_state (Some (check_pin_remaining_attempts s, s)) (\<lambda>s. do {
       (secret, s1) \<leftarrow> decapsulate_request env s i key_agreement;
       case secret of
         None \<Rightarrow> Some (CTAP1_ERR_INVALID_PARAMETER, s1, encoder)
       | Some shared_secret \<Rightarrow>
           ctap_check_state (check_pin_hash env s1 i pin_hash_enc shared_secret) (\<lambda>s2. do {
             let s3 = issue_pin_uv_auth_token env s2 perms rp_id;
             let p = pin_protocols s3 ! i;
             (encrypted, rng1) \<leftarrow> protocol_encrypt p (crypto_ops env) (rng_position s3) shared_secret
                (pin_uv_auth_token p) (32 + encryption_extra_length p);
             case encrypted of
               None \<Rightarrow> None
             | Some encrypted_pin_uv_auth_token \<Rightarrow>
                 let (status, encoder1) = cbor_encode (encoder_ok env) encoder
                       [Create_Map 1, Encode_Int CTAP_clientPIN_res_pinUvAuthToken,
                        Encode_Bytes encrypted_pin_uv_auth_token, Close_Container] in
                 Some (status, s3\<lparr>rng_position := rng1\<rparr>, encoder1) }) (\<lambda>s. (s, encoder)) })
       (\<lambda>s. (s, encoder))"

definition ctap_client_pin_get_pin_token :: "('h, 's) ctap_interfaces \<Rightarrow> ('h, 's) ctap_state \<Rightarrow> nat
    \<Rightarrow> CTAP_clientPIN \<Rightarrow> encoder \<Rightarrow> (u8 \<times> ('h, 's) ctap_state \<times> encoder) option" where
  "ctap_client_pin_get_pin_token env s i cp encoder =
     (let mandatory_params = ctap_param_to_mask CTAP_clientPIN_keyAgreement
            OR ctap_param_to_mask CTAP_clientPIN_pinHashEnc;
          extraneous_params = ctap_param_to_mask CTAP_clientPIN_permissions
            OR ctap_param_to_mask CTAP_clientPIN_rpId in
      if \<not> ctap_is_present (cp_present cp) mandatory_params
      then Some (CTAP2_ERR_MISSING_PARAMETER, s, encoder)
      else if ctap_is_present_some (cp_present cp) extraneous_params
      then Some (CTAP1_ERR_INVALID_PARAMETER, s, encoder)
      else get_pin_token_using_pin_with_permissions env s i (cp_keyAgreement cp) (cp_pinHashEnc cp)
             (permission_mc OR permission_ga) None encoder)"

definition ctap_permissions_include_any_of :: "u32 \<Rightarrow> u32 \<Rightarrow> bool" where
  "ctap_permissions_include_any_of perms m \<longleftrightarrow> perms AND m \<noteq> 0"

definition ctap_client_pin_get_pin_uv_auth_token_using_pin_with_permissions ::
    "('h, 's) ctap_interfaces \<Rightarrow> ('h, 's) ctap_state \<Rightarrow> nat \<Rightarrow> CTAP_clientPIN \<Rightarrow> encoder
     \<Rightarrow> (u8 \<times> ('h, 's) ctap_state \<times> encoder) option" where
  "ctap_client_pin_get_pin_uv_auth_token_using_pin_with_permissions env s i cp encoder =
     (let mandatory_params = ctap_param_to_mask CTAP_clientPIN_keyAgreement
            OR ctap_param_to_mask CTAP_clientPIN_pinHashEnc
            OR ctap_param_to_mask CTAP_clientPIN_permissions;
          rpId_required = ctap_permissions_include_any_of (cp_permissions cp)
            (permission_mc OR permission_ga);
          rpId_present = ctap_is_present (cp_present cp) (ctap_param_to_mask CTAP_clientPIN_rpId) in
      if \<not> ctap_is_present (cp_present cp) mandatory_params
      then Some (CTAP2_ERR_MISSING_PARAMETER, s, encoder)
      else if cp_permissions cp = 0 then Some (CTAP1_ERR_INVALID_PARAMETER, s, encoder)
      else if rpId_required \<and> \<not> rpId_present then Some (CTAP1_ERR_INVALID_PARAMETER, s, encoder)
      else if ctap_permissions_include_any_of (cp_permissions cp) (permission_be OR permission_lbw)
      then Some (CTAP2_ERR_UNAUTHORIZED_PERMISSION, s, encoder)
      else get_pin_token_using_pin_with_permissions env s i (cp_keyAgreement cp) (cp_pinHashEnc cp)
             (cp_permissions cp) (if rpId_present then Some (cp_rpId cp) else None) encoder)"

section \<open>The command\<close>

text \<open>The index of a protocol version, \<open>None\<close> for \<open>CTAP1_ERR_INVALID_PARAMETER\<close>.\<close>

definition ctap_get_pin_protocol :: "('h, 's) ctap_state \<Rightarrow> nat \<Rightarrow> nat option" where
  "ctap_get_pin_protocol s protocol_version =
     (if protocol_version < 1 \<or> protocol_version > length (pin_protocols s) then None
      else Some (protocol_version - 1))"

definition client_pin_subcommand :: "('h, 's) ctap_interfaces \<Rightarrow> ('h, 's) ctap_state \<Rightarrow> nat
    \<Rightarrow> CTAP_clientPIN \<Rightarrow> encoder \<Rightarrow> (u8 \<times> ('h, 's) ctap_state \<times> encoder) option" where
  "client_pin_subcommand env s i cp encoder =
     (let enc = cbor_encode (encoder_ok env); p = pin_protocols s ! i; cmd = cp_subCommand cp;
          no_data = (\<lambda>r. map_option (\<lambda>(status, s1). (status, s1, encoder)) r) in
      if cmd = 1 then
        let (status, encoder1) = enc encoder
              [Create_Map 2, Encode_Int CTAP_clientPIN_res_pinRetries,
               Encode_Int (uint (ctap_get_pin_total_remaining_attempts s)),
               Encode_Int CTAP_clientPIN_res_powerCycleState,
               Encode_Boolean (pin_boot_remaining_attempts s = 0), Close_Container] in
        Some (status, s, encoder1)
      else if cmd = 2 then
        let (status, encoder1) = enc encoder [Create_Map 1, Encode_Int CTAP_clientPIN_res_keyAgreement] in
        if status \<noteq> CTAP2_OK then Some (status, s, encoder1)
        else
          let (status2, encoder2) = ctap_pin_protocol_get_public_key (encoder_ok env) p encoder1 in
          if status2 \<noteq> CTAP2_OK then Some (status2, s, encoder2)
          else
            let (status3, encoder3) = enc encoder2 [Close_Container] in
            Some (status3, s, encoder3)
      else if cmd = 3 then no_data (ctap_client_pin_set_pin env s i cp)
      else if cmd = 4 then no_data (ctap_client_pin_change_pin env s i cp)
      else if cmd = 5 then ctap_client_pin_get_pin_token env s i cp encoder
      else if cmd = 6 \<or> cmd = 7 then Some (CTAP2_ERR_INVALID_SUBCOMMAND, s, encoder)
      else if cmd = 9 then
        ctap_client_pin_get_pin_uv_auth_token_using_pin_with_permissions env s i cp encoder
      else Some (CTAP2_ERR_INVALID_SUBCOMMAND, s, encoder))"

definition ctap_client_pin :: "('h, 's) ctap_interfaces \<Rightarrow> 'v tinycbor \<Rightarrow> ('h, 's) ctap_state
    \<Rightarrow> 'v option \<Rightarrow> encoder \<Rightarrow> (u8 \<times> ('h, 's) ctap_state \<times> encoder) option" where
  "ctap_client_pin env dec s it encoder =
     (case ctap_parse_client_pin dec it of
        Abort \<Rightarrow> None
      | Err e \<Rightarrow> Some (e, s, encoder)
      | Ok (cp, it1) \<Rightarrow>
          (case ctap_get_pin_protocol s (unat (cp_pinUvAuthProtocol cp)) of
             None \<Rightarrow> Some (CTAP1_ERR_INVALID_PARAMETER, s, encoder)
           | Some i \<Rightarrow> client_pin_subcommand env s i cp encoder))"

end
