(* ===== verification/Client_Pin_Security.thy ===== *)
theory Client_Pin_Security
  imports Client_Pin Cbor_Reference
begin

text \<open>
  What authenticatorClientPIN guarantees: how each request changes the PIN state, that wrong PINs
  are bounded, that tokens are issued only for the right PIN.
\<close>

section \<open>What an operation leaves alone\<close>

text \<open>Two states with the same tokens, token state and stateful command state.\<close>

definition same_tokens :: "('h, 's) ctap_state \<Rightarrow> ('h, 's) ctap_state \<Rightarrow> bool" where
  "same_tokens s s' \<longleftrightarrow>
     map pin_uv_auth_token (pin_protocols s') = map pin_uv_auth_token (pin_protocols s)
     \<and> pin_uv_auth_token_state s' = pin_uv_auth_token_state s
     \<and> stateful_command_state s' = stateful_command_state s"

lemma same_tokens_refl [simp]: "same_tokens s s"
  by (simp add: same_tokens_def)

lemma same_tokens_trans: "same_tokens s s' \<Longrightarrow> same_tokens s' s'' \<Longrightarrow> same_tokens s s''"
  by (simp add: same_tokens_def)

text \<open>Two states with the same PIN information, counters included.\<close>

definition same_pin :: "('h, 's) ctap_state \<Rightarrow> ('h, 's) ctap_state \<Rightarrow> bool" where
  "same_pin s s' \<longleftrightarrow> pin_state s' = pin_state s
     \<and> pin_boot_remaining_attempts s' = pin_boot_remaining_attempts s"

definition same_storage :: "('h, 's) ctap_state \<Rightarrow> ('h, 's) ctap_state \<Rightarrow> bool" where
  "same_storage s s' \<longleftrightarrow> storage s' = storage s
     \<and> pin_state_item_handle s' = pin_state_item_handle s"

lemma same_storage_refl [simp]: "same_storage s s"
  by (simp add: same_storage_def)

lemma same_pin_refl [simp]: "same_pin s s"
  by (simp add: same_pin_def)

lemma update_persistent_frame:
  "update_persistent_pin_state env s = Some s' \<Longrightarrow>
   \<exists>st h. s' = s\<lparr>storage := st, pin_state_item_handle := h\<rparr>"
  unfolding update_persistent_pin_state_def
  by (cases s) (auto split: bind_splits if_splits)

lemma regenerate_protocol_frame:
  "same_tokens s (regenerate_protocol env i s) \<and> same_pin s (regenerate_protocol env i s)
   \<and> same_storage s (regenerate_protocol env i s)"
proof -
  obtain ok rng1 p1 where r: "ctap_pin_protocol_regenerate (crypto_ops env) (rng_position s)
      (pin_protocols s ! i) = (ok, rng1, p1)"
    by (cases "ctap_pin_protocol_regenerate (crypto_ops env) (rng_position s) (pin_protocols s ! i)")
  then have "pin_uv_auth_token p1 = pin_uv_auth_token (pin_protocols s ! i)"
    by (auto simp: ctap_pin_protocol_regenerate_def Let_def split: prod.splits if_splits)
  then have "map pin_uv_auth_token ((pin_protocols s)[i := p1])
      = map pin_uv_auth_token (pin_protocols s)"
    by (cases "i < length (pin_protocols s)")
      (simp_all add: map_update list_update_same_conv list_update_beyond)
  then show ?thesis
    by (simp add: regenerate_protocol_def r same_tokens_def same_pin_def same_storage_def)
qed

lemma decapsulate_request_frame:
  "decapsulate_request env s i key = Some (secret, s1) \<Longrightarrow> \<exists>rng. s1 = s\<lparr>rng_position := rng\<rparr>"
  by (auto simp: decapsulate_request_def split: bind_splits)

section \<open>A wrong PIN\<close>

text \<open>The PIN information of the second state was written to the storage of the first.\<close>

definition pin_written :: "('h, 's) ctap_interfaces \<Rightarrow> ('h, 's) ctap_state \<Rightarrow> ('h, 's) ctap_state
    \<Rightarrow> bool" where
  "pin_written env s s' \<longleftrightarrow>
     (\<exists>sx sy. update_persistent_pin_state env sx = Some sy \<and> pin_state sx = pin_state s'
        \<and> same_storage s sx \<and> same_storage sy s')"

lemma pin_written_same:
  "pin_written env s s1 \<Longrightarrow> pin_state s' = pin_state s1 \<Longrightarrow> same_storage s1 s' \<Longrightarrow> pin_written env s s'"
  by (auto simp: pin_written_def same_storage_def)

definition wrong_pin :: "('h, 's) ctap_interfaces \<Rightarrow> ('h, 's) ctap_state \<Rightarrow> u8 \<Rightarrow> ('h, 's) ctap_state \<Rightarrow> bool" where
  "wrong_pin env s status s' \<longleftrightarrow>
     status \<in> {CTAP2_ERR_PIN_INVALID, CTAP2_ERR_PIN_BLOCKED, CTAP2_ERR_PIN_AUTH_BLOCKED}
     \<and> pin_boot_remaining_attempts s > 0 \<and> ctap_get_pin_total_remaining_attempts s > 0
     \<and> pin_boot_remaining_attempts s' = pin_boot_remaining_attempts s - 1
     \<and> pin_state s' = (pin_state s)\<lparr>pin_total_remaining_attempts :=
                         pin_total_remaining_attempts (pin_state s) - 1\<rparr>
     \<and> same_tokens s s' \<and> pin_written env s s'"

lemma decrement_frame:
  assumes "decrement_pin_remaining_attempts env s = Some s'"
  shows "pin_boot_remaining_attempts s > 0 \<and> ctap_get_pin_total_remaining_attempts s > 0
    \<and> pin_boot_remaining_attempts s' = pin_boot_remaining_attempts s - 1
    \<and> pin_state s' = (pin_state s)\<lparr>pin_total_remaining_attempts :=
                        pin_total_remaining_attempts (pin_state s) - 1\<rparr>
    \<and> pin_protocols s' = pin_protocols s
    \<and> pin_uv_auth_token_state s' = pin_uv_auth_token_state s
    \<and> stateful_command_state s' = stateful_command_state s
    \<and> pin_written env s s'"
proof -
  let ?x = "s\<lparr>pin_boot_remaining_attempts := pin_boot_remaining_attempts s - 1,
    pin_state := (pin_state s)\<lparr>pin_total_remaining_attempts :=
      pin_total_remaining_attempts (pin_state s) - 1\<rparr>\<rparr>"
  have u: "update_persistent_pin_state env ?x = Some s'"
      "pin_boot_remaining_attempts s > 0" "ctap_get_pin_total_remaining_attempts s > 0"
    using assms by (auto simp: decrement_pin_remaining_attempts_def Let_def require_def
        ctap_get_pin_total_remaining_attempts_def split: if_splits)
  from update_persistent_frame [OF u(1)] have "pin_state s' = pin_state ?x" by auto
  then have "pin_written env s s'"
    unfolding pin_written_def using u(1) by (intro exI [of _ ?x] exI [of _ s'])
      (simp add: same_storage_def)
  then show ?thesis using u update_persistent_frame [OF u(1)] by auto
qed

lemma handle_invalid_pin_wrong:
  assumes "handle_invalid_pin env s i = Some (status, s')"
  shows "wrong_pin env s status s'"
proof -
  obtain s1 where s1: "decrement_pin_remaining_attempts env s = Some s1"
      "s' = regenerate_protocol env i s1"
      "status \<in> {CTAP2_ERR_PIN_INVALID, CTAP2_ERR_PIN_BLOCKED, CTAP2_ERR_PIN_AUTH_BLOCKED}"
    using assms by (auto simp: handle_invalid_pin_def Let_def check_pin_remaining_attempts_def
        split: bind_splits if_splits)
  show ?thesis
    using decrement_frame [OF s1(1)] regenerate_protocol_frame [of s1 env i] s1(2,3)
    pin_written_same [of env s s1 s']
    by (auto simp: wrong_pin_def same_tokens_def same_pin_def)
qed

section \<open>Checking a PIN\<close>

definition presents_pin :: "('h, 's) ctap_interfaces \<Rightarrow> ('h, 's) ctap_state \<Rightarrow> nat \<Rightarrow> bytes
    \<Rightarrow> bytes \<Rightarrow> bool" where
  "presents_pin env s i secret pin_hash_enc \<longleftrightarrow>
     length pin_hash_enc = 16 + encryption_extra_length (pin_protocols s ! i)
     \<and> protocol_decrypt (pin_protocols s ! i) (crypto_ops env) secret pin_hash_enc 16
         = Some (Some (pin_hash (pin_state s)))"

definition right_pin :: "('h, 's) ctap_state \<Rightarrow> ('h, 's) ctap_state \<Rightarrow> bool" where
  "right_pin s s' \<longleftrightarrow> ctap_is_pin_set s
     \<and> pin_boot_remaining_attempts s > 0 \<and> ctap_get_pin_total_remaining_attempts s > 0
     \<and> pin_boot_remaining_attempts s' = CTAP_PIN_PER_BOOT_ATTEMPTS
     \<and> pin_state s' = (pin_state s)\<lparr>pin_total_remaining_attempts :=
          max CTAP_PIN_TOTAL_ATTEMPTS (pin_total_remaining_attempts (pin_state s))\<rparr>
     \<and> pin_protocols s' = pin_protocols s \<and> same_tokens s s'"

lemma reset_frame:
  assumes "reset_pin_remaining_attempts env s b = Some s'"
  shows "\<exists>st h. s' = s\<lparr>pin_boot_remaining_attempts := CTAP_PIN_PER_BOOT_ATTEMPTS,
     pin_state := (pin_state s)\<lparr>pin_total_remaining_attempts :=
       max CTAP_PIN_TOTAL_ATTEMPTS (pin_total_remaining_attempts (pin_state s))\<rparr>,
     storage := st, pin_state_item_handle := h\<rparr>"
proof (cases "pin_total_remaining_attempts (pin_state s) < 8")
  case True
  let ?s2 = "s\<lparr>pin_boot_remaining_attempts := CTAP_PIN_PER_BOOT_ATTEMPTS, pin_state :=
    (pin_state s)\<lparr>pin_total_remaining_attempts := CTAP_PIN_TOTAL_ATTEMPTS\<rparr>\<rparr>"
  have "\<exists>st h. s' = ?s2\<lparr>storage := st, pin_state_item_handle := h\<rparr>"
  proof (cases b)
    case True
    then show ?thesis
      using assms \<open>pin_total_remaining_attempts (pin_state s) < 8\<close>
      by (intro update_persistent_frame) (simp add: reset_pin_remaining_attempts_def
          ctap_get_pin_total_remaining_attempts_def)
  next
    case False
    then have "s' = ?s2" using assms \<open>pin_total_remaining_attempts (pin_state s) < 8\<close>
      by (simp add: reset_pin_remaining_attempts_def ctap_get_pin_total_remaining_attempts_def)
    then show ?thesis by (cases s) auto
  qed
  then show ?thesis using True by (simp add: max_def)
next
  case False
  then have "s' = s\<lparr>pin_boot_remaining_attempts := CTAP_PIN_PER_BOOT_ATTEMPTS\<rparr>"
    using assms by (simp add: reset_pin_remaining_attempts_def Let_def
        ctap_get_pin_total_remaining_attempts_def)
  with False show ?thesis
    by (intro exI [of _ "storage s"] exI [of _ "pin_state_item_handle s"]) (simp add: max_def)
qed

lemma check_pin_hash_cases:
  assumes "check_pin_hash env s i pin_hash_enc secret = Some (status, s')"
  shows "wrong_pin env s status s'
    \<or> status = CTAP2_ERR_PIN_NOT_SET \<and> s' = s \<and> \<not> ctap_is_pin_set s
    \<or> status = CTAP2_OK \<and> right_pin s s' \<and> presents_pin env s i secret pin_hash_enc"
proof -
  let ?p = "pin_protocols s ! i"
  have pos: "ctap_get_pin_total_remaining_attempts s > 0" "pin_boot_remaining_attempts s > 0"
    using assms by (auto simp: check_pin_hash_def require_def split: if_splits)
  consider (wrong) "handle_invalid_pin env s i = Some (status, s')"
    | (unset) "\<not> ctap_is_pin_set s"
    | (right) "handle_invalid_pin env s i \<noteq> Some (status, s')" "ctap_is_pin_set s"
    by blast
  then show ?thesis
  proof cases
    case wrong
    then show ?thesis using handle_invalid_pin_wrong by blast
  next
    case unset
    then show ?thesis using assms pos by (simp add: check_pin_hash_def)
  next
    case right
    then have "length pin_hash_enc = 16 + encryption_extra_length ?p"
        and d: "protocol_decrypt ?p (crypto_ops env) secret pin_hash_enc 16
            = Some (Some (pin_hash (pin_state s)))"
        and r: "reset_pin_remaining_attempts env s True = Some s'" "status = CTAP2_OK"
      using assms pos
      by (auto simp: check_pin_hash_def Let_def split: if_splits bind_splits option.splits)
    then show ?thesis
      using right(2) pos reset_frame [OF r(1)]
      by (auto simp: right_pin_def presents_pin_def same_tokens_def)
  qed
qed

section \<open>Setting a PIN\<close>

text \<open>The PIN a padded buffer holds, and the state once it is stored.\<close>

definition stripped_pin :: "bytes \<Rightarrow> bytes" where
  "stripped_pin padded = take (new_pin_length_loop 64 padded) padded"

definition pin_stored_as :: "('h, 's) ctap_interfaces \<Rightarrow> ('h, 's) ctap_state \<Rightarrow> bytes
    \<Rightarrow> ('h, 's) ctap_state \<Rightarrow> bool" where
  "pin_stored_as env s pin s' \<longleftrightarrow>
     (\<exists>digest. sha256_compute_digest (crypto_ops env) pin = Some digest
        \<and> pin_state s' = (pin_state s)\<lparr>
            pin_total_remaining_attempts :=
              max CTAP_PIN_TOTAL_ATTEMPTS (pin_total_remaining_attempts (pin_state s)),
            is_pin_set := 1,
            pin_code_point_length := of_nat (count_unicode_code_points_in_utf8_string pin),
            pin_hash := take 16 digest\<rparr>)
     \<and> pin_boot_remaining_attempts s' = CTAP_PIN_PER_BOOT_ATTEMPTS
     \<and> pin_protocols s' = pin_protocols s \<and> same_tokens s s'"

lemma set_pin_cases:
  assumes "set_pin env s i new_pin_enc secret = Some (status, s')"
  shows "status \<in> {0x02, 0x33, 0x37, 0x7F} \<and> s' = s
    \<or> status = CTAP2_OK \<and> (\<exists>padded. protocol_decrypt (pin_protocols s ! i) (crypto_ops env) secret
          new_pin_enc 64 = Some (Some padded)
        \<and> length new_pin_enc = 64 + encryption_extra_length (pin_protocols s ! i)
        \<and> length (stripped_pin padded) \<le> 63
        \<and> unat (ctap_get_pin_min_code_point_length s)
            \<le> count_unicode_code_points_in_utf8_string (stripped_pin padded)
        \<and> pin_stored_as env s (stripped_pin padded) s')"
proof (cases "status = CTAP2_OK")
  case False
  then show ?thesis
    using assms by (auto simp: set_pin_def Let_def require_def
        split: if_splits bind_splits option.splits)
next
  case True
  let ?p = "pin_protocols s ! i"
  obtain padded digest s1 where
      d: "protocol_decrypt ?p (crypto_ops env) secret new_pin_enc 64 = Some (Some padded)"
      "length new_pin_enc = 64 + encryption_extra_length ?p"
      "new_pin_length_loop 64 padded \<le> 63"
      "unat (ctap_get_pin_min_code_point_length s)
         \<le> count_unicode_code_points_in_utf8_string (stripped_pin padded)"
      "sha256_compute_digest (crypto_ops env) (stripped_pin padded) = Some digest"
    and r: "reset_pin_remaining_attempts env (s\<lparr>pin_state := (pin_state s)\<lparr>
              pin_hash := take 16 digest, pin_code_point_length :=
                of_nat (count_unicode_code_points_in_utf8_string (stripped_pin padded)),
              is_pin_set := 1\<rparr>\<rparr>) False = Some s1"
    and u: "update_persistent_pin_state env s1 = Some s'"
    using assms True
    by (auto simp: set_pin_def Let_def require_def stripped_pin_def
        split: if_splits bind_splits option.splits)
  have "pin_stored_as env s (stripped_pin padded) s'"
    using d(5) reset_frame [OF r] update_persistent_frame [OF u]
    by (auto simp: pin_stored_as_def same_tokens_def)
  moreover have "length (stripped_pin padded) \<le> 63"
    using d(3) by (simp add: stripped_pin_def)
  ultimately show ?thesis using d True by blast
qed

section \<open>One request\<close>

text \<open>A request that contains the encrypted hash of the current PIN.\<close>

definition request_presents_pin :: "('h, 's) ctap_interfaces \<Rightarrow> 'v tinycbor \<Rightarrow> ('h, 's) ctap_state
    \<Rightarrow> 'v option \<Rightarrow> bool" where
  "request_presents_pin env dec s it =
     (case ctap_parse_client_pin dec it of
        Ok (cp, _) \<Rightarrow>
          (case ctap_get_pin_protocol s (unat (cp_pinUvAuthProtocol cp)) of
             Some i \<Rightarrow>
               (case decapsulate_request env s i (cp_keyAgreement cp) of
                  Some (Some secret, _) \<Rightarrow> presents_pin env s i secret (cp_pinHashEnc cp)
                | _ \<Rightarrow> False)
           | None \<Rightarrow> False)
      | _ \<Rightarrow> False)"

lemma rng_update_simps [simp]:
  "presents_pin env (s\<lparr>rng_position := r\<rparr>) i secret h = presents_pin env s i secret h"
  "wrong_pin env (s\<lparr>rng_position := r\<rparr>) status s' = wrong_pin env s status s'"
  "right_pin (s\<lparr>rng_position := r\<rparr>) s' = right_pin s s'"
  "same_pin (s\<lparr>rng_position := r\<rparr>) s' = same_pin s s'"
  "same_pin s (s'\<lparr>rng_position := r\<rparr>) = same_pin s s'"
  "same_tokens (s\<lparr>rng_position := r\<rparr>) s' = same_tokens s s'"
  "same_tokens s (s'\<lparr>rng_position := r\<rparr>) = same_tokens s s'"
  "ctap_is_pin_set (s\<lparr>rng_position := r\<rparr>) = ctap_is_pin_set s"
  "same_storage (s\<lparr>rng_position := r\<rparr>) s' = same_storage s s'"
  "same_storage s (s'\<lparr>rng_position := r\<rparr>) = same_storage s s'"
  by (simp_all add: presents_pin_def wrong_pin_def right_pin_def same_pin_def same_tokens_def
      ctap_is_pin_set_def ctap_get_pin_total_remaining_attempts_def same_storage_def
      pin_written_def)

text \<open>
  What a subcommand does to the PIN: nothing, a wrong guess, something after the right PIN was
  presented (which needs attempts left), or the first PIN is set.
\<close>

definition pin_outcome :: "('h, 's) ctap_interfaces \<Rightarrow> ('h, 's) ctap_state \<Rightarrow> nat \<Rightarrow> CTAP_clientPIN
    \<Rightarrow> u8 \<Rightarrow> ('h, 's) ctap_state \<Rightarrow> bool" where
  "pin_outcome env s i cp status s' \<longleftrightarrow>
     same_pin s s' \<and> same_tokens s s' \<and> same_storage s s'
       \<and> status \<noteq> CTAP2_ERR_PIN_INVALID
       \<and> (status \<in> {CTAP2_ERR_PIN_BLOCKED, CTAP2_ERR_PIN_AUTH_BLOCKED} \<longrightarrow>
            check_pin_remaining_attempts s = status)
     \<or> wrong_pin env s status s' \<and> ctap_is_pin_set s
     \<or> ctap_is_pin_set s \<and> check_pin_remaining_attempts s = CTAP2_OK
       \<and> (\<exists>secret s1. decapsulate_request env s i (cp_keyAgreement cp) = Some (Some secret, s1)
            \<and> presents_pin env s i secret (cp_pinHashEnc cp))
     \<or> \<not> ctap_is_pin_set s \<and> same_tokens s s' \<and> status = CTAP2_OK
       \<and> (\<exists>pin. pin_stored_as env s pin s' \<and> length pin \<le> 63
            \<and> unat (ctap_get_pin_min_code_point_length s)
                \<le> count_unicode_code_points_in_utf8_string pin)"

lemma decapsulate_request_Some:
  assumes "decapsulate_request env s i key = Some (secret, s1)"
  obtains r where "s1 = s\<lparr>rng_position := r\<rparr>"
  using decapsulate_request_frame [OF assms] by blast

lemma client_pin_set_pin_outcome:
  assumes "ctap_client_pin_set_pin env s i cp = Some (status, s')"
  shows "pin_outcome env s i cp status s'"
proof (cases "s' = s \<and> status \<in> {CTAP2_ERR_MISSING_PARAMETER, CTAP2_ERR_PIN_AUTH_INVALID}")
  case True
  then show ?thesis by (auto simp: pin_outcome_def)
next
  case False
  then obtain secret s1 where d: "decapsulate_request env s i (cp_keyAgreement cp) = Some (secret, s1)"
    and unset: "\<not> ctap_is_pin_set s"
    and r: "(case secret of None \<Rightarrow> Some (CTAP1_ERR_INVALID_PARAMETER, s1)
      | Some shared_secret \<Rightarrow> verify_request env s1 i shared_secret [cp_newPinEnc cp]
          (cp_pinUvAuthParam cp) \<bind> (\<lambda>valid. if \<not> valid then Some (CTAP2_ERR_PIN_AUTH_INVALID, s1)
            else set_pin env s1 i (cp_newPinEnc cp) shared_secret)) = Some (status, s')"
    using assms by (auto simp: ctap_client_pin_set_pin_def Let_def split: if_splits bind_splits)
  obtain rng where s1: "s1 = s\<lparr>rng_position := rng\<rparr>" using d by (rule decapsulate_request_Some)
  show ?thesis
  proof (cases "s' = s1 \<and> status \<in> {0x02, 0x33, 0x37, 0x7F}")
    case True
    then show ?thesis by (auto simp: pin_outcome_def s1)
  next
    case False
    then obtain shared_secret where
        "set_pin env s1 i (cp_newPinEnc cp) shared_secret = Some (status, s')"
      using r by (auto split: option.splits bind_splits if_splits)
    from set_pin_cases [OF this] False obtain pin where "status = CTAP2_OK"
        "pin_stored_as env s1 pin s'" "length pin \<le> 63"
        "unat (ctap_get_pin_min_code_point_length s1)
           \<le> count_unicode_code_points_in_utf8_string pin"
      by blast
    then show ?thesis using unset
      by (auto simp: pin_outcome_def s1 pin_stored_as_def ctap_get_pin_min_code_point_length_def)
  qed
qed

text \<open>What the two commands that check a PIN share.\<close>

lemma check_pin_outcome:
  assumes "decapsulate_request env s i (cp_keyAgreement cp) = Some (Some secret, s1)"
      and "check_pin_hash env s1 i (cp_pinHashEnc cp) secret = Some (status1, s2)"
      and "status1 \<noteq> CTAP2_OK \<Longrightarrow> status = status1 \<and> s' = s2"
  shows "pin_outcome env s i cp status s'"
proof -
  obtain rng where s1: "s1 = s\<lparr>rng_position := rng\<rparr>"
    using assms(1) by (rule decapsulate_request_Some)
  consider "wrong_pin env s status1 s2" | "status1 = CTAP2_ERR_PIN_NOT_SET" "s2 = s1" "\<not> ctap_is_pin_set s"
    | "status1 = CTAP2_OK" "right_pin s s2" "presents_pin env s i secret (cp_pinHashEnc cp)"
    using check_pin_hash_cases [OF assms(2)] by (auto simp: s1)
  then show ?thesis
  proof cases
    case 1
    then have "ctap_is_pin_set s"
      using assms(2) by (auto simp: s1 check_pin_hash_def require_def wrong_pin_def split: if_splits)
    moreover have "status = status1 \<and> s' = s2" using 1 assms(3) by (auto simp: wrong_pin_def)
    ultimately show ?thesis using 1 by (simp add: pin_outcome_def)
  next
    case 2
    then have "status = CTAP2_ERR_PIN_NOT_SET" "s' = s1" using assms(3) by auto
    then show ?thesis by (simp add: pin_outcome_def s1)
  next
    case 3
    then have "ctap_is_pin_set s" "check_pin_remaining_attempts s = CTAP2_OK"
      by (auto simp: right_pin_def check_pin_remaining_attempts_def)
    then show ?thesis using 3(3) assms(1) unfolding pin_outcome_def by blast
  qed
qed

lemma unchanged_outcome:
  assumes "same_pin s s'" and "same_tokens s s'" and "same_storage s s'" and "status \<notin> {0x31, 0x32, 0x34}"
  shows "pin_outcome env s i cp status s'"
  using assms by (auto simp: pin_outcome_def)

lemma blocked_outcome:
  "check_pin_remaining_attempts s = status \<Longrightarrow> status \<noteq> CTAP2_OK \<Longrightarrow> pin_outcome env s i cp status s"
  by (auto simp: pin_outcome_def check_pin_remaining_attempts_def split: if_splits)

lemma client_pin_change_pin_outcome:
  assumes "ctap_client_pin_change_pin env s i cp = Some (status, s')"
  shows "pin_outcome env s i cp status s'"
proof -
  consider "s' = s" "status = CTAP2_ERR_MISSING_PARAMETER"
    | "s' = s" "check_pin_remaining_attempts s = status" "status \<noteq> CTAP2_OK"
    | s1 where "decapsulate_request env s i (cp_keyAgreement cp) = Some (None, s1)"
      "s' = s1" "status = CTAP1_ERR_INVALID_PARAMETER"
    | secret s1 where "decapsulate_request env s i (cp_keyAgreement cp) = Some (Some secret, s1)"
      "s' = s1" "status = CTAP2_ERR_PIN_AUTH_INVALID"
    | secret s1 status1 s2 where
      "decapsulate_request env s i (cp_keyAgreement cp) = Some (Some secret, s1)"
      "check_pin_hash env s1 i (cp_pinHashEnc cp) secret = Some (status1, s2)"
      "status1 \<noteq> CTAP2_OK \<Longrightarrow> status = status1 \<and> s' = s2"
    using assms
    by (auto simp: ctap_client_pin_change_pin_def Let_def ctap_check_state_eq_Some
        split: if_splits bind_splits option.splits)
  then show ?thesis
  proof cases
    case 3
    then show ?thesis
      by (auto intro!: unchanged_outcome elim!: decapsulate_request_Some)
  next
    case 4
    then show ?thesis
      by (auto intro!: unchanged_outcome elim!: decapsulate_request_Some)
  qed (auto intro: unchanged_outcome blocked_outcome check_pin_outcome)
qed

lemma get_pin_token_outcome:
  assumes "get_pin_token_using_pin_with_permissions env s i (cp_keyAgreement cp) (cp_pinHashEnc cp)
      perms rp_id encoder = Some (status, s', encoder')"
  shows "pin_outcome env s i cp status s'"
proof -
  consider "s' = s" "check_pin_remaining_attempts s = status" "status \<noteq> CTAP2_OK"
    | s1 where "decapsulate_request env s i (cp_keyAgreement cp) = Some (None, s1)"
      "s' = s1" "status = CTAP1_ERR_INVALID_PARAMETER"
    | secret s1 status1 s2 where
      "decapsulate_request env s i (cp_keyAgreement cp) = Some (Some secret, s1)"
      "check_pin_hash env s1 i (cp_pinHashEnc cp) secret = Some (status1, s2)"
      "status1 \<noteq> CTAP2_OK \<Longrightarrow> status = status1 \<and> s' = s2"
    using assms
    by (auto simp: get_pin_token_using_pin_with_permissions_def Let_def ctap_check_state_eq_Some
        split: if_splits bind_splits option.splits)
  then show ?thesis
  proof cases
    case 2
    then show ?thesis
      by (auto intro!: unchanged_outcome elim!: decapsulate_request_Some)
  qed (auto intro: unchanged_outcome blocked_outcome check_pin_outcome)
qed

lemma cbor_encode_status_neq [simp]:
  "cbor_encode ok e ops = (status, e') \<Longrightarrow> status \<notin> {0x31, 0x32, 0x34}"
  using cbor_encode_status [of ok e ops] by auto

lemma get_public_key_status [simp]:
  "ctap_pin_protocol_get_public_key ok p e = (status, e') \<Longrightarrow> status \<notin> {0x31, 0x32, 0x34}"
  unfolding ctap_pin_protocol_get_public_key_def Let_def by (rule cbor_encode_status_neq)

lemma client_pin_subcommand_outcome:
  assumes "client_pin_subcommand env s i cp encoder = Some (status, s', encoder')"
  shows "pin_outcome env s i cp status s'"
proof -
  consider "s' = s" "status \<notin> {0x31, 0x32, 0x34}"
    | "ctap_client_pin_set_pin env s i cp = Some (status, s')"
    | "ctap_client_pin_change_pin env s i cp = Some (status, s')"
    | perms rp_id where "get_pin_token_using_pin_with_permissions env s i (cp_keyAgreement cp)
        (cp_pinHashEnc cp) perms rp_id encoder = Some (status, s', encoder')"
    using assms
    by (auto simp: client_pin_subcommand_def ctap_client_pin_get_pin_token_def Let_def
        ctap_client_pin_get_pin_uv_auth_token_using_pin_with_permissions_def
        simp del: cbor_encode.simps split: if_splits prod.splits
        dest: cbor_encode_status_neq get_public_key_status)
  then show ?thesis
    by cases (auto intro: unchanged_outcome client_pin_set_pin_outcome client_pin_change_pin_outcome
        get_pin_token_outcome)
qed

lemma client_pin_outcome:
  assumes "ctap_client_pin env dec s it encoder = Some (status, s', encoder')"
  shows "s' = s \<and> (\<exists>e. ctap_parse_client_pin dec it = Err e \<and> status = e)
    \<or> s' = s \<and> status = CTAP1_ERR_INVALID_PARAMETER
    \<or> (\<exists>cp it1 i. ctap_parse_client_pin dec it = Ok (cp, it1)
        \<and> ctap_get_pin_protocol s (unat (cp_pinUvAuthProtocol cp)) = Some i
        \<and> pin_outcome env s i cp status s')"
  using assms
  by (auto simp: ctap_client_pin_def split: presult.splits option.splits
      dest: client_pin_subcommand_outcome)

section \<open>Guessing the PIN\<close>

text \<open>The answer to a request tells that its PIN was compared and is wrong.\<close>

definition answers_wrong_pin :: "('h, 's) ctap_state \<Rightarrow> u8 \<Rightarrow> bool" where
  "answers_wrong_pin s status \<longleftrightarrow> status = CTAP2_ERR_PIN_INVALID
     \<or> status \<in> {CTAP2_ERR_PIN_BLOCKED, CTAP2_ERR_PIN_AUTH_BLOCKED}
       \<and> check_pin_remaining_attempts s = CTAP2_OK"

text \<open>
  A run without a power cycle: requests that do not contain the PIN, and in between anything that
  keeps the PIN information (other commands, the passing of time). The index counts the wrong PINs.
\<close>

inductive pin_guesses :: "('h, 's) ctap_interfaces \<Rightarrow> 'v tinycbor \<Rightarrow> ('v \<Rightarrow> nat list \<Rightarrow> bool)
    \<Rightarrow> ('h, 's) ctap_state \<Rightarrow> nat \<Rightarrow> ('h, 's) ctap_state \<Rightarrow> bool" for env dec rep s0 where
  start: "pin_guesses env dec rep s0 0 s0"
| request: "pin_guesses env dec rep s0 n s \<Longrightarrow> rep v (Suc k # S) \<Longrightarrow>
    ctap_client_pin env dec s (Some v) encoder = Some (status, s', encoder') \<Longrightarrow>
    \<not> request_presents_pin env dec s (Some v) \<Longrightarrow>
    pin_guesses env dec rep s0 (if answers_wrong_pin s status then Suc n else n) s'"
| other: "pin_guesses env dec rep s0 n s \<Longrightarrow> same_pin s s' \<Longrightarrow> pin_guesses env dec rep s0 n s'"

lemma client_pin_parse_error:
  assumes "tinycbor_ok dec rep" and "rep v (Suc k # S)" and "ctap_parse_client_pin dec (Some v) = Err e"
  shows "e \<notin> {0x31, 0x32, 0x34}"
  using parsesD [OF client_pin_parses [OF assms(1)] assms(2)] assms(3)
  by (auto simp: parse_errors_def)

lemma guess_step:
  assumes "tinycbor_ok dec rep" and "rep v (Suc k # S)"
      and "ctap_client_pin env dec s (Some v) encoder = Some (status, s', encoder')"
      and "\<not> request_presents_pin env dec s (Some v)" and "ctap_is_pin_set s"
  shows "if answers_wrong_pin s status then wrong_pin env s status s'
    else same_pin s s' \<and> same_storage s s'"
proof -
  from client_pin_outcome [OF assms(3)] consider
      "s' = s" "status \<notin> {0x31, 0x32, 0x34}"
    | cp it1 i where "ctap_parse_client_pin dec (Some v) = Ok (cp, it1)"
        "ctap_get_pin_protocol s (unat (cp_pinUvAuthProtocol cp)) = Some i"
        "pin_outcome env s i cp status s'"
    using client_pin_parse_error [OF assms(1,2)] by force
  then show ?thesis
  proof cases
    case 1
    then show ?thesis by (simp add: answers_wrong_pin_def)
  next
    case 2
    have "\<not> (\<exists>secret s1. decapsulate_request env s i (cp_keyAgreement cp) = Some (Some secret, s1)
        \<and> presents_pin env s i secret (cp_pinHashEnc cp))"
      using assms(4) 2(1,2) by (auto simp: request_presents_pin_def)
    moreover have "answers_wrong_pin s status" if "wrong_pin env s status s'"
      using that by (auto simp: wrong_pin_def answers_wrong_pin_def check_pin_remaining_attempts_def)
    moreover have "\<not> answers_wrong_pin s status"
      if "status \<noteq> CTAP2_ERR_PIN_INVALID"
        "status \<in> {CTAP2_ERR_PIN_BLOCKED, CTAP2_ERR_PIN_AUTH_BLOCKED} \<longrightarrow>
            check_pin_remaining_attempts s = status"
      using that by (auto simp: answers_wrong_pin_def)
    ultimately show ?thesis
      using 2(3) assms(5) unfolding pin_outcome_def by auto
  qed
qed

lemma u8_minus_step:
  fixes x :: u8
  assumes "x - of_nat n > 0" and "n \<le> unat x"
  shows "Suc n \<le> unat x"
proof (rule ccontr)
  assume "\<not> Suc n \<le> unat x"
  then have "n = unat x" using assms(2) by simp
  then show False using assms(1) by simp
qed

lemma u8_minus_nat:
  fixes x :: u8
  assumes "n \<le> unat x"
  shows "unat (x - of_nat n) = unat x - n"
proof -
  have "x - of_nat n = of_nat (unat x - n)" using assms by (simp add: of_nat_diff)
  moreover have "unat x - n < 2 ^ 8" using unsigned_less [of x, where 'a = nat] by simp
  ultimately show ?thesis by (simp add: unat_of_nat take_bit_nat_eq_self)
qed

lemma pin_guesses_count:
  assumes "pin_guesses env dec rep s0 n s" and "tinycbor_ok dec rep" and "ctap_is_pin_set s0"
  shows "n \<le> unat (pin_boot_remaining_attempts s0)
    \<and> n \<le> unat (ctap_get_pin_total_remaining_attempts s0)
    \<and> pin_boot_remaining_attempts s = pin_boot_remaining_attempts s0 - of_nat n
    \<and> pin_state s = (pin_state s0)\<lparr>pin_total_remaining_attempts :=
        pin_total_remaining_attempts (pin_state s0) - of_nat n\<rparr>"
  using assms(1)
proof (induction rule: pin_guesses.induct)
  case (request n s v k S encoder status s' encoder')
  have "ctap_is_pin_set s" using request.IH assms(3) by (simp add: ctap_is_pin_set_def)
  note step = guess_step [OF assms(2) request.hyps(2-4) this]
  show ?case
  proof (cases "answers_wrong_pin s status")
    case True
    then have "wrong_pin env s status s'" using step by simp
    then show ?thesis
      using True request.IH u8_minus_step [of "pin_boot_remaining_attempts s0" n]
        u8_minus_step [of "ctap_get_pin_total_remaining_attempts s0" n]
      by (simp add: wrong_pin_def ctap_get_pin_total_remaining_attempts_def algebra_simps)
  next
    case False
    then show ?thesis using step request.IH by (simp add: same_pin_def)
  qed
next
  case (other n s s')
  then show ?case by (simp add: same_pin_def)
qed simp

lemma blocked_keeps_pin:
  assumes "ctap_client_pin env dec s it encoder = Some (status, s', encoder')"
      and "ctap_is_pin_set s" and "check_pin_remaining_attempts s \<noteq> CTAP2_OK"
  shows "same_pin s s' \<and> same_tokens s s'"
proof -
  have "\<not> wrong_pin env s st s''" for st s''
    using assms(3) by (auto simp: wrong_pin_def check_pin_remaining_attempts_def split: if_splits)
  then show ?thesis
    using client_pin_outcome [OF assms(1)] assms(2,3)
    by (auto simp: pin_outcome_def)
qed

section \<open>Properties\<close>

text \<open>
  C19: Guessing is bounded. Take any sequence of authenticatorClientPIN requests (of every
  subcommand, well-formed or not) that do not contain the hash of the current PIN, interleaved with
  anything that keeps the PIN information, in one power cycle. The number of requests whose PIN was
  compared, and so of answers the attacker learned something from, is at most the number of attempts left for
  this power cycle and at most the number left in total; every one of them decremented both
  counters, and nothing else of the PIN information changed. Once a counter reaches zero, no
  request changes the PIN information or any token any more, not even one with the right PIN.
\<close>

theorem pin_guessing_bounded:
  assumes "tinycbor_ok dec rep" and "ctap_is_pin_set s0" and "pin_guesses env dec rep s0 n s"
  shows "n \<le> unat (pin_boot_remaining_attempts s0)
    \<and> n \<le> unat (ctap_get_pin_total_remaining_attempts s0)
    \<and> unat (pin_boot_remaining_attempts s) = unat (pin_boot_remaining_attempts s0) - n
    \<and> unat (ctap_get_pin_total_remaining_attempts s)
        = unat (ctap_get_pin_total_remaining_attempts s0) - n
    \<and> pin_hash (pin_state s) = pin_hash (pin_state s0) \<and> ctap_is_pin_set s
    \<and> (n = unat (pin_boot_remaining_attempts s0)
         \<or> n = unat (ctap_get_pin_total_remaining_attempts s0) \<longrightarrow>
       (\<forall>it encoder status s' encoder'. ctap_client_pin env dec s it encoder
           = Some (status, s', encoder') \<longrightarrow> same_pin s s' \<and> same_tokens s s'))"
proof -
  note c = pin_guesses_count [OF assms(3,1,2)]
  then have u: "unat (pin_boot_remaining_attempts s) = unat (pin_boot_remaining_attempts s0) - n"
      "unat (ctap_get_pin_total_remaining_attempts s)
         = unat (ctap_get_pin_total_remaining_attempts s0) - n"
    by (simp_all add: ctap_get_pin_total_remaining_attempts_def u8_minus_nat)
  have set: "ctap_is_pin_set s" using c assms(2) by (simp add: ctap_is_pin_set_def)
  have "same_pin s s' \<and> same_tokens s s'"
    if "n = unat (pin_boot_remaining_attempts s0) \<or> n = unat (ctap_get_pin_total_remaining_attempts s0)"
      and "ctap_client_pin env dec s it encoder = Some (status, s', encoder')"
    for it encoder status s' encoder'
  proof -
    have "check_pin_remaining_attempts s \<noteq> CTAP2_OK"
      using that(1) u by (auto simp: check_pin_remaining_attempts_def unat_eq_zero)
    from blocked_keeps_pin [OF that(2) set this] show ?thesis .
  qed
  then show ?thesis using c u set by auto
qed

text \<open>A concrete authenticator: software cryptography, a storage that keeps the last item written.\<close>

definition example_storage :: "bytes ctap_storage" where
  "example_storage = \<lparr>
     find_item = (\<lambda>st it. Some (if st = [] then (CTAP_STORAGE_ITEM_NOT_FOUND, it)
        else (CTAP_STORAGE_OK, it\<lparr>item_handle := 1, item_size := length st, item_data := st\<rparr>))),
     create_or_update_item = (\<lambda>st it. Some (CTAP_STORAGE_OK, it\<lparr>item_handle := 1\<rparr>, item_data it)),
     delete_item = (\<lambda>st h. Some (CTAP_STORAGE_OK, [])),
     increment_counter = (\<lambda>st k. Some (CTAP_STORAGE_ERROR, 0, st)),
     estimate_num_remaining_items = (\<lambda>st n. 0),
     erase_storage = (\<lambda>st. Some (CTAP_STORAGE_OK, []))\<rparr>"

definition example_env :: "(sha256_ctx, bytes) ctap_interfaces" where
  "example_env = \<lparr>crypto_ops = software_crypto example_libraries, storage_ops = example_storage,
     encoder_ok = (\<lambda>_. True)\<rparr>"

definition example_state :: "(sha256_ctx, bytes) ctap_state" where
  "example_state = (CTAP_STATE_CONST_INIT [])\<lparr>
     pin_state := \<lparr>pin_total_remaining_attempts = 8, pin_min_code_point_length = 4, is_pin_set = 1,
       pin_code_point_length = 4, pin_hash = replicate 16 7\<rparr>,
     pin_boot_remaining_attempts := 3\<rparr>"

text \<open>getPinToken with protocol one, a key agreement key and the given encrypted PIN hash.\<close>

definition example_pin_request :: "bytes \<Rightarrow> ref_it" where
  "example_pin_request h = ([[I_Map [(I_Int 1, I_Int 1), (I_Int 2, I_Int 5),
     (I_Int 3, I_Map [(I_Int 1, I_Int 2), (I_Int 3, I_Int (-25)), (I_Int (-1), I_Int 1),
       (I_Int (-2), I_Bytes (replicate 32 3)), (I_Int (-3), I_Bytes (replicate 32 4))]),
     (I_Int 6, I_Bytes h)]]], 0)"

lemma example_pin_request_parsed:
  "\<exists>key present it1. ctap_parse_client_pin ref_decoder (Some (example_pin_request h))
     = Ok (zero_CTAP_clientPIN\<lparr>cp_present := present, cp_pinUvAuthProtocol := 1, cp_subCommand := 5,
         cp_keyAgreement := key, cp_pinHashEnc := h\<rparr>, it1)
     \<and> bit present 3 \<and> bit present 6 \<and> \<not> bit present 9 \<and> \<not> bit present 10
     \<and> pubkey_x key = replicate 32 3 \<and> pubkey_y key = replicate 32 4"
  by (simp add: example_pin_request_def ctap_parse_client_pin_def ref_simps
      ctap_parse_client_pin_entry_def parse_pin_uv_auth_protocol_public_key_def parse_cose_key_def
      parse_cose_key_entry_def parse_copy_fixed_byte_string_def ctap_is_present_or Let_def
      zero_CTAP_clientPIN_def zero_COSE_Key_def)

lemma example_decapsulate:
  assumes "pubkey_x key = replicate 32 3" and "pubkey_y key = replicate 32 4"
  shows "decapsulate_request example_env example_state 0 key
    = Some (Some (sha256_spec (replicate 32 0)), example_state\<lparr>rng_position := 1\<rparr>)"
  using assms sw_crypto.v1_kdf_ok [of example_libraries]
  by (simp add: decapsulate_request_def example_env_def example_state_def CTAP_STATE_CONST_INIT_def
      zero_ctap_state_def protocol_inits ctap_pin_protocol_decapsulate_def
      ctap_software_crypto_ecc_secp256r1_shared_secret_def CTAP_SOFTWARE_CRYPTO_CONST_INIT_def
      example_libraries_def zeros_def zip_replicate map_replicate_const)

lemma example_wrong_pin:
  "\<exists>s'. ctap_client_pin example_env ref_decoder example_state (Some (example_pin_request [])) []
     = Some (CTAP2_ERR_PIN_INVALID, s', [])"
proof -
  obtain key present it1 where p: "ctap_parse_client_pin ref_decoder (Some (example_pin_request []))
     = Ok (zero_CTAP_clientPIN\<lparr>cp_present := present, cp_pinUvAuthProtocol := 1, cp_subCommand := 5,
         cp_keyAgreement := key, cp_pinHashEnc := []\<rparr>, it1)"
     "bit present 3" "bit present 6" "\<not> bit present 9" "\<not> bit present 10"
     "pubkey_x key = replicate 32 3" "pubkey_y key = replicate 32 4"
    using example_pin_request_parsed [of "[]"] by blast
  note d = example_decapsulate [OF p(6,7)]
  let ?s1 = "example_state\<lparr>rng_position := 1\<rparr>"
  have h: "\<exists>s'. handle_invalid_pin example_env ?s1 0 = Some (CTAP2_ERR_PIN_INVALID, s')"
    by (simp add: handle_invalid_pin_def decrement_pin_remaining_attempts_def example_state_def
        ctap_get_pin_total_remaining_attempts_def update_persistent_pin_state_def example_env_def
        example_storage_def regenerate_protocol_def Let_def check_pin_remaining_attempts_def
        split: prod.splits)
  have c: "check_pin_hash example_env ?s1 0 [] secret = handle_invalid_pin example_env ?s1 0" for secret
    by (simp add: check_pin_hash_def example_state_def ctap_get_pin_total_remaining_attempts_def
        ctap_is_pin_set_def CTAP_STATE_CONST_INIT_def zero_ctap_state_def protocol_inits)
  have "length (pin_protocols example_state) = 2" "check_pin_remaining_attempts example_state = 0"
    by (simp_all add: example_state_def CTAP_STATE_CONST_INIT_def zero_ctap_state_def
        check_pin_remaining_attempts_def ctap_get_pin_total_remaining_attempts_def)
  then show ?thesis
    using p(2-5) h d c
    by (auto simp: ctap_client_pin_def p(1) ctap_get_pin_protocol_def client_pin_subcommand_def
        ctap_client_pin_get_pin_token_def ctap_is_present_or ctap_is_present_some_or
        get_pin_token_using_pin_with_permissions_def zero_CTAP_clientPIN_def Let_def)
qed

theorem pin_guessing_bounded_witness:
  "\<exists>s. pin_guesses example_env ref_decoder ref_rep example_state 1 s
     \<and> unat (pin_boot_remaining_attempts s) = 2"
proof -
  obtain s where s: "ctap_client_pin example_env ref_decoder example_state
      (Some (example_pin_request [])) [] = Some (CTAP2_ERR_PIN_INVALID, s, [])"
    using example_wrong_pin by blast
  have rep: "ref_rep (example_pin_request []) [Suc 0]"
    by (simp add: ref_rep_def example_pin_request_def)
  have no_pin: "\<not> request_presents_pin example_env ref_decoder example_state
      (Some (example_pin_request []))"
    using example_pin_request_parsed [of "[]"]
    by (auto simp: request_presents_pin_def presents_pin_def zero_CTAP_clientPIN_def
        split: option.split_asm prod.split_asm)
  have run: "pin_guesses example_env ref_decoder ref_rep example_state 1 s"
    using pin_guesses.request [where rep = ref_rep, OF pin_guesses.start rep s no_pin]
    by (simp add: answers_wrong_pin_def)
  have "unat (pin_boot_remaining_attempts s) = 2"
    using pin_guessing_bounded [OF ref_decoder_ok _ run]
    by (simp add: example_state_def ctap_is_pin_set_def)
  with run show ?thesis by blast
qed

end
