(* ===== verification/Client_Pin_Tokens.thy ===== *)
theory Client_Pin_Tokens
  imports Client_Pin_Security
begin

text \<open>
  The effects of authenticatorClientPIN: what a pinUvAuthToken is issued for and with, and which
  PINs can be set.
\<close>

section \<open>Fresh tokens\<close>

text \<open>The tokens of \<open>n\<close> protocols, drawn from the generator at position \<open>rng\<close>.\<close>

fun fresh_tokens :: "'h ctap_crypto \<Rightarrow> nat \<Rightarrow> nat \<Rightarrow> bytes list" where
  "fresh_tokens c rng 0 = []"
| "fresh_tokens c rng (Suc n) =
     (let (ok, token, rng1) = rng_generate_data c rng 32 in token # fresh_tokens c rng1 n)"

lemma reset_tokens_fresh:
  "map pin_uv_auth_token (snd (reset_pin_uv_auth_tokens c rng ps)) = fresh_tokens c rng (length ps)"
proof (induction ps arbitrary: rng)
  case (Cons p ps)
  then show ?case
    using Cons.IH [of "snd (snd (rng_generate_data c rng 32))"]
    by (simp add: ctap_pin_protocol_reset_pin_uv_auth_token_def Let_def case_prod_beta)
qed simp

lemma all_reset_frame:
  defines "s' \<equiv> \<lambda>env s. ctap_all_pin_protocols_reset_pin_uv_auth_token env s"
  shows "pin_state (s' env s) = pin_state s"
    and "pin_boot_remaining_attempts (s' env s) = pin_boot_remaining_attempts s"
    and "current_time (s' env s) = current_time s"
    and "map pin_uv_auth_token (pin_protocols (s' env s))
           = fresh_tokens (crypto_ops env) (rng_position s) (length (pin_protocols s))"
    and "in_use (pin_uv_auth_token_state (s' env s)) = False"
    and "in_use (pin_uv_auth_token_state s) \<Longrightarrow>
           \<not> ctap_has_stateful_command_state (s' env s)"
proof -
  obtain r ps where r: "reset_pin_uv_auth_tokens (crypto_ops env) (rng_position s) (pin_protocols s)
      = (r, ps)"
    by (cases "reset_pin_uv_auth_tokens (crypto_ops env) (rng_position s) (pin_protocols s)")
  have "map pin_uv_auth_token ps
      = fresh_tokens (crypto_ops env) (rng_position s) (length (pin_protocols s))"
    using reset_tokens_fresh [of "crypto_ops env" "rng_position s" "pin_protocols s"] r by simp
  then show "map pin_uv_auth_token (pin_protocols (s' env s))
      = fresh_tokens (crypto_ops env) (rng_position s) (length (pin_protocols s))"
    by (simp add: s'_def ctap_all_pin_protocols_reset_pin_uv_auth_token_def r Let_def
        ctap_pin_uv_auth_token_stop_using_def ctap_discard_stateful_command_state_def)
qed (auto simp: s'_def ctap_all_pin_protocols_reset_pin_uv_auth_token_def Let_def
    ctap_pin_uv_auth_token_stop_using_def ctap_discard_stateful_command_state_def
    ctap_has_stateful_command_state_def zero_stateful_state_def split: prod.splits)

section \<open>Issue\<close>

text \<open>The token state after an issue with the given permissions and relying party.\<close>

definition issued_token_state :: "('h, 's) ctap_interfaces \<Rightarrow> u32 \<Rightarrow> u32 \<Rightarrow> bytes option
    \<Rightarrow> ctap_pin_uv_auth_token_state \<Rightarrow> bool" where
  "issued_token_state env now perms rp_id t \<longleftrightarrow>
     in_use t \<and> permissions t = perms \<and> user_verified t \<and> \<not> user_present t
     \<and> usage_timer_start t = now \<and> rpId_set t = (rp_id \<noteq> None)
     \<and> rpId_hash t = (case rp_id of None \<Rightarrow> zeros 32
         | Some rp \<Rightarrow> ctap_compute_rp_id_hash (crypto_ops env) (zeros 32) rp)"

lemma issue_frame:
  "pin_state (issue_pin_uv_auth_token env s perms rp_id) = pin_state s
   \<and> pin_boot_remaining_attempts (issue_pin_uv_auth_token env s perms rp_id)
       = pin_boot_remaining_attempts s
   \<and> map pin_uv_auth_token (pin_protocols (issue_pin_uv_auth_token env s perms rp_id))
       = fresh_tokens (crypto_ops env) (rng_position s) (length (pin_protocols s))
   \<and> issued_token_state env (current_time s) perms rp_id
       (pin_uv_auth_token_state (issue_pin_uv_auth_token env s perms rp_id))"
  using all_reset_frame [where env = env and s = s]
  by (auto simp: issue_pin_uv_auth_token_def Let_def ctap_pin_uv_auth_token_begin_using_def
      issued_token_state_def split: option.splits)

text \<open>
  The response carries the new token of the chosen protocol, encrypted under the shared secret.
\<close>

definition token_response :: "('h, 's) ctap_interfaces \<Rightarrow> 'h ctap_pin_protocol \<Rightarrow> bytes \<Rightarrow> encoder
    \<Rightarrow> encoder \<Rightarrow> bool" where
  "token_response env p secret encoder encoder' \<longleftrightarrow>
     (\<exists>rng c rng'. protocol_encrypt p (crypto_ops env) rng secret (pin_uv_auth_token p)
          (32 + encryption_extra_length p) = Some (Some c, rng')
        \<and> encoder' = encoder @ [Create_Map 1, Encode_Int 2, Encode_Bytes c, Close_Container])"

lemma get_pin_token_issues:
  assumes "get_pin_token_using_pin_with_permissions env s i key pin_hash_enc perms rp_id encoder
      = Some (CTAP2_OK, s', encoder')"
  shows "\<exists>secret s1. decapsulate_request env s i key = Some (Some secret, s1)
    \<and> presents_pin env s i secret pin_hash_enc \<and> ctap_is_pin_set s
    \<and> check_pin_remaining_attempts s = CTAP2_OK
    \<and> pin_boot_remaining_attempts s' = CTAP_PIN_PER_BOOT_ATTEMPTS
    \<and> ctap_get_pin_total_remaining_attempts s' \<ge> CTAP_PIN_TOTAL_ATTEMPTS
    \<and> pin_hash (pin_state s') = pin_hash (pin_state s)
    \<and> map pin_uv_auth_token (pin_protocols s')
        = fresh_tokens (crypto_ops env) (rng_position s1) (length (pin_protocols s))
    \<and> issued_token_state env (current_time s) perms rp_id (pin_uv_auth_token_state s')
    \<and> token_response env (pin_protocols s' ! i) secret encoder encoder'"
proof -
  obtain secret s1 s2 where d: "decapsulate_request env s i key = Some (Some secret, s1)"
    and c: "check_pin_hash env s1 i pin_hash_enc secret = Some (CTAP2_OK, s2)"
    and r: "token_response env (pin_protocols s' ! i) secret encoder encoder'"
    and s': "\<exists>rng. s' = (issue_pin_uv_auth_token env s2 perms rp_id)\<lparr>rng_position := rng\<rparr>"
  proof -
    from assms obtain secret s1 s2 c rng rng' where 1:
        "decapsulate_request env s i key = Some (Some secret, s1)"
        "check_pin_hash env s1 i pin_hash_enc secret = Some (CTAP2_OK, s2)"
        "protocol_encrypt (pin_protocols (issue_pin_uv_auth_token env s2 perms rp_id) ! i)
           (crypto_ops env) rng secret
           (pin_uv_auth_token (pin_protocols (issue_pin_uv_auth_token env s2 perms rp_id) ! i))
           (32 + encryption_extra_length
              (pin_protocols (issue_pin_uv_auth_token env s2 perms rp_id) ! i)) = Some (Some c, rng')"
        "s' = (issue_pin_uv_auth_token env s2 perms rp_id)\<lparr>rng_position := rng'\<rparr>"
        "cbor_encode (encoder_ok env) encoder [Create_Map 1, Encode_Int 2, Encode_Bytes c,
           Close_Container] = (CTAP2_OK, encoder')"
      by (auto simp: get_pin_token_using_pin_with_permissions_def Let_def ctap_check_state_eq_Some
          simp del: cbor_encode.simps split: if_splits bind_splits option.splits prod.splits)
    then show ?thesis
      using that [OF 1(1,2)] cbor_encode_OK [OF 1(5)] by (auto simp: token_response_def)
  qed
  obtain rng where s1: "s1 = s\<lparr>rng_position := rng\<rparr>" using d by (rule decapsulate_request_Some)
  have right: "right_pin s s2" "presents_pin env s i secret pin_hash_enc" "rng_position s2 = rng"
      "current_time s2 = current_time s"
  proof -
    from check_pin_hash_cases [OF c] show "right_pin s s2" "presents_pin env s i secret pin_hash_enc"
      by (auto simp: s1 wrong_pin_def)
    have "handle_invalid_pin env s1 i \<noteq> Some (0, s2)"
      using handle_invalid_pin_wrong [of env s1 i 0 s2] by (auto simp: wrong_pin_def)
    then have "reset_pin_remaining_attempts env s1 True = Some s2"
      using c by (auto simp: check_pin_hash_def Let_def require_def
          split: if_splits bind_splits option.splits)
    from reset_frame [OF this] show "rng_position s2 = rng" "current_time s2 = current_time s"
      by (auto simp: s1)
  qed
  have max: "max a b \<ge> a" for a b :: u8 by simp
  show ?thesis
    using d r s' right issue_frame [of env s2 perms rp_id]
    by (auto simp: s1 right_pin_def check_pin_remaining_attempts_def
        ctap_get_pin_total_remaining_attempts_def)
qed

lemma client_pin_set_pin_same_tokens:
  assumes "ctap_client_pin_set_pin env s i cp = Some (status, s')"
  shows "same_tokens s s'"
proof (cases "ctap_is_pin_set s")
  case True
  then have "s' = s" using assms by (auto simp: ctap_client_pin_set_pin_def Let_def split: if_splits)
  then show ?thesis by simp
next
  case False
  with client_pin_set_pin_outcome [OF assms] show ?thesis by (auto simp: pin_outcome_def)
qed

lemma other_subcommands_same_tokens:
  assumes "client_pin_subcommand env s i cp encoder = Some (status, s', encoder')"
      and "cp_subCommand cp \<notin> {4, 5, 9}"
  shows "same_tokens s s'"
proof (cases "cp_subCommand cp = 3")
  case True
  then show ?thesis
    using assms client_pin_set_pin_same_tokens by (auto simp: client_pin_subcommand_def Let_def)
next
  case False
  then have "s' = s"
    using assms by (auto simp: client_pin_subcommand_def Let_def simp del: cbor_encode.simps
        split: if_splits prod.splits)
  then show ?thesis by simp
qed

lemma changed_tokens_need_pin:
  assumes "client_pin_subcommand env s i cp encoder = Some (status, s', encoder')"
      and "\<not> same_tokens s s'"
  shows "cp_subCommand cp \<in> {4, 5, 9} \<and> ctap_is_pin_set s
    \<and> check_pin_remaining_attempts s = CTAP2_OK
    \<and> (\<exists>secret s1. decapsulate_request env s i (cp_keyAgreement cp) = Some (Some secret, s1)
         \<and> presents_pin env s i secret (cp_pinHashEnc cp))"
  using client_pin_subcommand_outcome [OF assms(1)] other_subcommands_same_tokens [OF assms(1)]
    assms(2)
  by (auto simp: pin_outcome_def wrong_pin_def)

text \<open>The permissions and the relying party of a request for a token.\<close>

definition requested_permissions :: "CTAP_clientPIN \<Rightarrow> u32" where
  "requested_permissions cp =
     (if cp_subCommand cp = 5 then permission_mc OR permission_ga else cp_permissions cp)"

definition requested_rp :: "CTAP_clientPIN \<Rightarrow> bytes option" where
  "requested_rp cp = (if bit (cp_present cp) CTAP_clientPIN_rpId then Some (cp_rpId cp) else None)"

lemma token_subcommands_run:
  assumes "client_pin_subcommand env s i cp encoder = Some (CTAP2_OK, s', encoder')"
      and "cp_subCommand cp \<in> {5, 9}"
  shows "get_pin_token_using_pin_with_permissions env s i (cp_keyAgreement cp) (cp_pinHashEnc cp)
      (requested_permissions cp) (requested_rp cp) encoder = Some (CTAP2_OK, s', encoder')
    \<and> requested_permissions cp \<noteq> 0 \<and> requested_permissions cp AND 0x18 = 0
    \<and> (cp_subCommand cp = 5 \<longrightarrow> requested_rp cp = None)
    \<and> (cp_subCommand cp = 9 \<and> requested_permissions cp AND 3 \<noteq> 0 \<longrightarrow> requested_rp cp \<noteq> None)"
  using assms
  by (auto simp: client_pin_subcommand_def Let_def ctap_client_pin_get_pin_token_def
      ctap_client_pin_get_pin_uv_auth_token_using_pin_with_permissions_def
      requested_permissions_def requested_rp_def ctap_is_present_some_or
      ctap_permissions_include_any_of_def split: if_splits)

section \<open>Properties\<close>

text \<open>
  C18: A pinUvAuthToken is issued only for the PIN, and as requested. If a clientPIN request changes
  any token, the state of the token or the state of a stateful command, then it is changePIN,
  getPinToken or getPinUvAuthTokenUsingPinWithPermissions, a PIN is set, attempts are left, and the
  request contains the hash of the current PIN encrypted under the shared secret. If one of the two
  requests for a token succeeds, then moreover: both retry counters are back at their maximum,
  the tokens of all protocols are replaced by fresh random ones, the token is in use from now on
  with exactly the requested permissions (never the unsupported be and lbw; mc and ga with
  the newer request only together with a relying party) and bound to the requested relying
  party, and the response is the new token encrypted under the shared secret.
\<close>

theorem token_issued_only_for_pin:
  assumes "ctap_client_pin env dec s it encoder = Some (status, s', encoder')"
      and "ctap_parse_client_pin dec it = Ok (cp, it1)"
  shows "(\<not> same_tokens s s' \<or> status = CTAP2_OK \<and> cp_subCommand cp \<in> {5, 9} \<longrightarrow>
          cp_subCommand cp \<in> {4, 5, 9} \<and> ctap_is_pin_set s
          \<and> check_pin_remaining_attempts s = CTAP2_OK \<and> request_presents_pin env dec s it)
       \<and> (status = CTAP2_OK \<and> cp_subCommand cp \<in> {5, 9} \<longrightarrow>
          pin_boot_remaining_attempts s' = CTAP_PIN_PER_BOOT_ATTEMPTS
          \<and> ctap_get_pin_total_remaining_attempts s' \<ge> CTAP_PIN_TOTAL_ATTEMPTS
          \<and> issued_token_state env (current_time s) (requested_permissions cp) (requested_rp cp)
              (pin_uv_auth_token_state s')
          \<and> requested_permissions cp \<noteq> 0 \<and> requested_permissions cp AND 0x18 = 0
          \<and> (cp_subCommand cp = 9 \<and> requested_permissions cp AND 3 \<noteq> 0 \<longrightarrow> requested_rp cp \<noteq> None)
          \<and> (\<exists>i secret s1. decapsulate_request env s i (cp_keyAgreement cp) = Some (Some secret, s1)
               \<and> map pin_uv_auth_token (pin_protocols s')
                  = fresh_tokens (crypto_ops env) (rng_position s1) (length (pin_protocols s))
               \<and> token_response env (pin_protocols s' ! i) secret encoder encoder'))"
proof (cases "ctap_get_pin_protocol s (unat (cp_pinUvAuthProtocol cp))")
  case None
  then show ?thesis using assms by (auto simp: ctap_client_pin_def)
next
  case (Some i)
  then have run: "client_pin_subcommand env s i cp encoder = Some (status, s', encoder')"
    using assms by (simp add: ctap_client_pin_def)
  have pres: "request_presents_pin env dec s it"
    if "decapsulate_request env s i (cp_keyAgreement cp) = Some (Some secret, s1)"
      "presents_pin env s i secret (cp_pinHashEnc cp)" for secret s1
    using that Some assms(2) by (simp add: request_presents_pin_def)
  show ?thesis
  proof (cases "status = CTAP2_OK \<and> cp_subCommand cp \<in> {5, 9}")
    case True
    note t = token_subcommands_run [of env s i cp encoder s' encoder']
    then obtain secret s1 where g:
        "decapsulate_request env s i (cp_keyAgreement cp) = Some (Some secret, s1)"
        "presents_pin env s i secret (cp_pinHashEnc cp)"
        "ctap_is_pin_set s \<and> check_pin_remaining_attempts s = CTAP2_OK
         \<and> pin_boot_remaining_attempts s' = CTAP_PIN_PER_BOOT_ATTEMPTS
         \<and> ctap_get_pin_total_remaining_attempts s' \<ge> CTAP_PIN_TOTAL_ATTEMPTS
         \<and> map pin_uv_auth_token (pin_protocols s')
             = fresh_tokens (crypto_ops env) (rng_position s1) (length (pin_protocols s))
         \<and> issued_token_state env (current_time s) (requested_permissions cp) (requested_rp cp)
             (pin_uv_auth_token_state s')
         \<and> token_response env (pin_protocols s' ! i) secret encoder encoder'"
      using get_pin_token_issues [of env s i "cp_keyAgreement cp" "cp_pinHashEnc cp"
          "requested_permissions cp" "requested_rp cp" encoder s' encoder'] run True by blast
    then show ?thesis using True run t pres [OF g(1,2)] by blast
  next
    case False
    then show ?thesis using changed_tokens_need_pin [OF run] pres by blast
  qed
qed

text \<open>The hash of the example's PIN, encrypted for the example's key agreement.\<close>

definition example_pin_hash_enc :: bytes where
  "example_pin_hash_enc = replicate 16 (7 XOR hd (sha256_spec (replicate 32 0)))"

lemma example_protocols:
  "pin_protocols example_state = [protocol_v1, protocol_v2]"
  by (simp add: example_state_def CTAP_STATE_CONST_INIT_def zero_ctap_state_def)

lemma hd_take_32: "hd (take 32 (sha256_spec d)) = hd (sha256_spec d)"
  using sw_crypto.length_H [of d] by (cases "sha256_spec d") auto

lemma example_presents:
  "check_pin_hash example_env (example_state\<lparr>rng_position := 1\<rparr>) 0 example_pin_hash_enc
     (sha256_spec (replicate 32 0)) = Some (CTAP2_OK, example_state\<lparr>rng_position := 1\<rparr>)"
proof -
  have "protocol_decrypt protocol_v1 (crypto_ops example_env) (sha256_spec (replicate 32 0))
      example_pin_hash_enc 16 = Some (Some (replicate 16 7))"
    by (simp add: protocol_inits ctap_pin_protocol_v1_decrypt_def example_pin_hash_enc_def
        example_env_def CTAP_SOFTWARE_CRYPTO_CONST_INIT_def hd_take_32 xor.assoc
        ctap_software_crypto_aes_256_cbc_decrypt_def example_libraries_def)
  moreover have "length example_pin_hash_enc = 16" "encryption_extra_length protocol_v1 = 0"
    by (simp_all add: example_pin_hash_enc_def protocol_inits)
  ultimately show ?thesis
    by (simp add: check_pin_hash_def example_protocols Let_def)
      (simp add: example_state_def ctap_get_pin_total_remaining_attempts_def ctap_is_pin_set_def
        reset_pin_remaining_attempts_def CTAP_STATE_CONST_INIT_def zero_ctap_state_def)
qed

lemma example_token_run:
  "\<exists>s' e'. ctap_client_pin example_env ref_decoder example_state
     (Some (example_pin_request example_pin_hash_enc)) [] = Some (CTAP2_OK, s', e')"
proof -
  obtain key present it1 where p: "ctap_parse_client_pin ref_decoder
       (Some (example_pin_request example_pin_hash_enc))
     = Ok (zero_CTAP_clientPIN\<lparr>cp_present := present, cp_pinUvAuthProtocol := 1, cp_subCommand := 5,
         cp_keyAgreement := key, cp_pinHashEnc := example_pin_hash_enc\<rparr>, it1)"
     "bit present 3" "bit present 6" "\<not> bit present 9" "\<not> bit present 10"
     "pubkey_x key = replicate 32 3" "pubkey_y key = replicate 32 4"
    using example_pin_request_parsed by blast
  note d = example_decapsulate [OF p(6,7)]
  let ?s1 = "example_state\<lparr>rng_position := 1\<rparr>"
  let ?t = "take 32 (concat (map (\<lambda>i. le32 (tinymt32 example_libraries i)) [Suc 0..<9]))"
  have "check_pin_remaining_attempts example_state = 0"
    by (simp add: example_state_def check_pin_remaining_attempts_def
        ctap_get_pin_total_remaining_attempts_def)
  moreover have "pin_protocols (issue_pin_uv_auth_token example_env ?s1 3 None) ! 0
      = protocol_v1\<lparr>pin_uv_auth_token := ?t\<rparr>"
    using software_rng_ok [of example_libraries]
    by (simp add: issue_pin_uv_auth_token_def ctap_all_pin_protocols_reset_pin_uv_auth_token_def
        example_env_def example_protocols ctap_pin_uv_auth_token_begin_using_def Let_def
        ctap_pin_uv_auth_token_stop_using_def ctap_discard_stateful_command_state_def
        CTAP_SOFTWARE_CRYPTO_CONST_INIT_def ctap_pin_protocol_reset_pin_uv_auth_token_def
        split: prod.splits del: take_all)
  moreover have "length ?t = 32"
    by (simp add: length_concat comp_def sum_list_triv)
  ultimately show ?thesis
    using p(2-5) d example_presents
    by (auto simp: ctap_client_pin_def p(1) ctap_get_pin_protocol_def client_pin_subcommand_def
        ctap_client_pin_get_pin_token_def ctap_is_present_or ctap_is_present_some_or
        get_pin_token_using_pin_with_permissions_def zero_CTAP_clientPIN_def Let_def
        example_protocols)
      (auto simp: protocol_inits ctap_pin_protocol_v1_encrypt_def example_env_def
        CTAP_SOFTWARE_CRYPTO_CONST_INIT_def ctap_software_crypto_aes_256_cbc_encrypt_def)
qed

theorem token_issued_only_for_pin_witness:
  "\<exists>s' e'. ctap_client_pin example_env ref_decoder example_state
       (Some (example_pin_request example_pin_hash_enc)) [] = Some (CTAP2_OK, s', e')
     \<and> permissions (pin_uv_auth_token_state s') = 3 \<and> in_use (pin_uv_auth_token_state s')"
proof -
  obtain s' e' where r: "ctap_client_pin example_env ref_decoder example_state
      (Some (example_pin_request example_pin_hash_enc)) [] = Some (CTAP2_OK, s', e')"
    using example_token_run by blast
  obtain cp it1 where p: "ctap_parse_client_pin ref_decoder
      (Some (example_pin_request example_pin_hash_enc)) = Ok (cp, it1)" "cp_subCommand cp = 5"
    using example_pin_request_parsed [of example_pin_hash_enc] by fastforce
  show ?thesis
    using token_issued_only_for_pin [OF r p(1)] p(2) r
    by (auto simp: issued_token_state_def requested_permissions_def)
qed

end
