(* ===== verification/Pin_Policy.thy ===== *)
theory Pin_Policy
  imports Client_Pin_Security
begin

text \<open>
  Which PINs can be set: the length limits in Unicode code points against the UTF-8 encoding, and
  the removal of the padding.
\<close>

section \<open>UTF-8\<close>

definition utf8_cont :: "nat \<Rightarrow> u8" where
  "utf8_cont n = 0x80 + of_nat (n mod 64)"

definition utf8 :: "nat \<Rightarrow> bytes" where
  "utf8 c =
     (if c < 0x80 then [of_nat c]
      else if c < 0x800 then [0xC0 + of_nat (c div 64), utf8_cont c]
      else if c < 0x10000 then [0xE0 + of_nat (c div 4096), utf8_cont (c div 64), utf8_cont c]
      else [0xF0 + of_nat (c div 262144), utf8_cont (c div 4096), utf8_cont (c div 64),
            utf8_cont c])"

definition utf8_string :: "nat list \<Rightarrow> bytes" where
  "utf8_string cs = concat (map utf8 cs)"

definition code_point :: "nat \<Rightarrow> bool" where
  "code_point c \<longleftrightarrow> c < 0x110000"

lemma and_C0_all: "list_all (\<lambda>n. ((of_nat n :: u8) AND 0xC0 = 0x80) = (n div 64 = 2)) [0..<256]"
  by code_simp

lemma and_C0: "b AND 0xC0 = 0x80 \<longleftrightarrow> unat b div 64 = 2" for b :: u8
proof -
  have "unat b \<in> set [0..<256]" using unsigned_less [of b, where 'a = nat] by simp
  from and_C0_all [unfolded list_all_iff, rule_format, OF this] show ?thesis by simp
qed

lemma unat_u8: "n < 256 \<Longrightarrow> unat (of_nat n :: u8) = n"
  by (simp add: unat_of_nat take_bit_nat_eq_self)

lemma lead_byte: "n < 64 \<Longrightarrow> 0xC0 + of_nat n AND 0xC0 \<noteq> (0x80 :: u8)"
proof -
  assume n: "n < 64"
  have "unat (of_nat (192 + n) :: u8) = 192 + n" using n by (intro unat_u8) simp
  then show ?thesis using n and_C0 [of "of_nat (192 + n)"] by simp
qed

lemma ascii_byte: "n < 128 \<Longrightarrow> of_nat n AND 0xC0 \<noteq> (0x80 :: u8)"
  using and_C0 [of "of_nat n"] unat_u8 [of n] by auto

lemma cont_byte: "utf8_cont n AND 0xC0 = 0x80"
proof -
  have "unat (of_nat (128 + n mod 64) :: u8) = 128 + n mod 64"
    by (rule unat_u8) (use mod_less_divisor [of 64 n] in linarith)
  then show ?thesis using and_C0 [of "of_nat (128 + n mod 64)"] by (simp add: utf8_cont_def)
qed

lemma count_append [simp]:
  "count_unicode_code_points_in_utf8_string (xs @ ys)
     = count_unicode_code_points_in_utf8_string xs + count_unicode_code_points_in_utf8_string ys"
  by (induction xs) auto

lemma count_utf8: "code_point c \<Longrightarrow> count_unicode_code_points_in_utf8_string (utf8 c) = 1"
  using lead_byte [of "c div 64"] lead_byte [of "32 + c div 4096"] lead_byte [of "48 + c div 262144"]
    ascii_byte [of c]
  by (auto simp: utf8_def code_point_def cont_byte)

lemma count_utf8_string:
  "\<forall>c\<in>set cs. code_point c \<Longrightarrow> count_unicode_code_points_in_utf8_string (utf8_string cs) = length cs"
  by (induction cs) (simp_all add: utf8_string_def count_utf8)

section \<open>Padding\<close>

lemma last_utf8: "c \<noteq> 0 \<Longrightarrow> utf8 c \<noteq> [] \<and> last (utf8 c) \<noteq> 0"
proof -
  assume "c \<noteq> 0"
  have "utf8_cont n \<noteq> 0" for n using cont_byte [of n] by auto
  moreover have "of_nat c \<noteq> (0 :: u8)" if "c < 128"
    using unat_u8 [of c] that \<open>c \<noteq> 0\<close> by auto
  ultimately show ?thesis by (simp add: utf8_def)
qed

lemma last_utf8_string:
  assumes "cs \<noteq> []" and "last cs \<noteq> 0"
  shows "utf8_string cs \<noteq> [] \<and> last (utf8_string cs) \<noteq> 0"
proof -
  have "utf8_string cs = utf8_string (butlast cs) @ utf8 (last cs)"
    using append_butlast_last_id [OF assms(1)]
    by (metis concat.simps concat_append list.simps(8,9) map_append append_Nil2 utf8_string_def)
  then show ?thesis using last_utf8 [OF assms(2)] by simp
qed

lemma new_pin_length_loop_zeros:
  "length p \<le> n \<Longrightarrow> n \<le> length (p @ zeros k) \<Longrightarrow> p = [] \<or> last p \<noteq> 0 \<Longrightarrow>
   new_pin_length_loop n (p @ zeros k) = length p"
proof (induction n)
  case (Suc n)
  show ?case
  proof (cases "length p = Suc n")
    case True
    then have "p \<noteq> []" by auto
    then have "(p @ zeros k) ! n \<noteq> 0" using Suc.prems(3) True by (simp add: nth_append last_conv_nth)
    then show ?thesis using True by simp
  next
    case False
    then have "length p \<le> n" "n - length p < k" using Suc.prems by simp_all
    then have "(p @ zeros k) ! n = 0" by (simp add: nth_append zeros_def)
    then show ?thesis using Suc \<open>length p \<le> n\<close> by simp
  qed
qed simp

lemma stripped_pin_zeros:
  assumes "length (p @ zeros k) = 64" and "p = [] \<or> last p \<noteq> 0"
  shows "stripped_pin (p @ zeros k) = p \<and> new_pin_length_loop 64 (p @ zeros k) = length p"
  using new_pin_length_loop_zeros [of p 64 k] assms by (simp add: stripped_pin_def)

section \<open>Properties\<close>

text \<open>
  C22: The PIN policy. Let the decrypted new PIN be the UTF-8 encoding of code points, not ending in
  U+0000, padded with \<open>k\<close> zero bytes to 64 bytes. If there is no padding (a PIN of more than 63
  bytes) or the PIN has fewer code points than the minimum length, then it is refused as a policy
  violation and nothing changes. Otherwise the stored state has the first half of the hash of
  exactly the PIN without padding, its length in code points, and full retry counters; the tokens
  are untouched.
\<close>

theorem set_pin_policy:
  assumes "set_pin env s i new_pin_enc secret = Some (status, s')"
      and "protocol_decrypt (pin_protocols s ! i) (crypto_ops env) secret new_pin_enc 64
            = Some (Some (utf8_string cs @ zeros k))"
      and "length (utf8_string cs @ zeros k) = 64"
      and "length new_pin_enc = 64 + encryption_extra_length (pin_protocols s ! i)"
      and "\<forall>c\<in>set cs. code_point c" and "cs = [] \<or> last cs \<noteq> 0"
      and "sha256_compute_digest (crypto_ops env) (utf8_string cs) = Some digest"
  shows "if k = 0 \<or> length cs < unat (ctap_get_pin_min_code_point_length s)
    then status = CTAP2_ERR_PIN_POLICY_VIOLATION \<and> s' = s
    else status = CTAP2_OK \<and> ctap_is_pin_set s'
       \<and> pin_hash (pin_state s') = take 16 digest
       \<and> pin_code_point_length (pin_state s') = of_nat (length cs)
       \<and> pin_boot_remaining_attempts s' = CTAP_PIN_PER_BOOT_ATTEMPTS
       \<and> ctap_get_pin_total_remaining_attempts s' \<ge> CTAP_PIN_TOTAL_ATTEMPTS
       \<and> same_tokens s s'"
proof -
  have "utf8_string cs = [] \<or> last (utf8_string cs) \<noteq> 0"
    using assms(6) last_utf8_string by (cases "cs = []") (auto simp: utf8_string_def)
  note strip = stripped_pin_zeros [OF assms(3) this]
  have len: "length (utf8_string cs) = 64 - k" "k \<le> 64" using assms(3) by (simp_all add: zeros_def)
  note count = count_utf8_string [OF assms(5)]
  show ?thesis
  proof (cases "k = 0 \<or> length cs < unat (ctap_get_pin_min_code_point_length s)")
    case True
    then have "status = CTAP2_ERR_PIN_POLICY_VIOLATION \<and> s' = s"
      using assms(1,2,4) strip len count
      by (auto simp: set_pin_def Let_def stripped_pin_def split: if_splits)
    then show ?thesis using True by simp
  next
    case False
    have "status = CTAP2_OK"
      using assms(1,2,4,7) strip len count False
      by (auto simp: set_pin_def Let_def stripped_pin_def require_def split: if_splits bind_splits)
    then have "pin_stored_as env s (utf8_string cs) s'"
      using set_pin_cases [OF assms(1)] assms(2) strip by auto
    moreover have "a \<le> max a b" for a b :: u8 by simp
    ultimately show ?thesis
      using False \<open>status = CTAP2_OK\<close> assms(7) count
      by (auto simp: pin_stored_as_def ctap_is_pin_set_def ctap_get_pin_total_remaining_attempts_def)
  qed
qed

text \<open>The PIN "12e'4" with an accented letter: four code points, five bytes.\<close>

theorem set_pin_policy_witness:
  "\<exists>s'. set_pin example_env example_state 0
      (map (\<lambda>b. b XOR 9) ([0x31, 0x32, 0xC3, 0xA9, 0x34] @ zeros 59)) (replicate 32 9)
      = Some (CTAP2_OK, s') \<and> pin_code_point_length (pin_state s') = 4"
proof -
  let ?cs = "[0x31, 0x32, 0xE9, 0x34] :: nat list"
  let ?enc = "map (\<lambda>b. b XOR 9) (utf8_string ?cs @ zeros 59) :: bytes"
  have cs: "utf8_string ?cs = [0x31, 0x32, 0xC3, 0xA9, 0x34]"
    by (simp add: utf8_string_def utf8_def utf8_cont_def)
  have p: "pin_protocols example_state ! 0 = protocol_v1"
    by (simp add: example_state_def CTAP_STATE_CONST_INIT_def zero_ctap_state_def)
  have d: "protocol_decrypt (pin_protocols example_state ! 0) (crypto_ops example_env)
      (replicate 32 9) ?enc 64 = Some (Some (utf8_string ?cs @ zeros 59))"
    unfolding p cs
    by (simp add: protocol_inits ctap_pin_protocol_v1_decrypt_def comp_def xor.assoc
        example_env_def CTAP_SOFTWARE_CRYPTO_CONST_INIT_def zeros_def
        ctap_software_crypto_aes_256_cbc_decrypt_def example_libraries_def)
  have l: "length (utf8_string ?cs @ zeros 59) = 64" by (simp add: cs zeros_def)
  have e: "length ?enc = 64 + encryption_extra_length (pin_protocols example_state ! 0)"
    unfolding p by (simp add: cs zeros_def protocol_inits)
  have h: "sha256_compute_digest (crypto_ops example_env) (utf8_string ?cs)
      = Some (sha256_spec (utf8_string ?cs))"
    by (simp add: example_env_def)
  have "\<exists>status s'. set_pin example_env example_state 0 ?enc (replicate 32 9) = Some (status, s')"
    using d e l h stripped_pin_zeros [OF l] by (simp add: set_pin_def cs Let_def require_def
        stripped_pin_def ctap_get_pin_min_code_point_length_def example_state_def
        reset_pin_remaining_attempts_def ctap_get_pin_total_remaining_attempts_def
        update_persistent_pin_state_def example_env_def example_storage_def)
  then obtain status s' where r: "set_pin example_env example_state 0 ?enc (replicate 32 9)
      = Some (status, s')" by blast
  have "status = CTAP2_OK \<and> pin_code_point_length (pin_state s') = 4"
    using set_pin_policy [OF r d l e _ _ h]
    by (simp add: code_point_def ctap_get_pin_min_code_point_length_def example_state_def)
  then show ?thesis using r by (simp add: cs)
qed

end
