(* ===== verification/Ctap_Boot.thy ===== *)
theory Ctap_Boot
  imports Client_Pin_Security Memory_Storage
begin

text \<open>
  Power-up of the authenticator (\<open>ctap_init\<close> in \<open>core/ctap.c\<close>): the PIN information is loaded from
  the storage and the protocols get new keys and tokens. The properties follow wrong PINs over
  power cycles.
\<close>

section \<open>Initialisation\<close>

definition ctap_init_pin_persistent_state ::
    "('h, 's) ctap_interfaces \<Rightarrow> ('h, 's) ctap_state \<Rightarrow> ('h, 's) ctap_state option" where
  "ctap_init_pin_persistent_state env s =
     do { (status, item) \<leftarrow> find_item (storage_ops env) (storage s)
            \<lparr>item_handle = 0, item_key = CTAP_STORAGE_KEY_PIN_INFO, item_size = 0, item_data = []\<rparr>;
          let default = s\<lparr>pin_state := (pin_state s)\<lparr>
                  pin_total_remaining_attempts := CTAP_PIN_TOTAL_ATTEMPTS,
                  pin_min_code_point_length := 4, is_pin_set := 0\<rparr>,
                pin_state_item_handle := 0\<rparr>;
          if status = CTAP_STORAGE_OK then
            require (item_handle item \<noteq> 0) (
            if item_size item = 20
            then Some (s\<lparr>pin_state_item_handle := item_handle item,
                         pin_state := pin_state_of_bytes (item_data item)\<rparr>)
            else Some default)
          else Some default }"

text \<open>The results of \<open>initialize\<close> are ignored by the code.\<close>

fun initialize_protocols :: "'h ctap_crypto \<Rightarrow> nat \<Rightarrow> 'h ctap_pin_protocol list
    \<Rightarrow> nat \<times> 'h ctap_pin_protocol list" where
  "initialize_protocols c rng [] = (rng, [])"
| "initialize_protocols c rng (p # ps) =
     (let (ok, rng1, p1) = ctap_pin_protocol_initialize c rng p;
          (rng2, ps1) = initialize_protocols c rng1 ps in
      (rng2, p1 # ps1))"

definition ctap_all_pin_protocols_initialize ::
    "('h, 's) ctap_interfaces \<Rightarrow> ('h, 's) ctap_state \<Rightarrow> ('h, 's) ctap_state option" where
  "ctap_all_pin_protocols_initialize env s =
     require (\<forall>p\<in>set (pin_protocols s). version p \<noteq> 0 \<and> shared_secret_length p \<noteq> 0) (
     let (rng1, ps) = initialize_protocols (crypto_ops env) (rng_position s) (pin_protocols s) in
     Some (s\<lparr>rng_position := rng1, pin_protocols := ps\<rparr>))"

text \<open>\<open>now\<close> is the clock at the call.\<close>

definition ctap_init ::
    "('h, 's) ctap_interfaces \<Rightarrow> u32 \<Rightarrow> ('h, 's) ctap_state \<Rightarrow> ('h, 's) ctap_state option" where
  "ctap_init env now s =
     do { s1 \<leftarrow> ctap_init_pin_persistent_state env (s\<lparr>init_time := now\<rparr>);
          ctap_all_pin_protocols_initialize env
            (s1\<lparr>pin_boot_remaining_attempts := CTAP_PIN_PER_BOOT_ATTEMPTS\<rparr>) }"

lemma init_protocols_frame:
  assumes "ctap_all_pin_protocols_initialize env s = Some s'"
  shows "\<exists>r ps. s' = s\<lparr>rng_position := r, pin_protocols := ps\<rparr>"
  using assms by (auto simp: ctap_all_pin_protocols_initialize_def require_def Let_def
      split: if_splits prod.splits)

lemma const_init_protocols_ok:
  "\<exists>s'. ctap_all_pin_protocols_initialize env (s\<lparr>pin_protocols :=
     [CTAP_PIN_PROTOCOL_V1_CONST_INIT, CTAP_PIN_PROTOCOL_V2_CONST_INIT]\<rparr>) = Some s'"
  by (simp add: ctap_all_pin_protocols_initialize_def protocol_inits Let_def del: initialize_protocols.simps
      split: prod.splits)

section \<open>The PIN item in the storage\<close>

text \<open>The slots of a storage that holds exactly one live PIN item, with the given content.\<close>

definition pin_item_in :: "slot list \<Rightarrow> u32 \<Rightarrow> bytes \<Rightarrow> bool" where
  "pin_item_in L h d \<longleftrightarrow> (\<exists>L1 x L2. L = L1 @ x # L2 \<and> slot_live x \<and> slot_handle x = h
     \<and> slot_key x = CTAP_STORAGE_KEY_PIN_INFO \<and> slot_data x = d
     \<and> live_items CTAP_STORAGE_KEY_PIN_INFO L1 = [] \<and> live_items CTAP_STORAGE_KEY_PIN_INFO L2 = [])"

definition pin_persisted :: "('s \<Rightarrow> slot list \<Rightarrow> bool) \<Rightarrow> ('h, 's) ctap_state \<Rightarrow> bool" where
  "pin_persisted srep s \<longleftrightarrow> length (pin_hash (pin_state s)) = 16
     \<and> (\<exists>L. srep (storage s) L
          \<and> pin_item_in L (pin_state_item_handle s) (pin_state_bytes (pin_state s)))"

lemma length_pin_state_bytes [simp]:
  "length (pin_hash p) = 16 \<Longrightarrow> length (pin_state_bytes p) = 20"
  by (simp add: pin_state_bytes_def)

lemma pin_item_inI:
  "slot_live x \<Longrightarrow> slot_handle x = h \<Longrightarrow> slot_key x = 1 \<Longrightarrow> slot_data x = d \<Longrightarrow>
   live_items 1 L1 = [] \<Longrightarrow> live_items 1 L2 = [] \<Longrightarrow> pin_item_in (L1 @ x # L2) h d"
  unfolding pin_item_in_def by blast

lemma pin_item_in_filter:
  assumes "pin_item_in L h d"
  obtains x where "filter (slot_matches 1) L = [x]" "slot_handle x = h" "slot_data x = d" "x \<in> set L"
  using assms unfolding pin_item_in_def live_items_def
  by (auto simp: slot_matches_def)

lemma live_items_one: "slot_live x \<Longrightarrow> slot_key x = k \<Longrightarrow> live_items k [x] = [slot_item x]"
  by (simp add: live_items_def slot_matches_def)

context item_storage
begin

lemma pin_update:
  assumes "rep (storage s) L" and "pin_item_in L (pin_state_item_handle s) d"
      and "fits (storage s) 20" and "length (pin_hash (pin_state s)) = 16"
      and "create_or_update_item (storage_ops env) = create_or_update"
      and "update_persistent_pin_state env s = Some s'"
  shows "pin_persisted rep s'"
proof -
  obtain L1 x L2 where x: "L = L1 @ x # L2" "slot_live x" "slot_handle x = pin_state_item_handle s"
      "slot_key x = 1" "live_items 1 L1 = []" "live_items 1 L2 = []"
    using assms(2) by (auto simp: pin_item_in_def)
  let ?it = "\<lparr>item_handle = pin_state_item_handle s, item_key = 1, item_size = 20,
    item_data = pin_state_bytes (pin_state s)\<rparr>"
  have "\<exists>s' h. create_or_update (storage s) ?it = Some (CTAP_STORAGE_OK, ?it\<lparr>item_handle := h\<rparr>, s')
      \<and> rep s' (L1 @ kill x # L2 @ [\<lparr>slot_handle = h, slot_key = item_key ?it, slot_live = True,
          slot_data = item_data ?it\<rparr>])"
    by (rule update) (use assms(1,3,4) x in auto)
  then obtain st h where st: "create_or_update (storage s) ?it
        = Some (CTAP_STORAGE_OK, ?it\<lparr>item_handle := h\<rparr>, st)"
      "rep st ((L1 @ kill x # L2) @ \<lparr>slot_handle = h, slot_key = 1, slot_live = True,
          slot_data = pin_state_bytes (pin_state s)\<rparr> # [])"
    by auto
  have "s' = s\<lparr>storage := st, pin_state_item_handle := h\<rparr>"
    using assms(5,6) st(1) by (simp add: update_persistent_pin_state_def)
  moreover have "live_items 1 (L1 @ kill x # L2) = []"
    using x by (simp add: live_items_append live_items_kill)
  then have "pin_item_in ((L1 @ kill x # L2) @ \<lparr>slot_handle = h, slot_key = 1, slot_live = True,
      slot_data = pin_state_bytes (pin_state s)\<rparr> # []) h (pin_state_bytes (pin_state s))"
    by (intro pin_item_inI) (simp_all add: live_items_def)
  ultimately show ?thesis
    using st(2) assms(4) unfolding pin_persisted_def by auto
qed

lemma pin_reload:
  assumes "pin_persisted rep s" and "storage s1 = storage s"
      and "find_item (storage_ops env) = find_op"
  shows "ctap_init_pin_persistent_state env s1 = Some (s1\<lparr>pin_state := pin_state s,
      pin_state_item_handle := pin_state_item_handle s\<rparr>)"
proof -
  obtain L where L: "rep (storage s) L"
      "pin_item_in L (pin_state_item_handle s) (pin_state_bytes (pin_state s))"
    using assms(1) by (auto simp: pin_persisted_def)
  obtain x where x: "filter (slot_matches 1) L = [x]" "slot_handle x = pin_state_item_handle s"
      "slot_data x = pin_state_bytes (pin_state s)" "x \<in> set L"
    using L(2) by (rule pin_item_in_filter)
  have len: "length (pin_hash (pin_state s)) = 16" using assms(1) by (simp add: pin_persisted_def)
  have "find_op (storage s) \<lparr>item_handle = 0, item_key = 1, item_size = 0, item_data = []\<rparr>
      = Some (CTAP_STORAGE_OK, slot_item x)"
    using find_first [OF L(1)] x(1) by (simp add: first_match_def)
  moreover have "slot_handle x \<noteq> 0" using rep_handle [OF L(1) x(4)] by simp
  ultimately show ?thesis
    using assms(2,3) x(2,3) len
    by (simp add: ctap_init_pin_persistent_state_def slot_item_def)
qed

end

lemma ctap_init_frame:
  assumes "ctap_init_pin_persistent_state env (s\<lparr>init_time := now\<rparr>) = Some s1"
      and "ctap_init env now s = Some s'"
  shows "pin_state s' = pin_state s1 \<and> storage s' = storage s1
    \<and> pin_state_item_handle s' = pin_state_item_handle s1
    \<and> pin_boot_remaining_attempts s' = CTAP_PIN_PER_BOOT_ATTEMPTS
    \<and> pin_uv_auth_token_state s' = pin_uv_auth_token_state s1
    \<and> stateful_command_state s' = stateful_command_state s1"
  using assms by (auto simp: ctap_init_def dest!: init_protocols_frame)

lemma pin_persisted_same:
  "pin_persisted srep s \<Longrightarrow> pin_state s' = pin_state s \<Longrightarrow> same_storage s s' \<Longrightarrow> pin_persisted srep s'"
  by (simp add: pin_persisted_def same_storage_def)

section \<open>Guessing over power cycles\<close>

text \<open>
  Requests that do not contain the PIN, and power cycles in between: after one the state is what
  \<open>ctap_init\<close> makes of the initial state and the storage. \<open>space\<close> is what is known of the storage
  when a request comes. The index counts the wrong PINs.
\<close>

inductive pin_guesses_boots :: "('h, 's) ctap_interfaces \<Rightarrow> 'v tinycbor \<Rightarrow> ('v \<Rightarrow> nat list \<Rightarrow> bool)
    \<Rightarrow> ('s \<Rightarrow> bool) \<Rightarrow> ('h, 's) ctap_state \<Rightarrow> nat \<Rightarrow> ('h, 's) ctap_state \<Rightarrow> bool"
  for env dec rep space s0 where
  start: "pin_guesses_boots env dec rep space s0 0 s0"
| request: "pin_guesses_boots env dec rep space s0 n s \<Longrightarrow> rep v (Suc k # S) \<Longrightarrow> space (storage s) \<Longrightarrow>
    ctap_client_pin env dec s (Some v) encoder = Some (status, s', encoder') \<Longrightarrow>
    \<not> request_presents_pin env dec s (Some v) \<Longrightarrow>
    pin_guesses_boots env dec rep space s0 (if answers_wrong_pin s status then Suc n else n) s'"
| power_cycle: "pin_guesses_boots env dec rep space s0 n s \<Longrightarrow>
    ctap_init env now ((CTAP_STATE_CONST_INIT (storage s))\<lparr>rng_position := r\<rparr>) = Some s' \<Longrightarrow>
    pin_guesses_boots env dec rep space s0 n s'"

context item_storage
begin

lemma wrong_pin_persisted:
  assumes "wrong_pin env s status s'" and "pin_persisted rep s" and "fits (storage s) 20"
      and "create_or_update_item (storage_ops env) = create_or_update"
  shows "pin_persisted rep s'"
proof -
  obtain sx sy where x: "update_persistent_pin_state env sx = Some sy" "pin_state sx = pin_state s'"
      "same_storage s sx" "same_storage sy s'"
    using assms(1) by (auto simp: wrong_pin_def pin_written_def)
  obtain L where L: "rep (storage sx) L"
      "pin_item_in L (pin_state_item_handle sx) (pin_state_bytes (pin_state s))"
    using assms(2) x(3) by (auto simp: pin_persisted_def same_storage_def)
  have "length (pin_hash (pin_state sx)) = 16" "fits (storage sx) 20"
    using assms(1-3) x(2,3) by (simp_all add: wrong_pin_def pin_persisted_def same_storage_def)
  from pin_update [OF L this(2,1) assms(4) x(1)] have "pin_persisted rep sy" .
  moreover have "pin_state s' = pin_state sy"
    using update_persistent_frame [OF x(1)] x(2) by auto
  ultimately show ?thesis using x(4) pin_persisted_same by blast
qed

lemma guesses_boots_count:
  assumes "tinycbor_ok dec cbor_rep" and "ctap_is_pin_set s0" and "pin_persisted rep s0"
      and "find_item (storage_ops env) = find_op"
      and "create_or_update_item (storage_ops env) = create_or_update"
      and "\<And>st. space st \<Longrightarrow> fits st 20"
      and "pin_guesses_boots env dec cbor_rep space s0 n s"
  shows "pin_persisted rep s \<and> n \<le> unat (ctap_get_pin_total_remaining_attempts s0)
    \<and> pin_state s = (pin_state s0)\<lparr>pin_total_remaining_attempts :=
        pin_total_remaining_attempts (pin_state s0) - of_nat n\<rparr>"
  using assms(7)
proof (induction rule: pin_guesses_boots.induct)
  case start
  then show ?case using assms(3) by simp
next
  case (request n s v k S encoder status s' encoder')
  have set: "ctap_is_pin_set s" using request.IH assms(2) by (simp add: ctap_is_pin_set_def)
  note step = guess_step [OF assms(1) request.hyps(2,4,5) set]
  show ?case
  proof (cases "answers_wrong_pin s status")
    case True
    then have w: "wrong_pin env s status s'" using step by simp
    with wrong_pin_persisted [OF w _ assms(6) assms(5)] request.hyps(3) request.IH
    have "pin_persisted rep s'" by blast
    then show ?thesis
      using True w request.IH u8_minus_step [of "ctap_get_pin_total_remaining_attempts s0" n]
      by (simp add: wrong_pin_def ctap_get_pin_total_remaining_attempts_def algebra_simps)
  next
    case False
    then have "pin_state s' = pin_state s" "same_storage s s'"
      using step by (simp_all add: same_pin_def)
    with False request.IH pin_persisted_same [of rep s s'] show ?thesis by simp
  qed
next
  case (power_cycle n s now r s')
  let ?init = "(CTAP_STATE_CONST_INIT (storage s))\<lparr>rng_position := r, init_time := now\<rparr>"
  have "storage ?init = storage s" by (simp add: CTAP_STATE_CONST_INIT_def zero_ctap_state_def)
  from pin_reload [OF _ this assms(4)] power_cycle.IH
  have "ctap_init_pin_persistent_state env ?init = Some (?init\<lparr>pin_state := pin_state s,
      pin_state_item_handle := pin_state_item_handle s\<rparr>)" by blast
  from ctap_init_frame [OF _ power_cycle.hyps(2)] this \<open>storage ?init = storage s\<close>
  have "pin_state s' = pin_state s" "same_storage s s'"
    by (auto simp: same_storage_def)
  then show ?case using power_cycle.IH pin_persisted_same [of rep s s'] by simp
qed

end

section \<open>A wrong PIN on the example authenticator\<close>

text \<open>The request with a key agreement key and an empty encrypted hash, in any state.\<close>

definition decremented :: "('h, 's) ctap_state \<Rightarrow> ('h, 's) ctap_state" where
  "decremented s = s\<lparr>pin_boot_remaining_attempts := pin_boot_remaining_attempts s - 1,
     pin_state := (pin_state s)\<lparr>pin_total_remaining_attempts :=
       pin_total_remaining_attempts (pin_state s) - 1\<rparr>\<rparr>"

lemma wrong_pin_request:
  assumes env: "crypto_ops env = software_crypto example_libraries"
      and p: "length (pin_protocols s) = 2" "pin_protocols s ! 0 = protocol_v1\<lparr>
        pin_uv_auth_token := token, key_agreement_public_key := pub,
        key_agreement_private_key := priv\<rparr>"
      and s: "check_pin_remaining_attempts s = CTAP2_OK" "ctap_is_pin_set s"
      and u: "\<And>r. update_persistent_pin_state env (decremented (s\<lparr>rng_position := r\<rparr>)) \<noteq> None"
  shows "\<exists>status s'. ctap_client_pin env ref_decoder s (Some (example_pin_request [])) []
      = Some (status, s', []) \<and> answers_wrong_pin s status \<and> wrong_pin env s status s'"
    and "\<not> request_presents_pin env ref_decoder s (Some (example_pin_request []))"
proof -
  obtain key present it1 where q: "ctap_parse_client_pin ref_decoder (Some (example_pin_request []))
     = Ok (zero_CTAP_clientPIN\<lparr>cp_present := present, cp_pinUvAuthProtocol := 1, cp_subCommand := 5,
         cp_keyAgreement := key, cp_pinHashEnc := []\<rparr>, it1)"
     "bit present 3" "bit present 6" "\<not> bit present 9" "\<not> bit present 10"
     "pubkey_x key = replicate 32 3" "pubkey_y key = replicate 32 4"
    using example_pin_request_parsed [of "[]"] by blast
  have "\<exists>secret. decapsulate_request env s 0 key
      = Some (Some secret, s\<lparr>rng_position := Suc (rng_position s)\<rparr>)"
    using q(6,7) sw_crypto.v1_kdf_ok [of example_libraries]
    by (simp add: decapsulate_request_def env p(2) protocol_inits ctap_pin_protocol_decapsulate_def
        ctap_software_crypto_ecc_secp256r1_shared_secret_def CTAP_SOFTWARE_CRYPTO_CONST_INIT_def
        example_libraries_def)
  then obtain secret r where d: "decapsulate_request env s 0 key
      = Some (Some secret, s\<lparr>rng_position := r\<rparr>)" by blast
  let ?s1 = "s\<lparr>rng_position := r\<rparr>"
  have pos: "pin_boot_remaining_attempts s > 0" "ctap_get_pin_total_remaining_attempts s > 0"
    using s(1) by (auto simp: check_pin_remaining_attempts_def word_gt_0 split: if_splits)
  obtain sx where sx: "update_persistent_pin_state env (decremented ?s1) = Some sx"
    using u [of r] by blast
  then have "decrement_pin_remaining_attempts env ?s1 = Some sx"
    using pos by (simp add: decrement_pin_remaining_attempts_def decremented_def
        ctap_get_pin_total_remaining_attempts_def)
  then have "\<exists>status s'. handle_invalid_pin env ?s1 0 = Some (status, s')"
    by (simp add: handle_invalid_pin_def Let_def)
  then obtain status s' where h: "handle_invalid_pin env ?s1 0 = Some (status, s')" by blast
  have w: "wrong_pin env s status s'" using handle_invalid_pin_wrong [OF h] by simp
  have st: "status \<noteq> CTAP2_OK" "answers_wrong_pin s status"
    using w s(1) by (auto simp: wrong_pin_def answers_wrong_pin_def)
  have "check_pin_hash env ?s1 0 [] secret = Some (status, s')"
    using pos s(2) h p(2) by (simp add: check_pin_hash_def ctap_get_pin_total_remaining_attempts_def
        ctap_is_pin_set_def protocol_inits)
  then have "ctap_client_pin env ref_decoder s (Some (example_pin_request [])) []
      = Some (status, s', [])"
    using q(2-5) d p(1) s(1) st(1)
    by (simp add: ctap_client_pin_def q(1) ctap_get_pin_protocol_def client_pin_subcommand_def
        ctap_client_pin_get_pin_token_def ctap_is_present_or ctap_is_present_some_or
        get_pin_token_using_pin_with_permissions_def zero_CTAP_clientPIN_def Let_def)
  then show "\<exists>status s'. ctap_client_pin env ref_decoder s (Some (example_pin_request [])) []
      = Some (status, s', []) \<and> answers_wrong_pin s status \<and> wrong_pin env s status s'"
    using st(2) w by blast
  show "\<not> request_presents_pin env ref_decoder s (Some (example_pin_request []))"
    using q(1) by (auto simp: request_presents_pin_def presents_pin_def zero_CTAP_clientPIN_def
        split: option.split_asm prod.split_asm)
qed

section \<open>An authenticator with RAM storage\<close>

definition memory_env :: "(sha256_ctx, ctap_memory_storage_context) ctap_interfaces" where
  "memory_env = \<lparr>crypto_ops = software_crypto example_libraries,
     storage_ops = CTAP_MEMORY_STORAGE_CONST_INIT, encoder_ok = (\<lambda>_. True)\<rparr>"

definition example_pin :: ctap_pin_persistent_state where
  "example_pin = \<lparr>pin_total_remaining_attempts = 8, pin_min_code_point_length = 4, is_pin_set = 1,
     pin_code_point_length = 4, pin_hash = replicate 16 7\<rparr>"

text \<open>A RAM storage of \<open>n\<close> bytes after the PIN item was written to it, and a state that loaded it.\<close>

definition pin_memory :: "nat \<Rightarrow> ctap_memory_storage_context" where
  "pin_memory n = snd (snd (the (ctap_memory_storage_create_item
     \<lparr>memory = zeros n, write_index = 0\<rparr> \<lparr>item_handle = 0, item_key = 1, item_size = 20,
       item_data = pin_state_bytes example_pin\<rparr>)))"

definition pin_memory_state :: "nat \<Rightarrow> (sha256_ctx, ctap_memory_storage_context) ctap_state" where
  "pin_memory_state n = (CTAP_STATE_CONST_INIT (pin_memory n))\<lparr>pin_state := example_pin,
     pin_state_item_handle := 1, pin_boot_remaining_attempts := 3\<rparr>"

lemma pin_memory_ok:
  assumes "36 \<le> n" and "n < 2 ^ 31"
  shows "mem_rep (pin_memory n) ([] @ \<lparr>slot_handle = 1, slot_key = 1, slot_live = True,
      slot_data = pin_state_bytes example_pin\<rparr> # [])"
    and "write_index (pin_memory n) = 36" and "length (memory (pin_memory n)) = n"
proof -
  let ?ctx = "\<lparr>memory = zeros n, write_index = 0\<rparr>"
  let ?it = "\<lparr>item_handle = 0, item_key = 1, item_size = 20, item_data = pin_state_bytes example_pin\<rparr>"
  have l: "length (pin_state_bytes example_pin) = 20" by (simp add: example_pin_def)
  have "mem_fits ?ctx 20" "log_of ?ctx []"
    using assms by (simp_all add: mem_fits_def mem_total_eq log_of_def)
  from mem_create_ok [OF this(2), of ?it] this(1) l obtain s w p where s:
    "ctap_memory_storage_create_item ?ctx ?it = Some (CTAP_STORAGE_OK, ?it\<lparr>item_handle := 1\<rparr>, s)"
    "log_of s [\<lparr>e_key = 1, e_dead = False, e_word = w, e_data = pin_state_bytes example_pin,
        e_pad = p\<rparr>]"
    by (auto simp: index_to_handle_def)
  have eq: "pin_memory n = s" using s(1) by (simp add: pin_memory_def)
  show "mem_rep (pin_memory n) ([] @ \<lparr>slot_handle = 1, slot_key = 1, slot_live = True,
      slot_data = pin_state_bytes example_pin\<rparr> # [])"
    using s(2) unfolding eq mem_rep_def
    by (intro exI conjI) (auto simp: index_to_handle_def)
  have "wf_entry \<lparr>e_key = 1, e_dead = False, e_word = w, e_data = pin_state_bytes example_pin,
      e_pad = p\<rparr>"
    using s(2) by (simp add: log_of_def)
  from wf_entry_length(3) [OF this] l show "write_index (pin_memory n) = 36"
    using s(2) by (simp add: log_of_def eq)
  show "length (memory (pin_memory n)) = n"
    using s(1) l unfolding eq
    by (auto simp: ctap_memory_storage_create_item_def wr32_def Let_def
        dest!: memcpy_at_length split: if_splits bind_splits)
qed

lemma pin_memory_state_ok:
  assumes "36 \<le> n" and "n < 2 ^ 31"
  shows "pin_persisted mem_rep (pin_memory_state n)" and "ctap_is_pin_set (pin_memory_state n)"
proof -
  have "pin_item_in ([] @ \<lparr>slot_handle = 1, slot_key = 1, slot_live = True,
      slot_data = pin_state_bytes example_pin\<rparr> # []) 1 (pin_state_bytes example_pin)"
    by (rule pin_item_inI) (simp_all add: live_items_def)
  then show "pin_persisted mem_rep (pin_memory_state n)"
    using pin_memory_ok(1) [OF assms]
    by (auto simp: pin_persisted_def pin_memory_state_def CTAP_STATE_CONST_INIT_def
        zero_ctap_state_def example_pin_def)
  show "ctap_is_pin_set (pin_memory_state n)"
    by (simp add: pin_memory_state_def ctap_is_pin_set_def example_pin_def)
qed

context item_storage
begin

text \<open>A power cycle with a persisted PIN: the PIN information survives, the protocols are fresh.\<close>

lemma power_cycle_ok:
  assumes "pin_persisted rep s" and "find_item (storage_ops env) = find_op"
  shows "\<exists>s'. ctap_init env now ((CTAP_STATE_CONST_INIT (storage s))\<lparr>rng_position := r\<rparr>) = Some s'
    \<and> pin_state s' = pin_state s \<and> same_storage s s'
    \<and> pin_boot_remaining_attempts s' = CTAP_PIN_PER_BOOT_ATTEMPTS
    \<and> length (pin_protocols s') = 2
    \<and> (\<exists>token pub priv. pin_protocols s' ! 0 = protocol_v1\<lparr>pin_uv_auth_token := token,
          key_agreement_public_key := pub, key_agreement_private_key := priv\<rparr>)"
proof -
  let ?init = "(CTAP_STATE_CONST_INIT (storage s))\<lparr>rng_position := r, init_time := now\<rparr>"
  have st: "storage ?init = storage s" by (simp add: CTAP_STATE_CONST_INIT_def zero_ctap_state_def)
  have reg: "\<exists>pub priv. snd (snd (ctap_pin_protocol_regenerate c rng p))
      = p\<lparr>key_agreement_public_key := pub, key_agreement_private_key := priv\<rparr>"
    for c rng and p :: "'d ctap_pin_protocol"
    by (cases p) (auto simp: ctap_pin_protocol_regenerate_def Let_def split: prod.splits)
  have ini: "\<exists>token pub priv. snd (snd (ctap_pin_protocol_initialize c rng p))
      = p\<lparr>pin_uv_auth_token := token, key_agreement_public_key := pub,
          key_agreement_private_key := priv\<rparr>" for c rng and p :: "'d ctap_pin_protocol"
    using reg [of c rng p]
    by (cases p) (auto simp: ctap_pin_protocol_initialize_def Let_def
        ctap_pin_protocol_reset_pin_uv_auth_token_def split: prod.splits)
  obtain ok rng1 p1 where p1: "ctap_pin_protocol_initialize (crypto_ops env) r protocol_v1
      = (ok, rng1, p1)"
    by (cases "ctap_pin_protocol_initialize (crypto_ops env) r protocol_v1")
  obtain ok2 rng2 p2 where p2: "ctap_pin_protocol_initialize (crypto_ops env) rng1 protocol_v2
      = (ok2, rng2, p2)"
    by (cases "ctap_pin_protocol_initialize (crypto_ops env) rng1 protocol_v2")
  have "\<exists>token pub priv. p1 = protocol_v1\<lparr>pin_uv_auth_token := token,
      key_agreement_public_key := pub, key_agreement_private_key := priv\<rparr>"
    using ini [of "crypto_ops env" r protocol_v1] p1 by simp
  moreover have "version protocol_v1 \<noteq> 0" "version protocol_v2 \<noteq> 0"
      "shared_secret_length protocol_v1 \<noteq> 0" "shared_secret_length protocol_v2 \<noteq> 0"
    by (simp_all add: protocol_inits)
  ultimately show ?thesis
    using pin_reload [OF assms(1) st assms(2)] p1 p2 st
    by (simp add: ctap_init_def ctap_all_pin_protocols_initialize_def CTAP_STATE_CONST_INIT_def
        zero_ctap_state_def same_storage_def)
qed

end

section \<open>Properties\<close>


text \<open>The requests of the examples on the RAM storage.\<close>

lemma memory_update_defined:
  assumes "pin_persisted mem_rep s" and "length (pin_hash (pin_state s')) = 16"
      and "same_storage s s'" and "mem_fits (storage s) 20"
  shows "update_persistent_pin_state memory_env s' \<noteq> None"
proof -
  obtain L1 x L2 where x: "mem_rep (storage s) (L1 @ x # L2)" "slot_live x"
      "slot_handle x = pin_state_item_handle s"
    using assms(1) by (auto simp: pin_persisted_def pin_item_in_def)
  let ?it = "\<lparr>item_handle = pin_state_item_handle s', item_key = 1, item_size = 20,
    item_data = pin_state_bytes (pin_state s')\<rparr>"
  have "\<exists>s'' h. ctap_memory_storage_create_or_update_item (storage s) ?it
      = Some (CTAP_STORAGE_OK, ?it\<lparr>item_handle := h\<rparr>, s'')
      \<and> mem_rep s'' (L1 @ kill x # L2 @ [\<lparr>slot_handle = h, slot_key = item_key ?it,
          slot_live = True, slot_data = item_data ?it\<rparr>])"
    by (rule mem.update) (use x assms in \<open>auto simp: same_storage_def\<close>)
  then show ?thesis
    using assms(3) by (auto simp: update_persistent_pin_state_def memory_env_def same_storage_def
        CTAP_MEMORY_STORAGE_CONST_INIT_def)
qed


lemma full_memory_update:
  assumes "storage s = pin_memory 36" and "pin_state_item_handle s = 1"
  shows "update_persistent_pin_state memory_env s = Some s"
proof -
  have "ctap_memory_storage_create_item (pin_memory 36) it
      = Some (CTAP_STORAGE_OUT_OF_MEMORY_ERROR, it, pin_memory 36)"
    if "item_size it = 20" "item_key it = 1" for it
    using pin_memory_ok(2,3) [of 36] that
    by (simp add: ctap_memory_storage_create_item_def mem_total_eq Let_def)
  then show ?thesis
    using assms by (simp add: update_persistent_pin_state_def memory_env_def
        CTAP_MEMORY_STORAGE_CONST_INIT_def ctap_memory_storage_create_or_update_item_def)
qed


end
