(* ===== verification/Credential_Store.thy ===== *)
theory Credential_Store
  imports Client_Pin Strings_Asn1
begin

text \<open>
  Credentials in the storage (\<open>core/ctap_credential_store.c\<close>, \<open>core/ctap_credentials_store.h\<close>):
  the layout of a credential source, creation, update, lookup and enumeration. Pointers into a
  credential source are byte strings here; the storage is only changed by the operations that
  write to it, so a pointer keeps showing the same bytes in between.
\<close>

section \<open>Layout\<close>

definition le16 :: "u16 \<Rightarrow> bytes" where
  "le16 w = [lo8 w, hi8 w]"

definition le16_read :: "bytes \<Rightarrow> u16" where
  "le16_read bs = be16 (bs ! 1) (bs ! 0)"

lemma length_le16 [simp]: "length (le16 w) = 2"
  by (simp add: le16_def)

lemma le16_read_le16 [simp]: "le16_read (le16 w @ rest) = w"
  by (simp add: le16_def le16_read_def)

record ctap_credential_source =
  src_flags :: u32
  src_id :: bytes
  src_rp_id_hash :: bytes
  src_private_key :: bytes
  cred_random_with_uv :: bytes
  cred_random_without_uv :: bytes
  user_id_offset :: u16
  user_name_offset :: u16
  user_display_name_offset :: u16
  variable_data_end_offset :: u16
  variable_data :: bytes

abbreviation (input) sizeof_credential_source :: nat where "sizeof_credential_source \<equiv> 172"

text \<open>The structure is packed and little-endian; the variable part follows it.\<close>

definition credential_source_bytes :: "ctap_credential_source \<Rightarrow> bytes" where
  "credential_source_bytes src =
     le32 (src_flags src) @ src_id src @ src_rp_id_hash src @ src_private_key src
     @ cred_random_with_uv src @ cred_random_without_uv src
     @ le16 (user_id_offset src) @ le16 (user_name_offset src)
     @ le16 (user_display_name_offset src) @ le16 (variable_data_end_offset src)
     @ variable_data src"

definition credential_source_of_bytes :: "bytes \<Rightarrow> ctap_credential_source" where
  "credential_source_of_bytes b = \<lparr>src_flags = le32_read b,
     src_id = take 32 (drop 4 b), src_rp_id_hash = take 32 (drop 36 b),
     src_private_key = take 32 (drop 68 b), cred_random_with_uv = take 32 (drop 100 b),
     cred_random_without_uv = take 32 (drop 132 b),
     user_id_offset = le16_read (drop 164 b), user_name_offset = le16_read (drop 166 b),
     user_display_name_offset = le16_read (drop 168 b),
     variable_data_end_offset = le16_read (drop 170 b),
     variable_data = drop 172 b\<rparr>"

definition source_arrays :: "ctap_credential_source \<Rightarrow> bool" where
  "source_arrays src \<longleftrightarrow> length (src_id src) = 32 \<and> length (src_rp_id_hash src) = 32
     \<and> length (src_private_key src) = 32 \<and> length (cred_random_with_uv src) = 32
     \<and> length (cred_random_without_uv src) = 32"

lemma credential_source_of_bytes_bytes [simp]:
  assumes "source_arrays src"
  shows "credential_source_of_bytes (credential_source_bytes src) = src"
  using assms by (simp add: credential_source_of_bytes_def credential_source_bytes_def
      source_arrays_def)

lemma length_credential_source_bytes [simp]:
  "source_arrays src \<Longrightarrow> length (credential_source_bytes src) = 172 + length (variable_data src)"
  by (simp add: credential_source_bytes_def source_arrays_def)

section \<open>Fields of a credential\<close>

abbreviation (input) flags_credProtect :: u32 where "flags_credProtect \<equiv> 3"
abbreviation (input) flags_discoverable :: u32 where "flags_discoverable \<equiv> 4"
abbreviation (input) flags_present_user_name :: u32 where "flags_present_user_name \<equiv> 8"
abbreviation (input) flags_present_user_display_name :: u32 where
  "flags_present_user_display_name \<equiv> 16"
abbreviation (input) flags_truncated_rp_id :: u32 where "flags_truncated_rp_id \<equiv> 32"
abbreviation (input) flags_truncated_user_name :: u32 where "flags_truncated_user_name \<equiv> 64"
abbreviation (input) flags_truncated_user_display_name :: u32 where
  "flags_truncated_user_display_name \<equiv> 128"

definition cred_source :: "ctap_credential_handle \<Rightarrow> ctap_credential_source" where
  "cred_source c = credential_source_of_bytes (source c)"

definition ctap_credential_get_flags :: "ctap_credential_handle \<Rightarrow> u32" where
  "ctap_credential_get_flags c = src_flags (cred_source c)"

definition ctap_credential_is_discoverable :: "ctap_credential_handle \<Rightarrow> bool" where
  "ctap_credential_is_discoverable c \<longleftrightarrow> src_flags (cred_source c) AND flags_discoverable \<noteq> 0"

definition ctap_credential_get_id :: "ctap_credential_handle \<Rightarrow> bytes" where
  "ctap_credential_get_id c = src_id (cred_source c)"

definition ctap_credential_get_rp_id_hash :: "ctap_credential_handle \<Rightarrow> bytes" where
  "ctap_credential_get_rp_id_hash c = src_rp_id_hash (cred_source c)"

text \<open>A string in the variable part; \<open>None\<close> when it does not lie inside the item.\<close>

definition source_string :: "ctap_credential_source \<Rightarrow> u16 \<Rightarrow> u16 \<Rightarrow> bytes option" where
  "source_string src from till =
     require (unat from \<le> unat till) (require (unat till \<le> length (variable_data src))
       (Some (take (unat till - unat from) (drop (unat from) (variable_data src)))))"

definition ctap_credential_get_rp_id :: "ctap_credential_handle \<Rightarrow> bytes option" where
  "ctap_credential_get_rp_id c =
     (let src = cred_source c in source_string src 0 (user_id_offset src))"

definition ctap_credential_get_user_id :: "ctap_credential_handle \<Rightarrow> bytes option" where
  "ctap_credential_get_user_id c =
     (let src = cred_source c in source_string src (user_id_offset src) (user_name_offset src))"

definition ctap_credential_get_user :: "ctap_credential_handle \<Rightarrow> CTAP_userEntity option" where
  "ctap_credential_get_user c =
     (let src = cred_source c;
          u0 = zero_CTAP_userEntity\<lparr>user_fields := ctap_param_to_mask CTAP_userEntity_id\<rparr> in
      do { i \<leftarrow> ctap_credential_get_user_id c;
           u2 \<leftarrow> (if src_flags src AND flags_present_user_name \<noteq> 0
                 then do { n \<leftarrow> source_string src (user_name_offset src)
                                 (user_display_name_offset src);
                           Some (u0\<lparr>user_fields := ctap_set_present CTAP_userEntity_name
                                      (user_fields u0), user_name := n\<rparr>) }
                 else Some (u0\<lparr>user_name := []\<rparr>));
           u3 \<leftarrow> (if src_flags src AND flags_present_user_display_name \<noteq> 0
                 then do { d \<leftarrow> source_string src (user_display_name_offset src)
                                 (variable_data_end_offset src);
                           Some (u2\<lparr>user_fields := ctap_set_present CTAP_userEntity_displayName
                                      (user_fields u2), user_displayName := d\<rparr>) }
                 else Some (u2\<lparr>user_displayName := []\<rparr>));
           Some (u3\<lparr>user_id := i\<rparr>) })"

definition ctap_credential_get_cred_protect :: "ctap_credential_handle \<Rightarrow> u8" where
  "ctap_credential_get_cred_protect c = ucast (src_flags (cred_source c) AND flags_credProtect)"

definition ctap_credential_get_cred_random :: "ctap_credential_handle \<Rightarrow> bool \<Rightarrow> bytes" where
  "ctap_credential_get_cred_random c uv =
     (if uv then cred_random_with_uv (cred_source c) else cred_random_without_uv (cred_source c))"

section \<open>Walking through the credentials\<close>

text \<open>
  The loop \<open>while (find_item(&item) == CTAP_STORAGE_OK)\<close>: the body gets the accumulator and the
  item and continues (\<open>Inl\<close>) or returns from the function (\<open>Inr\<close>). \<open>None\<close> is also a loop that
  does not end.
\<close>

partial_function (option) storage_loop ::
    "('s \<Rightarrow> ctap_storage_item \<Rightarrow> (ctap_storage_status \<times> ctap_storage_item) option) \<Rightarrow> 's
     \<Rightarrow> ('a \<Rightarrow> ctap_storage_item \<Rightarrow> ('a + 'b) option) \<Rightarrow> ctap_storage_item \<Rightarrow> 'a
     \<Rightarrow> ('a + 'b) option" where
  "storage_loop find_op st body item acc =
     Option.bind (find_op st item) (\<lambda>(status, item1).
       if status = CTAP_STORAGE_OK then
         Option.bind (body acc item1) (\<lambda>r.
           case r of Inl acc1 \<Rightarrow> storage_loop find_op st body item1 acc1 | Inr b \<Rightarrow> Some (Inr b))
       else Some (Inl acc))"

text \<open>What the loop computes on a list of items.\<close>

fun fold_items :: "('a \<Rightarrow> ctap_storage_item \<Rightarrow> ('a + 'b) option) \<Rightarrow> ctap_storage_item list \<Rightarrow> 'a
    \<Rightarrow> ('a + 'b) option" where
  "fold_items body [] acc = Some (Inl acc)"
| "fold_items body (it # its) acc =
     Option.bind (body acc it) (\<lambda>r. case r of Inl acc1 \<Rightarrow> fold_items body its acc1
                                         | Inr b \<Rightarrow> Some (Inr b))"

text \<open>The items shorter than the structure are skipped.\<close>

definition credential_loop :: "'s ctap_storage \<Rightarrow> 's
     \<Rightarrow> ('a \<Rightarrow> ctap_credential_handle \<Rightarrow> ('a + 'b) option) \<Rightarrow> 'a \<Rightarrow> ('a + 'b) option" where
  "credential_loop ops st body acc =
     storage_loop (find_item ops) st (\<lambda>acc item.
       if item_size item < sizeof_credential_source then Some (Inl acc)
       else body acc \<lparr>source = item_data item, cred_item_handle = item_handle item\<rparr>)
     (empty_item CTAP_STORAGE_KEY_CREDENTIAL) acc"

definition ctap_count_num_stored_credentials :: "'s ctap_storage \<Rightarrow> 's \<Rightarrow> bool \<Rightarrow> nat option" where
  "ctap_count_num_stored_credentials ops st only_discoverable =
     map_option (case_sum id id) (credential_loop ops st (\<lambda>n c.
       Some (Inl (if \<not> only_discoverable \<or> ctap_credential_is_discoverable c then n + 1 else n)))
     0)"

definition ctap_count_num_stored_discoverable_credentials :: "'s ctap_storage \<Rightarrow> 's \<Rightarrow> nat option" where
  "ctap_count_num_stored_discoverable_credentials ops st =
     ctap_count_num_stored_credentials ops st True"

definition ctap_get_num_max_possible_remaining_discoverable_credentials ::
    "'s ctap_storage \<Rightarrow> 's \<Rightarrow> nat" where
  "ctap_get_num_max_possible_remaining_discoverable_credentials ops st =
     estimate_num_remaining_items ops st (sizeof_credential_source + 255 + 64 + 64 + 64)"

section \<open>Matching\<close>

definition ctap_credential_matches_rp_id_hash :: "ctap_credential_handle \<Rightarrow> bytes \<Rightarrow> bool" where
  "ctap_credential_matches_rp_id_hash c rp_id_hash \<longleftrightarrow> src_rp_id_hash (cred_source c) = rp_id_hash"

text \<open>A relying party identifier and its hash.\<close>

record CTAP_rpId =
  rp_id_id :: bytes
  rp_id_hash_value :: bytes

definition ctap_credential_matches_rp :: "ctap_credential_handle \<Rightarrow> CTAP_rpId \<Rightarrow> bool option" where
  "ctap_credential_matches_rp c rp_id =
     (if src_flags (cred_source c) AND flags_truncated_rp_id = 0 then
        do { cred_rp_id \<leftarrow> ctap_credential_get_rp_id c;
             if ctap_string_matches cred_rp_id (rp_id_id rp_id)
             then require (ctap_credential_matches_rp_id_hash c (rp_id_hash_value rp_id)) (Some True)
             else Some False }
      else Some (ctap_credential_matches_rp_id_hash c (rp_id_hash_value rp_id)))"

definition ctap_lookup_credential_by_desc ::
    "'s ctap_storage \<Rightarrow> 's \<Rightarrow> CTAP_credDesc \<Rightarrow> ctap_credential_handle option option" where
  "ctap_lookup_credential_by_desc ops st cred_desc =
     (if credDesc_type cred_desc \<noteq> CTAP_pubKeyCredType_public_key then Some None
      else if length (credDesc_id cred_desc) \<noteq> 32 then Some None
      else map_option (case_sum (\<lambda>_. None) Some) (credential_loop ops st (\<lambda>_ c.
        if credDesc_id cred_desc \<noteq> src_id (cred_source c) then Some (Inl ())
        else Some (Inr c)) ()))"

definition ctap_find_credential_item_by_rp_id_and_user_id ::
    "'s ctap_storage \<Rightarrow> 's \<Rightarrow> CTAP_rpId \<Rightarrow> bytes \<Rightarrow> u32 option" where
  "ctap_find_credential_item_by_rp_id_and_user_id ops st rp_id uid =
     map_option (case_sum (\<lambda>_. 0) id) (credential_loop ops st (\<lambda>_ c. do {
       matches \<leftarrow> ctap_credential_matches_rp c rp_id;
       if \<not> matches then Some (Inl ())
       else do {
         cred_user_id \<leftarrow> ctap_credential_get_user_id c;
         if \<not> ctap_string_matches cred_user_id uid then Some (Inl ())
         else Some (Inr (cred_item_handle c)) } }) ())"

section \<open>Creating and updating credentials\<close>

text \<open>\<open>ctap_maybe_truncate_*\<close> on a part of the buffer that begins at \<open>off\<close>.\<close>

definition store_string_at :: "truncate_fn \<Rightarrow> bytes \<Rightarrow> bytes \<Rightarrow> nat \<Rightarrow> nat \<Rightarrow> (bool \<times> bytes \<times> nat) option" where
  "store_string_at truncate_fn str buf off max_size =
     require (off \<le> length buf) (
     do { (was_truncated, rest, stored) \<leftarrow> truncate_fn str (drop off buf) max_size;
          Some (was_truncated, take off buf @ rest, stored) })"

text \<open>
  The part of creation and update that lays out the user's strings after the identifier of the
  relying party: \<open>rp_size\<close> bytes of \<open>variable_data\<close> are in use, \<open>with_name\<close> and
  \<open>with_display_name\<close> tell which strings are stored. The result is the flags, the offsets and
  the buffer.
\<close>

definition store_user :: "CTAP_userEntity \<Rightarrow> bool \<Rightarrow> bool \<Rightarrow> ctap_credential_source
    \<Rightarrow> ctap_credential_source option" where
  "store_user user with_name with_display_name src =
     do { let off1 = unat (user_id_offset src);
          (t1, buf1, user_id_size) \<leftarrow> store_string_at ctap_maybe_truncate_string (user_id user)
             (variable_data src) off1 64;
          src1 \<leftarrow> require (\<not> t1) (Some (src\<lparr>variable_data := buf1,
             user_name_offset := of_nat (off1 + user_id_size)\<rparr>));
          let off2 = unat (user_name_offset src1);
          (src2, user_name_size) \<leftarrow> (if with_name then do {
               (t, buf, n) \<leftarrow> store_string_at ctap_maybe_truncate_string (user_name user)
                  (variable_data src1) off2 64;
               Some (src1\<lparr>variable_data := buf, src_flags := src_flags src1
                  OR (if t then flags_truncated_user_name else 0) OR flags_present_user_name\<rparr>, n) }
             else Some (src1, 0));
          let src3 = src2\<lparr>user_display_name_offset := of_nat (off2 + user_name_size)\<rparr>;
          let off3 = unat (user_display_name_offset src3);
          (src4, user_display_name_size) \<leftarrow> (if with_display_name then do {
               (t, buf, n) \<leftarrow> store_string_at ctap_maybe_truncate_string (user_displayName user)
                  (variable_data src3) off3 64;
               Some (src3\<lparr>variable_data := buf, src_flags := src_flags src3
                  OR (if t then flags_truncated_user_display_name else 0)
                  OR flags_present_user_display_name\<rparr>, n) }
             else Some (src3, 0));
          Some (src4\<lparr>variable_data_end_offset := of_nat (off3 + user_display_name_size)\<rparr>) }"

text \<open>
  The item that is stored: the buffer up to the end of the variable part. The result of writing
  it, as the two callers map it to a status.
\<close>

abbreviation (input) CTAP2_ERR_KEY_STORE_FULL :: u8 where "CTAP2_ERR_KEY_STORE_FULL \<equiv> 0x28"
abbreviation (input) variable_data_max :: nat where "variable_data_max \<equiv> 255 + 64 + 64 + 64"

definition store_credential :: "'s ctap_storage \<Rightarrow> 's \<Rightarrow> u32 \<Rightarrow> ctap_credential_source
    \<Rightarrow> (u8 \<times> ctap_credential_handle option \<times> 's) option" where
  "store_credential ops st handle src =
     (let end_offset = unat (variable_data_end_offset src);
          source_total_size = sizeof_credential_source + end_offset in
      require (source_total_size \<le> sizeof_credential_source + variable_data_max) (
      do { (result, item, st1) \<leftarrow> create_or_update_item ops st
             \<lparr>item_handle = handle, item_key = CTAP_STORAGE_KEY_CREDENTIAL,
              item_size = source_total_size,
              item_data = take source_total_size (credential_source_bytes src)\<rparr>;
           Some (if result = CTAP_STORAGE_OUT_OF_MEMORY_ERROR
                 then (CTAP2_ERR_KEY_STORE_FULL, None, st1)
                 else if result \<noteq> CTAP_STORAGE_OK then (CTAP1_ERR_OTHER, None, st1)
                 else (CTAP2_OK, Some \<lparr>source = item_data item,
                         cred_item_handle = item_handle item\<rparr>, st1)) }))"

text \<open>The four random fields of a new credential, or the position after a failure.\<close>

definition draw_credential_secrets :: "'h ctap_crypto \<Rightarrow> nat
    \<Rightarrow> (bytes \<times> bytes \<times> bytes \<times> bytes) option \<times> nat" where
  "draw_credential_secrets c rng =
     (let (ok1, i, r1) = rng_generate_data c rng 32 in
      if \<not> ok1 then (None, r1) else
      let (ok2, k, r2) = rng_generate_data c r1 32 in
      if \<not> ok2 then (None, r2) else
      let (ok3, w, r3) = rng_generate_data c r2 32 in
      if \<not> ok3 then (None, r3) else
      let (ok4, wo, r4) = rng_generate_data c r3 32 in
      if \<not> ok4 then (None, r4) else (Some (i, k, w, wo), r4))"

text \<open>\<open>buf\<close> is what the buffer on the stack holds before it is filled.\<close>

definition ctap_create_credential :: "'s ctap_storage \<Rightarrow> 'h ctap_crypto \<Rightarrow> bytes \<Rightarrow> 's \<Rightarrow> nat \<Rightarrow> bool
    \<Rightarrow> u8 \<Rightarrow> CTAP_rpId \<Rightarrow> CTAP_userEntity
    \<Rightarrow> (u8 \<times> ctap_credential_handle option \<times> 's \<times> nat) option" where
  "ctap_create_credential ops c buf st rng discoverable cred_protect rp_id user =
     (if \<not> ctap_is_present (user_fields user) (ctap_param_to_mask CTAP_userEntity_id)
         \<or> length (user_id user) > CTAP_USER_ENTITY_ID_MAX_SIZE
      then Some (CTAP2_ERR_CBOR_UNEXPECTED_TYPE, None, st, rng)
      else require (cred_protect \<le> 3) (
        case draw_credential_secrets c rng of
          (None, rng1) \<Rightarrow> Some (CTAP1_ERR_OTHER, None, st, rng1)
        | (Some (i, k, w, wo), rng1) \<Rightarrow> do {
            (t, buf1, rp_id_size) \<leftarrow> store_string_at ctap_maybe_truncate_rp_id (rp_id_id rp_id) buf 0 255;
            let src = \<lparr>src_flags = ucast cred_protect OR (if discoverable then flags_discoverable else 0)
                     OR (if t then flags_truncated_rp_id else 0),
                   src_id = i, src_rp_id_hash = rp_id_hash_value rp_id, src_private_key = k,
                   cred_random_with_uv = w, cred_random_without_uv = wo,
                   user_id_offset = of_nat rp_id_size, user_name_offset = 0,
                   user_display_name_offset = 0, variable_data_end_offset = 0,
                   variable_data = buf1\<rparr>;
            src1 \<leftarrow> store_user user
               (ctap_is_present (user_fields user) (ctap_param_to_mask CTAP_userEntity_name))
               (ctap_is_present (user_fields user) (ctap_param_to_mask CTAP_userEntity_displayName))
               src;
            handle \<leftarrow> (if discoverable
               then ctap_find_credential_item_by_rp_id_and_user_id ops st rp_id (user_id user)
               else Some 0);
            (status, cred, st1) \<leftarrow> store_credential ops st handle src1;
            Some (status, cred, st1, rng1) }))"

definition ctap_credential_update_user_information :: "'s ctap_storage \<Rightarrow> bytes \<Rightarrow> 's
    \<Rightarrow> ctap_credential_handle \<Rightarrow> CTAP_userEntity
    \<Rightarrow> (u8 \<times> ctap_credential_handle \<times> 's) option" where
  "ctap_credential_update_user_information ops buf st credential updated_user =
     (if \<not> ctap_is_present (user_fields updated_user) (ctap_param_to_mask CTAP_userEntity_id)
         \<or> length (user_id updated_user) > CTAP_USER_ENTITY_ID_MAX_SIZE
      then Some (CTAP2_ERR_CBOR_UNEXPECTED_TYPE, credential, st)
      else do {
        current_user_id \<leftarrow> ctap_credential_get_user_id credential;
        if \<not> ctap_string_matches (user_id updated_user) current_user_id
        then Some (CTAP1_ERR_INVALID_PARAMETER, credential, st)
        else do {
          let old = cred_source credential;
          let rp_id_size = unat (user_id_offset old);
          buf1 \<leftarrow> require (rp_id_size \<le> length (variable_data old))
                    (memcpy_at buf 0 (take rp_id_size (variable_data old)));
          let src = old\<lparr>src_flags := src_flags old AND
                 (flags_credProtect OR flags_discoverable OR flags_truncated_rp_id),
               user_id_offset := of_nat rp_id_size, variable_data := buf1\<rparr>;
          src1 \<leftarrow> store_user updated_user
             (ctap_is_present (user_fields updated_user) (ctap_param_to_mask CTAP_userEntity_name)
                \<and> length (user_name updated_user) > 0)
             (ctap_is_present (user_fields updated_user) (ctap_param_to_mask CTAP_userEntity_displayName)
                \<and> length (user_displayName updated_user) > 0)
             src;
          (status, cred, st1) \<leftarrow> store_credential ops st (cred_item_handle credential) src1;
          Some (status, case cred of Some c \<Rightarrow> c | None \<Rightarrow> credential, st1) } })"

text \<open>The new value of the counter is \<open>None\<close> unless the status is \<open>CTAP2_OK\<close>.\<close>

definition ctap_increment_global_signature_counter :: "'s ctap_storage \<Rightarrow> 'h ctap_crypto \<Rightarrow> 's \<Rightarrow> nat
    \<Rightarrow> (u8 \<times> u32 option \<times> 's \<times> nat) option" where
  "ctap_increment_global_signature_counter ops c st rng =
     (let (ok, b, rng1) = rng_generate_data c rng 4 in
      if \<not> ok then Some (CTAP1_ERR_OTHER, None, st, rng1)
      else
        let increment = (le32_read b AND 0x3) + 1 in
        do { (status, counter_new_value, st1) \<leftarrow> increment_counter ops st increment;
             Some (if status \<noteq> CTAP_STORAGE_OK then (CTAP1_ERR_OTHER, None, st1, rng1)
                   else (CTAP2_OK, Some counter_new_value, st1, rng1)) })"

definition ctap_delete_credential ::
    "'s ctap_storage \<Rightarrow> 's \<Rightarrow> ctap_credential_handle \<Rightarrow> (u8 \<times> 's) option" where
  "ctap_delete_credential ops st credential =
     do { (status, st1) \<leftarrow> delete_item ops st (cred_item_handle credential);
          Some (if status \<noteq> CTAP_STORAGE_OK then (CTAP1_ERR_OTHER, st1) else (CTAP2_OK, st1)) }"

section \<open>Selecting credentials\<close>

definition ctap_should_add_credential_to_list :: "ctap_credential_handle \<Rightarrow> bool \<Rightarrow> bool \<Rightarrow> bool" where
  "ctap_should_add_credential_to_list credential is_from_allow_list response_has_uv =
     (let cred_protect = ctap_credential_get_cred_protect credential in
      if cred_protect = 3 \<and> \<not> response_has_uv then False
      else if cred_protect = 2 \<and> \<not> is_from_allow_list \<and> \<not> response_has_uv then False
      else True)"

abbreviation (input) CTAP1_ERR_INVALID_LENGTH :: u8 where "CTAP1_ERR_INVALID_LENGTH \<equiv> 0x03"
abbreviation (input) CTAP2_ERR_REQUEST_TOO_LARGE :: u8 where "CTAP2_ERR_REQUEST_TOO_LARGE \<equiv> 0x39"

text \<open>Either the identifier or the hash of the relying party is given (\<open>None\<close> is \<open>NULL\<close>).\<close>

definition ctap_find_discoverable_credentials_by_rp_id :: "'s ctap_storage \<Rightarrow> 's
    \<Rightarrow> CTAP_rpId option \<Rightarrow> bytes option \<Rightarrow> bool \<Rightarrow> nat
    \<Rightarrow> (u8 + ctap_credential_handle list) option" where
  "ctap_find_discoverable_credentials_by_rp_id ops st rp_id rp_id_hash response_has_uv
      max_num_credentials =
     require (rp_id \<noteq> None \<or> rp_id_hash \<noteq> None) (
     map_option (case_sum Inr Inl) (credential_loop ops st (\<lambda>credentials c. do {
       matches \<leftarrow> (case (rp_id, rp_id_hash) of
           (Some rp, _) \<Rightarrow> ctap_credential_matches_rp c rp
         | (None, Some h) \<Rightarrow> Some (ctap_credential_matches_rp_id_hash c h)
         | (None, None) \<Rightarrow> None);
       if \<not> matches then Some (Inl credentials)
       else if \<not> ctap_credential_is_discoverable c then Some (Inl credentials)
       else if \<not> ctap_should_add_credential_to_list c False response_has_uv
       then Some (Inl credentials)
       else if length credentials = max_num_credentials then Some (Inr CTAP1_ERR_INVALID_LENGTH)
       else Some (Inl (credentials @ [c])) }) []))"

definition is_rp_id_in_the_list :: "bytes \<Rightarrow> (bytes \<times> bytes) list \<Rightarrow> bool" where
  "is_rp_id_in_the_list h rps \<longleftrightarrow> list_ex (\<lambda>(i, h1). h1 = h) rps"

definition ctap_enumerate_rp_ids_of_discoverable_credentials :: "'s ctap_storage \<Rightarrow> 's \<Rightarrow> nat
    \<Rightarrow> (u8 + (bytes \<times> bytes) list) option" where
  "ctap_enumerate_rp_ids_of_discoverable_credentials ops st max_num_rp_ids =
     map_option (case_sum Inr Inl) (credential_loop ops st (\<lambda>rps c.
       if \<not> ctap_credential_is_discoverable c then Some (Inl rps)
       else if is_rp_id_in_the_list (ctap_credential_get_rp_id_hash c) rps then Some (Inl rps)
       else if length rps = max_num_rp_ids then Some (Inr CTAP2_ERR_REQUEST_TOO_LARGE)
       else do { rp_id \<leftarrow> ctap_credential_get_rp_id c;
                 Some (Inl (rps @ [(rp_id, ctap_credential_get_rp_id_hash c)])) }) [])"

section \<open>Keys\<close>

definition ctap_credential_compute_public_key :: "'h ctap_crypto \<Rightarrow> nat \<Rightarrow> ctap_credential_handle
    \<Rightarrow> u8 \<times> bytes \<times> nat" where
  "ctap_credential_compute_public_key c rng credential =
     (let (ok, public_key, rng1) =
            ecc_secp256r1_compute_public_key c rng (src_private_key (cred_source credential)) in
      (if ok then CTAP2_OK else CTAP1_ERR_OTHER, public_key, rng1))"

definition ctap_credential_compute_signature :: "'h ctap_crypto \<Rightarrow> nat \<Rightarrow> ctap_credential_handle
    \<Rightarrow> bytes \<Rightarrow> (u8 + bytes) \<times> nat" where
  "ctap_credential_compute_signature c rng credential message_hash =
     (let (sig, rng1) = ecc_secp256r1_sign c rng (src_private_key (cred_source credential))
                          message_hash None in
      (case sig of None \<Rightarrow> Inl CTAP1_ERR_OTHER | Some s \<Rightarrow> Inr s, rng1))"

end
