(* ===== verification/Credential_Contract.thy ===== *)
theory Credential_Contract
  imports Credential_Store Ctap_Boot
begin

text \<open>
  Credentials over the storage contract: what creation stores, and what the loops over the storage
  find.
\<close>

section \<open>The loops visit the live items\<close>

context item_storage
begin

lemma storage_loop_from:
  assumes "rep s (L1 @ x # L2)" and "item_handle it = slot_handle x" and "item_key it = k" and "k \<noteq> 0"
      and "item_size it = length (slot_data x)"
  shows "storage_loop find_op s body it acc = fold_items body (live_items k L2) acc"
  using assms
proof (induction "live_items k L2" arbitrary: L1 x L2 it acc)
  case Nil
  have "find_op s it = Some (CTAP_STORAGE_ITEM_NOT_FOUND, it)"
    using find_next [OF Nil.prems(1,2,5)] first_match_Nil [of it L2] Nil by simp
  then show ?case using Nil.hyps by (simp add: storage_loop.simps [of _ _ _ it])
next
  case (Cons y ys)
  then obtain M1 z M2 where m: "L2 = M1 @ z # M2" "y = slot_item z" "live_items k M2 = ys"
      "first_match it L2 = (CTAP_STORAGE_OK, y)" "live_items k M1 = []"
    using first_match_Cons [of it L2 y ys] by auto
  have f: "find_op s it = Some (CTAP_STORAGE_OK, y)"
    using find_next [OF Cons.prems(1,2,5)] m(4) by simp
  have "z \<in> set L2" "slot_matches k z"
  proof -
    show "z \<in> set L2" using m(1) by simp
    have "live_items k L2 = live_items k [z] @ ys" using m by (simp add: live_items_append live_items_def)
    then show "slot_matches k z" using Cons.hyps(2) by (auto simp: live_items_def split: if_splits)
  qed
  then have k: "item_key y = k" using m(2) Cons.prems(4) by (simp add: slot_matches_def slot_item_def)
  have r: "rep s ((L1 @ x # M1) @ z # M2)" using Cons.prems(1) m(1) by simp
  have "storage_loop find_op s body y acc1 = fold_items body ys acc1" for acc1
    using Cons.hyps(1) [OF m(3) [symmetric] r _ k Cons.prems(4), of acc1] m(2)
    by (simp add: slot_item_def m(3))
  then have "storage_loop find_op s body y = fold_items body ys" by (rule ext)
  then show ?case
    using f Cons.hyps(2) [symmetric] by (simp add: storage_loop.simps [of _ _ _ it])
qed

lemma storage_loop_items:
  assumes "rep s L" and "k \<noteq> 0"
  shows "storage_loop find_op s body (empty_item k) acc = fold_items body (live_items k L) acc"
proof (cases "live_items k L")
  case Nil
  then have "find_op s (empty_item k) = Some (CTAP_STORAGE_ITEM_NOT_FOUND, empty_item k)"
    using find_first [OF assms(1), of "empty_item k"] first_match_Nil [of "empty_item k" L]
    by (simp add: empty_item_def)
  then show ?thesis using Nil by (simp add: storage_loop.simps [of _ _ _ "empty_item k"])
next
  case (Cons y ys)
  then obtain M1 z M2 where m: "L = M1 @ z # M2" "y = slot_item z" "live_items k M2 = ys"
      "first_match (empty_item k) L = (CTAP_STORAGE_OK, y)" "live_items k M1 = []"
    using first_match_Cons [of "empty_item k" L y ys] by (auto simp: empty_item_def)
  have f: "find_op s (empty_item k) = Some (CTAP_STORAGE_OK, y)"
    using find_first [OF assms(1), of "empty_item k"] m(4) by (simp add: empty_item_def)
  have "live_items k L = live_items k [z] @ ys" using m by (simp add: live_items_append live_items_def)
  then have "slot_matches k z" using Cons by (auto simp: live_items_def split: if_splits)
  then have "item_key y = k" using m(2) assms(2) by (simp add: slot_matches_def slot_item_def)
  then have "storage_loop find_op s body y acc1 = fold_items body ys acc1" for acc1
    using storage_loop_from [of s M1 z M2 y k body acc1] assms m by (simp add: slot_item_def)
  then have "storage_loop find_op s body y = fold_items body ys" by (rule ext)
  then show ?thesis
    using f Cons by (simp add: storage_loop.simps [of _ _ _ "empty_item k"])
qed

end

text \<open>The handles of the credential items of a storage.\<close>

definition item_credential :: "ctap_storage_item \<Rightarrow> ctap_credential_handle" where
  "item_credential it = \<lparr>source = item_data it, cred_item_handle = item_handle it\<rparr>"

definition stored_credentials :: "slot list \<Rightarrow> ctap_credential_handle list" where
  "stored_credentials L = map item_credential
     (filter (\<lambda>it. sizeof_credential_source \<le> item_size it) (live_items CTAP_STORAGE_KEY_CREDENTIAL L))"

fun fold_credentials :: "('a \<Rightarrow> ctap_credential_handle \<Rightarrow> ('a + 'b) option)
    \<Rightarrow> ctap_credential_handle list \<Rightarrow> 'a \<Rightarrow> ('a + 'b) option" where
  "fold_credentials body [] acc = Some (Inl acc)"
| "fold_credentials body (c # cs) acc =
     Option.bind (body acc c) (\<lambda>r. case r of Inl acc1 \<Rightarrow> fold_credentials body cs acc1
                                         | Inr b \<Rightarrow> Some (Inr b))"

lemma fold_items_credentials:
  "fold_items (\<lambda>acc item. if item_size item < sizeof_credential_source then Some (Inl acc)
       else body acc \<lparr>source = item_data item, cred_item_handle = item_handle item\<rparr>) its acc
   = fold_credentials body (map item_credential
       (filter (\<lambda>it. sizeof_credential_source \<le> item_size it) its)) acc"
  by (induction its arbitrary: acc) (auto simp: item_credential_def split: sum.splits bind_splits)

context item_storage
begin

lemma credential_loop_stored:
  assumes "rep s L" and "find_item ops = find_op"
  shows "credential_loop ops s body acc = fold_credentials body (stored_credentials L) acc"
  unfolding credential_loop_def stored_credentials_def fold_items_credentials [symmetric] assms(2)
  by (rule storage_loop_items [OF assms(1)]) simp

end

section \<open>What the searches find\<close>

lemma fold_credentials_find:
  "fold_credentials (\<lambda>_ c. if P c then Some (Inr c) else Some (Inl ())) cs ()
     = Some (case List.find P cs of Some c \<Rightarrow> Inr c | None \<Rightarrow> Inl ())"
  by (induction cs) auto

text \<open>The credentials a request for a relying party without an allow list may use.\<close>

definition applicable :: "CTAP_rpId \<Rightarrow> bool \<Rightarrow> ctap_credential_handle \<Rightarrow> bool" where
  "applicable rp uv c \<longleftrightarrow> ctap_credential_matches_rp c rp = Some True
     \<and> ctap_credential_is_discoverable c \<and> ctap_should_add_credential_to_list c False uv"

definition select_step :: "CTAP_rpId \<Rightarrow> bool \<Rightarrow> nat \<Rightarrow> ctap_credential_handle list
    \<Rightarrow> ctap_credential_handle \<Rightarrow> (ctap_credential_handle list + u8) option" where
  "select_step rp uv n credentials c = do {
       matches \<leftarrow> ctap_credential_matches_rp c rp;
       if \<not> matches then Some (Inl credentials)
       else if \<not> ctap_credential_is_discoverable c then Some (Inl credentials)
       else if \<not> ctap_should_add_credential_to_list c False uv then Some (Inl credentials)
       else if length credentials = n then Some (Inr CTAP1_ERR_INVALID_LENGTH)
       else Some (Inl (credentials @ [c])) }"

lemma select_step_eq:
  "ctap_credential_matches_rp c rp \<noteq> None \<Longrightarrow>
   select_step rp uv n acc c = Some (if \<not> applicable rp uv c then Inl acc
     else if length acc = n then Inr CTAP1_ERR_INVALID_LENGTH else Inl (acc @ [c]))"
  by (auto simp: select_step_def applicable_def)

lemma fold_credentials_select:
  assumes "\<forall>c\<in>set cs. ctap_credential_matches_rp c rp \<noteq> None" and "length acc \<le> n"
  shows "fold_credentials (select_step rp uv n) cs acc
     = Some (if length acc + length (filter (applicable rp uv) cs) \<le> n
             then Inl (acc @ filter (applicable rp uv) cs) else Inr CTAP1_ERR_INVALID_LENGTH)"
  using assms
proof (induction cs arbitrary: acc)
  case (Cons c cs)
  then show ?case
    using Cons.IH [of acc] Cons.IH [of "acc @ [c]"] select_step_eq [of c rp uv n acc] by auto
qed simp

section \<open>The layout of a stored credential\<close>

lemma unat_u16 [simp]: "n < 65536 \<Longrightarrow> unat (of_nat n :: u16) = n"
  by (simp add: unat_of_nat take_bit_nat_eq_self)

lemma store_string_eq:
  assumes "off + min (length str) m \<le> length buf"
  shows "store_string_at ctap_maybe_truncate_string str buf off m
    = Some (m < length str, take off buf @ take m str @ drop (off + min (length str) m) buf,
        min (length str) m)"
  using assms by (cases "length str \<le> m") (auto simp: store_string_at_def
      ctap_maybe_truncate_string_def memcpy_at_def require_def min_def add.commute)

text \<open>A source whose variable part is the concatenation of the four strings.\<close>

definition laid_out :: "ctap_credential_source \<Rightarrow> bytes \<Rightarrow> bytes \<Rightarrow> bytes \<Rightarrow> bytes
    \<Rightarrow> ctap_credential_source" where
  "laid_out src rp i n d = src\<lparr>
     user_id_offset := of_nat (length rp), user_name_offset := of_nat (length (rp @ i)),
     user_display_name_offset := of_nat (length (rp @ i @ n)),
     variable_data_end_offset := of_nat (length (rp @ i @ n @ d)),
     variable_data := rp @ i @ n @ d\<rparr>"

definition name_flags :: "bool \<Rightarrow> bytes \<Rightarrow> bool \<Rightarrow> bytes \<Rightarrow> u32" where
  "name_flags with_name n with_display d =
     (if with_name then (if 64 < length n then flags_truncated_user_name else 0)
        OR flags_present_user_name else 0)
     OR (if with_display then (if 64 < length d then flags_truncated_user_display_name else 0)
        OR flags_present_user_display_name else 0)"

lemma store_user_eq:
  assumes "length (variable_data src) = 447" and "user_id_offset src = of_nat (length rp)"
      and "length rp \<le> 255" and "take (length rp) (variable_data src) = rp"
      and "length (user_id user) \<le> 64"
      and n_def: "n = (if wn then take 64 (user_name user) else [])"
      and d_def: "d = (if wd then take 64 (user_displayName user) else [])"
  shows "\<exists>rest. store_user user wn wd src
    = Some ((laid_out (src\<lparr>src_flags := src_flags src
          OR name_flags wn (user_name user) wd (user_displayName user)\<rparr>) rp (user_id user) n d)
        \<lparr>variable_data := rp @ user_id user @ n @ d @ rest\<rparr>)"
proof -
  let ?i = "user_id user" and ?o1 = "length rp"
  have ln: "length n \<le> 64" "length d \<le> 64" by (simp_all add: n_def d_def)
  define r1 where "r1 = drop (?o1 + length ?i) (variable_data src)"
  have i: "store_string_at ctap_maybe_truncate_string ?i (variable_data src) ?o1 64
      = Some (False, rp @ ?i @ r1, length ?i)"
    using store_string_eq [of ?o1 ?i 64 "variable_data src"] assms by (simp add: min_def r1_def)
  have l1: "?o1 + length ?i + length r1 = 447" using assms by (simp add: r1_def)
  define r2 where "r2 = drop (length n) r1"
  have n: "store_string_at ctap_maybe_truncate_string (user_name user) (rp @ ?i @ r1)
      (?o1 + length ?i) 64 = Some (64 < length (user_name user), rp @ ?i @ n @ r2, length n)" if wn
    using store_string_eq [of "?o1 + length ?i" "user_name user" 64 "rp @ ?i @ r1"] l1 assms(3,5) that
    by (simp add: n_def r2_def min_def)
  have l2: "?o1 + length ?i + length n + length r2 = 447"
    using l1 ln assms(3,5) by (simp add: r2_def)
  have r2: "r2 = r1" "n = []" if "\<not> wn" using that by (simp_all add: r2_def n_def)
  have d: "store_string_at ctap_maybe_truncate_string (user_displayName user) (rp @ ?i @ n @ r2)
      (?o1 + length ?i + length n) 64 = Some (64 < length (user_displayName user),
        rp @ ?i @ n @ d @ drop (length d) r2, length d)" if wd
    using store_string_eq [of "?o1 + length ?i + length n" "user_displayName user" 64
        "rp @ ?i @ n @ r2"] l2 ln assms(3,5) that
    by (simp add: d_def min_def)
  have de: "d = []" if "\<not> wd" using that by (simp add: d_def)
  have small: "?o1 + length ?i + length n < 65536" using assms(3,5) ln by simp
  show ?thesis
  proof (cases wn; cases wd)
    assume "wn" "wd"
    then show ?thesis using assms(2,3,5) i n d small ln
      by (cases src) (simp add: store_user_def laid_out_def name_flags_def or.assoc add.assoc
          Let_def del: of_nat_add)
  next
    assume "wn" "\<not> wd"
    then show ?thesis using assms(2,3,5) i n small ln de
      by (cases src) (simp add: store_user_def laid_out_def name_flags_def or.assoc add.assoc
          Let_def del: of_nat_add)
  next
    assume "\<not> wn" "wd"
    then show ?thesis using assms(2,3,5) i d r2 small ln
      by (cases src) (simp add: store_user_def laid_out_def name_flags_def or.assoc add.assoc
          Let_def del: of_nat_add)
  next
    assume "\<not> wn" "\<not> wd"
    then show ?thesis using assms(2,3,5) i r2 de small ln
      by (cases src) (simp add: store_user_def laid_out_def name_flags_def or.assoc add.assoc
          Let_def del: of_nat_add)
  qed
qed

text \<open>
  A stored credential is well-formed when it is such a source with parts within their bounds, and
  an identifier that was not truncated belongs to the hash next to it.
\<close>

definition wf_credential :: "(bytes \<Rightarrow> bytes) \<Rightarrow> ctap_credential_handle \<Rightarrow> bool" where
  "wf_credential H c \<longleftrightarrow> (\<exists>src rp i n d. source c = credential_source_bytes (laid_out src rp i n d)
     \<and> source_arrays src \<and> length rp \<le> 255 \<and> length i \<le> 64 \<and> length n \<le> 64 \<and> length d \<le> 64
     \<and> (src_flags src AND flags_truncated_rp_id = 0 \<longrightarrow> src_rp_id_hash src = H rp))"

lemma laid_out_arrays [simp]: "source_arrays (laid_out src rp i n d) = source_arrays src"
  by (simp add: laid_out_def source_arrays_def)

lemma variable_data_laid_out [simp]: "variable_data (laid_out src rp i n d) = rp @ i @ n @ d"
  by (simp add: laid_out_def)

lemma source_string_part:
  assumes "variable_data src = a @ s @ b" and "length a + length s < 65536"
  shows "source_string src (of_nat (length a)) (of_nat (length a + length s)) = Some s"
  using assms by (simp add: source_string_def require_def del: of_nat_add)

lemma source_string_laid_out:
  assumes "length rp \<le> 255" and "length i \<le> 64" and "length n \<le> 64" and "length d \<le> 64"
  shows "source_string (laid_out src rp i n d) 0 (user_id_offset (laid_out src rp i n d)) = Some rp"
    and "source_string (laid_out src rp i n d) (user_id_offset (laid_out src rp i n d))
        (user_name_offset (laid_out src rp i n d)) = Some i"
    and "source_string (laid_out src rp i n d) (user_name_offset (laid_out src rp i n d))
        (user_display_name_offset (laid_out src rp i n d)) = Some n"
    and "source_string (laid_out src rp i n d) (user_display_name_offset (laid_out src rp i n d))
        (variable_data_end_offset (laid_out src rp i n d)) = Some d"
  using assms source_string_part [of "laid_out src rp i n d" "[]" rp "i @ n @ d"]
    source_string_part [of "laid_out src rp i n d" rp i "n @ d"]
    source_string_part [of "laid_out src rp i n d" "rp @ i" n d]
    source_string_part [of "laid_out src rp i n d" "rp @ i @ n" d "[]"]
  by (simp_all add: laid_out_def add.assoc del: of_nat_add)

text \<open>The accessors on such a credential.\<close>

lemma laid_out_access:
  assumes "source c = credential_source_bytes (laid_out src rp i n d)" and "source_arrays src"
      and "length rp \<le> 255" and "length i \<le> 64" and "length n \<le> 64" and "length d \<le> 64"
  shows "cred_source c = laid_out src rp i n d"
    and "ctap_credential_get_rp_id c = Some rp" and "ctap_credential_get_user_id c = Some i"
    and "src_flags (cred_source c) = src_flags src"
    and "src_rp_id_hash (cred_source c) = src_rp_id_hash src"
proof -
  show c: "cred_source c = laid_out src rp i n d"
    using assms(1,2) by (simp add: cred_source_def)
  show "ctap_credential_get_rp_id c = Some rp" "ctap_credential_get_user_id c = Some i"
    using c source_string_laid_out [OF assms(3-6), of src]
    by (simp_all add: ctap_credential_get_rp_id_def ctap_credential_get_user_id_def)
  show "src_flags (cred_source c) = src_flags src"
       "src_rp_id_hash (cred_source c) = src_rp_id_hash src"
    by (simp_all add: c laid_out_def)
qed

lemma wf_credential_defined:
  assumes "wf_credential H c" and "rp_id_hash_value rp = H (rp_id_id rp)"
  shows "ctap_credential_matches_rp c rp \<noteq> None" and "ctap_credential_get_rp_id c \<noteq> None"
    and "ctap_credential_get_user_id c \<noteq> None"
proof -
  obtain src r i n d where w: "source c = credential_source_bytes (laid_out src r i n d)"
      "source_arrays src" "length r \<le> 255" "length i \<le> 64" "length n \<le> 64" "length d \<le> 64"
      "src_flags src AND flags_truncated_rp_id = 0 \<longrightarrow> src_rp_id_hash src = H r"
    using assms(1) unfolding wf_credential_def by blast
  note a = laid_out_access [OF w(1-6)]
  show "ctap_credential_matches_rp c rp \<noteq> None" "ctap_credential_get_rp_id c \<noteq> None"
      "ctap_credential_get_user_id c \<noteq> None"
    using a w(7) assms(2)
    by (auto simp: ctap_credential_matches_rp_def ctap_string_matches_def
        ctap_credential_matches_rp_id_hash_def require_def)
qed

end
