(* ===== verification/Credential_Creation.thy ===== *)
theory Credential_Creation
  imports Credential_Contract
begin

text \<open>
  What creating and updating a credential store: the new credential is the last one of the
  iteration, and the one it replaces is gone.
\<close>

section \<open>The stored item\<close>

lemma stored_bytes:
  assumes "source_arrays src"
  shows "take (sizeof_credential_source + length (rp @ i @ n @ d))
      (credential_source_bytes ((laid_out src rp i n d)\<lparr>variable_data := rp @ i @ n @ d @ rest\<rparr>))
    = credential_source_bytes (laid_out src rp i n d)"
  using assms by (simp add: credential_source_bytes_def laid_out_def source_arrays_def
      take_Cons' del: of_nat_add)

text \<open>Of a list, everything but the first element with a property.\<close>

definition without_first :: "('a \<Rightarrow> bool) \<Rightarrow> 'a list \<Rightarrow> 'a list" where
  "without_first P xs = takeWhile (\<lambda>x. \<not> P x) xs @ tl (dropWhile (\<lambda>x. \<not> P x) xs)"

lemma without_first_none: "\<forall>x\<in>set xs. \<not> P x \<Longrightarrow> without_first P xs = xs"
  by (induction xs) (auto simp: without_first_def)

lemma without_first_split: "\<forall>x\<in>set xs. \<not> P x \<Longrightarrow> P y \<Longrightarrow> without_first P (xs @ y # ys) = xs @ ys"
  by (induction xs) (auto simp: without_first_def)

text \<open>The slot of the first stored credential with a property.\<close>

lemma stored_append: "stored_credentials (L1 @ L2) = stored_credentials L1 @ stored_credentials L2"
  by (simp add: stored_credentials_def live_items_append)

lemma stored_kill: "stored_credentials (kill x # L) = stored_credentials L"
  by (simp add: stored_credentials_def live_items_kill)

lemma stored_Cons: "stored_credentials (x # L)
  = (if slot_live x \<and> slot_key x = CTAP_STORAGE_KEY_CREDENTIAL \<and> 172 \<le> length (slot_data x)
     then item_credential (slot_item x) # stored_credentials L else stored_credentials L)"
  by (simp add: stored_credentials_def live_items_def slot_matches_def slot_item_def)

lemma stored_Nil [simp]: "stored_credentials [] = []"
  by (simp add: stored_credentials_def live_items_def)

lemma find_stored:
  assumes "List.find P (stored_credentials L) = Some c"
  shows "\<exists>L1 x L2. L = L1 @ x # L2 \<and> slot_live x \<and> slot_handle x = cred_item_handle c
    \<and> slot_key x = CTAP_STORAGE_KEY_CREDENTIAL
    \<and> stored_credentials (L1 @ kill x # L2) = without_first P (stored_credentials L)"
  using assms
proof (induction L)
  case (Cons x L)
  define stored where "stored \<longleftrightarrow> slot_live x \<and> slot_key x = CTAP_STORAGE_KEY_CREDENTIAL
      \<and> 172 \<le> length (slot_data x)"
  show ?case
  proof (cases "stored \<and> P (item_credential (slot_item x))")
    case True
    then have "c = item_credential (slot_item x)"
      using Cons.prems by (simp add: stored_Cons stored_def)
    then show ?thesis
      using True by (intro exI [of _ "[]"] exI [of _ x] exI [of _ L])
        (simp add: stored_def stored_Cons kill_def without_first_def item_credential_def slot_item_def)
  next
    case False
    then have "List.find P (stored_credentials L) = Some c"
      using Cons.prems by (auto simp: stored_Cons stored_def split: if_splits)
    from Cons.IH [OF this] obtain L1 y L2 where l: "L = L1 @ y # L2" "slot_live y"
        "slot_handle y = cred_item_handle c" "slot_key y = CTAP_STORAGE_KEY_CREDENTIAL"
        "stored_credentials (L1 @ kill y # L2) = without_first P (stored_credentials L)"
      by blast
    have "stored_credentials (x # L1 @ kill y # L2) = without_first P (stored_credentials (x # L))"
      using False l(5) by (auto simp: stored_Cons stored_def without_first_def)
    then show ?thesis
      using l by (intro exI [of _ "x # L1"] exI [of _ y] exI [of _ L2]) simp
  qed
qed simp

lemma find_none_without: "List.find P xs = None \<Longrightarrow> without_first P xs = xs"
  by (rule without_first_none) (auto simp: find_None_iff)

section \<open>Writing the item\<close>

context item_storage
begin

text \<open>
  \<open>h\<close> is 0 or the handle of a live item \<open>x\<close>; the new item is the last one, and \<open>x\<close> is deleted.
\<close>

lemma store_credential_ok:
  assumes "rep s L" and "create_or_update_item ops = create_or_update"
      and "source_arrays src" and "length rp \<le> 255" and "length i \<le> 64" and "length n \<le> 64" and "length d \<le> 64"
      and "\<forall>k \<le> 619. fits s k"
      and old: "h = 0 \<and> L' = L \<or> (\<exists>L1 x L2. L = L1 @ x # L2 \<and> slot_live x \<and> slot_handle x = h
          \<and> L' = L1 @ kill x # L2)"
  shows "\<exists>c s' x. store_credential ops s h
        ((laid_out src rp i n d)\<lparr>variable_data := rp @ i @ n @ d @ rest\<rparr>) = Some (CTAP2_OK, Some c, s')
     \<and> source c = credential_source_bytes (laid_out src rp i n d)
     \<and> rep s' (L' @ [x]) \<and> slot_handle x = cred_item_handle c
     \<and> slot_key x = CTAP_STORAGE_KEY_CREDENTIAL \<and> slot_live x \<and> slot_data x = source c"
proof -
  let ?b = "credential_source_bytes (laid_out src rp i n d)"
  let ?it = "\<lparr>item_handle = h, item_key = CTAP_STORAGE_KEY_CREDENTIAL, item_size = length ?b,
      item_data = ?b\<rparr>"
  have len: "length ?b = sizeof_credential_source + length (rp @ i @ n @ d)"
    using length_credential_source_bytes [of "laid_out src rp i n d"] assms(3) by simp
  have small: "length (rp @ i @ n @ d) \<le> 447" using assms(4-7) by simp
  have fit: "fits s (item_size ?it)" using assms(8) len small by simp
  obtain s' h' where u: "create_or_update s ?it = Some (CTAP_STORAGE_OK, ?it\<lparr>item_handle := h'\<rparr>, s')"
      "rep s' (L' @ [\<lparr>slot_handle = h', slot_key = CTAP_STORAGE_KEY_CREDENTIAL, slot_live = True,
                      slot_data = ?b\<rparr>])"
    using old
  proof (elim disjE conjE exE)
    assume "h = 0" "L' = L"
    then show ?thesis using create [OF assms(1), of ?it] fit that by auto
  next
    fix L1 x L2 assume x: "L = L1 @ x # L2" "slot_live x" "slot_handle x = h" "L' = L1 @ kill x # L2"
    then show ?thesis using update [of s L1 x L2 ?it] assms(1) fit that by auto
  qed
  have "unat (variable_data_end_offset (laid_out src rp i n d)) = length (rp @ i @ n @ d)"
    using small unfolding laid_out_def by (simp del: of_nat_add length_append)
  then have "store_credential ops s h
        ((laid_out src rp i n d)\<lparr>variable_data := rp @ i @ n @ d @ rest\<rparr>)
      = Some (CTAP2_OK, Some \<lparr>source = ?b, cred_item_handle = h'\<rparr>, s')"
    using u(1) len small stored_bytes [OF assms(3), of rp i n d rest]
    by (simp add: store_credential_def assms(2) require_def Let_def del: length_append)
  then show ?thesis using u(2) by (intro exI conjI) auto
qed

end

section \<open>What a new credential holds\<close>

text \<open>The user of a stored credential: names longer than 64 bytes are cut.\<close>

definition stored_user :: "bool \<Rightarrow> bool \<Rightarrow> CTAP_userEntity \<Rightarrow> CTAP_userEntity" where
  "stored_user wn wd user =
     (let f1 = ctap_param_to_mask CTAP_userEntity_id;
          f2 = (if wn then ctap_set_present CTAP_userEntity_name f1 else f1);
          f3 = (if wd then ctap_set_present CTAP_userEntity_displayName f2 else f2) in
      \<lparr>user_fields = f3, user_id = user_id user,
       user_name = (if wn then take 64 (user_name user) else []),
       user_displayName = (if wd then take 64 (user_displayName user) else [])\<rparr>)"

definition stored_rp_id :: "bytes \<Rightarrow> bytes" where
  "stored_rp_id i = (if length i \<le> 255 then i else truncated_rp_id 255 i)"

abbreviation (input) has_field :: "CTAP_userEntity \<Rightarrow> nat \<Rightarrow> bool" where
  "has_field user n \<equiv> ctap_is_present (user_fields user) (ctap_param_to_mask n)"

definition holds_user :: "ctap_credential_handle \<Rightarrow> bytes \<Rightarrow> CTAP_userEntity \<Rightarrow> bool \<Rightarrow> bool \<Rightarrow> bool" where
  "holds_user c rp user wn wd \<longleftrightarrow> ctap_credential_get_rp_id c = Some rp
     \<and> ctap_credential_get_user_id c = Some (user_id user)
     \<and> ctap_credential_get_user c = Some (stored_user wn wd user)"

text \<open>The account a credential belongs to.\<close>

definition of_account :: "CTAP_rpId \<Rightarrow> bytes \<Rightarrow> ctap_credential_handle \<Rightarrow> bool" where
  "of_account rp uid c \<longleftrightarrow> ctap_credential_matches_rp c rp = Some True
     \<and> ctap_credential_get_user_id c = Some uid"

lemma name_flags_bits:
  fixes p :: u8 and a b :: bool
  assumes "p \<le> 3"
      and f: "f = (ucast p OR (if a then 4 else 0) OR (if b then 32 else 0))
        OR name_flags wn n wd d"
  shows "f AND 3 = ucast p" and "f AND 4 \<noteq> 0 \<longleftrightarrow> a" and "f AND 32 \<noteq> 0 \<longleftrightarrow> b"
    and "f AND 8 \<noteq> 0 \<longleftrightarrow> wn" and "f AND 16 \<noteq> 0 \<longleftrightarrow> wd"
proof -
  have "unat p \<le> 3" using assms(1) by (simp add: word_le_nat_alt)
  then have "unat p = unat (0 :: u8) \<or> unat p = unat (1 :: u8) \<or> unat p = unat (2 :: u8)
      \<or> unat p = unat (3 :: u8)"
    by simp linarith
  then have p: "p = 0 \<or> p = 1 \<or> p = 2 \<or> p = 3" by (simp only: word_unat_eq_iff [symmetric])
  show "f AND 3 = ucast p" "f AND 4 \<noteq> 0 \<longleftrightarrow> a" "f AND 32 \<noteq> 0 \<longleftrightarrow> b"
    "f AND 8 \<noteq> 0 \<longleftrightarrow> wn" "f AND 16 \<noteq> 0 \<longleftrightarrow> wd"
    using p unfolding f name_flags_def by (cases a; cases b; cases wn; cases wd; auto)+
qed

lemma laid_out_holds_user:
  assumes "source c = credential_source_bytes (laid_out src rp (user_id user) n d)" and "source_arrays src"
      and "length rp \<le> 255" and "length (user_id user) \<le> 64"
      and "n = (if wn then take 64 (user_name user) else [])"
      and "d = (if wd then take 64 (user_displayName user) else [])"
      and "src_flags src AND 8 \<noteq> 0 \<longleftrightarrow> wn" and "src_flags src AND 16 \<noteq> 0 \<longleftrightarrow> wd"
  shows "holds_user c rp user wn wd"
proof -
  have l: "length n \<le> 64" "length d \<le> 64" using assms(5,6) by auto
  note a = laid_out_access [OF assms(1-4) l]
  note s = source_string_laid_out [OF assms(3,4) l, of src]
  show ?thesis
    using a s assms(5-8)
    by (auto simp: holds_user_def ctap_credential_get_user_def stored_user_def Let_def
        zero_CTAP_userEntity_def)
qed

section \<open>Creation\<close>

lemma fold_credentials_first:
  assumes "\<forall>c\<in>set cs. body () c = Some (if P c then Inr (f c) else Inl ())"
  shows "fold_credentials body cs () = Some (case List.find P cs of Some c \<Rightarrow> Inr (f c) | None \<Rightarrow> Inl ())"
  using assms by (induction cs) auto

lemma truncate_rp_id_length:
  "ctap_maybe_truncate_rp_id s buf n = Some (t, buf', k) \<Longrightarrow> length buf' = length buf"
  by (auto simp: ctap_maybe_truncate_rp_id_def require_def Let_def dest!: memcpy_at_length
      split: if_splits bind_splits option.splits)

lemma store_rp_id:
  assumes "length buf = 447"
  shows "\<exists>buf1. store_string_at ctap_maybe_truncate_rp_id i buf 0 255
      = Some (255 < length i, buf1, length (stored_rp_id i))
    \<and> take (length (stored_rp_id i)) buf1 = stored_rp_id i \<and> length (stored_rp_id i) \<le> 255
    \<and> length buf1 = 447"
proof (cases "length i \<le> 255")
  case True
  then show ?thesis
    using assms by (simp add: store_string_at_def require_def ctap_maybe_truncate_rp_id_def
        stored_rp_id_def memcpy_at_def)
next
  case False
  then show ?thesis
    using truncate_rp_id_long [of 255 buf i] truncate_rp_id_length [of i buf 255] assms
    by (auto simp: store_string_at_def require_def stored_rp_id_def)
qed

context item_storage
begin

lemma find_credential_item:
  assumes "rep s L" and "find_item ops = find_op" and "\<forall>c\<in>set (stored_credentials L). wf_credential H c"
      and "rp_id_hash_value rp = H (rp_id_id rp)"
  shows "ctap_find_credential_item_by_rp_id_and_user_id ops s rp uid
    = Some (case List.find (of_account rp uid) (stored_credentials L) of
              Some c \<Rightarrow> cred_item_handle c | None \<Rightarrow> 0)"
proof -
  have "\<forall>c\<in>set (stored_credentials L). ctap_credential_matches_rp c rp \<noteq> None
      \<and> ctap_credential_get_user_id c \<noteq> None"
    using wf_credential_defined assms(3,4) by blast
  then show ?thesis
    unfolding ctap_find_credential_item_by_rp_id_and_user_id_def
    by (subst credential_loop_stored [OF assms(1,2)],
        subst fold_credentials_first [of _ _ "of_account rp uid" cred_item_handle])
      (auto simp: of_account_def ctap_string_matches_def split: option.splits)
qed

end

text \<open>What a created credential is, in terms of the request and the random fields.\<close>

definition created :: "(bytes \<Rightarrow> bytes) \<Rightarrow> ctap_credential_handle \<Rightarrow> bool \<Rightarrow> u8 \<Rightarrow> CTAP_rpId
    \<Rightarrow> CTAP_userEntity \<Rightarrow> bytes \<times> bytes \<times> bytes \<times> bytes \<Rightarrow> bool" where
  "created H c discoverable cred_protect rp user secrets \<longleftrightarrow> wf_credential H c
     \<and> ctap_credential_is_discoverable c = discoverable
     \<and> ctap_credential_get_cred_protect c = cred_protect
     \<and> ctap_credential_get_rp_id_hash c = rp_id_hash_value rp
     \<and> ctap_credential_matches_rp c rp = Some True
     \<and> holds_user c (stored_rp_id (rp_id_id rp)) user (has_field user CTAP_userEntity_name)
         (has_field user CTAP_userEntity_displayName)
     \<and> secrets = (ctap_credential_get_id c, src_private_key (cred_source c),
         ctap_credential_get_cred_random c True, ctap_credential_get_cred_random c False)"

lemma laid_out_created:
  assumes src: "source c = credential_source_bytes (laid_out (src\<lparr>src_flags := f OR
        name_flags (has_field user CTAP_userEntity_name) (user_name user)
          (has_field user CTAP_userEntity_displayName) (user_displayName user)\<rparr>)
      (stored_rp_id (rp_id_id rp)) (user_id user)
      (if has_field user CTAP_userEntity_name then take 64 (user_name user) else [])
      (if has_field user CTAP_userEntity_displayName then take 64 (user_displayName user) else []))"
    and arrays: "source_arrays src" and "length (user_id user) \<le> 64"
    and f: "f = ucast cred_protect OR (if discoverable then flags_discoverable else 0)
        OR (if 255 < length (rp_id_id rp) then flags_truncated_rp_id else 0)"
    and "cred_protect \<le> 3" and "rp_id_hash_value rp = H (rp_id_id rp)"
    and "src_rp_id_hash src = rp_id_hash_value rp"
  shows "created H c discoverable cred_protect rp user (src_id src, src_private_key src,
      cred_random_with_uv src, cred_random_without_uv src)"
proof -
  let ?n = "if has_field user CTAP_userEntity_name then take 64 (user_name user) else []"
  let ?d = "if has_field user CTAP_userEntity_displayName then take 64 (user_displayName user) else []"
  let ?rp = "stored_rp_id (rp_id_id rp)"
  let ?flags = "f OR name_flags (has_field user CTAP_userEntity_name) (user_name user)
      (has_field user CTAP_userEntity_displayName) (user_displayName user)"
  let ?src = "src\<lparr>src_flags := ?flags\<rparr>"
  have b: "?flags AND 3 = ucast cred_protect" "?flags AND 4 \<noteq> 0 \<longleftrightarrow> discoverable"
      "?flags AND 32 \<noteq> 0 \<longleftrightarrow> 255 < length (rp_id_id rp)"
      "?flags AND 8 \<noteq> 0 \<longleftrightarrow> has_field user CTAP_userEntity_name"
      "?flags AND 16 \<noteq> 0 \<longleftrightarrow> has_field user CTAP_userEntity_displayName"
    using name_flags_bits [OF assms(5), of ?flags] f by simp_all
  have arr: "source_arrays ?src" using arrays by (simp add: source_arrays_def)
  have l: "length ?rp \<le> 255" "length ?n \<le> 64" "length ?d \<le> 64"
    using store_rp_id [of "zeros 447" "rp_id_id rp"] by auto
  note a = laid_out_access [OF src arr l(1) assms(3) l(2,3)]
  have fl: "src_flags (cred_source c) = ?flags" using a(4) by simp
  have hash: "ctap_credential_matches_rp_id_hash c (rp_id_hash_value rp)"
    using a(5) assms(7) by (simp add: ctap_credential_matches_rp_id_hash_def)
  have m: "ctap_credential_matches_rp c rp = Some True"
    using hash fl b(3) a(2)
    by (auto simp: ctap_credential_matches_rp_def stored_rp_id_def ctap_string_matches_def
        require_def)
  have "src_rp_id_hash ?src = H ?rp" if "src_flags ?src AND flags_truncated_rp_id = 0"
    using that b(3) assms(6,7) by (simp add: stored_rp_id_def)
  then have wf: "wf_credential H c"
    unfolding wf_credential_def using src arr l assms(3) by blast
  have u: "holds_user c ?rp user (has_field user CTAP_userEntity_name)
      (has_field user CTAP_userEntity_displayName)"
    by (rule laid_out_holds_user [OF src arr l(1) assms(3) refl refl]) (use b(4,5) in simp_all)
  have p: "ctap_credential_get_cred_protect c = cred_protect"
    using fl b(1) by (simp add: ctap_credential_get_cred_protect_def ucast_up_ucast_id is_up)
  have "src_id (cred_source c) = src_id src" "src_private_key (cred_source c) = src_private_key src"
      "cred_random_with_uv (cred_source c) = cred_random_with_uv src"
      "cred_random_without_uv (cred_source c) = cred_random_without_uv src"
    unfolding a(1) laid_out_def by simp_all
  then show ?thesis
    using wf m u p fl b(2) a(5) assms(7)
    by (simp add: created_def ctap_credential_is_discoverable_def ctap_credential_get_rp_id_hash_def
        ctap_credential_get_id_def ctap_credential_get_cred_random_def)
qed

text \<open>The slot that is replaced, when there is one.\<close>

lemma replaced_slot:
  assumes "h = (if discoverable then case List.find P (stored_credentials L) of
        Some c \<Rightarrow> cred_item_handle c | None \<Rightarrow> 0 else 0)"
  shows "\<exists>L1. (h = 0 \<and> L1 = L \<or> (\<exists>La x Lb. L = La @ x # Lb \<and> slot_live x \<and> slot_handle x = h
        \<and> L1 = La @ kill x # Lb))
      \<and> stored_credentials L1
          = (if discoverable then without_first P (stored_credentials L) else stored_credentials L)
      \<and> (\<forall>key. key \<noteq> 0 \<longrightarrow> key \<noteq> CTAP_STORAGE_KEY_CREDENTIAL
          \<longrightarrow> live_items key L1 = live_items key L)"
proof (cases "discoverable \<and> List.find P (stored_credentials L) \<noteq> None")
  case True
  then obtain c where c: "List.find P (stored_credentials L) = Some c" by blast
  from find_stored [OF this] obtain La x Lb where x: "L = La @ x # Lb" "slot_live x"
      "slot_handle x = cred_item_handle c" "slot_key x = CTAP_STORAGE_KEY_CREDENTIAL"
      "stored_credentials (La @ kill x # Lb) = without_first P (stored_credentials L)"
    by blast
  have "live_items key (La @ kill x # Lb) = live_items key L"
    if "key \<noteq> 0" "key \<noteq> CTAP_STORAGE_KEY_CREDENTIAL" for key
    using x(1,4) that by (simp add: live_items_def slot_matches_def kill_def)
  moreover have "h = slot_handle x" using assms c x(3) True by simp
  ultimately show ?thesis using x True by (intro exI [of _ "La @ kill x # Lb"]) auto
next
  case False
  then have "h = 0" using assms by auto
  moreover have "without_first P (stored_credentials L) = stored_credentials L" if discoverable
    using False that find_none_without [of P "stored_credentials L"] by simp
  ultimately show ?thesis by (intro exI [of _ L]) simp
qed

context item_storage
begin

text \<open>
  Creation on a storage with room: the credential is appended; a discoverable one replaces the
  first credential of the account.
\<close>

lemma create_credential_ok:
  assumes "rep s L" and "find_item ops = find_op" and "create_or_update_item ops = create_or_update"
      and "\<forall>c\<in>set (stored_credentials L). wf_credential H c"
      and hash: "rp_id_hash_value rp = H (rp_id_id rp)" and "length (rp_id_hash_value rp) = 32"
      and "\<forall>k \<le> 619. fits s k" and buf: "length buf = 447"
      and user: "has_field user CTAP_userEntity_id" "length (user_id user) \<le> 64"
      and cp: "cred_protect \<le> 3"
      and draw: "draw_credential_secrets crypto r = (Some (i, k, w, wo), r')"
      and secrets: "length i = 32" "length k = 32" "length w = 32" "length wo = 32"
  shows "\<exists>c s' L'. ctap_create_credential ops crypto buf s r discoverable cred_protect rp user
        = Some (CTAP2_OK, Some c, s', r')
     \<and> rep s' L' \<and> created H c discoverable cred_protect rp user (i, k, w, wo)
     \<and> stored_credentials L' = (if discoverable
           then without_first (of_account rp (user_id user)) (stored_credentials L)
           else stored_credentials L) @ [c]
     \<and> (\<forall>key. key \<noteq> 0 \<longrightarrow> key \<noteq> CTAP_STORAGE_KEY_CREDENTIAL \<longrightarrow> live_items key L' = live_items key L)"
proof -
  let ?rp = "stored_rp_id (rp_id_id rp)"
  let ?n = "if has_field user CTAP_userEntity_name then take 64 (user_name user) else []"
  let ?d = "if has_field user CTAP_userEntity_displayName then take 64 (user_displayName user) else []"
  obtain buf1 where b: "store_string_at ctap_maybe_truncate_rp_id (rp_id_id rp) buf 0 255
        = Some (255 < length (rp_id_id rp), buf1, length ?rp)"
      "take (length ?rp) buf1 = ?rp" "length ?rp \<le> 255" "length buf1 = 447"
    using store_rp_id [OF buf] by blast
  define f where "f = (ucast cred_protect :: u32) OR (if discoverable then flags_discoverable else 0)
      OR (if 255 < length (rp_id_id rp) then flags_truncated_rp_id else 0)"
  define src where "src = \<lparr>src_flags = f, src_id = i, src_rp_id_hash = rp_id_hash_value rp,
      src_private_key = k, cred_random_with_uv = w, cred_random_without_uv = wo,
      user_id_offset = of_nat (length ?rp), user_name_offset = 0,
      user_display_name_offset = 0, variable_data_end_offset = 0, variable_data = buf1\<rparr>"
  let ?src = "src\<lparr>src_flags := f OR name_flags (has_field user CTAP_userEntity_name) (user_name user)
      (has_field user CTAP_userEntity_displayName) (user_displayName user)\<rparr>"
  have arr: "source_arrays src" "source_arrays ?src"
    using secrets assms(6) by (simp_all add: src_def source_arrays_def)
  obtain rest where u: "store_user user (has_field user CTAP_userEntity_name)
      (has_field user CTAP_userEntity_displayName) src
    = Some ((laid_out ?src ?rp (user_id user) ?n ?d)\<lparr>variable_data := ?rp @ user_id user @ ?n @ ?d @ rest\<rparr>)"
    using store_user_eq [of src ?rp user ?n "has_field user CTAP_userEntity_name" ?d
        "has_field user CTAP_userEntity_displayName"] b user(2) by (auto simp: src_def)
  define h where "h = (if discoverable then case List.find (of_account rp (user_id user))
      (stored_credentials L) of Some c \<Rightarrow> cred_item_handle c | None \<Rightarrow> 0 else 0)"
  have h: "(if discoverable then ctap_find_credential_item_by_rp_id_and_user_id ops s rp (user_id user)
      else Some 0) = Some h"
    using find_credential_item [OF assms(1,2,4) hash] by (simp add: h_def)
  obtain L1 where L1: "h = 0 \<and> L1 = L \<or> (\<exists>La x Lb. L = La @ x # Lb \<and> slot_live x \<and> slot_handle x = h
        \<and> L1 = La @ kill x # Lb)"
      "stored_credentials L1 = (if discoverable
         then without_first (of_account rp (user_id user)) (stored_credentials L)
         else stored_credentials L)"
      "\<forall>key. key \<noteq> 0 \<longrightarrow> key \<noteq> CTAP_STORAGE_KEY_CREDENTIAL \<longrightarrow> live_items key L1 = live_items key L"
    using replaced_slot [OF h_def] by (elim exE conjE) (rule that)
  have lnd: "length ?n \<le> 64" "length ?d \<le> 64" by simp_all
  obtain c s' x where w: "store_credential ops s h ((laid_out ?src ?rp (user_id user) ?n ?d)
        \<lparr>variable_data := ?rp @ user_id user @ ?n @ ?d @ rest\<rparr>) = Some (CTAP2_OK, Some c, s')"
     "source c = credential_source_bytes (laid_out ?src ?rp (user_id user) ?n ?d)"
     "rep s' (L1 @ [x])" "slot_handle x = cred_item_handle c"
     "slot_key x = CTAP_STORAGE_KEY_CREDENTIAL" "slot_live x" "slot_data x = source c"
    using store_credential_ok [OF assms(1,3) arr(2) b(3) user(2) lnd assms(7) L1(1), of rest]
    by (elim exE conjE) (rule that)
  have cr: "created H c discoverable cred_protect rp user (i, k, w, wo)"
    using laid_out_created [where H = H, OF w(2) arr(1) user(2) f_def cp hash] by (simp add: src_def)
  have st: "stored_credentials (L1 @ [x]) = stored_credentials L1 @ [c]"
    using w(2,4-7) arr(2) by (simp add: stored_append stored_Cons item_credential_def slot_item_def)
  have li: "live_items key (L1 @ [x]) = live_items key L1"
    if "key \<noteq> 0" "key \<noteq> CTAP_STORAGE_KEY_CREDENTIAL" for key
    using w(5) that by (simp add: live_items_def slot_matches_def)
  have "ctap_create_credential ops crypto buf s r discoverable cred_protect rp user
      = Some (CTAP2_OK, Some c, s', r')"
    using user cp draw b(1) u h w(1)
    by (simp add: ctap_create_credential_def require_def src_def [symmetric] f_def [symmetric] Let_def)
  then show ?thesis
    using cr w(3) st li L1(2,3) by (intro exI [of _ c] exI [of _ s'] exI [of _ "L1 @ [x]"]) auto
qed

end

end
