(* ===== verification/Credential_Update.thy ===== *)
theory Credential_Update
  imports Credential_Creation
begin

text \<open>
  Updating the user of a credential, and the searches of the credential store, over the storage
  contract.
\<close>

section \<open>Updating\<close>

lemma not_live_kill [simp]: "\<not> slot_live (kill x)"
  by (simp add: kill_def)

lemma kept_flags:
  fixes f :: u32
  shows "(f AND 39) AND 3 = f AND 3" and "(f AND 39) AND 4 = f AND 4" and "(f AND 39) AND 32 = f AND 32"
    and "(f AND 39) AND 8 = 0" and "(f AND 39) AND 16 = 0"
  by (simp_all add: and.assoc)

lemma name_flags_disjoint:
  "name_flags wn n wd d AND 3 = 0" "name_flags wn n wd d AND 4 = 0" "name_flags wn n wd d AND 32 = 0"
  "name_flags wn n wd d AND 8 \<noteq> 0 \<longleftrightarrow> wn" "name_flags wn n wd d AND 16 \<noteq> 0 \<longleftrightarrow> wd"
  by (auto simp: name_flags_def)

lemma and_or_word: "(a OR b) AND c = (a AND c) OR (b AND c)" for a b c :: "'a::len word"
  by (rule bit.conj_disj_distrib2)

text \<open>What is the same in two credentials apart from the names of the user.\<close>

definition same_credential :: "ctap_credential_handle \<Rightarrow> ctap_credential_handle \<Rightarrow> bool" where
  "same_credential c c' \<longleftrightarrow> ctap_credential_get_id c' = ctap_credential_get_id c
     \<and> src_private_key (cred_source c') = src_private_key (cred_source c)
     \<and> ctap_credential_get_rp_id_hash c' = ctap_credential_get_rp_id_hash c
     \<and> ctap_credential_get_rp_id c' = ctap_credential_get_rp_id c
     \<and> ctap_credential_get_user_id c' = ctap_credential_get_user_id c
     \<and> ctap_credential_is_discoverable c' = ctap_credential_is_discoverable c
     \<and> ctap_credential_get_cred_protect c' = ctap_credential_get_cred_protect c
     \<and> ctap_credential_get_cred_random c' = ctap_credential_get_cred_random c
     \<and> (\<forall>rp. ctap_credential_matches_rp c' rp = ctap_credential_matches_rp c rp)"

lemma laid_out_updated:
  assumes src: "source c = credential_source_bytes (laid_out src rp i n d)" "source_arrays src"
      "length rp \<le> 255" "length i \<le> 64" "length n \<le> 64" "length d \<le> 64"
      and hash: "src_flags src AND flags_truncated_rp_id = 0 \<longrightarrow> src_rp_id_hash src = H rp"
      and src': "source c' = credential_source_bytes (laid_out (src\<lparr>src_flags := (src_flags src AND 39)
          OR name_flags wn (user_name user) wd (user_displayName user)\<rparr>) rp i n' d')"
      and user: "user_id user = i" "n' = (if wn then take 64 (user_name user) else [])"
      "d' = (if wd then take 64 (user_displayName user) else [])"
  shows "wf_credential H c' \<and> same_credential c c' \<and> holds_user c' rp user wn wd"
proof -
  let ?src = "src\<lparr>src_flags := (src_flags src AND 39)
      OR name_flags wn (user_name user) wd (user_displayName user)\<rparr>"
  have l: "length n' \<le> 64" "length d' \<le> 64" using user by auto
  have arr: "source_arrays ?src" using src(2) by (simp add: source_arrays_def)
  note a = laid_out_access [OF src] and a' = laid_out_access [OF src' arr src(3,4) l]
  have b: "src_flags ?src AND 3 = src_flags src AND 3" "src_flags ?src AND 4 = src_flags src AND 4"
      "src_flags ?src AND 32 = src_flags src AND 32" "src_flags ?src AND 8 \<noteq> 0 \<longleftrightarrow> wn"
      "src_flags ?src AND 16 \<noteq> 0 \<longleftrightarrow> wd"
    by (simp_all add: and_or_word kept_flags name_flags_disjoint)
  have flags: "src_flags (cred_source c') AND 3 = src_flags (cred_source c) AND 3"
      "src_flags (cred_source c') AND 4 = src_flags (cred_source c) AND 4"
      "src_flags (cred_source c') AND 32 = src_flags (cred_source c) AND 32"
    using b(1-3) unfolding a(4) a'(4) by simp_all
  have fields: "src_id (cred_source c') = src_id (cred_source c)"
      "src_private_key (cred_source c') = src_private_key (cred_source c)"
      "cred_random_with_uv (cred_source c') = cred_random_with_uv (cred_source c)"
      "cred_random_without_uv (cred_source c') = cred_random_without_uv (cred_source c)"
      "src_rp_id_hash (cred_source c') = src_rp_id_hash (cred_source c)"
    unfolding a(1) a'(1) laid_out_def by simp_all
  have "ctap_credential_matches_rp c' r = ctap_credential_matches_rp c r" for r
    using flags(3) fields(5) a(2) a'(2)
    by (simp add: ctap_credential_matches_rp_def ctap_credential_matches_rp_id_hash_def)
  then have same: "same_credential c c'"
    using flags fields a(2,3) a'(2,3)
    by (simp add: same_credential_def ctap_credential_get_id_def ctap_credential_get_rp_id_hash_def
        ctap_credential_is_discoverable_def ctap_credential_get_cred_protect_def
        ctap_credential_get_cred_random_def fun_eq_iff)
  have "src_rp_id_hash ?src = H rp" if "src_flags ?src AND flags_truncated_rp_id = 0"
    using that b(3) hash by simp
  then have wf: "wf_credential H c'"
    unfolding wf_credential_def using src' arr src(3,4) l by blast
  have "holds_user c' rp user wn wd"
    by (rule laid_out_holds_user [OF _ arr src(3) _ user(2,3) b(4,5)]) (use src' src(4) user in simp_all)
  then show ?thesis using wf same by blast
qed

context item_storage
begin

lemma update_credential_ok:
  assumes "rep s (L1 @ x # L2)" and "create_or_update_item ops = create_or_update"
      and x: "slot_live x" "slot_key x = CTAP_STORAGE_KEY_CREDENTIAL" "c = item_credential (slot_item x)"
      and wf: "wf_credential H c" and "\<forall>k \<le> 619. fits s k" and buf: "length buf = 447"
      and user: "has_field user CTAP_userEntity_id" "ctap_credential_get_user_id c = Some (user_id user)"
      and wn: "wn \<longleftrightarrow> has_field user CTAP_userEntity_name \<and> user_name user \<noteq> []"
      and wd: "wd \<longleftrightarrow> has_field user CTAP_userEntity_displayName \<and> user_displayName user \<noteq> []"
  shows "\<exists>c' s' L'. ctap_credential_update_user_information ops buf s c user = Some (CTAP2_OK, c', s')
     \<and> rep s' L' \<and> wf_credential H c' \<and> same_credential c c'
     \<and> ctap_credential_get_user c' = Some (stored_user wn wd user)
     \<and> stored_credentials L' = stored_credentials L1 @ stored_credentials L2 @ [c']
     \<and> (\<forall>key. key \<noteq> 0 \<longrightarrow> key \<noteq> CTAP_STORAGE_KEY_CREDENTIAL
          \<longrightarrow> live_items key L' = live_items key (L1 @ x # L2))"
proof -
  obtain src rp i n d where src: "source c = credential_source_bytes (laid_out src rp i n d)"
      "source_arrays src" "length rp \<le> 255" "length i \<le> 64" "length n \<le> 64" "length d \<le> 64"
      and hash: "src_flags src AND flags_truncated_rp_id = 0 \<longrightarrow> src_rp_id_hash src = H rp"
    using wf unfolding wf_credential_def by blast
  note a = laid_out_access [OF src]
  have i: "user_id user = i" using a(3) user(2) by simp
  define n' where "n' = (if wn then take 64 (user_name user) else [])"
  define d' where "d' = (if wd then take 64 (user_displayName user) else [])"
  have l: "length n' \<le> 64" "length d' \<le> 64" by (simp_all add: n'_def d'_def)
  define buf1 where "buf1 = rp @ drop (length rp) buf"
  have b1: "memcpy_at buf 0 rp = Some buf1" "length buf1 = 447" "take (length rp) buf1 = rp"
    using buf src(3) by (simp_all add: memcpy_at_def buf1_def)
  define old where "old = (laid_out src rp i n d)\<lparr>src_flags := src_flags src AND 39,
      variable_data := buf1\<rparr>"
  let ?src = "src\<lparr>src_flags := (src_flags src AND 39)
      OR name_flags wn (user_name user) wd (user_displayName user)\<rparr>"
  have arr: "source_arrays ?src" using src(2) by (simp add: source_arrays_def)
  obtain rest where "store_user user wn wd old = Some ((laid_out (old\<lparr>src_flags := src_flags old
        OR name_flags wn (user_name user) wd (user_displayName user)\<rparr>) rp (user_id user) n' d')
      \<lparr>variable_data := rp @ user_id user @ n' @ d' @ rest\<rparr>)"
    using store_user_eq [of old rp user n' wn d' wd] b1 src(3,4) i n'_def d'_def
    by (auto simp: old_def laid_out_def)
  moreover have "laid_out (old\<lparr>src_flags := src_flags old
        OR name_flags wn (user_name user) wd (user_displayName user)\<rparr>) rp (user_id user) n' d'
      = laid_out ?src rp i n' d'"
    by (simp add: laid_out_def old_def i del: of_nat_add)
  ultimately have u: "store_user user wn wd old
      = Some ((laid_out ?src rp i n' d')\<lparr>variable_data := rp @ i @ n' @ d' @ rest\<rparr>)"
    by (simp add: i)
  have "cred_item_handle c = 0 \<and> L1 @ kill x # L2 = L1 @ x # L2
     \<or> (\<exists>La y Lb. L1 @ x # L2 = La @ y # Lb \<and> slot_live y \<and> slot_handle y = cred_item_handle c
          \<and> L1 @ kill x # L2 = La @ kill y # Lb)"
    using x by (intro disjI2 exI [of _ L1] exI [of _ x] exI [of _ L2])
      (simp add: item_credential_def slot_item_def)
  from store_credential_ok [OF assms(1,2) arr src(3,4) l assms(7) this, of rest]
  obtain c' s' y where w: "store_credential ops s (cred_item_handle c) ((laid_out ?src rp i n' d')
        \<lparr>variable_data := rp @ i @ n' @ d' @ rest\<rparr>) = Some (CTAP2_OK, Some c', s')"
     "source c' = credential_source_bytes (laid_out ?src rp i n' d')"
     "rep s' ((L1 @ kill x # L2) @ [y])" "slot_handle y = cred_item_handle c'"
     "slot_key y = CTAP_STORAGE_KEY_CREDENTIAL" "slot_live y" "slot_data y = source c'"
    by (elim exE conjE) (rule that)
  have new: "wf_credential H c' \<and> same_credential c c' \<and> holds_user c' rp user wn wd"
    by (rule laid_out_updated [where H = H, OF src hash w(2) i n'_def d'_def])
  have st: "stored_credentials ((L1 @ kill x # L2) @ [y])
      = stored_credentials L1 @ stored_credentials L2 @ [c']"
    using w(2,4-7) arr by (simp add: stored_append stored_Cons stored_kill item_credential_def
        slot_item_def)
  have li: "live_items key ((L1 @ kill x # L2) @ [y]) = live_items key (L1 @ x # L2)"
    if "key \<noteq> 0" "key \<noteq> CTAP_STORAGE_KEY_CREDENTIAL" for key
    using w(5) x(2) that by (simp add: live_items_def slot_matches_def kill_def)
  have len: "unat (user_id_offset (cred_source c)) = length rp"
      "take (length rp) (variable_data (cred_source c)) = rp"
      "length rp \<le> length (variable_data (cred_source c))"
    using src(3) unfolding a(1) by (simp_all add: laid_out_def)
  have "ctap_credential_update_user_information ops buf s c user = Some (CTAP2_OK, c', s')"
    using user src(4) i len b1(1) u w(1) a(1,4) wn wd
    by (simp add: ctap_credential_update_user_information_def ctap_string_matches_def require_def
        old_def Let_def)
  then show ?thesis
    using new w(3) st li unfolding holds_user_def by blast
qed

end

end
