(* ===== verification/Credential_Properties.thy ===== *)
theory Credential_Properties
  imports Credential_Update Pin_Policy
begin

text \<open>
  The searches of the credential store, and the properties of the store: what creation, update and
  the searches do on every storage that meets its contract.
\<close>

section \<open>Searches\<close>

text \<open>A relying party is given by its identifier or, in credential management, by its hash.\<close>

definition wanted_rp :: "CTAP_rpId option \<Rightarrow> bytes option \<Rightarrow> ctap_credential_handle \<Rightarrow> bool" where
  "wanted_rp rp h c \<longleftrightarrow> (case rp of Some r \<Rightarrow> ctap_credential_matches_rp c r = Some True
     | None \<Rightarrow> Some (ctap_credential_get_rp_id_hash c) = h)"

text \<open>The first credential of every relying party, in the order of their first credentials.\<close>

fun first_per_rp :: "bytes list \<Rightarrow> ctap_credential_handle list \<Rightarrow> ctap_credential_handle list" where
  "first_per_rp seen [] = []"
| "first_per_rp seen (c # cs) =
     (if \<not> ctap_credential_is_discoverable c \<or> ctap_credential_get_rp_id_hash c \<in> set seen
      then first_per_rp seen cs
      else c # first_per_rp (ctap_credential_get_rp_id_hash c # seen) cs)"

lemma first_per_rp_cong: "set s1 = set s2 \<Longrightarrow> first_per_rp s1 cs = first_per_rp s2 cs"
proof (induction cs arbitrary: s1 s2)
  case (Cons c cs)
  let ?h = "ctap_credential_get_rp_id_hash c"
  show ?case
    using Cons.IH [OF Cons.prems] Cons.IH [of "?h # s1" "?h # s2"] Cons.prems by simp
qed simp

definition rp_entry :: "ctap_credential_handle \<Rightarrow> bytes \<times> bytes" where
  "rp_entry c = (the (ctap_credential_get_rp_id c), ctap_credential_get_rp_id_hash c)"

lemma fold_count:
  "fold_credentials (\<lambda>n c. Some (Inl (if P c then n + 1 else n :: nat))) cs acc
     = Some (Inl (acc + length (filter P cs)) :: nat + nat)"
  by (induction cs arbitrary: acc) auto

lemma fold_enumerate:
  assumes "\<forall>c\<in>set cs. ctap_credential_get_rp_id c \<noteq> None" and "length acc \<le> n"
  shows "fold_credentials (\<lambda>rps c.
       if \<not> ctap_credential_is_discoverable c then Some (Inl rps)
       else if is_rp_id_in_the_list (ctap_credential_get_rp_id_hash c) rps then Some (Inl rps)
       else if length rps = n then Some (Inr CTAP2_ERR_REQUEST_TOO_LARGE)
       else do { rp_id \<leftarrow> ctap_credential_get_rp_id c;
                 Some (Inl (rps @ [(rp_id, ctap_credential_get_rp_id_hash c)])) }) cs acc
    = Some (let rps = acc @ map rp_entry (first_per_rp (map snd acc) cs) in
            if length rps \<le> n then Inl rps else Inr CTAP2_ERR_REQUEST_TOO_LARGE)"
  using assms
proof (induction cs arbitrary: acc)
  case (Cons c cs)
  have seen: "is_rp_id_in_the_list h acc \<longleftrightarrow> h \<in> set (map snd acc)" for h
    by (force simp: is_rp_id_in_the_list_def list_ex_iff image_iff)
  obtain r where r: "ctap_credential_get_rp_id c = Some r" using Cons.prems(1) by auto
  have e: "first_per_rp (map snd acc @ [h]) cs = first_per_rp (h # map snd acc) cs" for h
    by (rule first_per_rp_cong) simp
  show ?case
    using Cons.IH [of acc] Cons.IH [of "acc @ [(r, ctap_credential_get_rp_id_hash c)]"] Cons.prems seen r
    by (auto simp: Let_def rp_entry_def e)
qed (simp add: Let_def)

context item_storage
begin

lemma count_credentials:
  assumes "rep s L" and "find_item ops = find_op"
  shows "ctap_count_num_stored_credentials ops s only
    = Some (length (filter (\<lambda>c. only \<longrightarrow> ctap_credential_is_discoverable c) (stored_credentials L)))"
proof -
  have "(\<lambda>n c. Some (Inl (if \<not> only \<or> ctap_credential_is_discoverable c then n + 1 else n)))
      = (\<lambda>n c. Some (Inl (if only \<longrightarrow> ctap_credential_is_discoverable c then n + 1 else n))
           :: (nat + nat) option)"
    by (auto simp: fun_eq_iff)
  then show ?thesis
    by (simp add: ctap_count_num_stored_credentials_def credential_loop_stored [OF assms] fold_count)
qed

lemma lookup_credential:
  assumes "rep s L" and "find_item ops = find_op"
  shows "ctap_lookup_credential_by_desc ops s desc
    = Some (if credDesc_type desc = CTAP_pubKeyCredType_public_key \<and> length (credDesc_id desc) = 32
            then List.find (\<lambda>c. ctap_credential_get_id c = credDesc_id desc) (stored_credentials L)
            else None)"
  unfolding ctap_lookup_credential_by_desc_def
  by (subst credential_loop_stored [OF assms],
      subst fold_credentials_first [of _ _ "\<lambda>c. ctap_credential_get_id c = credDesc_id desc" id])
    (auto simp: ctap_credential_get_id_def split: option.splits)

lemma find_discoverable:
  assumes "rep s L" and "find_item ops = find_op" and "\<forall>c\<in>set (stored_credentials L). wf_credential H c"
      and "case rp of Some r \<Rightarrow> rp_id_hash_value r = H (rp_id_id r) | None \<Rightarrow> h \<noteq> None"
  shows "ctap_find_discoverable_credentials_by_rp_id ops s rp h uv n
    = Some (let cs = filter (\<lambda>c. wanted_rp rp h c \<and> ctap_credential_is_discoverable c
                     \<and> ctap_should_add_credential_to_list c False uv) (stored_credentials L) in
            if length cs \<le> n then Inr cs else Inl CTAP1_ERR_INVALID_LENGTH)"
proof -
  let ?P = "\<lambda>c. wanted_rp rp h c \<and> ctap_credential_is_discoverable c
      \<and> ctap_should_add_credential_to_list c False uv"
  let ?match = "\<lambda>c. case (rp, h) of (Some rp, _) \<Rightarrow> ctap_credential_matches_rp c rp
         | (None, Some h) \<Rightarrow> Some (ctap_credential_matches_rp_id_hash c h) | (None, None) \<Rightarrow> None"
  let ?body = "\<lambda>credentials c. do {
       matches \<leftarrow> ?match c;
       if \<not> matches then Some (Inl credentials)
       else if \<not> ctap_credential_is_discoverable c then Some (Inl credentials)
       else if \<not> ctap_should_add_credential_to_list c False uv then Some (Inl credentials)
       else if length credentials = n then Some (Inr CTAP1_ERR_INVALID_LENGTH)
       else Some (Inl (credentials @ [c])) }"
  have m: "?match c = Some (wanted_rp rp h c)" if "c \<in> set (stored_credentials L)" for c
  proof (cases rp)
    case None
    then show ?thesis
      using assms(4) by (auto simp: wanted_rp_def ctap_credential_matches_rp_id_hash_def
          ctap_credential_get_rp_id_hash_def)
  next
    case (Some r)
    then show ?thesis
      using wf_credential_defined(1) [of H c r] assms(3,4) that by (auto simp: wanted_rp_def)
  qed
  have "fold_credentials ?body cs acc = Some (if length acc + length (filter ?P cs) \<le> n
          then Inl (acc @ filter ?P cs) else Inr CTAP1_ERR_INVALID_LENGTH)"
    if "set cs \<subseteq> set (stored_credentials L)" "length acc \<le> n" for cs acc
    using that
  proof (induction cs arbitrary: acc)
    case (Cons c cs)
    then have "?match c = Some (wanted_rp rp h c)" by (intro m) simp
    then show ?case
      using Cons.IH [of acc] Cons.IH [of "acc @ [c]"] Cons.prems
      by (simp del: split_paired_All add: not_le)
  qed simp
  from this [of "stored_credentials L" "[]"] show ?thesis
    using assms(4) unfolding ctap_find_discoverable_credentials_by_rp_id_def
    by (subst credential_loop_stored [OF assms(1,2)])
      (auto simp: require_def Let_def split: option.splits)
qed

lemma enumerate_rps:
  assumes "rep s L" and "find_item ops = find_op" and "\<forall>c\<in>set (stored_credentials L). wf_credential H c"
  shows "ctap_enumerate_rp_ids_of_discoverable_credentials ops s n
    = Some (let rps = map rp_entry (first_per_rp [] (stored_credentials L)) in
            if length rps \<le> n then Inr rps else Inl CTAP2_ERR_REQUEST_TOO_LARGE)"
proof -
  have "\<forall>c\<in>set (stored_credentials L). ctap_credential_get_rp_id c \<noteq> None"
    using assms(3) wf_credential_defined(2) [where rp = "\<lparr>rp_id_id = [], rp_id_hash_value = H []\<rparr>"]
    by (auto simp del: not_None_eq)
  then show ?thesis
    unfolding ctap_enumerate_rp_ids_of_discoverable_credentials_def
    by (subst credential_loop_stored [OF assms(1,2)], subst fold_enumerate) (auto simp: Let_def)
qed

end

section \<open>The credential store on the RAM storage\<close>

lemma memory_ops:
  "find_item CTAP_MEMORY_STORAGE_CONST_INIT = ctap_memory_storage_find_item"
  "create_or_update_item CTAP_MEMORY_STORAGE_CONST_INIT = ctap_memory_storage_create_or_update_item"
  "delete_item CTAP_MEMORY_STORAGE_CONST_INIT = ctap_memory_storage_delete_item"
  by (simp_all add: CTAP_MEMORY_STORAGE_CONST_INIT_def)

lemma memory_storage_ok:
  "item_storage mem_rep mem_fits (find_item CTAP_MEMORY_STORAGE_CONST_INIT)
     (create_or_update_item CTAP_MEMORY_STORAGE_CONST_INIT) (delete_item CTAP_MEMORY_STORAGE_CONST_INIT)"
  unfolding memory_ops by (rule mem.item_storage_axioms)

text \<open>How much of the memory an item takes.\<close>

lemma memory_create_growth:
  assumes "ctap_memory_storage_create_item s it = Some (CTAP_STORAGE_OK, it', s')"
  shows "length (memory s') = length (memory s)
    \<and> write_index s' = wrap32 (write_index s + mem_compute_total_item_size (item_size it))"
  using assms by (auto simp: ctap_memory_storage_create_item_def require_def wr32_def Let_def
      dest!: memcpy_at_length split: if_splits bind_splits)

lemma memory_growth:
  assumes "ctap_memory_storage_create_or_update_item s it = Some (CTAP_STORAGE_OK, it', s')"
  shows "length (memory s') = length (memory s)
    \<and> write_index s' = wrap32 (write_index s + mem_compute_total_item_size (item_size it))"
proof (cases "item_handle it = 0")
  case True
  then show ?thesis
    using assms memory_create_growth
    by (auto simp: ctap_memory_storage_create_or_update_item_def require_def split: if_splits)
next
  case False
  then obtain new s1 where s1: "ctap_memory_storage_create_item s it = Some (CTAP_STORAGE_OK, new, s1)"
      "ctap_memory_storage_delete_item s1 (item_handle it) = Some (CTAP_STORAGE_OK, s')"
    using assms by (auto simp: ctap_memory_storage_create_or_update_item_def require_def
        split: if_splits bind_splits)
  have "length (memory s') = length (memory s1) \<and> write_index s' = write_index s1"
    using s1(2) by (auto simp: ctap_memory_storage_delete_item_def require_def wr32_def
        dest!: memcpy_at_length split: if_splits bind_splits)
  then show ?thesis using memory_create_growth [OF s1(1)] by simp
qed

lemma memory_credential_growth:
  assumes "store_credential CTAP_MEMORY_STORAGE_CONST_INIT s h src = Some (CTAP2_OK, c, s')"
      and "write_index s < 2 ^ 31"
  shows "length (memory s') = length (memory s) \<and> write_index s' \<le> write_index s + 640"
proof -
  let ?n = "sizeof_credential_source + unat (variable_data_end_offset src)"
  obtain it' where u: "ctap_memory_storage_create_or_update_item s \<lparr>item_handle = h,
       item_key = CTAP_STORAGE_KEY_CREDENTIAL, item_size = ?n,
       item_data = take ?n (credential_source_bytes src)\<rparr> = Some (CTAP_STORAGE_OK, it', s')"
      and n: "?n \<le> 619"
    using assms(1) by (auto simp: store_credential_def memory_ops require_def Let_def
        split: if_splits bind_splits)
  have "mem_compute_total_item_size ?n = 16 + (?n + 3) div 4 * 4" using n by (simp add: mem_total_eq)
  also have "\<dots> \<le> 640" using n div_times_less_eq_dividend [of "?n + 3" 4] by linarith
  finally show ?thesis using memory_growth [OF u] assms(2) by simp
qed

lemma memory_room:
  assumes "length (memory s) < 2 ^ 31" and "write_index s + 640 \<le> length (memory s)" and "k \<le> 619"
  shows "mem_fits s k"
proof -
  have "mem_compute_total_item_size k = 16 + (k + 3) div 4 * 4" using assms(3) by (simp add: mem_total_eq)
  also have "\<dots> \<le> 640" using assms(3) div_times_less_eq_dividend [of "k + 3" 4] by linarith
  finally show ?thesis using assms by (simp add: mem_fits_def)
qed

lemma software_draw:
  "\<exists>i k w wo r'. draw_credential_secrets (software_crypto libs) r = (Some (i, k, w, wo), r')
     \<and> length i = 32 \<and> length k = 32 \<and> length w = 32 \<and> length wo = 32"
proof -
  have "\<exists>b. ctap_software_crypto_rng_generate_data libs q 32 = (True, b, q + 8) \<and> length b = 32" for q
    by (simp add: software_rng_ok length_concat comp_def sum_list_triv)
  then obtain b where b: "ctap_software_crypto_rng_generate_data libs q 32 = (True, b q, q + 8)"
      "length (b q) = 32" for q
    by metis
  show ?thesis by (simp add: draw_credential_secrets_def b)
qed

text \<open>An example account, in a RAM storage of 3000 bytes.\<close>

definition example_rp :: CTAP_rpId where
  "example_rp = \<lparr>rp_id_id = [0x61, 0x2e, 0x62], rp_id_hash_value = replicate 32 7\<rparr>"

definition example_user :: CTAP_userEntity where
  "example_user = \<lparr>user_fields = 6, user_id = [1, 2, 3], user_name = [0x41, 0x42],
     user_displayName = []\<rparr>"

definition credential_memory :: ctap_memory_storage_context where
  "credential_memory = \<lparr>memory = zeros 3000, write_index = 0\<rparr>"

lemma credential_memory_rep: "mem_rep credential_memory []"
  unfolding mem_rep_def log_of_def credential_memory_def by (intro exI [of _ "[]"]) simp

lemma example_create:
  assumes "mem_rep s L" and "\<forall>c\<in>set (stored_credentials L). wf_credential (\<lambda>_. replicate 32 7) c"
      and "length (memory s) = 3000" and "write_index s + 640 \<le> 3000"
  shows "\<exists>c s' L' r'. ctap_create_credential CTAP_MEMORY_STORAGE_CONST_INIT (software_crypto libs) (zeros 447)
        s r discoverable 1 example_rp example_user = Some (CTAP2_OK, Some c, s', r')
     \<and> mem_rep s' L' \<and> wf_credential (\<lambda>_. replicate 32 7) c
     \<and> ctap_credential_is_discoverable c = discoverable \<and> ctap_credential_get_cred_protect c = 1
     \<and> of_account example_rp [1, 2, 3] c \<and> holds_user c [0x61, 0x2e, 0x62] example_user True False
     \<and> stored_credentials L' = (if discoverable
           then without_first (of_account example_rp [1, 2, 3]) (stored_credentials L)
           else stored_credentials L) @ [c]
     \<and> length (memory s') = 3000 \<and> write_index s' \<le> write_index s + 640"
proof -
  obtain i k w wo r' where draw: "draw_credential_secrets (software_crypto libs) r
      = (Some (i, k, w, wo), r')" "length i = 32" "length k = 32" "length w = 32" "length wo = 32"
    using software_draw [of libs r] by blast
  have fit: "\<forall>k\<le>619. mem_fits s k" using memory_room [of s] assms(3,4) by simp
  have user: "has_field example_user CTAP_userEntity_id" "length (user_id example_user) \<le> 64"
      "has_field example_user CTAP_userEntity_name" "\<not> has_field example_user CTAP_userEntity_displayName"
    by (simp_all add: example_user_def ctap_is_present_def ctap_param_to_mask_def)
  obtain c s' L' where c: "ctap_create_credential CTAP_MEMORY_STORAGE_CONST_INIT (software_crypto libs)
        (zeros 447) s r discoverable 1 example_rp example_user = Some (CTAP2_OK, Some c, s', r')"
     "mem_rep s' L'" "created (\<lambda>_. replicate 32 7) c discoverable 1 example_rp example_user (i, k, w, wo)"
     "stored_credentials L' = (if discoverable
           then without_first (of_account example_rp (user_id example_user)) (stored_credentials L)
           else stored_credentials L) @ [c]"
    using mem.create_credential_ok [OF assms(1) memory_ops(1,2) assms(2), of example_rp "zeros 447"
        example_user 1 "software_crypto libs" r, OF _ _ fit _ user(1,2) _ draw]
    by (fastforce simp: example_rp_def)
  then obtain h src where "store_credential CTAP_MEMORY_STORAGE_CONST_INIT s h src
      = Some (CTAP2_OK, Some c, s')"
    by (auto simp: ctap_create_credential_def require_def Let_def draw(1) split: if_splits bind_splits)
  from memory_credential_growth [OF this] show ?thesis
    using c user assms(3,4)
    by (auto simp: created_def of_account_def holds_user_def example_user_def example_rp_def
        stored_rp_id_def)
qed

section \<open>Properties\<close>

text \<open>
  C23: Creating a credential. On a storage that meets its contract and has room for the largest
  credential, whose credentials are well-formed, creation with valid arguments succeeds. The new
  credential is the last one of the storage, well-formed, and gives back what it was created with:
  the discoverable flag, the protection policy, the relying party, the user with names cut to 64
  bytes, and the four random values. A discoverable credential replaces the first credential of
  the same account, nothing else changes, and other items of the storage are untouched.
\<close>

theorem credential_created:
  assumes "item_storage srep fits (find_item ops) (create_or_update_item ops) (delete_item ops)"
      and "srep s L" and "\<forall>c\<in>set (stored_credentials L). wf_credential H c"
      and "rp_id_hash_value rp = H (rp_id_id rp)" and "length (rp_id_hash_value rp) = 32"
      and "\<forall>k \<le> 619. fits s k" and "length buf = 447"
      and "ctap_is_present (user_fields user) (ctap_param_to_mask CTAP_userEntity_id)"
      and "length (user_id user) \<le> 64" and "cred_protect \<le> 3"
      and "draw_credential_secrets crypto r = (Some (i, k, w, wo), r')"
      and "length i = 32" and "length k = 32" and "length w = 32" and "length wo = 32"
  shows "\<exists>c s' L'. ctap_create_credential ops crypto buf s r discoverable cred_protect rp user
        = Some (CTAP2_OK, Some c, s', r')
     \<and> srep s' L' \<and> created H c discoverable cred_protect rp user (i, k, w, wo)
     \<and> stored_credentials L' = (if discoverable
           then without_first (of_account rp (user_id user)) (stored_credentials L)
           else stored_credentials L) @ [c]
     \<and> (\<forall>key. key \<noteq> 0 \<longrightarrow> key \<noteq> CTAP_STORAGE_KEY_CREDENTIAL
          \<longrightarrow> live_items key L' = live_items key L)"
  by (rule item_storage.create_credential_ok [OF assms(1,2) refl refl assms(3-15)])

theorem credential_created_witness:
  "\<exists>c s' L' r' secrets. ctap_create_credential CTAP_MEMORY_STORAGE_CONST_INIT
       (software_crypto example_libraries) (zeros 447) credential_memory 0 True 2 example_rp example_user
     = Some (CTAP2_OK, Some c, s', r')
   \<and> mem_rep s' L' \<and> stored_credentials L' = [c]
   \<and> created (\<lambda>_. replicate 32 7) c True 2 example_rp example_user secrets"
proof -
  obtain i k w wo r' where draw: "draw_credential_secrets (software_crypto example_libraries) 0
      = (Some (i, k, w, wo), r')" "length i = 32" "length k = 32" "length w = 32" "length wo = 32"
    using software_draw by blast
  have fit: "\<forall>k\<le>619. mem_fits credential_memory k"
    using memory_room [of credential_memory] by (simp add: credential_memory_def)
  show ?thesis
    using credential_created [where H = "\<lambda>_. replicate 32 7" and rp = example_rp, OF memory_storage_ok
        credential_memory_rep _ _ _ fit _ _ _ _ draw, of "zeros 447" example_user 2 True]
    by (fastforce simp: example_rp_def example_user_def ctap_is_present_def ctap_param_to_mask_def
        without_first_def)
qed

text \<open>
  C24: Updating a credential. A request with the user identifier of a stored credential replaces
  that credential by one with the same identifier, keys, relying party, user identifier,
  discoverability and protection policy, whose names are exactly the non-empty ones of the
  request; the other credentials and items stay. A request with another user identifier changes
  nothing.
\<close>

theorem credential_updated:
  assumes "item_storage srep fits (find_item ops) (create_or_update_item ops) (delete_item ops)"
      and "srep s (L1 @ x # L2)" and "slot_live x" and "slot_key x = CTAP_STORAGE_KEY_CREDENTIAL"
      and "c = item_credential (slot_item x)" and "wf_credential H c" and "\<forall>k \<le> 619. fits s k"
      and "length buf = 447"
      and "ctap_is_present (user_fields user) (ctap_param_to_mask CTAP_userEntity_id)"
      and "length (user_id user) \<le> 64"
  shows "if ctap_credential_get_user_id c = Some (user_id user)
    then \<exists>c' s' L'. ctap_credential_update_user_information ops buf s c user = Some (CTAP2_OK, c', s')
     \<and> srep s' L' \<and> wf_credential H c' \<and> same_credential c c'
     \<and> ctap_credential_get_user c' = Some (stored_user
          (ctap_is_present (user_fields user) (ctap_param_to_mask CTAP_userEntity_name)
             \<and> user_name user \<noteq> [])
          (ctap_is_present (user_fields user) (ctap_param_to_mask CTAP_userEntity_displayName)
             \<and> user_displayName user \<noteq> []) user)
     \<and> stored_credentials L' = stored_credentials L1 @ stored_credentials L2 @ [c']
     \<and> (\<forall>key. key \<noteq> 0 \<longrightarrow> key \<noteq> CTAP_STORAGE_KEY_CREDENTIAL
          \<longrightarrow> live_items key L' = live_items key (L1 @ x # L2))
    else ctap_credential_update_user_information ops buf s c user
           = Some (CTAP1_ERR_INVALID_PARAMETER, c, s)"
proof (cases "ctap_credential_get_user_id c = Some (user_id user)")
  case True
  then show ?thesis
    using item_storage.update_credential_ok [OF assms(1,2) refl assms(3-9) True refl refl] by simp
next
  case False
  then obtain i where "ctap_credential_get_user_id c = Some i" "i \<noteq> user_id user"
    using wf_credential_defined(3) [OF assms(6), of "\<lparr>rp_id_id = [], rp_id_hash_value = H []\<rparr>"]
    by auto
  then show ?thesis
    using assms(9,10) by (auto simp: ctap_credential_update_user_information_def
        ctap_string_matches_def)
qed

theorem credential_updated_witness:
  "\<exists>s c c' s' L'. mem_rep s' L' \<and> ctap_credential_update_user_information
       CTAP_MEMORY_STORAGE_CONST_INIT (zeros 447) s c (example_user\<lparr>user_name := [0x43]\<rparr>)
     = Some (CTAP2_OK, c', s')
   \<and> ctap_credential_get_user c = Some (example_user\<lparr>user_fields := 6\<rparr>)
   \<and> ctap_credential_get_user c' = Some (example_user\<lparr>user_name := [0x43]\<rparr>)
   \<and> stored_credentials L' = [c']"
proof -
  obtain c s L r where c: "ctap_create_credential CTAP_MEMORY_STORAGE_CONST_INIT
        (software_crypto example_libraries) (zeros 447) credential_memory 0 True 1 example_rp example_user
        = Some (CTAP2_OK, Some c, s, r)" "mem_rep s L" "wf_credential (\<lambda>_. replicate 32 7) c"
      "holds_user c [0x61, 0x2e, 0x62] example_user True False" "stored_credentials L = [c]"
      "length (memory s) = 3000" "write_index s \<le> 640"
    using example_create [OF credential_memory_rep, of example_libraries 0 True]
    by (auto simp: without_first_def credential_memory_def)
  obtain L1 x L2 where x: "L = L1 @ x # L2" "slot_live x" "slot_key x = CTAP_STORAGE_KEY_CREDENTIAL"
      "c = item_credential (slot_item x)" "stored_credentials L1 = []" "stored_credentials L2 = []"
  proof -
    have "List.find (\<lambda>_. True) (stored_credentials L) = Some c" using c(5) by simp
    from find_stored [OF this] show ?thesis
      using c(5) that by (auto simp: stored_append stored_Cons stored_kill without_first_def
          split: if_splits)
  qed
  have "\<forall>k\<le>619. mem_fits s k" using memory_room [of s] c(6,7) by simp
  from credential_updated [OF memory_storage_ok _ x(2-4) c(3) this, of L1 L2 "zeros 447"
      "example_user\<lparr>user_name := [0x43]\<rparr>"]
  show ?thesis
    using c(2,4) x(1,5,6)
    by (fastforce simp: holds_user_def example_user_def stored_user_def ctap_is_present_def
        ctap_param_to_mask_def ctap_set_present_def)
qed

text \<open>
  C25: The searches. On a storage that meets its contract, with well-formed credentials, the loops
  end and return exactly: the discoverable credentials of a relying party that the protection
  policy allows without an allow list, in the order of the storage, or an error when they are more
  than the caller has room for; the credential with a given identifier; one entry per relying
  party that has a discoverable credential; and their number.
\<close>

theorem credential_searches:
  assumes "item_storage srep fits (find_item ops) (create_or_update_item ops) (delete_item ops)"
      and "srep s L" and "\<forall>c\<in>set (stored_credentials L). wf_credential H c"
      and "case rp of Some r \<Rightarrow> rp_id_hash_value r = H (rp_id_id r) | None \<Rightarrow> h \<noteq> None"
  shows "ctap_find_discoverable_credentials_by_rp_id ops s rp h uv n
      = Some (let cs = filter (\<lambda>c. wanted_rp rp h c \<and> ctap_credential_is_discoverable c
                     \<and> (ctap_credential_get_cred_protect c = 2 \<or> ctap_credential_get_cred_protect c = 3
                          \<longrightarrow> uv)) (stored_credentials L) in
              if length cs \<le> n then Inr cs else Inl CTAP1_ERR_INVALID_LENGTH)
    \<and> ctap_lookup_credential_by_desc ops s desc
      = Some (if credDesc_type desc = CTAP_pubKeyCredType_public_key \<and> length (credDesc_id desc) = 32
              then List.find (\<lambda>c. ctap_credential_get_id c = credDesc_id desc) (stored_credentials L)
              else None)
    \<and> ctap_enumerate_rp_ids_of_discoverable_credentials ops s n
      = Some (let rps = map rp_entry (first_per_rp [] (stored_credentials L)) in
              if length rps \<le> n then Inr rps else Inl CTAP2_ERR_REQUEST_TOO_LARGE)
    \<and> ctap_count_num_stored_discoverable_credentials ops s
      = Some (length (filter ctap_credential_is_discoverable (stored_credentials L)))"
proof -
  have policy: "ctap_should_add_credential_to_list c False uv
      \<longleftrightarrow> (ctap_credential_get_cred_protect c = 2 \<or> ctap_credential_get_cred_protect c = 3 \<longrightarrow> uv)" for c
    by (auto simp: ctap_should_add_credential_to_list_def Let_def)
  show ?thesis
    using item_storage.find_discoverable [OF assms(1,2) refl assms(3,4), of uv n]
      item_storage.lookup_credential [OF assms(1,2) refl]
      item_storage.enumerate_rps [OF assms(1,2) refl assms(3)]
      item_storage.count_credentials [OF assms(1,2) refl, of True]
    unfolding policy ctap_count_num_stored_discoverable_credentials_def by simp
qed

theorem credential_searches_witness:
  "\<exists>s c. ctap_find_discoverable_credentials_by_rp_id CTAP_MEMORY_STORAGE_CONST_INIT s (Some example_rp)
       None False 1 = Some (Inr [c])
   \<and> ctap_find_discoverable_credentials_by_rp_id CTAP_MEMORY_STORAGE_CONST_INIT s (Some example_rp)
       None False 0 = Some (Inl CTAP1_ERR_INVALID_LENGTH)
   \<and> ctap_count_num_stored_discoverable_credentials CTAP_MEMORY_STORAGE_CONST_INIT s = Some 1"
proof -
  obtain c s L r where c: "ctap_create_credential CTAP_MEMORY_STORAGE_CONST_INIT
        (software_crypto example_libraries) (zeros 447) credential_memory 0 True 1 example_rp example_user
        = Some (CTAP2_OK, Some c, s, r)" "mem_rep s L" "wf_credential (\<lambda>_. replicate 32 7) c"
      "stored_credentials L = [c]" "ctap_credential_is_discoverable c"
      "ctap_credential_get_cred_protect c = 1" "of_account example_rp [1, 2, 3] c"
    using example_create [OF credential_memory_rep, of example_libraries 0 True]
    by (auto simp: without_first_def credential_memory_def)
  show ?thesis
    using credential_searches [where H = "\<lambda>_. replicate 32 7" and rp = "Some example_rp" and h = None
          and uv = False and n = 1, OF memory_storage_ok c(2)]
      credential_searches [where H = "\<lambda>_. replicate 32 7" and rp = "Some example_rp" and h = None
          and uv = False and n = 0, OF memory_storage_ok c(2)] c(3-7)
    by (intro exI [of _ s] exI [of _ c]) (simp add: wanted_rp_def of_account_def example_rp_def)
qed

text \<open>
  C26: The search for the credential a discoverable one replaces also finds credentials that are
  not discoverable. Creating a discoverable, a non-discoverable and two more discoverable
  credentials for one account therefore leaves two discoverable credentials of the account in the
  storage (the protocol demands that creation overwrites), and removes the non-discoverable one,
  which the relying party may still use.
\<close>

theorem discoverable_duplicates:
  "\<exists>c1 s1 r1 c2 s2 r2 c3 s3 r3 c4 s4 r4.
     ctap_create_credential CTAP_MEMORY_STORAGE_CONST_INIT (software_crypto libs) (zeros 447)
       credential_memory r True 1 example_rp example_user = Some (CTAP2_OK, Some c1, s1, r1)
   \<and> ctap_create_credential CTAP_MEMORY_STORAGE_CONST_INIT (software_crypto libs) (zeros 447)
       s1 r1 False 1 example_rp example_user = Some (CTAP2_OK, Some c2, s2, r2)
   \<and> ctap_create_credential CTAP_MEMORY_STORAGE_CONST_INIT (software_crypto libs) (zeros 447)
       s2 r2 True 1 example_rp example_user = Some (CTAP2_OK, Some c3, s3, r3)
   \<and> ctap_create_credential CTAP_MEMORY_STORAGE_CONST_INIT (software_crypto libs) (zeros 447)
       s3 r3 True 1 example_rp example_user = Some (CTAP2_OK, Some c4, s4, r4)
   \<and> ctap_find_discoverable_credentials_by_rp_id CTAP_MEMORY_STORAGE_CONST_INIT s4 (Some example_rp)
       None False 10 = Some (Inr [c3, c4])
   \<and> ctap_count_num_stored_credentials CTAP_MEMORY_STORAGE_CONST_INIT s4 False = Some 2"
proof -
  let ?wf = "wf_credential (\<lambda>_. replicate 32 7)" and ?acc = "of_account example_rp [1, 2, 3]"
  have l0: "length (memory credential_memory) = 3000" "write_index credential_memory + 640 \<le> 3000"
    by (simp_all add: credential_memory_def)
  obtain c1 s1 L1 r1 where 1: "ctap_create_credential CTAP_MEMORY_STORAGE_CONST_INIT
        (software_crypto libs) (zeros 447) credential_memory r True 1 example_rp example_user
        = Some (CTAP2_OK, Some c1, s1, r1)" "mem_rep s1 L1" "?wf c1" "?acc c1"
      "stored_credentials L1 = [c1]" "length (memory s1) = 3000" "write_index s1 \<le> 640"
    using example_create [OF credential_memory_rep _ l0, of libs r True]
    by (auto simp: without_first_def credential_memory_def)
  obtain c2 s2 L2 r2 where 2: "ctap_create_credential CTAP_MEMORY_STORAGE_CONST_INIT
        (software_crypto libs) (zeros 447) s1 r1 False 1 example_rp example_user
        = Some (CTAP2_OK, Some c2, s2, r2)" "mem_rep s2 L2" "?wf c2" "?acc c2"
      "stored_credentials L2 = [c1, c2]" "length (memory s2) = 3000" "write_index s2 \<le> 1280"
    using example_create [OF 1(2), of libs r1 False] 1 by auto
  obtain c3 s3 L3 r3 where 3: "ctap_create_credential CTAP_MEMORY_STORAGE_CONST_INIT
        (software_crypto libs) (zeros 447) s2 r2 True 1 example_rp example_user
        = Some (CTAP2_OK, Some c3, s3, r3)" "mem_rep s3 L3" "?wf c3" "?acc c3"
      "ctap_credential_is_discoverable c3" "ctap_credential_get_cred_protect c3 = 1"
      "stored_credentials L3 = [c2, c3]" "length (memory s3) = 3000" "write_index s3 \<le> 1920"
    using example_create [OF 2(2), of libs r2 True] 1 2 by (auto simp: without_first_def)
  obtain c4 s4 L4 r4 where 4: "ctap_create_credential CTAP_MEMORY_STORAGE_CONST_INIT
        (software_crypto libs) (zeros 447) s3 r3 True 1 example_rp example_user
        = Some (CTAP2_OK, Some c4, s4, r4)" "mem_rep s4 L4" "?wf c4" "?acc c4"
      "ctap_credential_is_discoverable c4" "ctap_credential_get_cred_protect c4 = 1"
      "stored_credentials L4 = [c3, c4]"
    using example_create [OF 3(2), of libs r3 True] 2 3 by (auto simp: without_first_def)
  have "ctap_find_discoverable_credentials_by_rp_id CTAP_MEMORY_STORAGE_CONST_INIT s4 (Some example_rp)
      None False 10 = Some (Inr [c3, c4])"
    using mem.find_discoverable [where H = "\<lambda>_. replicate 32 7" and rp = "Some example_rp" and h = None
          and uv = False and n = 10, OF 4(2) memory_ops(1)] 3(3-6) 4(3-7)
    by (simp add: wanted_rp_def of_account_def example_rp_def ctap_should_add_credential_to_list_def)
  moreover have "ctap_count_num_stored_credentials CTAP_MEMORY_STORAGE_CONST_INIT s4 False = Some 2"
    using mem.count_credentials [OF 4(2) memory_ops(1), of False] 4(7) by simp
  ultimately show ?thesis using 1(1) 2(1) 3(1) 4(1) by blast
qed

end
