(* ===== verification/Ctap_Encode.thy ===== *)
theory Ctap_Encode
  imports Client_Pin
begin

text \<open>
  The encoders of response data (\<open>core/ctap_encode.c\<close>) and authenticatorGetInfo
  (\<open>core/ctap_get_info.c\<close>). An encoder returns the status and the operations that succeeded.
\<close>

section \<open>Sequences of encodings\<close>

text \<open>\<open>ctap_check\<close> on an encoding, followed by the rest.\<close>

definition then_encode :: "u8 \<times> encoder \<Rightarrow> (encoder \<Rightarrow> u8 \<times> encoder) \<Rightarrow> u8 \<times> encoder" where
  "then_encode r k = (case r of (status, e) \<Rightarrow> if status \<noteq> CTAP2_OK then (status, e) else k e)"

lemma cbor_encode_append:
  "cbor_encode enc_ok e (xs @ ys)
     = then_encode (cbor_encode enc_ok e xs) (\<lambda>e1. cbor_encode enc_ok e1 ys)"
  by (induction xs arbitrary: e) (simp_all add: then_encode_def)

section \<open>Parts of responses\<close>

definition ctap_encode_ctap_string_as_byte_string :: "enc_ok \<Rightarrow> encoder \<Rightarrow> bytes \<Rightarrow> u8 \<times> encoder" where
  "ctap_encode_ctap_string_as_byte_string enc_ok e str = cbor_encode enc_ok e [Encode_Bytes str]"

definition ctap_encode_ctap_string_as_text_string :: "enc_ok \<Rightarrow> encoder \<Rightarrow> bytes \<Rightarrow> u8 \<times> encoder" where
  "ctap_encode_ctap_string_as_text_string enc_ok e str = cbor_encode enc_ok e [Encode_Text str]"

definition ctap_encode_public_key :: "enc_ok \<Rightarrow> encoder \<Rightarrow> bytes \<Rightarrow> u8 \<times> encoder" where
  "ctap_encode_public_key enc_ok e public_key =
     (let x = take 32 public_key; y = take 32 (drop 32 public_key) in
      cbor_encode enc_ok e
        [Create_Map 5, Encode_Int 1, Encode_Int 2, Encode_Int 3, Encode_Int (-7),
         Encode_Int (-1), Encode_Int 1, Encode_Int (-2), Encode_Bytes x,
         Encode_Int (-3), Encode_Bytes y, Close_Container])"

definition ctap_encode_pub_key_cred_desc :: "enc_ok \<Rightarrow> encoder \<Rightarrow> bytes \<Rightarrow> u8 \<times> encoder" where
  "ctap_encode_pub_key_cred_desc enc_ok e cred_id =
     then_encode (cbor_encode enc_ok e [Create_Map 2, Encode_Text (ctap_str ''id'')]) (\<lambda>e1.
     then_encode (ctap_encode_ctap_string_as_byte_string enc_ok e1 cred_id) (\<lambda>e2.
     cbor_encode enc_ok e2 [Encode_Text (ctap_str ''type''), Encode_Text (ctap_str ''public-key''),
        Close_Container]))"

text \<open>\<open>None\<close> is the failed assertion that the identifier of the user is present.\<close>

definition ctap_encode_pub_key_cred_user_entity ::
    "enc_ok \<Rightarrow> encoder \<Rightarrow> CTAP_userEntity \<Rightarrow> bool \<Rightarrow> (u8 \<times> encoder) option" where
  "ctap_encode_pub_key_cred_user_entity enc_ok e user include_user_identifiable_info =
     (let has = (\<lambda>n. ctap_is_present (user_fields user) (ctap_param_to_mask n));
          with_name = (include_user_identifiable_info \<and> has CTAP_userEntity_name);
          with_display_name = (include_user_identifiable_info \<and> has CTAP_userEntity_displayName);
          num_items = 1 + (if with_name then 1 else 0) + (if with_display_name then 1 else 0) in
      require (has CTAP_userEntity_id) (Some (
        then_encode (cbor_encode enc_ok e [Create_Map num_items, Encode_Text (ctap_str ''id'')]) (\<lambda>e1.
        then_encode (ctap_encode_ctap_string_as_byte_string enc_ok e1 (user_id user)) (\<lambda>e2.
        then_encode (if with_name then
            then_encode (cbor_encode enc_ok e2 [Encode_Text (ctap_str ''name'')]) (\<lambda>e3.
            ctap_encode_ctap_string_as_text_string enc_ok e3 (user_name user))
          else (CTAP2_OK, e2)) (\<lambda>e4.
        then_encode (if with_display_name then
            then_encode (cbor_encode enc_ok e4 [Encode_Text (ctap_str ''displayName'')]) (\<lambda>e5.
            ctap_encode_ctap_string_as_text_string enc_ok e5 (user_displayName user))
          else (CTAP2_OK, e4)) (\<lambda>e6.
        cbor_encode enc_ok e6 [Close_Container])))))))"

definition ctap_encode_rp_entity :: "enc_ok \<Rightarrow> encoder \<Rightarrow> bytes \<Rightarrow> u8 \<times> encoder" where
  "ctap_encode_rp_entity enc_ok e rp_id =
     then_encode (cbor_encode enc_ok e [Create_Map 1, Encode_Text (ctap_str ''id'')]) (\<lambda>e1.
     then_encode (ctap_encode_ctap_string_as_text_string enc_ok e1 rp_id) (\<lambda>e2.
     cbor_encode enc_ok e2 [Close_Container]))"

text \<open>The operations of a complete encoding.\<close>

definition cred_desc_ops :: "bytes \<Rightarrow> encoder" where
  "cred_desc_ops cred_id = [Create_Map 2, Encode_Text (ctap_str ''id''), Encode_Bytes cred_id,
     Encode_Text (ctap_str ''type''), Encode_Text (ctap_str ''public-key''), Close_Container]"

definition public_key_ops :: "bytes \<Rightarrow> encoder" where
  "public_key_ops public_key = [Create_Map 5, Encode_Int 1, Encode_Int 2, Encode_Int 3,
     Encode_Int (-7), Encode_Int (-1), Encode_Int 1, Encode_Int (-2), Encode_Bytes (take 32 public_key),
     Encode_Int (-3), Encode_Bytes (take 32 (drop 32 public_key)), Close_Container]"

definition rp_entity_ops :: "bytes \<Rightarrow> encoder" where
  "rp_entity_ops rp_id = [Create_Map 1, Encode_Text (ctap_str ''id''), Encode_Text rp_id, Close_Container]"

definition user_entity_ops :: "CTAP_userEntity \<Rightarrow> bool \<Rightarrow> encoder" where
  "user_entity_ops user info =
     (let wn = info \<and> bit (user_fields user) 2; wd = info \<and> bit (user_fields user) 3 in
      [Create_Map (1 + (if wn then 1 else 0) + (if wd then 1 else 0)), Encode_Text (ctap_str ''id''),
       Encode_Bytes (user_id user)]
      @ (if wn then [Encode_Text (ctap_str ''name''), Encode_Text (user_name user)] else [])
      @ (if wd then [Encode_Text (ctap_str ''displayName''), Encode_Text (user_displayName user)] else [])
      @ [Close_Container])"

lemma then_encode_OK_iff:
  "then_encode r k = (CTAP2_OK, e') \<longleftrightarrow> (\<exists>e. r = (CTAP2_OK, e) \<and> k e = (CTAP2_OK, e'))"
  by (cases r) (auto simp: then_encode_def)

lemma cbor_encode_OK_iff:
  "cbor_encode enc_ok e ops = (CTAP2_OK, e')
     \<longleftrightarrow> e' = e @ ops \<and> (\<forall>n<length ops. enc_ok (e @ take (Suc n) ops))"
proof (induction ops arbitrary: e)
  case (Cons op ops)
  have "(\<forall>n<Suc (length ops). enc_ok (e @ take (Suc n) (op # ops)))
      \<longleftrightarrow> enc_ok (e @ [op]) \<and> (\<forall>n<length ops. enc_ok (e @ op # take (Suc n) ops))"
    by (auto simp: less_Suc_eq_0_disj)
  then show ?case by (simp add: Cons.IH)
qed auto

lemma encode_parts_OK:
  "ctap_encode_public_key enc_ok e pk = (CTAP2_OK, e') \<Longrightarrow> e' = e @ public_key_ops pk"
  "ctap_encode_pub_key_cred_desc enc_ok e i = (CTAP2_OK, e') \<Longrightarrow> e' = e @ cred_desc_ops i"
  "ctap_encode_rp_entity enc_ok e i = (CTAP2_OK, e') \<Longrightarrow> e' = e @ rp_entity_ops i"
  "ctap_encode_pub_key_cred_user_entity enc_ok e user info = Some (CTAP2_OK, e') \<Longrightarrow>
     e' = e @ user_entity_ops user info"
proof -
  show "ctap_encode_public_key enc_ok e pk = (CTAP2_OK, e') \<Longrightarrow> e' = e @ public_key_ops pk"
    unfolding ctap_encode_public_key_def Let_def public_key_ops_def by (simp only: cbor_encode_OK_iff)
  show "ctap_encode_pub_key_cred_desc enc_ok e i = (CTAP2_OK, e') \<Longrightarrow> e' = e @ cred_desc_ops i"
    by (auto simp: ctap_encode_pub_key_cred_desc_def ctap_encode_ctap_string_as_byte_string_def
        then_encode_OK_iff cbor_encode_OK_iff cred_desc_ops_def simp del: cbor_encode.simps)
  show "ctap_encode_rp_entity enc_ok e i = (CTAP2_OK, e') \<Longrightarrow> e' = e @ rp_entity_ops i"
    by (auto simp: ctap_encode_rp_entity_def ctap_encode_ctap_string_as_text_string_def
        then_encode_OK_iff cbor_encode_OK_iff rp_entity_ops_def simp del: cbor_encode.simps)
  show "ctap_encode_pub_key_cred_user_entity enc_ok e user info = Some (CTAP2_OK, e') \<Longrightarrow>
     e' = e @ user_entity_ops user info"
    by (auto simp: ctap_encode_pub_key_cred_user_entity_def ctap_encode_ctap_string_as_byte_string_def
        ctap_encode_ctap_string_as_text_string_def then_encode_OK_iff cbor_encode_OK_iff
        user_entity_ops_def require_def Let_def simp del: cbor_encode.simps split: if_splits)
qed

section \<open>authenticatorGetInfo\<close>

definition ctap_aaguid :: bytes where
  "ctap_aaguid = [0xa8, 0xa1, 0x47, 0x32, 0x6b, 0x7d, 0x12, 0x0d, 0xfb, 0x91, 0x73, 0x56, 0xbc, 0x18,
     0x98, 0x03]"

definition ctap_supported_pub_key_cred_alg :: "int list" where
  "ctap_supported_pub_key_cred_alg = [-7]"

text \<open>The two loops: the protocol versions in decreasing order, and the algorithms.\<close>

definition get_info_options :: "('h, 's) ctap_state \<Rightarrow> encoder" where
  "get_info_options s = [Create_Map 7,
     Encode_Text (ctap_str ''rk''), Encode_Boolean True,
     Encode_Text (ctap_str ''up''), Encode_Boolean True,
     Encode_Text (ctap_str ''plat''), Encode_Boolean False,
     Encode_Text (ctap_str ''credMgmt''), Encode_Boolean True,
     Encode_Text (ctap_str ''clientPin''), Encode_Boolean (ctap_is_pin_set s),
     Encode_Text (ctap_str ''pinUvAuthToken''), Encode_Boolean True,
     Encode_Text (ctap_str ''makeCredUvNotRqd''), Encode_Boolean True, Close_Container]"

definition ctap_get_info ::
    "('h, 's) ctap_interfaces \<Rightarrow> ('h, 's) ctap_state \<Rightarrow> encoder \<Rightarrow> u8 \<times> encoder" where
  "ctap_get_info env s encoder =
     cbor_encode (encoder_ok env) encoder
       ([Create_Map 10,
         Encode_Int 0x01, Create_Array 2, Encode_Text (ctap_str ''FIDO_2_0''),
           Encode_Text (ctap_str ''FIDO_2_1''), Close_Container,
         Encode_Int 0x02, Create_Array 2, Encode_Text (ctap_str ''credProtect''),
           Encode_Text (ctap_str ''hmac-secret''), Close_Container,
         Encode_Int 0x03, Encode_Bytes ctap_aaguid,
         Encode_Int 0x04]
        @ get_info_options s
        @ [Encode_Int 0x05, Encode_Int 1200,
           Encode_Int 0x06, Create_Array (length (pin_protocols s))]
        @ map (\<lambda>v. Encode_Int (int v)) (rev [1..<length (pin_protocols s) + 1])
        @ [Close_Container,
           Encode_Int 0x07, Encode_Int 128,
           Encode_Int 0x08, Encode_Int 128,
           Encode_Int 0x0A, Create_Array (length ctap_supported_pub_key_cred_alg)]
        @ concat (map (\<lambda>alg. [Create_Map 2, Encode_Text (ctap_str ''alg''), Encode_Int alg,
             Encode_Text (ctap_str ''type''), Encode_Text (ctap_str ''public-key''), Close_Container])
             ctap_supported_pub_key_cred_alg)
        @ [Close_Container,
           Encode_Int 0x0D, Encode_Int (uint (ctap_get_pin_min_code_point_length s)),
           Close_Container])"

end
