(* ===== verification/Credentials.thy ===== *)
theory Credentials
  imports Ctap_Encode Credential_Store User_Presence
begin

text \<open>
  The commands authenticatorMakeCredential, authenticatorGetAssertion and
  authenticatorGetNextAssertion (\<open>core/ctap_credentials.c\<close>). \<open>up\<close> is what
  \<open>ctap_wait_for_user_presence\<close> returns when the command calls it (no command calls it twice),
  \<open>now\<close> the clock when a token is used, \<open>bytes_of\<close> the bytes TinyCBOR writes for a sequence of
  encodings into one of the inner buffers, \<open>junk\<close> what the stack memory held before the command.
\<close>

section \<open>Options and status codes\<close>

abbreviation (input) CTAP2_ERR_CREDENTIAL_EXCLUDED :: u8 where "CTAP2_ERR_CREDENTIAL_EXCLUDED \<equiv> 0x19"
abbreviation (input) CTAP2_ERR_UNSUPPORTED_OPTION :: u8 where "CTAP2_ERR_UNSUPPORTED_OPTION \<equiv> 0x2B"
abbreviation (input) CTAP2_ERR_INVALID_OPTION :: u8 where "CTAP2_ERR_INVALID_OPTION \<equiv> 0x2C"
abbreviation (input) CTAP2_ERR_NO_CREDENTIALS :: u8 where "CTAP2_ERR_NO_CREDENTIALS \<equiv> 0x2E"
abbreviation (input) CTAP2_ERR_PUAT_REQUIRED :: u8 where "CTAP2_ERR_PUAT_REQUIRED \<equiv> 0x36"

abbreviation (input) auth_data_up :: u8 where "auth_data_up \<equiv> 0x01"
abbreviation (input) auth_data_uv :: u8 where "auth_data_uv \<equiv> 0x04"
abbreviation (input) auth_data_at :: u8 where "auth_data_at \<equiv> 0x40"
abbreviation (input) auth_data_ed :: u8 where "auth_data_ed \<equiv> 0x80"

definition is_option_present :: "CTAP_mc_ga_options \<Rightarrow> u8 \<Rightarrow> bool" where
  "is_option_present opts option \<longleftrightarrow> options_present opts AND option = option"

definition get_option_value :: "CTAP_mc_ga_options \<Rightarrow> u8 \<Rightarrow> bool" where
  "get_option_value opts option \<longleftrightarrow> options_values opts AND option = option"

definition get_option_value_or_false :: "CTAP_mc_ga_options \<Rightarrow> u8 \<Rightarrow> bool" where
  "get_option_value_or_false opts option =
     (if is_option_present opts option then get_option_value opts option else False)"

definition get_option_value_or_true :: "CTAP_mc_ga_options \<Rightarrow> u8 \<Rightarrow> bool" where
  "get_option_value_or_true opts option =
     (if is_option_present opts option then get_option_value opts option else True)"

abbreviation (input) has_param :: "CTAP_mc_ga_common \<Rightarrow> nat \<Rightarrow> bool" where
  "has_param params n \<equiv> ctap_is_present (params_present params) (ctap_param_to_mask n)"

text \<open>The uninitialised stack memory of a command.\<close>

record stack_memory =
  cred_params_junk :: "nat \<Rightarrow> CTAP_credParams"
  cred_desc_junk :: CTAP_credDesc
  source_buffer_junk :: bytes

section \<open>Verification of pinUvAuthParam\<close>

text \<open>The token's use is recorded in its state even when the verification fails.\<close>

definition verify_with_token :: "('h, 's) ctap_interfaces \<Rightarrow> u32 \<Rightarrow> ('h, 's) ctap_state \<Rightarrow> nat
    \<Rightarrow> bytes list \<Rightarrow> bytes \<Rightarrow> (bool \<times> ('h, 's) ctap_state) option" where
  "verify_with_token env now s i parts signature =
     (let p = pin_protocols s ! i in
      do { (ctx, t) \<leftarrow> ctap_pin_protocol_verify_init_with_pin_uv_auth_token (crypto_ops env) p now
             (pin_uv_auth_token_state s);
           let s1 = s\<lparr>pin_uv_auth_token_state := t\<rparr>;
           case ctx of
             None \<Rightarrow> Some (False, s1)
           | Some c \<Rightarrow> do {
               valid \<leftarrow> verify_final p (crypto_ops env)
                 (fold (\<lambda>d c. ctap_pin_protocol_verify_update (crypto_ops env) c d) parts c) signature;
               Some (valid, s1) } })"

definition verify_client_data_hash :: "('h, 's) ctap_interfaces \<Rightarrow> u32 \<Rightarrow> ('h, 's) ctap_state
    \<Rightarrow> CTAP_mc_ga_common \<Rightarrow> nat \<Rightarrow> (u8 \<times> ('h, 's) ctap_state) option" where
  "verify_client_data_hash env now s params i =
     do { (valid, s1) \<leftarrow> verify_with_token env now s i [clientDataHash params] (pinUvAuthParam params);
          Some (if valid then CTAP2_OK else CTAP2_ERR_PIN_AUTH_INVALID, s1) }"

text \<open>
  Steps 1 and 2 of both algorithms. The protocol is \<open>None\<close> when \<open>pinUvAuthParam\<close> is absent.
\<close>

definition handle_pin_uv_auth_param_and_protocol :: "('h, 's) ctap_state
    \<Rightarrow> ctap_user_presence_result \<Rightarrow> bool \<Rightarrow> nat \<Rightarrow> bool \<Rightarrow> u8 \<Rightarrow> u8 \<times> nat option" where
  "handle_pin_uv_auth_param_and_protocol s up param_present param_size protocol_present protocol =
     (if param_present \<and> param_size = 0 then
        (case up of
           CTAP_UP_RESULT_CANCEL \<Rightarrow> (CTAP2_ERR_KEEPALIVE_CANCEL, None)
         | CTAP_UP_RESULT_TIMEOUT \<Rightarrow> (CTAP2_ERR_OPERATION_DENIED, None)
         | CTAP_UP_RESULT_DENY \<Rightarrow> (CTAP2_ERR_OPERATION_DENIED, None)
         | CTAP_UP_RESULT_ALLOW \<Rightarrow>
             (if \<not> ctap_is_pin_set s then CTAP2_ERR_PIN_NOT_SET else CTAP2_ERR_PIN_INVALID, None))
      else if param_present then
        if \<not> protocol_present then (CTAP2_ERR_MISSING_PARAMETER, None)
        else case ctap_get_pin_protocol s (unat protocol) of
               None \<Rightarrow> (CTAP1_ERR_INVALID_PARAMETER, None)
             | Some i \<Rightarrow> (CTAP2_OK, Some i)
      else (CTAP2_OK, None))"

definition ensure_uv_option_false :: "bool \<Rightarrow> CTAP_mc_ga_options \<Rightarrow> u8" where
  "ensure_uv_option_false param_present opts =
     (let uv = (if param_present then False else get_option_value_or_false opts CTAP_ma_ga_option_uv) in
      if uv then CTAP2_ERR_INVALID_OPTION else CTAP2_OK)"

definition ensure_valid_pin_uv_auth_param :: "('h, 's) ctap_interfaces \<Rightarrow> u32 \<Rightarrow> ('h, 's) ctap_state
    \<Rightarrow> CTAP_mc_ga_common \<Rightarrow> CTAP_rpId \<Rightarrow> nat \<Rightarrow> u32 \<Rightarrow> (u8 \<times> ('h, 's) ctap_state) option" where
  "ensure_valid_pin_uv_auth_param env now s params rp i perms =
     ctap_check_state (verify_client_data_hash env now s params i) (\<lambda>s1.
       let t = pin_uv_auth_token_state s1 in
       if \<not> ctap_pin_uv_auth_token_has_permissions s1 perms
       then Some (CTAP2_ERR_PIN_AUTH_INVALID, s1)
       else if rpId_set t \<and> rpId_hash t \<noteq> rp_id_hash_value rp
       then Some (CTAP2_ERR_PIN_AUTH_INVALID, s1)
       else if \<not> ctap_pin_uv_auth_token_get_user_verified_flag_value s1
       then Some (CTAP2_ERR_PIN_AUTH_INVALID, s1)
       else Some (CTAP2_OK, if \<not> rpId_set t then s1\<lparr>pin_uv_auth_token_state := t\<lparr>
                rpId_hash := ctap_compute_rp_id_hash (crypto_ops env) (rpId_hash t) (rp_id_id rp),
                rpId_set := True\<rparr>\<rparr> else s1)) id"

definition ensure_user_present :: "('h, 's) ctap_state \<Rightarrow> ctap_user_presence_result \<Rightarrow> bool \<Rightarrow> u8" where
  "ensure_user_present s up param_present =
     (let present = (param_present \<and> ctap_pin_uv_auth_token_get_user_present_flag_value s) in
      if \<not> present then
        (case up of
           CTAP_UP_RESULT_CANCEL \<Rightarrow> CTAP2_ERR_KEEPALIVE_CANCEL
         | CTAP_UP_RESULT_TIMEOUT \<Rightarrow> CTAP2_ERR_OPERATION_DENIED
         | CTAP_UP_RESULT_DENY \<Rightarrow> CTAP2_ERR_OPERATION_DENIED
         | CTAP_UP_RESULT_ALLOW \<Rightarrow> CTAP2_OK)
      else CTAP2_OK)"

text \<open>Step 14.4 and 9.4: what was collected from the user is consumed.\<close>

definition consume_user_gestures :: "('h, 's) ctap_state \<Rightarrow> ('h, 's) ctap_state" where
  "consume_user_gestures s =
     ctap_pin_uv_auth_token_clear_permissions_except_lbw
       (ctap_pin_uv_auth_token_clear_user_verified_flag
         (ctap_pin_uv_auth_token_clear_user_present_flag s))"

section \<open>Lists of credentials in a request\<close>

text \<open>
  The loops of \<open>process_exclude_list\<close> and \<open>process_allow_list\<close>: \<open>n\<close> bounds the number of turns
  (one more than the entries of the list are enough, see \<open>exclude_list_fuel\<close>).
\<close>

fun exclude_list_loop :: "nat \<Rightarrow> ('h, 's) ctap_interfaces \<Rightarrow> 'v tinycbor \<Rightarrow> ('h, 's) ctap_state
    \<Rightarrow> ctap_user_presence_result \<Rightarrow> CTAP_rpId \<Rightarrow> bool \<Rightarrow> bool
    \<Rightarrow> 'v ctap_parse_pub_key_cred_desc_list_ctx \<Rightarrow> u8 option" where
  "exclude_list_loop 0 env dec s up rp param_present uv_collected ctx = None"
| "exclude_list_loop (Suc n) env dec s up rp param_present uv_collected ctx =
     (case ctap_parse_pub_key_cred_desc_list_next_cred dec ctx of
        Abort \<Rightarrow> None
      | Err e \<Rightarrow> Some e
      | Ok (None, ctx1) \<Rightarrow> Some CTAP2_OK
      | Ok (Some cred_desc, ctx1) \<Rightarrow>
          let continue_loop = exclude_list_loop n env dec s up rp param_present uv_collected ctx1 in
          do { found \<leftarrow> ctap_lookup_credential_by_desc (storage_ops env) (storage s) cred_desc;
               case found of
                 None \<Rightarrow> continue_loop
               | Some c \<Rightarrow> do {
                   matches \<leftarrow> ctap_credential_matches_rp c rp;
                   if \<not> matches then continue_loop
                   else if ctap_credential_get_cred_protect c = 3 \<and> \<not> uv_collected then continue_loop
                   else
                     let present = (param_present
                           \<and> ctap_pin_uv_auth_token_get_user_present_flag_value s) in
                     Some (if \<not> present \<and> up = CTAP_UP_RESULT_CANCEL then CTAP2_ERR_KEEPALIVE_CANCEL
                           else CTAP2_ERR_CREDENTIAL_EXCLUDED) } })"

definition process_exclude_list :: "('h, 's) ctap_interfaces \<Rightarrow> 'v tinycbor \<Rightarrow> stack_memory
    \<Rightarrow> ('h, 's) ctap_state \<Rightarrow> ctap_user_presence_result \<Rightarrow> 'v option \<Rightarrow> CTAP_rpId \<Rightarrow> bool \<Rightarrow> bool
    \<Rightarrow> u8 option" where
  "process_exclude_list env dec junk s up exclude_list rp param_present uv_collected =
     (case ctap_parse_pub_key_cred_desc_list_init dec (cred_desc_junk junk) exclude_list of
        Abort \<Rightarrow> None
      | Err e \<Rightarrow> Some e
      | Ok ctx \<Rightarrow> exclude_list_loop (list_length ctx + 1) env dec s up rp param_present uv_collected ctx)"

fun allow_list_loop :: "nat \<Rightarrow> ('h, 's) ctap_interfaces \<Rightarrow> 'v tinycbor \<Rightarrow> ('h, 's) ctap_state
    \<Rightarrow> CTAP_rpId \<Rightarrow> bool \<Rightarrow> nat \<Rightarrow> 'v ctap_parse_pub_key_cred_desc_list_ctx
    \<Rightarrow> ctap_credential_handle list \<Rightarrow> (u8 + ctap_credential_handle list) option" where
  "allow_list_loop 0 env dec s rp uv max_num ctx credentials = None"
| "allow_list_loop (Suc n) env dec s rp uv max_num ctx credentials =
     (case ctap_parse_pub_key_cred_desc_list_next_cred dec ctx of
        Abort \<Rightarrow> None
      | Err e \<Rightarrow> Some (Inl e)
      | Ok (None, ctx1) \<Rightarrow> Some (Inr credentials)
      | Ok (Some cred_desc, ctx1) \<Rightarrow>
          let continue_with = allow_list_loop n env dec s rp uv max_num ctx1 in
          do { found \<leftarrow> ctap_lookup_credential_by_desc (storage_ops env) (storage s) cred_desc;
               case found of
                 None \<Rightarrow> continue_with credentials
               | Some c \<Rightarrow> do {
                   matches \<leftarrow> ctap_credential_matches_rp c rp;
                   if \<not> matches then continue_with credentials
                   else if \<not> ctap_should_add_credential_to_list c True uv
                   then continue_with credentials
                   else if length credentials = max_num then Some (Inl CTAP1_ERR_INVALID_LENGTH)
                   else continue_with (credentials @ [c]) } })"

definition process_allow_list :: "('h, 's) ctap_interfaces \<Rightarrow> 'v tinycbor \<Rightarrow> stack_memory
    \<Rightarrow> ('h, 's) ctap_state \<Rightarrow> 'v option \<Rightarrow> CTAP_rpId \<Rightarrow> bool \<Rightarrow> nat
    \<Rightarrow> (u8 + ctap_credential_handle list) option" where
  "process_allow_list env dec junk s allow_list rp uv max_num =
     (case ctap_parse_pub_key_cred_desc_list_init dec (cred_desc_junk junk) allow_list of
        Abort \<Rightarrow> None
      | Err e \<Rightarrow> Some (Inl e)
      | Ok ctx \<Rightarrow> allow_list_loop (list_length ctx + 1) env dec s rp uv max_num ctx [])"

section \<open>authenticatorMakeCredential\<close>

text \<open>An inner encoder succeeds as long as its bytes fit into its buffer.\<close>

definition fits_buffer :: "(encoder \<Rightarrow> bytes) \<Rightarrow> nat \<Rightarrow> enc_ok" where
  "fits_buffer bytes_of n ops \<longleftrightarrow> length (bytes_of ops) \<le> n"

text \<open>The members \<open>aaguid\<close>, \<open>credentialIdLength\<close> and \<open>variable_data\<close> (208 bytes), up to its end.\<close>

definition create_attested_credential_data :: "'h ctap_crypto \<Rightarrow> (encoder \<Rightarrow> bytes) \<Rightarrow> nat
    \<Rightarrow> ctap_credential_handle \<Rightarrow> ((u8 + bytes) \<times> nat) option" where
  "create_attested_credential_data c bytes_of rng credential =
     (let credential_id = ctap_credential_get_id credential in
      require (length credential_id \<le> 1023) (
      require (length credential_id \<le> 208) (
      let (status, public_key, rng1) = ctap_credential_compute_public_key c rng credential in
      if status \<noteq> CTAP2_OK then Some (Inl status, rng1)
      else
        let (status2, encoder) = ctap_encode_public_key
              (fits_buffer bytes_of (208 - length credential_id)) [] public_key in
        if status2 \<noteq> CTAP2_OK then Some (Inl status2, rng1)
        else
          let size = of_nat (length credential_id) :: u16;
              out = ctap_aaguid @ [hi8 size, lo8 size] @ credential_id @ bytes_of encoder in
          require (length out \<le> 226) (Some (Inr out, rng1)))))"

definition encode_make_credential_authenticator_data_extensions ::
    "(encoder \<Rightarrow> bytes) \<Rightarrow> nat \<Rightarrow> u8 \<Rightarrow> ctap_credential_handle \<Rightarrow> u8 + bytes" where
  "encode_make_credential_authenticator_data_extensions bytes_of buffer_size ext_present credential =
     (let enc_ok = fits_buffer bytes_of buffer_size;
          with_protect = (ext_present AND CTAP_extension_credProtect \<noteq> 0);
          with_hmac = (ext_present AND CTAP_extension_hmac_secret \<noteq> 0);
          num = (if with_protect then 1 else 0) + (if with_hmac then 1 else 0);
          (status, e) = cbor_encode enc_ok [] ([Create_Map num]
            @ (if with_protect then [Encode_Text (ctap_str ''credProtect''),
                 Encode_Int (uint (ctap_credential_get_cred_protect credential))] else [])
            @ (if with_hmac then [Encode_Text (ctap_str ''hmac-secret''), Encode_Boolean True] else [])
            @ [Close_Container]) in
      if status \<noteq> CTAP2_OK then Inl status else Inr (bytes_of e))"

definition compute_signature :: "'h ctap_crypto \<Rightarrow> nat \<Rightarrow> bytes \<Rightarrow> bytes \<Rightarrow> ctap_credential_handle
    \<Rightarrow> ((u8 + bytes) \<times> nat) option" where
  "compute_signature c rng auth_data cdh credential =
     require (32 \<le> length cdh) (
     let alg = crypto_sha256 c;
         message_hash = fst (hash_final alg (hash_update alg (hash_update alg
           (hash_init alg (sha256_bound_ctx c)) auth_data) (take 32 cdh))) in
     case ctap_credential_compute_signature c rng credential message_hash of
       (Inl e, rng1) \<Rightarrow> Some (Inl e, rng1)
     | (Inr signature, rng1) \<Rightarrow>
         do { (out, out_size) \<leftarrow> ctap_convert_to_asn1_der_ecdsa_sig_value signature;
              Some (Inr (take out_size out), rng1) })"

definition create_self_attestation_statement :: "'h ctap_crypto \<Rightarrow> enc_ok \<Rightarrow> nat \<Rightarrow> encoder
    \<Rightarrow> bytes \<Rightarrow> bytes \<Rightarrow> ctap_credential_handle \<Rightarrow> (u8 \<times> encoder \<times> nat) option" where
  "create_self_attestation_statement c enc_ok rng encoder auth_data cdh credential =
     do { (sig, rng1) \<leftarrow> compute_signature c rng auth_data cdh credential;
          case sig of
            Inl e \<Rightarrow> Some (e, encoder, rng1)
          | Inr asn1_der_sig \<Rightarrow>
              let (status, e1) = cbor_encode enc_ok encoder
                    [Create_Map 2, Encode_Text (ctap_str ''alg''), Encode_Int (-7),
                     Encode_Text (ctap_str ''sig''), Encode_Bytes asn1_der_sig, Close_Container] in
              Some (status, e1, rng1) }"

text \<open>The authenticator data: hash of the relying party, flags, counter (big-endian), variable part.\<close>

definition authenticator_data :: "bytes \<Rightarrow> u8 \<Rightarrow> u32 \<Rightarrow> bytes \<Rightarrow> bytes" where
  "authenticator_data rp_hash flags sign_count variable_part =
     rp_hash @ [flags] @ be32 sign_count @ variable_part"

text \<open>
  Steps 16 to 19: the credential is created and the response is built. The size of
  \<open>variable_data\<close> in the authenticator data is 321.
\<close>

definition finish_make_credential :: "('h, 's) ctap_interfaces \<Rightarrow> (encoder \<Rightarrow> bytes) \<Rightarrow> stack_memory
    \<Rightarrow> ('h, 's) ctap_state \<Rightarrow> CTAP_mc_ga_common \<Rightarrow> CTAP_rpId \<Rightarrow> CTAP_userEntity \<Rightarrow> bool \<Rightarrow> u8
    \<Rightarrow> u8 \<Rightarrow> encoder \<Rightarrow> (u8 \<times> ('h, 's) ctap_state \<times> encoder) option" where
  "finish_make_credential env bytes_of junk s params rp user discoverable cred_protect flags encoder =
     (let c = crypto_ops env; has_ext = has_param params 6 in
      do { (status, cred, st1, rng1) \<leftarrow> ctap_create_credential (storage_ops env) c
             (source_buffer_junk junk) (storage s) (rng_position s) discoverable cred_protect rp user;
           let s1 = s\<lparr>storage := st1, rng_position := rng1\<rparr>;
           case cred of
             None \<Rightarrow> Some (status, s1, encoder)
           | Some credential \<Rightarrow> do {
           (status2, counter, st2, rng2) \<leftarrow> ctap_increment_global_signature_counter (storage_ops env) c
             (storage s1) (rng_position s1);
           let s2 = s1\<lparr>storage := st2, rng_position := rng2\<rparr>;
           case counter of
             None \<Rightarrow> Some (status2, s2, encoder)
           | Some sign_count \<Rightarrow> do {
           (attested, rng3) \<leftarrow> create_attested_credential_data c bytes_of (rng_position s2) credential;
           let s3 = s2\<lparr>rng_position := rng3\<rparr>;
           case attested of
             Inl e \<Rightarrow> Some (e, s3, encoder)
           | Inr attested_data \<Rightarrow>
             (case (if has_ext then encode_make_credential_authenticator_data_extensions bytes_of
                      (321 - length attested_data) (extensions_present params) credential
                    else Inr []) of
                Inl e \<Rightarrow> Some (e, s3, encoder)
              | Inr extensions_data \<Rightarrow>
                  let flags1 = flags OR auth_data_at OR (if has_ext then auth_data_ed else 0);
                      variable_part = attested_data @ extensions_data;
                      auth_data = authenticator_data (rp_id_hash_value rp) flags1 sign_count
                        variable_part in
                  require (length variable_part < 321) (
                  let (status4, e1) = cbor_encode (encoder_ok env) encoder
                        [Create_Map 3, Encode_Int 1, Encode_Text (ctap_str ''packed''),
                         Encode_Int 2, Encode_Bytes auth_data, Encode_Int 3] in
                  if status4 \<noteq> CTAP2_OK then Some (status4, s3, e1)
                  else do {
                    (status5, e2, rng4) \<leftarrow> create_self_attestation_statement c (encoder_ok env)
                       (rng_position s3) e1 auth_data (clientDataHash params) credential;
                    let s4 = s3\<lparr>rng_position := rng4\<rparr>;
                    if status5 \<noteq> CTAP2_OK then Some (status5, s4, e2)
                    else
                      let (status6, e3) = cbor_encode (encoder_ok env) e2 [Close_Container] in
                      Some (status6, s4, e3) })) } } })"

text \<open>Step 11: the protection by the PIN. The result is the flags of the response so far.\<close>

definition verify_make_credential :: "('h, 's) ctap_interfaces \<Rightarrow> u32 \<Rightarrow> ('h, 's) ctap_state
    \<Rightarrow> CTAP_mc_ga_common \<Rightarrow> CTAP_rpId \<Rightarrow> nat option \<Rightarrow> bool \<Rightarrow> (u8 \<times> ('h, 's) ctap_state \<times> u8) option" where
  "verify_make_credential env now s params rp protocol discoverable =
     (let param_present = has_param params 8;
          allow_no_verification = (\<not> discoverable \<and> \<not> param_present) in
      if \<not> allow_no_verification \<and> ctap_is_pin_set s \<and> param_present then
        require (protocol \<noteq> None) (
        ctap_check_state (ensure_valid_pin_uv_auth_param env now s params rp (the protocol) permission_mc)
          (\<lambda>s1. Some (CTAP2_OK, s1, auth_data_uv)) (\<lambda>s1. (s1, 0)))
      else Some (CTAP2_OK, s, 0))"

text \<open>Steps 12 to 19: the list of excluded credentials, the user's consent, the new credential.\<close>

definition make_credential_protection :: "CTAP_mc_ga_common \<Rightarrow> 'v CTAP_makeCredential \<Rightarrow> u8" where
  "make_credential_protection params mc =
     (if has_param params 6 \<and> extensions_present params AND CTAP_extension_credProtect \<noteq> 0
         \<and> (credProtect mc = 2 \<or> credProtect mc = 3)
      then credProtect mc else 1)"

definition make_credential_verified :: "('h, 's) ctap_interfaces \<Rightarrow> 'v tinycbor \<Rightarrow> (encoder \<Rightarrow> bytes)
    \<Rightarrow> stack_memory \<Rightarrow> ctap_user_presence_result \<Rightarrow> ('h, 's) ctap_state \<Rightarrow> 'v CTAP_makeCredential
    \<Rightarrow> CTAP_rpId \<Rightarrow> bool \<Rightarrow> u8 \<Rightarrow> encoder \<Rightarrow> (u8 \<times> ('h, 's) ctap_state \<times> encoder) option" where
  "make_credential_verified env dec bytes_of junk up s mc rp discoverable flags encoder =
     (let params = mc_common mc; param_present = has_param params 8 in
      do { exclude_status \<leftarrow> (if has_param params 5
             then process_exclude_list env dec junk s up (excludeList mc) rp param_present
                    (flags AND auth_data_uv \<noteq> 0)
             else Some CTAP2_OK);
           if exclude_status \<noteq> CTAP2_OK then Some (exclude_status, s, encoder)
           else
             let present_status = ensure_user_present s up param_present in
             if present_status \<noteq> CTAP2_OK then Some (present_status, s, encoder)
             else
               finish_make_credential env bytes_of junk (consume_user_gestures s) params rp
                 (mc_user mc) discoverable (make_credential_protection params mc)
                 (flags OR auth_data_up) encoder })"

text \<open>The options of a request, with what follows from the PIN and from \<open>enterpriseAttestation\<close>.\<close>

definition make_credential_option_status :: "('h, 's) ctap_state \<Rightarrow> CTAP_mc_ga_common \<Rightarrow> bool \<Rightarrow> u8" where
  "make_credential_option_status s params discoverable =
     (let opts = options params; param_present = has_param params 8;
          option_status = (if has_param params 7 then
              if ensure_uv_option_false param_present opts \<noteq> CTAP2_OK
              then ensure_uv_option_false param_present opts
              else if is_option_present opts CTAP_ma_ga_option_up
                  \<and> \<not> get_option_value opts CTAP_ma_ga_option_up
              then CTAP2_ERR_INVALID_OPTION else CTAP2_OK
            else CTAP2_OK) in
      if option_status \<noteq> CTAP2_OK then option_status
      else if ctap_is_pin_set s \<and> \<not> param_present \<and> discoverable then CTAP2_ERR_PUAT_REQUIRED
      else if has_param params 10 then CTAP1_ERR_INVALID_PARAMETER
      else CTAP2_OK)"

definition ctap_make_credential :: "('h, 's) ctap_interfaces \<Rightarrow> 'v tinycbor \<Rightarrow> (encoder \<Rightarrow> bytes)
    \<Rightarrow> stack_memory \<Rightarrow> ctap_user_presence_result \<Rightarrow> u32 \<Rightarrow> ('h, 's) ctap_state \<Rightarrow> 'v option \<Rightarrow> encoder
    \<Rightarrow> (u8 \<times> ('h, 's) ctap_state \<times> encoder) option" where
  "ctap_make_credential env dec bytes_of junk up now s it encoder =
     (case ctap_parse_make_credential dec it of
        Abort \<Rightarrow> None
      | Err e \<Rightarrow> Some (e, s, encoder)
      | Ok (mc, it1) \<Rightarrow>
          let params = mc_common mc;
              rp = \<lparr>rp_id_id = rpId params, rp_id_hash_value =
                     ctap_compute_rp_id_hash (crypto_ops env) (zeros 32) (rpId params)\<rparr>;
              (status, protocol) = handle_pin_uv_auth_param_and_protocol s up (has_param params 8)
                (length (pinUvAuthParam params)) (has_param params 9) (pinUvAuthProtocol params) in
          if status \<noteq> CTAP2_OK then Some (status, s, encoder)
          else case ctap_parse_make_credential_pub_key_cred_params dec (cred_params_junk junk) mc of
            Abort \<Rightarrow> None
          | Err e \<Rightarrow> Some (e, s, encoder)
          | Ok mc1 \<Rightarrow>
              let discoverable = get_option_value_or_false (options params) CTAP_ma_ga_option_rk;
                  option_status = make_credential_option_status s params discoverable in
              if option_status \<noteq> CTAP2_OK then Some (option_status, s, encoder)
              else
                ctap_check_state (verify_make_credential env now s params rp protocol discoverable)
                  (\<lambda>(s1, flags).
                    make_credential_verified env dec bytes_of junk up s1 mc1 rp discoverable flags
                      encoder)
                  (\<lambda>(s1, flags). (s1, encoder)))"

section \<open>The hmac-secret extension of authenticatorGetAssertion\<close>

text \<open>
  The state of the command is written through a pointer into the state of the authenticator; a
  status other than \<open>CTAP2_OK\<close> leaves what was written so far.
\<close>

definition set_get_assertion_state ::
    "('h, 's) ctap_state \<Rightarrow> ctap_get_assertion_state \<Rightarrow> ('h, 's) ctap_state" where
  "set_get_assertion_state s g = s\<lparr>stateful_command_state :=
     (stateful_command_state s)\<lparr>cmd_data := Get_Assertion g\<rparr>\<rparr>"

definition prepare_get_assertion_hmac_secret_extension :: "('h, 's) ctap_interfaces
    \<Rightarrow> ('h, 's) ctap_state \<Rightarrow> ctap_get_assertion_state \<Rightarrow> CTAP_getAssertion_hmac_secret \<Rightarrow> u8
    \<Rightarrow> (u8 \<times> ('h, 's) ctap_state \<times> ctap_get_assertion_state) option" where
  "prepare_get_assertion_hmac_secret_extension env s g hs flags =
     (if flags AND auth_data_up = 0 then Some (CTAP2_ERR_UNSUPPORTED_OPTION, s, g)
      else
        let protocol = (if ctap_is_present (hs_present hs) (ctap_param_to_mask 4)
              then hs_pinUvAuthProtocol hs else 1) in
        case ctap_get_pin_protocol s (unat protocol) of
          None \<Rightarrow> Some (CTAP1_ERR_INVALID_PARAMETER, s, g)
        | Some i \<Rightarrow>
            let p = pin_protocols s ! i in
            require (shared_secret_length p \<le> 64) (
            do { (secret, s1) \<leftarrow> decapsulate_request env s i (hs_keyAgreement hs);
                 case secret of
                   None \<Rightarrow> Some (CTAP1_ERR_INVALID_PARAMETER, s1, g)
                 | Some shared_secret \<Rightarrow> do {
                     let g1 = g\<lparr>hmac_shared_secret := shared_secret\<rparr>;
                     valid \<leftarrow> verify_request env s1 i shared_secret [hs_saltEnc hs] (hs_saltAuth hs);
                     if \<not> valid then Some (CTAP2_ERR_PIN_AUTH_INVALID, s1, g1)
                     else if length (hs_saltEnc hs) < encryption_extra_length p
                     then Some (CTAP1_ERR_INVALID_PARAMETER, s1, g1)
                     else
                       let salt_length = length (hs_saltEnc hs) - encryption_extra_length p in
                       if salt_length \<noteq> 32 \<and> salt_length \<noteq> 64
                       then Some (CTAP1_ERR_INVALID_PARAMETER, s1, g1)
                       else do {
                         decrypted \<leftarrow> protocol_decrypt p (crypto_ops env) shared_secret (hs_saltEnc hs) 64;
                         case decrypted of
                           None \<Rightarrow> Some (CTAP1_ERR_INVALID_PARAMETER, s1, g1)
                         | Some salt \<Rightarrow> Some (CTAP2_OK, s1, g1\<lparr>hmac_salt := take salt_length salt,
                             hmac_pin_protocol := i, ga_extensions := CTAP_extension_hmac_secret\<rparr>) } } }))"

text \<open>The outputs for the one or two salts, encrypted for the platform.\<close>

definition hmac_secret_output :: "'h ctap_crypto \<Rightarrow> bytes \<Rightarrow> bytes \<Rightarrow> bytes option" where
  "hmac_secret_output c cred_random salt =
     require (length salt = 32 \<or> length salt = 64) (
     let alg = crypto_sha256 c in
     do { h1 \<leftarrow> hmac_init alg (sha256_bound_ctx c) cred_random;
          let (out1, ctx1) = hmac_final alg (hmac_update alg h1 (take 32 salt));
          if length salt = 64 then do {
            h2 \<leftarrow> hmac_init alg ctx1 cred_random;
            Some (out1 @ fst (hmac_final alg (hmac_update alg h2 (drop 32 salt)))) }
          else Some out1 })"

definition generate_get_assertion_hmac_secret_extension_output :: "'h ctap_crypto
    \<Rightarrow> 'h ctap_pin_protocol list \<Rightarrow> nat \<Rightarrow> ctap_get_assertion_state \<Rightarrow> ctap_credential_handle
    \<Rightarrow> ((u8 + bytes) \<times> nat) option" where
  "generate_get_assertion_hmac_secret_extension_output c protocols rng g credential =
     (let p = protocols ! hmac_pin_protocol g;
          cred_random = ctap_credential_get_cred_random credential
            (auth_data_flags g AND auth_data_uv \<noteq> 0) in
      do { out \<leftarrow> hmac_secret_output c cred_random (hmac_salt g);
           (encrypted, rng1) \<leftarrow> protocol_encrypt p c rng (hmac_shared_secret g) out
              (length (hmac_salt g) + encryption_extra_length p);
           Some (case encrypted of None \<Rightarrow> (Inl CTAP1_ERR_OTHER, rng1) | Some e \<Rightarrow> (Inr e, rng1)) })"

definition generate_get_assertion_extensions_output :: "'h ctap_crypto \<Rightarrow> (encoder \<Rightarrow> bytes)
    \<Rightarrow> 'h ctap_pin_protocol list \<Rightarrow> nat \<Rightarrow> nat \<Rightarrow> ctap_get_assertion_state
    \<Rightarrow> ((u8 + bytes) \<times> nat) option" where
  "generate_get_assertion_extensions_output c bytes_of protocols buffer_size rng g =
     require (ga_next_credential_idx g < length (ga_credentials g)) (
     let credential = ga_credentials g ! ga_next_credential_idx g;
         enc_ok = fits_buffer bytes_of buffer_size;
         with_hmac = (ga_extensions g AND CTAP_extension_hmac_secret \<noteq> 0);
         (status, e1) = cbor_encode enc_ok [] [Create_Map (if with_hmac then 1 else 0)] in
     if status \<noteq> CTAP2_OK then Some (Inl status, rng)
     else if with_hmac then
       let (status2, e2) = cbor_encode enc_ok e1 [Encode_Text (ctap_str ''hmac-secret'')] in
       if status2 \<noteq> CTAP2_OK then Some (Inl status2, rng)
       else do {
         (out, rng1) \<leftarrow> generate_get_assertion_hmac_secret_extension_output c protocols rng g credential;
         case out of
           Inl e \<Rightarrow> Some (Inl e, rng1)
         | Inr output_enc \<Rightarrow>
             let (status3, e3) = cbor_encode enc_ok e2 [Encode_Bytes output_enc, Close_Container] in
             Some (if status3 \<noteq> CTAP2_OK then (Inl status3, rng1) else (Inr (bytes_of e3), rng1)) }
     else
       let (status3, e3) = cbor_encode enc_ok e1 [Close_Container] in
       Some (if status3 \<noteq> CTAP2_OK then (Inl status3, rng) else (Inr (bytes_of e3), rng)))"

section \<open>authenticatorGetAssertion\<close>

text \<open>The encoding of the response, after the signature was made.\<close>

definition encode_get_assertion_response :: "enc_ok \<Rightarrow> ctap_get_assertion_state
    \<Rightarrow> ctap_credential_handle \<Rightarrow> bytes \<Rightarrow> bytes \<Rightarrow> encoder \<Rightarrow> (u8 \<times> encoder) option" where
  "encode_get_assertion_response enc_ok g credential auth_data signature encoder =
     (let num_credentials = (if ga_next_credential_idx g = 0 then length (ga_credentials g) else 0);
          (status1, e1) = then_encode (cbor_encode enc_ok encoder
               [Create_Map (if num_credentials > 0 then 5 else 4), Encode_Int 1]) (\<lambda>e1.
             then_encode (ctap_encode_pub_key_cred_desc enc_ok e1 (ctap_credential_get_id credential)) (\<lambda>e2.
             cbor_encode enc_ok e2 [Encode_Int 2, Encode_Bytes auth_data, Encode_Int 3,
                Encode_Bytes signature, Encode_Int 4])) in
      if status1 \<noteq> CTAP2_OK then Some (status1, e1)
      else do {
        user \<leftarrow> ctap_credential_get_user credential;
        r \<leftarrow> ctap_encode_pub_key_cred_user_entity enc_ok e1 user (auth_data_flags g AND auth_data_uv \<noteq> 0);
        Some (then_encode r (\<lambda>e2. cbor_encode enc_ok e2
          ((if num_credentials > 0 then [Encode_Int 5, Encode_Int (int num_credentials)] else [])
           @ [Close_Container]))) })"

definition generate_get_assertion_response :: "('h, 's) ctap_interfaces \<Rightarrow> (encoder \<Rightarrow> bytes)
    \<Rightarrow> ('h, 's) ctap_state \<Rightarrow> ctap_get_assertion_state \<Rightarrow> encoder
    \<Rightarrow> (u8 \<times> ('h, 's) ctap_state \<times> encoder) option" where
  "generate_get_assertion_response env bytes_of s g encoder =
     (let c = crypto_ops env; credential = ga_credentials g ! ga_next_credential_idx g in
      require (ga_next_credential_idx g < length (ga_credentials g)) (
      do { (status, counter, st1, rng1) \<leftarrow> ctap_increment_global_signature_counter (storage_ops env) c
             (storage s) (rng_position s);
           let s1 = s\<lparr>storage := st1, rng_position := rng1\<rparr>;
           case counter of
             None \<Rightarrow> Some (status, s1, encoder)
           | Some sign_count \<Rightarrow> do {
             (extensions_data, rng2) \<leftarrow> (if ga_extensions g \<noteq> 0
                then generate_get_assertion_extensions_output c bytes_of (pin_protocols s) 321
                       (rng_position s1) g
                else Some (Inr [], rng_position s1));
             let s2 = s1\<lparr>rng_position := rng2\<rparr>;
             case extensions_data of
               Inl e \<Rightarrow> Some (e, s2, encoder)
             | Inr variable_part \<Rightarrow>
                 let flags = auth_data_flags g OR (if ga_extensions g \<noteq> 0 then auth_data_ed else 0);
                     auth_data = authenticator_data (auth_data_rp_id_hash g) flags sign_count
                       variable_part in
                 require (length variable_part < 321) (
                 do { (sig, rng3) \<leftarrow> compute_signature c (rng_position s2) auth_data
                        (client_data_hash g) credential;
                      let s3 = s2\<lparr>rng_position := rng3\<rparr>;
                      case sig of
                        Inl e \<Rightarrow> Some (e, s3, encoder)
                      | Inr signature \<Rightarrow> do {
                          (status4, e1) \<leftarrow> encode_get_assertion_response (encoder_ok env) g credential
                             auth_data signature encoder;
                          Some (status4, s3, e1) } }) } }))"

text \<open>
  The state of the command when it begins: the parts that are written before they are read may
  hold anything; what remains of another command is represented by zeros.
\<close>

definition zero_get_assertion_state :: ctap_get_assertion_state where
  "zero_get_assertion_state = \<lparr>client_data_hash = zeros 32, auth_data_rp_id_hash = zeros 32,
     auth_data_flags = 0, ga_extensions = 0, hmac_pin_protocol = 0, hmac_shared_secret = zeros 64,
     hmac_salt = [], ga_credentials = [], ga_next_credential_idx = 0\<rparr>"

definition begin_get_assertion_state :: "stateful_data \<Rightarrow> ctap_get_assertion_state" where
  "begin_get_assertion_state d =
     (let g = (case d of Get_Assertion g \<Rightarrow> g | _ \<Rightarrow> zero_get_assertion_state) in
      g\<lparr>ga_extensions := 0, ga_credentials := [], ga_next_credential_idx := 0\<rparr>)"

text \<open>
  Step 12 or 13: the response for the first credential; with more than one, and no allow list,
  the others are remembered.
\<close>

definition remember_credentials :: "bool \<Rightarrow> ('h, 's) ctap_state \<Rightarrow> ctap_get_assertion_state
    \<Rightarrow> ('h, 's) ctap_state option" where
  "remember_credentials has_allow_list s g =
     (if \<not> has_allow_list \<and> length (ga_credentials g) > 1 then
        ctap_update_stateful_command_timer (s\<lparr>stateful_command_state := (stateful_command_state s)\<lparr>
          active_cmd := CTAP_STATEFUL_CMD_GET_ASSERTION,
          cmd_data := Get_Assertion (g\<lparr>ga_next_credential_idx := 1\<rparr>)\<rparr>\<rparr>)
      else Some (set_get_assertion_state s zero_get_assertion_state))"

definition respond_get_assertion :: "('h, 's) ctap_interfaces \<Rightarrow> (encoder \<Rightarrow> bytes)
    \<Rightarrow> ('h, 's) ctap_state \<Rightarrow> ctap_get_assertion_state \<Rightarrow> CTAP_mc_ga_common \<Rightarrow> CTAP_rpId \<Rightarrow> u8
    \<Rightarrow> encoder \<Rightarrow> (u8 \<times> ('h, 's) ctap_state \<times> encoder) option" where
  "respond_get_assertion env bytes_of s g params rp flags encoder =
     require (32 \<le> length (clientDataHash params)) (
     let g2 = g\<lparr>client_data_hash := take 32 (clientDataHash params),
           auth_data_rp_id_hash := rp_id_hash_value rp, auth_data_flags := flags\<rparr> in
     ctap_check_state
       (generate_get_assertion_response env bytes_of (set_get_assertion_state s g2) g2 encoder)
       (\<lambda>(s3, e1). do { s4 \<leftarrow> remember_credentials (has_param params 3) s3 g2;
                       Some (CTAP2_OK, s4, e1) }) id)"

text \<open>Steps 9 to 13, with the credentials located.\<close>

definition finish_get_assertion :: "('h, 's) ctap_interfaces \<Rightarrow> (encoder \<Rightarrow> bytes)
    \<Rightarrow> ctap_user_presence_result \<Rightarrow> ('h, 's) ctap_state \<Rightarrow> ctap_get_assertion_state
    \<Rightarrow> 'v CTAP_getAssertion \<Rightarrow> CTAP_rpId \<Rightarrow> bool \<Rightarrow> u8 \<Rightarrow> encoder
    \<Rightarrow> (u8 \<times> ('h, 's) ctap_state \<times> encoder) option" where
  "finish_get_assertion env bytes_of up s g ga rp up_option flags encoder =
     (let params = ga_common ga;
          present_status = (if up_option then ensure_user_present s up (has_param params 6)
                            else CTAP2_OK) in
      if present_status \<noteq> CTAP2_OK then Some (present_status, s, encoder)
      else
        let s1 = (if up_option then consume_user_gestures s else s);
            flags1 = (if up_option then flags OR auth_data_up else flags) in
        ctap_check_state
          (if has_param params 4 \<and> extensions_present params AND CTAP_extension_hmac_secret \<noteq> 0
           then prepare_get_assertion_hmac_secret_extension env s1 g (hmac_secret ga) flags1
           else Some (CTAP2_OK, s1, g))
          (\<lambda>(s2, g1). respond_get_assertion env bytes_of s2 g1 params rp flags1 encoder)
          (\<lambda>(s2, g1). (set_get_assertion_state s2 g1, encoder)))"

text \<open>Step 6 (the PIN), and step 7 with 8 (the credentials).\<close>

definition verify_get_assertion :: "('h, 's) ctap_interfaces \<Rightarrow> u32 \<Rightarrow> ('h, 's) ctap_state
    \<Rightarrow> CTAP_mc_ga_common \<Rightarrow> CTAP_rpId \<Rightarrow> nat option \<Rightarrow> (u8 \<times> ('h, 's) ctap_state \<times> u8) option" where
  "verify_get_assertion env now s params rp protocol =
     (if ctap_is_pin_set s \<and> has_param params 6 then
        require (protocol \<noteq> None) (
        ctap_check_state (ensure_valid_pin_uv_auth_param env now s params rp (the protocol) permission_ga)
          (\<lambda>s1. Some (CTAP2_OK, s1, auth_data_uv)) (\<lambda>s1. (s1, 0)))
      else Some (CTAP2_OK, s, 0))"

definition locate_credentials :: "('h, 's) ctap_interfaces \<Rightarrow> 'v tinycbor \<Rightarrow> stack_memory
    \<Rightarrow> ('h, 's) ctap_state \<Rightarrow> 'v CTAP_getAssertion \<Rightarrow> CTAP_rpId \<Rightarrow> bool
    \<Rightarrow> (u8 + ctap_credential_handle list) option" where
  "locate_credentials env dec junk s ga rp uv =
     (if has_param (ga_common ga) 3 then process_allow_list env dec junk s (allowList ga) rp uv 128
      else ctap_find_discoverable_credentials_by_rp_id (storage_ops env) (storage s)
             (Some rp) None uv 128)"

definition get_assertion_verified :: "('h, 's) ctap_interfaces \<Rightarrow> 'v tinycbor \<Rightarrow> (encoder \<Rightarrow> bytes)
    \<Rightarrow> stack_memory \<Rightarrow> ctap_user_presence_result \<Rightarrow> ('h, 's) ctap_state \<Rightarrow> 'v CTAP_getAssertion
    \<Rightarrow> CTAP_rpId \<Rightarrow> bool \<Rightarrow> u8 \<Rightarrow> encoder \<Rightarrow> (u8 \<times> ('h, 's) ctap_state \<times> encoder) option" where
  "get_assertion_verified env dec bytes_of junk up s ga rp up_option flags encoder =
     (let s1 = ctap_discard_stateful_command_state s;
          g = begin_get_assertion_state (cmd_data (stateful_command_state s1));
          s2 = set_get_assertion_state s1 g in
      do { found \<leftarrow> locate_credentials env dec junk s2 ga rp (flags AND auth_data_uv \<noteq> 0);
           case found of
             Inl e \<Rightarrow> Some (e, s2, encoder)
           | Inr credentials \<Rightarrow>
               let g1 = g\<lparr>ga_credentials := credentials\<rparr>; s3 = set_get_assertion_state s2 g1 in
               if credentials = [] then Some (CTAP2_ERR_NO_CREDENTIALS, s3, encoder)
               else finish_get_assertion env bytes_of up s3 g1 ga rp up_option flags encoder })"

text \<open>The options of a request.\<close>

definition get_assertion_option_status :: "CTAP_mc_ga_common \<Rightarrow> u8" where
  "get_assertion_option_status params =
     (let opts = options params; param_present = has_param params 6 in
      if has_param params 5 then
        if ensure_uv_option_false param_present opts \<noteq> CTAP2_OK
        then ensure_uv_option_false param_present opts
        else if is_option_present opts CTAP_ma_ga_option_rk
        then CTAP2_ERR_UNSUPPORTED_OPTION else CTAP2_OK
      else CTAP2_OK)"

definition ctap_get_assertion :: "('h, 's) ctap_interfaces \<Rightarrow> 'v tinycbor \<Rightarrow> (encoder \<Rightarrow> bytes)
    \<Rightarrow> stack_memory \<Rightarrow> ctap_user_presence_result \<Rightarrow> u32 \<Rightarrow> ('h, 's) ctap_state \<Rightarrow> 'v option \<Rightarrow> encoder
    \<Rightarrow> (u8 \<times> ('h, 's) ctap_state \<times> encoder) option" where
  "ctap_get_assertion env dec bytes_of junk up now s it encoder =
     (case ctap_parse_get_assertion dec it of
        Abort \<Rightarrow> None
      | Err e \<Rightarrow> Some (e, s, encoder)
      | Ok (ga, it1) \<Rightarrow>
          let params = ga_common ga;
              rp = \<lparr>rp_id_id = rpId params, rp_id_hash_value =
                     ctap_compute_rp_id_hash (crypto_ops env) (zeros 32) (rpId params)\<rparr>;
              (status, protocol) = handle_pin_uv_auth_param_and_protocol s up (has_param params 6)
                (length (pinUvAuthParam params)) (has_param params 7) (pinUvAuthProtocol params);
              up_option = get_option_value_or_true (options params) CTAP_ma_ga_option_up;
              option_status = get_assertion_option_status params in
          if status \<noteq> CTAP2_OK then Some (status, s, encoder)
          else if option_status \<noteq> CTAP2_OK then Some (option_status, s, encoder)
          else
            ctap_check_state (verify_get_assertion env now s params rp protocol)
              (\<lambda>(s1, flags).
                get_assertion_verified env dec bytes_of junk up s1 ga rp up_option flags encoder)
              (\<lambda>(s1, flags). (s1, encoder)))"

section \<open>authenticatorGetNextAssertion\<close>

definition ctap_get_next_assertion :: "('h, 's) ctap_interfaces \<Rightarrow> (encoder \<Rightarrow> bytes)
    \<Rightarrow> ('h, 's) ctap_state \<Rightarrow> encoder \<Rightarrow> (u8 \<times> ('h, 's) ctap_state \<times> encoder) option" where
  "ctap_get_next_assertion env bytes_of s encoder =
     (if active_cmd (stateful_command_state s) \<noteq> CTAP_STATEFUL_CMD_GET_ASSERTION
      then Some (CTAP2_ERR_NOT_ALLOWED, s, encoder)
      else case cmd_data (stateful_command_state s) of
        Get_Assertion g \<Rightarrow>
          require (ga_next_credential_idx g < length (ga_credentials g)) (
          ctap_check_state (generate_get_assertion_response env bytes_of s g encoder)
            (\<lambda>(s1, e1). do {
              s2 \<leftarrow> ctap_update_stateful_command_timer s1;
              let g1 = g\<lparr>ga_next_credential_idx := ga_next_credential_idx g + 1\<rparr>;
              let s3 = set_get_assertion_state s2 g1;
              Some (CTAP2_OK, if ga_next_credential_idx g1 = length (ga_credentials g1)
                    then ctap_discard_stateful_command_state s3 else s3, e1) }) id)
      | _ \<Rightarrow> None)"

end
