(* ===== verification/Cred_Mgmt.thy ===== *)
theory Cred_Mgmt
  imports Credentials
begin

text \<open>
  The command authenticatorCredentialManagement (\<open>core/ctap_credential_management.c\<close>).
  \<open>request\<close> is the bytes of the parameters, of which \<open>pinUvAuthParam\<close> covers a part.
\<close>

section \<open>Verification\<close>

definition verify_credential_management_params :: "('h, 's) ctap_interfaces \<Rightarrow> u32 \<Rightarrow> bytes
    \<Rightarrow> ('h, 's) ctap_state \<Rightarrow> CTAP_credentialManagement \<Rightarrow> nat \<Rightarrow> (u8 \<times> ('h, 's) ctap_state) option" where
  "verify_credential_management_params env now request s cm i =
     (let sub = cm_subCommandParams cm in
      do { (valid, s1) \<leftarrow> verify_with_token env now s i
             ([[cm_subCommand cm]]
              @ (if raw_size sub > 0 then [take (raw_size sub) (drop (raw_start sub) request)] else []))
             (cm_pinUvAuthParam cm);
           Some (if \<not> valid then CTAP2_ERR_PIN_AUTH_INVALID
                 else if \<not> ctap_pin_uv_auth_token_has_permissions s1 permission_cm
                 then CTAP2_ERR_PIN_AUTH_INVALID else CTAP2_OK, s1) })"

definition ensure_pin_uv_auth_token_can_be_used :: "('h, 's) ctap_state \<Rightarrow> ctap_credential_handle \<Rightarrow> u8" where
  "ensure_pin_uv_auth_token_can_be_used s credential =
     (if rpId_set (pin_uv_auth_token_state s)
         \<and> \<not> ctap_credential_matches_rp_id_hash credential (rpId_hash (pin_uv_auth_token_state s))
      then CTAP2_ERR_PIN_AUTH_INVALID else CTAP2_OK)"

section \<open>Metadata\<close>

definition credential_management_get_creds_metadata :: "('h, 's) ctap_interfaces
    \<Rightarrow> ('h, 's) ctap_state \<Rightarrow> encoder \<Rightarrow> (u8 \<times> ('h, 's) ctap_state \<times> encoder) option" where
  "credential_management_get_creds_metadata env s encoder =
     (if rpId_set (pin_uv_auth_token_state s) then Some (CTAP2_ERR_PIN_AUTH_INVALID, s, encoder)
      else do {
        let (status, e1) = cbor_encode (encoder_ok env) encoder [Create_Map 2, Encode_Int 1];
        if status \<noteq> CTAP2_OK then Some (status, s, e1)
        else do {
          count \<leftarrow> ctap_count_num_stored_discoverable_credentials (storage_ops env) (storage s);
          let (status2, e2) = cbor_encode (encoder_ok env) e1
                [Encode_Int (int count), Encode_Int 2,
                 Encode_Int (int (ctap_get_num_max_possible_remaining_discoverable_credentials
                   (storage_ops env) (storage s))), Close_Container];
          Some (status2, s, e2) } })"

section \<open>Enumerating relying parties\<close>

definition encode_credential_management_enumerate_rps_response ::
    "enc_ok \<Rightarrow> encoder \<Rightarrow> bytes \<times> bytes \<Rightarrow> nat \<Rightarrow> u8 \<times> encoder" where
  "encode_credential_management_enumerate_rps_response enc_ok e rp num_rps =
     then_encode (cbor_encode enc_ok e [Create_Map (if num_rps \<noteq> 0 then 3 else 2), Encode_Int 3]) (\<lambda>e1.
     then_encode (ctap_encode_rp_entity enc_ok e1 (fst rp)) (\<lambda>e2.
     cbor_encode enc_ok e2 ([Encode_Int 4, Encode_Bytes (snd rp)]
       @ (if num_rps \<noteq> 0 then [Encode_Int 5, Encode_Int (int num_rps)] else [])
       @ [Close_Container])))"

definition set_enumerate_rps :: "('h, 's) ctap_state \<Rightarrow> ctap_stateful_command
    \<Rightarrow> (bytes \<times> bytes) list \<Rightarrow> nat \<Rightarrow> ('h, 's) ctap_state" where
  "set_enumerate_rps s cmd rps idx = s\<lparr>stateful_command_state := (stateful_command_state s)\<lparr>
     active_cmd := cmd, cmd_data := Enumerate_Rps \<lparr>rp_ids = rps, next_rp_idx = idx\<rparr>\<rparr>\<rparr>"

definition credential_management_enumerate_rps_begin :: "('h, 's) ctap_interfaces
    \<Rightarrow> ('h, 's) ctap_state \<Rightarrow> encoder \<Rightarrow> (u8 \<times> ('h, 's) ctap_state \<times> encoder) option" where
  "credential_management_enumerate_rps_begin env s encoder =
     (if rpId_set (pin_uv_auth_token_state s) then Some (CTAP2_ERR_PIN_AUTH_INVALID, s, encoder)
      else do {
        let s1 = ctap_discard_stateful_command_state s;
        let cmd = active_cmd (stateful_command_state s1);
        let put = (\<lambda>rps idx. set_enumerate_rps s1 cmd rps idx);
        found \<leftarrow> ctap_enumerate_rp_ids_of_discoverable_credentials (storage_ops env) (storage s1) 128;
        case found of
          Inl e \<Rightarrow> Some (e, put [] 0, encoder)
        | Inr rps \<Rightarrow>
            if rps = [] then Some (CTAP2_ERR_NO_CREDENTIALS, put [] 0, encoder)
            else
              let (status, e1) = encode_credential_management_enumerate_rps_response (encoder_ok env)
                    encoder (rps ! 0) (length rps) in
              if status \<noteq> CTAP2_OK then Some (status, put rps 0, e1)
              else if length rps > 1 then do {
                s2 \<leftarrow> ctap_update_stateful_command_timer
                  (set_enumerate_rps s1 CTAP_STATEFUL_CMD_CRED_MGMT_ENUMERATE_RPS rps 1);
                Some (CTAP2_OK, s2, e1) }
              else Some (CTAP2_OK, put [] 0, e1) })"

text \<open>The code reads the array at \<open>next_rp_idx\<close> without a check; \<open>None\<close> when that is not an entry.\<close>

definition credential_management_enumerate_rps_get_next_rp :: "('h, 's) ctap_interfaces
    \<Rightarrow> ('h, 's) ctap_state \<Rightarrow> encoder \<Rightarrow> (u8 \<times> ('h, 's) ctap_state \<times> encoder) option" where
  "credential_management_enumerate_rps_get_next_rp env s encoder =
     (if active_cmd (stateful_command_state s) \<noteq> CTAP_STATEFUL_CMD_CRED_MGMT_ENUMERATE_RPS
      then Some (CTAP2_ERR_NOT_ALLOWED, s, encoder)
      else case cmd_data (stateful_command_state s) of
        Enumerate_Rps d \<Rightarrow>
          require (next_rp_idx d < length (rp_ids d)) (
          let (status, e1) = encode_credential_management_enumerate_rps_response (encoder_ok env)
                encoder (rp_ids d ! next_rp_idx d) 0 in
          if status \<noteq> CTAP2_OK then Some (status, s, e1)
          else do {
            s1 \<leftarrow> ctap_update_stateful_command_timer s;
            let idx = next_rp_idx d + 1;
            let s2 = set_enumerate_rps s1 (active_cmd (stateful_command_state s1)) (rp_ids d) idx;
            Some (CTAP2_OK, if idx = length (rp_ids d) then ctap_discard_stateful_command_state s2
                  else s2, e1) })
      | _ \<Rightarrow> None)"

section \<open>Enumerating credentials\<close>

definition encode_credential_management_enumerate_credentials_response ::
    "enc_ok \<Rightarrow> encoder \<Rightarrow> ctap_credential_handle \<Rightarrow> bytes \<Rightarrow> nat \<Rightarrow> (u8 \<times> encoder) option" where
  "encode_credential_management_enumerate_credentials_response enc_ok e credential public_key num =
     (let (status, e1) = cbor_encode enc_ok e [Create_Map (if num \<noteq> 0 then 5 else 4), Encode_Int 6] in
      if status \<noteq> CTAP2_OK then Some (status, e1)
      else do {
        user \<leftarrow> ctap_credential_get_user credential;
        r \<leftarrow> ctap_encode_pub_key_cred_user_entity enc_ok e1 user True;
        Some (then_encode r (\<lambda>e2.
          then_encode (cbor_encode enc_ok e2 [Encode_Int 7]) (\<lambda>e3.
          then_encode (ctap_encode_pub_key_cred_desc enc_ok e3 (ctap_credential_get_id credential)) (\<lambda>e4.
          then_encode (cbor_encode enc_ok e4 [Encode_Int 8]) (\<lambda>e5.
          then_encode (ctap_encode_public_key enc_ok e5 public_key) (\<lambda>e6.
          cbor_encode enc_ok e6 ((if num \<noteq> 0 then [Encode_Int 9, Encode_Int (int num)] else [])
            @ [Encode_Int 10, Encode_Int (uint (ctap_credential_get_cred_protect credential)),
               Close_Container]))))))) })"

text \<open>The response for the credential at the current index.\<close>

definition respond_with_credential :: "('h, 's) ctap_interfaces \<Rightarrow> ('h, 's) ctap_state \<Rightarrow> encoder
    \<Rightarrow> ctap_credential_handle \<Rightarrow> nat \<Rightarrow> (u8 \<times> ('h, 's) ctap_state \<times> encoder) option" where
  "respond_with_credential env s encoder credential num =
     (let (status, public_key, rng1) = ctap_credential_compute_public_key (crypto_ops env)
            (rng_position s) credential;
          s1 = s\<lparr>rng_position := rng1\<rparr> in
      if status \<noteq> CTAP2_OK then Some (status, s1, encoder)
      else do {
        (status2, e1) \<leftarrow> encode_credential_management_enumerate_credentials_response (encoder_ok env)
           encoder credential public_key num;
        Some (status2, s1, e1) })"

definition set_enumerate_credentials :: "('h, 's) ctap_state \<Rightarrow> ctap_stateful_command
    \<Rightarrow> ctap_credential_handle list \<Rightarrow> nat \<Rightarrow> ('h, 's) ctap_state" where
  "set_enumerate_credentials s cmd credentials idx = s\<lparr>stateful_command_state :=
     (stateful_command_state s)\<lparr>active_cmd := cmd, cmd_data :=
        Enumerate_Credentials \<lparr>cm_credentials = credentials, cm_next_credential_idx = idx\<rparr>\<rparr>\<rparr>"

definition credential_management_enumerate_credentials_begin :: "('h, 's) ctap_interfaces
    \<Rightarrow> ('h, 's) ctap_state \<Rightarrow> CTAP_credentialManagement \<Rightarrow> encoder
    \<Rightarrow> (u8 \<times> ('h, 's) ctap_state \<times> encoder) option" where
  "credential_management_enumerate_credentials_begin env s cm encoder =
     (let sub = cm_subCommandParams cm; t = pin_uv_auth_token_state s in
      if \<not> ctap_is_present (cm_present cm) (ctap_param_to_mask 2)
         \<or> \<not> ctap_is_present (sub_present sub) (ctap_param_to_mask 1)
      then Some (CTAP2_ERR_MISSING_PARAMETER, s, encoder)
      else if rpId_set t \<and> (length (rpIDHash sub) \<noteq> 32 \<or> rpIDHash sub \<noteq> rpId_hash t)
      then Some (CTAP2_ERR_PIN_AUTH_INVALID, s, encoder)
      else do {
        let s1 = ctap_discard_stateful_command_state s;
        let cmd = active_cmd (stateful_command_state s1);
        found \<leftarrow> ctap_find_discoverable_credentials_by_rp_id (storage_ops env) (storage s1)
           None (Some (rpIDHash sub)) True 128;
        case found of
          Inl e \<Rightarrow> Some (e, set_enumerate_credentials s1 cmd [] 0, encoder)
        | Inr credentials \<Rightarrow>
            let s2 = set_enumerate_credentials s1 cmd credentials 0 in
            if credentials = [] then Some (CTAP2_ERR_NO_CREDENTIALS, s2, encoder)
            else
              ctap_check_state (respond_with_credential env s2 encoder (credentials ! 0)
                   (length credentials))
                (\<lambda>(s3, e1).
                  if length credentials > 1 then do {
                    s4 \<leftarrow> ctap_update_stateful_command_timer (set_enumerate_credentials s3
                      CTAP_STATEFUL_CMD_CRED_MGMT_ENUMERATE_CREDENTIALS credentials 1);
                    Some (CTAP2_OK, s4, e1) }
                  else Some (CTAP2_OK, set_enumerate_credentials s3 cmd [] 0, e1)) id })"

definition credential_management_enumerate_credentials_get_next_credential ::
    "('h, 's) ctap_interfaces \<Rightarrow> ('h, 's) ctap_state \<Rightarrow> encoder
     \<Rightarrow> (u8 \<times> ('h, 's) ctap_state \<times> encoder) option" where
  "credential_management_enumerate_credentials_get_next_credential env s encoder =
     (if active_cmd (stateful_command_state s) \<noteq> CTAP_STATEFUL_CMD_CRED_MGMT_ENUMERATE_CREDENTIALS
      then Some (CTAP2_ERR_NOT_ALLOWED, s, encoder)
      else case cmd_data (stateful_command_state s) of
        Enumerate_Credentials d \<Rightarrow>
          require (cm_next_credential_idx d < length (cm_credentials d)) (
          ctap_check_state (respond_with_credential env s encoder
               (cm_credentials d ! cm_next_credential_idx d) 0)
            (\<lambda>(s1, e1). do {
              s2 \<leftarrow> ctap_update_stateful_command_timer s1;
              let idx = cm_next_credential_idx d + 1;
              let s3 = set_enumerate_credentials s2 (active_cmd (stateful_command_state s2))
                         (cm_credentials d) idx;
              Some (CTAP2_OK, if idx = length (cm_credentials d)
                    then ctap_discard_stateful_command_state s3 else s3, e1) }) id)
      | _ \<Rightarrow> None)"

section \<open>Deleting and updating\<close>

text \<open>The credential a request names, if the token may be used for it.\<close>

definition find_managed_credential :: "('h, 's) ctap_interfaces \<Rightarrow> ('h, 's) ctap_state
    \<Rightarrow> CTAP_credentialManagement \<Rightarrow> (u8 + ctap_credential_handle) option" where
  "find_managed_credential env s cm =
     (let sub = cm_subCommandParams cm in
      if \<not> ctap_is_present (cm_present cm) (ctap_param_to_mask 2)
         \<or> \<not> ctap_is_present (sub_present sub) (ctap_param_to_mask 2)
      then Some (Inl CTAP2_ERR_MISSING_PARAMETER)
      else do {
        found \<leftarrow> ctap_lookup_credential_by_desc (storage_ops env) (storage s) (credentialID sub);
        case found of
          None \<Rightarrow> Some (Inl CTAP2_ERR_NO_CREDENTIALS)
        | Some credential \<Rightarrow>
            let status = ensure_pin_uv_auth_token_can_be_used s credential in
            Some (if status \<noteq> CTAP2_OK then Inl status else Inr credential) })"

definition credential_management_delete_credential :: "('h, 's) ctap_interfaces
    \<Rightarrow> ('h, 's) ctap_state \<Rightarrow> CTAP_credentialManagement \<Rightarrow> (u8 \<times> ('h, 's) ctap_state) option" where
  "credential_management_delete_credential env s cm =
     (let s1 = ctap_discard_stateful_command_state s in
      do { found \<leftarrow> find_managed_credential env s1 cm;
           case found of
             Inl e \<Rightarrow> Some (e, s1)
           | Inr credential \<Rightarrow> do {
               (status, st1) \<leftarrow> ctap_delete_credential (storage_ops env) (storage s1) credential;
               Some (status, s1\<lparr>storage := st1\<rparr>) } })"

definition credential_management_update_user_information :: "('h, 's) ctap_interfaces \<Rightarrow> stack_memory
    \<Rightarrow> ('h, 's) ctap_state \<Rightarrow> CTAP_credentialManagement \<Rightarrow> (u8 \<times> ('h, 's) ctap_state) option" where
  "credential_management_update_user_information env junk s cm =
     (let s1 = ctap_discard_stateful_command_state s in
      do { found \<leftarrow> find_managed_credential env s1 cm;
           case found of
             Inl e \<Rightarrow> Some (e, s1)
           | Inr credential \<Rightarrow> do {
               (status, credential1, st1) \<leftarrow> ctap_credential_update_user_information (storage_ops env)
                  (source_buffer_junk junk) (storage s1) credential (sub_user (cm_subCommandParams cm));
               Some (status, s1\<lparr>storage := st1\<rparr>) } })"

section \<open>The command\<close>

definition credential_management_subcommand :: "('h, 's) ctap_interfaces \<Rightarrow> stack_memory
    \<Rightarrow> ('h, 's) ctap_state \<Rightarrow> CTAP_credentialManagement \<Rightarrow> encoder
    \<Rightarrow> (u8 \<times> ('h, 's) ctap_state \<times> encoder) option" where
  "credential_management_subcommand env junk s cm encoder =
     (let cmd = cm_subCommand cm;
          no_data = (\<lambda>r. map_option (\<lambda>(status, s1). (status, s1, encoder)) r) in
      if cmd = 1 then credential_management_get_creds_metadata env s encoder
      else if cmd = 2 then credential_management_enumerate_rps_begin env s encoder
      else if cmd = 3 then credential_management_enumerate_rps_get_next_rp env s encoder
      else if cmd = 4 then credential_management_enumerate_credentials_begin env s cm encoder
      else if cmd = 5 then credential_management_enumerate_credentials_get_next_credential env s encoder
      else if cmd = 6 then no_data (credential_management_delete_credential env s cm)
      else if cmd = 7 then no_data (credential_management_update_user_information env junk s cm)
      else Some (CTAP2_ERR_INVALID_SUBCOMMAND, s, encoder))"

definition ctap_credential_management :: "('h, 's) ctap_interfaces \<Rightarrow> 'v tinycbor \<Rightarrow> stack_memory
    \<Rightarrow> u32 \<Rightarrow> bytes \<Rightarrow> ('h, 's) ctap_state \<Rightarrow> 'v option \<Rightarrow> encoder
    \<Rightarrow> (u8 \<times> ('h, 's) ctap_state \<times> encoder) option" where
  "ctap_credential_management env dec junk now request s it encoder =
     (case ctap_parse_credential_management dec it of
        Abort \<Rightarrow> None
      | Err e \<Rightarrow> Some (e, s, encoder)
      | Ok (cm, it1) \<Rightarrow>
          let has = (\<lambda>n. ctap_is_present (cm_present cm) (ctap_param_to_mask n));
              param_required = (cm_subCommand cm \<noteq> 3 \<and> cm_subCommand cm \<noteq> 5) in
          if \<not> has 1 then Some (CTAP2_ERR_MISSING_PARAMETER, s, encoder)
          else if param_required then
            if \<not> has 4 then Some (CTAP2_ERR_PUAT_REQUIRED, s, encoder)
            else if \<not> has 3 then Some (CTAP2_ERR_MISSING_PARAMETER, s, encoder)
            else (case ctap_get_pin_protocol s (unat (cm_pinUvAuthProtocol cm)) of
                None \<Rightarrow> Some (CTAP1_ERR_INVALID_PARAMETER, s, encoder)
              | Some i \<Rightarrow>
                  ctap_check_state (verify_credential_management_params env now request s cm i)
                    (\<lambda>s1. credential_management_subcommand env junk s1 cm encoder)
                    (\<lambda>s1. (s1, encoder)))
          else credential_management_subcommand env junk s cm encoder)"

end
