(* ===== verification/Ctap_Request.thy ===== *)
theory Ctap_Request
  imports Cred_Mgmt Ctap_Boot
begin

text \<open>
  The commands authenticatorSelection and authenticatorReset (\<open>core/ctap_selection.c\<close>,
  \<open>core/ctap_reset.c\<close>) and the processing of a request (\<open>ctap_request\<close> in \<open>core/ctap.c\<close>).
\<close>

section \<open>The environment of a request\<close>

text \<open>
  What a request meets: the clock when it is read at the start and when it is read again (the
  use of a token, the initialisation after a reset), the result of a wait for user presence, the
  stack memory, and what the remembered pointers into the storage show after the storage was
  erased.
\<close>

record 's request_environment =
  clock_at_start :: u32
  clock_later :: u32
  presence :: ctap_user_presence_result
  stack :: stack_memory
  reread_credential :: "'s \<Rightarrow> ctap_credential_handle \<Rightarrow> ctap_credential_handle"
  reread_rp :: "'s \<Rightarrow> bytes \<times> bytes \<Rightarrow> bytes \<times> bytes"

definition reread_remembered :: "'s request_environment \<Rightarrow> 's \<Rightarrow> stateful_data \<Rightarrow> stateful_data" where
  "reread_remembered inp st d =
     (case d of
        Get_Assertion g \<Rightarrow>
          Get_Assertion (g\<lparr>ga_credentials := map (reread_credential inp st) (ga_credentials g)\<rparr>)
      | Enumerate_Rps e \<Rightarrow> Enumerate_Rps (e\<lparr>rp_ids := map (reread_rp inp st) (rp_ids e)\<rparr>)
      | Enumerate_Credentials e \<Rightarrow>
          Enumerate_Credentials (e\<lparr>cm_credentials := map (reread_credential inp st) (cm_credentials e)\<rparr>)
      | Zeroed \<Rightarrow> Zeroed)"

section \<open>authenticatorSelection\<close>

definition ctap_selection :: "ctap_user_presence_result \<Rightarrow> u8" where
  "ctap_selection up =
     (case up of
        CTAP_UP_RESULT_CANCEL \<Rightarrow> CTAP2_ERR_KEEPALIVE_CANCEL
      | CTAP_UP_RESULT_TIMEOUT \<Rightarrow> CTAP2_ERR_USER_ACTION_TIMEOUT
      | CTAP_UP_RESULT_DENY \<Rightarrow> CTAP2_ERR_OPERATION_DENIED
      | CTAP_UP_RESULT_ALLOW \<Rightarrow> CTAP2_OK)"

section \<open>authenticatorReset\<close>

definition ctap_reset :: "('h, 's) ctap_interfaces \<Rightarrow> 's request_environment \<Rightarrow> ('h, 's) ctap_state
    \<Rightarrow> (u8 \<times> ('h, 's) ctap_state) option" where
  "ctap_reset env inp s =
     (if current_time s - init_time s > 10 * 1000 then Some (CTAP2_ERR_NOT_ALLOWED, s)
      else case presence inp of
        CTAP_UP_RESULT_CANCEL \<Rightarrow> Some (CTAP2_ERR_KEEPALIVE_CANCEL, s)
      | CTAP_UP_RESULT_TIMEOUT \<Rightarrow> Some (CTAP2_ERR_USER_ACTION_TIMEOUT, s)
      | CTAP_UP_RESULT_DENY \<Rightarrow> Some (CTAP2_ERR_OPERATION_DENIED, s)
      | CTAP_UP_RESULT_ALLOW \<Rightarrow> do {
          (status, st1) \<leftarrow> erase_storage (storage_ops env) (storage s);
          let s1 = s\<lparr>storage := st1, stateful_command_state := (stateful_command_state s)\<lparr>
                cmd_data := reread_remembered inp st1 (cmd_data (stateful_command_state s))\<rparr>\<rparr>;
          if status \<noteq> CTAP_STORAGE_OK then Some (CTAP1_ERR_OTHER, s1)
          else do { s2 \<leftarrow> ctap_init env (clock_later inp) s1; Some (CTAP2_OK, s2) } })"

section \<open>Dispatch\<close>

datatype ctap_command_handler =
    Handler_make_credential | Handler_get_assertion | Handler_get_next_assertion | Handler_get_info
  | Handler_client_pin | Handler_reset | Handler_credential_management | Handler_selection

text \<open>The array of handlers, with its holes.\<close>

definition ctap_command_handlers :: "ctap_command_handler option list" where
  "ctap_command_handlers = [None, Some Handler_make_credential, Some Handler_get_assertion, None,
     Some Handler_get_info, None, Some Handler_client_pin, Some Handler_reset,
     Some Handler_get_next_assertion, None, Some Handler_credential_management,
     Some Handler_selection]"

definition ctap_get_command_handler :: "u8 \<Rightarrow> ctap_command_handler option" where
  "ctap_get_command_handler cmd =
     (if unat cmd \<ge> length ctap_command_handlers then None else ctap_command_handlers ! unat cmd)"

fun call_handler :: "ctap_command_handler \<Rightarrow> ('h, 's) ctap_interfaces \<Rightarrow> 'v tinycbor
    \<Rightarrow> (encoder \<Rightarrow> bytes) \<Rightarrow> 's request_environment \<Rightarrow> bytes \<Rightarrow> ('h, 's) ctap_state \<Rightarrow> 'v option
    \<Rightarrow> (u8 \<times> ('h, 's) ctap_state \<times> encoder) option" where
  "call_handler Handler_make_credential env dec bytes_of inp params s it =
     ctap_make_credential env dec bytes_of (stack inp) (presence inp) (clock_later inp) s it []"
| "call_handler Handler_get_assertion env dec bytes_of inp params s it =
     ctap_get_assertion env dec bytes_of (stack inp) (presence inp) (clock_later inp) s it []"
| "call_handler Handler_get_next_assertion env dec bytes_of inp params s it =
     ctap_get_next_assertion env bytes_of s []"
| "call_handler Handler_get_info env dec bytes_of inp params s it =
     (let (status, e) = ctap_get_info env s [] in Some (status, s, e))"
| "call_handler Handler_client_pin env dec bytes_of inp params s it =
     ctap_client_pin env dec s it []"
| "call_handler Handler_reset env dec bytes_of inp params s it =
     map_option (\<lambda>(status, s1). (status, s1, [])) (ctap_reset env inp s)"
| "call_handler Handler_credential_management env dec bytes_of inp params s it =
     ctap_credential_management env dec (stack inp) (clock_later inp) params s it []"
| "call_handler Handler_selection env dec bytes_of inp params s it =
     Some (ctap_selection (presence inp), s, [])"

text \<open>
  \<open>ctap_init_cbor_parser\<close> is the parameter \<open>parser_init\<close>; the response is the encodings of the
  encoder with \<open>CTAP2_OK\<close> and empty otherwise.
\<close>

definition ctap_invoke_handler :: "('h, 's) ctap_interfaces \<Rightarrow> 'v tinycbor \<Rightarrow> (bytes \<Rightarrow> 'v option)
    \<Rightarrow> (encoder \<Rightarrow> bytes) \<Rightarrow> 's request_environment \<Rightarrow> ('h, 's) ctap_state \<Rightarrow> u8 \<Rightarrow> bytes
    \<Rightarrow> (u8 \<times> ('h, 's) ctap_state \<times> encoder) option" where
  "ctap_invoke_handler env dec parser_init bytes_of inp s cmd params =
     (case ctap_get_command_handler cmd of
        None \<Rightarrow> Some (CTAP1_ERR_INVALID_COMMAND, s, [])
      | Some handler \<Rightarrow>
          if length params > 0 \<and> parser_init params = None then Some (CTAP2_ERR_INVALID_CBOR, s, [])
          else do {
            (status, s1, encoder) \<leftarrow> call_handler handler env dec bytes_of inp params s
               (if length params > 0 then parser_init params else None);
            Some (status, s1, if status = CTAP2_OK then encoder else []) })"

definition ctap_request :: "('h, 's) ctap_interfaces \<Rightarrow> 'v tinycbor \<Rightarrow> (bytes \<Rightarrow> 'v option)
    \<Rightarrow> (encoder \<Rightarrow> bytes) \<Rightarrow> 's request_environment \<Rightarrow> ('h, 's) ctap_state \<Rightarrow> u8 \<Rightarrow> bytes
    \<Rightarrow> (u8 \<times> ('h, 's) ctap_state \<times> encoder) option" where
  "ctap_request env dec parser_init bytes_of inp s cmd params =
     (let s1 = s\<lparr>current_time := clock_at_start inp\<rparr>;
          s2 = snd (ctap_pin_uv_auth_token_check_usage_timer s1);
          s3 = snd (ctap_discard_stateful_command_state_if_expired s2) in
      ctap_invoke_handler env dec parser_init bytes_of inp s3 cmd params)"

end
