(* ===== verification/Stateful_Commands.thy ===== *)
theory Stateful_Commands
  imports Ctap_Request
begin

text \<open>
  The state of the stateful commands over whole requests: which member of the union is valid, and
  that the index into its list is in bounds.
\<close>

section \<open>Commands that do not write the state of a stateful command\<close>

definition keeps_stateful :: "('h, 's) ctap_state \<Rightarrow> ('h, 's) ctap_state \<Rightarrow> bool" where
  "keeps_stateful s s' \<longleftrightarrow> stateful_command_state s' = stateful_command_state s
     \<or> active_cmd (stateful_command_state s') = CTAP_STATEFUL_CMD_NONE"

named_theorems keeps

lemma keeps_refl [simp]: "keeps_stateful s s"
  by (simp add: keeps_stateful_def)

lemma keeps_trans: "keeps_stateful s s1 \<Longrightarrow> keeps_stateful s1 s2 \<Longrightarrow> keeps_stateful s s2"
  by (auto simp: keeps_stateful_def)

lemma keeps_eq: "stateful_command_state s' = stateful_command_state s \<Longrightarrow> keeps_stateful s s'"
  by (simp add: keeps_stateful_def)

lemma keeps_discard [simp]: "keeps_stateful s (ctap_discard_stateful_command_state s)"
  by (simp add: keeps_stateful_def ctap_discard_stateful_command_state_def zero_stateful_state_def)

lemma keeps_stop_using [simp]: "keeps_stateful s (ctap_pin_uv_auth_token_stop_using s)"
  by (auto simp: keeps_stateful_def ctap_pin_uv_auth_token_stop_using_def
      ctap_discard_stateful_command_state_def zero_stateful_state_def)

lemma keeps_update_persistent [keeps]:
  "update_persistent_pin_state env s = Some s' \<Longrightarrow> keeps_stateful s s'"
  by (auto dest!: update_persistent_frame intro: keeps_eq)

lemma keeps_decrement [keeps]:
  "decrement_pin_remaining_attempts env s = Some s' \<Longrightarrow> keeps_stateful s s'"
  by (auto dest!: decrement_frame intro: keeps_eq)

lemma stateful_regenerate [simp]:
  "stateful_command_state (regenerate_protocol env i s) = stateful_command_state s"
  by (auto simp: regenerate_protocol_def Let_def split: prod.splits)

lemma keeps_invalid_pin [keeps]:
  "handle_invalid_pin env s i = Some (status, s') \<Longrightarrow> keeps_stateful s s'"
  by (auto simp: handle_invalid_pin_def keeps_stateful_def Let_def split: bind_splits if_splits
      dest!: keeps_decrement)

lemma keeps_reset_attempts [keeps]:
  assumes "reset_pin_remaining_attempts env s p = Some s'"
  shows "keeps_stateful s s'"
  using assms keeps_update_persistent
  by (auto simp: reset_pin_remaining_attempts_def Let_def keeps_stateful_def split: if_splits)
    fastforce+

lemma keeps_check_pin_hash [keeps]:
  assumes "check_pin_hash env s i e secret = Some (status, s')"
  shows "keeps_stateful s s'"
  using assms keeps_invalid_pin keeps_reset_attempts
  by (auto simp: check_pin_hash_def require_def Let_def split: if_splits bind_splits option.splits)

lemma keeps_set_pin [keeps]:
  assumes "set_pin env s i e secret = Some (status, s')"
  shows "keeps_stateful s s'"
proof -
  have "\<exists>s1 s2. keeps_stateful s s1 \<and> keeps_stateful s1 s2 \<and> keeps_stateful s2 s'"
    using assms keeps_update_persistent keeps_reset_attempts
    by (fastforce simp: set_pin_def require_def Let_def keeps_stateful_def
        split: if_splits bind_splits option.splits)
  then show ?thesis by (metis keeps_trans)
qed

lemma keeps_decapsulate [keeps]:
  "decapsulate_request env s i key = Some (secret, s1) \<Longrightarrow> keeps_stateful s s1"
  by (auto dest!: decapsulate_request_frame intro: keeps_eq)

lemma keeps_client_pin_set_pin [keeps]:
  assumes "ctap_client_pin_set_pin env s i cp = Some (status, s')"
  shows "keeps_stateful s s'"
  using assms
  by (auto simp: ctap_client_pin_set_pin_def Let_def split: if_splits bind_splits option.splits
      dest!: keeps_decapsulate keeps_set_pin intro: keeps_trans)

lemma keeps_reset_tokens [simp]:
  "keeps_stateful s (ctap_all_pin_protocols_reset_pin_uv_auth_token env s)"
  by (auto simp: ctap_all_pin_protocols_reset_pin_uv_auth_token_def Let_def split: prod.splits
      intro: keeps_trans [OF keeps_eq keeps_stop_using])

lemma keeps_issue_token [simp]: "keeps_stateful s (issue_pin_uv_auth_token env s perms rp)"
proof -
  have "stateful_command_state (issue_pin_uv_auth_token env s perms rp)
      = stateful_command_state (ctap_all_pin_protocols_reset_pin_uv_auth_token env s)"
    by (auto simp: issue_pin_uv_auth_token_def ctap_pin_uv_auth_token_begin_using_def Let_def
        split: option.splits)
  then show ?thesis using keeps_reset_tokens [of s env] by (simp add: keeps_stateful_def)
qed

lemma keeps_client_pin_change_pin [keeps]:
  assumes "ctap_client_pin_change_pin env s i cp = Some (status, s')"
  shows "keeps_stateful s s'"
proof -
  have "\<exists>s1 s2 s3. keeps_stateful s s1 \<and> keeps_stateful s1 s2 \<and> keeps_stateful s2 s3
      \<and> keeps_stateful s3 s'"
    using assms
    by (auto simp: ctap_client_pin_change_pin_def Let_def ctap_check_state_eq_Some
        split: if_splits bind_splits option.splits)
      (metis keeps_refl keeps_decapsulate keeps_check_pin_hash keeps_set_pin keeps_reset_tokens)+
  then show ?thesis by (metis keeps_trans)
qed

lemma keeps_get_pin_token [keeps]:
  assumes "get_pin_token_using_pin_with_permissions env s i key e perms rp encoder
      = Some (status, s', encoder')"
  shows "keeps_stateful s s'"
proof -
  have "\<exists>s1 s2 s3. keeps_stateful s s1 \<and> keeps_stateful s1 s2 \<and> keeps_stateful s2 s3
      \<and> stateful_command_state s' = stateful_command_state s3"
    using assms
    by (auto simp: get_pin_token_using_pin_with_permissions_def Let_def ctap_check_state_eq_Some
        split: if_splits bind_splits option.splits prod.splits)
      (metis keeps_refl keeps_decapsulate keeps_check_pin_hash keeps_issue_token)+
  then show ?thesis by (metis keeps_trans keeps_eq)
qed

lemma keeps_client_pin [keeps]:
  assumes "ctap_client_pin env dec s it encoder = Some (status, s', encoder')"
  shows "keeps_stateful s s'"
  using assms keeps_get_pin_token keeps_client_pin_set_pin keeps_client_pin_change_pin
  by (auto simp: ctap_client_pin_def client_pin_subcommand_def Let_def
      ctap_client_pin_get_pin_token_def
      ctap_client_pin_get_pin_uv_auth_token_using_pin_with_permissions_def
      split: presult.splits prod.splits option.splits if_splits)

section \<open>Bounds of the lists of credentials\<close>

text \<open>What the body of the loop preserves holds when the loop ends.\<close>

lemma storage_loop_invariant:
  assumes "storage_loop find_op st body item acc = Some r" and "I acc"
      and "\<And>acc it acc1. I acc \<Longrightarrow> body acc it = Some (Inl acc1) \<Longrightarrow> I acc1"
      and "\<And>acc it b. I acc \<Longrightarrow> body acc it = Some (Inr b) \<Longrightarrow> J b"
  shows "case_sum I J r"
proof -
  let ?keeps = "\<lambda>body. \<forall>acc it r. I acc \<longrightarrow> body acc it = Some r \<longrightarrow> case_sum I J r"
  have "?keeps body \<longrightarrow> I acc \<longrightarrow> case_sum I J r"
  proof (rule storage_loop.raw_induct [OF _ assms(1), where P = "\<lambda>find_op st body item acc r.
      ?keeps body \<longrightarrow> I acc \<longrightarrow> case_sum I J r"])
    fix f find_op st body item acc r
    assume IH: "\<And>find_op st body item acc r. f find_op st body item acc = Some r \<Longrightarrow>
        ?keeps body \<longrightarrow> I acc \<longrightarrow> case_sum I J r"
      and step: "Option.bind (find_op st item) (\<lambda>(status, item1).
         if status = CTAP_STORAGE_OK then Option.bind (body acc item1) (\<lambda>r.
             case r of Inl acc1 \<Rightarrow> f find_op st body item1 acc1 | Inr b \<Rightarrow> Some (Inr b))
         else Some (Inl acc)) = Some r"
    show "?keeps body \<longrightarrow> I acc \<longrightarrow> case_sum I J r"
    proof (intro impI)
      assume b: "?keeps body" and a: "I acc"
      obtain status it1 where found: "find_op st item = Some (status, it1)"
        using step by (auto split: bind_splits)
      show "case_sum I J r"
      proof (cases "status = CTAP_STORAGE_OK")
        case True
        then obtain q where q: "body acc it1 = Some q"
            "(case q of Inl acc1 \<Rightarrow> f find_op st body it1 acc1 | Inr b \<Rightarrow> Some (Inr b)) = Some r"
          using step found by (auto split: bind_splits)
        then have "case_sum I J q" using a b by blast
        then show ?thesis using q(2) IH b by (cases q) auto
      next
        case False
        then show ?thesis using step found a by auto
      qed
    qed
  qed
  moreover have "?keeps body" using assms(3,4) by (auto split: sum.splits)
  ultimately show ?thesis using assms(2) by blast
qed

lemma credential_loop_result:
  fixes body :: "'a \<Rightarrow> ctap_credential_handle \<Rightarrow> ('a + 'b) option"
  assumes "credential_loop ops st body acc = Some r" and "I acc"
      and "\<And>acc c acc1. I acc \<Longrightarrow> body acc c = Some (Inl acc1) \<Longrightarrow> I acc1"
      and "\<And>acc c b. I acc \<Longrightarrow> body acc c = Some (Inr b) \<Longrightarrow> J b"
  shows "case_sum I J r"
  by (rule storage_loop_invariant [OF assms(1) [unfolded credential_loop_def], of I J])
    (use assms(2-4) in \<open>auto split: if_splits\<close>)

lemma credential_loop_invariant:
  assumes "credential_loop ops st body acc = Some (Inl a)" and "I acc"
      and "\<And>acc c acc1. I acc \<Longrightarrow> body acc c = Some (Inl acc1) \<Longrightarrow> I acc1"
  shows "I a"
  using credential_loop_result [where I = I and J = "\<lambda>_. True", OF assms(1,2)] assms(3) by simp

lemma swapped_sum_Inr: "map_option (case_sum Inr Inl) x = Some (Inr cs) \<longleftrightarrow> x = Some (Inl cs)"
  by (auto split: sum.splits simp: map_option_case split: option.splits)

lemma swapped_sum_Inl: "map_option (case_sum Inr Inl) x = Some (Inl e) \<longleftrightarrow> x = Some (Inr e)"
  by (auto split: sum.splits simp: map_option_case split: option.splits)

lemma find_discoverable_bound:
  assumes "ctap_find_discoverable_credentials_by_rp_id ops st rp h uv n = Some (Inr cs)"
  shows "length cs \<le> n"
proof -
  let ?body = "\<lambda>credentials c. Option.bind (case (rp, h) of
           (Some rp, _) \<Rightarrow> ctap_credential_matches_rp c rp
         | (None, Some h) \<Rightarrow> Some (ctap_credential_matches_rp_id_hash c h)
         | (None, None) \<Rightarrow> None) (\<lambda>matches.
       if \<not> matches then Some (Inl credentials)
       else if \<not> ctap_credential_is_discoverable c then Some (Inl credentials)
       else if \<not> ctap_should_add_credential_to_list c False uv
       then Some (Inl credentials)
       else if length credentials = n then Some (Inr CTAP1_ERR_INVALID_LENGTH)
       else Some (Inl (credentials @ [c])))"
  have "credential_loop ops st ?body [] = Some (Inl cs)"
    using assms unfolding ctap_find_discoverable_credentials_by_rp_id_def require_def
    by (simp add: swapped_sum_Inr del: map_option_eq_Some split: if_splits)
  then show ?thesis
    by (rule credential_loop_invariant) (auto split: if_splits bind_splits)
qed

lemma enumerate_bound:
  assumes "ctap_enumerate_rp_ids_of_discoverable_credentials ops st n = Some (Inr rps)"
  shows "length rps \<le> n"
proof -
  let ?body = "\<lambda>rps c. if \<not> ctap_credential_is_discoverable c then Some (Inl rps)
       else if is_rp_id_in_the_list (ctap_credential_get_rp_id_hash c) rps then Some (Inl rps)
       else if length rps = n then Some (Inr CTAP2_ERR_REQUEST_TOO_LARGE)
       else Option.bind (ctap_credential_get_rp_id c) (\<lambda>rp_id.
         Some (Inl (rps @ [(rp_id, ctap_credential_get_rp_id_hash c)])))"
  have "credential_loop ops st ?body [] = Some (Inl rps)"
    using assms unfolding ctap_enumerate_rp_ids_of_discoverable_credentials_def
    by (simp add: swapped_sum_Inr del: map_option_eq_Some)
  then show ?thesis
    by (rule credential_loop_invariant) (auto split: if_splits bind_splits)
qed

lemma allow_list_loop_bound:
  "allow_list_loop k env dec s rp uv n ctx acc = Some (Inr cs) \<Longrightarrow> length acc \<le> n \<Longrightarrow> length cs \<le> n"
proof (induction k arbitrary: ctx acc)
  case (Suc k)
  have "Suc (length acc) \<le> n" if "length acc \<noteq> n" using that Suc.prems(2) by simp
  with Suc.prems Suc.IH show ?case
    by (auto simp: Let_def split: presult.splits option.splits bind_splits if_splits)
qed simp

lemma process_allow_list_bound:
  "process_allow_list env dec junk s al rp uv n = Some (Inr cs) \<Longrightarrow> length cs \<le> n"
  by (auto simp: process_allow_list_def simp del: allow_list_loop.simps split: presult.splits
      dest!: allow_list_loop_bound)

section \<open>The members of the union\<close>

text \<open>
  With an active command, the member of the union that belongs to it is valid, and its index is an
  entry of its list, which fits into the array.
\<close>

definition stateful_ok :: "ctap_stateful_command_state \<Rightarrow> bool" where
  "stateful_ok t = (case (active_cmd t, cmd_data t) of
       (CTAP_STATEFUL_CMD_NONE, _) \<Rightarrow> True
     | (CTAP_STATEFUL_CMD_GET_ASSERTION, Get_Assertion g) \<Rightarrow>
         ga_next_credential_idx g < length (ga_credentials g) \<and> length (ga_credentials g) \<le> 128
     | (CTAP_STATEFUL_CMD_CRED_MGMT_ENUMERATE_RPS, Enumerate_Rps d) \<Rightarrow>
         next_rp_idx d < length (rp_ids d) \<and> length (rp_ids d) \<le> 128
     | (CTAP_STATEFUL_CMD_CRED_MGMT_ENUMERATE_CREDENTIALS, Enumerate_Credentials d) \<Rightarrow>
         cm_next_credential_idx d < length (cm_credentials d) \<and> length (cm_credentials d) \<le> 128
     | _ \<Rightarrow> False)"

abbreviation state_ok :: "('h, 's) ctap_state \<Rightarrow> bool" where
  "state_ok s \<equiv> stateful_ok (stateful_command_state s)"

lemma stateful_ok_none [simp]: "active_cmd t = CTAP_STATEFUL_CMD_NONE \<Longrightarrow> stateful_ok t"
  by (simp add: stateful_ok_def)

lemma stateful_ok_time [simp]: "stateful_ok (t\<lparr>last_cmd_time := n\<rparr>) = stateful_ok t"
  by (simp add: stateful_ok_def)

lemma state_ok_keeps: "keeps_stateful s s' \<Longrightarrow> state_ok s \<Longrightarrow> state_ok s'"
  by (auto simp: keeps_stateful_def)

lemma active_discard [simp]:
  "active_cmd (stateful_command_state (ctap_discard_stateful_command_state s))
     = CTAP_STATEFUL_CMD_NONE"
  by (simp add: ctap_discard_stateful_command_state_def zero_stateful_state_def
      ctap_has_stateful_command_state_def)

lemma state_ok_timer:
  "ctap_update_stateful_command_timer s = Some s' \<Longrightarrow> state_ok s' = state_ok s"
  by (auto simp: ctap_update_stateful_command_timer_def require_def split: if_splits)

section \<open>Steps that leave the state of the stateful commands as it is\<close>

lemma verify_with_token_frame:
  assumes "verify_with_token env now s i parts sig = Some (valid, s')"
  shows "\<exists>t. s' = s\<lparr>pin_uv_auth_token_state := t\<rparr>"
  using assms by (auto simp: verify_with_token_def Let_def split: bind_splits option.splits)

lemma ensure_valid_frame:
  assumes "ensure_valid_pin_uv_auth_param env now s params rp i perms = Some (status, s')"
  shows "\<exists>t. s' = s\<lparr>pin_uv_auth_token_state := t\<rparr>"
  using assms by (auto simp: ensure_valid_pin_uv_auth_param_def verify_client_data_hash_def
      ctap_check_state_eq_Some Let_def split: bind_splits if_splits dest!: verify_with_token_frame)

lemma stateful_consume [simp]:
  "stateful_command_state (consume_user_gestures s) = stateful_command_state s"
  by (simp add: consume_user_gestures_def ctap_pin_uv_auth_token_clear_permissions_except_lbw_def
      ctap_pin_uv_auth_token_clear_user_verified_flag_def
      ctap_pin_uv_auth_token_clear_user_present_flag_def)

lemma finish_make_credential_frame:
  assumes "finish_make_credential env bytes_of junk s params rp user d cp flags encoder
      = Some (status, s', encoder')"
  shows "\<exists>st r. s' = s\<lparr>storage := st, rng_position := r\<rparr>"
  using assms unfolding finish_make_credential_def Let_def require_def
  by (auto split: bind_splits option.splits sum.splits if_splits prod.splits)

lemma generate_get_assertion_response_frame:
  assumes "generate_get_assertion_response env bytes_of s g encoder = Some (status, s', encoder')"
  shows "\<exists>st r. s' = s\<lparr>storage := st, rng_position := r\<rparr>"
  using assms unfolding generate_get_assertion_response_def Let_def require_def
  by (auto split: bind_splits option.splits sum.splits if_splits prod.splits)

lemma respond_with_credential_frame:
  assumes "respond_with_credential env s encoder c num = Some (status, s', encoder')"
  shows "\<exists>r. s' = s\<lparr>rng_position := r\<rparr>"
  using assms unfolding respond_with_credential_def Let_def
  by (auto split: bind_splits if_splits prod.splits)

lemma same_rng [simp]: "\<exists>r. s = s\<lparr>rng_position := r\<rparr>"
  by (intro exI [of _ "rng_position s"]) simp

lemma same_token [simp]: "\<exists>t. s = s\<lparr>pin_uv_auth_token_state := t\<rparr>"
  by (intro exI [of _ "pin_uv_auth_token_state s"]) simp

lemma prepare_hmac_frame:
  assumes "prepare_get_assertion_hmac_secret_extension env s g hs flags = Some (status, s', g')"
  shows "\<exists>r. s' = s\<lparr>rng_position := r\<rparr> \<and> ga_credentials g' = ga_credentials g
    \<and> ga_next_credential_idx g' = ga_next_credential_idx g"
  using assms unfolding prepare_get_assertion_hmac_secret_extension_def Let_def require_def
  by (auto split: bind_splits if_splits option.splits dest!: decapsulate_request_frame)

section \<open>The commands\<close>

text \<open>
  What a command leaves: the active command and its data as they were, or a valid state of its own.
\<close>

lemma make_credential_verified_frame:
  assumes "make_credential_verified env dec bytes_of junk up s mc rp d flags encoder
      = Some (status, s', encoder')"
  shows "stateful_command_state s' = stateful_command_state s"
  using assms unfolding make_credential_verified_def Let_def
  by (auto split: if_splits bind_splits dest!: finish_make_credential_frame)

lemma verify_make_credential_frame:
  assumes "verify_make_credential env now s params rp p d = Some (status, s1, flags)"
  shows "\<exists>t. s1 = s\<lparr>pin_uv_auth_token_state := t\<rparr>"
  using assms unfolding verify_make_credential_def Let_def require_def
  by (auto simp: ctap_check_state_eq_Some split: if_splits dest!: ensure_valid_frame)

lemma verify_get_assertion_frame:
  assumes "verify_get_assertion env now s params rp p = Some (status, s1, flags)"
  shows "\<exists>t. s1 = s\<lparr>pin_uv_auth_token_state := t\<rparr>"
  using assms unfolding verify_get_assertion_def Let_def require_def
  by (auto simp: ctap_check_state_eq_Some split: if_splits dest!: ensure_valid_frame)

lemma make_credential_frame:
  assumes "ctap_make_credential env dec bytes_of junk up now s it encoder = Some (status, s', encoder')"
  shows "stateful_command_state s' = stateful_command_state s"
  using assms unfolding ctap_make_credential_def Let_def
  by (auto simp: ctap_check_state_eq_Some split: presult.splits prod.splits if_splits
      dest!: verify_make_credential_frame make_credential_verified_frame)

lemma set_get_assertion_active [simp]:
  "active_cmd (stateful_command_state (set_get_assertion_state s g))
     = active_cmd (stateful_command_state s)"
  by (simp add: set_get_assertion_state_def)

lemma remember_state_ok:
  assumes "remember_credentials al s g = Some s'"
      and "active_cmd (stateful_command_state s) = CTAP_STATEFUL_CMD_NONE"
      and "length (ga_credentials g) \<le> 128"
  shows "state_ok s'"
  using assms by (auto simp: remember_credentials_def stateful_ok_def
      ctap_update_stateful_command_timer_def require_def split: if_splits)

lemma respond_get_assertion_state_ok:
  assumes "respond_get_assertion env bytes_of s g params rp flags encoder = Some (status, s', encoder')"
      and "active_cmd (stateful_command_state s) = CTAP_STATEFUL_CMD_NONE"
      and "length (ga_credentials g) \<le> 128"
  shows "state_ok s'"
  using assms unfolding respond_get_assertion_def Let_def require_def
  by (auto simp: ctap_check_state_eq_Some split: if_splits bind_splits
      dest!: generate_get_assertion_response_frame elim!: remember_state_ok)

lemma finish_get_assertion_state_ok:
  assumes "finish_get_assertion env bytes_of up s g ga rp upo flags encoder = Some (status, s', encoder')"
      and "active_cmd (stateful_command_state s) = CTAP_STATEFUL_CMD_NONE"
      and "length (ga_credentials g) \<le> 128"
  shows "state_ok s'"
proof (cases "upo \<and> ensure_user_present s up (has_param (ga_common ga) 6) \<noteq> CTAP2_OK")
  case True
  then show ?thesis using assms(1,2) by (simp add: finish_get_assertion_def Let_def)
next
  case False
  let ?s1 = "if upo then consume_user_gestures s else s"
  let ?r = "if has_param (ga_common ga) 4
      \<and> extensions_present (ga_common ga) AND CTAP_extension_hmac_secret \<noteq> 0
    then prepare_get_assertion_hmac_secret_extension env ?s1 g (hmac_secret ga)
      (if upo then flags OR auth_data_up else flags) else Some (CTAP2_OK, ?s1, g)"
  have r: "active_cmd (stateful_command_state s2) = CTAP_STATEFUL_CMD_NONE
      \<and> length (ga_credentials g1) \<le> 128" if "?r = Some (st, s2, g1)" for st s2 g1
    using that assms(2,3) by (auto split: if_splits dest!: prepare_hmac_frame)
  obtain st s2 g1 where q: "?r = Some (st, s2, g1)"
      "if st \<noteq> CTAP2_OK then s' = set_get_assertion_state s2 g1
       else respond_get_assertion env bytes_of s2 g1 (ga_common ga) rp
         (if upo then flags OR auth_data_up else flags) encoder = Some (status, s', encoder')"
    using assms(1) False unfolding finish_get_assertion_def Let_def
    by (auto simp: ctap_check_state_eq_Some split del: if_split split: if_split_asm)
  show ?thesis
    using q(2) r [OF q(1)] respond_get_assertion_state_ok by (auto split: if_splits)
qed

lemma locate_credentials_bound:
  "locate_credentials env dec junk s ga rp uv = Some (Inr cs) \<Longrightarrow> length cs \<le> 128"
  unfolding locate_credentials_def
  by (auto split: if_splits dest: process_allow_list_bound find_discoverable_bound)

lemma get_assertion_verified_state_ok:
  assumes "get_assertion_verified env dec bytes_of junk up s ga rp upo flags encoder
      = Some (status, s', encoder')"
  shows "state_ok s'"
  using assms unfolding get_assertion_verified_def Let_def
  by (auto split: if_splits bind_splits sum.splits dest!: locate_credentials_bound
      elim!: finish_get_assertion_state_ok)

lemma get_assertion_state_ok:
  assumes "ctap_get_assertion env dec bytes_of junk up now s it encoder = Some (status, s', encoder')"
      and "state_ok s"
  shows "state_ok s'"
  using assms unfolding ctap_get_assertion_def Let_def
  by (auto simp: ctap_check_state_eq_Some split: if_splits prod.splits presult.splits
      dest!: verify_get_assertion_frame intro: get_assertion_verified_state_ok)

lemma get_next_assertion_state_ok:
  assumes "ctap_get_next_assertion env bytes_of s encoder = Some (status, s', encoder')"
      and "state_ok s"
  shows "state_ok s'"
  using assms unfolding ctap_get_next_assertion_def Let_def require_def
  by (auto simp: ctap_check_state_eq_Some set_get_assertion_state_def stateful_ok_def
      ctap_update_stateful_command_timer_def require_def
      split: if_splits bind_splits stateful_data.splits
      dest!: generate_get_assertion_response_frame)

lemma enumerate_rps_begin_state_ok:
  assumes "credential_management_enumerate_rps_begin env s encoder = Some (status, s', encoder')"
      and "state_ok s"
  shows "state_ok s'"
  using assms unfolding credential_management_enumerate_rps_begin_def Let_def
  by (auto simp: set_enumerate_rps_def ctap_update_stateful_command_timer_def require_def
      stateful_ok_def dest!: enumerate_bound split: if_splits bind_splits sum.splits prod.splits)

lemma enumerate_rps_next_state_ok:
  assumes "credential_management_enumerate_rps_get_next_rp env s encoder = Some (status, s', encoder')"
      and "state_ok s"
  shows "state_ok s'"
  using assms unfolding credential_management_enumerate_rps_get_next_rp_def Let_def
  by (auto simp: set_enumerate_rps_def ctap_update_stateful_command_timer_def require_def
      stateful_ok_def split: if_splits bind_splits prod.splits stateful_data.splits)

lemma enumerate_credentials_begin_state_ok:
  assumes "credential_management_enumerate_credentials_begin env s cm encoder
      = Some (status, s', encoder')" and "state_ok s"
  shows "state_ok s'"
  using assms unfolding credential_management_enumerate_credentials_begin_def Let_def
  by (auto simp: set_enumerate_credentials_def ctap_update_stateful_command_timer_def require_def
      ctap_check_state_eq_Some stateful_ok_def split: if_splits bind_splits sum.splits prod.splits
      dest!: find_discoverable_bound respond_with_credential_frame)

lemma enumerate_credentials_next_state_ok:
  assumes "credential_management_enumerate_credentials_get_next_credential env s encoder
      = Some (status, s', encoder')" and "state_ok s"
  shows "state_ok s'"
  using assms unfolding credential_management_enumerate_credentials_get_next_credential_def Let_def
  by (auto simp: set_enumerate_credentials_def ctap_update_stateful_command_timer_def require_def
      ctap_check_state_eq_Some stateful_ok_def split: if_splits bind_splits stateful_data.splits
      dest!: respond_with_credential_frame)

lemma get_creds_metadata_frame:
  assumes "credential_management_get_creds_metadata env s encoder = Some (status, s', encoder')"
  shows "s' = s"
  using assms unfolding credential_management_get_creds_metadata_def Let_def
  by (auto split: if_splits prod.splits bind_splits)

lemma verify_credential_management_frame:
  assumes "verify_credential_management_params env now request s cm i = Some (status, s')"
  shows "\<exists>t. s' = s\<lparr>pin_uv_auth_token_state := t\<rparr>"
  using assms unfolding verify_credential_management_params_def Let_def
  by (auto split: bind_splits dest!: verify_with_token_frame)

lemma delete_credential_keeps:
  assumes "credential_management_delete_credential env s cm = Some (status, s')"
  shows "keeps_stateful s s'"
  using assms keeps_discard [of s] unfolding credential_management_delete_credential_def Let_def
  by (auto simp: keeps_stateful_def split: bind_splits sum.splits)

lemma update_user_information_keeps:
  assumes "credential_management_update_user_information env junk s cm = Some (status, s')"
  shows "keeps_stateful s s'"
  using assms keeps_discard [of s] unfolding credential_management_update_user_information_def Let_def
  by (auto simp: keeps_stateful_def split: bind_splits sum.splits)

lemma credential_management_subcommand_state_ok:
  assumes "credential_management_subcommand env junk s cm encoder = Some (status, s', encoder')"
      and "state_ok s"
  shows "state_ok s'"
  using assms unfolding credential_management_subcommand_def Let_def
  by (auto split: if_splits dest!: get_creds_metadata_frame
      dest: enumerate_rps_begin_state_ok enumerate_rps_next_state_ok
        enumerate_credentials_begin_state_ok enumerate_credentials_next_state_ok
        delete_credential_keeps update_user_information_keeps intro: state_ok_keeps)

lemma credential_management_state_ok:
  assumes "ctap_credential_management env dec junk now request s it encoder
      = Some (status, s', encoder')" and "state_ok s"
  shows "state_ok s'"
  using assms unfolding ctap_credential_management_def Let_def
  by (auto simp: ctap_check_state_eq_Some split: presult.splits if_splits option.splits
      dest!: verify_credential_management_frame credential_management_subcommand_state_ok)

lemma stateful_ok_reread [simp]:
  "stateful_ok (t\<lparr>cmd_data := reread_remembered inp st (cmd_data t)\<rparr>) = stateful_ok t"
  by (auto simp: stateful_ok_def reread_remembered_def split: ctap_stateful_command.splits
      stateful_data.splits)

lemma init_frame:
  assumes "ctap_init env now s = Some s'"
  shows "stateful_command_state s' = stateful_command_state s"
proof -
  obtain s1 where s1: "ctap_init_pin_persistent_state env (s\<lparr>init_time := now\<rparr>) = Some s1"
    using assms by (auto simp: ctap_init_def split: bind_splits)
  then have "stateful_command_state s1 = stateful_command_state s"
    by (auto simp: ctap_init_pin_persistent_state_def Let_def require_def split: bind_splits if_splits)
  with ctap_init_frame [OF s1 assms] show ?thesis by simp
qed

lemma reset_state_ok:
  assumes "ctap_reset env inp s = Some (status, s')" and "state_ok s"
  shows "state_ok s'"
  using assms unfolding ctap_reset_def Let_def
  by (auto split: if_splits ctap_user_presence_result.splits bind_splits dest!: init_frame)

lemma call_handler_state_ok:
  assumes "call_handler h env dec bytes_of inp params s it = Some (status, s', encoder')"
      and "state_ok s"
  shows "state_ok s'"
  using assms
  by (cases h) (auto dest: make_credential_frame get_assertion_state_ok get_next_assertion_state_ok
      credential_management_state_ok reset_state_ok state_ok_keeps keeps_client_pin
      simp: Let_def split: prod.splits)

lemma invoke_handler_state_ok:
  assumes "ctap_invoke_handler env dec parser_init bytes_of inp s cmd params
      = Some (status, s', encoder')" and "state_ok s"
  shows "state_ok s'"
  using assms unfolding ctap_invoke_handler_def
  by (auto split: option.splits if_splits bind_splits dest: call_handler_state_ok)

lemma request_state_ok:
  assumes "ctap_request env dec parser_init bytes_of inp s cmd params = Some (status, s', encoder')"
      and "state_ok s"
  shows "state_ok s'"
proof -
  let ?s1 = "s\<lparr>current_time := clock_at_start inp\<rparr>"
  let ?s2 = "snd (ctap_pin_uv_auth_token_check_usage_timer ?s1)"
  let ?s3 = "snd (ctap_discard_stateful_command_state_if_expired ?s2)"
  have "stateful_command_state (ctap_pin_uv_auth_token_clear_user_present_flag ?s1)
      = stateful_command_state ?s1"
    by (simp add: ctap_pin_uv_auth_token_clear_user_present_flag_def)
  then have "keeps_stateful ?s1 ?s2"
    by (auto simp: ctap_pin_uv_auth_token_check_usage_timer_def Let_def keeps_eq)
  moreover have "keeps_stateful ?s2 ?s3"
    by (simp add: ctap_discard_stateful_command_state_if_expired_def)
  ultimately have "state_ok ?s3"
    using assms(2) state_ok_keeps [of ?s1 ?s2] state_ok_keeps [of ?s2 ?s3] by simp
  then show ?thesis
    using assms(1) invoke_handler_state_ok unfolding ctap_request_def Let_def by blast
qed

section \<open>Reachable states\<close>

text \<open>
  The states an authenticator can be in between two requests: what \<open>ctap_init\<close> makes of any
  storage at power-up, and what any request (any command, any clock, any decision of the user)
  makes of such a state.
\<close>

inductive authenticator_reachable :: "('h, 's) ctap_interfaces \<Rightarrow> 'v tinycbor \<Rightarrow> (bytes \<Rightarrow> 'v option)
    \<Rightarrow> (encoder \<Rightarrow> bytes) \<Rightarrow> ('h, 's) ctap_state \<Rightarrow> bool"
  for env dec parser_init bytes_of where
  power_up: "ctap_init env now ((CTAP_STATE_CONST_INIT st)\<lparr>rng_position := r\<rparr>) = Some s \<Longrightarrow>
    authenticator_reachable env dec parser_init bytes_of s"
| request: "authenticator_reachable env dec parser_init bytes_of s \<Longrightarrow>
    ctap_request env dec parser_init bytes_of inp s cmd params = Some (status, s', response) \<Longrightarrow>
    authenticator_reachable env dec parser_init bytes_of s'"

inductive_cases authenticator_reachableE: "authenticator_reachable env dec parser_init bytes_of s"

lemma reachable_state_ok:
  "authenticator_reachable env dec parser_init bytes_of s \<Longrightarrow> state_ok s"
proof (induction rule: authenticator_reachable.induct)
  case (power_up now st r s)
  from init_frame [OF this] show ?case
    by (simp add: CTAP_STATE_CONST_INIT_def zero_ctap_state_def zero_stateful_state_def)
next
  case (request s inp cmd params status s' response)
  then show ?case by (blast intro: request_state_ok)
qed

lemma example_reachable:
  "\<exists>s. authenticator_reachable memory_env dec parser_init bytes_of s \<and> ctap_is_pin_set s
     \<and> length (pin_protocols s) = 2"
proof -
  have "\<exists>s. ctap_init memory_env 0 ((CTAP_STATE_CONST_INIT (storage (pin_memory_state 100)))
      \<lparr>rng_position := 0\<rparr>) = Some s \<and> pin_state s = pin_state (pin_memory_state 100)
      \<and> length (pin_protocols s) = 2"
    using mem.power_cycle_ok [OF pin_memory_state_ok(1) [of 100], of memory_env 0 0]
    by (auto simp: memory_env_def CTAP_MEMORY_STORAGE_CONST_INIT_def)
  then obtain s where s: "ctap_init memory_env 0 ((CTAP_STATE_CONST_INIT (storage (pin_memory_state 100)))
      \<lparr>rng_position := 0\<rparr>) = Some s" "pin_state s = pin_state (pin_memory_state 100)"
      "length (pin_protocols s) = 2" by blast
  have "ctap_is_pin_set s"
    using s(2) pin_memory_state_ok(2) [of 100] by (simp add: ctap_is_pin_set_def)
  with s(3) authenticator_reachable.power_up [OF s(1)] show ?thesis by blast
qed

text \<open>
  C27: In every state an authenticator can reach, whatever requests it got and however they ended,
  an active stateful command finds its own member of the union, and the index of the next element
  is an entry of a list that fits into the array of 128. So neither the assertion in
  \<open>ctap_get_next_assertion\<close> nor the unchecked array accesses of the two enumerations can fail.
\<close>

theorem stateful_commands_valid:
  assumes "authenticator_reachable env dec parser_init bytes_of s"
  shows "(active_cmd (stateful_command_state s) = CTAP_STATEFUL_CMD_GET_ASSERTION \<longrightarrow>
      (\<exists>g. cmd_data (stateful_command_state s) = Get_Assertion g
        \<and> ga_next_credential_idx g < length (ga_credentials g) \<and> length (ga_credentials g) \<le> 128))
    \<and> (active_cmd (stateful_command_state s) = CTAP_STATEFUL_CMD_CRED_MGMT_ENUMERATE_RPS \<longrightarrow>
      (\<exists>d. cmd_data (stateful_command_state s) = Enumerate_Rps d
        \<and> next_rp_idx d < length (rp_ids d) \<and> length (rp_ids d) \<le> 128))
    \<and> (active_cmd (stateful_command_state s) = CTAP_STATEFUL_CMD_CRED_MGMT_ENUMERATE_CREDENTIALS \<longrightarrow>
      (\<exists>d. cmd_data (stateful_command_state s) = Enumerate_Credentials d
        \<and> cm_next_credential_idx d < length (cm_credentials d) \<and> length (cm_credentials d) \<le> 128))"
  using reachable_state_ok [OF assms]
  by (auto simp: stateful_ok_def split: stateful_data.splits)

lemma stateful_commands_valid_witness:
  "\<exists>s. authenticator_reachable memory_env ref_decoder (\<lambda>_. None) (\<lambda>_. []) s
    \<and> (active_cmd (stateful_command_state s) = CTAP_STATEFUL_CMD_GET_ASSERTION \<longrightarrow>
        (\<exists>g. cmd_data (stateful_command_state s) = Get_Assertion g
          \<and> ga_next_credential_idx g < length (ga_credentials g)))"
  using example_reachable [of ref_decoder "\<lambda>_. None" "\<lambda>_. []"] stateful_commands_valid by blast

end
