(* ===== verification/Parse_Status.thy ===== *)
theory Parse_Status
  imports Ctap_Parse
begin

text \<open>
  A parser that fails reports a status other than \<open>CTAP2_OK\<close>, whatever the decoder does: the
  callers test the status of a parser against \<open>CTAP2_OK\<close>.
\<close>

definition reports_errors :: "'a presult \<Rightarrow> bool" where
  "reports_errors r \<longleftrightarrow> r \<noteq> Err CTAP2_OK"

named_theorems reports

lemma reports_Ok [reports]: "reports_errors (Ok x)"
  and reports_Abort [reports]: "reports_errors Abort"
  and reports_Err [reports]: "e \<noteq> CTAP2_OK \<Longrightarrow> reports_errors (Err e)"
  by (simp_all add: reports_errors_def)

lemma reports_check [reports]:
  "reports_errors r \<Longrightarrow> (\<And>x. reports_errors (k x)) \<Longrightarrow> reports_errors (ctap_check r k)"
  by (cases r) (auto simp: reports_errors_def)

lemma reports_decoding [reports]:
  "(\<And>x. reports_errors (k x)) \<Longrightarrow> reports_errors (cbor_decoding_check r k)"
  by (cases r) (auto simp: reports_errors_def)

lemma reports_ensure [reports]: "reports_errors k \<Longrightarrow> reports_errors (ctap_cbor_ensure_type b k)"
  by (auto simp: reports_errors_def ctap_cbor_ensure_type_def)

lemma reports_assert [reports]: "reports_errors k \<Longrightarrow> reports_errors (assert_that b k)"
  by (auto simp: reports_errors_def assert_that_def)

lemma reports_if [reports]: "reports_errors a \<Longrightarrow> reports_errors b \<Longrightarrow> reports_errors (if c then a else b)"
  by simp

lemma reports_prod [reports]: "(\<And>a b. reports_errors (f a b)) \<Longrightarrow> reports_errors (case p of (a, b) \<Rightarrow> f a b)"
  by (cases p) simp

lemma reports_prod_app [reports]:
  "(\<And>a b. reports_errors (f a b x)) \<Longrightarrow> reports_errors ((case p of (a, b) \<Rightarrow> f a b) x)"
  by (cases p) simp

lemma reports_option [reports]:
  "reports_errors n \<Longrightarrow> (\<And>x. reports_errors (f x)) \<Longrightarrow>
   reports_errors (case v of None \<Rightarrow> n | Some x \<Rightarrow> f x)"
  by (cases v) simp_all

lemma reports_let [reports]: "(\<And>x. reports_errors (f x)) \<Longrightarrow> reports_errors (Let v f)"
  by (simp add: Let_def)

lemma reports_entries [reports]:
  assumes "\<And>m. reports_errors (get_key m)" and "\<And>k p m. reports_errors (entry k p m)"
  shows "reports_errors (parse_entries n get_key entry p m)"
  by (induction n arbitrary: p m) (auto intro!: reports assms)

lemma reports_map [reports]:
  "(\<And>m. reports_errors (get_key m)) \<Longrightarrow> (\<And>k p m. reports_errors (entry k p m)) \<Longrightarrow>
   reports_errors (parse_map dec get_key entry p it)"
  unfolding parse_map_def by (intro reports)

lemma reports_basic [reports]:
  "reports_errors (skip_value dec p m)"
  "reports_errors (parse_uint8 dec it)"
  "reports_errors (parse_int dec it)"
  "reports_errors (parse_byte_string_to_ctap_string dec it)"
  "reports_errors (parse_text_string_to_ctap_string dec it)"
  unfolding skip_value_def parse_uint8_def parse_int_def parse_byte_string_to_ctap_string_def
    parse_text_string_to_ctap_string_def ctap_cbor_value_get_uint8_def
  by (rule reports | simp)+

lemma reports_fixed [reports]: "reports_errors (parse_copy_fixed_byte_string dec it n)"
  unfolding parse_copy_fixed_byte_string_def by (rule reports | simp)+

lemma reports_cred_desc [reports]: "reports_errors (parse_cred_desc dec cred_desc it)"
  unfolding parse_cred_desc_def parse_cred_desc_entry_def by (rule reports | simp)+

lemma reports_next_cred: "reports_errors (ctap_parse_pub_key_cred_desc_list_next_cred dec ctx)"
  "reports_errors (ctap_parse_pub_key_cred_desc_list_init dec junk v)"
  unfolding ctap_parse_pub_key_cred_desc_list_next_cred_def ctap_parse_pub_key_cred_desc_list_init_def
  by (rule reports | simp)+

section \<open>The parsers of the commands\<close>

lemma reports_key [reports]: "reports_errors (parse_pin_uv_auth_protocol_public_key dec key it)"
  unfolding parse_pin_uv_auth_protocol_public_key_def parse_cose_key_def parse_cose_key_entry_def
  by (rule reports | simp)+

lemma reports_client_pin: "reports_errors (ctap_parse_client_pin dec it)"
  unfolding ctap_parse_client_pin_def ctap_parse_client_pin_entry_def by (rule reports | simp)+

lemma reports_entities [reports]:
  "reports_errors (parse_rp_entity dec v it)" "reports_errors (parse_user_entity dec u it)"
  "reports_errors (parse_mc_ga_options dec opts it)"
  unfolding parse_rp_entity_def parse_rp_entity_entry_def parse_user_entity_def
    parse_user_entity_entry_def parse_mc_ga_options_def parse_mc_ga_options_entry_def
  by (rule reports | simp)+

lemma reports_extensions [reports]:
  "reports_errors (parse_make_credential_extensions dec mc it)"
  "reports_errors (parse_get_assertion_extensions dec ga it)"
  unfolding parse_make_credential_extensions_def parse_make_credential_extensions_entry_def
    parse_get_assertion_extensions_def parse_get_assertion_extensions_entry_def
    parse_get_assertion_hmac_secret_extension_def parse_get_assertion_hmac_secret_entry_def
  by (rule reports | simp)+

lemma reports_make_credential: "reports_errors (ctap_parse_make_credential dec it)"
  unfolding ctap_parse_make_credential_def ctap_parse_make_credential_entry_def
  by (rule reports | simp)+

lemma reports_cred_params [reports]: "reports_errors (parse_cred_params dec p it)"
  unfolding parse_cred_params_def parse_cred_params_entry_def by (rule reports | simp)+

lemma reports_cred_params_loop [reports]:
  "reports_errors (parse_pub_key_cred_params_loop n i dec stack chosen it)"
proof (induction n arbitrary: i chosen it)
  case (Suc n)
  show ?case unfolding parse_pub_key_cred_params_loop.simps by (rule reports Suc)+
qed (simp add: reports)

lemma reports_pub_key_cred_params:
  "reports_errors (ctap_parse_make_credential_pub_key_cred_params dec stack mc)"
  unfolding ctap_parse_make_credential_pub_key_cred_params_def by (rule reports | simp)+

lemma reports_get_assertion: "reports_errors (ctap_parse_get_assertion dec it)"
  unfolding ctap_parse_get_assertion_def ctap_parse_get_assertion_entry_def by (rule reports | simp)+

lemma reports_credential_management: "reports_errors (ctap_parse_credential_management dec it)"
  unfolding ctap_parse_credential_management_def ctap_parse_credential_management_entry_def
    parse_credential_management_subcommand_params_def
    parse_credential_management_subcommand_params_entry_def
  by (rule reports | simp)+

lemmas parse_status [simp] =
  reports_client_pin [unfolded reports_errors_def]
  reports_make_credential [unfolded reports_errors_def]
  reports_pub_key_cred_params [unfolded reports_errors_def]
  reports_get_assertion [unfolded reports_errors_def]
  reports_credential_management [unfolded reports_errors_def]
  reports_next_cred [unfolded reports_errors_def]

end
