(* ===== verification/Assertions.thy ===== *)
theory Assertions
  imports Stateful_Commands Credential_Properties Parse_Status
begin

text \<open>
  What a successful authenticatorGetAssertion guarantees: who authorised it, which credentials it
  may use and what the response says; and how authenticatorGetNextAssertion goes through the rest.
\<close>

section \<open>Authorisation\<close>

text \<open>The identifier of the relying party in a request with its hash.\<close>

definition request_rp :: "('h, 's) ctap_interfaces \<Rightarrow> CTAP_mc_ga_common \<Rightarrow> CTAP_rpId" where
  "request_rp env params = \<lparr>rp_id_id = rpId params, rp_id_hash_value =
     ctap_compute_rp_id_hash (crypto_ops env) (zeros 32) (rpId params)\<rparr>"

text \<open>
  The signature over the hash of the client data is valid under the token in use, which has the
  permission, belongs to this relying party or to none yet, and stands for a verified user.
\<close>

definition token_verifies :: "('h, 's) ctap_interfaces \<Rightarrow> u32 \<Rightarrow> ('h, 's) ctap_state
    \<Rightarrow> CTAP_mc_ga_common \<Rightarrow> CTAP_rpId \<Rightarrow> nat \<Rightarrow> u32 \<Rightarrow> bool" where
  "token_verifies env now s params rp i perms \<longleftrightarrow>
     (\<exists>s1. verify_with_token env now s i [clientDataHash params] (pinUvAuthParam params) = Some (True, s1))
   \<and> ctap_pin_uv_auth_token_has_permissions s perms
   \<and> (rpId_set (pin_uv_auth_token_state s) \<longrightarrow>
        rpId_hash (pin_uv_auth_token_state s) = rp_id_hash_value rp)
   \<and> ctap_pin_uv_auth_token_get_user_verified_flag_value s"

text \<open>What a request does to the token before the user's gestures are consumed.\<close>

definition same_gestures :: "('h, 's) ctap_state \<Rightarrow> ('h, 's) ctap_state \<Rightarrow> bool" where
  "same_gestures s s' \<longleftrightarrow>
     (\<exists>last used hash. s' = s\<lparr>pin_uv_auth_token_state := (pin_uv_auth_token_state s)\<lparr>
        usage_timer_last_use := last, rpId_set := used, rpId_hash := hash\<rparr>\<rparr>)"

lemma same_gestures_refl [simp]: "same_gestures s s"
  unfolding same_gestures_def
  by (intro exI [of _ "usage_timer_last_use (pin_uv_auth_token_state s)"]
      exI [of _ "rpId_set (pin_uv_auth_token_state s)"]
      exI [of _ "rpId_hash (pin_uv_auth_token_state s)"]) simp

lemma same_gestures_token:
  assumes "same_gestures s s'"
  shows "in_use (pin_uv_auth_token_state s') = in_use (pin_uv_auth_token_state s)"
    "permissions (pin_uv_auth_token_state s') = permissions (pin_uv_auth_token_state s)"
    "ctap_pin_uv_auth_token_get_user_present_flag_value s'
       = ctap_pin_uv_auth_token_get_user_present_flag_value s"
    "ctap_is_pin_set s' = ctap_is_pin_set s" "storage s' = storage s"
    "rng_position s' = rng_position s" "stateful_command_state s' = stateful_command_state s"
  using assms by (auto simp: same_gestures_def ctap_is_pin_set_def
      ctap_pin_uv_auth_token_get_user_present_flag_value_def)

lemma verify_with_token_gestures:
  assumes "verify_with_token env now s i parts sig = Some (valid, s')"
  shows "\<exists>last. s' = s\<lparr>pin_uv_auth_token_state := (pin_uv_auth_token_state s)
    \<lparr>usage_timer_last_use := last\<rparr>\<rparr>"
proof -
  have "\<exists>last. s = s\<lparr>pin_uv_auth_token_state := (pin_uv_auth_token_state s)
      \<lparr>usage_timer_last_use := last\<rparr>\<rparr>"
    by (intro exI [of _ "usage_timer_last_use (pin_uv_auth_token_state s)"]) simp
  with assms show ?thesis
    by (auto simp: verify_with_token_def ctap_pin_protocol_verify_init_with_pin_uv_auth_token_def
        Let_def split: bind_splits option.splits if_splits)
qed

lemma ensure_valid_verifies:
  assumes "ensure_valid_pin_uv_auth_param env now s params rp i perms = Some (CTAP2_OK, s')"
  shows "token_verifies env now s params rp i perms \<and> same_gestures s s'"
proof -
  obtain s1 where s1: "verify_with_token env now s i [clientDataHash params] (pinUvAuthParam params)
      = Some (True, s1)" and ok: "ctap_pin_uv_auth_token_has_permissions s1 perms"
      "rpId_set (pin_uv_auth_token_state s1) \<longrightarrow>
        rpId_hash (pin_uv_auth_token_state s1) = rp_id_hash_value rp"
      "ctap_pin_uv_auth_token_get_user_verified_flag_value s1"
      "s' = (if \<not> rpId_set (pin_uv_auth_token_state s1)
         then s1\<lparr>pin_uv_auth_token_state := (pin_uv_auth_token_state s1)\<lparr>
            rpId_hash := ctap_compute_rp_id_hash (crypto_ops env)
              (rpId_hash (pin_uv_auth_token_state s1)) (rp_id_id rp), rpId_set := True\<rparr>\<rparr> else s1)"
  proof -
    from assms obtain x where x: "verify_client_data_hash env now s params i = Some (CTAP2_OK, x)"
      and k: "(let t = pin_uv_auth_token_state x in
       if \<not> ctap_pin_uv_auth_token_has_permissions x perms
       then Some (CTAP2_ERR_PIN_AUTH_INVALID, x)
       else if rpId_set t \<and> rpId_hash t \<noteq> rp_id_hash_value rp
       then Some (CTAP2_ERR_PIN_AUTH_INVALID, x)
       else if \<not> ctap_pin_uv_auth_token_get_user_verified_flag_value x
       then Some (CTAP2_ERR_PIN_AUTH_INVALID, x)
       else Some (CTAP2_OK, if \<not> rpId_set t then x\<lparr>pin_uv_auth_token_state := t\<lparr>
                rpId_hash := ctap_compute_rp_id_hash (crypto_ops env) (rpId_hash t) (rp_id_id rp),
                rpId_set := True\<rparr>\<rparr> else x)) = Some (CTAP2_OK, s')"
      unfolding ensure_valid_pin_uv_auth_param_def
      unfolding ctap_check_state_eq_Some id_apply by (elim exE conjE) (simp split: if_split_asm)
    from x have "verify_with_token env now s i [clientDataHash params] (pinUvAuthParam params)
        = Some (True, x)"
      by (auto simp: verify_client_data_hash_def split: bind_splits if_splits)
    moreover have p: "ctap_pin_uv_auth_token_has_permissions x perms"
      by (rule ccontr) (use k in simp)
    moreover have r: "\<not> (rpId_set (pin_uv_auth_token_state x)
        \<and> rpId_hash (pin_uv_auth_token_state x) \<noteq> rp_id_hash_value rp)"
    proof
      assume "rpId_set (pin_uv_auth_token_state x)
        \<and> rpId_hash (pin_uv_auth_token_state x) \<noteq> rp_id_hash_value rp"
      with k p show False by (simp add: Let_def)
    qed
    moreover have v: "ctap_pin_uv_auth_token_get_user_verified_flag_value x"
      by (rule ccontr) (use k p r in \<open>simp only: Let_def if_True if_False not_True_eq_False
        option.inject prod.inject, simp\<close>)
    ultimately show thesis
      using that k by (simp only: Let_def if_True if_False not_True_eq_False simp_thms) simp
  qed
  obtain last where last: "s1 = s\<lparr>pin_uv_auth_token_state := (pin_uv_auth_token_state s)
      \<lparr>usage_timer_last_use := last\<rparr>\<rparr>"
    using verify_with_token_gestures [OF s1] by blast
  have "token_verifies env now s params rp i perms"
    unfolding token_verifies_def using s1 ok(1-3) last
    by (simp add: ctap_pin_uv_auth_token_has_permissions_def
        ctap_pin_uv_auth_token_get_user_verified_flag_value_def split: if_splits)
  moreover have "same_gestures s s'"
  proof (cases "rpId_set (pin_uv_auth_token_state s)")
    case True
    then show ?thesis unfolding same_gestures_def using ok(4) last
      by (intro exI [of _ last] exI [of _ True]
          exI [of _ "rpId_hash (pin_uv_auth_token_state s)"]) simp
  next
    case False
    then show ?thesis unfolding same_gestures_def using ok(4) last
      by (intro exI [of _ last] exI [of _ True] exI [of _ "ctap_compute_rp_id_hash (crypto_ops env)
          (rpId_hash (pin_uv_auth_token_state s)) (rp_id_id rp)"]) simp
  qed
  ultimately show ?thesis by blast
qed

lemma ensure_user_present_OK:
  "ensure_user_present s up present = CTAP2_OK \<longleftrightarrow> up = CTAP_UP_RESULT_ALLOW
     \<or> present \<and> ctap_pin_uv_auth_token_get_user_present_flag_value s"
  by (auto simp: ensure_user_present_def Let_def split: ctap_user_presence_result.splits)

lemma verify_get_assertion_OK:
  assumes "verify_get_assertion env now s params rp protocol = Some (CTAP2_OK, s', flags)"
  shows "same_gestures s s'
    \<and> flags = (if ctap_is_pin_set s \<and> has_param params 6 then auth_data_uv else 0)
    \<and> (ctap_is_pin_set s \<and> has_param params 6 \<longrightarrow>
         (\<exists>i. protocol = Some i \<and> token_verifies env now s params rp i permission_ga))"
  using assms unfolding verify_get_assertion_def require_def
  by (auto simp: ctap_check_state_eq_Some split: if_splits dest!: ensure_valid_verifies)

section \<open>Which credentials may be used\<close>

text \<open>
  The credential belongs to the relying party; with protection level 3 the user is verified; and
  when it is not named by an allow list it is discoverable, and of level 2 only for a verified user.
\<close>

definition eligible :: "bool \<Rightarrow> CTAP_rpId \<Rightarrow> bool \<Rightarrow> ctap_credential_handle \<Rightarrow> bool" where
  "eligible from_allow_list rp uv c \<longleftrightarrow> ctap_credential_matches_rp c rp = Some True
     \<and> (ctap_credential_get_cred_protect c = 3 \<longrightarrow> uv)
     \<and> (\<not> from_allow_list \<longrightarrow> ctap_credential_is_discoverable c
          \<and> (ctap_credential_get_cred_protect c = 2 \<longrightarrow> uv))"

lemma eligible_allow_list:
  "eligible True rp uv c \<longleftrightarrow> ctap_credential_matches_rp c rp = Some True
     \<and> ctap_should_add_credential_to_list c True uv"
  by (auto simp: eligible_def ctap_should_add_credential_to_list_def Let_def)

lemma eligible_discoverable: "eligible False rp uv c \<longleftrightarrow> applicable rp uv c"
  by (auto simp: eligible_def applicable_def ctap_should_add_credential_to_list_def Let_def)

lemma allow_list_loop_step:
  assumes "allow_list_loop (Suc k) env dec s rp uv n ctx acc = Some (Inr cs)"
  shows "cs = acc \<or> (\<exists>ctx1 acc1. allow_list_loop k env dec s rp uv n ctx1 acc1 = Some (Inr cs)
    \<and> (acc1 = acc \<or> (\<exists>c. acc1 = acc @ [c] \<and> eligible True rp uv c)))"
  using assms
  by (auto simp: Let_def eligible_allow_list split: presult.splits option.splits bind_splits if_splits)
    blast+

lemma allow_list_loop_eligible:
  "allow_list_loop k env dec s rp uv n ctx acc = Some (Inr cs) \<Longrightarrow>
   \<forall>c\<in>set acc. eligible True rp uv c \<Longrightarrow> \<forall>c\<in>set cs. eligible True rp uv c"
proof (induction k arbitrary: ctx acc)
  case (Suc k)
  from allow_list_loop_step [OF Suc.prems(1)] show ?case
  proof (elim disjE exE conjE)
    assume "cs = acc"
    then show ?thesis using Suc.prems(2) by simp
  next
    fix ctx1 acc1
    assume "allow_list_loop k env dec s rp uv n ctx1 acc1 = Some (Inr cs)" "acc1 = acc"
    with Suc.prems(2) show ?thesis by (elim Suc.IH) simp
  next
    fix ctx1 acc1 c
    assume "allow_list_loop k env dec s rp uv n ctx1 acc1 = Some (Inr cs)"
      "acc1 = acc @ [c]" "eligible True rp uv c"
    moreover from this Suc.prems(2) have "\<forall>c\<in>set acc1. eligible True rp uv c" by auto
    ultimately show ?thesis by (elim Suc.IH)
  qed
qed simp

lemma find_discoverable_eligible:
  assumes "ctap_find_discoverable_credentials_by_rp_id ops st (Some rp) h uv n = Some (Inr cs)"
  shows "\<forall>c\<in>set cs. eligible False rp uv c"
proof -
  have "credential_loop ops st (select_step rp uv n) [] = Some (Inl cs)"
    using assms unfolding ctap_find_discoverable_credentials_by_rp_id_def require_def
    by (simp add: swapped_sum_Inr select_step_def [abs_def] del: map_option_eq_Some)
  then show ?thesis
    by (rule credential_loop_invariant [where I = "\<lambda>xs. \<forall>c\<in>set xs. eligible False rp uv c"])
      (auto simp: select_step_def eligible_discoverable applicable_def split: if_splits bind_splits)
qed

lemma locate_credentials_eligible:
  assumes "locate_credentials env dec junk s ga rp uv = Some (Inr cs)"
  shows "\<forall>c\<in>set cs. eligible (has_param (ga_common ga) 3) rp uv c"
proof (cases "has_param (ga_common ga) 3")
  case True
  then obtain ctx where "allow_list_loop (list_length ctx + 1) env dec s rp uv 128 ctx [] = Some (Inr cs)"
    using assms unfolding locate_credentials_def process_allow_list_def
    by (auto split: presult.splits simp del: allow_list_loop.simps)
  then have "\<forall>c\<in>set cs. eligible True rp uv c" by (rule allow_list_loop_eligible) simp
  then show ?thesis using True by simp
next
  case False
  then have "ctap_find_discoverable_credentials_by_rp_id (storage_ops env) (storage s) (Some rp) None
      uv 128 = Some (Inr cs)"
    using assms unfolding locate_credentials_def by simp
  from find_discoverable_eligible [OF this] show ?thesis using False by simp
qed

text \<open>A failed search reports a status other than \<open>CTAP2_OK\<close>.\<close>

lemma allow_list_loop_status [simp]: "allow_list_loop k env dec s rp uv n ctx acc \<noteq> Some (Inl 0)"
proof (induction k arbitrary: ctx acc)
  case (Suc k)
  then show ?case
    by (auto simp: Let_def split: presult.splits option.splits bind_splits if_splits)
qed simp

lemma find_discoverable_status [simp]:
  "ctap_find_discoverable_credentials_by_rp_id ops st (Some rp) h uv n \<noteq> Some (Inl 0)"
proof
  assume a: "ctap_find_discoverable_credentials_by_rp_id ops st (Some rp) h uv n = Some (Inl 0)"
  have "credential_loop ops st (select_step rp uv n) [] = Some (Inr 0)"
    using a unfolding ctap_find_discoverable_credentials_by_rp_id_def require_def
    by (simp add: swapped_sum_Inl select_step_def [abs_def] del: map_option_eq_Some)
  then have "case_sum (\<lambda>_. True) (\<lambda>b. b \<noteq> 0) (Inr 0 :: ctap_credential_handle list + u8)"
    by (rule credential_loop_result) (auto simp: select_step_def split: if_splits bind_splits)
  then show False by simp
qed

lemma locate_credentials_status [simp]: "locate_credentials env dec junk s ga rp uv \<noteq> Some (Inl 0)"
  unfolding locate_credentials_def process_allow_list_def
  by (auto simp del: allow_list_loop.simps split: presult.splits)

section \<open>The response\<close>

text \<open>
  The complete encoding of the response for a credential: \<open>others\<close> is the number of credentials, or
  0 where it is left out. The names of the user are only included for a verified user.
\<close>

definition assertion_ops :: "nat \<Rightarrow> ctap_credential_handle \<Rightarrow> bytes \<Rightarrow> bytes \<Rightarrow> CTAP_userEntity \<Rightarrow> bool
    \<Rightarrow> encoder" where
  "assertion_ops num c auth_data signature user uv =
     [Create_Map (if num > 0 then 5 else 4), Encode_Int 1]
     @ cred_desc_ops (ctap_credential_get_id c)
     @ [Encode_Int 2, Encode_Bytes auth_data, Encode_Int 3, Encode_Bytes signature, Encode_Int 4]
     @ user_entity_ops user uv
     @ (if num > 0 then [Encode_Int 5, Encode_Int (int num)] else []) @ [Close_Container]"

definition assertion_flags :: "ctap_get_assertion_state \<Rightarrow> u8" where
  "assertion_flags g = auth_data_flags g OR (if ga_extensions g \<noteq> 0 then auth_data_ed else 0)"

lemma encode_response_OK:
  assumes "encode_get_assertion_response enc_ok g c auth_data signature encoder = Some (CTAP2_OK, e')"
  shows "\<exists>user. ctap_credential_get_user c = Some user \<and> e' = encoder @ assertion_ops
    (if ga_next_credential_idx g = 0 then length (ga_credentials g) else 0) c auth_data signature user
    (auth_data_flags g AND auth_data_uv \<noteq> 0)"
proof -
  let ?n = "if ga_next_credential_idx g = 0 then length (ga_credentials g) else 0"
  let ?start = "then_encode (cbor_encode enc_ok encoder
       [Create_Map (if ?n > 0 then 5 else 4), Encode_Int 1]) (\<lambda>e1.
     then_encode (ctap_encode_pub_key_cred_desc enc_ok e1 (ctap_credential_get_id c)) (\<lambda>e2.
     cbor_encode enc_ok e2 [Encode_Int 2, Encode_Bytes auth_data, Encode_Int 3,
        Encode_Bytes signature, Encode_Int 4]))"
  obtain e1 where b: "?start = (CTAP2_OK, e1)"
    and rest: "(do {
        user \<leftarrow> ctap_credential_get_user c;
        r \<leftarrow> ctap_encode_pub_key_cred_user_entity enc_ok e1 user (auth_data_flags g AND auth_data_uv \<noteq> 0);
        Some (then_encode r (\<lambda>e2. cbor_encode enc_ok e2
          ((if ?n > 0 then [Encode_Int 5, Encode_Int (int ?n)] else []) @ [Close_Container]))) })
      = Some (CTAP2_OK, e')"
    using assms unfolding encode_get_assertion_response_def Let_def
    by (cases ?start) (simp split: if_splits)
  from b have e1: "e1 = encoder @ [Create_Map (if ?n > 0 then 5 else 4), Encode_Int 1]
     @ cred_desc_ops (ctap_credential_get_id c)
     @ [Encode_Int 2, Encode_Bytes auth_data, Encode_Int 3, Encode_Bytes signature, Encode_Int 4]"
    unfolding then_encode_OK_iff cbor_encode_OK_iff by (auto dest!: encode_parts_OK(2))
  from rest obtain user e2 where "ctap_credential_get_user c = Some user"
      "ctap_encode_pub_key_cred_user_entity enc_ok e1 user (auth_data_flags g AND auth_data_uv \<noteq> 0)
        = Some (CTAP2_OK, e2)"
      "e' = e2 @ (if ?n > 0 then [Encode_Int 5, Encode_Int (int ?n)] else []) @ [Close_Container]"
    by (auto simp: then_encode_OK_iff cbor_encode_OK_iff simp del: cbor_encode.simps split: bind_splits)
  moreover from encode_parts_OK(4) [OF this(2)]
  have "e2 = e1 @ user_entity_ops user (auth_data_flags g AND auth_data_uv \<noteq> 0)" .
  ultimately show ?thesis
    using e1 unfolding assertion_ops_def by (intro exI [of _ user]) simp
qed

lemma increment_counter_Some:
  "ctap_increment_global_signature_counter ops c st rng = Some (status, Some n, st1, rng1) \<Longrightarrow>
   status = CTAP2_OK"
  by (auto simp: ctap_increment_global_signature_counter_def Let_def split: prod.splits if_splits
      bind_splits)

text \<open>
  \<open>e\<close> is the response for the credential at the current index of \<open>g\<close>, with the counter as it was
  stored.
\<close>

definition is_assertion_response :: "('h, 's) ctap_interfaces \<Rightarrow> ('h, 's) ctap_state
    \<Rightarrow> ctap_get_assertion_state \<Rightarrow> 's \<Rightarrow> encoder \<Rightarrow> bool" where
  "is_assertion_response env s g st1 e \<longleftrightarrow>
     (\<exists>rng1 count ext sig user. ctap_increment_global_signature_counter (storage_ops env) (crypto_ops env)
          (storage s) (rng_position s) = Some (CTAP2_OK, Some count, st1, rng1)
      \<and> (ga_extensions g = 0 \<longrightarrow> ext = [])
      \<and> ctap_credential_get_user (ga_credentials g ! ga_next_credential_idx g) = Some user
      \<and> e = assertion_ops
          (if ga_next_credential_idx g = 0 then length (ga_credentials g) else 0)
          (ga_credentials g ! ga_next_credential_idx g)
          (authenticator_data (auth_data_rp_id_hash g) (assertion_flags g) count ext) sig user
          (auth_data_flags g AND auth_data_uv \<noteq> 0))"

lemma increment_counter_None [simp]:
  "ctap_increment_global_signature_counter ops c st rng \<noteq> Some (0, None, st1, rng1)"
  by (auto simp: ctap_increment_global_signature_counter_def Let_def split: prod.splits if_splits
      bind_splits)

lemma compute_signature_error [simp]: "compute_signature c rng auth_data cdh cred \<noteq> Some (Inl 0, rng1)"
  by (auto simp: compute_signature_def require_def ctap_credential_compute_signature_def Let_def
      split: if_splits prod.splits option.splits sum.splits bind_splits)

lemma extensions_output_error [simp]:
  "generate_get_assertion_extensions_output c bytes_of ps n rng g \<noteq> Some (Inl 0, rng1)"
  by (auto simp: generate_get_assertion_extensions_output_def require_def Let_def
      generate_get_assertion_hmac_secret_extension_output_def
      simp del: cbor_encode.simps split: if_splits prod.splits option.splits sum.splits bind_splits)

lemma generate_response_OK:
  assumes "generate_get_assertion_response env bytes_of s g encoder = Some (CTAP2_OK, s', e')"
  shows "\<exists>e. e' = encoder @ e \<and> is_assertion_response env s g (storage s') e
    \<and> ga_next_credential_idx g < length (ga_credentials g)"
proof -
  let ?c = "crypto_ops env" and ?cred = "ga_credentials g ! ga_next_credential_idx g"
  obtain status counter st1 rng1 where inc: "ctap_increment_global_signature_counter (storage_ops env)
      ?c (storage s) (rng_position s) = Some (status, counter, st1, rng1)"
    using assms by (auto simp: generate_get_assertion_response_def require_def Let_def
        split: if_splits bind_splits)
  with assms obtain count where count: "status = CTAP2_OK" "counter = Some count"
    by (cases counter) (auto simp: generate_get_assertion_response_def require_def Let_def
        split: if_splits dest: increment_counter_Some)
  have "\<exists>ext sig. ga_next_credential_idx g < length (ga_credentials g) \<and> storage s' = st1
    \<and> (ga_extensions g = 0 \<longrightarrow> ext = [])
    \<and> encode_get_assertion_response (encoder_ok env) g ?cred
        (authenticator_data (auth_data_rp_id_hash g) (auth_data_flags g
          OR (if ga_extensions g \<noteq> 0 then auth_data_ed else 0)) count ext) sig encoder
      = Some (CTAP2_OK, e')"
    using assms unfolding generate_get_assertion_response_def require_def Let_def inc count
    by (auto split: if_split_asm bind_splits sum.split_asm) blast+
  then show ?thesis
    using inc count unfolding is_assertion_response_def assertion_flags_def
    by (elim exE conjE) (drule encode_response_OK, blast)
qed

section \<open>The first assertion\<close>

text \<open>The user's gestures are gone: no permission but \<open>lbw\<close>, neither presence nor verification.\<close>

definition gestures_consumed :: "('h, 's) ctap_state \<Rightarrow> bool" where
  "gestures_consumed s \<longleftrightarrow> (in_use (pin_uv_auth_token_state s) \<longrightarrow>
     \<not> user_present (pin_uv_auth_token_state s) \<and> \<not> user_verified (pin_uv_auth_token_state s)
     \<and> permissions (pin_uv_auth_token_state s) AND NOT permission_lbw = 0)"

lemma gestures_consumed_consume [simp]: "gestures_consumed (consume_user_gestures s)"
  by (auto simp: gestures_consumed_def consume_user_gestures_def
      ctap_pin_uv_auth_token_clear_permissions_except_lbw_def
      ctap_pin_uv_auth_token_clear_user_verified_flag_def
      ctap_pin_uv_auth_token_clear_user_present_flag_def bit_eq_iff bit_simps)

lemma consume_frame [simp]:
  "storage (consume_user_gestures s) = storage s"
  "rng_position (consume_user_gestures s) = rng_position s"
  "pin_protocols (consume_user_gestures s) = pin_protocols s"
  by (simp_all add: consume_user_gestures_def ctap_pin_uv_auth_token_clear_permissions_except_lbw_def
      ctap_pin_uv_auth_token_clear_user_verified_flag_def
      ctap_pin_uv_auth_token_clear_user_present_flag_def)

text \<open>What a response leaves behind: the other credentials, when there are any and no allow list.\<close>

definition remembers :: "bool \<Rightarrow> ctap_get_assertion_state \<Rightarrow> ('h, 's) ctap_state \<Rightarrow> bool" where
  "remembers has_allow_list g s \<longleftrightarrow>
     (if \<not> has_allow_list \<and> length (ga_credentials g) > 1
      then active_cmd (stateful_command_state s) = CTAP_STATEFUL_CMD_GET_ASSERTION
        \<and> cmd_data (stateful_command_state s) = Get_Assertion (g\<lparr>ga_next_credential_idx := 1\<rparr>)
        \<and> last_cmd_time (stateful_command_state s) = current_time s
      else active_cmd (stateful_command_state s) = CTAP_STATEFUL_CMD_NONE)"

lemma remember_credentials_remembers:
  assumes "remember_credentials al s g = Some s'"
      and "active_cmd (stateful_command_state s) = CTAP_STATEFUL_CMD_NONE"
  shows "remembers al g s' \<and> storage s' = storage s
    \<and> pin_uv_auth_token_state s' = pin_uv_auth_token_state s"
  using assms by (auto simp: remember_credentials_def remembers_def set_get_assertion_state_def
      ctap_update_stateful_command_timer_def require_def split: if_splits)

lemma set_get_assertion_frame [simp]:
  "storage (set_get_assertion_state s g) = storage s"
  "rng_position (set_get_assertion_state s g) = rng_position s"
  "pin_uv_auth_token_state (set_get_assertion_state s g) = pin_uv_auth_token_state s"
  by (simp_all add: set_get_assertion_state_def)

lemma is_assertion_response_cong:
  "storage s1 = storage s \<Longrightarrow> rng_position s1 = rng_position s \<Longrightarrow>
   is_assertion_response env s1 g st e = is_assertion_response env s g st e"
  by (simp add: is_assertion_response_def)

lemma is_assertion_response_set [simp]:
  "is_assertion_response env (set_get_assertion_state s g1) g st e = is_assertion_response env s g st e"
  by (rule is_assertion_response_cong) simp_all

lemma user_present_frame [simp]:
  "ctap_pin_uv_auth_token_get_user_present_flag_value (ctap_discard_stateful_command_state s)
     = ctap_pin_uv_auth_token_get_user_present_flag_value s"
  "ctap_pin_uv_auth_token_get_user_present_flag_value (set_get_assertion_state s g)
     = ctap_pin_uv_auth_token_get_user_present_flag_value s"
  by (simp_all add: ctap_pin_uv_auth_token_get_user_present_flag_value_def
      ctap_discard_stateful_command_state_def)

lemma storage_discard [simp]: "storage (ctap_discard_stateful_command_state s) = storage s"
  by (simp add: ctap_discard_stateful_command_state_def)

lemma handle_protocol:
  assumes "handle_pin_uv_auth_param_and_protocol s up has_auth n p v = (CTAP2_OK, Some i)"
  shows "ctap_get_pin_protocol s (unat v) = Some i"
  using assms by (auto simp: handle_pin_uv_auth_param_and_protocol_def
      split: if_splits ctap_user_presence_result.splits option.splits)

lemma respond_get_assertion_OK:
  assumes "respond_get_assertion env bytes_of s g params rp flags encoder = Some (CTAP2_OK, s', e')"
      and "active_cmd (stateful_command_state s) = CTAP_STATEFUL_CMD_NONE"
      and "g2 = g\<lparr>client_data_hash := take 32 (clientDataHash params),
           auth_data_rp_id_hash := rp_id_hash_value rp, auth_data_flags := flags\<rparr>"
  shows "\<exists>e. e' = encoder @ e \<and> is_assertion_response env s g2 (storage s') e
    \<and> remembers (has_param params 3) g2 s'
    \<and> pin_uv_auth_token_state s' = pin_uv_auth_token_state s"
proof -
  let ?s1 = "set_get_assertion_state s g2"
  obtain s3 e1 where r: "generate_get_assertion_response env bytes_of ?s1 g2 encoder
        = Some (CTAP2_OK, s3, e1)" "remember_credentials (has_param params 3) s3 g2 = Some s'" "e' = e1"
    using assms(1) unfolding respond_get_assertion_def require_def Let_def assms(3) [symmetric]
    by (auto simp: ctap_check_state_eq_Some split: if_splits bind_splits)
  obtain st rng where s3: "s3 = ?s1\<lparr>storage := st, rng_position := rng\<rparr>"
    using generate_get_assertion_response_frame [OF r(1)] by blast
  have "active_cmd (stateful_command_state s3) = CTAP_STATEFUL_CMD_NONE"
    using assms(2) s3 by simp
  from remember_credentials_remembers [OF r(2) this] generate_response_OK [OF r(1)] s3 r(3)
  show ?thesis by auto
qed

lemma finish_get_assertion_OK:
  assumes "finish_get_assertion env bytes_of up s g ga rp upo flags encoder = Some (CTAP2_OK, s', e')"
      and "active_cmd (stateful_command_state s) = CTAP_STATEFUL_CMD_NONE"
      and "ga_next_credential_idx g = 0"
  shows "(upo \<longrightarrow> up = CTAP_UP_RESULT_ALLOW
        \<or> has_param (ga_common ga) 6 \<and> ctap_pin_uv_auth_token_get_user_present_flag_value s)
    \<and> (upo \<longrightarrow> gestures_consumed s')
    \<and> (\<exists>e s2 g2. e' = encoder @ e \<and> is_assertion_response env s2 g2 (storage s') e
        \<and> remembers (has_param (ga_common ga) 3) g2 s' \<and> storage s2 = storage s
        \<and> ga_credentials g2 = ga_credentials g \<and> ga_next_credential_idx g2 = 0
        \<and> client_data_hash g2 = take 32 (clientDataHash (ga_common ga))
        \<and> auth_data_rp_id_hash g2 = rp_id_hash_value rp
        \<and> auth_data_flags g2 = (if upo then flags OR auth_data_up else flags))"
proof -
  let ?s1 = "if upo then consume_user_gestures s else s"
  let ?f = "if upo then flags OR auth_data_up else flags"
  let ?r = "if has_param (ga_common ga) 4
      \<and> extensions_present (ga_common ga) AND CTAP_extension_hmac_secret \<noteq> 0
    then prepare_get_assertion_hmac_secret_extension env ?s1 g (hmac_secret ga) ?f
    else Some (CTAP2_OK, ?s1, g)"
  have present: "upo \<longrightarrow> ensure_user_present s up (has_param (ga_common ga) 6) = CTAP2_OK"
    using assms(1) unfolding finish_get_assertion_def Let_def by (auto split: if_splits)
  obtain s2 g1 where q: "?r = Some (CTAP2_OK, s2, g1)"
      "respond_get_assertion env bytes_of s2 g1 (ga_common ga) rp ?f encoder
         = Some (CTAP2_OK, s', e')"
    using assms(1) present unfolding finish_get_assertion_def Let_def
    by (auto simp: ctap_check_state_eq_Some split del: if_split split: if_split_asm)
  have frame: "(\<exists>r. s2 = ?s1\<lparr>rng_position := r\<rparr>) \<and> ga_credentials g1 = ga_credentials g
      \<and> ga_next_credential_idx g1 = ga_next_credential_idx g"
    using q(1) by (cases "has_param (ga_common ga) 4
      \<and> extensions_present (ga_common ga) AND CTAP_extension_hmac_secret \<noteq> 0")
      (auto simp del: ctap_is_present_bit dest!: prepare_hmac_frame)
  then have none: "active_cmd (stateful_command_state s2) = CTAP_STATEFUL_CMD_NONE"
    using assms(2) by auto
  from respond_get_assertion_OK [OF q(2) none refl] obtain e where e: "e' = encoder @ e"
      "is_assertion_response env s2 (g1\<lparr>client_data_hash := take 32 (clientDataHash (ga_common ga)),
           auth_data_rp_id_hash := rp_id_hash_value rp, auth_data_flags := ?f\<rparr>) (storage s') e"
      "remembers (has_param (ga_common ga) 3) (g1\<lparr>client_data_hash := take 32 (clientDataHash (ga_common ga)),
           auth_data_rp_id_hash := rp_id_hash_value rp, auth_data_flags := ?f\<rparr>) s'"
      "pin_uv_auth_token_state s' = pin_uv_auth_token_state s2" by blast
  have "upo \<longrightarrow> gestures_consumed s'"
    using e(4) frame gestures_consumed_consume [of s] by (auto simp: gestures_consumed_def)
  moreover have "storage s2 = storage s" using frame by auto
  ultimately show ?thesis
    using present e(1-3) frame assms(3) unfolding ensure_user_present_OK
    by (intro conjI exI [of _ e] exI [of _ s2] exI [of _ "g1\<lparr>client_data_hash := take 32 (clientDataHash (ga_common ga)),
           auth_data_rp_id_hash := rp_id_hash_value rp, auth_data_flags := ?f\<rparr>"]) simp_all
qed

section \<open>The next assertions\<close>

definition remembered :: "ctap_get_assertion_state \<Rightarrow> ('h, 's) ctap_state \<Rightarrow> bool" where
  "remembered g s \<longleftrightarrow> active_cmd (stateful_command_state s) = CTAP_STATEFUL_CMD_GET_ASSERTION
     \<and> cmd_data (stateful_command_state s) = Get_Assertion g"

lemma get_next_assertion_OK:
  assumes "ctap_get_next_assertion env bytes_of s [] = Some (CTAP2_OK, s', e)" and "remembered g s"
  shows "is_assertion_response env s g (storage s') e \<and> ga_next_credential_idx g < length (ga_credentials g)
    \<and> (if Suc (ga_next_credential_idx g) = length (ga_credentials g)
       then active_cmd (stateful_command_state s') = CTAP_STATEFUL_CMD_NONE
       else remembered (g\<lparr>ga_next_credential_idx := Suc (ga_next_credential_idx g)\<rparr>) s')"
proof -
  obtain s1 where r: "generate_get_assertion_response env bytes_of s g [] = Some (CTAP2_OK, s1, e)"
    and s': "\<exists>s2. ctap_update_stateful_command_timer s1 = Some s2
      \<and> s' = (if Suc (ga_next_credential_idx g) = length (ga_credentials g)
            then ctap_discard_stateful_command_state (set_get_assertion_state s2
                (g\<lparr>ga_next_credential_idx := Suc (ga_next_credential_idx g)\<rparr>))
            else set_get_assertion_state s2 (g\<lparr>ga_next_credential_idx := Suc (ga_next_credential_idx g)\<rparr>))"
    using assms unfolding ctap_get_next_assertion_def remembered_def require_def Let_def
    by (auto simp: ctap_check_state_eq_Some split: if_split_asm bind_splits)
  obtain st rng where s1: "s1 = s\<lparr>storage := st, rng_position := rng\<rparr>"
    using generate_get_assertion_response_frame [OF r] by blast
  have "storage s' = storage s1"
    using s' by (auto simp: ctap_update_stateful_command_timer_def require_def split: if_splits)
  moreover have "if Suc (ga_next_credential_idx g) = length (ga_credentials g)
       then active_cmd (stateful_command_state s') = CTAP_STATEFUL_CMD_NONE
       else remembered (g\<lparr>ga_next_credential_idx := Suc (ga_next_credential_idx g)\<rparr>) s'"
    using s' assms(2) s1 by (auto simp: remembered_def set_get_assertion_state_def
        ctap_update_stateful_command_timer_def require_def split: if_splits)
  ultimately show ?thesis using generate_response_OK [OF r] by simp
qed

abbreviation (input) cmd_get_next_assertion :: u8 where "cmd_get_next_assertion \<equiv> 0x08"

text \<open>What a request meets after the timers were checked.\<close>

definition after_timers :: "'s request_environment \<Rightarrow> ('h, 's) ctap_state \<Rightarrow> ('h, 's) ctap_state" where
  "after_timers inp s = snd (ctap_discard_stateful_command_state_if_expired
     (snd (ctap_pin_uv_auth_token_check_usage_timer (s\<lparr>current_time := clock_at_start inp\<rparr>))))"

lemma ctap_request_eq:
  "ctap_request env dec parser_init bytes_of inp s cmd params
     = ctap_invoke_handler env dec parser_init bytes_of inp (after_timers inp s) cmd params"
  by (simp add: ctap_request_def after_timers_def Let_def)

lemma stop_using_frame [simp]: "storage (ctap_pin_uv_auth_token_stop_using s) = storage s"
  "rng_position (ctap_pin_uv_auth_token_stop_using s) = rng_position s"
  "pin_state (ctap_pin_uv_auth_token_stop_using s) = pin_state s"
  by (simp_all add: ctap_pin_uv_auth_token_stop_using_def ctap_discard_stateful_command_state_def Let_def)

lemma after_timers_frame:
  "storage (after_timers inp s) = storage s \<and> rng_position (after_timers inp s) = rng_position s
   \<and> pin_state (after_timers inp s) = pin_state s \<and> keeps_stateful s (after_timers inp s)"
proof -
  let ?s1 = "s\<lparr>current_time := clock_at_start inp\<rparr>"
  let ?s2 = "snd (ctap_pin_uv_auth_token_check_usage_timer ?s1)"
  have clear: "storage (ctap_pin_uv_auth_token_clear_user_present_flag ?s1) = storage s
      \<and> rng_position (ctap_pin_uv_auth_token_clear_user_present_flag ?s1) = rng_position s
      \<and> pin_state (ctap_pin_uv_auth_token_clear_user_present_flag ?s1) = pin_state s
      \<and> keeps_stateful ?s1 (ctap_pin_uv_auth_token_clear_user_present_flag ?s1)"
    by (simp add: ctap_pin_uv_auth_token_clear_user_present_flag_def keeps_eq)
  have 2: "storage ?s2 = storage s \<and> rng_position ?s2 = rng_position s
      \<and> pin_state ?s2 = pin_state s \<and> keeps_stateful ?s1 ?s2"
    using clear unfolding ctap_pin_uv_auth_token_check_usage_timer_def Let_def
    by (auto simp del: ctap_state.simps)
  have "keeps_stateful s ?s1" by (rule keeps_eq) simp
  moreover have "keeps_stateful ?s2 (after_timers inp s)"
    by (simp add: after_timers_def ctap_discard_stateful_command_state_if_expired_def)
  moreover have "storage (after_timers inp s) = storage ?s2 \<and> rng_position (after_timers inp s) = rng_position ?s2
      \<and> pin_state (after_timers inp s) = pin_state ?s2"
    by (simp add: after_timers_def ctap_discard_stateful_command_state_if_expired_def
        ctap_discard_stateful_command_state_def)
  ultimately show ?thesis using 2 keeps_trans by metis
qed

lemma remembered_after_timers:
  assumes "remembered g s"
  shows "remembered g (after_timers inp s)
    \<or> active_cmd (stateful_command_state (after_timers inp s)) = CTAP_STATEFUL_CMD_NONE"
  using assms after_timers_frame [of inp s] by (auto simp: remembered_def keeps_stateful_def)

text \<open>
  Requests for the next assertion that are answered, one after the other, with their responses.
  Each has its own clock and whatever parameters.
\<close>

inductive next_assertions :: "('h, 's) ctap_interfaces \<Rightarrow> 'v tinycbor \<Rightarrow> (bytes \<Rightarrow> 'v option)
    \<Rightarrow> (encoder \<Rightarrow> bytes) \<Rightarrow> ('h, 's) ctap_state \<Rightarrow> encoder list \<Rightarrow> ('h, 's) ctap_state \<Rightarrow> bool"
  for env dec parser_init bytes_of where
  none: "next_assertions env dec parser_init bytes_of s [] s"
| more: "ctap_request env dec parser_init bytes_of inp s cmd_get_next_assertion params
      = Some (CTAP2_OK, s1, e) \<Longrightarrow>
    next_assertions env dec parser_init bytes_of s1 es s' \<Longrightarrow>
    next_assertions env dec parser_init bytes_of s (e # es) s'"

inductive_cases next_assertions_ConsE: "next_assertions env dec parser_init bytes_of s (e # es) s'"
inductive_simps next_assertions_Nil [simp]: "next_assertions env dec parser_init bytes_of s [] s'"

lemma get_next_handler: "ctap_get_command_handler cmd_get_next_assertion = Some Handler_get_next_assertion"
  by (simp add: ctap_get_command_handler_def ctap_command_handlers_def)

lemma request_next_assertion:
  "ctap_request env dec parser_init bytes_of inp s cmd_get_next_assertion params
     = (if params \<noteq> [] \<and> parser_init params = None
        then Some (CTAP2_ERR_INVALID_CBOR, after_timers inp s, [])
        else map_option (\<lambda>(status, s1, e). (status, s1, if status = CTAP2_OK then e else []))
               (ctap_get_next_assertion env bytes_of (after_timers inp s) []))"
  by (auto simp: ctap_request_eq ctap_invoke_handler_def get_next_handler map_option_bind
      map_option_case split: option.splits prod.splits)

lemma next_assertion_refused:
  assumes "active_cmd (stateful_command_state s) = CTAP_STATEFUL_CMD_NONE"
      and "params = [] \<or> parser_init params \<noteq> None"
  shows "ctap_request env dec parser_init bytes_of inp s cmd_get_next_assertion params
      = Some (CTAP2_ERR_NOT_ALLOWED, after_timers inp s, [])"
proof -
  have "active_cmd (stateful_command_state (after_timers inp s)) = CTAP_STATEFUL_CMD_NONE"
    using after_timers_frame [of inp s] assms(1) by (auto simp: keeps_stateful_def)
  then show ?thesis
    using assms(2) by (auto simp: request_next_assertion ctap_get_next_assertion_def)
qed

lemma request_next_assertion_OK:
  assumes "ctap_request env dec parser_init bytes_of inp s cmd_get_next_assertion params
      = Some (CTAP2_OK, s', e)" and "remembered g s"
  shows "is_assertion_response env s g (storage s') e \<and> ga_next_credential_idx g < length (ga_credentials g)
    \<and> (if Suc (ga_next_credential_idx g) = length (ga_credentials g)
       then active_cmd (stateful_command_state s') = CTAP_STATEFUL_CMD_NONE
       else remembered (g\<lparr>ga_next_credential_idx := Suc (ga_next_credential_idx g)\<rparr>) s')"
proof -
  have n: "ctap_get_next_assertion env bytes_of (after_timers inp s) [] = Some (CTAP2_OK, s', e)"
    using assms(1) by (auto simp: request_next_assertion split: if_splits)
  then have "active_cmd (stateful_command_state (after_timers inp s)) \<noteq> CTAP_STATEFUL_CMD_NONE"
    by (auto simp: ctap_get_next_assertion_def)
  then have "remembered g (after_timers inp s)"
    using remembered_after_timers [OF assms(2)] by blast
  from get_next_assertion_OK [OF n this] show ?thesis
    using after_timers_frame [of inp s] is_assertion_response_cong [of "after_timers inp s" s] by simp
qed

lemma next_assertions_run:
  assumes "next_assertions env dec parser_init bytes_of s es s'" and "remembered g s"
      and "ga_next_credential_idx g < length (ga_credentials g)"
  shows "length es \<le> length (ga_credentials g) - ga_next_credential_idx g
    \<and> (\<forall>j<length es. \<exists>s1 st. is_assertion_response env s1
          (g\<lparr>ga_next_credential_idx := ga_next_credential_idx g + j\<rparr>) st (es ! j))
    \<and> (if length es = length (ga_credentials g) - ga_next_credential_idx g
       then active_cmd (stateful_command_state s') = CTAP_STATEFUL_CMD_NONE
       else remembered (g\<lparr>ga_next_credential_idx := ga_next_credential_idx g + length es\<rparr>) s')"
  using assms
proof (induction es arbitrary: s g)
  case Nil
  then show ?case by simp
next
  case (Cons e es)
  let ?g = "g\<lparr>ga_next_credential_idx := Suc (ga_next_credential_idx g)\<rparr>"
  from Cons.prems(1) obtain inp params s1 where
    r: "ctap_request env dec parser_init bytes_of inp s cmd_get_next_assertion params = Some (CTAP2_OK, s1, e)"
    and rest: "next_assertions env dec parser_init bytes_of s1 es s'"
    by (rule next_assertions_ConsE)
  note step = request_next_assertion_OK [OF r Cons.prems(2)]
  show ?case
  proof (cases "Suc (ga_next_credential_idx g) = length (ga_credentials g)")
    case True
    then have none: "active_cmd (stateful_command_state s1) = CTAP_STATEFUL_CMD_NONE"
      using step by simp
    have "es = []"
    proof (cases es)
      case (Cons e1 es1)
      with rest obtain inp1 params1 s2 where "ctap_request env dec parser_init bytes_of inp1 s1
          cmd_get_next_assertion params1 = Some (CTAP2_OK, s2, e1)"
        by (auto elim: next_assertions_ConsE)
      then show ?thesis
        using next_assertion_refused [OF none, of params1 parser_init env dec bytes_of inp1]
        by (auto simp: request_next_assertion split: if_splits)
    qed
    then show ?thesis using True step rest none by auto
  next
    case False
    then have "remembered ?g s1" using step by simp
    moreover have "ga_next_credential_idx ?g < length (ga_credentials ?g)"
      using False Cons.prems(3) by simp
    ultimately have IH: "length es \<le> length (ga_credentials g) - Suc (ga_next_credential_idx g)"
      "\<forall>j<length es. \<exists>s1 st. is_assertion_response env s1
          (g\<lparr>ga_next_credential_idx := Suc (ga_next_credential_idx g + j)\<rparr>) st (es ! j)"
      "if length es = length (ga_credentials g) - Suc (ga_next_credential_idx g)
       then active_cmd (stateful_command_state s') = CTAP_STATEFUL_CMD_NONE
       else remembered (g\<lparr>ga_next_credential_idx := Suc (ga_next_credential_idx g + length es)\<rparr>) s'"
      using Cons.IH [OF rest, of ?g] by (simp_all split: if_split_asm)
    have "\<exists>s1 st. is_assertion_response env s1
          (g\<lparr>ga_next_credential_idx := ga_next_credential_idx g + j\<rparr>) st ((e # es) ! j)"
      if "j < Suc (length es)" for j
      using that step IH(2) by (cases j) auto
    then show ?thesis using IH(1,3) Cons.prems(3) by (auto split: if_splits)
  qed
qed

end
