(* ===== verification/Assertion_Properties.thy ===== *)
theory Assertion_Properties
  imports Assertions Cbor_Reference
begin

text \<open>
  The properties of authenticatorGetAssertion and authenticatorGetNextAssertion, and a session of
  an authenticator with two credentials for one relying party as their example.
\<close>

section \<open>An example session\<close>

definition session_source :: ctap_credential_source where
  "session_source = \<lparr>src_flags = 5, src_id = replicate 32 1, src_rp_id_hash = sha256_spec (ctap_str ''rp''),
     src_private_key = replicate 32 2, cred_random_with_uv = replicate 32 3,
     cred_random_without_uv = replicate 32 4, user_id_offset = 2, user_name_offset = 3,
     user_display_name_offset = 3, variable_data_end_offset = 3,
     variable_data = ctap_str ''rp'' @ [9]\<rparr>"

definition session_credential :: "u32 \<Rightarrow> ctap_credential_handle" where
  "session_credential h = \<lparr>source = credential_source_bytes session_source, cred_item_handle = h\<rparr>"

text \<open>A storage with the two credentials and a counter.\<close>

definition session_storage :: "nat ctap_storage" where
  "session_storage = \<lparr>
     find_item = (\<lambda>st it. Some (if item_key it = CTAP_STORAGE_KEY_CREDENTIAL \<and> item_handle it < 2
        then (CTAP_STORAGE_OK, it\<lparr>item_handle := item_handle it + 1,
          item_size := 175, item_data := credential_source_bytes session_source\<rparr>)
        else (CTAP_STORAGE_ITEM_NOT_FOUND, it))),
     create_or_update_item = (\<lambda>st it. Some (CTAP_STORAGE_ERROR, it, st)),
     delete_item = (\<lambda>st h. Some (CTAP_STORAGE_ERROR, st)),
     increment_counter = (\<lambda>st k. Some (CTAP_STORAGE_OK, of_nat st + k, st + unat k)),
     estimate_num_remaining_items = (\<lambda>st n. 0),
     erase_storage = (\<lambda>st. Some (CTAP_STORAGE_OK, 0))\<rparr>"

definition session_env :: "(sha256_ctx, nat) ctap_interfaces" where
  "session_env = \<lparr>crypto_ops = software_crypto example_libraries, storage_ops = session_storage,
     encoder_ok = (\<lambda>_. True)\<rparr>"

definition session_state :: "(sha256_ctx, nat) ctap_state" where
  "session_state = CTAP_STATE_CONST_INIT 0"

definition session_request :: ref_it where
  "session_request = ([[I_Map [(I_Int 1, I_Text (ctap_str ''rp'')), (I_Int 2, I_Bytes (replicate 32 7))]]], 0)"

definition session_stack :: stack_memory where
  "session_stack = \<lparr>cred_params_junk = \<lambda>_. \<lparr>credParams_type = 0, credParams_alg = 0\<rparr>,
     cred_desc_junk = \<lparr>credDesc_type = 0, credDesc_id = []\<rparr>, source_buffer_junk = []\<rparr>"

lemma session_parsed:
  "\<exists>ga it1. ctap_parse_get_assertion ref_decoder (Some session_request) = Ok (ga, it1)
     \<and> ga_common ga = \<lparr>params_present = params_present (ga_common ga), clientDataHash = replicate 32 7,
          rpId = ctap_str ''rp'', extensions_present = 0,
          options = \<lparr>options_present = 0, options_values = 0\<rparr>, pinUvAuthParam = [],
          pinUvAuthProtocol = 0\<rparr>
     \<and> \<not> bit (params_present (ga_common ga)) 3 \<and> \<not> bit (params_present (ga_common ga)) 4
     \<and> \<not> bit (params_present (ga_common ga)) 5 \<and> \<not> bit (params_present (ga_common ga)) 6"
  by (simp add: session_request_def ctap_parse_get_assertion_def ref_simps
      ctap_parse_get_assertion_entry_def Let_def ga_set_present_def ctap_is_present_or
      zero_CTAP_getAssertion_def zero_CTAP_mc_ga_common_def ctap_set_present_def
      ctap_param_to_mask_def bit_simps) (simp add: ctap_is_present_def)

lemma session_source_ok [simp]:
  "cred_source (session_credential h) = session_source"
proof -
  have "source_arrays session_source" by (simp add: source_arrays_def session_source_def)
  then show ?thesis by (simp add: cred_source_def session_credential_def)
qed

lemma session_eligible:
  "ctap_credential_matches_rp (session_credential h) \<lparr>rp_id_id = ctap_str ''rp'',
     rp_id_hash_value = sha256_spec (ctap_str ''rp'')\<rparr> = Some True"
  "ctap_credential_is_discoverable (session_credential h)"
  "ctap_credential_get_cred_protect (session_credential h) = 1"
  by (simp_all add: ctap_credential_matches_rp_def ctap_credential_get_rp_id_def source_string_def
      require_def ctap_credential_matches_rp_id_hash_def ctap_string_matches_def
      ctap_credential_is_discoverable_def ctap_credential_get_cred_protect_def Let_def
      session_source_def ctap_str_def)

lemma session_step:
  "storage_loop (find_item session_storage) st body
     \<lparr>item_handle = h, item_key = CTAP_STORAGE_KEY_CREDENTIAL, item_size = z, item_data = d\<rparr> acc
   = (if h < 2 then
        let it = \<lparr>item_handle = h + 1, item_key = CTAP_STORAGE_KEY_CREDENTIAL, item_size = 175,
              item_data = credential_source_bytes session_source\<rparr> in
        Option.bind (body acc it) (\<lambda>r. case r of
          Inl acc1 \<Rightarrow> storage_loop (find_item session_storage) st body it acc1 | Inr b \<Rightarrow> Some (Inr b))
      else Some (Inl acc))"
  by (subst storage_loop.simps) (simp add: session_storage_def Let_def)

lemma session_found:
  "ctap_find_discoverable_credentials_by_rp_id session_storage st
     (Some \<lparr>rp_id_id = ctap_str ''rp'', rp_id_hash_value = sha256_spec (ctap_str ''rp'')\<rparr>) None False 128
   = Some (Inr [session_credential 1, session_credential 2])"
  by (simp add: ctap_find_discoverable_credentials_by_rp_id_def credential_loop_def empty_item_def
      session_step session_credential_def [symmetric] session_eligible require_def
      ctap_should_add_credential_to_list_def)

lemma example_signature:
  assumes "length cdh = 32" and "length (src_private_key (cred_source c)) = 32"
  shows "\<exists>sig rng1. compute_signature (software_crypto example_libraries) rng auth_data cdh c
    = Some (Inr sig, rng1)"
proof -
  let ?d = "auth_data @ take 32 cdh" and ?k = "src_private_key (cred_source c)"
  have "absorbed (sha256_update (sha256_update (sha256_init fresh_sha256_ctx) auth_data) (take 32 cdh))
      ([] @ auth_data @ take 32 cdh)"
    unfolding append_assoc [symmetric]
    by (intro absorbed_update absorbed_init) (simp add: fresh_sha256_ctx_def)
  then have h: "fst (hash_final hash_alg_sha256 (hash_update hash_alg_sha256 (hash_update hash_alg_sha256
      (hash_init hash_alg_sha256 fresh_sha256_ctx) auth_data) (take 32 cdh))) = sha256_spec ?d"
    by (simp add: hash_alg_sha256_def sha256_final_spec)
  have "length (?k @ sha256_spec ?d) = 64" using assms(2) by simp
  from der_signature_correct [OF this] obtain out n where
    "ctap_convert_to_asn1_der_ecdsa_sig_value (?k @ sha256_spec ?d) = Some (out, n)" by blast
  then show ?thesis
    using assms h by (simp add: compute_signature_def require_def ctap_credential_compute_signature_def
        CTAP_SOFTWARE_CRYPTO_CONST_INIT_def ctap_software_crypto_ecc_secp256r1_sign_def
        example_libraries_def Let_def)
qed

lemma session_signature:
  "length cdh = 32 \<Longrightarrow> \<exists>sig rng1. compute_signature (software_crypto example_libraries) rng auth_data cdh
    (session_credential h) = Some (Inr sig, rng1)"
  by (rule example_signature) (simp_all add: session_source_def)

lemma cbor_encode_unlimited [simp]: "cbor_encode (\<lambda>_. True) e ops = (CTAP2_OK, e @ ops)"
  by (simp add: cbor_encode_OK_iff)

lemma session_user:
  "\<exists>user. ctap_credential_get_user (session_credential h) = Some user \<and> bit (user_fields user) 1"
  by (simp add: ctap_credential_get_user_def ctap_credential_get_user_id_def source_string_def
      require_def session_source_def Let_def ctap_str_def zero_CTAP_userEntity_def
      ctap_param_to_mask_def bit_simps)

lemma session_response:
  assumes "ga_credentials g = [session_credential 1, session_credential 2]"
      and "ga_next_credential_idx g < 2" and "ga_extensions g = 0" and "length (client_data_hash g) = 32"
  shows "\<exists>s' e. generate_get_assertion_response session_env bytes_of s g [] = Some (CTAP2_OK, s', e)"
proof -
  let ?c = "ga_credentials g ! ga_next_credential_idx g"
  obtain h where c: "?c = session_credential h"
    using assms(1,2) by (cases "ga_next_credential_idx g") auto
  obtain b r where b: "rng_generate_data (software_crypto example_libraries) (rng_position s) 4 = (True, b, r)"
    using software_rng_ok [of example_libraries "rng_position s" 4]
    by (auto simp: CTAP_SOFTWARE_CRYPTO_CONST_INIT_def)
  obtain user where user: "ctap_credential_get_user (session_credential h) = Some user"
      "bit (user_fields user) 1" using session_user by blast
  let ?count = "of_nat (storage s) + ((le32_read b AND 3) + 1)"
  obtain sig rng1 where sig: "compute_signature (software_crypto example_libraries) r
      (authenticator_data (auth_data_rp_id_hash g) (auth_data_flags g) ?count []) (client_data_hash g)
      (session_credential h) = Some (Inr sig, rng1)"
    using session_signature [OF assms(4)] by blast
  show ?thesis
    using b c sig user assms
    by (simp add: generate_get_assertion_response_def require_def session_env_def
        ctap_increment_global_signature_counter_def session_storage_def Let_def
        encode_get_assertion_response_def then_encode_def ctap_encode_pub_key_cred_desc_def
        ctap_encode_ctap_string_as_byte_string_def ctap_encode_pub_key_cred_user_entity_def
        ctap_encode_ctap_string_as_text_string_def del: cbor_encode.simps)
qed

lemma session_first:
  "\<exists>s' e g. ctap_get_assertion session_env ref_decoder (\<lambda>_. []) session_stack CTAP_UP_RESULT_ALLOW 0
     session_state (Some session_request) [] = Some (CTAP2_OK, s', e)
   \<and> remembered (g\<lparr>ga_next_credential_idx := 1\<rparr>) s'
   \<and> ga_credentials g = [session_credential 1, session_credential 2]
   \<and> ga_extensions g = 0 \<and> length (client_data_hash g) = 32
   \<and> last_cmd_time (stateful_command_state s') = 0 \<and> \<not> in_use (pin_uv_auth_token_state s')"
proof -
  obtain ga it1 where ga: "ctap_parse_get_assertion ref_decoder (Some session_request) = Ok (ga, it1)"
    "ga_common ga = \<lparr>params_present = params_present (ga_common ga), clientDataHash = replicate 32 7,
          rpId = ctap_str ''rp'', extensions_present = 0,
          options = \<lparr>options_present = 0, options_values = 0\<rparr>, pinUvAuthParam = [],
          pinUvAuthProtocol = 0\<rparr>"
    "\<not> bit (params_present (ga_common ga)) 3" "\<not> bit (params_present (ga_common ga)) 4"
    "\<not> bit (params_present (ga_common ga)) 5" "\<not> bit (params_present (ga_common ga)) 6"
    using session_parsed by blast
  have p: "clientDataHash (ga_common ga) = replicate 32 7" "rpId (ga_common ga) = ctap_str ''rp''"
    "options (ga_common ga) = \<lparr>options_present = 0, options_values = 0\<rparr>"
    by (simp_all add: ga(2) [THEN arg_cong [where f = clientDataHash]]
        ga(2) [THEN arg_cong [where f = rpId]] ga(2) [THEN arg_cong [where f = options]])
  let ?rp = "\<lparr>rp_id_id = ctap_str ''rp'', rp_id_hash_value = sha256_spec (ctap_str ''rp'')\<rparr>"
  let ?start = "zero_get_assertion_state\<lparr>ga_credentials := [session_credential 1, session_credential 2]\<rparr>"
  let ?sa = "set_get_assertion_state (set_get_assertion_state session_state zero_get_assertion_state) ?start"
  let ?g = "?start\<lparr>client_data_hash := replicate 32 7, auth_data_rp_id_hash := sha256_spec (ctap_str ''rp''),
     auth_data_flags := auth_data_up\<rparr>"
  have state: "cmd_data (stateful_command_state session_state) = Zeroed"
      "active_cmd (stateful_command_state session_state) = CTAP_STATEFUL_CMD_NONE"
      "\<not> ctap_is_pin_set session_state" "storage session_state = 0"
      "ctap_discard_stateful_command_state session_state = session_state"
      "consume_user_gestures ?sa = ?sa" "\<not> in_use (pin_uv_auth_token_state ?sa)"
      "current_time session_state = 0"
    by (simp_all add: session_state_def CTAP_STATE_CONST_INIT_def zero_ctap_state_def
        zero_stateful_state_def ctap_is_pin_set_def ctap_discard_stateful_command_state_def
        ctap_has_stateful_command_state_def consume_user_gestures_def zero_token_state_def
        ctap_pin_uv_auth_token_clear_permissions_except_lbw_def set_get_assertion_state_def
        ctap_pin_uv_auth_token_clear_user_verified_flag_def
        ctap_pin_uv_auth_token_clear_user_present_flag_def)
  have "\<exists>s1 e. generate_get_assertion_response session_env (\<lambda>_. [])
      (set_get_assertion_state ?sa ?g) ?g [] = Some (CTAP2_OK, s1, e)"
    by (rule session_response) (simp_all add: zero_get_assertion_state_def)
  then obtain s1 e where r: "generate_get_assertion_response session_env (\<lambda>_. [])
      (set_get_assertion_state ?sa ?g) ?g [] = Some (CTAP2_OK, s1, e)" by blast
  obtain st rng where s1: "s1 = (set_get_assertion_state ?sa ?g)\<lparr>storage := st, rng_position := rng\<rparr>"
    using generate_get_assertion_response_frame [OF r] by blast
  let ?sc = "s1\<lparr>stateful_command_state := \<lparr>active_cmd = CTAP_STATEFUL_CMD_GET_ASSERTION,
    last_cmd_time = 0, cmd_data = Get_Assertion (?g\<lparr>ga_next_credential_idx := 1\<rparr>)\<rparr>\<rparr>"
  have rem: "remember_credentials False s1 ?g = Some ?sc"
    using state by (simp add: remember_credentials_def ctap_update_stateful_command_timer_def
        require_def ctap_has_stateful_command_state_def s1 set_get_assertion_state_def)
  have resp: "respond_get_assertion session_env (\<lambda>_. []) ?sa ?start (ga_common ga) ?rp auth_data_up []
      = Some (CTAP2_OK, ?sc, e)"
    using r rem ga(3) p by (simp add: respond_get_assertion_def require_def Let_def)
  have fin: "finish_get_assertion session_env (\<lambda>_. []) CTAP_UP_RESULT_ALLOW ?sa ?start ga ?rp True 0 []
      = Some (CTAP2_OK, ?sc, e)"
    using resp ga(4) state(6) by (simp add: finish_get_assertion_def ensure_user_present_def Let_def)
  have "ctap_get_assertion session_env ref_decoder (\<lambda>_. []) session_stack CTAP_UP_RESULT_ALLOW 0
     session_state (Some session_request) [] = Some (CTAP2_OK, ?sc, e)"
    using fin ga p state session_found [of 0]
    by (simp add: ctap_get_assertion_def Let_def handle_pin_uv_auth_param_and_protocol_def
        get_assertion_option_status_def verify_get_assertion_def get_assertion_verified_def
        locate_credentials_def begin_get_assertion_state_def session_env_def
        get_option_value_or_true_def is_option_present_def ctap_compute_rp_id_hash_def
        zero_get_assertion_state_def)
  then show ?thesis
    using state(7) by (intro exI [of _ ?sc] exI [of _ e] exI [of _ ?g])
      (simp add: remembered_def zero_get_assertion_state_def s1 set_get_assertion_state_def)
qed

lemma session_next:
  assumes "remembered (g\<lparr>ga_next_credential_idx := 1\<rparr>) s"
      and "ga_credentials g = [session_credential 1, session_credential 2]"
      and "ga_extensions g = 0" and "length (client_data_hash g) = 32"
      and "last_cmd_time (stateful_command_state s) = 0" and "\<not> in_use (pin_uv_auth_token_state s)"
      and "clock_at_start inp = 0"
  shows "\<exists>s' e. ctap_request session_env ref_decoder (\<lambda>_. None) (\<lambda>_. []) inp s
    cmd_get_next_assertion [] = Some (CTAP2_OK, s', e)"
proof -
  let ?g = "g\<lparr>ga_next_credential_idx := 1\<rparr>" and ?s = "s\<lparr>current_time := 0\<rparr>"
  have t: "after_timers inp s = ?s"
    using assms(5-7) by (simp add: after_timers_def ctap_pin_uv_auth_token_check_usage_timer_def
        ctap_discard_stateful_command_state_if_expired_def)
  have "\<exists>s1 e. generate_get_assertion_response session_env (\<lambda>_. []) ?s ?g [] = Some (CTAP2_OK, s1, e)"
    by (rule session_response) (use assms(2-4) in simp_all)
  then obtain s1 e where r: "generate_get_assertion_response session_env (\<lambda>_. []) ?s ?g []
      = Some (CTAP2_OK, s1, e)" by blast
  obtain st rng where "s1 = ?s\<lparr>storage := st, rng_position := rng\<rparr>"
    using generate_get_assertion_response_frame [OF r] by blast
  with assms(1) have "ctap_has_stateful_command_state s1"
    by (simp add: ctap_has_stateful_command_state_def remembered_def)
  then show ?thesis
    using assms(1,2) r by (simp add: request_next_assertion t ctap_get_next_assertion_def remembered_def
        require_def ctap_update_stateful_command_timer_def)
qed

section \<open>Properties\<close>

text \<open>
  C29: A successful authenticatorGetAssertion was authorised. With a PIN and a \<open>pinUvAuthParam\<close>, the
  token in use signed the request, has the permission to get assertions, belongs to the relying
  party and stands for a verified user; unless the request asks for no user presence, the user
  pressed the button or the token carries the presence. Every credential found belongs to the
  relying party and its protection policy allows its use. The response is the complete encoding for
  the first of them, signed over the given hash, with the presence and verification flags exactly
  as they were established, and the names of the user only after verification; the remaining ones
  are remembered exactly when there is no allow list. The user's gestures are consumed.
\<close>

theorem get_assertion_authorised:
  assumes "ctap_get_assertion env dec bytes_of junk up now s it [] = Some (CTAP2_OK, s', response)"
  shows "\<exists>ga it1 g s1. ctap_parse_get_assertion dec it = Ok (ga, it1)
    \<and> (let params = ga_common ga; rp = request_rp env params;
           uv = (ctap_is_pin_set s \<and> has_param params 6);
           presence_wanted = get_option_value_or_true (options params) CTAP_ma_ga_option_up in
        (uv \<longrightarrow> (\<exists>i. ctap_get_pin_protocol s (unat (pinUvAuthProtocol params)) = Some i
                  \<and> token_verifies env now s params rp i permission_ga))
      \<and> (presence_wanted \<longrightarrow> up = CTAP_UP_RESULT_ALLOW
           \<or> has_param params 6 \<and> ctap_pin_uv_auth_token_get_user_present_flag_value s)
      \<and> ga_credentials g \<noteq> [] \<and> (\<forall>c\<in>set (ga_credentials g). eligible (has_param params 3) rp uv c)
      \<and> ga_next_credential_idx g = 0 \<and> client_data_hash g = take 32 (clientDataHash params)
      \<and> auth_data_rp_id_hash g = rp_id_hash_value rp
      \<and> auth_data_flags g = (if uv then auth_data_uv else 0) OR (if presence_wanted then auth_data_up else 0)
      \<and> storage s1 = storage s \<and> is_assertion_response env s1 g (storage s') response
      \<and> remembers (has_param params 3) g s'
      \<and> (presence_wanted \<longrightarrow> gestures_consumed s'))"
proof -
  obtain ga it1 where parsed: "ctap_parse_get_assertion dec it = Ok (ga, it1)"
    using assms by (auto simp: ctap_get_assertion_def split: presult.splits)
  let ?params = "ga_common ga"
  let ?rp = "request_rp env ?params"
  let ?h = "handle_pin_uv_auth_param_and_protocol s up (has_param ?params 6)
    (length (pinUvAuthParam ?params)) (has_param ?params 7) (pinUvAuthProtocol ?params)"
  let ?upo = "get_option_value_or_true (options ?params) CTAP_ma_ga_option_up"
  obtain protocol s2 flags where h: "?h = (CTAP2_OK, protocol)"
    and v: "verify_get_assertion env now s ?params ?rp protocol = Some (CTAP2_OK, s2, flags)"
    and l: "get_assertion_verified env dec bytes_of junk up s2 ga ?rp ?upo flags []
        = Some (CTAP2_OK, s', response)"
    using assms parsed unfolding ctap_get_assertion_def Let_def request_rp_def [symmetric]
    by (cases ?h) (auto simp: ctap_check_state_eq_Some split: if_split_asm)
  let ?uv = "ctap_is_pin_set s \<and> has_param ?params 6"
  from verify_get_assertion_OK [OF v] have v': "same_gestures s s2"
    "flags = (if ?uv then auth_data_uv else 0)"
    "?uv \<longrightarrow> (\<exists>i. protocol = Some i \<and> token_verifies env now s ?params ?rp i permission_ga)"
    by blast+
  have uv: "(flags AND auth_data_uv \<noteq> 0) = ?uv" using v'(2) by simp
  let ?s3 = "ctap_discard_stateful_command_state s2"
  let ?g = "begin_get_assertion_state (cmd_data (stateful_command_state ?s3))"
  obtain cs where cs: "locate_credentials env dec junk (set_get_assertion_state ?s3 ?g) ga ?rp ?uv
        = Some (Inr cs)" "cs \<noteq> []"
    and f: "finish_get_assertion env bytes_of up (set_get_assertion_state (set_get_assertion_state ?s3 ?g)
          (?g\<lparr>ga_credentials := cs\<rparr>)) (?g\<lparr>ga_credentials := cs\<rparr>) ga ?rp ?upo flags []
        = Some (CTAP2_OK, s', response)"
    using l unfolding get_assertion_verified_def Let_def uv
    by (auto split: bind_splits sum.split_asm if_split_asm)
  have idx: "ga_next_credential_idx ?g = 0"
    by (simp add: begin_get_assertion_state_def Let_def)
  have frame: "storage ?s3 = storage s" "ctap_pin_uv_auth_token_get_user_present_flag_value ?s3
      = ctap_pin_uv_auth_token_get_user_present_flag_value s"
    using same_gestures_token [OF v'(1)] by simp_all
  have "\<forall>i. protocol = Some i \<longrightarrow> ctap_get_pin_protocol s (unat (pinUvAuthProtocol ?params)) = Some i"
    using h handle_protocol by blast
  with v'(3) have tok: "?uv \<longrightarrow> (\<exists>i. ctap_get_pin_protocol s (unat (pinUvAuthProtocol ?params)) = Some i
      \<and> token_verifies env now s ?params ?rp i permission_ga)" by blast
  have none: "active_cmd (stateful_command_state (set_get_assertion_state (set_get_assertion_state ?s3 ?g)
      (?g\<lparr>ga_credentials := cs\<rparr>))) = CTAP_STATEFUL_CMD_NONE" by simp
  have idx': "ga_next_credential_idx (?g\<lparr>ga_credentials := cs\<rparr>) = 0" using idx by simp
  from finish_get_assertion_OK [OF f none idx'] obtain e s4 g where fin:
    "?upo \<longrightarrow> up = CTAP_UP_RESULT_ALLOW
        \<or> has_param ?params 6 \<and> ctap_pin_uv_auth_token_get_user_present_flag_value ?s3"
    "?upo \<longrightarrow> gestures_consumed s'" "response = e" "is_assertion_response env s4 g (storage s') e"
    "remembers (has_param ?params 3) g s'" "storage s4 = storage ?s3" "ga_credentials g = cs"
    "ga_next_credential_idx g = 0" "client_data_hash g = take 32 (clientDataHash ?params)"
    "auth_data_rp_id_hash g = rp_id_hash_value ?rp"
    "auth_data_flags g = (if ?upo then flags OR auth_data_up else flags)"
    by auto
  have "auth_data_flags g = (if ?uv then auth_data_uv else 0) OR (if ?upo then auth_data_up else 0)"
    using fin(11) v'(2) by simp
  then show ?thesis
    using parsed tok fin(1-10) cs locate_credentials_eligible [OF cs(1)] frame
    unfolding Let_def by (intro exI [of _ ga] exI [of _ it1] exI [of _ g] exI [of _ s4]) simp
qed

theorem get_assertion_authorised_witness:
  "\<exists>s' e. ctap_get_assertion session_env ref_decoder (\<lambda>_. []) session_stack CTAP_UP_RESULT_ALLOW 0
      session_state (Some session_request) [] = Some (CTAP2_OK, s', e)
    \<and> (\<exists>g s1. ga_credentials g \<noteq> [] \<and> is_assertion_response session_env s1 g (storage s') e)"
  using session_first get_assertion_authorised [of session_env ref_decoder "\<lambda>_. []" session_stack
      CTAP_UP_RESULT_ALLOW 0 session_state "Some session_request"]
  unfolding Let_def by fast



end
