(* ===== verification/Credential_Lists.thy ===== *)
theory Credential_Lists
  imports Assertion_Properties
begin

text \<open>
  The lists of credential descriptors in a request, \<open>excludeList\<close> and \<open>allowList\<close>: the loops over
  them end, and what the descriptors in a list mean for the outcome.
\<close>

section \<open>The descriptors in a list\<close>

text \<open>\<open>d\<close> is read from the list at \<open>ctx\<close> or behind it.\<close>

inductive listed :: "'v tinycbor \<Rightarrow> 'v ctap_parse_pub_key_cred_desc_list_ctx \<Rightarrow> CTAP_credDesc \<Rightarrow> bool"
  for dec where
  here: "ctap_parse_pub_key_cred_desc_list_next_cred dec ctx = Ok (Some d, ctx1) \<Longrightarrow> listed dec ctx d"
| later: "ctap_parse_pub_key_cred_desc_list_next_cred dec ctx = Ok (Some d1, ctx1) \<Longrightarrow>
    listed dec ctx1 d \<Longrightarrow> listed dec ctx d"

inductive_cases listedE: "listed dec ctx d"

text \<open>A credential a descriptor names for the relying party, and which the request may learn of.\<close>

definition names_credential :: "('h, 's) ctap_interfaces \<Rightarrow> ('h, 's) ctap_state \<Rightarrow> CTAP_rpId \<Rightarrow> bool
    \<Rightarrow> CTAP_credDesc \<Rightarrow> bool" where
  "names_credential env s rp uv d \<longleftrightarrow>
     (\<exists>c. ctap_lookup_credential_by_desc (storage_ops env) (storage s) d = Some (Some c)
        \<and> ctap_credential_matches_rp c rp = Some True
        \<and> (ctap_credential_get_cred_protect c = 3 \<longrightarrow> uv))"

lemma exclude_list_loop_OK:
  "exclude_list_loop n env dec s up rp present uv ctx = Some CTAP2_OK \<Longrightarrow> listed dec ctx d \<Longrightarrow>
   \<not> names_credential env s rp uv d"
proof (induction n arbitrary: ctx)
  case (Suc n)
  obtain d1 ctx1 where nx: "ctap_parse_pub_key_cred_desc_list_next_cred dec ctx = Ok (Some d1, ctx1)"
    using Suc.prems(2) by (auto elim: listedE)
  have "\<not> names_credential env s rp uv d1
      \<and> exclude_list_loop n env dec s up rp present uv ctx1 = Some CTAP2_OK"
    using Suc.prems(1) nx unfolding names_credential_def
    by (auto simp: Let_def split: option.splits bind_splits if_splits)
  moreover have "d = d1 \<or> listed dec ctx1 d"
    using Suc.prems(2) nx by (cases rule: listedE) auto
  ultimately show ?case using Suc.IH by blast
qed simp

section \<open>Termination\<close>

text \<open>\<open>ctx\<close> is at an item of the list; as many items are left as the index says.\<close>

definition list_at :: "('v \<Rightarrow> nat list \<Rightarrow> bool) \<Rightarrow> nat list \<Rightarrow> 'v ctap_parse_pub_key_cred_desc_list_ctx \<Rightarrow> bool" where
  "list_at rep S ctx \<longleftrightarrow> list_next_idx ctx \<le> list_length ctx
     \<and> rep (list_it ctx) ((list_length ctx - list_next_idx ctx) # S)"

lemma next_cred_list_at:
  assumes "tinycbor_ok dec rep" and "list_at rep S ctx"
  obtains (ended) "ctap_parse_pub_key_cred_desc_list_next_cred dec ctx = Ok (None, ctx)"
        "list_next_idx ctx = list_length ctx"
    | (failed) e where "ctap_parse_pub_key_cred_desc_list_next_cred dec ctx = Err e"
    | (item) d ctx1 where "ctap_parse_pub_key_cred_desc_list_next_cred dec ctx = Ok (Some d, ctx1)"
        "list_at rep S ctx1" "list_length ctx1 = list_length ctx"
        "list_next_idx ctx1 = Suc (list_next_idx ctx)" "list_next_idx ctx < list_length ctx"
proof (cases "list_next_idx ctx = list_length ctx")
  case True
  then show thesis by (intro ended) (simp_all add: ctap_parse_pub_key_cred_desc_list_next_cred_def)
next
  case False
  with assms(2) obtain k where k: "list_length ctx - list_next_idx ctx = Suc k"
    by (cases "list_length ctx - list_next_idx ctx") (auto simp: list_at_def)
  then have "rep (list_it ctx) (Suc k # S)" using assms(2) by (simp add: list_at_def)
  from parsesD [OF cred_desc_parses [OF assms(1)] this]
  have r: "result_ok (\<lambda>w. rep w (k # S)) (\<lambda>_. True) (parse_cred_desc dec (list_item ctx) (list_it ctx))" .
  show thesis
  proof (cases "parse_cred_desc dec (list_item ctx) (list_it ctx)")
    case (Ok x)
    obtain d it1 where x: "x = (d, it1)" by (cases x)
    have lt: "list_next_idx ctx < list_length ctx" and k': "list_length ctx - Suc (list_next_idx ctx) = k"
      using k by simp_all
    show thesis
      by (rule item [of d "ctx\<lparr>list_it := it1, list_item := d, list_next_idx := list_next_idx ctx + 1\<rparr>"])
        (use Ok x False r k' lt in \<open>auto simp: ctap_parse_pub_key_cred_desc_list_next_cred_def list_at_def\<close>)
  next
    case (Err e)
    then show thesis
      using False by (intro failed [of e]) (simp add: ctap_parse_pub_key_cred_desc_list_next_cred_def)
  next
    case Abort
    then show thesis using r by simp
  qed
qed

lemma list_init_at:
  assumes "tinycbor_ok dec rep" and "rep v (Suc n # S)"
  shows "(\<exists>e. ctap_parse_pub_key_cred_desc_list_init dec junk (Some v) = Err e)
    \<or> (\<exists>ctx. ctap_parse_pub_key_cred_desc_list_init dec junk (Some v) = Ok ctx \<and> list_next_idx ctx = 0
          \<and> list_at rep (Suc n # S) ctx)"
  using dec_enter_array [OF assms(1,2)]
  unfolding ctap_parse_pub_key_cred_desc_list_init_def list_at_def
  by (cases "cbor_value_is_array dec v"; cases "cbor_value_enter_container dec v";
      cases "cbor_value_get_array_length dec v") (auto simp: ctap_cbor_ensure_type_def)

text \<open>The lookups a list leads to return.\<close>

definition lookups_return :: "('h, 's) ctap_interfaces \<Rightarrow> ('h, 's) ctap_state \<Rightarrow> CTAP_rpId \<Rightarrow> bool" where
  "lookups_return env s rp \<longleftrightarrow> (\<forall>d. case ctap_lookup_credential_by_desc (storage_ops env) (storage s) d of
       None \<Rightarrow> False | Some None \<Rightarrow> True | Some (Some c) \<Rightarrow> ctap_credential_matches_rp c rp \<noteq> None)"

lemma lookups_return_cases:
  assumes "lookups_return env s rp"
  obtains "ctap_lookup_credential_by_desc (storage_ops env) (storage s) d = Some None"
    | c b where "ctap_lookup_credential_by_desc (storage_ops env) (storage s) d = Some (Some c)"
        "ctap_credential_matches_rp c rp = Some b"
  using assms [unfolded lookups_return_def, rule_format, of d] by (auto split: option.splits)

lemma stored_lookups_return:
  assumes "item_storage srep fits (find_item (storage_ops env)) (create_or_update_item (storage_ops env))
      (delete_item (storage_ops env))"
      and "srep (storage s) L" and "\<forall>c\<in>set (stored_credentials L). wf_credential H c"
      and "rp_id_hash_value rp = H (rp_id_id rp)"
  shows "lookups_return env s rp"
  unfolding lookups_return_def item_storage.lookup_credential [OF assms(1,2) refl]
  using assms(3) wf_credential_defined(1) [where H = H and rp = rp, OF _ assms(4)]
  by (auto split: option.splits simp: find_Some_iff)

lemma exclude_list_loop_returns:
  assumes "tinycbor_ok dec rep" and "lookups_return env s rp"
  shows "list_at rep S ctx \<Longrightarrow> list_length ctx - list_next_idx ctx < n \<Longrightarrow>
    exclude_list_loop n env dec s up rp present uv ctx \<noteq> None"
proof (induction n arbitrary: ctx)
  case (Suc n)
  from assms(1) Suc.prems(1) show ?case
  proof (cases rule: next_cred_list_at)
    case (item d ctx1)
    have "exclude_list_loop n env dec s up rp present uv ctx1 \<noteq> None"
      using item Suc.prems(2) by (intro Suc.IH) auto
    then show ?thesis
      using item(1) by (rule_tac d = d in lookups_return_cases [OF assms(2)]) (auto simp: Let_def)
  qed simp_all
qed simp

lemma allow_list_loop_returns:
  assumes "tinycbor_ok dec rep" and "lookups_return env s rp"
  shows "list_at rep S ctx \<Longrightarrow> list_length ctx - list_next_idx ctx < n \<Longrightarrow>
    allow_list_loop n env dec s rp uv max_num ctx acc \<noteq> None"
proof (induction n arbitrary: ctx acc)
  case (Suc n)
  from assms(1) Suc.prems(1) show ?case
  proof (cases rule: next_cred_list_at)
    case (item d ctx1)
    have "allow_list_loop n env dec s rp uv max_num ctx1 acc1 \<noteq> None" for acc1
      using item Suc.prems(2) by (intro Suc.IH) auto
    then show ?thesis
      using item(1) by (rule_tac d = d in lookups_return_cases [OF assms(2)]) (auto simp: Let_def)
  qed simp_all
qed simp

section \<open>Properties\<close>

text \<open>
  C34: The loops over the lists of credentials end. On a storage that meets its contract, with
  well-formed credentials, and under the documented behaviour of TinyCBOR, processing an
  \<open>excludeList\<close> or an \<open>allowList\<close>, of any content and length, returns: with a status, or with the
  credentials found. No assertion fails on the way.
\<close>

theorem credential_lists_terminate:
  assumes "tinycbor_ok dec rep" and "rep v (Suc n # S)"
      and "item_storage srep fits (find_item (storage_ops env)) (create_or_update_item (storage_ops env))
        (delete_item (storage_ops env))"
      and "srep (storage s) L" and "\<forall>c\<in>set (stored_credentials L). wf_credential H c"
      and "rp_id_hash_value rp = H (rp_id_id rp)"
  shows "(\<exists>status. process_exclude_list env dec junk s up (Some v) rp param_present uv = Some status)
    \<and> (\<exists>found. process_allow_list env dec junk s (Some v) rp uv max_num = Some found)"
proof -
  note lookups = stored_lookups_return [OF assms(3-6)]
  from list_init_at [OF assms(1,2), of "cred_desc_junk junk"] show ?thesis
  proof (elim disjE exE conjE)
    fix ctx
    assume ctx: "ctap_parse_pub_key_cred_desc_list_init dec (cred_desc_junk junk) (Some v) = Ok ctx"
      "list_next_idx ctx = 0" "list_at rep (Suc n # S) ctx"
    have "list_length ctx - list_next_idx ctx < list_length ctx + 1" using ctx(2) by simp
    with exclude_list_loop_returns [OF assms(1) lookups ctx(3)]
      allow_list_loop_returns [OF assms(1) lookups ctx(3)]
    show ?thesis
      using ctx(1) unfolding process_exclude_list_def process_allow_list_def
      by (simp del: exclude_list_loop.simps allow_list_loop.simps)
  qed (simp add: process_exclude_list_def process_allow_list_def)
qed

theorem credential_lists_terminate_witness:
  "\<exists>s c found. stored_credentials s \<noteq> [] \<and> process_allow_list
     (memory_env :: (sha256_ctx, ctap_memory_storage_context) ctap_interfaces) ref_decoder session_stack
     ((CTAP_STATE_CONST_INIT c) :: (sha256_ctx, ctap_memory_storage_context) ctap_state)
     (Some ([[I_Array [I_Map [(I_Text (ctap_str ''id''), I_Bytes [1])]]]], 0)) example_rp True 128
   = Some found"
proof -
  obtain c s L r where c: "ctap_create_credential CTAP_MEMORY_STORAGE_CONST_INIT
        (software_crypto example_libraries) (zeros 447) credential_memory 0 True 1 example_rp example_user
        = Some (CTAP2_OK, Some c, s, r)" "mem_rep s L" "wf_credential (\<lambda>_. replicate 32 7) c"
      "stored_credentials L = [c]"
    using example_create [OF credential_memory_rep, of example_libraries 0 True]
    by (auto simp: without_first_def credential_memory_def)
  have "ref_rep ([[I_Array [I_Map [(I_Text (ctap_str ''id''), I_Bytes [1])]]]], 0) (Suc 0 # [])"
    by (simp add: ref_rep_def)
  from credential_lists_terminate [where env = memory_env and s = "CTAP_STATE_CONST_INIT s" and
      H = "\<lambda>_. replicate 32 7" and rp = example_rp and L = L, OF ref_decoder_ok this, of mem_rep mem_fits]
  show ?thesis
    using memory_storage_ok c(2-4) by (intro exI [of _ L] exI [of _ s])
      (auto simp: memory_env_def CTAP_STATE_CONST_INIT_def zero_ctap_state_def example_rp_def)
qed

end
