(* ===== verification/Making.thy ===== *)
theory Making
  imports Credential_Lists
begin

text \<open>
  What a successful authenticatorMakeCredential guarantees, and what any authenticatorMakeCredential
  that changes the storage needed.
\<close>

section \<open>The steps\<close>

lemma store_credential_status [simp]: "store_credential ops st h src \<noteq> Some (0, None, st1)"
  by (auto simp: store_credential_def require_def Let_def split: if_splits bind_splits)

lemma create_credential_status [simp]:
  "ctap_create_credential ops c buf st rng d cp rp user \<noteq> Some (0, None, st1, rng1)"
  by (auto simp: ctap_create_credential_def require_def Let_def
      split: if_splits bind_splits option.splits prod.splits)

lemma create_credential_Some:
  "ctap_create_credential ops c buf st rng d cp rp user = Some (status, Some cred, st1, rng1) \<Longrightarrow>
   status = CTAP2_OK"
  by (auto simp: ctap_create_credential_def store_credential_def require_def Let_def
      split: if_splits bind_splits option.splits prod.splits)

lemma attested_status [simp]: "create_attested_credential_data c bytes_of rng cred \<noteq> Some (Inl 0, rng1)"
  by (auto simp: create_attested_credential_data_def require_def Let_def split: if_splits prod.splits)

lemma mc_extensions_status [simp]:
  "encode_make_credential_authenticator_data_extensions bytes_of n ext cred \<noteq> Inl 0"
  by (auto simp: encode_make_credential_authenticator_data_extensions_def Let_def
      simp del: cbor_encode.simps split: if_splits prod.splits)

text \<open>The complete encoding of the response.\<close>

definition attestation_ops :: "bytes \<Rightarrow> bytes \<Rightarrow> encoder" where
  "attestation_ops auth_data signature =
     [Create_Map 3, Encode_Int 1, Encode_Text (ctap_str ''packed''), Encode_Int 2, Encode_Bytes auth_data,
      Encode_Int 3,
      Create_Map 2, Encode_Text (ctap_str ''alg''), Encode_Int (-7), Encode_Text (ctap_str ''sig''),
      Encode_Bytes signature, Close_Container,
      Close_Container]"

lemma self_attestation_OK:
  assumes "create_self_attestation_statement c enc_ok rng encoder auth_data cdh cred
      = Some (CTAP2_OK, e, rng1)"
  shows "\<exists>sig. e = encoder @ [Create_Map 2, Encode_Text (ctap_str ''alg''), Encode_Int (-7),
      Encode_Text (ctap_str ''sig''), Encode_Bytes sig, Close_Container]"
  using assms unfolding create_self_attestation_statement_def Let_def
  by (auto simp: cbor_encode_OK_iff simp del: cbor_encode.simps
      split: bind_splits sum.splits prod.split_asm if_splits) 

text \<open>
  \<open>e\<close> is the response for a credential that was stored with the given properties: \<open>st1\<close> is the
  storage with the credential, \<open>st2\<close> the one after the counter was increased.
\<close>

definition is_attestation :: "('h, 's) ctap_interfaces \<Rightarrow> (encoder \<Rightarrow> bytes) \<Rightarrow> CTAP_rpId \<Rightarrow> u8
    \<Rightarrow> ctap_credential_handle \<Rightarrow> 's \<Rightarrow> nat \<Rightarrow> 's \<Rightarrow> encoder \<Rightarrow> bool" where
  "is_attestation env bytes_of rp flags c st1 rng1 st2 e \<longleftrightarrow>
     (\<exists>count rng2 attested rng3 ext sig.
        ctap_increment_global_signature_counter (storage_ops env) (crypto_ops env) st1 rng1
          = Some (CTAP2_OK, Some count, st2, rng2)
      \<and> create_attested_credential_data (crypto_ops env) bytes_of rng2 c = Some (Inr attested, rng3)
      \<and> (flags AND auth_data_ed = 0 \<longrightarrow> ext = [])
      \<and> e = attestation_ops (authenticator_data (rp_id_hash_value rp) flags count (attested @ ext)) sig)"

lemma finish_make_credential_OK:
  assumes "finish_make_credential env bytes_of junk s params rp user d cp flags encoder
      = Some (CTAP2_OK, s', e')"
    and "flags AND auth_data_ed = 0"
  shows "\<exists>c st1 rng1 e. ctap_create_credential (storage_ops env) (crypto_ops env)
        (source_buffer_junk junk) (storage s) (rng_position s) d cp rp user = Some (CTAP2_OK, Some c, st1, rng1)
      \<and> e' = encoder @ e \<and> is_attestation env bytes_of rp
          (flags OR auth_data_at OR (if has_param params 6 then auth_data_ed else 0)) c st1 rng1 (storage s') e"
proof -
  obtain status cred st1 rng1 where c: "ctap_create_credential (storage_ops env) (crypto_ops env)
        (source_buffer_junk junk) (storage s) (rng_position s) d cp rp user = Some (status, cred, st1, rng1)"
    using assms(1) by (auto simp: finish_make_credential_def Let_def split: bind_splits)
  with assms(1) obtain credential where cred: "cred = Some credential"
    by (cases cred) (auto simp: finish_make_credential_def Let_def)
  obtain status2 counter st2 rng2 where i: "ctap_increment_global_signature_counter (storage_ops env)
      (crypto_ops env) st1 rng1 = Some (status2, counter, st2, rng2)"
    using assms(1) c cred by (auto simp: finish_make_credential_def Let_def split: bind_splits)
  with assms(1) c cred obtain count where count: "counter = Some count"
    by (cases counter) (auto simp: finish_make_credential_def Let_def)
  obtain attested_result rng3 where a: "create_attested_credential_data (crypto_ops env) bytes_of rng2
      credential = Some (attested_result, rng3)"
    using assms(1) c cred i count by (auto simp: finish_make_credential_def Let_def split: bind_splits)
  with assms(1) c cred i count obtain attested where att: "attested_result = Inr attested"
    by (cases attested_result) (auto simp: finish_make_credential_def Let_def)
  let ?ext = "if has_param params 6 then encode_make_credential_authenticator_data_extensions bytes_of
      (321 - length attested) (extensions_present params) credential else Inr []"
  obtain ext where ext: "?ext = Inr ext"
    using assms(1) c cred i count a att
    by (cases ?ext) (auto simp: finish_make_credential_def Let_def split: if_split_asm)
  let ?flags = "flags OR auth_data_at OR (if has_param params 6 then auth_data_ed else 0)"
  let ?data = "authenticator_data (rp_id_hash_value rp) ?flags count (attested @ ext)"
  let ?ops = "[Create_Map 3, Encode_Int 1, Encode_Text (ctap_str ''packed''), Encode_Int 2,
     Encode_Bytes ?data, Encode_Int 3]"
  obtain e2 rng4 where e: "create_self_attestation_statement (crypto_ops env) (encoder_ok env) rng3
        (encoder @ ?ops) ?data (clientDataHash params) credential = Some (CTAP2_OK, e2, rng4)"
      "e' = e2 @ [Close_Container]" "storage s' = st2"
    using assms(1) c cred i count a att ext unfolding finish_make_credential_def Let_def require_def
    by (auto simp: cbor_encode_OK_iff simp del: cbor_encode.simps split: if_split_asm bind_splits prod.splits)
  from self_attestation_OK [OF e(1)] obtain sig where "e' = encoder @ attestation_ops ?data sig"
    using e(2) by (auto simp: attestation_ops_def)
  moreover have "?flags AND auth_data_ed = 0 \<longrightarrow> ext = []"
    using ext by (auto simp: word_bw_assocs word_ao_dist word_ao_dist2 split: if_splits)
  ultimately have "is_attestation env bytes_of rp ?flags credential st1 rng1 (storage s')
      (attestation_ops ?data sig)"
    unfolding is_attestation_def using i count a att e(3) increment_counter_Some [of "storage_ops env"]
    by (metis (lifting))
  then show ?thesis
    using c cred create_credential_Some [OF c [unfolded cred]] \<open>e' = encoder @ attestation_ops ?data sig\<close>
    by blast
qed

section \<open>Authorisation\<close>

lemma verify_make_credential_OK:
  assumes "verify_make_credential env now s params rp protocol d = Some (CTAP2_OK, s', flags)"
  shows "same_gestures s s'
    \<and> flags = (if ctap_is_pin_set s \<and> has_param params 8 then auth_data_uv else 0)
    \<and> (ctap_is_pin_set s \<and> has_param params 8 \<longrightarrow>
         (\<exists>i. protocol = Some i \<and> token_verifies env now s params rp i permission_mc))"
  using assms unfolding verify_make_credential_def require_def Let_def
  by (auto simp: ctap_check_state_eq_Some split: if_splits dest!: ensure_valid_verifies)

lemma cred_params_frame:
  assumes "ctap_parse_make_credential_pub_key_cred_params dec junk mc = Ok mc1"
  shows "\<exists>p. mc1 = mc\<lparr>pubKeyCredParams_chosen := p\<rparr>"
  using assms unfolding ctap_parse_make_credential_pub_key_cred_params_def
  by (auto simp: presult_eq_Ok split: option.splits)

text \<open>The list names no credential of the relying party that the request may learn of.\<close>

definition excludes_none :: "('h, 's) ctap_interfaces \<Rightarrow> 'v tinycbor \<Rightarrow> stack_memory \<Rightarrow> ('h, 's) ctap_state
    \<Rightarrow> 'v option \<Rightarrow> CTAP_rpId \<Rightarrow> bool \<Rightarrow> bool" where
  "excludes_none env dec junk s exclude_list rp uv \<longleftrightarrow>
     (\<exists>ctx. ctap_parse_pub_key_cred_desc_list_init dec (cred_desc_junk junk) exclude_list = Ok ctx
        \<and> (\<forall>d. listed dec ctx d \<longrightarrow> \<not> names_credential env s rp uv d))"

lemma process_exclude_list_OK:
  assumes "process_exclude_list env dec junk s up exclude_list rp present uv = Some CTAP2_OK"
  shows "excludes_none env dec junk s exclude_list rp uv"
  using assms unfolding process_exclude_list_def excludes_none_def
  by (auto split: presult.splits simp del: exclude_list_loop.simps dest: exclude_list_loop_OK)

lemma make_credential_verified_changes:
  assumes "make_credential_verified env dec bytes_of junk up s mc rp d flags encoder
      = Some (status, s', encoder')"
      and "status = CTAP2_OK \<or> storage s' \<noteq> storage s"
  shows "(has_param (mc_common mc) 5 \<longrightarrow>
        excludes_none env dec junk s (excludeList mc) rp (flags AND auth_data_uv \<noteq> 0))
    \<and> (up = CTAP_UP_RESULT_ALLOW
        \<or> has_param (mc_common mc) 8 \<and> ctap_pin_uv_auth_token_get_user_present_flag_value s)
    \<and> gestures_consumed s'
    \<and> finish_make_credential env bytes_of junk (consume_user_gestures s) (mc_common mc) rp
        (mc_user mc) d (make_credential_protection (mc_common mc) mc) (flags OR auth_data_up) encoder
      = Some (status, s', encoder')"
proof -
  let ?excl = "if has_param (mc_common mc) 5
      then process_exclude_list env dec junk s up (excludeList mc) rp (has_param (mc_common mc) 8)
             (flags AND auth_data_uv \<noteq> 0)
      else Some CTAP2_OK"
  obtain e where e: "?excl = Some e"
    using assms(1) unfolding make_credential_verified_def Let_def by (auto split: bind_splits)
  with assms have ok: "e = CTAP2_OK" "ensure_user_present s up (has_param (mc_common mc) 8) = CTAP2_OK"
    unfolding make_credential_verified_def Let_def by (auto split: if_split_asm)
  have f: "finish_make_credential env bytes_of junk (consume_user_gestures s) (mc_common mc) rp
        (mc_user mc) d (make_credential_protection (mc_common mc) mc) (flags OR auth_data_up) encoder
      = Some (status, s', encoder')"
    using assms(1) e ok unfolding make_credential_verified_def Let_def by simp
  have "has_param (mc_common mc) 5 \<longrightarrow>
        excludes_none env dec junk s (excludeList mc) rp (flags AND auth_data_uv \<noteq> 0)"
    using e ok(1) process_exclude_list_OK by (auto simp del: ctap_is_present_bit split: if_split_asm)
  moreover have "gestures_consumed s'"
    using finish_make_credential_frame [OF f] gestures_consumed_consume [of s]
    by (auto simp: gestures_consumed_def)
  ultimately show ?thesis using f ok(2) unfolding ensure_user_present_OK by blast
qed

section \<open>An example\<close>

text \<open>The RAM storage, with a counter of its own.\<close>

definition making_env :: "(sha256_ctx, ctap_memory_storage_context) ctap_interfaces" where
  "making_env = \<lparr>crypto_ops = software_crypto example_libraries,
     storage_ops = CTAP_MEMORY_STORAGE_CONST_INIT\<lparr>increment_counter := \<lambda>st k. Some (CTAP_STORAGE_OK, k, st)\<rparr>,
     encoder_ok = (\<lambda>_. True)\<rparr>"

definition making_state :: "(sha256_ctx, ctap_memory_storage_context) ctap_state" where
  "making_state = CTAP_STATE_CONST_INIT credential_memory"

definition making_stack :: stack_memory where
  "making_stack = session_stack\<lparr>source_buffer_junk := zeros 447\<rparr>"

definition making_request :: ref_it where
  "making_request = ([[I_Map
     [(I_Int 1, I_Bytes (replicate 32 7)),
      (I_Int 2, I_Map [(I_Text (ctap_str ''id''), I_Text (ctap_str ''rp''))]),
      (I_Int 3, I_Map [(I_Text (ctap_str ''id''), I_Bytes [9])]),
      (I_Int 4, I_Array [I_Map [(I_Text (ctap_str ''alg''), I_Int (-7)),
                                (I_Text (ctap_str ''type''), I_Text (ctap_str ''public-key''))]])]]], 0)"

lemma making_parsed:
  "\<exists>mc it1. ctap_parse_make_credential ref_decoder (Some making_request) = Ok (mc, it1)
     \<and> (\<exists>S n. pubKeyCredParams mc = Some ([I_Array [I_Map [(I_Text (ctap_str ''alg''), I_Int (-7)),
           (I_Text (ctap_str ''type''), I_Text (ctap_str ''public-key''))]]] # S, n))
     \<and> clientDataHash (mc_common mc) = replicate 32 7 \<and> rpId (mc_common mc) = ctap_str ''rp''
     \<and> options (mc_common mc) = \<lparr>options_present = 0, options_values = 0\<rparr>
     \<and> has_field (mc_user mc) CTAP_userEntity_id \<and> user_id (mc_user mc) = [9]
     \<and> (\<forall>i\<in>{5, 6, 7, 8, 10}. \<not> bit (params_present (mc_common mc)) i)"
  by (simp add: making_request_def ctap_parse_make_credential_def ref_simps
      ctap_parse_make_credential_entry_def Let_def mc_set_present_def ctap_is_present_or
      zero_CTAP_makeCredential_def zero_CTAP_mc_ga_common_def zero_CTAP_userEntity_def
      parse_rp_entity_def parse_rp_entity_entry_def parse_user_entity_def parse_user_entity_entry_def
      ctap_set_present_def ctap_param_to_mask_def bit_simps ctap_string_matches_def ctap_str_def)
    (simp add: ctap_is_present_def)

lemma making_cred_params:
  assumes "pubKeyCredParams mc = Some ([I_Array [I_Map [(I_Text (ctap_str ''alg''), I_Int (-7)),
       (I_Text (ctap_str ''type''), I_Text (ctap_str ''public-key''))]]] # S, n)"
  shows "\<exists>mc1. ctap_parse_make_credential_pub_key_cred_params ref_decoder junk mc = Ok mc1"
  using assms
  by (simp add: ctap_parse_make_credential_pub_key_cred_params_def ref_simps parse_cred_params_def
      parse_cred_params_entry_def ctap_string_matches_def ctap_str_def is_public_key_type_def
      ctap_is_supported_pub_key_cred_alg_def Let_def)

lemma making_session:
  "\<exists>s' e. ctap_make_credential making_env ref_decoder (\<lambda>_. []) making_stack CTAP_UP_RESULT_ALLOW 0
     making_state (Some making_request) [] = Some (CTAP2_OK, s', e)"
proof -
  obtain mc0 it1 S n where mc0: "ctap_parse_make_credential ref_decoder (Some making_request) = Ok (mc0, it1)"
    "pubKeyCredParams mc0 = Some ([I_Array [I_Map [(I_Text (ctap_str ''alg''), I_Int (-7)),
       (I_Text (ctap_str ''type''), I_Text (ctap_str ''public-key''))]]] # S, n)"
    "clientDataHash (mc_common mc0) = replicate 32 7" "rpId (mc_common mc0) = ctap_str ''rp''"
    "options (mc_common mc0) = \<lparr>options_present = 0, options_values = 0\<rparr>"
    "has_field (mc_user mc0) CTAP_userEntity_id" "user_id (mc_user mc0) = [9]"
    "\<forall>i\<in>{5, 6, 7, 8, 10}. \<not> bit (params_present (mc_common mc0)) i"
    using making_parsed by blast
  obtain mc p where mc: "ctap_parse_make_credential_pub_key_cred_params ref_decoder
      (cred_params_junk making_stack) mc0 = Ok mc" "mc = mc0\<lparr>pubKeyCredParams_chosen := p\<rparr>"
    using making_cred_params [OF mc0(2)] cred_params_frame by blast
  let ?c = "software_crypto example_libraries" and ?ops = "storage_ops making_env"
  let ?rp = "\<lparr>rp_id_id = ctap_str ''rp'', rp_id_hash_value = sha256_spec (ctap_str ''rp'')\<rparr>"
  obtain i k w wo r where draw: "draw_credential_secrets ?c 0 = (Some (i, k, w, wo), r)" "length i = 32"
      "length k = 32" "length w = 32" "length wo = 32"
    using software_draw [of example_libraries 0] by blast
  have ops: "find_item ?ops = ctap_memory_storage_find_item"
      "create_or_update_item ?ops = ctap_memory_storage_create_or_update_item"
    by (simp_all add: making_env_def memory_ops)
  have fit: "\<forall>k\<le>619. mem_fits credential_memory k"
    using memory_room [of credential_memory] by (simp add: credential_memory_def)
  obtain c st where c: "ctap_create_credential ?ops ?c (zeros 447) credential_memory 0 False 1 ?rp (mc_user mc)
        = Some (CTAP2_OK, Some c, st, r)" "created sha256_spec c False 1 ?rp (mc_user mc) (i, k, w, wo)"
    using mem.create_credential_ok [where H = sha256_spec and rp = ?rp, OF credential_memory_rep ops _ _ _ fit _ _ _ _ draw,
        of "zeros 447" "mc_user mc" 1 False] mc0(6,7) mc(2) by auto
  from c(2) have secrets: "ctap_credential_get_id c = i" "src_private_key (cred_source c) = k"
    by (simp_all add: created_def)
  obtain b r2 where b: "rng_generate_data ?c r 4 = (True, b, r2)"
    using software_rng_ok [of example_libraries r 4] by (auto simp: CTAP_SOFTWARE_CRYPTO_CONST_INIT_def)
  let ?s = "consume_user_gestures making_state"
  have state: "\<not> ctap_is_pin_set making_state" "storage ?s = credential_memory" "rng_position ?s = 0"
    by (simp_all add: making_state_def CTAP_STATE_CONST_INIT_def zero_ctap_state_def ctap_is_pin_set_def
        consume_user_gestures_def ctap_pin_uv_auth_token_clear_permissions_except_lbw_def
        ctap_pin_uv_auth_token_clear_user_verified_flag_def
        ctap_pin_uv_auth_token_clear_user_present_flag_def)
  have p: "mc_common mc = mc_common mc0" "mc_user mc = mc_user mc0" "excludeList mc = excludeList mc0"
    "credProtect mc = credProtect mc0"
    using mc(2) by simp_all
  let ?count = "(le32_read b AND 3) + 1"
  have count: "ctap_increment_global_signature_counter ?ops ?c st r = Some (CTAP2_OK, Some ?count, st, r2)"
    using b by (simp add: ctap_increment_global_signature_counter_def making_env_def)
  obtain att where att: "create_attested_credential_data ?c (\<lambda>_. []) r2 c = Some (Inr att, r2)"
      "length att = 50"
    using draw(2) secrets
    by (simp add: create_attested_credential_data_def require_def ctap_credential_compute_public_key_def
        CTAP_SOFTWARE_CRYPTO_CONST_INIT_def ctap_software_crypto_ecc_secp256r1_compute_public_key_def
        example_libraries_def Let_def fits_buffer_def ctap_encode_public_key_def
        ctap_aaguid_def)
  let ?data = "authenticator_data (rp_id_hash_value ?rp) (auth_data_up OR auth_data_at) ?count att"
  have k: "length (replicate 32 7 :: bytes) = 32" "length (src_private_key (cred_source c)) = 32"
    using secrets draw(3) by simp_all
  obtain sig r3 where sig: "compute_signature ?c r2 ?data (replicate 32 7) c = Some (Inr sig, r3)"
    using example_signature [OF k] by blast
  have fin: "\<exists>s' e. finish_make_credential making_env (\<lambda>_. []) making_stack ?s (mc_common mc0) ?rp
      (mc_user mc0) False 1 auth_data_up [] = Some (CTAP2_OK, s', e)"
    using c(1) count att sig mc0(3,8) p state
    by (simp add: finish_make_credential_def making_env_def making_stack_def require_def
        create_self_attestation_statement_def Let_def del: cbor_encode.simps)
  then show ?thesis
    using mc0 mc(1) p state
    by (simp add: ctap_make_credential_def Let_def handle_pin_uv_auth_param_and_protocol_def
        make_credential_option_status_def verify_make_credential_def make_credential_verified_def
        get_option_value_or_false_def is_option_present_def ctap_compute_rp_id_hash_def
        ensure_user_present_def make_credential_protection_def making_env_def)
qed

text \<open>A request that succeeds, or changes the storage, passed the checks before the user is asked.\<close>

lemma make_credential_run:
  assumes "ctap_make_credential env dec bytes_of junk up now s it [] = Some (status, s', response)"
      and "status = CTAP2_OK \<or> storage s' \<noteq> storage s"
  obtains mc0 it1 mc s1 flags where
    "ctap_parse_make_credential dec it = Ok (mc0, it1)"
    "ctap_parse_make_credential_pub_key_cred_params dec (cred_params_junk junk) mc0 = Ok mc"
    "mc_common mc = mc_common mc0"
    "ctap_is_pin_set s \<and> get_option_value_or_false (options (mc_common mc0)) CTAP_ma_ga_option_rk
      \<longrightarrow> has_param (mc_common mc0) 8"
    "same_gestures s s1"
    "flags = (if ctap_is_pin_set s \<and> has_param (mc_common mc0) 8 then auth_data_uv else 0)"
    "ctap_is_pin_set s \<and> has_param (mc_common mc0) 8 \<longrightarrow>
      (\<exists>i. ctap_get_pin_protocol s (unat (pinUvAuthProtocol (mc_common mc0))) = Some i
        \<and> token_verifies env now s (mc_common mc0) (request_rp env (mc_common mc0)) i permission_mc)"
    "make_credential_verified env dec bytes_of junk up s1 mc (request_rp env (mc_common mc0))
      (get_option_value_or_false (options (mc_common mc0)) CTAP_ma_ga_option_rk) flags []
      = Some (status, s', response)"
    "status = CTAP2_OK \<or> storage s' \<noteq> storage s1"
proof -
  obtain mc0 it1 where parsed: "ctap_parse_make_credential dec it = Ok (mc0, it1)"
    using assms by (auto simp: ctap_make_credential_def split: presult.splits)
  let ?params = "mc_common mc0"
  let ?rp = "request_rp env ?params"
  let ?h = "handle_pin_uv_auth_param_and_protocol s up (has_param ?params 8)
    (length (pinUvAuthParam ?params)) (has_param ?params 9) (pinUvAuthProtocol ?params)"
  let ?rk = "get_option_value_or_false (options ?params) CTAP_ma_ga_option_rk"
  obtain protocol where h: "?h = (CTAP2_OK, protocol)"
    using assms parsed by (cases ?h) (auto simp: ctap_make_credential_def Let_def split: if_split_asm)
  then obtain mc where mc: "ctap_parse_make_credential_pub_key_cred_params dec (cred_params_junk junk) mc0 = Ok mc"
    using assms parsed by (auto simp: ctap_make_credential_def Let_def split: presult.splits)
  obtain p where "mc = mc0\<lparr>pubKeyCredParams_chosen := p\<rparr>" using cred_params_frame [OF mc] by blast
  then have common: "mc_common mc = ?params" by simp
  have options: "make_credential_option_status s ?params ?rk = CTAP2_OK"
    using assms parsed h mc by (auto simp: ctap_make_credential_def Let_def split: if_split_asm)
  then have puat: "ctap_is_pin_set s \<and> ?rk \<longrightarrow> has_param ?params 8"
    by (auto simp: make_credential_option_status_def Let_def split: if_split_asm)
  obtain st s1 flags where v: "verify_make_credential env now s ?params ?rp protocol ?rk = Some (st, s1, flags)"
    and rest: "if st \<noteq> CTAP2_OK then status = st \<and> s' = s1
      else make_credential_verified env dec bytes_of junk up s1 mc ?rp ?rk flags [] = Some (status, s', response)"
    using assms(1) parsed h mc options unfolding ctap_make_credential_def Let_def request_rp_def [symmetric]
    by (auto simp: ctap_check_state_eq_Some split: if_split_asm)
  have "storage s1 = storage s" using verify_make_credential_frame [OF v] by auto
  with rest assms(2) have st: "st = CTAP2_OK" by (auto split: if_split_asm)
  from verify_make_credential_OK [OF v [unfolded st]] have v': "same_gestures s s1"
    "flags = (if ctap_is_pin_set s \<and> has_param ?params 8 then auth_data_uv else 0)"
    "ctap_is_pin_set s \<and> has_param ?params 8 \<longrightarrow>
      (\<exists>i. protocol = Some i \<and> token_verifies env now s ?params ?rp i permission_mc)"
    by blast+
  have tok: "ctap_is_pin_set s \<and> has_param ?params 8 \<longrightarrow>
      (\<exists>i. ctap_get_pin_protocol s (unat (pinUvAuthProtocol ?params)) = Some i
        \<and> token_verifies env now s ?params ?rp i permission_mc)"
    using v'(3) h handle_protocol by blast
  show thesis
    by (rule that [OF parsed mc common puat v'(1,2) tok])
      (use rest st assms(2) same_gestures_token(5) [OF v'(1)] in simp_all)
qed

lemma make_credential_presence:
  assumes "ctap_make_credential env dec bytes_of junk up now s it [] = Some (status, s', response)"
      and "status = CTAP2_OK \<or> storage s' \<noteq> storage s"
  shows "up = CTAP_UP_RESULT_ALLOW \<or> ctap_pin_uv_auth_token_get_user_present_flag_value s"
proof -
  obtain mc rp rk s1 flags where run: "same_gestures s s1" "make_credential_verified env dec bytes_of junk up s1 mc
      rp rk flags [] = Some (status, s', response)" "status = CTAP2_OK \<or> storage s' \<noteq> storage s1"
    using make_credential_run [OF assms] by metis
  from make_credential_verified_changes [OF run(2,3)] same_gestures_token(3) [OF run(1)] show ?thesis by auto
qed

section \<open>Properties\<close>

text \<open>
  C28: A credential is only made with authority. When authenticatorMakeCredential succeeds, or
  changes the storage at all: the user pressed the button or the token carries the presence; on an
  authenticator with a PIN, a discoverable credential or a request with a \<open>pinUvAuthParam\<close> needs
  the signature of a token with the permission, for this relying party and a verified user; the
  excluded list names no credential of the relying party; and the user's gestures are consumed.
  A success means that the credential was created with the protection asked for, and answers with
  its complete attestation, whose flags tell presence always and verification exactly when a PIN
  was used.
\<close>

theorem make_credential_authorised:
  assumes "ctap_make_credential env dec bytes_of junk up now s it [] = Some (status, s', response)"
      and "status = CTAP2_OK \<or> storage s' \<noteq> storage s"
  shows "\<exists>mc0 it1 mc. ctap_parse_make_credential dec it = Ok (mc0, it1)
    \<and> ctap_parse_make_credential_pub_key_cred_params dec (cred_params_junk junk) mc0 = Ok mc
    \<and> (let params = mc_common mc; rp = request_rp env params;
           rk = get_option_value_or_false (options params) CTAP_ma_ga_option_rk;
           uv = (ctap_is_pin_set s \<and> has_param params 8) in
        (ctap_is_pin_set s \<and> (rk \<or> has_param params 8) \<longrightarrow> uv
           \<and> (\<exists>i. ctap_get_pin_protocol s (unat (pinUvAuthProtocol params)) = Some i
                \<and> token_verifies env now s params rp i permission_mc))
      \<and> (up = CTAP_UP_RESULT_ALLOW
           \<or> has_param params 8 \<and> ctap_pin_uv_auth_token_get_user_present_flag_value s)
      \<and> (has_param params 5 \<longrightarrow> excludes_none env dec junk s (excludeList mc) rp uv)
      \<and> gestures_consumed s'
      \<and> (status = CTAP2_OK \<longrightarrow>
          (\<exists>c st1 rng1. ctap_create_credential (storage_ops env) (crypto_ops env)
              (source_buffer_junk junk) (storage s) (rng_position s) rk
              (make_credential_protection params mc) rp (mc_user mc) = Some (CTAP2_OK, Some c, st1, rng1)
           \<and> is_attestation env bytes_of rp ((if uv then auth_data_uv else 0) OR auth_data_up
              OR auth_data_at OR (if has_param params 6 then auth_data_ed else 0))
              c st1 rng1 (storage s') response)))"
proof -
  obtain mc0 it1 mc s1 flags where parsed: "ctap_parse_make_credential dec it = Ok (mc0, it1)"
    and mc: "ctap_parse_make_credential_pub_key_cred_params dec (cred_params_junk junk) mc0 = Ok mc"
    and common: "mc_common mc = mc_common mc0"
    and puat: "ctap_is_pin_set s \<and> get_option_value_or_false (options (mc_common mc0)) CTAP_ma_ga_option_rk
      \<longrightarrow> has_param (mc_common mc0) 8"
    and same: "same_gestures s s1"
    and flags: "flags = (if ctap_is_pin_set s \<and> has_param (mc_common mc0) 8 then auth_data_uv else 0)"
    and tok: "ctap_is_pin_set s \<and> has_param (mc_common mc0) 8 \<longrightarrow>
      (\<exists>i. ctap_get_pin_protocol s (unat (pinUvAuthProtocol (mc_common mc0))) = Some i
        \<and> token_verifies env now s (mc_common mc0) (request_rp env (mc_common mc0)) i permission_mc)"
    and run: "make_credential_verified env dec bytes_of junk up s1 mc (request_rp env (mc_common mc0))
      (get_option_value_or_false (options (mc_common mc0)) CTAP_ma_ga_option_rk) flags []
      = Some (status, s', response)"
    and changed: "status = CTAP2_OK \<or> storage s' \<noteq> storage s1"
    by (rule make_credential_run [OF assms])
  let ?params = "mc_common mc0"
  let ?rp = "request_rp env ?params"
  let ?rk = "get_option_value_or_false (options ?params) CTAP_ma_ga_option_rk"
  let ?uv = "ctap_is_pin_set s \<and> has_param ?params 8"
  note frame = same_gestures_token [OF same]
  have uv: "(flags AND auth_data_uv \<noteq> 0) = ?uv" using flags by simp
  note verified = make_credential_verified_changes [OF run changed, unfolded common uv]
  have excl: "excludes_none env dec junk s1 (excludeList mc) ?rp ?uv
      = excludes_none env dec junk s (excludeList mc) ?rp ?uv"
    by (simp add: excludes_none_def names_credential_def frame(5))
  have created: "\<exists>c st1 rng1. ctap_create_credential (storage_ops env) (crypto_ops env)
              (source_buffer_junk junk) (storage s) (rng_position s) ?rk
              (make_credential_protection ?params mc) ?rp (mc_user mc) = Some (CTAP2_OK, Some c, st1, rng1)
           \<and> is_attestation env bytes_of ?rp ((if ?uv then auth_data_uv else 0) OR auth_data_up
              OR auth_data_at OR (if has_param ?params 6 then auth_data_ed else 0))
              c st1 rng1 (storage s') response" if "status = CTAP2_OK"
  proof -
    have ed: "(flags OR auth_data_up) AND auth_data_ed = 0" using flags by simp
    have "flags OR auth_data_up OR auth_data_at OR (if has_param ?params 6 then auth_data_ed else 0)
      = (if ?uv then auth_data_uv else 0) OR auth_data_up OR auth_data_at
        OR (if has_param ?params 6 then auth_data_ed else 0)" using flags by simp
    with finish_make_credential_OK [OF _ ed, of env bytes_of junk "consume_user_gestures s1" ?params ?rp
        "mc_user mc" ?rk "make_credential_protection ?params mc" "[]" s' response] verified that frame(5,6)
    show ?thesis by (simp add: word_bw_assocs)
  qed
  show ?thesis
    using parsed mc common puat tok verified excl frame(3) created
    unfolding Let_def by (intro exI [of _ mc0] exI [of _ it1] exI [of _ mc]) (simp, blast)
qed

theorem make_credential_authorised_witness:
  "\<exists>s' e rp flags c st1 rng1. ctap_make_credential making_env ref_decoder (\<lambda>_. []) making_stack
      CTAP_UP_RESULT_ALLOW 0 making_state (Some making_request) [] = Some (CTAP2_OK, s', e)
    \<and> gestures_consumed s' \<and> is_attestation making_env (\<lambda>_. []) rp flags c st1 rng1 (storage s') e"
proof -
  obtain s' e where run: "ctap_make_credential making_env ref_decoder (\<lambda>_. []) making_stack
      CTAP_UP_RESULT_ALLOW 0 making_state (Some making_request) [] = Some (CTAP2_OK, s', e)"
    using making_session by blast
  then show ?thesis using make_credential_authorised [OF run] unfolding Let_def by fast
qed

end
