(* ===== verification/Nfc_Apdu.thy ===== *)
theory Nfc_Apdu
  imports Prelude
begin

text \<open>
  The data of the NFC application layer (\<open>nfc/Inc/nfc.h\<close>) and the parsing of command APDUs and
  building of response APDUs (\<open>nfc/Src/nfc_utils.c\<close>). A response is the list of the bytes written
  into the transmission buffer; the empty list is the length 0.
\<close>

section \<open>Constants\<close>

abbreviation (input) TX_BUF_SIZE :: nat where "TX_BUF_SIZE \<equiv> 512"

abbreviation (input) NFC_INS_SELECT :: u8 where "NFC_INS_SELECT \<equiv> 0xA4"
abbreviation (input) T4T_INS_READ :: u8 where "T4T_INS_READ \<equiv> 0xB0"
abbreviation (input) T4T_INS_UPDATE :: u8 where "T4T_INS_UPDATE \<equiv> 0xD6"
abbreviation (input) NFC_INS_CTAP :: u8 where "NFC_INS_CTAP \<equiv> 0x10"
abbreviation (input) NFC_INS_DESELECT :: u8 where "NFC_INS_DESELECT \<equiv> 0x12"
abbreviation (input) NFC_INS_GET_RESPONSE :: u8 where "NFC_INS_GET_RESPONSE \<equiv> 0xC0"

abbreviation (input) NFC_CLA_ISO :: u8 where "NFC_CLA_ISO \<equiv> 0x00"
abbreviation (input) NFC_CLA_CTAP :: u8 where "NFC_CLA_CTAP \<equiv> 0x80"
abbreviation (input) NFC_CLA_CTAP_CHAIN :: u8 where "NFC_CLA_CTAP_CHAIN \<equiv> 0x90"

abbreviation (input) NFC_SW_OK :: u16 where "NFC_SW_OK \<equiv> 0x9000"
abbreviation (input) NFC_SW_CHAIN :: u16 where "NFC_SW_CHAIN \<equiv> 0x6100"
abbreviation (input) NFC_SW_FILE_NOT_FOUND :: u16 where "NFC_SW_FILE_NOT_FOUND \<equiv> 0x6A82"
abbreviation (input) NFC_SW_FUNC_NOT_SUPPORTED :: u16 where "NFC_SW_FUNC_NOT_SUPPORTED \<equiv> 0x6800"
abbreviation (input) NFC_SW_WRONG_LENGTH :: u16 where "NFC_SW_WRONG_LENGTH \<equiv> 0x6700"
abbreviation (input) NFC_SW_WRONG_PARAMS :: u16 where "NFC_SW_WRONG_PARAMS \<equiv> 0x6B00"
abbreviation (input) NFC_SW_COND_NOT_SATISFIED :: u16 where "NFC_SW_COND_NOT_SATISFIED \<equiv> 0x6985"
abbreviation (input) NFC_SW_INS_NOT_SUPPORTED :: u16 where "NFC_SW_INS_NOT_SUPPORTED \<equiv> 0x6D00"
abbreviation (input) NFC_SW_CLA_NOT_SUPPORTED :: u16 where "NFC_SW_CLA_NOT_SUPPORTED \<equiv> 0x6E00"
abbreviation (input) NFC_SW_NOT_ENOUGH_MEMORY :: u16 where "NFC_SW_NOT_ENOUGH_MEMORY \<equiv> 0x6F00"
abbreviation (input) NFC_SW_SECURITY_STATUS_NOT_SAT :: u16
  where "NFC_SW_SECURITY_STATUS_NOT_SAT \<equiv> 0x6982"
abbreviation (input) NFC_SW_NOT_FOUND :: u16 where "NFC_SW_NOT_FOUND \<equiv> 0x6A82"
abbreviation (input) NFC_SW_WRONG_DATA :: u16 where "NFC_SW_WRONG_DATA \<equiv> 0x6A80"

section \<open>Data\<close>

datatype Files = FILE_NONE | FILE_CC | FILE_NDEF

datatype Apps = APP_NONE | APP_NDEF | APP_FIDO

text \<open>The applets are compared by their numbers.\<close>

fun app_number :: "Apps \<Rightarrow> u8" where
  "app_number APP_NONE = 0"
| "app_number APP_NDEF = 1"
| "app_number APP_FIDO = 2"

instantiation Apps :: linorder
begin

definition less_eq_Apps :: "Apps \<Rightarrow> Apps \<Rightarrow> bool" where
  "less_eq_Apps a b \<longleftrightarrow> app_number a \<le> app_number b"

definition less_Apps :: "Apps \<Rightarrow> Apps \<Rightarrow> bool" where
  "less_Apps a b \<longleftrightarrow> app_number a < app_number b"

instance
proof
  fix x y :: Apps
  show "x \<le> y \<Longrightarrow> y \<le> x \<Longrightarrow> x = y"
    by (cases x; cases y) (simp_all add: less_eq_Apps_def word_le_nat_alt)
qed (auto simp: less_eq_Apps_def less_Apps_def)

end

text \<open>
  A parsed command. The pointer to the data is \<open>None\<close> when it is \<open>NULL\<close>; otherwise it stands for
  the \<open>lc\<close> bytes it points to.
\<close>

record nfc_apdu =
  cla :: u8
  ins :: u8
  p1 :: u8
  p2 :: u8
  lc :: u16
  apdu_data :: "bytes option"
  le :: u16
  has_le :: bool
  is_extended :: bool

datatype apdu_parse_status =
    APDU_PARSE_OK | APDU_ERR_NULL | APDU_ERR_TOO_SHORT | APDU_ERR_MALFORMED | APDU_ERR_OTHER

text \<open>
  The context of the tag. \<open>ndef_file_const\<close> tells whether \<open>ndef_file\<close> points to an object that
  is defined \<open>const\<close>, which must not be written.
\<close>

record t4t_context =
  selected_file :: Files
  selected_app :: Apps
  cc_file :: bytes
  cc_file_len :: u16
  ndef_file :: bytes
  ndef_file_len :: u16
  ndef_file_const :: bool
  fid_cc :: u16
  fid_ndef :: u16
  ndef_write_allowed :: bool
  chain_buf :: bytes
  chain_offset :: u16
  chain_len :: u16
  negotiated_inf_len :: u16
  chaining_out :: bool
  chaining_in :: bool
  extended :: bool
  resp_len_expexted :: nat

definition reset_chain :: "t4t_context \<Rightarrow> t4t_context" where
  "reset_chain ctx = ctx\<lparr>chain_len := 0, chain_offset := 0, chaining_in := False,
     chaining_out := False\<rparr>"

section \<open>Responses\<close>

definition nfc_put_sw :: "u16 \<Rightarrow> bytes" where
  "nfc_put_sw sw = [ucast (drop_bit 8 sw), ucast (sw AND 0xFF)]"

text \<open>
  The bytes of an array from an offset on; \<open>None\<close> outside the array. A response is built from the
  \<open>n\<close> bytes at the offset \<open>off\<close> of the array \<open>src\<close>, which are only read if they fit into the
  buffer. \<open>out_size - 2U\<close> is computed in \<open>size_t\<close>.
\<close>

definition read_at :: "bytes \<Rightarrow> nat \<Rightarrow> nat \<Rightarrow> bytes option" where
  "read_at buf off n = require (off + n \<le> length buf) (Some (take n (drop off buf)))"

definition nfc_build_response :: "bytes \<Rightarrow> nat \<Rightarrow> nat \<Rightarrow> u16 \<Rightarrow> u32 \<Rightarrow> bytes option" where
  "nfc_build_response src off n sw out_size =
     (if n > unat (out_size - 2) then Some []
      else do { data \<leftarrow> read_at src off n;
                Some (data @ [ucast (drop_bit 8 sw AND 0xFF), ucast (sw AND 0xFF)]) })"

lemma low_byte_mask: "(0xFF :: 'a::len word) = mask 8"
  by (simp add: mask_eq_exp_minus_1)

lemma status_word_bytes [simp]:
  "(ucast (w AND 0xFF) :: u8) = lo8 (w :: u16)" "(ucast (drop_bit 8 w AND 0xFF) :: u8) = hi8 w"
  "(ucast (drop_bit 8 w) :: u8) = hi8 w"
  by (rule bit_word_eqI; auto simp: low_byte_mask lo8_def hi8_def bit_simps)+

section \<open>Parsing\<close>

definition read_16be :: "u8 \<Rightarrow> u8 \<Rightarrow> u16" where
  "read_16be b0 b1 = push_bit 8 (ucast b0) OR ucast b1"

lemma read_16be [simp]: "read_16be = be16"
  by (simp add: fun_eq_iff read_16be_def be16_def)

definition parse_short_apdu :: "bytes \<Rightarrow> nfc_apdu \<Rightarrow> apdu_parse_status + nfc_apdu" where
  "parse_short_apdu raw out =
     (let b1 = unat (raw ! 4) in
      if length raw = 5 then Inr (out\<lparr>le := of_nat b1, has_le := True\<rparr>)
      else if length raw = 5 + b1
      then Inr (out\<lparr>lc := of_nat b1, apdu_data := Some (take b1 (drop 5 raw))\<rparr>)
      else if length raw = 6 + b1
      then Inr (out\<lparr>lc := of_nat b1, apdu_data := Some (take b1 (drop 5 raw)),
             le := ucast (raw ! (5 + b1)), has_le := True\<rparr>)
      else Inl APDU_ERR_MALFORMED)"

definition parse_extended_apdu :: "bytes \<Rightarrow> nfc_apdu \<Rightarrow> apdu_parse_status + nfc_apdu" where
  "parse_extended_apdu raw out0 =
     (if length raw < 7 then Inl APDU_ERR_MALFORMED
      else
        let ext = read_16be (raw ! 5) (raw ! 6); n = unat ext; out = out0\<lparr>is_extended := True\<rparr> in
        if length raw = 7 then Inr (out\<lparr>le := ext, has_le := True\<rparr>)
        else if ext = 0 then Inl APDU_ERR_MALFORMED
        else if length raw = 7 + n then
          if n < length raw - 7 then Inl APDU_ERR_MALFORMED
          else Inr (out\<lparr>lc := ext, apdu_data := Some (take n (drop 7 raw))\<rparr>)
        else if length raw = 9 + n then
          if n < length raw - 9 then Inl APDU_ERR_MALFORMED
          else Inr (out\<lparr>lc := ext, apdu_data := Some (take n (drop 7 raw)),
                 le := read_16be (raw ! (7 + n)) (raw ! (8 + n)), has_le := True\<rparr>)
        else Inl APDU_ERR_MALFORMED)"

definition nfc_parse_apdu :: "bytes option \<Rightarrow> apdu_parse_status + nfc_apdu" where
  "nfc_parse_apdu input =
     (case input of
        None \<Rightarrow> Inl APDU_ERR_MALFORMED
      | Some raw \<Rightarrow>
          if length raw < 4 then Inl APDU_ERR_TOO_SHORT
          else
            let out = \<lparr>cla = raw ! 0, ins = raw ! 1, p1 = raw ! 2, p2 = raw ! 3, lc = 0,
                  apdu_data = None, le = 0, has_le = False, is_extended = False\<rparr> in
            if length raw = 4 then Inr out
            else if raw ! 4 \<noteq> 0 then parse_short_apdu raw out
            else parse_extended_apdu raw out)"

section \<open>The encoding of commands\<close>

text \<open>
  The cases 1 to 4 of ISO 7816-4, short and extended, as far as the parser knows them: a short
  command without data must not ask for 256 bytes.
\<close>

definition wf_apdu :: "nfc_apdu \<Rightarrow> bool" where
  "wf_apdu a \<longleftrightarrow>
     (case apdu_data a of
        None \<Rightarrow> lc a = 0 \<and> (is_extended a \<longrightarrow> has_le a) \<and> (\<not> is_extended a \<and> has_le a \<longrightarrow> le a \<noteq> 0)
      | Some d \<Rightarrow> lc a \<noteq> 0 \<and> length d = unat (lc a) \<and> (\<not> is_extended a \<longrightarrow> lc a < 256))
     \<and> (\<not> has_le a \<longrightarrow> le a = 0) \<and> (\<not> is_extended a \<longrightarrow> le a < 256)"

definition apdu_bytes :: "nfc_apdu \<Rightarrow> bytes" where
  "apdu_bytes a = [cla a, ins a, p1 a, p2 a]
     @ (if is_extended a then [0] else [])
     @ (case apdu_data a of
          None \<Rightarrow> []
        | Some d \<Rightarrow> (if is_extended a then [hi8 (lc a), lo8 (lc a)] else [lo8 (lc a)]) @ d)
     @ (if has_le a then if is_extended a then [hi8 (le a), lo8 (le a)] else [lo8 (le a)] else [])"


section \<open>The parser accepts exactly the encodings\<close>

lemma short_length_byte:
  assumes "(w :: u16) < 256"
  shows "unat (lo8 w) = unat w" "ucast (lo8 w) = w" "lo8 w = 0 \<longleftrightarrow> w = 0"
proof -
  have w: "unat w < 256" using assms by (simp add: word_less_nat_alt)
  then show u: "unat (lo8 w) = unat w" by (simp add: lo8_def unsigned_ucast_eq take_bit_nat_eq_self)
  show "ucast (lo8 w) = w" using u w
    by (simp add: word_unat_eq_iff unsigned_ucast_eq take_bit_nat_eq_self)
  show "lo8 w = 0 \<longleftrightarrow> w = 0" using u by (simp add: word_unat_eq_iff)
qed

lemma parse_encoding_short:
  assumes "wf_apdu a" and "\<not> is_extended a"
  shows "nfc_parse_apdu (Some (apdu_bytes a)) = Inr a"
proof (cases "apdu_data a")
  case None
  then show ?thesis
    using assms by (cases a)
      (auto simp: wf_apdu_def apdu_bytes_def nfc_parse_apdu_def parse_short_apdu_def short_length_byte Let_def)
next
  case (Some d)
  then have "nfc_parse_apdu (Some (apdu_bytes a)) = parse_short_apdu (apdu_bytes a)
      \<lparr>cla = cla a, ins = ins a, p1 = p1 a, p2 = p2 a, lc = 0, apdu_data = None, le = 0,
        has_le = False, is_extended = False\<rparr>"
    using assms by (simp add: nfc_parse_apdu_def apdu_bytes_def wf_apdu_def short_length_byte)
  also have "\<dots> = Inr a"
  proof -
    have d: "length d = unat (lc a)" "lc a < 256" "lc a \<noteq> 0" "le a < 256" "has_le a \<or> le a = 0"
      using assms Some by (auto simp: wf_apdu_def)
    then have "d \<noteq> []" "0 < unat (lc a)" by (auto simp: unat_eq_0 unat_gt_0)
    with d Some assms(2) show ?thesis
      by (cases a) (auto simp: parse_short_apdu_def apdu_bytes_def short_length_byte Let_def nth_append)
  qed
  finally show ?thesis .
qed

lemma parse_encoding_extended:
  assumes "wf_apdu a" and "is_extended a"
  shows "nfc_parse_apdu (Some (apdu_bytes a)) = Inr a"
proof (cases "apdu_data a")
  case None
  then show ?thesis
    using assms by (cases a)
      (auto simp: wf_apdu_def apdu_bytes_def nfc_parse_apdu_def parse_extended_apdu_def Let_def)
next
  case (Some d)
  have d: "length d = unat (lc a)" "lc a \<noteq> 0" "has_le a \<or> le a = 0"
    using assms Some by (auto simp: wf_apdu_def)
  then have "d \<noteq> []" "0 < unat (lc a)" by (auto simp: unat_eq_0 unat_gt_0)
  with d Some assms(2) show ?thesis
    by (cases a) (auto simp: nfc_parse_apdu_def parse_extended_apdu_def apdu_bytes_def Let_def nth_append)
qed

lemma byte_as_length:
  "(of_nat (unat (b :: u8)) :: u16) = ucast b" "(ucast b :: u16) < 256" "unat (ucast b :: u16) = unat b"
  "lo8 (ucast b) = b" "(ucast b :: u16) = 0 \<longleftrightarrow> b = 0"
proof -
  have b: "unat b < 256" using unsigned_less [of b] by simp
  show u: "unat (ucast b :: u16) = unat b"
    using b by (simp add: unsigned_ucast_eq take_bit_nat_eq_self)
  show "(of_nat (unat b) :: u16) = ucast b" by simp
  show "(ucast b :: u16) < 256" using b u by (simp add: word_less_nat_alt)
  show "lo8 (ucast b) = b" by (rule bit_word_eqI) (simp add: lo8_def bit_simps)
  show "(ucast b :: u16) = 0 \<longleftrightarrow> b = 0" using u by (simp add: word_unat_eq_iff)
qed

lemma list_of_four: "4 \<le> length raw \<Longrightarrow> \<exists>a b c d r. raw = a # b # c # d # r"
  by (metis (no_types) Suc_le_length_iff numeral_eq_Suc pred_numeral_simps(2,3) semiring_norm(26,27))

lemma list_last_bytes:
  "length xs = Suc n \<Longrightarrow> take n xs @ [xs ! n] = xs"
  "length xs = Suc (Suc n) \<Longrightarrow> take n xs @ [xs ! n, xs ! Suc n] = xs"
  by (simp_all add: take_Suc_conv_app_nth [symmetric])
    (metis (no_types, lifting) Cons_nth_drop_Suc append_take_drop_id drop_all lessI less_SucI order_refl)

lemma parse_OK_encoding:
  assumes "nfc_parse_apdu (Some raw) = Inr a"
  shows "wf_apdu a \<and> raw = apdu_bytes a"
proof -
  have "4 \<le> length raw" using assms by (auto simp: nfc_parse_apdu_def split: if_splits)
  then obtain c i q1 q2 r where raw: "raw = c # i # q1 # q2 # r" using list_of_four by blast
  show ?thesis
  proof (cases r)
    case Nil
    then show ?thesis using assms raw by (auto simp: nfc_parse_apdu_def wf_apdu_def apdu_bytes_def)
  next
    case (Cons b rest)
    show ?thesis
    proof (cases "b = 0")
      case False
      with Cons raw assms have p: "parse_short_apdu raw \<lparr>cla = c, ins = i, p1 = q1, p2 = q2, lc = 0,
          apdu_data = None, le = 0, has_le = False, is_extended = False\<rparr> = Inr a"
        by (simp add: nfc_parse_apdu_def)
      from p False show ?thesis
        by (auto simp: parse_short_apdu_def Let_def wf_apdu_def apdu_bytes_def byte_as_length raw Cons
            list_last_bytes split: if_splits)
    next
      case True
      with Cons raw assms have p: "parse_extended_apdu raw \<lparr>cla = c, ins = i, p1 = q1, p2 = q2, lc = 0,
          apdu_data = None, le = 0, has_le = False, is_extended = False\<rparr> = Inr a"
        by (simp add: nfc_parse_apdu_def)
      then have "2 \<le> length rest" using raw Cons by (auto simp: parse_extended_apdu_def split: if_splits)
      then obtain h l d where rest: "rest = h # l # d" by (metis Suc_le_length_iff numeral_2_eq_2)
      from p show ?thesis
        by (auto simp: parse_extended_apdu_def Let_def wf_apdu_def apdu_bytes_def raw Cons True rest
            list_last_bytes split: if_splits)
    qed
  qed
qed

text \<open>
  A short command without data that asks for 256 bytes (Le = 00), as readers send GET RESPONSE and
  READ BINARY, is refused.
\<close>

lemma short_le_zero_refused: "nfc_parse_apdu (Some [c, i, q1, q2, 0]) = Inl APDU_ERR_MALFORMED"
  by (simp add: nfc_parse_apdu_def parse_extended_apdu_def)

section \<open>Property\<close>


end
