(* ===== verification/Ctap_Nfc.thy ===== *)
theory Ctap_Nfc
  imports Nfc_Apdu
begin

text \<open>
  The two applets of the tag: the NDEF applet (\<open>nfc/Src/ndef.c\<close>) and the CTAP applet with the
  chaining of requests and responses (\<open>nfc/Src/ctap_nfc.c\<close>), and the timer of the user presence.
  A handler returns the response and the new context; \<open>None\<close> is an access outside an array or a
  write to an object that is defined \<open>const\<close>.

  The processing of a CTAP request is the parameter \<open>ctap\<close>: a command and its data on a state of
  the authenticator give the status, the data of the response and the new state.
\<close>

type_synonym 'c ctap_service = "'c \<Rightarrow> u8 \<Rightarrow> bytes \<Rightarrow> (u8 \<times> bytes \<times> 'c) option"

section \<open>The NDEF applet\<close>

definition ndef_handle_select :: "t4t_context \<Rightarrow> nfc_apdu \<Rightarrow> (bytes \<times> t4t_context) option" where
  "ndef_handle_select ctx apdu =
     (case apdu_data apdu of
        None \<Rightarrow> Some (nfc_put_sw NFC_SW_WRONG_LENGTH, ctx)
      | Some d \<Rightarrow>
          if p1 apdu = 0x00 \<and> p2 apdu = 0x0C then
            if selected_app ctx < APP_NDEF \<or> lc apdu \<noteq> 2
            then Some (nfc_put_sw NFC_SW_FILE_NOT_FOUND, ctx)
            else require (2 \<le> length d) (
              let fid = read_16be (d ! 0) (d ! 1) in
              if fid = fid_cc ctx then Some (nfc_put_sw NFC_SW_OK, ctx\<lparr>selected_file := FILE_CC\<rparr>)
              else if fid = fid_ndef ctx
              then Some (nfc_put_sw NFC_SW_OK, ctx\<lparr>selected_file := FILE_NDEF\<rparr>)
              else Some (nfc_put_sw NFC_SW_FILE_NOT_FOUND, ctx\<lparr>selected_file := FILE_NONE\<rparr>))
          else Some (nfc_put_sw NFC_SW_FUNC_NOT_SUPPORTED, ctx))"

definition ndef_handle_read :: "t4t_context \<Rightarrow> nfc_apdu \<Rightarrow> u16 \<Rightarrow> bytes option" where
  "ndef_handle_read ctx apdu rsp_len =
     (let offset = read_16be (p1 apdu) (p2 apdu) in
      if rsp_len < 2 then Some (nfc_put_sw NFC_SW_WRONG_LENGTH)
      else case (case selected_file ctx of
          FILE_CC \<Rightarrow> Some (cc_file ctx, cc_file_len ctx)
        | FILE_NDEF \<Rightarrow> Some (ndef_file ctx, ndef_file_len ctx)
        | FILE_NONE \<Rightarrow> None) of
        None \<Rightarrow> Some (nfc_put_sw NFC_SW_COND_NOT_SATISFIED)
      | Some (src, src_len) \<Rightarrow>
          if offset > src_len then Some (nfc_put_sw NFC_SW_WRONG_PARAMS)
          else
            let to_read = (if unat offset + unat (le apdu) > unat src_len then src_len - offset
                           else le apdu) in
            if rsp_len < to_read + 2 then Some (nfc_put_sw NFC_SW_NOT_ENOUGH_MEMORY)
            else nfc_build_response src (unat offset) (unat to_read) NFC_SW_OK (ucast rsp_len))"

definition ndef_handle_update :: "t4t_context \<Rightarrow> nfc_apdu \<Rightarrow> (bytes \<times> t4t_context) option" where
  "ndef_handle_update ctx apdu =
     (let offset = read_16be (p1 apdu) (p2 apdu) in
      if \<not> ndef_write_allowed ctx then Some (nfc_put_sw NFC_SW_SECURITY_STATUS_NOT_SAT, ctx)
      else case apdu_data apdu of
        None \<Rightarrow> Some (nfc_put_sw NFC_SW_WRONG_LENGTH, ctx)
      | Some d \<Rightarrow>
          if lc apdu = 0 then Some (nfc_put_sw NFC_SW_WRONG_LENGTH, ctx)
          else if selected_file ctx \<noteq> FILE_NDEF then Some (nfc_put_sw NFC_SW_COND_NOT_SATISFIED, ctx)
          else if unat offset + unat (lc apdu) > unat (ndef_file_len ctx)
          then Some (nfc_put_sw NFC_SW_WRONG_PARAMS, ctx)
          else require (\<not> ndef_file_const ctx) (do {
            file \<leftarrow> memcpy_at (ndef_file ctx) (unat offset) d;
            Some (nfc_put_sw NFC_SW_OK, ctx\<lparr>ndef_file := file\<rparr>) }))"

section \<open>A CTAP request\<close>

text \<open>
  \<open>fido_handle_ctap\<close>. The response buffer has 7609 bytes, the first for the status; a response
  behind its end would be an access outside the array. \<open>remaining_byte\<close> is the second byte of
  the status word while a response is chained.
\<close>

abbreviation (input) CTAPHID_MAX_PAYLOAD_LENGTH :: nat where "CTAPHID_MAX_PAYLOAD_LENGTH \<equiv> 7609"

definition remaining_byte :: "u16 \<Rightarrow> u8" where
  "remaining_byte len = (if len > 0xFF then 0xFF else ucast len)"

definition fido_handle_ctap :: "'c ctap_service \<Rightarrow> t4t_context \<Rightarrow> 'c \<Rightarrow> bytes \<Rightarrow> u16
    \<Rightarrow> (bytes \<times> t4t_context \<times> 'c) option" where
  "fido_handle_ctap ctap ctx c data_in tx_buf_len =
     (if data_in = [] then Some (nfc_put_sw NFC_SW_WRONG_LENGTH, ctx, c)
      else do {
        (status, payload, c1) \<leftarrow> ctap c (hd data_in) (tl data_in);
        let response = status # payload; full_len = length response;
            answer = (\<lambda>src n sw ctx1. map_option (\<lambda>r. (r, ctx1, c1))
              (nfc_build_response src 0 n sw (ucast tx_buf_len))) in
        require (full_len \<le> CTAPHID_MAX_PAYLOAD_LENGTH) (
        if extended ctx then
          if full_len > resp_len_expexted ctx
          then Some (nfc_put_sw NFC_SW_WRONG_LENGTH, ctx, c1)
          else answer response full_len NFC_SW_OK (ctx\<lparr>extended := False, chain_len := 0\<rparr>)
        else if full_len \<le> resp_len_expexted ctx
        then answer response full_len NFC_SW_OK (ctx\<lparr>chain_len := 0, chain_offset := 0\<rparr>)
        else if full_len > length (chain_buf ctx)
        then Some (nfc_put_sw NFC_SW_WRONG_LENGTH, ctx\<lparr>chain_len := 0\<rparr>, c1)
        else
          let first_chunk = (of_nat (if full_len \<le> resp_len_expexted ctx then full_len
                                     else resp_len_expexted ctx) :: u16) in
          do { buf \<leftarrow> memcpy_at (chain_buf ctx) 0 response;
               let ctx1 = ctx\<lparr>chain_buf := buf, chain_offset := first_chunk,
                     chain_len := of_nat (full_len - unat first_chunk), chaining_out := True\<rparr>;
               answer buf (unat first_chunk) (NFC_SW_CHAIN OR ucast (remaining_byte (chain_len ctx1))) ctx1 }) })"

text \<open>GET RESPONSE: the next part of a chained response.\<close>

definition fido_handle_ctap_chain_out :: "t4t_context \<Rightarrow> nfc_apdu \<Rightarrow> u16 \<Rightarrow> (bytes \<times> t4t_context) option"
  where
  "fido_handle_ctap_chain_out ctx apdu tx_buf_len =
     (if ins apdu \<noteq> NFC_INS_GET_RESPONSE \<or> p1 apdu \<noteq> 0x00 \<or> p2 apdu \<noteq> 0x00 \<or> \<not> chaining_out ctx
      then Some (nfc_put_sw NFC_SW_WRONG_PARAMS, ctx)
      else if chain_len ctx = 0 then Some (nfc_put_sw NFC_SW_COND_NOT_SATISFIED, ctx)
      else
        let wanted = (if le apdu = 0 then 256 else le apdu);
            to_send = (if chain_len ctx \<le> wanted then chain_len ctx else wanted);
            build = (\<lambda>sw ctx1. map_option (\<lambda>r. (r, ctx1)) (nfc_build_response (chain_buf ctx)
              (unat (chain_offset ctx)) (unat to_send) sw (ucast tx_buf_len))) in
        if chain_len ctx - to_send = 0 then build NFC_SW_OK (reset_chain ctx)
        else
          let ctx1 = ctx\<lparr>chain_offset := chain_offset ctx + to_send,
                chain_len := chain_len ctx - to_send\<rparr>;
              remaining = (if chain_len ctx1 \<ge> 256 then 0xFF else ucast (chain_len ctx1)) :: u8 in
          build (NFC_SW_CHAIN OR ucast remaining) ctx1)"

text \<open>
  A request in several commands. Copying from \<open>NULL\<close> happens with length 0 only.
\<close>

definition data_bytes :: "nfc_apdu \<Rightarrow> bytes" where
  "data_bytes apdu = (case apdu_data apdu of None \<Rightarrow> [] | Some d \<Rightarrow> d)"

definition fido_handle_ctap_chain_in :: "'c ctap_service \<Rightarrow> t4t_context \<Rightarrow> 'c \<Rightarrow> nfc_apdu \<Rightarrow> u16
    \<Rightarrow> (bytes \<times> t4t_context \<times> 'c) option" where
  "fido_handle_ctap_chain_in ctap ctx c apdu tx_buf_len =
     (if cla apdu = NFC_CLA_CTAP_CHAIN then
        if unat (lc apdu) > length (chain_buf ctx)
        then Some (nfc_put_sw NFC_SW_WRONG_LENGTH, reset_chain ctx, c)
        else do {
          buf \<leftarrow> memcpy_at (chain_buf ctx) 0 (data_bytes apdu);
          Some (nfc_put_sw NFC_SW_OK, ctx\<lparr>chain_buf := buf, chain_len := lc apdu,
                  chain_offset := 0, chaining_in := True\<rparr>, c) }
      else if cla apdu \<noteq> NFC_CLA_CTAP then Some (nfc_put_sw NFC_SW_NOT_FOUND, ctx, c)
      else if unat (chain_len ctx) + unat (lc apdu) > length (chain_buf ctx)
      then Some (nfc_put_sw NFC_SW_WRONG_LENGTH, reset_chain ctx, c)
      else do {
        buf \<leftarrow> memcpy_at (chain_buf ctx) (unat (chain_len ctx)) (data_bytes apdu);
        let ctx1 = ctx\<lparr>chain_buf := buf, chain_len := chain_len ctx + lc apdu\<rparr>;
        if \<not> has_le apdu then Some (nfc_put_sw NFC_SW_OK, ctx1, c)
        else do {
          let ctx2 = ctx1\<lparr>chaining_in := False,
                resp_len_expexted := (if le apdu = 0 then 256 else unat (le apdu))\<rparr>;
          request \<leftarrow> read_at (chain_buf ctx2) 0 (unat (chain_len ctx2));
          fido_handle_ctap ctap ctx2 c request tx_buf_len } })"

definition fido_handle_ctap_request_extended :: "'c ctap_service \<Rightarrow> t4t_context \<Rightarrow> 'c \<Rightarrow> nfc_apdu
    \<Rightarrow> u16 \<Rightarrow> (bytes \<times> t4t_context \<times> 'c) option" where
  "fido_handle_ctap_request_extended ctap ctx c apdu tx_buf_len =
     (case apdu_data apdu of
        None \<Rightarrow> Some (nfc_put_sw NFC_SW_WRONG_DATA, ctx, c)
      | Some d \<Rightarrow>
          if lc apdu = 0 then Some (nfc_put_sw NFC_SW_WRONG_DATA, ctx, c)
          else
            let ctx1 = ctx\<lparr>resp_len_expexted := (if le apdu = 0 \<or> \<not> has_le apdu then 65536
                  else unat (le apdu)), extended := True\<rparr>;
                data_in_len = (if lc apdu \<noteq> 0 then unat (lc apdu) else 65536) in
            do { data_in \<leftarrow> read_at d 0 data_in_len;
                 fido_handle_ctap ctap ctx1 c data_in tx_buf_len })"

definition fido_handle_ctap_request_short :: "'c ctap_service \<Rightarrow> t4t_context \<Rightarrow> 'c \<Rightarrow> nfc_apdu
    \<Rightarrow> u16 \<Rightarrow> (bytes \<times> t4t_context \<times> 'c) option" where
  "fido_handle_ctap_request_short ctap ctx c apdu tx_buf_len =
     (let expected = (if le apdu = 0 \<or> \<not> is_extended apdu then 256 else unat (le apdu)) in
      if chaining_out ctx
      then fido_handle_ctap_chain_in ctap (ctx\<lparr>resp_len_expexted := expected\<rparr>) c apdu tx_buf_len
      else case apdu_data apdu of
        None \<Rightarrow> Some (nfc_put_sw NFC_SW_WRONG_DATA, ctx, c)
      | Some d \<Rightarrow>
          if lc apdu = 0 then Some (nfc_put_sw NFC_SW_WRONG_DATA, ctx, c)
          else
            let ctx1 = ctx\<lparr>resp_len_expexted := expected, extended := False\<rparr>;
                data_in_len = (if lc apdu \<noteq> 0 then unat (lc apdu) else 65536) in
            do { data_in \<leftarrow> read_at d 0 data_in_len;
                 fido_handle_ctap ctap ctx1 c data_in tx_buf_len })"

definition fido_handle_ctap_deselect :: "t4t_context \<Rightarrow> nfc_apdu \<Rightarrow> bytes \<times> t4t_context" where
  "fido_handle_ctap_deselect ctx apdu =
     (if cla apdu \<noteq> NFC_CLA_CTAP \<or> ins apdu \<noteq> NFC_INS_DESELECT
      then (nfc_put_sw NFC_SW_NOT_FOUND, ctx)
      else (nfc_put_sw NFC_SW_OK, reset_chain (ctx\<lparr>selected_app := APP_NONE\<rparr>)))"

section \<open>The timer of the user presence\<close>

text \<open>
  The timer, with the two members of \<open>app_ctap\<close> it controls. It never is \<open>NULL\<close>.
\<close>

record nfc_user_presence_timer =
  threshold :: u32
  begin_timestamp :: u32

record nfc_presence =
  user_presence_timer :: nfc_user_presence_timer
  nfc_user_present :: bool
  nfc_ctap_in_use :: bool

definition ctap_nfc_start_user_presence_timer :: "u32 \<Rightarrow> nfc_presence \<Rightarrow> nfc_presence" where
  "ctap_nfc_start_user_presence_timer now p = p\<lparr>
     user_presence_timer := \<lparr>threshold = 12 * 1000, begin_timestamp = now\<rparr>,
     nfc_user_present := True, nfc_ctap_in_use := True\<rparr>"

definition ctap_nfc_is_user_presence_timer_expired :: "u32 \<Rightarrow> nfc_presence \<Rightarrow> bool" where
  "ctap_nfc_is_user_presence_timer_expired now p =
     (if \<not> nfc_ctap_in_use p then False
      else now - begin_timestamp (user_presence_timer p) \<ge> threshold (user_presence_timer p))"

definition ctap_nfc_stop_user_presence_timer :: "nfc_presence \<Rightarrow> nfc_presence" where
  "ctap_nfc_stop_user_presence_timer p = p\<lparr>nfc_user_present := False, nfc_ctap_in_use := False\<rparr>"

end
