(* ===== verification/Nfc_Task.thy ===== *)
theory Nfc_Task
  imports Ctap_Nfc
begin

text \<open>
  The card emulation (\<open>nfc/Src/nfc.c\<close>): the selection of the applets and the dispatch of commands,
  and the state machine of the task on top of the RFAL library.
\<close>

section \<open>The library\<close>

text \<open>
  The operations of RFAL that are used, on a state of the library and the radio. Starting an
  exchange returns also whether the addresses of the receive buffer and of its length were
  assigned; \<open>received\<close> is what the buffer holds. Logging, and the WTX timer it keeps for the
  measurements, are not modelled.
\<close>

type_synonym ReturnCode = u16

abbreviation (input) RFAL_ERR_NONE :: ReturnCode where "RFAL_ERR_NONE \<equiv> 0"
abbreviation (input) RFAL_ERR_BUSY :: ReturnCode where "RFAL_ERR_BUSY \<equiv> 2"
abbreviation (input) RFAL_ERR_TIMEOUT :: ReturnCode where "RFAL_ERR_TIMEOUT \<equiv> 4"
abbreviation (input) RFAL_ERR_PROTO :: ReturnCode where "RFAL_ERR_PROTO \<equiv> 11"
abbreviation (input) RFAL_ERR_SLEEP_REQ :: ReturnCode where "RFAL_ERR_SLEEP_REQ \<equiv> 32"

type_synonym rfalNfcState = u8

abbreviation (input) RFAL_NFC_STATE_START_DISCOVERY :: rfalNfcState
  where "RFAL_NFC_STATE_START_DISCOVERY \<equiv> 2"
abbreviation (input) RFAL_NFC_STATE_LISTEN_SLEEP :: rfalNfcState
  where "RFAL_NFC_STATE_LISTEN_SLEEP \<equiv> 23"
abbreviation (input) RFAL_NFC_STATE_ACTIVATED :: rfalNfcState where "RFAL_NFC_STATE_ACTIVATED \<equiv> 30"
abbreviation (input) RFAL_NFC_STATE_DATAEXCHANGE :: rfalNfcState
  where "RFAL_NFC_STATE_DATAEXCHANGE \<equiv> 31"
abbreviation (input) RFAL_NFC_STATE_DATAEXCHANGE_DONE :: rfalNfcState
  where "RFAL_NFC_STATE_DATAEXCHANGE_DONE \<equiv> 33"
abbreviation (input) RFAL_NFC_STATE_DEACTIVATION :: rfalNfcState
  where "RFAL_NFC_STATE_DEACTIVATION \<equiv> 34"

text \<open>The parameters of the discovery that the code sets, the others being left at their defaults.\<close>

record rfalNfcDiscoverParam =
  devLimit :: u8
  totalDuration :: u16
  lm_SENS_RES :: bytes
  lm_nfcid :: bytes
  lm_nfcidLen :: nat
  lm_SEL_RES :: u8
  isoDepFS :: nat
  nfcDepLR :: u8
  techs2Find :: u16

record 'r rfal =
  rfalNfcInitialize :: "'r \<Rightarrow> ReturnCode \<times> 'r"
  rfalNfcDiscover :: "'r \<Rightarrow> rfalNfcDiscoverParam \<Rightarrow> ReturnCode \<times> 'r"
  rfalNfcWorker :: "'r \<Rightarrow> 'r"
  rfalNfcGetState :: "'r \<Rightarrow> rfalNfcState"
  rfalIsoDepGetMaxInfLen :: "'r \<Rightarrow> u16"
  rfalNfcDataExchangeStart :: "'r \<Rightarrow> bytes \<Rightarrow> ReturnCode \<times> bool \<times> 'r"
  rfalNfcDataExchangeGetStatus :: "'r \<Rightarrow> ReturnCode \<times> 'r"
  rfalNfcDeactivate :: "'r \<Rightarrow> 'r"
  received :: "'r \<Rightarrow> bytes"

section \<open>State\<close>

datatype nfc_state = NFC_NOTINIT | NFC_START_DISCOVERY | NFC_DISCOVERY | NFC_CE_ACTIVE

datatype ce_state =
    CE_STATE_IDLE | CE_STATE_WAIT_RX | CE_STATE_PROCESS_RX | CE_STATE_WAIT_TX | CE_STATE_ERROR_RECOVERY

text \<open>
  The runtime state with the state of the presence timer, of the authenticator and of the library.
  \<open>rx_assigned\<close> tells that the pointers \<open>rx_data\<close> and \<open>rcv_len\<close> are not \<open>NULL\<close> (they are only
  assigned together). \<open>tx_buf\<close> holds the response of \<open>tx_len\<close> bytes.
\<close>

record ('c, 'r) nfc_system =
  main_state :: nfc_state
  ce_machine :: ce_state
  ce_ctx :: t4t_context
  rx_assigned :: bool
  tx_buf :: bytes
  tx_len :: u16
  presence_of :: nfc_presence
  authenticator :: 'c
  rfal_state :: 'r

definition CC_FILE :: bytes where
  "CC_FILE = [0x00, 0x0F, 0x20, 0x00, 0xFF, 0x00, 0xFF, 0x04, 0x06, 0x00, 0x01, 0x08, 0x00, 0x00, 0x00]"

definition NDEF_FILE :: bytes where
  "NDEF_FILE = [0x00, 0x10, 0xD1, 0x01, 0x0C, 0x55, 0x01, 0x6C, 0x69, 0x6F, 0x6E, 0x6B, 0x65, 0x79,
     0x2E, 0x64, 0x65, 0x76]"

definition FIDO_AID :: bytes where
  "FIDO_AID = [0xA0, 0x00, 0x00, 0x06, 0x47, 0x2F, 0x00, 0x01]"

definition FIDO_VERSION :: bytes where
  "FIDO_VERSION = [0x46, 0x49, 0x44, 0x4F, 0x5F, 0x32, 0x5F, 0x30]"

definition NDEF_AID :: bytes where
  "NDEF_AID = [0xD2, 0x76, 0x00, 0x00, 0x85, 0x01, 0x01]"

text \<open>A new session. The chaining state is not touched.\<close>

definition nfc_init_session :: "('c, 'r) nfc_system \<Rightarrow> ('c, 'r) nfc_system" where
  "nfc_init_session w = w\<lparr>
     ce_ctx := (ce_ctx w)\<lparr>selected_file := FILE_NONE, selected_app := APP_NONE, cc_file := CC_FILE,
       cc_file_len := of_nat (length CC_FILE), ndef_file := NDEF_FILE,
       ndef_file_len := of_nat (length NDEF_FILE), ndef_file_const := True, fid_cc := 0xE103,
       fid_ndef := 0x0001, ndef_write_allowed := True\<rparr>,
     ce_machine := CE_STATE_IDLE, rx_assigned := False, tx_len := 0\<rparr>"

text \<open>Card emulation of a tag with ISO-DEP and a 4-byte identifier.\<close>

definition nfc_discover_params :: rfalNfcDiscoverParam where
  "nfc_discover_params = \<lparr>devLimit = 1, totalDuration = 60 * 1000, lm_SENS_RES = [0x44, 0x00],
     lm_nfcid = [0x5F, 0x4C, 0x4E, 0x4B], lm_nfcidLen = 4, lm_SEL_RES = 0x20, isoDepFS = 8,
     nfcDepLR = 3, techs2Find = 0x1000\<rparr>"

definition nfc_init_params :: "'r rfal \<Rightarrow> 'r \<Rightarrow> bool \<times> 'r" where
  "nfc_init_params rf r =
     (let (err, r1) = rfalNfcInitialize rf r in
      if err = RFAL_ERR_NONE then
        let (err2, r2) = rfalNfcDiscover rf r1 nfc_discover_params in (err2 = RFAL_ERR_NONE, r2)
      else (False, r1))"

definition nfc_init :: "'r rfal \<Rightarrow> ('c, 'r) nfc_system \<Rightarrow> ('c, 'r) nfc_system" where
  "nfc_init rf w =
     (let (initialised, r) = nfc_init_params rf (rfal_state w); w1 = w\<lparr>rfal_state := r\<rparr> in
      if \<not> initialised then w1 else nfc_init_session w1)"

section \<open>Commands\<close>

text \<open>A response with its length.\<close>

definition with_length :: "bytes \<Rightarrow> u16 \<times> bytes" where
  "with_length r = (of_nat (length r), r)"

definition nfc_select_applet :: "u32 \<Rightarrow> ('c, 'r) nfc_system \<Rightarrow> nfc_apdu \<Rightarrow> u16
    \<Rightarrow> (bytes \<times> ('c, 'r) nfc_system) option" where
  "nfc_select_applet now w apdu tx_buf_len =
     (case apdu_data apdu of
        None \<Rightarrow> Some (nfc_put_sw NFC_SW_WRONG_LENGTH, w)
      | Some d \<Rightarrow>
          let ctx = ce_ctx w in
          if lc apdu = 0 then Some (nfc_put_sw NFC_SW_WRONG_LENGTH, w)
          else if unat (lc apdu) = length FIDO_AID \<and> take (length FIDO_AID) d = FIDO_AID then
            map_option (\<lambda>r. (r, w\<lparr>
                ce_ctx := reset_chain (ctx\<lparr>selected_app := APP_FIDO, selected_file := FILE_NONE\<rparr>),
                presence_of := ctap_nfc_start_user_presence_timer now (presence_of w)\<rparr>))
              (nfc_build_response FIDO_VERSION 0 (length FIDO_VERSION) NFC_SW_OK (ucast tx_buf_len))
          else if unat (lc apdu) = length NDEF_AID \<and> take (length NDEF_AID) d = NDEF_AID then
            Some (nfc_put_sw NFC_SW_OK, w\<lparr>
              ce_ctx := reset_chain (ctx\<lparr>selected_app := APP_NDEF, selected_file := FILE_NONE\<rparr>)\<rparr>)
          else Some (nfc_put_sw NFC_SW_FILE_NOT_FOUND, w\<lparr>
              ce_ctx := ctx\<lparr>selected_app := APP_NONE, selected_file := FILE_NONE\<rparr>\<rparr>))"

definition nfc_fido_command :: "'c ctap_service \<Rightarrow> t4t_context \<Rightarrow> 'c \<Rightarrow> nfc_apdu \<Rightarrow> u16
    \<Rightarrow> (bytes \<times> t4t_context \<times> 'c) option" where
  "nfc_fido_command ctap ctx c apdu tx_buf_len =
     (if cla apdu = NFC_CLA_CTAP_CHAIN \<and> ins apdu = NFC_INS_CTAP \<or> chaining_in ctx
      then fido_handle_ctap_chain_in ctap ctx c apdu tx_buf_len
      else if cla apdu = NFC_CLA_CTAP then
        if ins apdu = NFC_INS_DESELECT
        then let (r, ctx1) = fido_handle_ctap_deselect ctx apdu in Some (r, ctx1, c)
        else if ins apdu = NFC_INS_CTAP then
          if is_extended apdu then fido_handle_ctap_request_extended ctap ctx c apdu tx_buf_len
          else fido_handle_ctap_request_short ctap ctx c apdu tx_buf_len
        else if ins apdu = NFC_INS_GET_RESPONSE
        then map_option (\<lambda>(r, ctx1). (r, ctx1, c)) (fido_handle_ctap_chain_out ctx apdu tx_buf_len)
        else Some (nfc_put_sw NFC_SW_INS_NOT_SUPPORTED, ctx, c)
      else Some (nfc_put_sw NFC_SW_CLA_NOT_SUPPORTED, ctx, c))"

definition nfc_ndef_command :: "t4t_context \<Rightarrow> nfc_apdu \<Rightarrow> u16 \<Rightarrow> (bytes \<times> t4t_context) option" where
  "nfc_ndef_command ctx apdu tx_buf_len =
     (if ins apdu = NFC_INS_SELECT then ndef_handle_select ctx apdu
      else if ins apdu = T4T_INS_READ
      then map_option (\<lambda>r. (r, ctx)) (ndef_handle_read ctx apdu tx_buf_len)
      else if ins apdu = T4T_INS_UPDATE then ndef_handle_update ctx apdu
      else Some (nfc_put_sw NFC_SW_INS_NOT_SUPPORTED, ctx))"

definition nfc_parse_and_respond :: "'c ctap_service \<Rightarrow> u32 \<Rightarrow> ('c, 'r) nfc_system \<Rightarrow> bytes option
    \<Rightarrow> u16 \<Rightarrow> ((u16 \<times> bytes) \<times> ('c, 'r) nfc_system) option" where
  "nfc_parse_and_respond ctap now w rx_data tx_buf_len =
     (if tx_buf_len < 2 then Some ((1, []), w)
      else case nfc_parse_apdu rx_data of
        Inl err \<Rightarrow> Some (with_length (nfc_put_sw NFC_SW_WRONG_LENGTH), w)
      | Inr apdu \<Rightarrow> do {
          (r, w1) \<leftarrow>
            (if cla apdu = NFC_CLA_ISO \<and> ins apdu = NFC_INS_SELECT \<and> p1 apdu = 0x04 \<and> p2 apdu = 0x00
             then nfc_select_applet now w apdu tx_buf_len
             else case selected_app (ce_ctx w) of
               APP_FIDO \<Rightarrow>
                 map_option (\<lambda>(r, ctx1, c1). (r, w\<lparr>ce_ctx := ctx1, authenticator := c1\<rparr>))
                   (nfc_fido_command ctap (ce_ctx w) (authenticator w) apdu tx_buf_len)
             | APP_NDEF \<Rightarrow>
                 map_option (\<lambda>(r, ctx1). (r, w\<lparr>ce_ctx := ctx1\<rparr>))
                   (nfc_ndef_command (ce_ctx w) apdu tx_buf_len)
             | APP_NONE \<Rightarrow> Some (nfc_put_sw NFC_SW_COND_NOT_SATISFIED, w));
          Some (with_length r, w1) })"

section \<open>The exchange of commands and responses\<close>

definition nfc_start_rx :: "'r rfal \<Rightarrow> ('c, 'r) nfc_system \<Rightarrow> bool \<times> ('c, 'r) nfc_system" where
  "nfc_start_rx rf w =
     (let (err, assigned, r) = rfalNfcDataExchangeStart rf (rfal_state w) [];
          w1 = w\<lparr>rx_assigned := assigned, rfal_state := r\<rparr> in
      if err \<noteq> RFAL_ERR_NONE then (False, w1\<lparr>ce_machine := CE_STATE_ERROR_RECOVERY\<rparr>)
      else (True, w1\<lparr>ce_machine := CE_STATE_WAIT_RX\<rparr>))"

definition nfc_start_tx :: "'r rfal \<Rightarrow> ('c, 'r) nfc_system \<Rightarrow> bytes \<Rightarrow> bool \<times> ('c, 'r) nfc_system" where
  "nfc_start_tx rf w tx_data =
     (let (err, assigned, r) = rfalNfcDataExchangeStart rf (rfal_state w) tx_data;
          w1 = w\<lparr>rx_assigned := rx_assigned w \<or> assigned, rfal_state := r\<rparr> in
      if err \<noteq> RFAL_ERR_NONE then (False, w1\<lparr>ce_machine := CE_STATE_ERROR_RECOVERY\<rparr>)
      else (True, w1\<lparr>ce_machine := CE_STATE_WAIT_TX\<rparr>))"

text \<open>The error code is passed in an enumeration type, which holds the codes that occur.\<close>

definition nfc_enter_error_recovery :: "'r rfal \<Rightarrow> ReturnCode \<Rightarrow> ('c, 'r) nfc_system
    \<Rightarrow> ('c, 'r) nfc_system" where
  "nfc_enter_error_recovery rf err w =
     (let w1 = w\<lparr>ce_machine := CE_STATE_ERROR_RECOVERY\<rparr> in
      if err = RFAL_ERR_TIMEOUT \<or> err = RFAL_ERR_PROTO then snd (nfc_start_rx rf w1)
      else w1\<lparr>rfal_state := rfalNfcDeactivate rf (rfal_state w1)\<rparr>)"

definition nfc_poll_transmission_status :: "'r rfal \<Rightarrow> ('c, 'r) nfc_system
    \<Rightarrow> bool \<times> ('c, 'r) nfc_system" where
  "nfc_poll_transmission_status rf w =
     (let (err, r) = rfalNfcDataExchangeGetStatus rf (rfal_state w); w1 = w\<lparr>rfal_state := r\<rparr> in
      if err = RFAL_ERR_BUSY then (False, w1)
      else if err = RFAL_ERR_SLEEP_REQ then (False, w1\<lparr>ce_machine := CE_STATE_IDLE\<rparr>)
      else if err \<noteq> RFAL_ERR_NONE then (False, nfc_enter_error_recovery rf err w1)
      else (True, w1))"

definition nfc_handle_wait_rx :: "'r rfal \<Rightarrow> ('c, 'r) nfc_system \<Rightarrow> ('c, 'r) nfc_system" where
  "nfc_handle_wait_rx rf w =
     (let (finished, w1) = nfc_poll_transmission_status rf w;
          rcv_len = length (received rf (rfal_state w1)) in
      if \<not> finished then w1
      else if \<not> rx_assigned w1 then nfc_enter_error_recovery rf 0 w1
      else if rcv_len = 0 then w1\<lparr>ce_machine := CE_STATE_IDLE\<rparr>
      else if rcv_len > TX_BUF_SIZE then nfc_enter_error_recovery rf 0 w1
      else w1\<lparr>ce_machine := CE_STATE_PROCESS_RX\<rparr>)"

definition nfc_handle_process_rx :: "'r rfal \<Rightarrow> 'c ctap_service \<Rightarrow> u32 \<Rightarrow> ('c, 'r) nfc_system
    \<Rightarrow> ('c, 'r) nfc_system option" where
  "nfc_handle_process_rx rf ctap now w =
     require (rx_assigned w) (do {
       ((len, response), w1) \<leftarrow> nfc_parse_and_respond ctap now w
          (Some (received rf (rfal_state w))) (of_nat TX_BUF_SIZE);
       let w2 = w1\<lparr>tx_buf := response, tx_len := len\<rparr>;
       if len = 1 \<or> len = 0 then Some (nfc_enter_error_recovery rf 0 w2)
       else
         let (started, w3) = nfc_start_tx rf w2 response in
         if \<not> started then
           let w4 = nfc_enter_error_recovery rf 69 w3 in
           Some (w4\<lparr>rfal_state := rfalNfcDeactivate rf (rfal_state w4)\<rparr>)
         else Some w3 })"

definition nfc_handle_wait_tx :: "'r rfal \<Rightarrow> ('c, 'r) nfc_system \<Rightarrow> ('c, 'r) nfc_system" where
  "nfc_handle_wait_tx rf w =
     (let (finished, w1) = nfc_poll_transmission_status rf w in
      if \<not> finished then w1
      else
        let w2 =
          (if rx_assigned w1 \<and> length (received rf (rfal_state w1)) > 0
           then w1\<lparr>ce_machine := CE_STATE_PROCESS_RX\<rparr>
           else
             let (started, w3) = nfc_start_rx rf (w1\<lparr>ce_machine := CE_STATE_IDLE\<rparr>) in
             if \<not> started then nfc_enter_error_recovery rf 0 w3 else w3) in
        w2\<lparr>tx_len := 0\<rparr>)"

section \<open>The task\<close>

text \<open>The result tells that the session ended.\<close>

definition nfc_ce_task :: "'r rfal \<Rightarrow> 'c ctap_service \<Rightarrow> u32 \<Rightarrow> ('c, 'r) nfc_system
    \<Rightarrow> (bool \<times> ('c, 'r) nfc_system) option" where
  "nfc_ce_task rf ctap now w =
     (let st = rfalNfcGetState rf (rfal_state w);
          continue_with = (\<lambda>w1. map_option (\<lambda>w2. (False, w2))
            (case ce_machine w1 of
               CE_STATE_IDLE \<Rightarrow> Some w1
             | CE_STATE_WAIT_RX \<Rightarrow> Some (nfc_handle_wait_rx rf w1)
             | CE_STATE_PROCESS_RX \<Rightarrow> nfc_handle_process_rx rf ctap now w1
             | CE_STATE_WAIT_TX \<Rightarrow> Some (nfc_handle_wait_tx rf w1)
             | CE_STATE_ERROR_RECOVERY \<Rightarrow> Some w1)) in
      if st = RFAL_NFC_STATE_START_DISCOVERY then Some (True, nfc_init_session w)
      else if st = RFAL_NFC_STATE_ACTIVATED then
        if ce_machine w = CE_STATE_IDLE
        then continue_with (snd (nfc_start_rx rf (w\<lparr>ce_ctx := (ce_ctx w)\<lparr>
               negotiated_inf_len := rfalIsoDepGetMaxInfLen rf (rfal_state w)\<rparr>\<rparr>)))
        else continue_with w
      else if st = RFAL_NFC_STATE_DATAEXCHANGE_DONE \<or> st = RFAL_NFC_STATE_DATAEXCHANGE
          \<or> st = RFAL_NFC_STATE_LISTEN_SLEEP
      then continue_with w
      else Some (False, w))"

text \<open>\<open>now\<close> is the clock while a command is processed, \<open>later\<close> when the timer is checked.\<close>

definition app_nfc_task :: "'r rfal \<Rightarrow> 'c ctap_service \<Rightarrow> u32 \<Rightarrow> u32 \<Rightarrow> ('c, 'r) nfc_system
    \<Rightarrow> ('c, 'r) nfc_system option" where
  "app_nfc_task rf ctap now later w0 =
     (let w = w0\<lparr>rfal_state := rfalNfcWorker rf (rfal_state w0)\<rparr> in
      case main_state w of
        NFC_START_DISCOVERY \<Rightarrow> Some ((nfc_init_session w)\<lparr>main_state := NFC_DISCOVERY\<rparr>)
      | NFC_DISCOVERY \<Rightarrow>
          let st = rfalNfcGetState rf (rfal_state w) in
          Some (if st \<ge> RFAL_NFC_STATE_ACTIVATED \<and> st < RFAL_NFC_STATE_DEACTIVATION
                then (nfc_init_session w)\<lparr>main_state := NFC_CE_ACTIVE\<rparr> else w)
      | NFC_CE_ACTIVE \<Rightarrow> do {
          (ended, w1) \<leftarrow> nfc_ce_task rf ctap now w;
          let w2 = (if ended then w1\<lparr>main_state := NFC_START_DISCOVERY,
                presence_of := ctap_nfc_stop_user_presence_timer (presence_of w1)\<rparr> else w1);
          Some (if ctap_nfc_is_user_presence_timer_expired later (presence_of w2)
                then w2\<lparr>presence_of := ctap_nfc_stop_user_presence_timer (presence_of w2)\<rparr>
                else w2) }
      | NFC_NOTINIT \<Rightarrow> Some w)"

text \<open>The state at power-up, with an authenticator and a library.\<close>

definition nfc_runtime_init :: "'c \<Rightarrow> 'r \<Rightarrow> ('c, 'r) nfc_system" where
  "nfc_runtime_init c r = \<lparr>main_state = NFC_DISCOVERY, ce_machine = CE_STATE_IDLE,
     ce_ctx = \<lparr>selected_file = FILE_NONE, selected_app = APP_NONE, cc_file = [], cc_file_len = 0,
       ndef_file = [], ndef_file_len = 0, ndef_file_const = False, fid_cc = 0, fid_ndef = 0,
       ndef_write_allowed = False, chain_buf = zeros 7609, chain_offset = 0, chain_len = 0,
       negotiated_inf_len = 0, chaining_out = False, chaining_in = False, extended = False,
       resp_len_expexted = 0\<rparr>,
     rx_assigned = False, tx_buf = zeros TX_BUF_SIZE, tx_len = 0,
     presence_of = \<lparr>user_presence_timer = \<lparr>threshold = 0, begin_timestamp = 0\<rparr>,
       nfc_user_present = False, nfc_ctap_in_use = False\<rparr>,
     authenticator = c, rfal_state = r\<rparr>"


section \<open>The files\<close>

text \<open>
  Reading returns the bytes asked for, up to the end of the selected file. Every valid update is a
  write to \<open>NDEF_FILE\<close>, which is defined \<open>const\<close>, though the session allows writing.
\<close>

lemma ndef_read_exact:
  assumes "selected_file ctx = FILE_NDEF" and "unat (ndef_file_len ctx) = length (ndef_file ctx)"
      and "off = unat (read_16be (p1 apdu) (p2 apdu))" and "off \<le> length (ndef_file ctx)"
      and "length (ndef_file ctx) \<le> 510"
  shows "ndef_handle_read ctx apdu 512
    = Some (take (unat (le apdu)) (drop off (ndef_file ctx)) @ [0x90, 0])"
proof -
  let ?o = "read_16be (p1 apdu) (p2 apdu)" and ?f = "ndef_file ctx" and ?l = "ndef_file_len ctx"
  let ?n = "if unat ?o + unat (le apdu) > unat ?l then ?l - ?o else le apdu"
  have o: "?o \<le> ?l" using assms(2-4) by (simp add: word_le_nat_alt)
  then have n: "unat ?n = min (unat (le apdu)) (length ?f - off)"
    using assms(2-4) by (auto simp: unat_sub min_def)
  then have "unat ?n \<le> 510" "off + unat ?n \<le> length ?f" using assms(4,5) by auto
  moreover from this have "\<not> (512 :: u16) < ?n + 2" by (simp add: word_less_nat_alt unat_word_ariths)
  moreover have "take (unat ?n) (drop off ?f) = take (unat (le apdu)) (drop off ?f)"
    unfolding n by (simp add: min_def)
  moreover have "hi8 0x9000 = 0x90" "lo8 0x9000 = 0" by (simp_all add: hi8_def lo8_def drop_bit_eq_div)
  moreover have "\<not> ?l < ?o" using o by (simp add: not_less)
  ultimately show ?thesis
    using assms(1,3) by (simp add: ndef_handle_read_def Let_def nfc_build_response_def read_at_def
        require_def del: read_16be split del: if_split)
qed

lemma session_update_writes_const:
  assumes "ce_ctx (nfc_init_session w) = ctx" and "apdu_data apdu = Some d" and "lc apdu \<noteq> 0"
      and "unat (read_16be (p1 apdu) (p2 apdu)) + unat (lc apdu) \<le> 18"
  shows "ndef_handle_update (ctx\<lparr>selected_file := FILE_NDEF\<rparr>) apdu = None"
  using assms by (auto simp: nfc_init_session_def ndef_handle_update_def NDEF_FILE_def Let_def
      simp del: read_16be)

end
