(* ===== verification/Nfc_Chaining.thy ===== *)
theory Nfc_Chaining
  imports Nfc_Task
begin

text \<open>
  The chaining of requests and responses over NFC: what a reader gets that fetches a response with
  GET RESPONSE, what the authenticator makes of a request in several commands, and how mixing the
  two leads to a read outside the buffer.
\<close>

section \<open>A sequence of commands\<close>

primrec exchange :: "'c ctap_service \<Rightarrow> u32 \<Rightarrow> bytes list \<Rightarrow> ('c, 'r) nfc_system
    \<Rightarrow> (bytes list \<times> ('c, 'r) nfc_system) option" where
  "exchange ctap now [] w = Some ([], w)"
| "exchange ctap now (raw # raws) w = do {
     ((len, response), w1) \<leftarrow> nfc_parse_and_respond ctap now w (Some raw) (of_nat TX_BUF_SIZE);
     (responses, w2) \<leftarrow> exchange ctap now raws w1;
     Some (response # responses, w2) }"

lemma exchange_append:
  "exchange ctap now (xs @ ys) w = do {
     (rs1, w1) \<leftarrow> exchange ctap now xs w; (rs2, w2) \<leftarrow> exchange ctap now ys w1; Some (rs1 @ rs2, w2) }"
  by (induction xs arbitrary: w) (auto simp: split_def split: bind_splits)

text \<open>The data of a response without its status word, and the status word.\<close>

definition response_data :: "bytes \<Rightarrow> bytes" where
  "response_data r = take (length r - 2) r"

definition status_word :: "bytes \<Rightarrow> bytes" where
  "status_word r = drop (length r - 2) r"

lemma response_parts [simp]:
  "response_data (d @ [a, b]) = d" "status_word (d @ [a, b]) = [a, b]"
  "response_data (x # d @ [a, b]) = x # d" "status_word (x # d @ [a, b]) = [a, b]"
  "response_data [a, b] = []" "status_word [a, b] = [a, b]"
  by (simp_all add: response_data_def status_word_def)

text \<open>Commands of the CTAP applet, as short commands.\<close>

definition get_response :: "u8 \<Rightarrow> bytes" where
  "get_response n = [0x80, 0xC0, 0, 0, n]"

definition ctap_command :: "u8 \<Rightarrow> bytes \<Rightarrow> u8 option \<Rightarrow> bytes" where
  "ctap_command c d n = [c, 0x10, 0, 0, of_nat (length d)] @ d @ (case n of None \<Rightarrow> [] | Some n \<Rightarrow> [n])"

definition command_data :: "bytes \<Rightarrow> bool" where
  "command_data d \<longleftrightarrow> d \<noteq> [] \<and> length d < 256"

lemma parse_get_response:
  "n \<noteq> 0 \<Longrightarrow> nfc_parse_apdu (Some (get_response n)) = Inr \<lparr>cla = 0x80, ins = 0xC0, p1 = 0, p2 = 0, lc = 0,
     apdu_data = None, le = ucast n, has_le = True, is_extended = False\<rparr>"
  by (simp add: get_response_def nfc_parse_apdu_def parse_short_apdu_def Let_def)

lemma parse_ctap_command:
  assumes "command_data d"
  shows "nfc_parse_apdu (Some (ctap_command c d n)) = Inr \<lparr>cla = c, ins = 0x10, p1 = 0, p2 = 0,
     lc = of_nat (length d), apdu_data = Some d, le = (case n of None \<Rightarrow> 0 | Some n \<Rightarrow> ucast n),
     has_le = (n \<noteq> None), is_extended = False\<rparr>"
proof -
  have d: "0 < length d" "length d < 256" using assms by (auto simp: command_data_def)
  then have l: "unat (of_nat (length d) :: u8) = length d" "unat (of_nat (length d) :: u16) = length d"
    by (simp_all add: unat_of_nat take_bit_nat_eq_self)
  then have nz: "(of_nat (length d) :: u8) \<noteq> 0" using d(1) by (metis less_numeral_extra(3) unat_0)
  from l nz d show ?thesis
    by (cases n) (auto simp: ctap_command_def nfc_parse_apdu_def parse_short_apdu_def Let_def nth_append)
qed


section \<open>Fetching a response\<close>

lemma chain_status [simp]:
  "hi8 (0x6100 OR ucast (r :: u8)) = 0x61" "lo8 (0x6100 OR ucast r) = r"
proof -
  have "(0x6100 :: u16) OR ucast r = be16 0x61 r" by (simp add: be16_def push_bit_eq_mult)
  then show "hi8 (0x6100 OR ucast r) = 0x61" "lo8 (0x6100 OR ucast r) = r" by simp_all
qed

lemma bind_Some_map: "(m \<bind> (\<lambda>d. Some (g d))) = map_option g m"
  by (cases m) auto

text \<open>The rest \<open>R\<close> of a response can be fetched.\<close>

definition fetching :: "bytes \<Rightarrow> t4t_context \<Rightarrow> bool" where
  "fetching R ctx \<longleftrightarrow> selected_app ctx = APP_FIDO \<and> \<not> chaining_in ctx \<and> chaining_out ctx
     \<and> R \<noteq> [] \<and> unat (chain_len ctx) = length R \<and> length (chain_buf ctx) = 7609
     \<and> unat (chain_offset ctx) + length R \<le> 7609
     \<and> take (length R) (drop (unat (chain_offset ctx)) (chain_buf ctx)) = R"

lemma word_of_length:
  "n < 65536 \<Longrightarrow> unat (of_nat n :: u16) = n"
  by (simp add: unat_of_nat take_bit_nat_eq_self)

lemma byte_of_word [simp]: "unat (ucast (n :: u8) :: u16) = unat n"
  by (rule byte_as_length)

definition fetched :: "u8 \<Rightarrow> t4t_context \<Rightarrow> t4t_context" where
  "fetched n ctx = (if chain_len ctx \<le> ucast n then reset_chain ctx
     else ctx\<lparr>chain_offset := chain_offset ctx + ucast n, chain_len := chain_len ctx - ucast n\<rparr>)"

lemma build_response:
  "nfc_build_response src off n sw out_size = (if n > unat (out_size - 2) then Some []
     else map_option (\<lambda>d. d @ [hi8 sw, lo8 sw]) (read_at src off n))"
proof -
  have "lo8 (drop_bit 8 sw) = hi8 sw" by (simp only: lo8_def hi8_def)
  then show ?thesis by (simp add: nfc_build_response_def bind_Some_map)
qed

lemma remaining_word:
  assumes "k < 65536"
  shows "(if (of_nat k :: u16) \<ge> 256 then 0xFF else ucast (of_nat k :: u16)) = (of_nat (min 255 k) :: u8)"
    and "remaining_byte (of_nat k) = of_nat (min 255 k)"
proof -
  have u: "unat (of_nat k :: u16) = k" using assms by (rule word_of_length)
  have c: "k < 256 \<Longrightarrow> (ucast (of_nat k :: u16) :: u8) = of_nat k"
    using u by (simp add: word_unat_eq_iff unsigned_ucast_eq unat_of_nat take_bit_nat_eq_self)
  show "(if (of_nat k :: u16) \<ge> 256 then 0xFF else ucast (of_nat k :: u16)) = (of_nat (min 255 k) :: u8)"
    using u c by (cases "k < 256"; cases "k = 255") (auto simp: word_le_nat_alt min_def)
  show "remaining_byte (of_nat k) = of_nat (min 255 k)"
    using u c by (cases "k < 256"; cases "k = 255")
      (auto simp: remaining_byte_def word_less_nat_alt min_def)
qed

lemma chain_out_get_response:
  assumes "chaining_out ctx" and "chain_len ctx \<noteq> 0" and "n \<noteq> 0"
      and "ins a = 0xC0" "p1 a = 0" "p2 a = 0" "le a = ucast n"
  shows "fido_handle_ctap_chain_out ctx a 512 = map_option
     (\<lambda>d. (d @ (if unat (chain_len ctx) \<le> unat n then [0x90, 0]
           else [0x61, of_nat (min 255 (unat (chain_len ctx) - unat n))]), fetched n ctx))
     (read_at (chain_buf ctx) (unat (chain_offset ctx)) (min (unat n) (unat (chain_len ctx))))"
proof -
  have n: "unat n < 256" "(ucast n :: u16) \<noteq> 0" using unsigned_less [of n] assms(3) by (auto simp: byte_as_length)
  show ?thesis
  proof (cases "chain_len ctx \<le> ucast n")
    case True
    then have l: "unat (chain_len ctx) \<le> unat n" by (simp add: word_le_nat_alt)
    have "hi8 0x9000 = 0x90" "lo8 0x9000 = 0" by (simp_all add: hi8_def lo8_def drop_bit_eq_div)
    with l True assms n show ?thesis
      by (simp add: fido_handle_ctap_chain_out_def build_response fetched_def Let_def
          option.map_comp comp_def min_def)
  next
    case False
    then have l: "unat n < unat (chain_len ctx)" by (simp add: word_le_nat_alt)
    have diff: "chain_len ctx - ucast n = of_nat (unat (chain_len ctx) - unat n)"
      using l by (simp add: of_nat_diff)
    have "unat (chain_len ctx) < 65536" using unsigned_less [of "chain_len ctx"] by simp
    then have "unat (chain_len ctx) - unat n < 65536" by simp
    note rest = remaining_word(1) [OF this, folded diff]
    have "chain_len ctx - ucast n \<noteq> 0" "\<not> chain_len ctx \<le> ucast n" "\<not> unat (chain_len ctx) \<le> unat n"
      using False l by auto
    then show ?thesis
      using assms n l
      by (simp add: fido_handle_ctap_chain_out_def build_response fetched_def Let_def rest
          option.map_comp comp_def min.absorb1 cong: if_cong del: right_minus_eq split del: if_split)
  qed
qed

lemma read_fetching:
  assumes "fetching R ctx" and "k \<le> length R"
  shows "read_at (chain_buf ctx) (unat (chain_offset ctx)) k = Some (take k R)"
proof -
  have "take k R = take k (take (length R) (drop (unat (chain_offset ctx)) (chain_buf ctx)))"
    using assms(1) by (simp add: fetching_def)
  also have "\<dots> = take k (drop (unat (chain_offset ctx)) (chain_buf ctx))"
    using assms(2) by (simp add: min_def)
  finally show ?thesis using assms by (simp add: read_at_def require_def fetching_def)
qed

lemma fetching_fetched:
  assumes "fetching R ctx" and "unat n < length R"
  shows "fetching (drop (unat n) R) (fetched n ctx)"
proof -
  have R: "length R \<le> 7609" "unat (chain_len ctx) = length R" "unat (chain_offset ctx) + length R \<le> 7609"
    "take (length R) (drop (unat (chain_offset ctx)) (chain_buf ctx)) = R" "length (chain_buf ctx) = 7609"
    using assms(1) by (auto simp: fetching_def)
  have lt: "ucast n < chain_len ctx" using assms(2) R by (simp add: word_less_nat_alt byte_as_length)
  then have u: "unat (chain_len ctx - ucast n) = length R - unat n"
    using R by (simp add: unat_sub byte_as_length less_imp_le)
  have "unat (chain_offset ctx + ucast n) = unat (chain_offset ctx) + unat n"
    using assms(2) R by (simp add: unat_word_ariths byte_as_length)
  moreover have "drop (unat n) R = take (length R - unat n)
      (drop (unat n) (drop (unat (chain_offset ctx)) (chain_buf ctx)))"
    using R(4) by (metis drop_take)
  ultimately show ?thesis
    using assms lt u R by (auto simp: fetching_def fetched_def not_le ac_simps)
qed

text \<open>What the reader sees, and what remains, when it asks for \<open>n\<close> bytes.\<close>

lemma get_response_step:
  assumes "fetching R (ce_ctx w)" and "n \<noteq> 0"
  shows "nfc_parse_and_respond ctap now w (Some (get_response n)) 512 = Some (with_length
      (take (unat n) R @ (if length R \<le> unat n then [0x90, 0]
         else [0x61, of_nat (min 255 (length R - unat n))])),
     w\<lparr>ce_ctx := fetched n (ce_ctx w), authenticator := authenticator w\<rparr>)"
proof -
  have R: "chaining_out (ce_ctx w)" "chain_len (ce_ctx w) \<noteq> 0" "unat (chain_len (ce_ctx w)) = length R"
    "selected_app (ce_ctx w) = APP_FIDO" "\<not> chaining_in (ce_ctx w)"
    using assms(1) by (auto simp: fetching_def)
  have k: "take (min (unat n) (length R)) R = take (unat n) R" by (simp add: min_def)
  show ?thesis
    using chain_out_get_response [OF R(1,2) assms(2), of "\<lparr>cla = 0x80, ins = 0xC0, p1 = 0, p2 = 0, lc = 0,
        apdu_data = None, le = ucast n, has_le = True, is_extended = False\<rparr>"]
      read_fetching [OF assms(1), of "min (unat n) (length R)"] R
    by (simp add: nfc_parse_and_respond_def parse_get_response [OF assms(2)] nfc_fido_command_def k
        Let_def)
qed


text \<open>\<open>ns\<close> are the lengths of requests that fetch exactly \<open>m\<close> bytes.\<close>

fun fetches :: "u8 list \<Rightarrow> nat \<Rightarrow> bool" where
  "fetches [] m \<longleftrightarrow> m = 0"
| "fetches (n # ns) m \<longleftrightarrow> 0 < m \<and> n \<noteq> 0 \<and> fetches ns (m - unat n)"

fun_cases fetches_ConsE: "fetches (n # ns) m"

definition fido_selected :: "t4t_context \<Rightarrow> bool" where
  "fido_selected ctx \<longleftrightarrow> selected_app ctx = APP_FIDO \<and> \<not> chaining_in ctx \<and> \<not> chaining_out ctx
     \<and> length (chain_buf ctx) = 7609"

lemma fetched_last:
  "fetching R ctx \<Longrightarrow> length R \<le> unat n \<Longrightarrow> fetched n ctx = reset_chain ctx"
  by (simp add: fetched_def fetching_def word_le_nat_alt byte_as_length)

lemma fetch_all:
  assumes "fetching R (ce_ctx w)" and "fetches ns (length R)"
  shows "\<exists>rs w'. exchange ctap now (map get_response ns) w = Some (rs, w')
    \<and> concat (map response_data rs) = R \<and> rs \<noteq> [] \<and> status_word (last rs) = [0x90, 0]
    \<and> (\<forall>r\<in>set (butlast rs). \<exists>n. status_word r = [0x61, n])
    \<and> authenticator w' = authenticator w \<and> fido_selected (ce_ctx w')"
  using assms
proof (induction ns arbitrary: R w)
  case Nil
  then show ?case by (simp add: fetching_def)
next
  case (Cons n ns)
  from Cons.prems(2) have n: "n \<noteq> 0" "fetches ns (length R - unat n)" by (auto elim: fetches_ConsE)
  let ?w = "w\<lparr>ce_ctx := fetched n (ce_ctx w), authenticator := authenticator w\<rparr>"
  note step = get_response_step [OF Cons.prems(1) n(1), of ctap now]
  show ?case
  proof (cases "length R \<le> unat n")
    case True
    with n(2) have "ns = []" by (cases ns) auto
    with True step show ?thesis
      using Cons.prems(1) fetched_last [OF Cons.prems(1) True]
      by (simp add: with_length_def fido_selected_def reset_chain_def fetching_def)
  next
    case False
    then have f: "fetching (drop (unat n) R) (ce_ctx ?w)"
      using fetching_fetched [OF Cons.prems(1), of n] by simp
    have "fetches ns (length (drop (unat n) R))" using n(2) by simp
    from Cons.IH [OF f this] obtain rs w' where rs: "exchange ctap now (map get_response ns) ?w = Some (rs, w')"
      "concat (map response_data rs) = drop (unat n) R" "rs \<noteq> []" "status_word (last rs) = [0x90, 0]"
      "\<forall>r\<in>set (butlast rs). \<exists>n. status_word r = [0x61, n]" "authenticator w' = authenticator w"
      "fido_selected (ce_ctx w')" by auto
    with False step show ?thesis by (auto simp: with_length_def)
  qed
qed

section \<open>A request in one command\<close>

lemma status_OK [simp]: "hi8 0x9000 = 0x90" "lo8 0x9000 = 0"
  by (simp_all add: hi8_def lo8_def drop_bit_eq_div)

lemma handle_ctap_short:
  assumes "d \<noteq> []" and "ctap c (hd d) (tl d) = Some (st, pl, c')" and "length (st # pl) \<le> 7609"
      and "\<not> extended ctx" and "length (chain_buf ctx) = 7609" and "resp_len_expexted ctx \<le> 256"
      and "0 < resp_len_expexted ctx"
  shows "\<exists>ctx'. fido_handle_ctap ctap ctx c d 512 = Some (take (resp_len_expexted ctx) (st # pl)
        @ (if length (st # pl) \<le> resp_len_expexted ctx then [0x90, 0]
           else [0x61, of_nat (min 255 (length (st # pl) - resp_len_expexted ctx))]), ctx', c')
     \<and> selected_app ctx' = selected_app ctx \<and> chaining_in ctx' = chaining_in ctx
     \<and> length (chain_buf ctx') = 7609 \<and> \<not> extended ctx'
     \<and> (if length (st # pl) \<le> resp_len_expexted ctx then chaining_out ctx' = chaining_out ctx
        else unat (chain_offset ctx') = resp_len_expexted ctx \<and> chaining_out ctx'
          \<and> unat (chain_len ctx') = length (st # pl) - resp_len_expexted ctx
          \<and> take (length (st # pl)) (chain_buf ctx') = st # pl)"
proof -
  let ?R = "st # pl" and ?e = "resp_len_expexted ctx"
  have small: "length pl < 7609" using assms(3) by simp
  show ?thesis
  proof (cases "length ?R \<le> ?e")
    case True
    have "read_at ?R 0 (length ?R) = Some ?R" by (simp add: read_at_def)
    with True assms small show ?thesis
      by (intro exI [of _ "ctx\<lparr>chain_len := 0, chain_offset := 0\<rparr>"])
        (simp add: fido_handle_ctap_def Let_def build_response)
  next
    case False
    let ?buf = "?R @ drop (length ?R) (chain_buf ctx)"
    have e: "unat (of_nat ?e :: u16) = ?e" using assms(6) by (simp add: word_of_length)
    have "take ?e ?buf = take ?e ?R" using False by (simp only: take_append) simp
    then have r: "read_at ?buf 0 ?e = Some (take ?e ?R)"
      using False small assms(5) by (simp add: read_at_def require_def)
    have m: "memcpy_at (chain_buf ctx) 0 ?R = Some ?buf"
      using assms(3,5) by (simp add: memcpy_at_def)
    have l: "unat (of_nat (length ?R - ?e) :: u16) = length ?R - ?e" using small by (intro word_of_length) simp
    have "length ?R - ?e < 65536" using small by simp
    note rem = remaining_word(2) [OF this]
    let ?ctx = "ctx\<lparr>chain_buf := ?buf, chain_offset := of_nat ?e, chain_len := of_nat (length ?R - ?e),
      chaining_out := True\<rparr>"
    have "fido_handle_ctap ctap ctx c d 512
        = Some (take ?e ?R @ [0x61, of_nat (min 255 (length ?R - ?e))], ?ctx, c')"
      using False assms small r m e rem
      by (simp add: fido_handle_ctap_def Let_def build_response del: of_nat_diff of_nat_Suc length_Cons append_Cons)
    with False assms e l show ?thesis by (intro exI [of _ ?ctx]) simp
  qed
qed


lemma length_as_word:
  "command_data d \<Longrightarrow> unat (of_nat (length d) :: u16) = length d"
  "command_data d \<Longrightarrow> (of_nat (length d) :: u16) \<noteq> 0"
proof -
  assume "command_data d"
  then have d: "0 < length d" "length d < 65536" by (auto simp: command_data_def)
  show u: "unat (of_nat (length d) :: u16) = length d" by (rule word_of_length) (rule d(2))
  show "(of_nat (length d) :: u16) \<noteq> 0" using u d(1) by (metis less_numeral_extra(3) unat_0)
qed

lemma request_step:
  assumes "fido_selected (ce_ctx w)" and "command_data d"
      and "ctap (authenticator w) (hd d) (tl d) = Some (st, pl, c')" and "length (st # pl) \<le> 7609"
  shows "\<exists>w1. nfc_parse_and_respond ctap now w (Some (ctap_command 0x80 d n)) 512 = Some (with_length
      (take 256 (st # pl) @ (if length (st # pl) \<le> 256 then [0x90, 0]
           else [0x61, of_nat (min 255 (length (st # pl) - 256))])), w1)
     \<and> authenticator w1 = c'
     \<and> (if length (st # pl) \<le> 256 then fido_selected (ce_ctx w1)
        else fetching (drop 256 (st # pl)) (ce_ctx w1) \<and> unat (chain_offset (ce_ctx w1)) = 256)"
proof -
  let ?ctx = "(ce_ctx w)\<lparr>resp_len_expexted := 256, extended := False\<rparr>" and ?R = "st # pl"
  have d: "d \<noteq> []" "read_at d 0 (length d) = Some d"
    using assms(2) by (auto simp: command_data_def read_at_def)
  have ctx: "\<not> extended ?ctx" "length (chain_buf ?ctx) = 7609" "resp_len_expexted ?ctx = 256"
    "selected_app ?ctx = APP_FIDO" "chaining_in ?ctx = False" "chaining_out ?ctx = False"
    using assms(1) by (simp_all add: fido_selected_def)
  have "resp_len_expexted ?ctx \<le> 256" "0 < resp_len_expexted ?ctx" by simp_all
  from handle_ctap_short [where ctap = ctap and c = "authenticator w" and d = d,
      OF d(1) assms(3,4) ctx(1,2) this, unfolded ctx] obtain ctx'
    where h: "fido_handle_ctap ctap ?ctx (authenticator w) d 512 = Some (take 256 ?R
        @ (if length ?R \<le> 256 then [0x90, 0] else [0x61, of_nat (min 255 (length ?R - 256))]), ctx', c')"
    and ctx': "selected_app ctx' = APP_FIDO" "\<not> chaining_in ctx'" "length (chain_buf ctx') = 7609"
      "if length ?R \<le> 256 then \<not> chaining_out ctx'
       else unat (chain_offset ctx') = 256 \<and> chaining_out ctx'
          \<and> unat (chain_len ctx') = length ?R - 256 \<and> take (length ?R) (chain_buf ctx') = ?R"
    by (auto cong: if_cong)
  have run: "nfc_parse_and_respond ctap now w (Some (ctap_command 0x80 d n)) 512 = Some (with_length
      (take 256 ?R @ (if length ?R \<le> 256 then [0x90, 0]
           else [0x61, of_nat (min 255 (length ?R - 256))])), w\<lparr>ce_ctx := ctx', authenticator := c'\<rparr>)"
    using h d(2) assms(1) length_as_word [OF assms(2)]
    by (simp add: nfc_parse_and_respond_def parse_ctap_command [OF assms(2)] nfc_fido_command_def
        fido_handle_ctap_request_short_def fido_selected_def Let_def)
  have "fetching (drop 256 ?R) ctx' \<and> unat (chain_offset ctx') = 256" if "\<not> length ?R \<le> 256"
  proof -
    from that ctx' have *: "unat (chain_offset ctx') = 256" "take (length ?R) (chain_buf ctx') = ?R"
      "chaining_out ctx'" "unat (chain_len ctx') = length ?R - 256" by (simp_all split: if_splits)
    have "drop 256 ?R = take (length ?R - 256) (drop 256 (chain_buf ctx'))"
      using *(2) by (metis drop_take)
    with * ctx'(1-3) that assms(4) show ?thesis by (simp add: fetching_def)
  qed
  with run ctx' show ?thesis
    by (intro exI [of _ "w\<lparr>ce_ctx := ctx', authenticator := c'\<rparr>"]) (auto simp: fido_selected_def)
qed

section \<open>A request in several commands\<close>

text \<open>The part \<open>req\<close> of a request was received.\<close>

definition collecting :: "bytes \<Rightarrow> t4t_context \<Rightarrow> bool" where
  "collecting req ctx \<longleftrightarrow> selected_app ctx = APP_FIDO \<and> chaining_in ctx \<and> \<not> extended ctx
     \<and> length (chain_buf ctx) = 7609 \<and> unat (chain_len ctx) = length req
     \<and> take (length req) (chain_buf ctx) = req"

definition may_collect :: "t4t_context \<Rightarrow> bool" where
  "may_collect ctx \<longleftrightarrow> selected_app ctx = APP_FIDO \<and> \<not> extended ctx \<and> length (chain_buf ctx) = 7609"

lemma collect_first:
  assumes "may_collect (ce_ctx w)" and "command_data d"
  shows "\<exists>w1. nfc_parse_and_respond ctap now w (Some (ctap_command 0x90 d n)) 512
      = Some (with_length [0x90, 0], w1) \<and> collecting d (ce_ctx w1) \<and> authenticator w1 = authenticator w"
proof -
  have "memcpy_at (chain_buf (ce_ctx w)) 0 d = Some (d @ drop (length d) (chain_buf (ce_ctx w)))"
    "length d \<le> 7609" using assms by (auto simp: memcpy_at_def may_collect_def command_data_def)
  then show ?thesis
    using assms length_as_word [OF assms(2)]
    by (simp add: nfc_parse_and_respond_def parse_ctap_command [OF assms(2)] nfc_fido_command_def
        fido_handle_ctap_chain_in_def may_collect_def collecting_def data_bytes_def nfc_put_sw_def
        Let_def)
qed

lemma collect_more:
  assumes "collecting req (ce_ctx w)" and "command_data d" and "length (req @ d) \<le> 7609"
  shows "\<exists>ctx'. collecting (req @ d) ctx'
     \<and> nfc_parse_and_respond ctap now w (Some (ctap_command 0x80 d None)) 512
         = Some (with_length [0x90, 0], w\<lparr>ce_ctx := ctx', authenticator := authenticator w\<rparr>)
     \<and> (\<forall>n. nfc_parse_and_respond ctap now w (Some (ctap_command 0x80 d (Some n))) 512 =
          map_option (\<lambda>(r, ctx1, c1). (with_length r, w\<lparr>ce_ctx := ctx1, authenticator := c1\<rparr>))
            (fido_handle_ctap ctap (ctx'\<lparr>chaining_in := False,
               resp_len_expexted := (if n = 0 then 256 else unat n)\<rparr>) (authenticator w) (req @ d) 512))"
proof -
  let ?c = "ce_ctx w"
  have c: "length (chain_buf ?c) = 7609" "unat (chain_len ?c) = length req"
    "take (length req) (chain_buf ?c) = req" "chaining_in ?c" "selected_app ?c = APP_FIDO" "\<not> extended ?c"
    using assms(1) by (auto simp: collecting_def)
  let ?buf = "req @ d @ drop (length (req @ d)) (chain_buf ?c)"
  have m: "memcpy_at (chain_buf ?c) (length req) d = Some ?buf"
    using c assms(3) by (simp add: memcpy_at_def)
  have l: "unat (chain_len ?c + of_nat (length d)) = length (req @ d)"
    using c(2) assms(3) length_as_word(1) [OF assms(2)] by (simp add: unat_word_ariths)
  let ?ctx = "?c\<lparr>chain_buf := ?buf, chain_len := chain_len ?c + of_nat (length d)\<rparr>"
  have r: "read_at ?buf 0 (length (req @ d)) = Some (req @ d)"
    using assms(3) c(1) by (simp add: read_at_def require_def)
  have nz: "(ucast n :: u16) = 0 \<longleftrightarrow> n = 0" for n :: u8 by (rule byte_as_length)
  have "collecting (req @ d) ?ctx" using c l assms(3) by (simp add: collecting_def)
  moreover have "nfc_parse_and_respond ctap now w (Some (ctap_command 0x80 d None)) 512
         = Some (with_length [0x90, 0], w\<lparr>ce_ctx := ?ctx, authenticator := authenticator w\<rparr>)"
    using c m l assms(3) length_as_word [OF assms(2)]
    by (simp add: nfc_parse_and_respond_def parse_ctap_command [OF assms(2)] nfc_fido_command_def
        fido_handle_ctap_chain_in_def data_bytes_def nfc_put_sw_def Let_def)
  moreover have "nfc_parse_and_respond ctap now w (Some (ctap_command 0x80 d (Some n))) 512 =
          map_option (\<lambda>(r, ctx1, c1). (with_length r, w\<lparr>ce_ctx := ctx1, authenticator := c1\<rparr>))
            (fido_handle_ctap ctap (?ctx\<lparr>chaining_in := False,
               resp_len_expexted := (if n = 0 then 256 else unat n)\<rparr>) (authenticator w) (req @ d) 512)" for n
    using c m l r assms(3) length_as_word [OF assms(2)]
    by (simp add: nfc_parse_and_respond_def parse_ctap_command [OF assms(2)] nfc_fido_command_def
        fido_handle_ctap_chain_in_def data_bytes_def nz bind_Some_map option.map_comp comp_def
        split_def Let_def)
  ultimately show ?thesis by (intro exI [of _ ?ctx]) blast
qed


lemma collect_firsts:
  assumes "may_collect (ce_ctx w)" and "fs \<noteq> []" and "\<forall>f\<in>set fs. command_data f"
  shows "\<exists>rs w1. exchange ctap now (map (\<lambda>f. ctap_command 0x90 f None) fs) w = Some (rs, w1)
    \<and> collecting (last fs) (ce_ctx w1) \<and> authenticator w1 = authenticator w
    \<and> (\<forall>r\<in>set rs. r = [0x90, 0])"
  using assms
proof (induction fs arbitrary: w)
  case Nil
  then show ?case by simp
next
  case (Cons f fs)
  have "command_data f" using Cons.prems(3) by simp
  from collect_first [where ctap = ctap and n = None, OF Cons.prems(1) this] obtain w1
    where w1: "nfc_parse_and_respond ctap now w (Some (ctap_command 0x90 f None)) 512
      = Some (with_length [0x90, 0], w1)" "collecting f (ce_ctx w1)" "authenticator w1 = authenticator w"
    by blast
  show ?case
  proof (cases "fs = []")
    case True
    with w1 show ?thesis by (simp add: with_length_def)
  next
    case False
    have "may_collect (ce_ctx w1)" using w1(2) by (simp add: collecting_def may_collect_def)
    from Cons.IH [OF this False] Cons.prems(3) obtain rs w2 where
      "exchange ctap now (map (\<lambda>f. ctap_command 0x90 f None) fs) w1 = Some (rs, w2)"
      "collecting (last fs) (ce_ctx w2)" "authenticator w2 = authenticator w1" "\<forall>r\<in>set rs. r = [0x90, 0]"
      by auto
    with w1 False show ?thesis by (simp add: with_length_def)
  qed
qed

lemma collect_mores:
  assumes "collecting req (ce_ctx w)" and "\<forall>f\<in>set fs. command_data f" and "length (req @ concat fs) \<le> 7609"
  shows "\<exists>rs w1. exchange ctap now (map (\<lambda>f. ctap_command 0x80 f None) fs) w = Some (rs, w1)
    \<and> collecting (req @ concat fs) (ce_ctx w1) \<and> authenticator w1 = authenticator w
    \<and> (\<forall>r\<in>set rs. r = [0x90, 0])"
  using assms
proof (induction fs arbitrary: w req)
  case Nil
  then show ?case by simp
next
  case (Cons f fs)
  have "command_data f" "length (req @ f) \<le> 7609" using Cons.prems by auto
  from collect_more [where ctap = ctap and now = now, OF Cons.prems(1) this] obtain ctx' where
    ctx': "collecting (req @ f) ctx'" "nfc_parse_and_respond ctap now w (Some (ctap_command 0x80 f None)) 512
         = Some (with_length [0x90, 0], w\<lparr>ce_ctx := ctx', authenticator := authenticator w\<rparr>)" by blast
  let ?w = "w\<lparr>ce_ctx := ctx', authenticator := authenticator w\<rparr>"
  have "collecting (req @ f) (ce_ctx ?w)" using ctx'(1) by simp
  from Cons.IH [OF this] Cons.prems(2,3) obtain rs w2 where
    "exchange ctap now (map (\<lambda>f. ctap_command 0x80 f None) fs) ?w = Some (rs, w2)"
    "collecting (req @ concat (f # fs)) (ce_ctx w2)" "authenticator w2 = authenticator w"
    "\<forall>r\<in>set rs. r = [0x90, 0]" by auto
  with ctx'(2) show ?case by (simp add: with_length_def)
qed

section \<open>Reading outside the buffer\<close>

text \<open>A response is fetched (\<open>m\<close> bytes of it were), and a command may be appended to it.\<close>

definition chained :: "nat \<Rightarrow> nat \<Rightarrow> t4t_context \<Rightarrow> bool" where
  "chained m l ctx \<longleftrightarrow> selected_app ctx = APP_FIDO \<and> \<not> chaining_in ctx \<and> chaining_out ctx
     \<and> length (chain_buf ctx) = 7609 \<and> unat (chain_offset ctx) = m \<and> unat (chain_len ctx) = l
     \<and> m + l < 65536"

lemma fetch_outside:
  assumes "chained m l (ce_ctx w)" and "7609 < m + l" and "0 < l"
  shows "\<exists>k. exchange ctap now (replicate k (get_response 255)) w = None"
  using assms
proof (induction l arbitrary: m w rule: less_induct)
  case (less l)
  have ctx: "chaining_out (ce_ctx w)" "chain_len (ce_ctx w) \<noteq> 0" "unat (chain_len (ce_ctx w)) = l"
    "unat (chain_offset (ce_ctx w)) = m" "selected_app (ce_ctx w) = APP_FIDO" "\<not> chaining_in (ce_ctx w)"
    "length (chain_buf (ce_ctx w)) = 7609" "m + l < 65536"
    using less.prems by (auto simp: chained_def)
  have nz: "(255 :: u8) \<noteq> 0" by simp
  let ?a = "\<lparr>cla = 0x80, ins = 0xC0, p1 = 0, p2 = 0, lc = 0, apdu_data = None, le = ucast (255 :: u8),
     has_le = True, is_extended = False\<rparr>"
  note run = chain_out_get_response [where a = ?a, OF ctx(1,2) nz, unfolded ctx(3,4)]
  show ?case
  proof (cases "m + min 255 l \<le> 7609")
    case False
    then have "nfc_parse_and_respond ctap now w (Some (get_response 255)) 512 = None"
      using run ctx by (simp add: nfc_parse_and_respond_def parse_get_response [OF nz] nfc_fido_command_def
          read_at_def require_def)
    then have "exchange ctap now (replicate 1 (get_response 255)) w = None" by simp
    then show ?thesis by blast
  next
    case True
    with less.prems(2) have l: "255 < l" by simp
    let ?ctx = "fetched 255 (ce_ctx w)"
    have s: "nfc_parse_and_respond ctap now w (Some (get_response 255)) 512 = Some (with_length
        (take 255 (drop m (chain_buf (ce_ctx w))) @ [0x61, of_nat (min 255 (l - 255))]),
        w\<lparr>ce_ctx := ?ctx, authenticator := authenticator w\<rparr>)"
      using run ctx True l by (simp add: nfc_parse_and_respond_def parse_get_response [OF nz]
          nfc_fido_command_def read_at_def require_def)
    have "255 < chain_len (ce_ctx w)" using ctx(3) l by (simp add: word_less_nat_alt)
    then have "unat (chain_len (ce_ctx w) - 255) = l - 255" "\<not> chain_len (ce_ctx w) \<le> 255"
      using ctx(3) by (simp_all add: unat_sub less_imp_le not_le)
    moreover have "unat (chain_offset (ce_ctx w) + 255) = m + 255"
      using ctx(4,8) l by (simp add: unat_word_ariths)
    ultimately have "chained (m + 255) (l - 255) ?ctx"
      using ctx l by (simp add: chained_def fetched_def)
    then have "\<exists>k. exchange ctap now (replicate k (get_response 255))
        (w\<lparr>ce_ctx := ?ctx, authenticator := authenticator w\<rparr>) = None"
      using less.IH [of "l - 255" "m + 255"] l less.prems(2) by simp
    then obtain k where "exchange ctap now (replicate k (get_response 255))
        (w\<lparr>ce_ctx := ?ctx, authenticator := authenticator w\<rparr>) = None" by blast
    with s have "exchange ctap now (replicate (Suc k) (get_response 255)) w = None"
      by (simp add: with_length_def)
    then show ?thesis by blast
  qed
qed

definition appended_command :: bytes where
  "appended_command = ctap_command 0x80 (replicate 255 0) None"

lemma append_until_full:
  assumes "chained 256 l (ce_ctx w)" and "l \<le> 7609" and "0 < l"
  shows "\<exists>k rs w' l'. exchange ctap now (replicate k appended_command) w = Some (rs, w')
    \<and> chained 256 l' (ce_ctx w') \<and> 7609 < 256 + l' \<and> 0 < l'"
  using assms
proof (induction "7609 - l" arbitrary: l w rule: less_induct)
  case less
  show ?case
  proof (cases "7609 < 256 + l")
    case True
    then have "exchange ctap now (replicate 0 appended_command) w = Some ([], w)" by simp
    with less.prems True show ?thesis by blast
  next
    case False
    let ?c = "ce_ctx w"
    have ctx: "chaining_out ?c" "unat (chain_len ?c) = l" "unat (chain_offset ?c) = 256"
      "selected_app ?c = APP_FIDO" "\<not> chaining_in ?c" "length (chain_buf ?c) = 7609"
      using less.prems(1) by (auto simp: chained_def)
    have d: "command_data (replicate 255 0)" by (simp add: command_data_def)
    let ?buf = "take l (chain_buf ?c) @ replicate 255 0 @ drop (l + 255) (chain_buf ?c)"
    have m: "memcpy_at (chain_buf ?c) l (replicate 255 0) = Some ?buf"
      using ctx(6) False by (simp add: memcpy_at_def)
    let ?ctx = "?c\<lparr>resp_len_expexted := 256, chain_buf := ?buf, chain_len := chain_len ?c + 255\<rparr>"
    have s: "nfc_parse_and_respond ctap now w (Some appended_command) 512 = Some (with_length [0x90, 0],
        w\<lparr>ce_ctx := ?ctx, authenticator := authenticator w\<rparr>)"
      using ctx m False length_as_word [OF d]
      by (simp add: appended_command_def nfc_parse_and_respond_def parse_ctap_command [OF d]
          nfc_fido_command_def fido_handle_ctap_request_short_def fido_handle_ctap_chain_in_def
          data_bytes_def nfc_put_sw_def Let_def)
    have "unat (chain_len ?c + 255) = l + 255" using ctx(2) False by (simp add: unat_word_ariths)
    then have c: "chained 256 (l + 255) ?ctx" using ctx False by (simp add: chained_def)
    have "7609 - (l + 255) < 7609 - l" "l + 255 \<le> 7609" "0 < l + 255" using False by simp_all
    with less.hyps [of "l + 255" "w\<lparr>ce_ctx := ?ctx, authenticator := authenticator w\<rparr>"] c
    obtain k rs w' l' where "exchange ctap now (replicate k appended_command)
          (w\<lparr>ce_ctx := ?ctx, authenticator := authenticator w\<rparr>) = Some (rs, w')"
        "chained 256 l' (ce_ctx w')" "7609 < 256 + l'" "0 < l'" by auto
    moreover from this s have "exchange ctap now (replicate (Suc k) appended_command) w
        = Some ([0x90, 0] # rs, w')" by (simp add: with_length_def)
    ultimately show ?thesis by blast
  qed
qed

section \<open>An example\<close>

text \<open>A tag with the FIDO applet selected, and a service whose response has 301 bytes.\<close>

definition example_tag :: "(nat, unit) nfc_system" where
  "example_tag = (let w = nfc_init_session (nfc_runtime_init 0 ()) in
     w\<lparr>ce_ctx := (ce_ctx w)\<lparr>selected_app := APP_FIDO\<rparr>\<rparr>)"

definition example_service :: "nat ctap_service" where
  "example_service c cmd params = Some (0, replicate 300 cmd, c + length params)"

lemma example_tag_ok:
  "fido_selected (ce_ctx example_tag)" "may_collect (ce_ctx example_tag)" "authenticator example_tag = 0"
  by (simp_all add: example_tag_def nfc_init_session_def nfc_runtime_init_def fido_selected_def
      may_collect_def)

section \<open>Properties\<close>

text \<open>
  C36: Fetching a response. A CTAP request in one short command is processed once; a response of up
  to 256 bytes is returned at once, a longer one in parts. Whatever lengths the reader asks for
  with GET RESPONSE, the parts put together are the status and the data of the response, every part
  but the last says that more is available, the last one ends with \<open>90 00\<close>, and then the chain is
  gone.
\<close>

theorem response_chaining:
  assumes "fido_selected (ce_ctx w)" and "command_data d"
      and "ctap (authenticator w) (hd d) (tl d) = Some (st, pl, c')" and "length (st # pl) \<le> 7609"
      and "fetches ns (length (st # pl) - 256)"
  shows "\<exists>rs w'. exchange ctap now (ctap_command 0x80 d n # map get_response ns) w = Some (rs, w')
    \<and> concat (map response_data rs) = st # pl \<and> status_word (last rs) = [0x90, 0]
    \<and> (\<forall>r\<in>set (butlast rs). \<exists>k. status_word r = [0x61, k])
    \<and> authenticator w' = c' \<and> fido_selected (ce_ctx w')"
proof -
  let ?R = "st # pl"
  obtain w1 where r: "nfc_parse_and_respond ctap now w (Some (ctap_command 0x80 d n)) 512 = Some (with_length
      (take 256 ?R @ (if length ?R \<le> 256 then [0x90, 0]
           else [0x61, of_nat (min 255 (length ?R - 256))])), w1)"
    and w1: "authenticator w1 = c'" "if length ?R \<le> 256 then fido_selected (ce_ctx w1)
        else fetching (drop 256 ?R) (ce_ctx w1) \<and> unat (chain_offset (ce_ctx w1)) = 256"
    using request_step [where ctap = ctap, OF assms(1-4)] by blast
  show ?thesis
  proof (cases "length ?R \<le> 256")
    case True
    with assms(5) have "ns = []" by (cases ns) auto
    with True r w1 show ?thesis by (simp add: with_length_def)
  next
    case False
    with w1 have f: "fetching (drop 256 ?R) (ce_ctx w1)" by simp
    have "fetches ns (length (drop 256 ?R))" using assms(5) by simp
    from fetch_all [OF f this] obtain rs w' where rs: "exchange ctap now (map get_response ns) w1 = Some (rs, w')"
      "concat (map response_data rs) = drop 256 ?R" "rs \<noteq> []" "status_word (last rs) = [0x90, 0]"
      "\<forall>r\<in>set (butlast rs). \<exists>n. status_word r = [0x61, n]" "authenticator w' = authenticator w1"
      "fido_selected (ce_ctx w')" by blast
    have "exchange ctap now (ctap_command 0x80 d n # map get_response ns) w = Some
        ((take 256 ?R @ [0x61, of_nat (min 255 (length ?R - 256))]) # rs, w')"
      using False r rs(1) by (simp add: with_length_def)
    moreover have "take 256 ?R @ drop 256 ?R = ?R" by (rule append_take_drop_id)
    ultimately show ?thesis using rs w1(1)
      by (intro exI [of _ "(take 256 ?R @ [0x61, of_nat (min 255 (length ?R - 256))]) # rs"] exI [of _ w'])
        (simp del: take_Suc_Cons)
  qed
qed


theorem response_chaining_witness:
  "\<exists>rs w'. exchange example_service 0 [ctap_command 0x80 [4, 1] None, get_response 40, get_response 5]
      example_tag = Some (rs, w')
    \<and> concat (map response_data rs) = 0 # replicate 300 4 \<and> status_word (last rs) = [0x90, 0]
    \<and> authenticator w' = 1 \<and> fido_selected (ce_ctx w')"
  using response_chaining [where ctap = example_service and w = example_tag and d = "[4, 1]" and n = None
      and ns = "[40, 5]" and st = 0 and pl = "replicate 300 4" and c' = 1 and now = 0]
  by (simp add: example_tag_ok command_data_def example_service_def) blast

text \<open>
  C37: A request in several commands. What is processed, once, is the concatenation of the data of
  the last command of the class 90 and of all the commands after it, up to the first of the class
  80 that asks for a response; the parts are acknowledged one by one, and the answer to the last is
  the response or its first part. So with more than one command of the class 90, which is how
  ISO 7816-4 chains more than two commands, the data of all but the last of them is lost without
  an error.
\<close>

theorem command_chaining:
  assumes "may_collect (ce_ctx w)" and "fs \<noteq> []" and "\<forall>f\<in>set (fs @ ds @ [d]). command_data f"
      and "req = last fs @ concat ds @ d" and "length req \<le> 7609"
      and "ctap (authenticator w) (hd req) (tl req) = Some (st, pl, c')" and "length (st # pl) \<le> 7609"
      and "k = (if n = 0 then 256 else unat n)"
  shows "\<exists>rs r w'. exchange ctap now (map (\<lambda>f. ctap_command 0x90 f None) fs
      @ map (\<lambda>f. ctap_command 0x80 f None) ds @ [ctap_command 0x80 d (Some n)]) w = Some (rs @ [r], w')
    \<and> authenticator w' = c' \<and> \<not> chaining_in (ce_ctx w') \<and> (\<forall>r\<in>set rs. r = [0x90, 0])
    \<and> r = take k (st # pl) @ (if length (st # pl) \<le> k then [0x90, 0]
        else [0x61, of_nat (min 255 (length (st # pl) - k))])"
proof -
  have data: "\<forall>f\<in>set fs. command_data f" "\<forall>f\<in>set ds. command_data f" "command_data d"
    using assms(3) by auto
  from collect_firsts [OF assms(1,2) data(1)] obtain rs1 w1 where
    e1: "exchange ctap now (map (\<lambda>f. ctap_command 0x90 f None) fs) w = Some (rs1, w1)"
    "collecting (last fs) (ce_ctx w1)" "authenticator w1 = authenticator w" "\<forall>r\<in>set rs1. r = [0x90, 0]"
    by blast
  have "length (last fs @ concat ds) \<le> 7609" "length ((last fs @ concat ds) @ d) \<le> 7609"
    using assms(4,5) by auto
  note len = this
  from collect_mores [OF e1(2) data(2) len(1)] obtain rs2 w2 where
    e2: "exchange ctap now (map (\<lambda>f. ctap_command 0x80 f None) ds) w1 = Some (rs2, w2)"
    "collecting (last fs @ concat ds) (ce_ctx w2)" "authenticator w2 = authenticator w1"
    "\<forall>r\<in>set rs2. r = [0x90, 0]" by blast
  have req: "(last fs @ concat ds) @ d = req" using assms(4) by simp
  from collect_more [where ctap = ctap and now = now, OF e2(2) data(3) len(2), unfolded req] obtain ctx' where
    ctx': "collecting req ctx'" "nfc_parse_and_respond ctap now w2 (Some (ctap_command 0x80 d (Some n))) 512 =
          map_option (\<lambda>(r, ctx1, c1). (with_length r, w2\<lparr>ce_ctx := ctx1, authenticator := c1\<rparr>))
            (fido_handle_ctap ctap (ctx'\<lparr>chaining_in := False,
               resp_len_expexted := (if n = 0 then 256 else unat n)\<rparr>) (authenticator w2) req 512)"
    by blast
  let ?ctx = "ctx'\<lparr>chaining_in := False, resp_len_expexted := (if n = 0 then 256 else unat n)\<rparr>"
  have k: "resp_len_expexted ?ctx = k" "k \<le> 256" "0 < k"
    using assms(8) unat_u8_le [of n] by (auto simp: unat_gt_0)
  have h: "req \<noteq> []" "ctap (authenticator w2) (hd req) (tl req) = Some (st, pl, c')" "\<not> extended ?ctx"
      "length (chain_buf ?ctx) = 7609" "resp_len_expexted ?ctx \<le> 256" "0 < resp_len_expexted ?ctx"
    using assms(4,6) data(3) e1(3) e2(3) ctx'(1) k by (auto simp: command_data_def collecting_def)
  from handle_ctap_short [where ctap = ctap, OF h(1,2) assms(7) h(3-6), unfolded k] obtain ctx2 where
    f: "fido_handle_ctap ctap ?ctx (authenticator w2) req 512 = Some (take k (st # pl)
        @ (if length (st # pl) \<le> k then [0x90, 0] else [0x61, of_nat (min 255 (length (st # pl) - k))]), ctx2, c')"
    "chaining_in ctx2 = chaining_in ?ctx" by blast
  let ?r = "take k (st # pl)
        @ (if length (st # pl) \<le> k then [0x90, 0] else [0x61, of_nat (min 255 (length (st # pl) - k))])"
  have "exchange ctap now [ctap_command 0x80 d (Some n)] w2
      = Some ([?r], w2\<lparr>ce_ctx := ctx2, authenticator := c'\<rparr>)"
    using ctx'(2) f(1) by (simp add: with_length_def)
  with e1(1,4) e2(1,4) f(2) show ?thesis
    by (intro exI [of _ "rs1 @ rs2"] exI [of _ ?r] exI [of _ "w2\<lparr>ce_ctx := ctx2, authenticator := c'\<rparr>"])
      (auto simp: exchange_append simp del: exchange.simps)
qed

theorem command_chaining_witness:
  "\<exists>rs r w'. exchange example_service 0 [ctap_command 0x90 [2, 1] None, ctap_command 0x90 [4, 5, 6] None,
      ctap_command 0x80 [7] (Some 0)] example_tag = Some (rs @ [r], w')
    \<and> authenticator w' = 3 \<and> take 2 r = [0, 4]"
  using command_chaining [where ctap = example_service and w = example_tag and fs = "[[2, 1], [4, 5, 6]]"
      and ds = "[]" and d = "[7]" and req = "[4, 5, 6, 7]" and st = 0 and pl = "replicate 300 4"
      and c' = 3 and n = 0 and k = 256 and now = 0]
  by (simp add: example_tag_ok command_data_def example_service_def numeral_eq_Suc) fastforce

text \<open>
  C38: A read outside the buffer. After any request whose response needs a second part, a reader can
  send further requests without Le, each of which is appended to what remains of the response, and
  fetch the result with GET RESPONSE: the offset of the part already fetched is not taken into
  account, and the bytes behind the end of the 7609 bytes of \<open>chain_buf\<close> are read.
\<close>

theorem chained_response_overread:
  assumes "fido_selected (ce_ctx w)" and "command_data d"
      and "ctap (authenticator w) (hd d) (tl d) = Some (st, pl, c')" and "length (st # pl) \<le> 7609"
      and "256 < length (st # pl)"
  shows "\<exists>i j. exchange ctap now (ctap_command 0x80 d n # replicate i appended_command
      @ replicate j (get_response 255)) w = None"
proof -
  have long: "\<not> length (st # pl) \<le> 256" using assms(5) by simp
  from request_step [where ctap = ctap and n = n, OF assms(1-4), unfolded if_not_P [OF long]] obtain r w1 where
    s: "nfc_parse_and_respond ctap now w (Some (ctap_command 0x80 d n)) 512 = Some (with_length r, w1)"
      "fetching (drop 256 (st # pl)) (ce_ctx w1)" "unat (chain_offset (ce_ctx w1)) = 256"
    by blast
  let ?l = "length (drop 256 (st # pl))"
  have c: "chained 256 ?l (ce_ctx w1)" "?l \<le> 7609" "0 < ?l"
    using s(2,3) assms(4,5) by (auto simp: fetching_def chained_def)
  from append_until_full [OF c] obtain i rs w2 l where
    a: "exchange ctap now (replicate i appended_command) w1 = Some (rs, w2)"
      "chained 256 l (ce_ctx w2)" "7609 < 256 + l" "0 < l" by blast
  from fetch_outside [OF a(2-4)] obtain j where
    "exchange ctap now (replicate j (get_response 255)) w2 = None" by blast
  with s(1) a(1) have "exchange ctap now (ctap_command 0x80 d n # replicate i appended_command
      @ replicate j (get_response 255)) w = None"
    by (simp add: with_length_def exchange_append)
  then show ?thesis by blast
qed


theorem chained_response_overread_witness:
  "\<exists>i j. exchange example_service 0 (ctap_command 0x80 [4, 1] None # replicate i appended_command
      @ replicate j (get_response 255)) example_tag = None"
  by (rule chained_response_overread [where st = 0 and pl = "replicate 300 4" and c' = 1])
    (simp_all add: example_tag_ok command_data_def example_service_def)

end
