(* ===== verification/Nfc_Presence.thy ===== *)
theory Nfc_Presence
  imports Nfc_Task
begin

text \<open>
  The user presence over NFC: in every state the card emulation can reach, the flag that stands for
  the presence of the user was set by the selection of the FIDO applet in the session that is still
  on, at most 12 seconds ago when the timer was last checked.
\<close>

section \<open>What the operations keep\<close>

definition same_presence :: "('c, 'r) nfc_system \<Rightarrow> ('c, 'r) nfc_system \<Rightarrow> bool" where
  "same_presence w w' \<longleftrightarrow> presence_of w' = presence_of w \<and> main_state w' = main_state w"

named_theorems presence_frame

lemma same_presence_refl [presence_frame]: "same_presence w w"
  by (simp add: same_presence_def)

lemma same_presence_trans: "same_presence w w1 \<Longrightarrow> same_presence w1 w2 \<Longrightarrow> same_presence w w2"
  by (simp add: same_presence_def)

lemma start_rx_presence [presence_frame]: "same_presence w (snd (nfc_start_rx rf w))"
  by (simp add: nfc_start_rx_def same_presence_def Let_def split: prod.split)

lemma start_tx_presence [presence_frame]: "same_presence w (snd (nfc_start_tx rf w d))"
  by (simp add: nfc_start_tx_def same_presence_def Let_def split: prod.split)

lemma error_recovery_presence [presence_frame]: "same_presence w (nfc_enter_error_recovery rf e w)"
  using start_rx_presence [of "w\<lparr>ce_machine := CE_STATE_ERROR_RECOVERY\<rparr>" rf]
  by (simp add: nfc_enter_error_recovery_def same_presence_def Let_def)

lemma poll_presence [presence_frame]: "same_presence w (snd (nfc_poll_transmission_status rf w))"
  using error_recovery_presence [of "w\<lparr>rfal_state := r\<rparr>" rf e for r e]
  by (simp add: nfc_poll_transmission_status_def same_presence_def Let_def split: prod.split)

lemma init_session_presence [presence_frame]: "same_presence w (nfc_init_session w)"
  by (simp add: nfc_init_session_def same_presence_def)

lemma wait_rx_presence [presence_frame]: "same_presence w (nfc_handle_wait_rx rf w)"
proof -
  obtain finished w1 where p: "nfc_poll_transmission_status rf w = (finished, w1)" by fastforce
  have "same_presence w w1" using poll_presence [of w rf] p by simp
  moreover have "same_presence w1 (nfc_enter_error_recovery rf 0 w1)" by (rule presence_frame)
  ultimately show ?thesis by (simp add: nfc_handle_wait_rx_def same_presence_def p Let_def)
qed

lemma wait_tx_presence [presence_frame]: "same_presence w (nfc_handle_wait_tx rf w)"
proof -
  obtain finished w1 where p: "nfc_poll_transmission_status rf w = (finished, w1)" by fastforce
  obtain started w3 where r: "nfc_start_rx rf (w1\<lparr>ce_machine := CE_STATE_IDLE\<rparr>) = (started, w3)" by fastforce
  have "same_presence w w1" using poll_presence [of w rf] p by simp
  moreover have "same_presence (w1\<lparr>ce_machine := CE_STATE_IDLE\<rparr>) w3"
    using start_rx_presence [of "w1\<lparr>ce_machine := CE_STATE_IDLE\<rparr>" rf] r by simp
  moreover have "same_presence w3 (nfc_enter_error_recovery rf 0 w3)" by (rule presence_frame)
  ultimately show ?thesis
    by (simp add: nfc_handle_wait_tx_def same_presence_def p r Let_def)
qed

section \<open>The selection of the applet\<close>

definition selects_fido :: "nfc_apdu \<Rightarrow> bool" where
  "selects_fido apdu \<longleftrightarrow> cla apdu = 0 \<and> ins apdu = 0xA4 \<and> p1 apdu = 4 \<and> p2 apdu = 0
     \<and> (\<exists>d. apdu_data apdu = Some d \<and> take (length FIDO_AID) d = FIDO_AID)"

text \<open>A command was received that selects the FIDO applet, and the presence starts now.\<close>

definition presence_started :: "u32 \<Rightarrow> bytes \<Rightarrow> ('c, 'r) nfc_system \<Rightarrow> ('c, 'r) nfc_system \<Rightarrow> bool" where
  "presence_started now raw w w' \<longleftrightarrow> main_state w' = main_state w
     \<and> presence_of w' = ctap_nfc_start_user_presence_timer now (presence_of w)
     \<and> (\<exists>apdu. nfc_parse_apdu (Some raw) = Inr apdu \<and> selects_fido apdu)"

lemma parse_and_respond_presence:
  assumes "nfc_parse_and_respond ctap now w (Some raw) n = Some (r, w')"
  shows "same_presence w w' \<or> presence_started now raw w w'"
proof -
  have sel: "same_presence w w1 \<or> presence_started now raw w w1"
    if "nfc_select_applet now w apdu n = Some (d, w1)" "cla apdu = 0" "ins apdu = 0xA4" "p1 apdu = 4"
      "p2 apdu = 0" "nfc_parse_apdu (Some raw) = Inr apdu" for apdu d w1
    using that by (auto simp: nfc_select_applet_def same_presence_def presence_started_def selects_fido_def
        Let_def split: option.splits if_splits)
  show ?thesis
    using assms sel
    by (auto simp: nfc_parse_and_respond_def same_presence_def split: if_splits sum.splits bind_splits Apps.splits)
qed

lemma process_rx_presence:
  assumes "nfc_handle_process_rx rf ctap now w = Some w'"
  shows "same_presence w w' \<or> presence_started now (received rf (rfal_state w)) w w'"
proof -
  obtain len response w1 where r: "nfc_parse_and_respond ctap now w
      (Some (received rf (rfal_state w))) (of_nat TX_BUF_SIZE) = Some ((len, response), w1)"
    using assms by (auto simp: nfc_handle_process_rx_def require_def split: if_splits bind_splits)
  let ?w2 = "w1\<lparr>tx_buf := response, tx_len := len\<rparr>"
  let ?w3 = "snd (nfc_start_tx rf ?w2 response)"
  let ?w4 = "nfc_enter_error_recovery rf 69 ?w3"
  have "same_presence ?w2 ?w3" "same_presence ?w3 ?w4"
    "same_presence ?w2 (nfc_enter_error_recovery rf 0 ?w2)" by (rule presence_frame)+
  then have "same_presence w1 w'"
    using assms r by (auto simp: nfc_handle_process_rx_def require_def same_presence_def Let_def
        split: if_splits prod.splits)
  then show ?thesis using parse_and_respond_presence [OF r]
    by (auto simp: same_presence_def presence_started_def)
qed

lemma ce_task_presence:
  assumes "nfc_ce_task rf ctap now w = Some (ended, w')"
  shows "same_presence w w' \<or> \<not> ended \<and> ce_machine w = CE_STATE_PROCESS_RX
    \<and> presence_started now (received rf (rfal_state w)) w w'"
proof -
  let ?w1 = "w\<lparr>ce_ctx := (ce_ctx w)\<lparr>negotiated_inf_len := rfalIsoDepGetMaxInfLen rf (rfal_state w)\<rparr>\<rparr>"
  let ?w2 = "snd (nfc_start_rx rf ?w1)"
  have "same_presence ?w1 ?w2" by (rule presence_frame)
  then have w2: "same_presence w ?w2" by (simp add: same_presence_def)
  have run: "same_presence w w'' \<or> ce_machine w = CE_STATE_PROCESS_RX
      \<and> presence_started now (received rf (rfal_state w)) w w''"
    if "(case ce_machine w of CE_STATE_IDLE \<Rightarrow> Some w | CE_STATE_WAIT_RX \<Rightarrow> Some (nfc_handle_wait_rx rf w)
         | CE_STATE_PROCESS_RX \<Rightarrow> nfc_handle_process_rx rf ctap now w
         | CE_STATE_WAIT_TX \<Rightarrow> Some (nfc_handle_wait_tx rf w)
         | CE_STATE_ERROR_RECOVERY \<Rightarrow> Some w) = Some w''" for w''
    using that process_rx_presence [of rf ctap now w w''] by (auto intro: presence_frame split: ce_state.splits)
  have start: "same_presence w w''"
    if "(case ce_machine ?w2 of CE_STATE_IDLE \<Rightarrow> Some ?w2 | CE_STATE_WAIT_RX \<Rightarrow> Some (nfc_handle_wait_rx rf ?w2)
         | CE_STATE_PROCESS_RX \<Rightarrow> nfc_handle_process_rx rf ctap now ?w2
         | CE_STATE_WAIT_TX \<Rightarrow> Some (nfc_handle_wait_tx rf ?w2)
         | CE_STATE_ERROR_RECOVERY \<Rightarrow> Some ?w2) = Some w''" for w''
  proof -
    have "ce_machine ?w2 = CE_STATE_WAIT_RX \<or> ce_machine ?w2 = CE_STATE_ERROR_RECOVERY"
      by (simp add: nfc_start_rx_def Let_def split: prod.split)
    with that have "w'' = nfc_handle_wait_rx rf ?w2 \<or> w'' = ?w2" by auto
    with w2 wait_rx_presence [of ?w2 rf] show ?thesis by (blast intro: same_presence_trans)
  qed
  show ?thesis
    using assms run start presence_frame unfolding nfc_ce_task_def Let_def
    by (fastforce split: if_split_asm)
qed

section \<open>Reachable states\<close>

text \<open>
  The states of the card emulation: after power-up, after \<open>nfc_init\<close>, after the task with any
  service; in between, the authenticator and the library may change in any way.
\<close>

inductive nfc_reachable :: "'r rfal \<Rightarrow> ('c, 'r) nfc_system \<Rightarrow> bool" for rf where
  power_up: "nfc_reachable rf (nfc_runtime_init c r)"
| init: "nfc_reachable rf w \<Longrightarrow> nfc_reachable rf (nfc_init rf w)"
| task: "nfc_reachable rf w \<Longrightarrow> app_nfc_task rf ctap now later w = Some w' \<Longrightarrow> nfc_reachable rf w'"
| elsewhere: "nfc_reachable rf w \<Longrightarrow> nfc_reachable rf (w\<lparr>authenticator := c, rfal_state := r\<rparr>)"

definition presence_ok :: "('c, 'r) nfc_system \<Rightarrow> bool" where
  "presence_ok w \<longleftrightarrow> nfc_user_present (presence_of w) = nfc_ctap_in_use (presence_of w)
     \<and> (nfc_ctap_in_use (presence_of w) \<longrightarrow> main_state w = NFC_CE_ACTIVE
         \<and> threshold (user_presence_timer (presence_of w)) = 12000)"

lemma presence_ok_same: "same_presence w w' \<Longrightarrow> presence_ok w' = presence_ok w"
  by (simp add: presence_ok_def same_presence_def)

text \<open>One turn of the task.\<close>

lemma task_presence:
  assumes "presence_ok w" and "app_nfc_task rf ctap now later w = Some w'"
  shows "presence_ok w' \<and> (nfc_user_present (presence_of w') \<longrightarrow>
      later - begin_timestamp (user_presence_timer (presence_of w')) < 12000
    \<and> (presence_of w' = presence_of w \<and> main_state w = NFC_CE_ACTIVE
       \<or> main_state w = NFC_CE_ACTIVE \<and> ce_machine w = CE_STATE_PROCESS_RX
         \<and> presence_of w' = ctap_nfc_start_user_presence_timer now (presence_of w)
         \<and> (\<exists>apdu. nfc_parse_apdu (Some (received rf (rfalNfcWorker rf (rfal_state w)))) = Inr apdu
              \<and> selects_fido apdu)))"
proof -
  let ?w = "w\<lparr>rfal_state := rfalNfcWorker rf (rfal_state w)\<rparr>"
  have ok: "presence_ok ?w" using assms(1) by (simp add: presence_ok_def)
  show ?thesis
  proof (cases "main_state w")
    case NFC_CE_ACTIVE
    then obtain ended w1 where t: "nfc_ce_task rf ctap now ?w = Some (ended, w1)"
      using assms(2) by (auto simp: app_nfc_task_def split: bind_splits)
    let ?w2 = "if ended then w1\<lparr>main_state := NFC_START_DISCOVERY,
        presence_of := ctap_nfc_stop_user_presence_timer (presence_of w1)\<rparr> else w1"
    have w': "w' = (if ctap_nfc_is_user_presence_timer_expired later (presence_of ?w2)
        then ?w2\<lparr>presence_of := ctap_nfc_stop_user_presence_timer (presence_of ?w2)\<rparr> else ?w2)"
      using assms(2) NFC_CE_ACTIVE t by (simp add: app_nfc_task_def Let_def)
    from ce_task_presence [OF t] NFC_CE_ACTIVE ok show ?thesis
      unfolding w'
      by (auto simp: same_presence_def presence_started_def presence_ok_def ctap_nfc_stop_user_presence_timer_def
          ctap_nfc_start_user_presence_timer_def ctap_nfc_is_user_presence_timer_expired_def not_le)
  qed (use assms in \<open>auto simp: app_nfc_task_def presence_ok_def nfc_init_session_def Let_def split: if_splits\<close>)
qed

lemma reachable_presence_ok: "nfc_reachable rf w \<Longrightarrow> presence_ok w"
proof (induction rule: nfc_reachable.induct)
  case (power_up c r)
  show ?case by (simp add: presence_ok_def nfc_runtime_init_def)
next
  case (init w)
  then show ?case
    by (simp add: nfc_init_def nfc_init_params_def presence_ok_def nfc_init_session_def Let_def split: prod.splits)
next
  case (task w ctap now later w')
  then show ?case using task_presence by blast
next
  case (elsewhere w c r)
  then show ?case by (simp add: presence_ok_def)
qed


section \<open>An example\<close>

text \<open>A reader that selects the FIDO applet again and again.\<close>

definition select_fido :: bytes where
  "select_fido = [0, 0xA4, 4, 0, 8] @ FIDO_AID"

definition example_rfal :: "unit rfal" where
  "example_rfal = \<lparr>rfalNfcInitialize = \<lambda>r. (0, r), rfalNfcDiscover = \<lambda>r p. (0, r), rfalNfcWorker = \<lambda>r. r,
     rfalNfcGetState = \<lambda>r. 30, rfalIsoDepGetMaxInfLen = \<lambda>r. 256,
     rfalNfcDataExchangeStart = \<lambda>r d. (0, True, r), rfalNfcDataExchangeGetStatus = \<lambda>r. (0, r),
     rfalNfcDeactivate = \<lambda>r. r, received = \<lambda>r. select_fido\<rparr>"

definition refusing_service :: "unit ctap_service" where
  "refusing_service c cmd params = Some (1, [], c)"

lemma example_selection:
  "\<exists>w w'. nfc_reachable example_rfal w \<and> app_nfc_task example_rfal refusing_service 100 200 w = Some w'
     \<and> nfc_user_present (presence_of w')"
proof -
  let ?w = "nfc_runtime_init () () :: (unit, unit) nfc_system"
  let ?wa = "(nfc_init_session ?w)\<lparr>main_state := NFC_CE_ACTIVE\<rparr>"
  let ?wb = "?wa\<lparr>ce_ctx := (ce_ctx ?wa)\<lparr>negotiated_inf_len := 256\<rparr>, rx_assigned := True,
      ce_machine := CE_STATE_PROCESS_RX\<rparr>"
  have "app_nfc_task example_rfal refusing_service 0 0 ?w = Some ?wa"
    by (simp add: app_nfc_task_def nfc_runtime_init_def example_rfal_def nfc_init_session_def Let_def
        word_le_nat_alt word_less_nat_alt)
  moreover have "app_nfc_task example_rfal refusing_service 0 0 ?wa = Some ?wb"
    by (simp add: app_nfc_task_def nfc_runtime_init_def example_rfal_def nfc_init_session_def Let_def
        nfc_ce_task_def nfc_start_rx_def nfc_handle_wait_rx_def nfc_poll_transmission_status_def
        select_fido_def FIDO_AID_def ctap_nfc_is_user_presence_timer_expired_def)
  moreover have "\<exists>w'. app_nfc_task example_rfal refusing_service 100 200 ?wb = Some w'
      \<and> nfc_user_present (presence_of w')"
    by (simp add: app_nfc_task_def nfc_runtime_init_def example_rfal_def nfc_init_session_def Let_def
        nfc_ce_task_def nfc_handle_process_rx_def nfc_parse_and_respond_def select_fido_def FIDO_AID_def
        nfc_parse_apdu_def parse_short_apdu_def nfc_select_applet_def nfc_build_response_def read_at_def
        FIDO_VERSION_def with_length_def nfc_start_tx_def ctap_nfc_start_user_presence_timer_def
        ctap_nfc_is_user_presence_timer_expired_def word_le_nat_alt)
  ultimately show ?thesis
    using nfc_reachable.power_up [of example_rfal "()" "()"] nfc_reachable.task by metis
qed

section \<open>Property\<close>

text \<open>
  C39: The user presence over NFC is bounded. Whenever the flag \<open>nfc_user_present\<close> is set after a
  turn of the task, whatever happened before: the card emulation is active, less than 12 seconds
  have passed on the clock since the presence began, and it began before this turn or with the
  selection of the FIDO applet that was just received. Leaving the field, the end of the session
  and the timer clear it.
\<close>

theorem nfc_presence_bounded:
  assumes "nfc_reachable rf w" and "app_nfc_task rf ctap now later w = Some w'"
      and "nfc_user_present (presence_of w')"
  shows "main_state w' = NFC_CE_ACTIVE \<and> nfc_ctap_in_use (presence_of w')
    \<and> later - begin_timestamp (user_presence_timer (presence_of w')) < 12000
    \<and> (nfc_user_present (presence_of w) \<and> presence_of w' = presence_of w
       \<or> begin_timestamp (user_presence_timer (presence_of w')) = now
         \<and> (\<exists>apdu. nfc_parse_apdu (Some (received rf (rfalNfcWorker rf (rfal_state w)))) = Inr apdu
              \<and> selects_fido apdu))"
  using task_presence [OF reachable_presence_ok [OF assms(1)] assms(2)] assms(3)
  by (auto simp: presence_ok_def ctap_nfc_start_user_presence_timer_def)

theorem nfc_presence_bounded_witness:
  "\<exists>w' :: (unit, unit) nfc_system. nfc_user_present (presence_of w') \<and> main_state w' = NFC_CE_ACTIVE
     \<and> 200 - begin_timestamp (user_presence_timer (presence_of w')) < 12000"
  using example_selection nfc_presence_bounded by blast

end
