(* ===== verification/Hw_Crypto.thy ===== *)
theory Hw_Crypto
  imports Pin_Protocol
begin

text \<open>
  The cryptographic interface on the peripherals of the STM32H533
  (\<open>targets/stm32h533/Src/hw_crypto.c\<close>, \<open>hw_crypto_curves.c\<close>), which is the one the device uses.
  The HAL drivers and the peripherals (random number generator, public key accelerator, AES, HASH)
  are parameters. A timeout of \<open>HAL_MAX_DELAY\<close> waits forever; \<open>Error_Handler\<close> does not return.
\<close>

section \<open>The curve\<close>

record stm32h533_crypto_ecc_curve =
  prime_order_size :: nat
  modulus_size :: nat
  a_sign :: nat
  abs_a :: bytes
  curve_b :: bytes
  curve_p :: bytes
  curve_G :: bytes
  curve_xG :: bytes
  curve_yG :: bytes
  curve_n :: bytes

definition secp256r1_abs_a :: bytes where
  "secp256r1_abs_a = [
     0x00, 0x00, 0x00, 0x00, 0x00, 0x00, 0x00, 0x00, 0x00, 0x00, 0x00, 0x00, 0x00, 0x00, 0x00, 0x00,
     0x00, 0x00, 0x00, 0x00, 0x00, 0x00, 0x00, 0x00, 0x00, 0x00, 0x00, 0x00, 0x00, 0x00, 0x00, 0x03]"

definition secp256r1_b :: bytes where
  "secp256r1_b = [
     0x5a, 0xc6, 0x35, 0xd8, 0xaa, 0x3a, 0x93, 0xe7, 0xb3, 0xeb, 0xbd, 0x55, 0x76, 0x98, 0x86, 0xbc,
     0x65, 0x1d, 0x06, 0xb0, 0xcc, 0x53, 0xb0, 0xf6, 0x3b, 0xce, 0x3c, 0x3e, 0x27, 0xd2, 0x60, 0x4b]"

definition secp256r1_p :: bytes where
  "secp256r1_p = [
     0xff, 0xff, 0xff, 0xff, 0x00, 0x00, 0x00, 0x01, 0x00, 0x00, 0x00, 0x00, 0x00, 0x00, 0x00, 0x00,
     0x00, 0x00, 0x00, 0x00, 0xff, 0xff, 0xff, 0xff, 0xff, 0xff, 0xff, 0xff, 0xff, 0xff, 0xff, 0xff]"

definition secp256r1_n :: bytes where
  "secp256r1_n = [
     0xff, 0xff, 0xff, 0xff, 0x00, 0x00, 0x00, 0x00, 0xff, 0xff, 0xff, 0xff, 0xff, 0xff, 0xff, 0xff,
     0xbc, 0xe6, 0xfa, 0xad, 0xa7, 0x17, 0x9e, 0x84, 0xf3, 0xb9, 0xca, 0xc2, 0xfc, 0x63, 0x25, 0x51]"

definition secp256r1_G :: bytes where
  "secp256r1_G = [
     0x6b, 0x17, 0xd1, 0xf2, 0xe1, 0x2c, 0x42, 0x47, 0xf8, 0xbc, 0xe6, 0xe5, 0x63, 0xa4, 0x40, 0xf2,
     0x77, 0x03, 0x7d, 0x81, 0x2d, 0xeb, 0x33, 0xa0, 0xf4, 0xa1, 0x39, 0x45, 0xd8, 0x98, 0xc2, 0x96,
     0x4f, 0xe3, 0x42, 0xe2, 0xfe, 0x1a, 0x7f, 0x9b, 0x8e, 0xe7, 0xeb, 0x4a, 0x7c, 0x0f, 0x9e, 0x16,
     0x2b, 0xce, 0x33, 0x57, 0x6b, 0x31, 0x5e, 0xce, 0xcb, 0xb6, 0x40, 0x68, 0x37, 0xbf, 0x51, 0xf5]"

definition stm32h533_secp256r1 :: stm32h533_crypto_ecc_curve where
  "stm32h533_secp256r1 = \<lparr>prime_order_size = 32, modulus_size = 32, a_sign = 1,
     abs_a = secp256r1_abs_a, curve_b = secp256r1_b, curve_p = secp256r1_p, curve_G = secp256r1_G,
     curve_xG = take 32 secp256r1_G, curve_yG = drop 32 secp256r1_G, curve_n = secp256r1_n\<rparr>"

section \<open>The drivers\<close>

text \<open>The inputs of the public key accelerator.\<close>

record PKA_ECCMulInTypeDef =
  mul_scalarMulSize :: nat
  mul_modulusSize :: nat
  mul_coefSign :: nat
  mul_coefA :: bytes
  mul_coefB :: bytes
  mul_modulus :: bytes
  mul_pointX :: bytes
  mul_pointY :: bytes
  mul_primeOrder :: bytes
  mul_scalarMul :: bytes

record PKA_ECDSASignInTypeDef =
  sign_primeOrderSize :: nat
  sign_modulusSize :: nat
  sign_coefSign :: nat
  sign_coef :: bytes
  sign_coefB :: bytes
  sign_modulus :: bytes
  sign_basePointX :: bytes
  sign_basePointY :: bytes
  sign_primeOrder :: bytes
  sign_integer :: bytes
  sign_hash :: bytes
  sign_privateKey :: bytes

text \<open>The key and initialisation vector registers of the AES peripheral, by their numbers.\<close>

record aes_registers =
  KEYR :: "u32 list"
  IVR :: "u32 list"

text \<open>
  The HAL: \<open>None\<close> and \<open>False\<close> are a status other than \<open>HAL_OK\<close>. The signing operation may end
  differently when it is repeated, so it has the number of the attempt as an argument. The key
  preparation of AES sets its flag after some number of polls; \<open>tick\<close> is the clock at a poll. The
  state \<open>'p\<close> of the HASH peripheral is passed explicitly.
\<close>

record 'p stm32h533_hal =
  hal_rng_word :: "nat \<Rightarrow> u32 option"
  HAL_PKA_ECCMul :: "PKA_ECCMulInTypeDef \<Rightarrow> (bytes \<times> bytes) option"
  HAL_PKA_ECDSASign :: "nat \<Rightarrow> PKA_ECDSASignInTypeDef \<Rightarrow> (bytes \<times> bytes) option"
  polls_until_CCF :: nat
  tick :: "nat \<Rightarrow> u32"
  HAL_CRYP_Encrypt :: "aes_registers \<Rightarrow> bytes \<Rightarrow> bytes option"
  HAL_CRYP_Decrypt :: "aes_registers \<Rightarrow> bytes \<Rightarrow> bytes option"
  HAL_HASH_Accumulate :: "'p \<Rightarrow> bytes \<Rightarrow> bool \<times> 'p"
  HAL_HASH_AccumulateLast :: "'p \<Rightarrow> bytes \<Rightarrow> bytes option \<times> 'p"
  HAL_HASH_Start :: "'p \<Rightarrow> bytes \<Rightarrow> bytes option \<times> 'p"

section \<open>Random numbers\<close>

text \<open>
  \<open>HAL_RNG_GenerateRandomNumber\<close> yields the words of a stream, or fails. The loop over full words
  gives the status, the bytes written so far and the next position. (The increment of \<open>word\<close> at the
  end of a turn has no effect, the word is overwritten.)
\<close>

function hw_rng_full_words :: "'p stm32h533_hal \<Rightarrow> nat \<Rightarrow> nat \<Rightarrow> bytes \<Rightarrow> bool \<times> bytes \<times> nat" where
  "hw_rng_full_words hal rng len buffer =
     (if length buffer + 4 \<le> len then
        (case hal_rng_word hal rng of
           None \<Rightarrow> (False, buffer, rng + 1)
         | Some word \<Rightarrow> hw_rng_full_words hal (rng + 1) len (buffer @ le32 word))
      else (True, buffer, rng))"
  by pat_completeness auto
termination by (relation "measure (\<lambda>(hal, rng, len, buffer). len - length buffer)") auto

declare hw_rng_full_words.simps [simp del]

definition stm32h533_crypto_rng_generate_data :: "'p stm32h533_hal \<Rightarrow> nat \<Rightarrow> nat \<Rightarrow> bool \<times> bytes \<times> nat"
  where
  "stm32h533_crypto_rng_generate_data hal rng len =
     (let (ok, buffer, rng1) = hw_rng_full_words hal rng len [] in
      if \<not> ok then (False, buffer, rng1)
      else if length buffer < len then
        (case hal_rng_word hal rng1 of
           None \<Rightarrow> (False, buffer, rng1 + 1)
         | Some word \<Rightarrow> (True, buffer @ take (len - length buffer) (le32 word), rng1 + 1))
      else (True, buffer, rng1))"

text \<open>A generator that does not fail gives the same bytes as the loop of the software.\<close>

lemma hw_rng_full_words_ok:
  assumes "\<And>i. hal_rng_word hal i = Some (mt i)"
  shows "hw_rng_full_words hal rng len buffer = (True, rng_full_words mt rng len buffer)"
  using assms
proof (induction hal rng len buffer rule: hw_rng_full_words.induct)
  case (1 hal rng len buffer)
  then show ?case
    by (subst hw_rng_full_words.simps, subst rng_full_words.simps) simp
qed

lemma hw_rng_ok:
  assumes "\<And>i. hal_rng_word hal i = Some (tinymt32 libs i)"
  shows "stm32h533_crypto_rng_generate_data hal rng len = ctap_software_crypto_rng_generate_data libs rng len"
  using hw_rng_full_words_ok [of hal "tinymt32 libs" rng len "[]"] assms
  by (simp add: stm32h533_crypto_rng_generate_data_def ctap_software_crypto_rng_generate_data_def Let_def
      split: prod.split)

section \<open>Elliptic curves\<close>

definition are_all_bytes_zero :: "bytes \<Rightarrow> bool" where
  "are_all_bytes_zero bs \<longleftrightarrow> fold (\<lambda>b v. v OR b) bs 0 = 0"

definition secp256r1_mul :: "bytes \<Rightarrow> bytes \<Rightarrow> bytes \<Rightarrow> PKA_ECCMulInTypeDef" where
  "secp256r1_mul x y k = (let c = stm32h533_secp256r1 in
     \<lparr>mul_scalarMulSize = prime_order_size c, mul_modulusSize = modulus_size c,
      mul_coefSign = a_sign c, mul_coefA = abs_a c, mul_coefB = curve_b c, mul_modulus = curve_p c,
      mul_pointX = x, mul_pointY = y, mul_primeOrder = curve_n c, mul_scalarMul = k\<rparr>)"

definition stm32h533_crypto_ecc_secp256r1_compute_public_key ::
    "'p stm32h533_hal \<Rightarrow> nat \<Rightarrow> bytes \<Rightarrow> bool \<times> bytes \<times> nat" where
  "stm32h533_crypto_ecc_secp256r1_compute_public_key hal rng private_key =
     (case HAL_PKA_ECCMul hal (secp256r1_mul (curve_xG stm32h533_secp256r1)
             (curve_yG stm32h533_secp256r1) private_key) of
        None \<Rightarrow> (False, [], rng)
      | Some (x, y) \<Rightarrow>
          let public_key = x @ y in
          if are_all_bytes_zero public_key then (False, public_key, rng)
          else (True, public_key, rng))"

fun stm32h533_crypto_generate_random_k :: "'p stm32h533_hal \<Rightarrow> nat \<Rightarrow> nat \<Rightarrow> bytes option \<times> nat" where
  "stm32h533_crypto_generate_random_k hal rng 0 = (None, rng)"
| "stm32h533_crypto_generate_random_k hal rng (Suc max_num_tries) =
     (let (ok, k, rng1) = stm32h533_crypto_rng_generate_data hal rng (prime_order_size stm32h533_secp256r1) in
      if ok then (Some k, rng1) else stm32h533_crypto_generate_random_k hal rng1 max_num_tries)"

abbreviation (input) stm32h533_crypto_ecc_max_num_tries :: nat where
  "stm32h533_crypto_ecc_max_num_tries \<equiv> 2"

text \<open>The attempts from number \<open>attempt\<close> on, \<open>n\<close> in number, with the same input.\<close>

fun hw_sign_attempts :: "'p stm32h533_hal \<Rightarrow> PKA_ECDSASignInTypeDef \<Rightarrow> nat \<Rightarrow> nat \<Rightarrow> bytes option" where
  "hw_sign_attempts hal input attempt 0 = None"
| "hw_sign_attempts hal input attempt (Suc n) =
     (case HAL_PKA_ECDSASign hal attempt input of
        Some (r, s) \<Rightarrow> Some (r @ s)
      | None \<Rightarrow> hw_sign_attempts hal input (attempt + 1) n)"

definition stm32h533_crypto_ecc_secp256r1_sign ::
    "'p stm32h533_hal \<Rightarrow> nat \<Rightarrow> bytes \<Rightarrow> bytes \<Rightarrow> bytes option \<Rightarrow> bytes option \<times> nat" where
  "stm32h533_crypto_ecc_secp256r1_sign hal rng private_key message_hash optional_fixed_k =
     (let c = stm32h533_secp256r1 in
      if length message_hash \<noteq> prime_order_size c then (None, rng)
      else
        let (nonce, rng1) = (case optional_fixed_k of
              Some k \<Rightarrow> (Some k, rng)
            | None \<Rightarrow> stm32h533_crypto_generate_random_k hal rng stm32h533_crypto_ecc_max_num_tries) in
        case nonce of
          None \<Rightarrow> (None, rng1)
        | Some k \<Rightarrow>
            (hw_sign_attempts hal \<lparr>sign_primeOrderSize = prime_order_size c,
               sign_modulusSize = modulus_size c, sign_coefSign = a_sign c, sign_coef = abs_a c,
               sign_coefB = curve_b c, sign_modulus = curve_p c, sign_basePointX = curve_xG c,
               sign_basePointY = curve_yG c, sign_primeOrder = curve_n c, sign_integer = k,
               sign_hash = message_hash, sign_privateKey = private_key\<rparr>
               0 stm32h533_crypto_ecc_max_num_tries, rng1))"

definition stm32h533_crypto_ecc_secp256r1_shared_secret ::
    "'p stm32h533_hal \<Rightarrow> nat \<Rightarrow> bytes \<Rightarrow> bytes \<Rightarrow> bytes option \<times> nat" where
  "stm32h533_crypto_ecc_secp256r1_shared_secret hal rng public_key private_key =
     (case HAL_PKA_ECCMul hal (secp256r1_mul (take 32 public_key) (take 32 (drop 32 public_key)) private_key) of
        None \<Rightarrow> (None, rng)
      | Some (secret, shared_point_y) \<Rightarrow>
          (if are_all_bytes_zero secret \<and> are_all_bytes_zero shared_point_y then None else Some secret, rng))"

lemma fold_or_zero: "fold (\<lambda>b v. v OR b) bs v = 0 \<longleftrightarrow> v = 0 \<and> (\<forall>b\<in>set bs. b = (0 :: u8))"
proof (induction bs arbitrary: v)
  case (Cons b bs)
  have "v OR b = 0 \<longleftrightarrow> v = 0 \<and> b = 0" by (auto simp: bit_eq_iff bit_simps)
  with Cons.IH [of "v OR b"] show ?case by auto
qed simp

lemma all_bytes_zero: "are_all_bytes_zero bs \<longleftrightarrow> (\<forall>b\<in>set bs. b = 0)"
  by (simp add: are_all_bytes_zero_def fold_or_zero)

section \<open>AES\<close>

text \<open>The words of a byte string in memory, and \<open>lion_bswap32\<close>.\<close>

definition lion_bswap32 :: "u32 \<Rightarrow> u32" where
  "lion_bswap32 w = le32_read (rev (le32 w))"

definition memory_word :: "bytes \<Rightarrow> nat \<Rightarrow> u32" where
  "memory_word bs i = le32_read (drop (4 * i) bs)"

definition CRYP_AES_256_SetKey_Swap :: "bytes \<Rightarrow> aes_registers \<Rightarrow> aes_registers" where
  "CRYP_AES_256_SetKey_Swap key regs = regs\<lparr>KEYR :=
     [lion_bswap32 (memory_word key 7), lion_bswap32 (memory_word key 6),
      lion_bswap32 (memory_word key 5), lion_bswap32 (memory_word key 4),
      lion_bswap32 (memory_word key 3), lion_bswap32 (memory_word key 2),
      lion_bswap32 (memory_word key 1), lion_bswap32 (memory_word key 0)]\<rparr>"

definition CRYP_AES_256_SetIV_Swap :: "bytes \<Rightarrow> aes_registers \<Rightarrow> aes_registers" where
  "CRYP_AES_256_SetIV_Swap iv regs = regs\<lparr>IVR :=
     [lion_bswap32 (memory_word iv 3), lion_bswap32 (memory_word iv 2),
      lion_bswap32 (memory_word iv 1), lion_bswap32 (memory_word iv 0)]\<rparr>"

abbreviation (input) HAL_MAX_DELAY :: u32 where "HAL_MAX_DELAY \<equiv> 0xFFFFFFFF"

text \<open>The wait for the flag, with \<open>n\<close> polls left until it is set, at the poll number \<open>i\<close>.\<close>

fun CRYP_WaitOnCCFlag :: "(nat \<Rightarrow> u32) \<Rightarrow> u32 \<Rightarrow> u32 \<Rightarrow> nat \<Rightarrow> nat \<Rightarrow> bool" where
  "CRYP_WaitOnCCFlag clock timeout tick_start i 0 = True"
| "CRYP_WaitOnCCFlag clock timeout tick_start i (Suc n) =
     (if timeout \<noteq> HAL_MAX_DELAY \<and> (clock i - tick_start > timeout \<or> timeout = 0) then False
      else CRYP_WaitOnCCFlag clock timeout tick_start (i + 1) n)"

lemma wait_forever [simp]: "CRYP_WaitOnCCFlag clock HAL_MAX_DELAY start i n"
  by (induction n arbitrary: i) simp_all

definition CRYP_AES_256_CBC_SetDecryptKey ::
    "'p stm32h533_hal \<Rightarrow> bytes \<Rightarrow> u32 \<Rightarrow> aes_registers \<Rightarrow> aes_registers option" where
  "CRYP_AES_256_CBC_SetDecryptKey hal key timeout regs =
     (let regs1 = CRYP_AES_256_SetKey_Swap key regs in
      if CRYP_WaitOnCCFlag (tick hal) timeout (tick hal 0) 1 (polls_until_CCF hal) then Some regs1
      else None)"

text \<open>The registers before an operation may hold anything; both operations write all of them.\<close>

definition cleared_registers :: aes_registers where
  "cleared_registers = \<lparr>KEYR = replicate 8 0, IVR = replicate 4 0\<rparr>"

definition stm32h533_crypto_aes_256_cbc_encrypt ::
    "'p stm32h533_hal \<Rightarrow> bytes \<Rightarrow> bytes \<Rightarrow> bytes \<Rightarrow> bytes option" where
  "stm32h533_crypto_aes_256_cbc_encrypt hal iv key d =
     (if length d = 0 then Some d
      else if length d mod 16 \<noteq> 0 then None
      else HAL_CRYP_Encrypt hal
             (CRYP_AES_256_SetIV_Swap iv (CRYP_AES_256_SetKey_Swap key cleared_registers)) d)"

definition stm32h533_crypto_aes_256_cbc_decrypt ::
    "'p stm32h533_hal \<Rightarrow> bytes \<Rightarrow> bytes \<Rightarrow> bytes \<Rightarrow> bytes option" where
  "stm32h533_crypto_aes_256_cbc_decrypt hal iv key d =
     (if length d = 0 then Some d
      else if length d mod 16 \<noteq> 0 then None
      else case CRYP_AES_256_CBC_SetDecryptKey hal key HAL_MAX_DELAY
                  (CRYP_AES_256_SetIV_Swap iv cleared_registers) of
        None \<Rightarrow> None
      | Some regs \<Rightarrow> HAL_CRYP_Decrypt hal regs d)"

text \<open>
  The bytes that the registers hold, the most significant first: the byte swaps put the key and the
  initialisation vector into the registers in their order in memory.
\<close>

definition register_bytes :: "u32 list \<Rightarrow> bytes" where
  "register_bytes regs = concat (map be32 (rev regs))"

lemma le32_le32_read: "length bs = 4 \<Longrightarrow> le32 (le32_read bs) = bs"
proof -
  assume "length bs = 4"
  then obtain a b c d where bs: "bs = [a, b, c, d]"
    by (auto simp: length_Suc_conv eval_nat_numeral)
  have "ucast (le32_read bs) = a" "ucast (drop_bit 8 (le32_read bs)) = b"
      "ucast (drop_bit 16 (le32_read bs)) = c" "ucast (drop_bit 24 (le32_read bs)) = d"
    by (rule bit_word_eqI; auto simp: bs le32_read_def bit_simps dest: bit_imp_le_length)+
  then show ?thesis by (simp add: le32_def bs)
qed

lemma be32_bswap32: "be32 (lion_bswap32 w) = le32 w"
proof -
  have "be32 v = rev (le32 v)" for v by (simp add: be32_def le32_def)
  then show ?thesis by (simp add: lion_bswap32_def le32_le32_read)
qed

lemma be32_swapped_word:
  "4 * i + 4 \<le> length bs \<Longrightarrow> be32 (lion_bswap32 (memory_word bs i)) = take 4 (drop (4 * i) bs)"
proof -
  assume "4 * i + 4 \<le> length bs"
  moreover have "le32_read (drop (4 * i) bs) = le32_read (take 4 (drop (4 * i) bs))"
    by (simp add: le32_read_def)
  ultimately show ?thesis by (simp add: be32_bswap32 memory_word_def le32_le32_read)
qed

lemma concat_words: "concat (map (\<lambda>i. take 4 (drop (4 * i) bs)) [0..<n]) = take (4 * n) bs"
  by (induction n) (simp_all add: take_add [symmetric] add.commute)

lemma key_registers: "length key = 32 \<Longrightarrow> register_bytes (KEYR (CRYP_AES_256_SetKey_Swap key regs)) = key"
  using concat_words [of key 8]
  by (simp add: register_bytes_def CRYP_AES_256_SetKey_Swap_def be32_swapped_word upt_rec)

lemma iv_registers: "length iv = 16 \<Longrightarrow> register_bytes (IVR (CRYP_AES_256_SetIV_Swap iv regs)) = iv"
  using concat_words [of iv 4]
  by (simp add: register_bytes_def CRYP_AES_256_SetIV_Swap_def be32_swapped_word upt_rec)

lemma other_registers [simp]:
  "KEYR (CRYP_AES_256_SetIV_Swap iv regs) = KEYR regs" "IVR (CRYP_AES_256_SetKey_Swap key regs) = IVR regs"
  by (simp_all add: CRYP_AES_256_SetIV_Swap_def CRYP_AES_256_SetKey_Swap_def)

text \<open>Encryption and decryption find the same registers.\<close>

lemma same_registers:
  "CRYP_AES_256_CBC_SetDecryptKey hal key HAL_MAX_DELAY (CRYP_AES_256_SetIV_Swap iv cleared_registers)
   = Some (CRYP_AES_256_SetIV_Swap iv (CRYP_AES_256_SetKey_Swap key cleared_registers))"
  by (simp add: CRYP_AES_256_CBC_SetDecryptKey_def CRYP_AES_256_SetIV_Swap_def CRYP_AES_256_SetKey_Swap_def
      Let_def)


section \<open>SHA-256\<close>

text \<open>
  The HASH peripheral takes data in multiples of 4 bytes: up to 3 bytes wait in the context. \<open>None\<close>
  is a failed assertion or \<open>Error_Handler\<close>. A context is passed together with the state of the
  peripheral, which there is only one of: it must not be used for another message before the digest
  was computed.
\<close>

record stm32h533_crypto_sha256_ctx =
  num_extra_bytes :: nat
  extra_bytes :: bytes

definition stm32h533_crypto_sha256_bind_ctx :: "stm32h533_crypto_sha256_ctx \<Rightarrow> stm32h533_crypto_sha256_ctx" where
  "stm32h533_crypto_sha256_bind_ctx ctx = ctx\<lparr>num_extra_bytes := 0\<rparr>"

text \<open>The first part of an update: the waiting bytes are completed to a word.\<close>

definition hw_sha256_complete_word :: "'p stm32h533_hal \<Rightarrow> bytes \<Rightarrow> stm32h533_crypto_sha256_ctx \<Rightarrow> 'p
    \<Rightarrow> (bool \<times> bytes \<times> stm32h533_crypto_sha256_ctx \<times> 'p) option" where
  "hw_sha256_complete_word hal d ctx p =
     (if num_extra_bytes ctx > 0 then
        let needed_to_4 = 4 - num_extra_bytes ctx in
        do { (d1, ctx1) \<leftarrow>
               (if needed_to_4 > 0 then
                  let use_from_data = min needed_to_4 (length d) in
                  do { extra \<leftarrow> memcpy_at (extra_bytes ctx) (num_extra_bytes ctx) (take use_from_data d);
                       Some (drop use_from_data d, ctx\<lparr>extra_bytes := extra,
                         num_extra_bytes := num_extra_bytes ctx + use_from_data\<rparr>) }
                else Some (d, ctx));
             if num_extra_bytes ctx1 \<noteq> 4 then require (d1 = []) (Some (True, d1, ctx1, p))
             else
               let (ok, p1) = HAL_HASH_Accumulate hal p (extra_bytes ctx1) in
               require ok (Some (False, d1, ctx1\<lparr>num_extra_bytes := 0\<rparr>, p1)) }
      else Some (False, d, ctx, p))"

definition stm32h533_crypto_sha256_update :: "'p stm32h533_hal \<Rightarrow> bytes \<Rightarrow> stm32h533_crypto_sha256_ctx \<Rightarrow> 'p
    \<Rightarrow> (stm32h533_crypto_sha256_ctx \<times> 'p) option" where
  "stm32h533_crypto_sha256_update hal d ctx p =
     (if length d = 0 then Some (ctx, p)
      else do {
        (finished, d1, ctx1, p1) \<leftarrow> hw_sha256_complete_word hal d ctx p;
        if finished then Some (ctx1, p1)
        else
          let n = length d1 mod 4 in
          do { ctx2 \<leftarrow>
                 (if n > 0 then
                    require (n \<le> 3) (require (num_extra_bytes ctx1 = 0) (do {
                      extra \<leftarrow> memcpy_at (extra_bytes ctx1) 0 (drop (length d1 - n) d1);
                      Some (ctx1\<lparr>extra_bytes := extra, num_extra_bytes := n\<rparr>) }))
                  else Some ctx1);
               let (ok, p2) = HAL_HASH_Accumulate hal p1 (take (length d1 - n) d1) in
               require ok (Some (ctx2, p2)) } })"

definition stm32h533_crypto_sha256_final :: "'p stm32h533_hal \<Rightarrow> stm32h533_crypto_sha256_ctx \<Rightarrow> 'p
    \<Rightarrow> (bytes \<times> stm32h533_crypto_sha256_ctx \<times> 'p) option" where
  "stm32h533_crypto_sha256_final hal ctx p =
     (let (digest, p1) = HAL_HASH_AccumulateLast hal p (take (num_extra_bytes ctx) (extra_bytes ctx)) in
      case digest of
        None \<Rightarrow> None
      | Some h \<Rightarrow> Some (h, ctx\<lparr>num_extra_bytes := 0\<rparr>, p1))"

definition stm32h533_crypto_sha256_compute_digest :: "'p stm32h533_hal \<Rightarrow> 'p \<Rightarrow> bytes \<Rightarrow> bytes option" where
  "stm32h533_crypto_sha256_compute_digest hal p d = fst (HAL_HASH_Start hal p d)"

text \<open>
  The documented behaviour of the peripheral. \<open>stream p m\<close>: the message \<open>m\<close> was accumulated since
  the last digest.
\<close>

definition hash_peripheral_ok :: "'p stm32h533_hal \<Rightarrow> ('p \<Rightarrow> bytes \<Rightarrow> bool) \<Rightarrow> bool" where
  "hash_peripheral_ok hal stream \<longleftrightarrow>
     (\<forall>p m d. stream p m \<and> 4 dvd length d \<longrightarrow>
        (\<exists>p1. HAL_HASH_Accumulate hal p d = (True, p1) \<and> stream p1 (m @ d)))
   \<and> (\<forall>p m d. stream p m \<longrightarrow>
        (\<exists>p1. HAL_HASH_AccumulateLast hal p d = (Some (sha256_spec (m @ d)), p1) \<and> stream p1 []))
   \<and> (\<forall>p m d. stream p m \<longrightarrow> fst (HAL_HASH_Start hal p d) = Some (sha256_spec d))"

lemma accumulate_ok:
  "hash_peripheral_ok hal stream \<Longrightarrow> stream p m \<Longrightarrow> 4 dvd length d \<Longrightarrow>
   \<exists>p1. HAL_HASH_Accumulate hal p d = (True, p1) \<and> stream p1 (m @ d)"
  by (simp add: hash_peripheral_ok_def)

lemma start_ok: "hash_peripheral_ok hal stream \<Longrightarrow> stream p m \<Longrightarrow> fst (HAL_HASH_Start hal p d) = Some (sha256_spec d)"
  unfolding hash_peripheral_ok_def by blast

text \<open>The message so far: what was accumulated, and the bytes that wait.\<close>

definition hw_absorbed :: "('p \<Rightarrow> bytes \<Rightarrow> bool) \<Rightarrow> stm32h533_crypto_sha256_ctx \<Rightarrow> 'p \<Rightarrow> bytes \<Rightarrow> bool" where
  "hw_absorbed stream ctx p m \<longleftrightarrow> length (extra_bytes ctx) = 4 \<and> num_extra_bytes ctx \<le> 3
     \<and> (\<exists>a. stream p a \<and> m = a @ take (num_extra_bytes ctx) (extra_bytes ctx))"

lemma complete_word_ok:
  assumes hal: "hash_peripheral_ok hal stream" and "hw_absorbed stream ctx p m" and "d \<noteq> []"
  shows "\<exists>finished d1 ctx1 p1. hw_sha256_complete_word hal d ctx p = Some (finished, d1, ctx1, p1)
    \<and> (if finished then hw_absorbed stream ctx1 p1 (m @ d)
       else num_extra_bytes ctx1 = 0 \<and> length (extra_bytes ctx1) = 4
         \<and> (\<exists>a. stream p1 a \<and> a @ d1 = m @ d))"
proof (cases "num_extra_bytes ctx > 0")
  case False
  then have "hw_sha256_complete_word hal d ctx p = Some (False, d, ctx, p)"
    by (simp add: hw_sha256_complete_word_def)
  with False assms(2) show ?thesis by (auto simp: hw_absorbed_def)
next
  case True
  let ?n = "num_extra_bytes ctx" and ?x = "extra_bytes ctx"
  let ?u = "min (4 - ?n) (length d)"
  obtain a where a: "stream p a" "m = a @ take ?n ?x" "length ?x = 4" "?n \<le> 3"
    using assms(2) by (auto simp: hw_absorbed_def)
  let ?e = "take ?n ?x @ take ?u d @ drop (?n + ?u) ?x"
  have e: "memcpy_at ?x ?n (take ?u d) = Some ?e" using a(3,4) by (auto simp: memcpy_at_def min_def)
  have le: "length ?e = 4" using a(3,4) by simp
  show ?thesis
  proof (cases "?n + ?u = 4")
    case False
    then have "?u = length d" using a(4) by (auto simp: min_def split: if_splits)
    with True e a False have "hw_sha256_complete_word hal d ctx p
        = Some (True, [], ctx\<lparr>extra_bytes := ?e, num_extra_bytes := ?n + ?u\<rparr>, p)"
      by (simp add: hw_sha256_complete_word_def Let_def require_def)
    moreover have "hw_absorbed stream (ctx\<lparr>extra_bytes := ?e, num_extra_bytes := ?n + ?u\<rparr>) p (m @ d)"
      using \<open>?u = length d\<close> le a False by (simp add: hw_absorbed_def)
    ultimately show ?thesis by auto
  next
    case four: True
    obtain p1 where p1: "HAL_HASH_Accumulate hal p ?e = (True, p1)" "stream p1 (a @ ?e)"
      using accumulate_ok [OF hal a(1), of ?e] le by auto
    have "?e = take ?n ?x @ take ?u d" using four a(3) by simp
    then have "(a @ ?e) @ drop ?u d = m @ d" using a(2) by simp
    with True e le a four p1 show ?thesis
      by (simp add: hw_sha256_complete_word_def Let_def require_def del: append_assoc) blast
  qed
qed

lemma hw_update_ok:
  assumes "hash_peripheral_ok hal stream" and "hw_absorbed stream ctx p m"
  shows "\<exists>ctx1 p1. stm32h533_crypto_sha256_update hal d ctx p = Some (ctx1, p1)
    \<and> hw_absorbed stream ctx1 p1 (m @ d)"
proof (cases "d = []")
  case True
  with assms(2) show ?thesis by (simp add: stm32h533_crypto_sha256_update_def)
next
  case False
  obtain finished d1 ctx1 p1 where c: "hw_sha256_complete_word hal d ctx p = Some (finished, d1, ctx1, p1)"
    "if finished then hw_absorbed stream ctx1 p1 (m @ d)
     else num_extra_bytes ctx1 = 0 \<and> length (extra_bytes ctx1) = 4 \<and> (\<exists>a. stream p1 a \<and> a @ d1 = m @ d)"
    using complete_word_ok [OF assms False] by blast
  show ?thesis
  proof (cases finished)
    case True
    with c False show ?thesis by (simp add: stm32h533_crypto_sha256_update_def)
  next
    case rest: False
    let ?n = "length d1 mod 4"
    let ?w = "take (length d1 - ?n) d1" and ?r = "drop (length d1 - ?n) d1"
    obtain a where a: "stream p1 a" "a @ d1 = m @ d" using c(2) rest by auto
    have "4 dvd length ?w" by (simp add: minus_mod_eq_mult_div)
    then obtain p2 where p2: "HAL_HASH_Accumulate hal p1 ?w = (True, p2)" "stream p2 (a @ ?w)"
      using accumulate_ok [OF assms(1) a(1)] by blast
    have r: "length ?r = ?n" "?n \<le> 3" by simp_all
    have m: "(a @ ?w) @ ?r = m @ d" using a(2) by simp
    show ?thesis
    proof (cases "?n > 0")
      case True
      have "memcpy_at (extra_bytes ctx1) 0 ?r = Some (?r @ drop ?n (extra_bytes ctx1))"
        using c(2) rest r by (simp add: memcpy_at_def)
      with True c rest False p2 r m show ?thesis
        by (auto simp: stm32h533_crypto_sha256_update_def Let_def require_def hw_absorbed_def)
    next
      case none: False
      then have "?w = d1" by simp
      with none c rest False p2 m show ?thesis
        by (auto simp: stm32h533_crypto_sha256_update_def Let_def require_def hw_absorbed_def)
    qed
  qed
qed

lemma hw_final_ok:
  assumes "hash_peripheral_ok hal stream" and "hw_absorbed stream ctx p m"
  shows "\<exists>ctx1 p1. stm32h533_crypto_sha256_final hal ctx p = Some (sha256_spec m, ctx1, p1)
    \<and> hw_absorbed stream ctx1 p1 []"
proof -
  obtain a where a: "stream p a" "m = a @ take (num_extra_bytes ctx) (extra_bytes ctx)"
    using assms(2) by (auto simp: hw_absorbed_def)
  then obtain p1 where "HAL_HASH_AccumulateLast hal p (take (num_extra_bytes ctx) (extra_bytes ctx))
      = (Some (sha256_spec m), p1)" "stream p1 []"
    using assms(1) by (metis hash_peripheral_ok_def)
  with assms(2) show ?thesis by (simp add: stm32h533_crypto_sha256_final_def hw_absorbed_def)
qed

section \<open>The interface\<close>

text \<open>
  The hash context that the rest of the program passes around is the structure together with the
  peripheral it is bound to; \<open>None\<close> is the halted device (\<open>Error_Handler\<close>, a failed assertion),
  which no call leaves. \<open>stm32h533_crypto_sha256_init\<close> does nothing.
\<close>

type_synonym 'p hw_hash = "(stm32h533_crypto_sha256_ctx \<times> 'p) option"

definition hash_alg_hw_sha256 :: "'p stm32h533_hal \<Rightarrow> 'p hw_hash hash_alg" where
  "hash_alg_hw_sha256 hal = \<lparr>output_size = 32, block_size = 64,
     hash_init = (\<lambda>h. h),
     hash_update = (\<lambda>h d. do { (ctx, p) \<leftarrow> h; stm32h533_crypto_sha256_update hal d ctx p }),
     hash_final = (\<lambda>h. case do { (ctx, p) \<leftarrow> h; stm32h533_crypto_sha256_final hal ctx p } of
        None \<Rightarrow> ([], None)
      | Some (hash, ctx, p) \<Rightarrow> (hash, Some (ctx, p)))\<rparr>"

text \<open>The context structure of the caller holds anything when it is bound; \<open>p\<close> is the peripheral.\<close>

definition STM32H533_CRYPTO_CONST_INIT ::
    "'p stm32h533_hal \<Rightarrow> stm32h533_crypto_sha256_ctx \<Rightarrow> 'p \<Rightarrow> 'p hw_hash ctap_crypto" where
  "STM32H533_CRYPTO_CONST_INIT hal ctx p = \<lparr>
     rng_generate_data = stm32h533_crypto_rng_generate_data hal,
     ecc_secp256r1_compute_public_key = stm32h533_crypto_ecc_secp256r1_compute_public_key hal,
     ecc_secp256r1_sign = stm32h533_crypto_ecc_secp256r1_sign hal,
     ecc_secp256r1_shared_secret = stm32h533_crypto_ecc_secp256r1_shared_secret hal,
     aes_256_cbc_encrypt = stm32h533_crypto_aes_256_cbc_encrypt hal,
     aes_256_cbc_decrypt = stm32h533_crypto_aes_256_cbc_decrypt hal,
     sha256_compute_digest = stm32h533_crypto_sha256_compute_digest hal p,
     sha256_bound_ctx = Some (stm32h533_crypto_sha256_bind_ctx ctx, p),
     crypto_sha256 = hash_alg_hw_sha256 hal\<rparr>"

definition hw_hash_absorbed :: "('p \<Rightarrow> bytes \<Rightarrow> bool) \<Rightarrow> 'p hw_hash \<Rightarrow> bytes \<Rightarrow> bool" where
  "hw_hash_absorbed stream h m \<longleftrightarrow> (\<exists>ctx p. h = Some (ctx, p) \<and> hw_absorbed stream ctx p m)"

lemma bound_ctx_absorbed:
  "stream p [] \<Longrightarrow> length (extra_bytes ctx) = 4 \<Longrightarrow>
   hw_absorbed stream (stm32h533_crypto_sha256_bind_ctx ctx) p []"
  by (simp add: hw_absorbed_def stm32h533_crypto_sha256_bind_ctx_def)

text \<open>The peripheral implements the contract of a hash algorithm, and the hardware that of the protocols.\<close>

lemma hw_hash_algorithm:
  assumes "hash_peripheral_ok hal stream"
  shows "hash_algorithm (hash_alg_hw_sha256 hal) (\<lambda>h. hw_hash_absorbed stream h [])
           (hw_hash_absorbed stream) sha256_spec"
proof
  fix h m d
  assume "hw_hash_absorbed stream h m"
  then obtain ctx p where h: "h = Some (ctx, p)" and a: "hw_absorbed stream ctx p m"
    by (auto simp: hw_hash_absorbed_def)
  show "hw_hash_absorbed stream (hash_update (hash_alg_hw_sha256 hal) h d) (m @ d)"
    using hw_update_ok [OF assms a, of d] by (auto simp: hash_alg_hw_sha256_def hw_hash_absorbed_def h)
  obtain ctx1 p1 where f: "stm32h533_crypto_sha256_final hal ctx p = Some (sha256_spec m, ctx1, p1)"
      "hw_absorbed stream ctx1 p1 []"
    using hw_final_ok [OF assms a] by blast
  show "fst (hash_final (hash_alg_hw_sha256 hal) h) = sha256_spec m"
    using f by (simp add: hash_alg_hw_sha256_def h)
  show "hw_hash_absorbed stream (snd (hash_final (hash_alg_hw_sha256 hal) h)) []"
    using f by (simp add: hash_alg_hw_sha256_def h hw_hash_absorbed_def)
qed (simp_all add: hash_alg_hw_sha256_def)

lemma hw_crypto_mac:
  assumes "hash_peripheral_ok hal stream" and "stream p []" and "length (extra_bytes ctx) = 4"
  shows "ctap_crypto_mac (STM32H533_CRYPTO_CONST_INIT hal ctx p) (\<lambda>h. hw_hash_absorbed stream h [])
           (hw_hash_absorbed stream) sha256_spec"
proof (intro ctap_crypto_mac.intro hash_algorithm_64_32.intro hash_algorithm_64_32_axioms.intro
    ctap_crypto_mac_axioms.intro)
  show "hash_algorithm (crypto_sha256 (STM32H533_CRYPTO_CONST_INIT hal ctx p))
      (\<lambda>h. hw_hash_absorbed stream h []) (hw_hash_absorbed stream) sha256_spec"
    using hw_hash_algorithm [OF assms(1)] by (simp add: STM32H533_CRYPTO_CONST_INIT_def)
  show "hw_hash_absorbed stream (sha256_bound_ctx (STM32H533_CRYPTO_CONST_INIT hal ctx p)) []"
    using bound_ctx_absorbed [where stream = stream, OF assms(2,3)]
    by (auto simp: STM32H533_CRYPTO_CONST_INIT_def hw_hash_absorbed_def)
  show "sha256_compute_digest (STM32H533_CRYPTO_CONST_INIT hal ctx p) d = Some (sha256_spec d)" for d
    by (simp add: STM32H533_CRYPTO_CONST_INIT_def stm32h533_crypto_sha256_compute_digest_def start_ok [OF assms(1,2)])
qed (simp_all add: STM32H533_CRYPTO_CONST_INIT_def hash_alg_hw_sha256_def)

section \<open>Properties\<close>

text \<open>
  C13: SHA-256 on the peripheral. If the HASH peripheral is idle when the context is bound and
  behaves as documented (it accumulates data in multiples of four bytes), then binding, init, any
  list of updates of any lengths and final give the FIPS 180-4 hash of the concatenated updates:
  the bytes that wait for a full word are neither lost nor duplicated nor moved, no call fails and no
  assertion does. Afterwards the context is idle again, ready for the next message.
\<close>

theorem hw_sha256_streaming:
  assumes "hash_peripheral_ok hal stream" and "stream p []" and "length (extra_bytes ctx) = 4"
  shows "\<exists>ctx1 p1. hash_final (hash_alg_hw_sha256 hal)
      (fold (\<lambda>d h. hash_update (hash_alg_hw_sha256 hal) h d) ds
        (hash_init (hash_alg_hw_sha256 hal) (Some (stm32h533_crypto_sha256_bind_ctx ctx, p))))
      = (sha256_spec (concat ds), Some (ctx1, p1))
    \<and> num_extra_bytes ctx1 = 0 \<and> stream p1 []"
proof -
  have updates: "\<exists>ctx1 p1. fold (\<lambda>d h. hash_update (hash_alg_hw_sha256 hal) h d) ds (Some (c, q)) = Some (ctx1, p1)
      \<and> hw_absorbed stream ctx1 p1 (m @ concat ds)" if "hw_absorbed stream c q m" for c q m
    using that
  proof (induction ds arbitrary: c q m)
    case (Cons d ds)
    obtain c1 q1 where "stm32h533_crypto_sha256_update hal d c q = Some (c1, q1)" "hw_absorbed stream c1 q1 (m @ d)"
      using hw_update_ok [OF assms(1) Cons.prems] by blast
    with Cons.IH [of c1 q1 "m @ d"] show ?case by (simp add: hash_alg_hw_sha256_def)
  qed simp
  obtain c1 q1 where u: "fold (\<lambda>d h. hash_update (hash_alg_hw_sha256 hal) h d) ds
      (Some (stm32h533_crypto_sha256_bind_ctx ctx, p)) = Some (c1, q1)" "hw_absorbed stream c1 q1 (concat ds)"
    using updates [OF bound_ctx_absorbed [where stream = stream, OF assms(2,3)]] by auto
  obtain c2 q2 where f: "stm32h533_crypto_sha256_final hal c1 q1 = Some (sha256_spec (concat ds), c2, q2)"
      "hw_absorbed stream c2 q2 []"
    using hw_final_ok [OF assms(1) u(2)] by blast
  have "num_extra_bytes c2 = 0" using f(1)
    by (auto simp: stm32h533_crypto_sha256_final_def split: prod.splits option.splits)
  with f u(1) show ?thesis by (simp add: hash_alg_hw_sha256_def hw_absorbed_def)
qed

text \<open>A peripheral for the witnesses: its state is the data that was accumulated.\<close>

definition example_hal :: "bytes stm32h533_hal" where
  "example_hal = \<lparr>hal_rng_word = (\<lambda>n. Some (of_nat (3 * n + 1))),
     HAL_PKA_ECCMul = (\<lambda>inp. Some (mul_pointX inp, mul_scalarMul inp)),
     HAL_PKA_ECDSASign = (\<lambda>attempt inp. Some (sign_integer inp, sign_hash inp)),
     polls_until_CCF = 3, tick = of_nat,
     HAL_CRYP_Encrypt = (\<lambda>regs d. Some (map (\<lambda>b. b XOR hd (register_bytes (KEYR regs))) d)),
     HAL_CRYP_Decrypt = (\<lambda>regs d. Some (map (\<lambda>b. b XOR hd (register_bytes (KEYR regs))) d)),
     HAL_HASH_Accumulate = (\<lambda>m d. if length d mod 4 = 0 then (True, m @ d) else (False, m)),
     HAL_HASH_AccumulateLast = (\<lambda>m d. (Some (sha256_spec (m @ d)), [])),
     HAL_HASH_Start = (\<lambda>m d. (Some (sha256_spec d), []))\<rparr>"

lemma example_hal_ok: "hash_peripheral_ok example_hal (=)"
  by (auto simp: hash_peripheral_ok_def example_hal_def dvd_eq_mod_eq_0)

theorem hw_sha256_streaming_witness:
  "\<exists>ctx1. hash_final (hash_alg_hw_sha256 example_hal)
      (fold (\<lambda>d h. hash_update (hash_alg_hw_sha256 example_hal) h d) [[1, 2, 3, 4, 5, 6], [7], [], [8, 9]]
        (Some (\<lparr>num_extra_bytes = 0, extra_bytes = [0, 0, 0, 0]\<rparr>, [])))
    = (sha256_spec [1, 2, 3, 4, 5, 6, 7, 8, 9], Some (ctx1, []))"
  using hw_sha256_streaming [OF example_hal_ok, of "[]" "\<lparr>num_extra_bytes = 2, extra_bytes = [0, 0, 0, 0]\<rparr>"
      "[[1, 2, 3, 4, 5, 6], [7], [], [8, 9]]"]
  by (auto simp: stm32h533_crypto_sha256_bind_ctx_def hash_alg_hw_sha256_def)

text \<open>
  C14: The hardware behaves as the software. If the random number generator delivers the words of the
  software's generator, the AES peripheral computes the cipher of the software's library under the
  key and the initialisation vector that its registers hold, most significant byte first, and the
  HASH peripheral behaves as documented, then the two implementations of the interface give the same
  random bytes, the same encryption and decryption of whole blocks, the same digests, and accept the
  same signatures in both protocols.
\<close>

theorem hardware_matches_software:
  assumes hash: "hash_peripheral_ok hal stream" "stream p []" "length (extra_bytes ctx) = 4"
    and rng: "\<And>i. hal_rng_word hal i = Some (tinymt32 libs i)"
    and encrypt: "\<And>regs d. HAL_CRYP_Encrypt hal regs d
      = Some (AES_CBC_encrypt_buffer libs (register_bytes (IVR regs)) (register_bytes (KEYR regs)) d)"
    and decrypt: "\<And>regs d. HAL_CRYP_Decrypt hal regs d
      = Some (AES_CBC_decrypt_buffer libs (register_bytes (IVR regs)) (register_bytes (KEYR regs)) d)"
    and d: "d \<noteq> []" "length d mod 16 = 0" "length iv = 16" "length key = 32"
    and hw: "hw = STM32H533_CRYPTO_CONST_INIT hal ctx p"
    and sw: "sw = CTAP_SOFTWARE_CRYPTO_CONST_INIT libs"
  shows "(rng_generate_data hw n len = rng_generate_data sw n len)
    \<and> (aes_256_cbc_encrypt hw iv key d = aes_256_cbc_encrypt sw iv key d)
    \<and> (aes_256_cbc_decrypt hw iv key d = aes_256_cbc_decrypt sw iv key d)
    \<and> (sha256_compute_digest hw m = sha256_compute_digest sw m)
    \<and> (\<exists>c c'. ctap_pin_protocol_verify_init hw mac_key = Some c \<and> ctap_pin_protocol_verify_init sw mac_key = Some c'
      \<and> ctap_pin_protocol_v1_verify_final hw (fold (\<lambda>d x. ctap_pin_protocol_verify_update hw x d) ds c) sig
        = ctap_pin_protocol_v1_verify_final sw (fold (\<lambda>d x. ctap_pin_protocol_verify_update sw x d) ds c') sig
      \<and> ctap_pin_protocol_v2_verify_final hw (fold (\<lambda>d x. ctap_pin_protocol_verify_update hw x d) ds c) sig
        = ctap_pin_protocol_v2_verify_final sw (fold (\<lambda>d x. ctap_pin_protocol_verify_update sw x d) ds c') sig)"
proof (intro conjI)
  have mac: "ctap_crypto_mac hw (\<lambda>h. hw_hash_absorbed stream h []) (hw_hash_absorbed stream) sha256_spec"
    using hw_crypto_mac [OF hash] hw by simp
  show "rng_generate_data hw n len = rng_generate_data sw n len"
    by (simp add: hw sw STM32H533_CRYPTO_CONST_INIT_def hw_rng_ok [OF rng])
  show "aes_256_cbc_encrypt hw iv key d = aes_256_cbc_encrypt sw iv key d"
    using d by (simp add: hw sw STM32H533_CRYPTO_CONST_INIT_def stm32h533_crypto_aes_256_cbc_encrypt_def
        ctap_software_crypto_aes_256_cbc_encrypt_def encrypt key_registers iv_registers)
  show "aes_256_cbc_decrypt hw iv key d = aes_256_cbc_decrypt sw iv key d"
    using d by (simp add: hw sw STM32H533_CRYPTO_CONST_INIT_def stm32h533_crypto_aes_256_cbc_decrypt_def
        ctap_software_crypto_aes_256_cbc_decrypt_def same_registers decrypt key_registers iv_registers)
  show "sha256_compute_digest hw m = sha256_compute_digest sw m"
    using ctap_crypto_mac.digest [OF mac] by (simp add: sw)
  show "\<exists>c c'. ctap_pin_protocol_verify_init hw mac_key = Some c \<and> ctap_pin_protocol_verify_init sw mac_key = Some c'
      \<and> ctap_pin_protocol_v1_verify_final hw (fold (\<lambda>d x. ctap_pin_protocol_verify_update hw x d) ds c) sig
        = ctap_pin_protocol_v1_verify_final sw (fold (\<lambda>d x. ctap_pin_protocol_verify_update sw x d) ds c') sig
      \<and> ctap_pin_protocol_v2_verify_final hw (fold (\<lambda>d x. ctap_pin_protocol_verify_update hw x d) ds c) sig
        = ctap_pin_protocol_v2_verify_final sw (fold (\<lambda>d x. ctap_pin_protocol_verify_update sw x d) ds c') sig"
    using ctap_crypto_mac.verify_ok [OF mac, of mac_key ds sig] sw_crypto.verify_ok [of libs mac_key ds sig]
    unfolding sw by auto
qed

theorem hardware_matches_software_witness:
  "aes_256_cbc_encrypt (STM32H533_CRYPTO_CONST_INIT example_hal \<lparr>num_extra_bytes = 0, extra_bytes = zeros 4\<rparr> [])
      (zeros 16) (replicate 32 5) (replicate 16 1)
   = aes_256_cbc_encrypt (CTAP_SOFTWARE_CRYPTO_CONST_INIT example_libraries)
      (zeros 16) (replicate 32 5) (replicate 16 1)"
  by (rule hardware_matches_software [OF example_hal_ok, of "[]" _ example_libraries, OF refl,
        THEN conjunct2, THEN conjunct1])
    (simp_all add: example_hal_def example_libraries_def)

end
