(* ===== verification/Device.thy ===== *)
theory Device
  imports App_Hid Nfc_Presence Nfc_Chaining Making
begin

text \<open>
  The device as a whole: the main loop of \<open>app_run\<close> with the two transports, and the CTAP layer they
  share. What the parts leave open is fixed here: the request handler of the transports is
  \<open>ctap_request\<close>, the wait for the user it calls is the one of \<open>app.c\<close>, and the presence over NFC that
  this wait looks at is the one the card emulation sets.
\<close>

section \<open>A request in the device\<close>

text \<open>
  What \<open>app.c\<close> does while a request is processed: \<open>ctap_request\<close> and, before it calls the handler,
  \<open>ctap_invoke_handler\<close> send a keepalive; the handler waits for the user at most once; when the
  user agreed, makeCredential, getAssertion and reset send another keepalive. The record holds what
  the environment does at these points.
\<close>

record request_events =
  at_request :: hid_input
  at_handler :: hid_input
  waiting :: "(u32 \<times> (hid_input \<times> bool) list) option"
  after_consent :: "hid_input option"

definition handler_called :: "(bytes \<Rightarrow> 'v option) \<Rightarrow> u8 \<Rightarrow> bytes \<Rightarrow> bool" where
  "handler_called parser_init cmd params \<longleftrightarrow>
     ctap_get_command_handler cmd \<noteq> None \<and> (params = [] \<or> parser_init params \<noteq> None)"

text \<open>
  The result tells how the wait ended, if there was one. \<open>None\<close> is a failed assertion, or a wait
  that has not ended in the turns given.
\<close>

definition request_effects :: "u8 \<Rightarrow> bool \<Rightarrow> request_events \<Rightarrow> app_state
    \<Rightarrow> (ctap_user_presence_result option \<times> app_state) option" where
  "request_effects junk called ev w =
     do { w1 \<leftarrow> ctap_send_keepalive_if_needed junk CTAP_STATUS_UPNEEDED (at_request ev) w;
          if \<not> called then Some (None, w1)
          else do {
            w2 \<leftarrow> ctap_send_keepalive_if_needed junk CTAP_STATUS_UPNEEDED (at_handler ev) w1;
            case waiting ev of
              None \<Rightarrow> Some (None, w2)
            | Some (begin_time, turns) \<Rightarrow> do {
                (result, w3) \<leftarrow> ctap_wait_for_user_presence junk begin_time turns w2;
                case (result, after_consent ev) of
                  (Some CTAP_UP_RESULT_ALLOW, Some i) \<Rightarrow> do {
                    w4 \<leftarrow> ctap_send_keepalive_if_needed junk CTAP_STATUS_PROCESSING i w3;
                    Some (result, w4) }
                | (Some r, _) \<Rightarrow> Some (Some r, w3)
                | (None, _) \<Rightarrow> None } } }"

text \<open>
  The request handler of both transports, on the state of \<open>app.c\<close> and that of the authenticator.
  Without a wait the request must not depend on the decision of the user.
\<close>

definition all_decisions :: "ctap_user_presence_result list" where
  "all_decisions = [CTAP_UP_RESULT_CANCEL, CTAP_UP_RESULT_TIMEOUT, CTAP_UP_RESULT_DENY, CTAP_UP_RESULT_ALLOW]"

definition device_service :: "('h, 's) ctap_interfaces \<Rightarrow> 'v tinycbor \<Rightarrow> (bytes \<Rightarrow> 'v option)
    \<Rightarrow> (encoder \<Rightarrow> bytes) \<Rightarrow> u8 \<Rightarrow> request_events \<Rightarrow> 's request_environment
    \<Rightarrow> (app_state \<times> ('h, 's) ctap_state) ctap_service" where
  "device_service env dec parser_init bytes_of junk ev inp c cmd params =
     do { (decision, w1) \<leftarrow> request_effects junk (handler_called parser_init cmd params) ev (fst c);
          let handle = (\<lambda>up. ctap_request env dec parser_init bytes_of (inp\<lparr>presence := up\<rparr>) (snd c) cmd params);
          let up = (case decision of None \<Rightarrow> CTAP_UP_RESULT_DENY | Some up \<Rightarrow> up);
          require (decision \<noteq> None \<or> list_all (\<lambda>up'. handle up' = handle up) all_decisions) (do {
            (status, s1, e) \<leftarrow> handle up;
            Some (status, if status = CTAP2_OK then bytes_of e else [], (w1, s1)) }) }"

section \<open>The main loop\<close>

text \<open>
  The flags of the presence over NFC are members of \<open>app_ctap\<close>, which both models have their copy of:
  the card emulation sets them, \<open>app.c\<close> reads them.
\<close>

definition with_nfc_flags :: "nfc_presence \<Rightarrow> app_state \<Rightarrow> app_state" where
  "with_nfc_flags p w = w\<lparr>app_state.nfc_user_present := nfc_presence.nfc_user_present p,
     app_state.nfc_ctap_in_use := nfc_presence.nfc_ctap_in_use p\<rparr>"

definition same_nfc_flags :: "nfc_presence \<Rightarrow> app_state \<Rightarrow> bool" where
  "same_nfc_flags p w \<longleftrightarrow> app_state.nfc_user_present w = nfc_presence.nfc_user_present p
     \<and> app_state.nfc_ctap_in_use w = nfc_presence.nfc_ctap_in_use p"

definition nfc_step :: "'r rfal \<Rightarrow> (app_state \<times> 'a) ctap_service \<Rightarrow> u32 \<Rightarrow> u32
    \<Rightarrow> (app_state \<times> 'a, 'r) nfc_system \<Rightarrow> (app_state \<times> 'a, 'r) nfc_system option" where
  "nfc_step rf ctap now later n =
     map_option (\<lambda>n1. n1\<lparr>authenticator := apfst (with_nfc_flags (presence_of n1)) (authenticator n1)\<rparr>)
       (app_nfc_task rf ctap now later n)"

text \<open>The reports of the events are packets.\<close>

definition wf_events :: "request_events \<Rightarrow> bool" where
  "wf_events ev \<longleftrightarrow> list_all wf_packet (arrived (at_request ev)) \<and> list_all wf_packet (arrived (at_handler ev))
     \<and> (\<forall>t turns. waiting ev = Some (t, turns) \<longrightarrow> list_all (\<lambda>(i, _). list_all wf_packet (arrived i)) turns)
     \<and> (\<forall>i. after_consent ev = Some i \<longrightarrow> list_all wf_packet (arrived i))"

text \<open>The request in the channel buffer.\<close>

definition buffered_request :: "app_state \<Rightarrow> bytes" where
  "buffered_request w = (let b = buffer (app_ctaphid w) in take (payload_length b) (buf_payload b))"

text \<open>
  The state is the point of the main loop with that of the card emulation, whose \<open>authenticator\<close> is
  the state of \<open>app.c\<close> and of the CTAP layer. The response of a request over USB fits into its
  buffer of 7608 bytes, which the encoder was given. The task of the card emulation runs at the top
  of the loop, the button and the radio may act at any time.
\<close>

inductive device_step :: "('h, 's) ctap_interfaces \<Rightarrow> 'v tinycbor \<Rightarrow> (bytes \<Rightarrow> 'v option)
    \<Rightarrow> (encoder \<Rightarrow> bytes) \<Rightarrow> 'r rfal
    \<Rightarrow> point \<times> (app_state \<times> ('h, 's) ctap_state, 'r) nfc_system
    \<Rightarrow> point \<times> (app_state \<times> ('h, 's) ctap_state, 'r) nfc_system \<Rightarrow> bool"
  for env dec parser_init bytes_of rf where
  usb: "authenticator n = (w, s) \<Longrightarrow> app_step (pt, w) (pt', w') \<Longrightarrow> pt = Working \<longrightarrow> pt' = Working \<Longrightarrow>
    device_step env dec parser_init bytes_of rf (pt, n) (pt', n\<lparr>authenticator := (w', s)\<rparr>)"
| usb_request: "authenticator n = (w, s) \<Longrightarrow> wf_events ev \<Longrightarrow>
    device_service env dec parser_init bytes_of junk ev inp (w, s)
      (hd (buffered_request w)) (tl (buffered_request w)) = Some (status, response, c) \<Longrightarrow>
    length response \<le> 7608 \<Longrightarrow>
    device_step env dec parser_init bytes_of rf (Working, n)
      (WaitAfter (status # response), n\<lparr>authenticator := c\<rparr>)"
| nfc: "wf_events ev \<Longrightarrow>
    nfc_step rf (device_service env dec parser_init bytes_of junk ev inp) now later n = Some n' \<Longrightarrow>
    device_step env dec parser_init bytes_of rf (MainLoop, n) (MainLoop, n')"
| button: "authenticator n = (w, s) \<Longrightarrow>
    device_step env dec parser_init bytes_of rf (pt, n) (pt, n\<lparr>authenticator := (w\<lparr>button_pressed := True\<rparr>, s)\<rparr>)"
| radio: "device_step env dec parser_init bytes_of rf (pt, n) (pt, n\<lparr>rfal_state := r\<rparr>)"

inductive_cases device_stepE: "device_step env dec parser_init bytes_of rf c c'"

text \<open>
  The device after \<open>app_init\<close> and \<open>nfc_init\<close>, and what becomes of it. \<open>st\<close> is the storage as its own
  initialisation left it.
\<close>

inductive device_reachable :: "('h, 's) ctap_interfaces \<Rightarrow> 'v tinycbor \<Rightarrow> (bytes \<Rightarrow> 'v option)
    \<Rightarrow> (encoder \<Rightarrow> bytes) \<Rightarrow> 'r rfal
    \<Rightarrow> point \<times> (app_state \<times> ('h, 's) ctap_state, 'r) nfc_system \<Rightarrow> bool"
  for env dec parser_init bytes_of rf where
  power_up: "ctap_init env now ((CTAP_STATE_CONST_INIT st)\<lparr>rng_position := i\<rparr>) = Some s \<Longrightarrow>
    device_reachable env dec parser_init bytes_of rf
      (MainLoop, nfc_init rf (nfc_runtime_init (app_boot, s) r))"
| run: "device_reachable env dec parser_init bytes_of rf c \<Longrightarrow>
    device_step env dec parser_init bytes_of rf c c' \<Longrightarrow>
    device_reachable env dec parser_init bytes_of rf c'"

section \<open>What happens during a request\<close>

text \<open>
  The events of \<open>app.c\<close> keep the invariant of the main loop, the flags of the card emulation and,
  away from the top of the loop, the buffered request.
\<close>

definition app_keeps :: "point \<Rightarrow> app_state \<Rightarrow> app_state \<Rightarrow> bool" where
  "app_keeps pt w w' \<longleftrightarrow>
     (app_inv (pt, w) \<longrightarrow> app_inv (pt, w') \<and> (pt \<noteq> MainLoop \<longrightarrow>
        message_of (buffer (app_ctaphid w')) = message_of (buffer (app_ctaphid w))))
   \<and> app_state.nfc_user_present w' = app_state.nfc_user_present w
   \<and> app_state.nfc_ctap_in_use w' = app_state.nfc_ctap_in_use w"

lemma app_keeps_refl [simp]: "app_keeps pt w w"
  by (simp add: app_keeps_def)

lemma app_keeps_trans: "app_keeps pt w w1 \<Longrightarrow> app_keeps pt w1 w2 \<Longrightarrow> app_keeps pt w w2"
  by (auto simp: app_keeps_def)

lemma app_inv_same:
  "app_inv (pt, w) \<Longrightarrow> app_ctaphid w' = app_ctaphid w \<Longrightarrow> length (send_queue w') \<le> 129 \<Longrightarrow> app_inv (pt, w')"
  by (cases pt) (simp_all add: app_inv_def Let_def)

lemma app_keepsI:
  assumes "app_ctaphid w' = app_ctaphid w" and "length (send_queue w) \<le> 129 \<longrightarrow> length (send_queue w') \<le> 129"
    and "app_state.nfc_user_present w' = app_state.nfc_user_present w"
    and "app_state.nfc_ctap_in_use w' = app_state.nfc_ctap_in_use w"
  shows "app_keeps pt w w'"
  using assms app_inv_same [of pt w w'] by (auto simp: app_keeps_def app_inv_def Let_def)

lemma app_keeps_button: "app_keeps pt w (w\<lparr>button_pressed := b\<rparr>)"
  by (rule app_keepsI) simp_all

lemma incoming_frame:
  assumes "app_handle_incoming_hid_packet junk now p w = Some w'"
  shows "button_pressed w' = button_pressed w"
    and "app_state.nfc_user_present w' = app_state.nfc_user_present w"
    and "app_state.nfc_ctap_in_use w' = app_state.nfc_ctap_in_use w"
  using assms
  by (auto simp: app_handle_incoming_hid_packet_def Let_def
      split: if_splits bind_splits process_packet_result.splits prod.splits)

lemma incoming_keeps:
  assumes "app_handle_incoming_hid_packet junk now p w = Some w'" and "wf_packet p"
  shows "app_keeps pt w w'"
  using app_step_receiveD [OF _ assms(2,1)] incoming_frame [OF assms(1)] by (auto simp: app_keeps_def)

lemma send_one_frame [simp]:
  "button_pressed (app_hid_report_send_queue_send_one_if_possible a w) = button_pressed w"
  "app_state.nfc_user_present (app_hid_report_send_queue_send_one_if_possible a w) = app_state.nfc_user_present w"
  "app_state.nfc_ctap_in_use (app_hid_report_send_queue_send_one_if_possible a w) = app_state.nfc_ctap_in_use w"
  by (auto simp: app_hid_report_send_queue_send_one_if_possible_def split: list.splits)

lemma send_one_app_keeps: "app_keeps pt w (app_hid_report_send_queue_send_one_if_possible a w)"
  by (simp add: app_keeps_def send_one_inv)

lemma hid_task_keeps:
  assumes "app_hid_task junk i w = Some w'" and "list_all wf_packet (arrived i)"
  shows "app_keeps pt w w' \<and> button_pressed w' = button_pressed w"
proof -
  have "app_keeps pt w w1 \<and> button_pressed w1 = button_pressed w"
    if "deliver_reports junk now ps w = Some w1" "list_all wf_packet ps" for now ps w1
    using that
  proof (induction ps arbitrary: w)
    case (Cons p ps)
    then obtain w2 where w2: "app_handle_incoming_hid_packet junk now p w = Some w2"
      "deliver_reports junk now ps w2 = Some w1" by (auto split: bind_splits)
    with Cons show ?case
      using incoming_keeps [OF w2(1)] incoming_frame(1) [OF w2(1)] app_keeps_trans by force
  qed simp
  with assms show ?thesis
    by (auto simp: app_hid_task_def intro: app_keeps_trans [OF _ send_one_app_keeps] split: bind_splits)
qed

lemma keepalive_keeps:
  assumes "app_ctap_send_keepalive_if_needed st now w = Some w'"
  shows "app_keeps pt w w'"
  using assms length_push_report
  by (intro app_keepsI) (auto simp: app_ctap_send_keepalive_if_needed_def app_ctaphid_send_keepalive_def
      require_eq_Some split: if_splits bind_splits)

lemma keepalive_and_task_keeps:
  assumes "ctap_send_keepalive_if_needed junk st i w = Some w'" and "list_all wf_packet (arrived i)"
  shows "app_keeps pt w w'"
  using assms hid_task_keeps keepalive_keeps app_keeps_trans
  by (fastforce simp: ctap_send_keepalive_if_needed_def split: bind_splits)

lemma wait_loop_sound:
  assumes "user_presence_loop junk t turns w = Some (r, w')"
    and "list_all (\<lambda>(i, _). list_all wf_packet (arrived i)) turns"
  shows "app_keeps pt w w' \<and> (r = Some CTAP_UP_RESULT_ALLOW \<longrightarrow> button_pressed w \<or> list_ex snd turns)"
  using assms
proof (induction turns arbitrary: w)
  case (Cons turn turns)
  obtain i b where turn: "turn = (i, b)" by fastforce
  with Cons.prems obtain w1 where w1: "app_hid_task junk i w = Some w1" by (auto split: bind_splits)
  let ?w2 = "if b then w1\<lparr>button_pressed := True\<rparr> else w1"
  have "app_keeps pt w w1" "button_pressed w1 = button_pressed w"
    using hid_task_keeps [OF w1] Cons.prems(2) turn by auto
  then have w2: "app_keeps pt w ?w2" "button_pressed ?w2 \<longrightarrow> button_pressed w \<or> b"
    using app_keeps_trans [OF _ app_keeps_button] by auto
  consider (ended) "w' = ?w2 \<or> w' = ?w2\<lparr>button_pressed := False\<rparr>" "r = Some CTAP_UP_RESULT_ALLOW \<longrightarrow> button_pressed ?w2"
    | (again) w3 where "app_ctap_send_keepalive_if_needed CTAP_STATUS_UPNEEDED (hid_input.tick i) ?w2 = Some w3"
        "user_presence_loop junk t turns w3 = Some (r, w')"
    using Cons.prems(1) turn w1 by (auto simp: Let_def split: if_splits bind_splits)
  then show ?case
  proof cases
    case ended
    with w2 turn app_keeps_trans [OF w2(1) app_keeps_button] show ?thesis by auto
  next
    case again
    have "list_all (\<lambda>(i, _). list_all wf_packet (arrived i)) turns" using Cons.prems(2) turn by simp
    from Cons.IH [OF again(2) this] keepalive_keeps [OF again(1)] keepalive_button [OF again(1)] w2 turn
    show ?thesis by (auto intro: app_keeps_trans)
  qed
qed simp

lemma wait_sound:
  assumes "ctap_wait_for_user_presence junk t turns w = Some (r, w')"
    and "list_all (\<lambda>(i, _). list_all wf_packet (arrived i)) turns"
  shows "app_keeps pt w w' \<and>
    (r = Some CTAP_UP_RESULT_ALLOW \<longrightarrow> app_state.nfc_user_present w \<or> list_ex snd turns)"
proof (cases "app_state.nfc_user_present w")
  case True
  with assms show ?thesis by (simp add: ctap_wait_for_user_presence_def)
next
  case False
  with assms(1) obtain w1 where w1: "app_ctap_send_keepalive_if_needed CTAP_STATUS_UPNEEDED t w = Some w1"
    "user_presence_loop junk t turns (w1\<lparr>button_pressed := False\<rparr>) = Some (r, w')"
    by (auto simp: ctap_wait_for_user_presence_def split: bind_splits)
  from wait_loop_sound [OF w1(2) assms(2), of pt] app_keeps_trans [OF keepalive_keeps [OF w1(1)] app_keeps_button]
  show ?thesis by (auto intro: app_keeps_trans)
qed

text \<open>The consent of the user during a request.\<close>

definition button_pressed_during :: "request_events \<Rightarrow> bool" where
  "button_pressed_during ev \<longleftrightarrow> (\<exists>t turns. waiting ev = Some (t, turns) \<and> list_ex snd turns)"

lemma effects_sound:
  assumes "request_effects junk called ev w = Some (r, w')" and "wf_events ev"
  shows "app_keeps pt w w' \<and>
    (r = Some CTAP_UP_RESULT_ALLOW \<longrightarrow> app_state.nfc_user_present w \<or> button_pressed_during ev)"
proof -
  obtain w1 where w1: "ctap_send_keepalive_if_needed junk CTAP_STATUS_UPNEEDED (at_request ev) w = Some w1"
    using assms(1) by (auto simp: request_effects_def split: bind_splits)
  have k1: "app_keeps pt w w1" using keepalive_and_task_keeps [OF w1] assms(2) by (simp add: wf_events_def)
  show ?thesis
  proof (cases called)
    case False
    with assms(1) w1 k1 show ?thesis by (simp add: request_effects_def)
  next
    case True
    with assms(1) w1 obtain w2 where
      w2: "ctap_send_keepalive_if_needed junk CTAP_STATUS_UPNEEDED (at_handler ev) w1 = Some w2"
      by (auto simp: request_effects_def split: bind_splits)
    have k2: "app_keeps pt w w2"
      using keepalive_and_task_keeps [OF w2] assms(2) k1 by (auto simp: wf_events_def intro: app_keeps_trans)
    show ?thesis
    proof (cases "waiting ev")
      case None
      with assms(1) w1 w2 True k2 show ?thesis by (simp add: request_effects_def)
    next
      case (Some wait)
      then obtain t turns where wait: "waiting ev = Some (t, turns)" by (cases wait) simp
      with assms(1) w1 w2 True obtain r1 w3 where
        w3: "ctap_wait_for_user_presence junk t turns w2 = Some (r1, w3)"
        by (auto simp: request_effects_def split: bind_splits)
      have s3: "app_keeps pt w2 w3"
          "r1 = Some CTAP_UP_RESULT_ALLOW \<longrightarrow> app_state.nfc_user_present w2 \<or> list_ex snd turns"
        using wait_sound [OF w3] assms(2) wait by (auto simp: wf_events_def)
      have same: "app_state.nfc_user_present w2 = app_state.nfc_user_present w"
        using k2 by (simp add: app_keeps_def)
      have "r = r1 \<and> (w' = w3 \<or> (\<exists>i. after_consent ev = Some i
          \<and> ctap_send_keepalive_if_needed junk CTAP_STATUS_PROCESSING i w3 = Some w'))"
        using assms(1) w1 w2 w3 True wait
        by (auto simp: request_effects_def split: bind_splits option.splits ctap_user_presence_result.splits)
      then show ?thesis
        using s3 k2 same wait assms(2) keepalive_and_task_keeps [of junk CTAP_STATUS_PROCESSING _ w3 w' pt]
        by (auto simp: button_pressed_during_def wf_events_def intro: app_keeps_trans)
    qed
  qed
qed

section \<open>The card emulation changes the authenticator by requests only\<close>

definition service_keeps :: "('c \<Rightarrow> bool) \<Rightarrow> 'c ctap_service \<Rightarrow> bool" where
  "service_keeps P ctap \<longleftrightarrow>
     (\<forall>c cmd d status pl c'. P c \<longrightarrow> ctap c cmd d = Some (status, pl, c') \<longrightarrow> P c')"

lemma handle_ctap_keeps:
  assumes "service_keeps P ctap" and "fido_handle_ctap ctap ctx c d n = Some (r, ctx', c')" and "P c"
  shows "P c'"
  using assms by (auto simp: fido_handle_ctap_def service_keeps_def Let_def require_def
      split: if_splits bind_splits)

lemma fido_command_keeps:
  assumes "service_keeps P ctap" and "nfc_fido_command ctap ctx c apdu n = Some (r, ctx', c')" and "P c"
  shows "P c'"
  using assms(2,3) handle_ctap_keeps [OF assms(1)]
  by (auto simp: nfc_fido_command_def fido_handle_ctap_chain_in_def fido_handle_ctap_request_extended_def
      fido_handle_ctap_request_short_def Let_def split: if_splits bind_splits prod.splits option.splits)

lemma respond_keeps:
  assumes "service_keeps P ctap" and "nfc_parse_and_respond ctap now w raw n = Some (r, w')"
    and "P (authenticator w)"
  shows "P (authenticator w')"
  using assms(2,3) fido_command_keeps [OF assms(1)]
  by (auto simp: nfc_parse_and_respond_def nfc_select_applet_def Let_def
      split: if_splits sum.splits bind_splits Apps.splits option.splits)

named_theorems same_authenticator

lemma start_rx_authenticator [same_authenticator]: "authenticator (snd (nfc_start_rx rf w)) = authenticator w"
  by (simp add: nfc_start_rx_def Let_def split: prod.split)

lemma start_tx_authenticator [same_authenticator]: "authenticator (snd (nfc_start_tx rf w d)) = authenticator w"
  by (simp add: nfc_start_tx_def Let_def split: prod.split)

lemma recovery_authenticator [same_authenticator]:
  "authenticator (nfc_enter_error_recovery rf e w) = authenticator w"
  by (simp add: nfc_enter_error_recovery_def same_authenticator Let_def)

lemma poll_authenticator [same_authenticator]:
  "authenticator (snd (nfc_poll_transmission_status rf w)) = authenticator w"
  by (simp add: nfc_poll_transmission_status_def same_authenticator Let_def split: prod.split)

lemma init_session_authenticator [same_authenticator]: "authenticator (nfc_init_session w) = authenticator w"
  by (simp add: nfc_init_session_def)

lemma wait_rx_authenticator [same_authenticator]: "authenticator (nfc_handle_wait_rx rf w) = authenticator w"
proof -
  obtain finished w1 where p: "nfc_poll_transmission_status rf w = (finished, w1)" by fastforce
  then have "authenticator w1 = authenticator w" using poll_authenticator [of rf w] by simp
  then show ?thesis by (simp add: nfc_handle_wait_rx_def same_authenticator p Let_def)
qed

lemma wait_tx_authenticator [same_authenticator]: "authenticator (nfc_handle_wait_tx rf w) = authenticator w"
proof -
  obtain finished w1 where p: "nfc_poll_transmission_status rf w = (finished, w1)" by fastforce
  obtain started w3 where r: "nfc_start_rx rf (w1\<lparr>ce_machine := CE_STATE_IDLE\<rparr>) = (started, w3)" by fastforce
  have "authenticator w1 = authenticator w" using poll_authenticator [of rf w] p by simp
  moreover have "authenticator w3 = authenticator w1"
    using start_rx_authenticator [of rf "w1\<lparr>ce_machine := CE_STATE_IDLE\<rparr>"] r by simp
  ultimately show ?thesis by (simp add: nfc_handle_wait_tx_def same_authenticator p r Let_def)
qed

lemma process_rx_keeps:
  assumes "service_keeps P ctap" and "nfc_handle_process_rx rf ctap now w = Some w'" and "P (authenticator w)"
  shows "P (authenticator w')"
proof -
  obtain len response w1 where r: "nfc_parse_and_respond ctap now w
      (Some (received rf (rfal_state w))) (of_nat TX_BUF_SIZE) = Some ((len, response), w1)"
    using assms(2) by (auto simp: nfc_handle_process_rx_def require_def split: if_splits bind_splits)
  let ?w2 = "w1\<lparr>tx_buf := response, tx_len := len\<rparr>"
  obtain started w3 where t: "nfc_start_tx rf ?w2 response = (started, w3)" by fastforce
  then have "authenticator w3 = authenticator w1" using start_tx_authenticator [of rf ?w2 response] by simp
  then have "authenticator w' = authenticator w1"
    using assms(2) r t by (auto simp: nfc_handle_process_rx_def require_def same_authenticator Let_def
        split: if_split_asm)
  with respond_keeps [OF assms(1) r assms(3)] show ?thesis by simp
qed

lemma task_keeps:
  assumes "service_keeps P ctap" and "app_nfc_task rf ctap now later w = Some w'" and "P (authenticator w)"
  shows "P (authenticator w')"
proof -
  have ce: "P (authenticator w2)" if "nfc_ce_task rf ctap now w1 = Some (ended, w2)" "P (authenticator w1)"
    for w1 w2 ended
    using that process_rx_keeps [OF assms(1)]
    by (auto simp: nfc_ce_task_def same_authenticator Let_def split: if_splits ce_state.splits)
  show ?thesis
    using assms(2,3) ce
    by (auto simp: app_nfc_task_def same_authenticator Let_def split: nfc_state.splits if_splits bind_splits)
qed

section \<open>The invariant of the device\<close>

text \<open>The request behind a response: \<open>up\<close> is the decision of the user, a refusal if nobody was asked.\<close>

lemma device_serviceE:
  assumes "device_service env dec parser_init bytes_of junk ev inp c cmd params = Some (status, response, c')"
  obtains decision w1 up s1 e where
    "request_effects junk (handler_called parser_init cmd params) ev (fst c) = Some (decision, w1)"
    "up = (case decision of None \<Rightarrow> CTAP_UP_RESULT_DENY | Some up \<Rightarrow> up)"
    "ctap_request env dec parser_init bytes_of (inp\<lparr>presence := up\<rparr>) (snd c) cmd params = Some (status, s1, e)"
    "c' = (w1, s1)" "response = (if status = CTAP2_OK then bytes_of e else [])"
  using assms by (auto simp: device_service_def Let_def require_eq_Some split: bind_splits)

lemma device_service_sound:
  assumes "device_service env dec parser_init bytes_of junk ev inp c cmd params = Some (status, response, c')"
    and "wf_events ev"
  shows "app_keeps pt (fst c) (fst c')"
    and "authenticator_reachable env dec parser_init bytes_of (snd c) \<Longrightarrow>
      authenticator_reachable env dec parser_init bytes_of (snd c')"
proof -
  from device_serviceE [OF assms(1)] obtain decision w1 up s1 r where
    e: "request_effects junk (handler_called parser_init cmd params) ev (fst c) = Some (decision, w1)"
    and r: "ctap_request env dec parser_init bytes_of (inp\<lparr>presence := up\<rparr>) (snd c) cmd params = Some (status, s1, r)"
      "c' = (w1, s1)" by metis
  show "app_keeps pt (fst c) (fst c')" using effects_sound [OF e assms(2)] r(2) by simp
  show "authenticator_reachable env dec parser_init bytes_of (snd c')"
    if "authenticator_reachable env dec parser_init bytes_of (snd c)"
    using authenticator_reachable.request [OF that r(1)] r(2) by simp
qed

definition device_inv :: "('h, 's) ctap_interfaces \<Rightarrow> 'v tinycbor \<Rightarrow> (bytes \<Rightarrow> 'v option)
    \<Rightarrow> (encoder \<Rightarrow> bytes) \<Rightarrow> point \<times> (app_state \<times> ('h, 's) ctap_state, 'r) nfc_system \<Rightarrow> bool" where
  "device_inv env dec parser_init bytes_of c \<longleftrightarrow>
     (case c of (pt, n) \<Rightarrow>
        app_inv (pt, fst (authenticator n)) \<and> same_nfc_flags (presence_of n) (fst (authenticator n))
      \<and> presence_ok n \<and> authenticator_reachable env dec parser_init bytes_of (snd (authenticator n)))"

lemma same_flags_keeps: "app_keeps pt w w' \<Longrightarrow> same_nfc_flags p w \<Longrightarrow> same_nfc_flags p w'"
  by (simp add: app_keeps_def same_nfc_flags_def)

lemma app_step_flags:
  assumes "app_step (pt, w) (pt', w')"
  shows "same_nfc_flags p w' = same_nfc_flags p w"
proof -
  have q: "app_state.nfc_user_present w2 = app_state.nfc_user_present w1
      \<and> app_state.nfc_ctap_in_use w2 = app_state.nfc_ctap_in_use w1"
    if "queue_packets ps w1 = Some w2" for ps w1 w2
    using that by (induction ps arbitrary: w1) (auto simp: app_hid_report_send_queue_add_def
        split: bind_splits if_splits)
  from assms show ?thesis
  proof cases
    case receive
    then show ?thesis using incoming_frame by (fastforce simp: same_nfc_flags_def)
  next
    case (direct cmd)
    then show ?thesis using q
      by (auto simp: app_ctaphid_answer_directly_def Let_def app_hid_report_send_queue_add_def
          same_nfc_flags_def split: if_splits bind_splits)
  next
    case keepalive
    then show ?thesis using keepalive_keeps by (fastforce simp: app_keeps_def same_nfc_flags_def)
  next
    case answer
    then show ?thesis using q by (fastforce simp: app_ctaphid_answer_cbor_def same_nfc_flags_def split: bind_splits)
  qed (simp_all add: same_nfc_flags_def app_ctap_reset_keepalive_def)
qed

lemma presence_ok_update [simp]:
  "presence_ok (n\<lparr>authenticator := c\<rparr>) = presence_ok n" "presence_ok (n\<lparr>rfal_state := r\<rparr>) = presence_ok n"
  by (simp_all add: presence_ok_def)

text \<open>The states at power-up.\<close>

lemma power_up_inv:
  assumes "ctap_init env now ((CTAP_STATE_CONST_INIT st)\<lparr>rng_position := i\<rparr>) = Some s"
  shows "device_inv env dec parser_init bytes_of (MainLoop, nfc_init rf (nfc_runtime_init (app_boot, s) r))"
proof -
  let ?n = "nfc_runtime_init (app_boot, s) r"
  have a: "authenticator (nfc_init rf ?n) = (app_boot, s)"
    by (simp add: nfc_init_def Let_def same_authenticator nfc_runtime_init_def split: prod.split)
  have p: "presence_of (nfc_init rf ?n) = presence_of ?n"
    by (simp add: nfc_init_def nfc_init_session_def Let_def split: prod.split)
  have "presence_ok (nfc_init rf ?n)"
    by (rule reachable_presence_ok [OF nfc_reachable.init [OF nfc_reachable.power_up]])
  then show ?thesis
    using app_boot_inv authenticator_reachable.power_up [OF assms] a p
    by (simp add: device_inv_def same_nfc_flags_def app_boot_def nfc_runtime_init_def)
qed

lemma nfc_step_inv:
  assumes inv: "device_inv env dec parser_init bytes_of (MainLoop, n)" and ev: "wf_events ev"
    and step: "nfc_step rf (device_service env dec parser_init bytes_of junk ev inp) now later n = Some n'"
  shows "device_inv env dec parser_init bytes_of (MainLoop, n')"
proof -
  let ?ctap = "device_service env dec parser_init bytes_of junk ev inp"
  let ?P = "\<lambda>c. app_inv (MainLoop, fst c) \<and> authenticator_reachable env dec parser_init bytes_of (snd c)"
  obtain n1 where n1: "app_nfc_task rf ?ctap now later n = Some n1"
    "n' = n1\<lparr>authenticator := apfst (with_nfc_flags (presence_of n1)) (authenticator n1)\<rparr>"
    using step by (auto simp: nfc_step_def)
  have "?P c'" if "?P c" "?ctap c cmd d = Some (status, pl, c')" for c cmd d status pl c'
    using that device_service_sound(1) [OF that(2) ev, of MainLoop] device_service_sound(2) [OF that(2) ev]
    by (simp add: app_keeps_def)
  then have "service_keeps ?P ?ctap" unfolding service_keeps_def by blast
  from task_keeps [OF this n1(1)] inv have "?P (authenticator n1)" by (simp add: device_inv_def)
  moreover have "presence_ok n1" using task_presence [OF _ n1(1)] inv by (simp add: device_inv_def)
  moreover have "app_inv (MainLoop, with_nfc_flags p w)" if "app_inv (MainLoop, w)" for p w
    using app_inv_same [OF that, of "with_nfc_flags p w"] that by (simp add: with_nfc_flags_def app_inv_def)
  ultimately show ?thesis
    using n1(2) by (simp add: device_inv_def same_nfc_flags_def with_nfc_flags_def)
qed

lemma device_step_inv:
  "device_step env dec parser_init bytes_of rf c c' \<Longrightarrow> device_inv env dec parser_init bytes_of c \<Longrightarrow>
   device_inv env dec parser_init bytes_of c'"
proof (induction rule: device_step.induct)
  case (usb n w s pt pt' w')
  then show ?case using app_step_inv [OF usb(2)] app_step_flags [OF usb(2)]
    by (simp add: device_inv_def)
next
  case (usb_request n w s ev junk inp status response c)
  note sound = device_service_sound(1) [OF usb_request(3,2), of Working] device_service_sound(2) [OF usb_request(3,2)]
  have k: "app_inv (Working, w)" using usb_request by (simp add: device_inv_def)
  then have "app_inv (Working, fst c)" using sound(1) by (simp add: app_keeps_def)
  then have "app_inv (WaitAfter (status # response), fst c)"
    using usb_request(4) by (simp add: app_inv_def Let_def)
  then show ?case using sound usb_request same_flags_keeps [of Working w "fst c"]
    by (simp add: device_inv_def)
next
  case (nfc ev junk inp now later n n')
  then show ?case using nfc_step_inv by blast
next
  case (button n w s pt)
  then show ?case using app_keeps_button [of pt w True]
    by (simp add: device_inv_def app_keeps_def same_nfc_flags_def)
next
  case (radio pt n r)
  then show ?case by (simp add: device_inv_def)
qed

lemma device_reachable_inv:
  "device_reachable env dec parser_init bytes_of rf c \<Longrightarrow> device_inv env dec parser_init bytes_of c"
proof (induction rule: device_reachable.induct)
  case (power_up now st i s r)
  then show ?case by (rule power_up_inv)
next
  case (run c c')
  then show ?case by (blast intro: device_step_inv)
qed

end
