(* ===== verification/Device_Examples.thy ===== *)
theory Device_Examples
  imports Device
begin

text \<open>
  A concrete device for the witnesses: software cryptography, an empty storage, a reader that selects
  the FIDO applet, and what its parts do in the first requests.
\<close>

section \<open>Power-up\<close>

lemma regenerate_keeps_protocol:
  "version (snd (snd (ctap_pin_protocol_regenerate c rng p))) = version p
   \<and> shared_secret_length (snd (snd (ctap_pin_protocol_regenerate c rng p))) = shared_secret_length p"
  by (auto simp: ctap_pin_protocol_regenerate_def Let_def split: prod.splits)

lemma initialize_keeps_protocol:
  "version (snd (snd (ctap_pin_protocol_initialize c rng p))) = version p
   \<and> shared_secret_length (snd (snd (ctap_pin_protocol_initialize c rng p))) = shared_secret_length p"
  using regenerate_keeps_protocol [of c rng p]
  by (auto simp: ctap_pin_protocol_initialize_def ctap_pin_protocol_reset_pin_uv_auth_token_def Let_def
      split: prod.splits)

definition protocol_ok :: "'h ctap_pin_protocol \<Rightarrow> bool" where
  "protocol_ok p \<longleftrightarrow> version p \<noteq> 0 \<and> shared_secret_length p \<noteq> 0"

lemma initialize_protocols_ok:
  assumes "list_all protocol_ok ps"
  shows "list_all protocol_ok (snd (initialize_protocols c rng ps))"
  using assms
proof (induction ps arbitrary: rng)
  case (Cons p ps)
  obtain ok rng1 p1 where p1: "ctap_pin_protocol_initialize c rng p = (ok, rng1, p1)" by (metis prod.exhaust)
  obtain rng2 ps1 where ps1: "initialize_protocols c rng1 ps = (rng2, ps1)" by fastforce
  then have "list_all protocol_ok ps1" using Cons.IH [of rng1] Cons.prems by simp
  moreover have "protocol_ok p1"
    using initialize_keeps_protocol [of c rng p] p1 Cons.prems by (simp add: protocol_ok_def)
  ultimately show ?case using p1 ps1 by simp
qed simp

lemma boot_empty:
  assumes "storage s = []" and "list_all protocol_ok (pin_protocols s)"
  shows "\<exists>s'. ctap_init example_env now s = Some s' \<and> storage s' = [] \<and> init_time s' = now
    \<and> list_all protocol_ok (pin_protocols s')"
proof -
  obtain rng1 ps where p: "initialize_protocols (crypto_ops example_env) (rng_position s) (pin_protocols s) = (rng1, ps)"
    by fastforce
  then have "list_all protocol_ok ps"
    using initialize_protocols_ok [OF assms(2), of "crypto_ops example_env" "rng_position s"] by simp
  moreover have "\<forall>q\<in>set (pin_protocols s). version q \<noteq> 0 \<and> shared_secret_length q \<noteq> 0"
    using assms(2) by (auto simp: protocol_ok_def list_all_iff)
  ultimately show ?thesis
    using assms p by (simp add: ctap_init_def ctap_init_pin_persistent_state_def ctap_all_pin_protocols_initialize_def
        example_env_def example_storage_def Let_def require_def)
qed

lemma example_boot:
  "\<exists>s. ctap_init example_env 0 ((CTAP_STATE_CONST_INIT [])\<lparr>rng_position := 0\<rparr>) = Some s
     \<and> storage s = [] \<and> init_time s = 0 \<and> list_all protocol_ok (pin_protocols s)"
  by (rule boot_empty) (simp_all add: CTAP_STATE_CONST_INIT_def zero_ctap_state_def protocol_ok_def protocol_inits)
text \<open>A reader selects the applet, at power-up with a state of \<open>app.c\<close> and of the authenticator.\<close>

abbreviation (input) example_service where
  "example_service \<equiv> device_service example_env ref_decoder (\<lambda>_. None) (\<lambda>_. [])"

definition device_at_boot :: "'s \<Rightarrow> (app_state \<times> 's, unit) nfc_system" where
  "device_at_boot s = nfc_init example_rfal (nfc_runtime_init (app_boot, s) ())"

lemma applet_selected:
  fixes s :: 's
  shows "\<exists>n1 n2 n3. app_nfc_task example_rfal ctap 0 0 (device_at_boot s) = Some n1
      \<and> app_nfc_task example_rfal ctap 0 0 n1 = Some n2
      \<and> app_nfc_task example_rfal ctap 100 later n2 = Some n3
      \<and> authenticator n1 = (app_boot, s) \<and> presence_of n1 = presence_of (nfc_runtime_init () ())
      \<and> authenticator n2 = (app_boot, s) \<and> presence_of n2 = presence_of (nfc_runtime_init () ())
      \<and> authenticator n3 = (app_boot, s) \<and> fido_selected (ce_ctx n3) \<and> main_state n3 = NFC_CE_ACTIVE
      \<and> nfc_presence.nfc_user_present (presence_of n3) = (later - 100 < 12000)
      \<and> nfc_presence.nfc_ctap_in_use (presence_of n3) = (later - 100 < 12000)"
proof -
  let ?n = "nfc_runtime_init (app_boot, s) () :: (app_state \<times> 's, unit) nfc_system"
  let ?n1 = "(nfc_init_session ?n)\<lparr>main_state := NFC_CE_ACTIVE\<rparr>"
  let ?n2 = "?n1\<lparr>ce_ctx := (ce_ctx ?n1)\<lparr>negotiated_inf_len := 256\<rparr>, rx_assigned := True,
      ce_machine := CE_STATE_PROCESS_RX\<rparr>"
  have "device_at_boot s = nfc_init_session ?n"
    by (simp add: device_at_boot_def nfc_init_def nfc_init_params_def example_rfal_def nfc_runtime_init_def)
  then have "app_nfc_task example_rfal ctap 0 0 (device_at_boot s) = Some ?n1"
    by (simp add: app_nfc_task_def nfc_runtime_init_def example_rfal_def nfc_init_session_def Let_def
        word_le_nat_alt word_less_nat_alt)
  moreover have "app_nfc_task example_rfal ctap 0 0 ?n1 = Some ?n2"
    by (simp add: app_nfc_task_def nfc_runtime_init_def example_rfal_def nfc_init_session_def Let_def
        nfc_ce_task_def nfc_start_rx_def nfc_handle_wait_rx_def nfc_poll_transmission_status_def
        select_fido_def FIDO_AID_def ctap_nfc_is_user_presence_timer_expired_def)
  moreover have "\<exists>n3. app_nfc_task example_rfal ctap 100 later ?n2 = Some n3
      \<and> authenticator n3 = (app_boot, s) \<and> fido_selected (ce_ctx n3) \<and> main_state n3 = NFC_CE_ACTIVE
      \<and> nfc_presence.nfc_user_present (presence_of n3) = (later - 100 < 12000)
      \<and> nfc_presence.nfc_ctap_in_use (presence_of n3) = (later - 100 < 12000)"
    by (simp add: app_nfc_task_def nfc_runtime_init_def example_rfal_def nfc_init_session_def Let_def
        nfc_ce_task_def nfc_handle_process_rx_def nfc_parse_and_respond_def select_fido_def FIDO_AID_def
        nfc_parse_apdu_def parse_short_apdu_def nfc_select_applet_def nfc_build_response_def read_at_def
        FIDO_VERSION_def with_length_def nfc_start_tx_def ctap_nfc_start_user_presence_timer_def
        ctap_nfc_is_user_presence_timer_expired_def ctap_nfc_stop_user_presence_timer_def fido_selected_def not_le reset_chain_def,
        simp add: not_less)
  then obtain n3 where "app_nfc_task example_rfal ctap 100 later ?n2 = Some n3
      \<and> authenticator n3 = (app_boot, s) \<and> fido_selected (ce_ctx n3) \<and> main_state n3 = NFC_CE_ACTIVE
      \<and> nfc_presence.nfc_user_present (presence_of n3) = (later - 100 < 12000)
      \<and> nfc_presence.nfc_ctap_in_use (presence_of n3) = (later - 100 < 12000)" by blast
  ultimately show ?thesis
    by (intro exI [of _ ?n1] exI [of _ ?n2] exI [of _ n3]) (simp add: nfc_init_session_def nfc_runtime_init_def)
qed

lemma example_selected:
  fixes later :: u32
  shows "\<exists>n s. device_reachable example_env ref_decoder (\<lambda>_. None) (\<lambda>_. []) example_rfal (MainLoop, n)
     \<and> authenticator n = (with_nfc_flags (presence_of n) app_boot, s)
     \<and> fido_selected (ce_ctx n) \<and> main_state n = NFC_CE_ACTIVE
     \<and> nfc_presence.nfc_user_present (presence_of n) = (later - 100 < 12000)
     \<and> nfc_presence.nfc_ctap_in_use (presence_of n) = (later - 100 < 12000)
     \<and> storage s = [] \<and> init_time s = 0 \<and> list_all protocol_ok (pin_protocols s)"
proof -
  fix inp :: "bytes request_environment"
  let ?reachable = "\<lambda>n. device_reachable example_env ref_decoder (\<lambda>_. None) (\<lambda>_. []) example_rfal (MainLoop, n)"
  let ?ev = "\<lparr>at_request = \<lparr>arrived = [], accepted = True, tick = 0\<rparr>, at_handler = \<lparr>arrived = [], accepted = True, tick = 0\<rparr>,
    waiting = None, after_consent = None\<rparr>"
  let ?ctap = "example_service 0 ?ev inp"
  have ev: "wf_events ?ev" by (simp add: wf_events_def)
  obtain s where s: "ctap_init example_env 0 ((CTAP_STATE_CONST_INIT [])\<lparr>rng_position := 0\<rparr>) = Some s"
    "storage s = []" "init_time s = 0" "list_all protocol_ok (pin_protocols s)" using example_boot by blast
  obtain n1 n2 n3 where n: "app_nfc_task example_rfal ?ctap 0 0 (device_at_boot s) = Some n1"
      "app_nfc_task example_rfal ?ctap 0 0 n1 = Some n2"
      "app_nfc_task example_rfal ?ctap 100 later n2 = Some n3"
      "authenticator n1 = (app_boot, s)" "presence_of n1 = presence_of (nfc_runtime_init () ())"
      "authenticator n2 = (app_boot, s)" "presence_of n2 = presence_of (nfc_runtime_init () ())"
      "authenticator n3 = (app_boot, s)" "fido_selected (ce_ctx n3)" "main_state n3 = NFC_CE_ACTIVE"
      "nfc_presence.nfc_user_present (presence_of n3) = (later - 100 < 12000)"
      "nfc_presence.nfc_ctap_in_use (presence_of n3) = (later - 100 < 12000)"
    using applet_selected [where ctap = ?ctap and s = s and later = later] by blast
  let ?n3 = "n3\<lparr>authenticator := apfst (with_nfc_flags (presence_of n3)) (authenticator n3)\<rparr>"
  have same: "m\<lparr>authenticator := apfst (with_nfc_flags (presence_of m)) (authenticator m)\<rparr> = m"
    if "authenticator m = (app_boot, s)" "presence_of m = presence_of (nfc_runtime_init () ())" for m :: "(_, unit) nfc_system"
    using that by (cases m) (simp add: with_nfc_flags_def app_boot_def nfc_runtime_init_def)
  have step: "?reachable (m'\<lparr>authenticator := apfst (with_nfc_flags (presence_of m')) (authenticator m')\<rparr>)"
    if "?reachable m" "app_nfc_task example_rfal ?ctap now t m = Some m'" for m m' now t
    using that(2) by (intro device_reachable.run [OF that(1) device_step.nfc [where junk = 0 and inp = inp
        and now = now and later = t, OF ev]]) (simp only: nfc_step_def option.map)
  have "?reachable (device_at_boot s)"
    unfolding device_at_boot_def by (rule device_reachable.power_up [OF s(1)])
  from step [OF this n(1)] have "?reachable n1" by (simp only: same [OF n(4,5)])
  from step [OF this n(2)] have "?reachable n2" by (simp only: same [OF n(6,7)])
  from step [OF this n(3)] have "?reachable ?n3" .
  then show ?thesis
    using n(8-) s(2-) by (intro exI [of _ ?n3] exI [of _ s]) simp
qed

lemma ready_at_boot:
  "ctaphid_has_complete_message_ready (app_ctaphid (with_nfc_flags p app_boot)) = Some False"
  by (simp add: with_nfc_flags_def app_boot_def ctaphid_init_def hid_boot_def
      ctaphid_has_complete_message_ready_def is_idle_def)

definition quiet_events :: request_events where
  "quiet_events = \<lparr>at_request = \<lparr>arrived = [], accepted = True, tick = 1\<rparr>,
     at_handler = \<lparr>arrived = [], accepted = True, tick = 1\<rparr>, waiting = None, after_consent = None\<rparr>"

lemma wf_quiet_events: "wf_events quiet_events"
  by (simp add: wf_events_def quiet_events_def)

definition example_environment :: "bytes request_environment" where
  "example_environment = \<lparr>clock_at_start = 1, clock_later = 2, presence = CTAP_UP_RESULT_DENY,
     stack = session_stack, reread_credential = (\<lambda>_ c. c), reread_rp = (\<lambda>_ r. r)\<rparr>"

text \<open>A reset over NFC, during the wait of which the presence of the reader counts.\<close>

definition reset_events :: request_events where
  "reset_events = quiet_events\<lparr>waiting := Some (1, [])\<rparr>"

lemma reset_effects:
  assumes "nfc_presence.nfc_user_present p" and "nfc_presence.nfc_ctap_in_use p"
  shows "request_effects 0 True reset_events (with_nfc_flags p app_boot)
    = Some (Some CTAP_UP_RESULT_ALLOW, with_nfc_flags p app_boot)"
  using assms by (simp add: request_effects_def reset_events_def quiet_events_def ctap_send_keepalive_if_needed_def
      app_ctap_send_keepalive_if_needed_def with_nfc_flags_def app_hid_task_def ctap_wait_for_user_presence_def
      app_hid_report_send_queue_send_one_if_possible_def app_boot_def)

lemma timers_clock:
  "current_time (after_timers inp s) = clock_at_start inp \<and> init_time (after_timers inp s) = init_time s"
  by (simp add: after_timers_def ctap_pin_uv_auth_token_check_usage_timer_def Let_def
      ctap_discard_stateful_command_state_if_expired_def ctap_discard_stateful_command_state_def
      ctap_pin_uv_auth_token_clear_user_present_flag_def ctap_pin_uv_auth_token_stop_using_def)

lemma reset_runs:
  assumes "storage s = []" and "init_time s = 0" and "list_all protocol_ok (pin_protocols s)"
    and "clock_at_start inp = 1"
  shows "\<exists>s'. ctap_request example_env ref_decoder (\<lambda>_. None) (\<lambda>_. []) (inp\<lparr>presence := CTAP_UP_RESULT_ALLOW\<rparr>) s
    0x07 [] = Some (CTAP2_OK, s', [])"
proof -
  let ?inp = "inp\<lparr>presence := CTAP_UP_RESULT_ALLOW\<rparr>"
  let ?s = "after_timers ?inp s"
  let ?s1 = "?s\<lparr>storage := [], stateful_command_state := (stateful_command_state ?s)\<lparr>
      cmd_data := reread_remembered ?inp [] (cmd_data (stateful_command_state ?s))\<rparr>\<rparr>"
  have "current_time ?s = 1" "init_time ?s = 0" using timers_clock [of ?inp s] assms by simp_all
  moreover have "pin_protocols ?s = pin_protocols s"
    by (auto simp: after_timers_def ctap_pin_uv_auth_token_check_usage_timer_def Let_def
        ctap_discard_stateful_command_state_if_expired_def ctap_discard_stateful_command_state_def
        ctap_pin_uv_auth_token_clear_user_present_flag_def ctap_pin_uv_auth_token_stop_using_def)
  then have "\<exists>s'. ctap_init example_env (clock_later ?inp) ?s1 = Some s'"
    using boot_empty [of ?s1 "clock_later ?inp"] assms by auto
  ultimately show ?thesis
    by (auto simp: ctap_request_eq ctap_invoke_handler_def ctap_get_command_handler_def ctap_command_handlers_def
        ctap_reset_def example_env_def example_storage_def Let_def)
qed

lemma invalid_command_effects:
  "\<exists>w. request_effects 0 False quiet_events (app_ctap_reset_keepalive app_with_request) = Some (None, w)
     \<and> send_queue w = []"
  by (simp add: request_effects_def quiet_events_def ctap_send_keepalive_if_needed_def Let_def
      app_ctap_send_keepalive_if_needed_def app_hid_task_def app_ctap_reset_keepalive_def
      app_hid_report_send_queue_send_one_if_possible_def app_ctaphid_send_keepalive_def app_with_request_def
      app_boot_def ctaphid_create_init_packet_def app_hid_report_send_queue_add_def require_def
      ctaphid_has_complete_message_ready_def is_idle_def is_complete_message_def)

lemma boot_authenticator: "authenticator (device_at_boot s) = (app_boot, s)"
  by (simp add: device_at_boot_def nfc_init_def Let_def same_authenticator nfc_runtime_init_def split: prod.split)

end
