(* ===== verification/Device_Properties.thy ===== *)
theory Device_Properties
  imports Device_Examples
begin

text \<open>
  What holds for the device as a whole: its parts stay consistent, every request over USB is answered
  with the response of the CTAP layer to it, credentials are made and erased only with the consent of
  the user, and a request over NFC that comes late stops the device.
\<close>

section \<open>Requests over USB\<close>

text \<open>Steps that do not return to the top of the main loop.\<close>

definition device_busy :: "('h, 's) ctap_interfaces \<Rightarrow> 'v tinycbor \<Rightarrow> (bytes \<Rightarrow> 'v option)
    \<Rightarrow> (encoder \<Rightarrow> bytes) \<Rightarrow> 'r rfal
    \<Rightarrow> point \<times> (app_state \<times> ('h, 's) ctap_state, 'r) nfc_system
    \<Rightarrow> point \<times> (app_state \<times> ('h, 's) ctap_state, 'r) nfc_system \<Rightarrow> bool" where
  "device_busy env dec parser_init bytes_of rf c c' \<longleftrightarrow>
     device_step env dec parser_init bytes_of rf c c' \<and> fst c \<noteq> MainLoop \<and> fst c' \<noteq> MainLoop"

text \<open>The response to a request is the one of the CTAP layer in the given state.\<close>

definition answers :: "('h, 's) ctap_interfaces \<Rightarrow> 'v tinycbor \<Rightarrow> (bytes \<Rightarrow> 'v option)
    \<Rightarrow> (encoder \<Rightarrow> bytes) \<Rightarrow> ('h, 's) ctap_state \<Rightarrow> bytes \<Rightarrow> bytes \<Rightarrow> ('h, 's) ctap_state \<Rightarrow> bool" where
  "answers env dec parser_init bytes_of s request response s' \<longleftrightarrow>
     (\<exists>inp status e. ctap_request env dec parser_init bytes_of inp s (hd request) (tl request)
          = Some (status, s', e)
        \<and> response = status # (if status = CTAP2_OK then bytes_of e else []))"

lemma service_answers:
  assumes "device_service env dec parser_init bytes_of junk ev inp c (hd request) (tl request)
      = Some (status, response, c')"
  shows "answers env dec parser_init bytes_of (snd c) request (status # response) (snd c')"
proof -
  from device_serviceE [OF assms] obtain up s1 e where
    "ctap_request env dec parser_init bytes_of (inp\<lparr>presence := up\<rparr>) (snd c) (hd request) (tl request)
      = Some (status, s1, e)" "snd c' = s1" "response = (if status = CTAP2_OK then bytes_of e else [])"
    by (metis snd_conv)
  then show ?thesis unfolding answers_def by blast
qed

definition busy_inv :: "('h, 's) ctap_interfaces \<Rightarrow> 'v tinycbor \<Rightarrow> (bytes \<Rightarrow> 'v option)
    \<Rightarrow> (encoder \<Rightarrow> bytes) \<Rightarrow> u32 \<times> u8 \<times> bytes \<Rightarrow> ('h, 's) ctap_state
    \<Rightarrow> point \<times> (app_state \<times> ('h, 's) ctap_state, 'r) nfc_system \<Rightarrow> bool" where
  "busy_inv env dec parser_init bytes_of m s0 c \<longleftrightarrow>
     (case c of (pt, n) \<Rightarrow>
        device_inv env dec parser_init bytes_of (pt, n)
      \<and> message_of (buffer (app_ctaphid (fst (authenticator n)))) = m
      \<and> (case pt of
           MainLoop \<Rightarrow> False
         | WaitAfter response \<Rightarrow>
             answers env dec parser_init bytes_of s0 (snd (snd m)) response (snd (authenticator n))
         | _ \<Rightarrow> snd (authenticator n) = s0))"

lemma busy_step_inv:
  assumes "device_busy env dec parser_init bytes_of rf c c'"
    and "busy_inv env dec parser_init bytes_of m s0 c"
  shows "busy_inv env dec parser_init bytes_of m s0 c'"
proof -
  have step: "device_step env dec parser_init bytes_of rf c c'" "fst c \<noteq> MainLoop" "fst c' \<noteq> MainLoop"
    using assms(1) by (auto simp: device_busy_def)
  have inv: "device_inv env dec parser_init bytes_of c" "device_inv env dec parser_init bytes_of c'"
    using assms(2) device_step_inv [OF step(1)] by (auto simp: busy_inv_def)
  from step show ?thesis
  proof cases
    case (usb n w s pt pt' w')
    have "app_inv (pt, w)" using inv(1) usb by (simp add: device_inv_def)
    then have m: "message_of (buffer (app_ctaphid w')) = message_of (buffer (app_ctaphid w))"
      using busy_step_keeps [of "(pt, w)" "(pt', w')"] usb step(2,3) by (simp add: busy_step_def)
    have "pt' = pt \<or> (\<exists>cmd. pt = WaitBefore cmd \<and> pt' = Working) \<or> pt = MainLoop \<or> pt' = MainLoop"
      using usb(4,5) by cases auto
    then show ?thesis
      using assms(2) inv(2) usb m step(2,3) by (auto simp: busy_inv_def split: point.splits)
  next
    case (usb_request n w s ev junk inp status response c1)
    have k: "app_keeps Working w (fst c1)" using device_service_sound(1) [OF usb_request(5,4)] by simp
    have req: "snd (snd m) = buffered_request w" and s: "s = s0" and m: "message_of (buffer (app_ctaphid w)) = m"
      using assms(2) usb_request by (auto simp: busy_inv_def message_of_def buffered_request_def Let_def)
    have "app_inv (Working, w)" using inv(1) usb_request by (simp add: device_inv_def)
    then have "message_of (buffer (app_ctaphid (fst c1))) = m" using k m by (simp add: app_keeps_def)
    moreover have "answers env dec parser_init bytes_of s0 (snd (snd m)) (status # response) (snd c1)"
      using service_answers [OF usb_request(5)] req s by simp
    ultimately show ?thesis using inv(2) usb_request by (simp add: busy_inv_def)
  next
    case (button n w s pt)
    with assms(2) inv(2) show ?thesis by (auto simp: busy_inv_def split: point.splits)
  next
    case (radio pt n r)
    with assms(2) inv(2) show ?thesis by (auto simp: busy_inv_def split: point.splits)
  qed (use step in auto)
qed

text \<open>
  C1: Every request over USB is answered with its own response. Take a device that keeps its
  invariant (every reachable one does) with a complete CBOR request in the buffer, and let
  anything happen from there until the response is ready to be queued: reports of this and other
  channels arriving, sending, keepalives, the button, the wait for the user. Then the CTAP layer
  has processed exactly the buffered request, exactly once, in the state in which it was when the
  request was found; its status and response are queued completely as the packets of a CBOR
  message on the channel of the request; the authenticator is in the state after that request, and
  the device keeps its invariant.
\<close>

theorem device_answers_requests:
  assumes "device_inv env dec parser_init bytes_of (MainLoop, n0)"
    and "authenticator n0 = (w0, s0)"
    and "ctaphid_has_complete_message_ready (app_ctaphid w0) = Some True"
    and "(device_busy env dec parser_init bytes_of rf)\<^sup>*\<^sup>*
      (WaitBefore (buf_cmd (buffer (app_ctaphid w0))), n0) (WaitAfter response, n)"
    and "authenticator n = (w, s)" and "app_hid_report_send_queue_is_empty w"
  shows "\<exists>ps w'. answers env dec parser_init bytes_of s0 (buffered_request w0) response s
    \<and> ctaphid_message_to_packets (buf_cid (buffer (app_ctaphid w0))) CTAPHID_CBOR
        (length response) response = Some ps
    \<and> device_step env dec parser_init bytes_of rf (WaitAfter response, n)
        (MainLoop, n\<lparr>authenticator := (w', s)\<rparr>)
    \<and> send_queue w' = ps \<and> ctaphid_is_idle (app_ctaphid w') = Some True
    \<and> device_inv env dec parser_init bytes_of (MainLoop, n\<lparr>authenticator := (w', s)\<rparr>)"
proof -
  let ?c0 = "(WaitBefore (buf_cmd (buffer (app_ctaphid w0))), n0)"
  let ?m = "message_of (buffer (app_ctaphid w0))"
  have start: "app_step (MainLoop, w0) (WaitBefore (buf_cmd (buffer (app_ctaphid w0))), w0)"
    by (rule app_step.start [OF assms(3)])
  have a0: "app_inv (MainLoop, w0)" using assms(1,2) by (simp add: device_inv_def)
  have "device_inv env dec parser_init bytes_of ?c0"
    using assms(1,2) app_step_inv [OF start a0] by (simp add: device_inv_def)
  then have "busy_inv env dec parser_init bytes_of ?m s0 ?c0" using assms(2) by (simp add: busy_inv_def)
  with assms(4) have "busy_inv env dec parser_init bytes_of ?m s0 (WaitAfter response, n)"
    by (induction rule: rtranclp_induct) (auto intro: busy_step_inv)
  then have b: "device_inv env dec parser_init bytes_of (WaitAfter response, n)"
      "message_of (buffer (app_ctaphid w)) = ?m"
      "answers env dec parser_init bytes_of s0 (buffered_request w0) response s"
    using assms(5) by (simp_all add: busy_inv_def message_of_def buffered_request_def Let_def)
  then have "app_inv (WaitAfter response, w)" using assms(5) by (simp add: device_inv_def)
  from answer_cbor_ok [OF this assms(6)] obtain ps where ps:
    "app_ctaphid_answer_cbor response w
      = Some (w\<lparr>send_queue := ps, app_ctaphid := ctaphid_reset_to_idle (app_ctaphid w)\<rparr>)"
    "ctaphid_message_to_packets (buf_cid (buffer (app_ctaphid w))) CTAPHID_CBOR
      (length response) response = Some ps" by blast
  let ?w' = "w\<lparr>send_queue := ps, app_ctaphid := ctaphid_reset_to_idle (app_ctaphid w)\<rparr>"
  have step: "device_step env dec parser_init bytes_of rf (WaitAfter response, n)
      (MainLoop, n\<lparr>authenticator := (?w', s)\<rparr>)"
    using device_step.usb [OF assms(5) app_step.answer [OF assms(6) ps(1)]] by blast
  have cid: "buf_cid (buffer (app_ctaphid w)) = buf_cid (buffer (app_ctaphid w0))"
    using b(2) by (simp add: message_of_def)
  have idle: "ctaphid_is_idle (app_ctaphid ?w') = Some True"
    by (simp add: ctaphid_is_idle_def ctaphid_reset_to_idle_def is_idle_def)
  show ?thesis
    using b(3) ps(2) cid step idle device_step_inv [OF step b(1)]
    by (intro exI [of _ ps] exI [of _ ?w']) simp
qed

theorem device_answers_requests_witness:
  "\<exists>(n :: (app_state \<times> (sha256_ctx, bytes) ctap_state, unit) nfc_system) s w' s' ps.
     authenticator n = (w', s')
     \<and> answers example_env ref_decoder (\<lambda>_. None) (\<lambda>_. []) s [0] [CTAP1_ERR_INVALID_COMMAND] s'
     \<and> ctaphid_message_to_packets 1 CTAPHID_CBOR 1 [CTAP1_ERR_INVALID_COMMAND] = Some ps
     \<and> send_queue w' = ps \<and> ctaphid_is_idle (app_ctaphid w') = Some True"
proof -
  obtain s where s: "ctap_init example_env 0 ((CTAP_STATE_CONST_INIT [])\<lparr>rng_position := 0\<rparr>) = Some s"
    using example_boot by blast
  let ?n0 = "(device_at_boot s)\<lparr>authenticator := (app_with_request, s)\<rparr>"
  let ?w1 = "app_ctap_reset_keepalive app_with_request"
  let ?n1 = "(device_at_boot s)\<lparr>authenticator := (?w1, s)\<rparr>"
  let ?step = "device_step example_env ref_decoder (\<lambda>_. None) (\<lambda>_. []) example_rfal"
  let ?busy = "device_busy example_env ref_decoder (\<lambda>_. None) (\<lambda>_. []) example_rfal"
  let ?s' = "after_timers (example_environment\<lparr>presence := CTAP_UP_RESULT_DENY\<rparr>) s"
  have inv: "device_inv example_env ref_decoder (\<lambda>_. None) (\<lambda>_. []) (MainLoop, ?n0)"
    using power_up_inv [OF s, of ref_decoder "\<lambda>_. None" "\<lambda>_. []" example_rfal "()"] app_with_request_inv(1)
      boot_authenticator [of s]
    by (simp add: device_inv_def device_at_boot_def same_nfc_flags_def app_with_request_def)
  obtain w2 where w2: "request_effects 0 False quiet_events ?w1 = Some (None, w2)" "send_queue w2 = []"
    using invalid_command_effects by blast
  let ?n2 = "?n1\<lparr>authenticator := (w2, ?s')\<rparr>"
  have request: "buffered_request app_with_request = [0]" "buffered_request ?w1 = [0]"
    "buf_cmd (buffer (app_ctaphid app_with_request)) = CTAPHID_CBOR"
    "buf_cid (buffer (app_ctaphid app_with_request)) = 1"
    "app_hid_report_send_queue_is_empty app_with_request"
    "payload_length (buffer (app_ctaphid app_with_request)) \<noteq> 0"
    by (simp_all add: buffered_request_def app_with_request_def app_ctap_reset_keepalive_def hid_one_channel_eq
        hid_boot_def zeros_def Let_def app_hid_report_send_queue_is_empty_def app_boot_def)
  have serve: "example_service 0 quiet_events example_environment (?w1, s) 0 []
      = Some (CTAP1_ERR_INVALID_COMMAND, [], (w2, ?s'))"
    using w2(1) by (simp add: device_service_def handler_called_def ctap_get_command_handler_def
        ctap_command_handlers_def ctap_request_eq ctap_invoke_handler_def after_timers_def Let_def require_def
        all_decisions_def)
  have "?step (WaitBefore CTAPHID_CBOR, ?n0) (Working, ?n1)"
    using device_step.usb [where n = ?n0 and w' = ?w1 and s = s and env = example_env and dec = ref_decoder
        and parser_init = "\<lambda>_. None" and bytes_of = "\<lambda>_. []" and rf = example_rfal,
        OF _ app_step.request [OF request(5,6)]] by simp
  then have "?busy (WaitBefore CTAPHID_CBOR, ?n0) (Working, ?n1)" by (simp add: device_busy_def)
  moreover have "?step (Working, ?n1) (WaitAfter [CTAP1_ERR_INVALID_COMMAND], ?n2)"
    using device_step.usb_request [where n = ?n1 and w = ?w1 and s = s and env = example_env and dec = ref_decoder
        and parser_init = "\<lambda>_. None" and bytes_of = "\<lambda>_. []" and rf = example_rfal,
        OF _ wf_quiet_events, of 0 example_environment] serve request(2) by simp
  then have "?busy (Working, ?n1) (WaitAfter [CTAP1_ERR_INVALID_COMMAND], ?n2)" by (simp add: device_busy_def)
  ultimately have run: "?busy\<^sup>*\<^sup>* (WaitBefore CTAPHID_CBOR, ?n0) (WaitAfter [CTAP1_ERR_INVALID_COMMAND], ?n2)"
    by (meson converse_rtranclp_into_rtranclp r_into_rtranclp)
  have "app_hid_report_send_queue_is_empty w2" using w2(2) by (simp add: app_hid_report_send_queue_is_empty_def)
  from device_answers_requests [OF inv _ app_with_request_inv(2), of s example_rfal "[CTAP1_ERR_INVALID_COMMAND]" ?n2
      w2 ?s', unfolded request, OF _ run _ this]
  have "\<exists>ps (w' :: app_state). answers example_env ref_decoder (\<lambda>_. None) (\<lambda>_. []) s [0] [CTAP1_ERR_INVALID_COMMAND] ?s'
      \<and> ctaphid_message_to_packets 1 CTAPHID_CBOR 1 [CTAP1_ERR_INVALID_COMMAND] = Some ps
      \<and> send_queue w' = ps \<and> ctaphid_is_idle (app_ctaphid w') = Some True"
    by auto
  then obtain ps and w' :: app_state where "answers example_env ref_decoder (\<lambda>_. None) (\<lambda>_. []) s [0] [CTAP1_ERR_INVALID_COMMAND] ?s'"
      "ctaphid_message_to_packets 1 CTAPHID_CBOR 1 [CTAP1_ERR_INVALID_COMMAND] = Some ps"
      "send_queue w' = ps" "ctaphid_is_idle (app_ctaphid w') = Some True" by blast
  then show ?thesis
    by (intro exI [of _ "?n2\<lparr>authenticator := (w', ?s')\<rparr>"]) auto
qed

section \<open>Consent\<close>

abbreviation (input) cmd_make_credential :: u8 where "cmd_make_credential \<equiv> 0x01"
abbreviation (input) cmd_reset :: u8 where "cmd_reset \<equiv> 0x07"

lemma token_presence_before:
  assumes "ctap_pin_uv_auth_token_get_user_present_flag_value (after_timers inp s)"
  shows "ctap_pin_uv_auth_token_get_user_present_flag_value s"
  using assms
  by (auto simp: after_timers_def ctap_pin_uv_auth_token_check_usage_timer_def Let_def
      ctap_pin_uv_auth_token_get_user_present_flag_value_def ctap_discard_stateful_command_state_if_expired_def
      ctap_discard_stateful_command_state_def ctap_pin_uv_auth_token_clear_user_present_flag_def
      stop_using_token split: if_splits)

lemma make_credential_consent:
  assumes "ctap_request env dec parser_init bytes_of inp s cmd_make_credential params = Some (status, s', e)"
    and "status = CTAP2_OK \<or> storage s' \<noteq> storage s"
  shows "presence inp = CTAP_UP_RESULT_ALLOW \<or> ctap_pin_uv_auth_token_get_user_present_flag_value s"
proof -
  let ?s = "after_timers inp s"
  have st: "storage ?s = storage s" using after_timers_frame by blast
  with assms obtain e1 where mc: "ctap_make_credential env dec bytes_of (stack inp) (presence inp) (clock_later inp) ?s
      (if length params > 0 then parser_init params else None) [] = Some (status, s', e1)"
    by (auto simp: ctap_request_eq ctap_invoke_handler_def ctap_get_command_handler_def ctap_command_handlers_def
        split: if_splits bind_splits)
  from make_credential_presence [OF mc] assms(2) st token_presence_before [of inp s]
  show ?thesis by auto
qed

lemma reset_consent:
  assumes "ctap_request env dec parser_init bytes_of inp s cmd_reset params = Some (status, s', e)"
    and "status = CTAP2_OK \<or> storage s' \<noteq> storage s"
  shows "presence inp = CTAP_UP_RESULT_ALLOW \<and> clock_at_start inp - init_time s \<le> 10000"
proof -
  let ?s = "after_timers inp s"
  have st: "storage ?s = storage s" using after_timers_frame by blast
  with assms have r: "ctap_reset env inp ?s = Some (status, s')"
    by (auto simp: ctap_request_eq ctap_invoke_handler_def ctap_get_command_handler_def ctap_command_handlers_def
        split: if_splits bind_splits)
  have "current_time ?s = clock_at_start inp" "init_time ?s = init_time s"
    using timers_clock by blast+
  with r assms(2) st show ?thesis
    by (auto simp: ctap_reset_def not_less split: if_splits ctap_user_presence_result.splits)
qed

text \<open>
  C2: Credentials are made and erased only with the consent of the user. Whatever the device did
  before, and over whichever transport the request comes: when authenticatorMakeCredential or
  authenticatorReset succeeds, or only changes the storage, then the button was pressed during the
  wait of this very request, or the card emulation holds the presence of the user in an active
  session, or, for makeCredential, the pinUvAuthToken carries it. A reset moreover began within
  10 seconds of the start.
\<close>

theorem credentials_need_consent:
  assumes "device_reachable env dec parser_init bytes_of rf (pt, n)" and "authenticator n = (w, s)"
    and "wf_events ev"
    and "device_service env dec parser_init bytes_of junk ev inp (w, s) cmd params
      = Some (status, response, (w', s'))"
    and "cmd = cmd_make_credential \<or> cmd = cmd_reset" and "status = CTAP2_OK \<or> storage s' \<noteq> storage s"
  shows "(button_pressed_during ev
      \<or> nfc_presence.nfc_user_present (presence_of n) \<and> main_state n = NFC_CE_ACTIVE
      \<or> cmd = cmd_make_credential \<and> ctap_pin_uv_auth_token_get_user_present_flag_value s)
    \<and> (cmd = cmd_reset \<longrightarrow> clock_at_start inp - init_time s \<le> 10000)"
proof -
  from device_serviceE [OF assms(4)] obtain decision w1 up s1 e where
    effects: "request_effects junk (handler_called parser_init cmd params) ev w = Some (decision, w1)"
    and up: "up = (case decision of None \<Rightarrow> CTAP_UP_RESULT_DENY | Some up \<Rightarrow> up)"
    and run: "ctap_request env dec parser_init bytes_of (inp\<lparr>presence := up\<rparr>) s cmd params = Some (status, s', e)"
    by (metis fst_conv snd_conv Pair_inject)
  have inv: "same_nfc_flags (presence_of n) w" "presence_ok n"
    using device_reachable_inv [OF assms(1)] assms(2) by (simp_all add: device_inv_def)
  have consent: "button_pressed_during ev
      \<or> nfc_presence.nfc_user_present (presence_of n) \<and> main_state n = NFC_CE_ACTIVE"
    if "up = CTAP_UP_RESULT_ALLOW"
  proof -
    have "decision = Some CTAP_UP_RESULT_ALLOW" using that up by (auto split: option.splits)
    with effects_sound [OF effects assms(3)] inv show ?thesis
      by (auto simp: same_nfc_flags_def presence_ok_def)
  qed
  from assms(5) show ?thesis
  proof
    assume c: "cmd = cmd_make_credential"
    from make_credential_consent [OF run [unfolded c] assms(6)] consent c show ?thesis by auto
  next
    assume c: "cmd = cmd_reset"
    from reset_consent [OF run [unfolded c] assms(6)] consent c show ?thesis by auto
  qed
qed

theorem credentials_need_consent_witness:
  "\<exists>(n :: (_, unit) nfc_system) w s w' s'. authenticator n = (w, s)
     \<and> example_service 0 reset_events example_environment (w, s) cmd_reset [] = Some (CTAP2_OK, [], (w', s'))
     \<and> nfc_presence.nfc_user_present (presence_of n) \<and> main_state n = NFC_CE_ACTIVE
     \<and> clock_at_start example_environment - init_time s \<le> 10000"
proof -
  obtain n s where n: "device_reachable example_env ref_decoder (\<lambda>_. None) (\<lambda>_. []) example_rfal (MainLoop, n)"
      "authenticator n = (with_nfc_flags (presence_of n) app_boot, s)"
      "nfc_presence.nfc_user_present (presence_of n)" "nfc_presence.nfc_ctap_in_use (presence_of n)"
      "storage s = []" "init_time s = 0" "list_all protocol_ok (pin_protocols s)"
    using example_selected [of 100] by auto
  let ?w = "with_nfc_flags (presence_of n) app_boot"
  obtain s' where "ctap_request example_env ref_decoder (\<lambda>_. None) (\<lambda>_. [])
      (example_environment\<lparr>presence := CTAP_UP_RESULT_ALLOW\<rparr>) s cmd_reset [] = Some (CTAP2_OK, s', [])"
    using reset_runs [OF n(5-7), of example_environment] by (auto simp: example_environment_def)
  then have run: "example_service 0 reset_events example_environment (?w, s) cmd_reset []
      = Some (CTAP2_OK, [], (?w, s'))"
    using reset_effects [OF n(3,4)] by (simp add: device_service_def handler_called_def
        ctap_get_command_handler_def ctap_command_handlers_def Let_def require_def)
  have "wf_events reset_events" "\<not> button_pressed_during reset_events"
    by (simp_all add: reset_events_def quiet_events_def wf_events_def button_pressed_during_def)
  with credentials_need_consent [OF n(1,2) _ run] n(2) run show ?thesis
    by (intro exI conjI) (rule n(2), rule run, auto)
qed

text \<open>
  C3: The parts of the device agree. In every state the device can reach, the invariant of the main
  loop holds, the presence over NFC that \<open>app.c\<close> sees is the one the card emulation set, it is only set
  in an active session with the limit of 12 seconds, and the stateful command of the authenticator
  is valid.
\<close>

theorem device_consistent:
  assumes "device_reachable env dec parser_init bytes_of rf (pt, n)" and "authenticator n = (w, s)"
  shows "app_inv (pt, w)
    \<and> app_state.nfc_user_present w = nfc_presence.nfc_user_present (presence_of n)
    \<and> app_state.nfc_ctap_in_use w = nfc_presence.nfc_ctap_in_use (presence_of n)
    \<and> (app_state.nfc_user_present w \<longrightarrow> main_state n = NFC_CE_ACTIVE
        \<and> threshold (user_presence_timer (presence_of n)) = 12000)
    \<and> state_ok s"
  using device_reachable_inv [OF assms(1)] assms(2) reachable_state_ok
  by (auto simp: device_inv_def same_nfc_flags_def presence_ok_def)

theorem device_consistent_witness:
  "\<exists>(n :: (app_state \<times> (sha256_ctx, bytes) ctap_state, unit) nfc_system) w s.
     authenticator n = (w, s) \<and> app_state.nfc_user_present w \<and> main_state n = NFC_CE_ACTIVE
     \<and> threshold (user_presence_timer (presence_of n)) = 12000 \<and> state_ok s"
proof -
  obtain n s where n: "device_reachable example_env ref_decoder (\<lambda>_. None) (\<lambda>_. []) example_rfal (MainLoop, n)"
      "authenticator n = (with_nfc_flags (presence_of n) app_boot, s)"
      "nfc_presence.nfc_user_present (presence_of n)"
    using example_selected [of 100] by auto
  then have "app_state.nfc_user_present (with_nfc_flags (presence_of n) app_boot)"
    by (simp add: with_nfc_flags_def)
  with device_consistent [OF n(1,2)] n(2) show ?thesis by blast
qed

section \<open>A late request over NFC\<close>

lemma late_request_fails:
  assumes "\<not> app_state.nfc_ctap_in_use w"
    and "ctaphid_has_complete_message_ready (app_ctaphid w) = Some False"
    and "last_status w \<noteq> CTAP_STATUS_UPNEEDED
      \<or> hid_input.tick (at_request ev) - last_status_timestamp w > 80"
  shows "device_service env dec parser_init bytes_of junk ev inp (w, s) cmd params = None"
proof -
  have "ctap_send_keepalive_if_needed junk CTAP_STATUS_UPNEEDED (at_request ev) w = None"
    using assms by (auto simp: ctap_send_keepalive_if_needed_def app_ctap_send_keepalive_if_needed_def
        app_ctaphid_send_keepalive_def require_def)
  then show ?thesis by (simp add: device_service_def request_effects_def)
qed

text \<open>A service that fails makes the command fail.\<close>

lemma request_fails:
  assumes "fido_selected (ce_ctx n)" and "command_data d" and "ctap (authenticator n) (hd d) (tl d) = None"
  shows "nfc_parse_and_respond ctap now n (Some (ctap_command 0x80 d k)) 512 = None"
proof -
  have d: "d \<noteq> []" "read_at d 0 (length d) = Some d"
    using assms(2) by (auto simp: command_data_def read_at_def)
  then have "fido_handle_ctap ctap ctx (authenticator n) d 512 = None" for ctx
    using assms(3) by (simp add: fido_handle_ctap_def)
  with d(2) assms(1) length_as_word [OF assms(2)] show ?thesis
    by (simp add: nfc_parse_and_respond_def parse_ctap_command [OF assms(2)] nfc_fido_command_def
        fido_handle_ctap_request_short_def fido_selected_def Let_def)
qed

text \<open>
  C40: A request over NFC that comes late stops the device. Every request begins with a keepalive, and
  it goes to USB as soon as the presence over NFC has ended, which the timer does 12 seconds after
  the selection of the applet while the session goes on and the applet stays selected. So when no
  message was received over USB, every CTAP command in a short APDU, also one that needs no
  presence, runs into the assertion of \<open>app_ctaphid_send_keepalive\<close>, unless a keepalive of the same
  kind was sent in the last 80 milliseconds.
\<close>

theorem late_nfc_request_fails:
  assumes "device_reachable env dec parser_init bytes_of rf (MainLoop, n)" and "authenticator n = (w, s)"
    and "fido_selected (ce_ctx n)" and "\<not> nfc_presence.nfc_ctap_in_use (presence_of n)"
    and "ctaphid_has_complete_message_ready (app_ctaphid w) = Some False"
    and "last_status w \<noteq> CTAP_STATUS_UPNEEDED
      \<or> hid_input.tick (at_request ev) - last_status_timestamp w > 80"
    and "command_data d"
  shows "nfc_parse_and_respond (device_service env dec parser_init bytes_of junk ev inp) now n
      (Some (ctap_command 0x80 d k)) 512 = None"
proof -
  have "\<not> app_state.nfc_ctap_in_use w"
    using device_reachable_inv [OF assms(1)] assms(2,4) by (simp add: device_inv_def same_nfc_flags_def)
  from late_request_fails [OF this assms(5,6)] assms(2)
  show ?thesis by (intro request_fails [OF assms(3,7)]) simp
qed

theorem late_nfc_request_fails_witness:
  "\<exists>n :: (_, unit) nfc_system. fido_selected (ce_ctx n) \<and> \<not> nfc_presence.nfc_user_present (presence_of n)
     \<and> nfc_parse_and_respond (example_service 0 quiet_events example_environment) 20000 n
       (Some (ctap_command 0x80 [0x04] None)) 512 = None"
proof -
  obtain n s where n: "device_reachable example_env ref_decoder (\<lambda>_. None) (\<lambda>_. []) example_rfal (MainLoop, n)"
      "authenticator n = (with_nfc_flags (presence_of n) app_boot, s)" "fido_selected (ce_ctx n)"
      "nfc_presence.nfc_ctap_in_use (presence_of n) = ((20000 :: u32) - 100 < 12000)"
      "nfc_presence.nfc_user_present (presence_of n) = ((20000 :: u32) - 100 < 12000)"
    using example_selected [of 20000] by blast
  have "\<not> nfc_presence.nfc_ctap_in_use (presence_of n)" using n(4) by simp
  moreover have "last_status (with_nfc_flags (presence_of n) app_boot) \<noteq> CTAP_STATUS_UPNEEDED"
    by (simp add: with_nfc_flags_def app_boot_def)
  moreover have "command_data [0x04]" by (simp add: command_data_def)
  ultimately show ?thesis
    using late_nfc_request_fails [OF n(1-3) _ ready_at_boot, of quiet_events "[0x04]" 0 example_environment 20000 None]
      n(3,5) by auto
qed

end
