(* ===== verification/Management.thy ===== *)
theory Management
  imports Assertion_Properties
begin

text \<open>
  Who may use authenticatorCredentialManagement, and what deleting a credential does to the storage.
\<close>

section \<open>Authorisation\<close>

text \<open>What \<open>pinUvAuthParam\<close> signs: the subcommand and the bytes of its parameters in the request.\<close>

definition managed_message :: "bytes \<Rightarrow> CTAP_credentialManagement \<Rightarrow> bytes list" where
  "managed_message request cm =
     (let sub = cm_subCommandParams cm in
      [[cm_subCommand cm]]
      @ (if raw_size sub > 0 then [take (raw_size sub) (drop (raw_start sub) request)] else []))"

definition management_authorised :: "('h, 's) ctap_interfaces \<Rightarrow> u32 \<Rightarrow> bytes \<Rightarrow> ('h, 's) ctap_state
    \<Rightarrow> CTAP_credentialManagement \<Rightarrow> bool" where
  "management_authorised env now request s cm \<longleftrightarrow>
     (\<exists>i s1. ctap_get_pin_protocol s (unat (cm_pinUvAuthProtocol cm)) = Some i
        \<and> verify_with_token env now s i (managed_message request cm) (cm_pinUvAuthParam cm) = Some (True, s1))
   \<and> ctap_pin_uv_auth_token_has_permissions s permission_cm"

text \<open>The credential a request names, which belongs to the relying party of the token if it has one.\<close>

definition managed_credential :: "('h, 's) ctap_interfaces \<Rightarrow> ('h, 's) ctap_state
    \<Rightarrow> CTAP_credentialManagement \<Rightarrow> ctap_credential_handle \<Rightarrow> bool" where
  "managed_credential env s cm c \<longleftrightarrow>
     ctap_lookup_credential_by_desc (storage_ops env) (storage s) (credentialID (cm_subCommandParams cm))
       = Some (Some c)
   \<and> (rpId_set (pin_uv_auth_token_state s) \<longrightarrow>
        src_rp_id_hash (cred_source c) = rpId_hash (pin_uv_auth_token_state s))"

definition same_but_use :: "('h, 's) ctap_state \<Rightarrow> ('h, 's) ctap_state \<Rightarrow> bool" where
  "same_but_use s s' \<longleftrightarrow> (\<exists>last. s' = s\<lparr>pin_uv_auth_token_state := (pin_uv_auth_token_state s)
     \<lparr>usage_timer_last_use := last\<rparr>\<rparr>)"

lemma same_but_use_simps:
  assumes "same_but_use s s'"
  shows "storage s' = storage s" "rpId_set (pin_uv_auth_token_state s') = rpId_set (pin_uv_auth_token_state s)"
    "rpId_hash (pin_uv_auth_token_state s') = rpId_hash (pin_uv_auth_token_state s)"
    "ctap_pin_uv_auth_token_has_permissions s' = ctap_pin_uv_auth_token_has_permissions s"
    "managed_credential env s' cm c = managed_credential env s cm c"
  using assms by (auto simp: same_but_use_def ctap_pin_uv_auth_token_has_permissions_def fun_eq_iff
      managed_credential_def)

lemma verify_management:
  assumes "verify_credential_management_params env now request s cm i = Some (status, s')"
  shows "same_but_use s s'" and "status = CTAP2_OK \<Longrightarrow>
      verify_with_token env now s i (managed_message request cm) (cm_pinUvAuthParam cm) = Some (True, s')
    \<and> ctap_pin_uv_auth_token_has_permissions s permission_cm"
proof -
  obtain valid where v: "verify_with_token env now s i (managed_message request cm) (cm_pinUvAuthParam cm)
      = Some (valid, s')"
    and st: "status = (if \<not> valid then CTAP2_ERR_PIN_AUTH_INVALID
        else if \<not> ctap_pin_uv_auth_token_has_permissions s' permission_cm
        then CTAP2_ERR_PIN_AUTH_INVALID else CTAP2_OK)"
    using assms by (auto simp: verify_credential_management_params_def managed_message_def Let_def split: bind_splits)
  show use: "same_but_use s s'" unfolding same_but_use_def by (rule verify_with_token_gestures [OF v])
  show "verify_with_token env now s i (managed_message request cm) (cm_pinUvAuthParam cm) = Some (True, s')
      \<and> ctap_pin_uv_auth_token_has_permissions s permission_cm" if "status = CTAP2_OK"
    using that v st same_but_use_simps(4) [OF use] by (auto split: if_splits)
qed

section \<open>Subcommands\<close>

lemma find_managed:
  assumes "find_managed_credential env s cm = Some (Inr c)"
  shows "managed_credential env s cm c"
  using assms by (auto simp: find_managed_credential_def managed_credential_def Let_def
      ensure_pin_uv_auth_token_can_be_used_def ctap_credential_matches_rp_id_hash_def
      split: bind_splits if_splits option.splits)

lemma update_timer_storage:
  "ctap_update_stateful_command_timer s = Some s' \<Longrightarrow> storage s' = storage s"
  by (auto simp: ctap_update_stateful_command_timer_def require_def split: if_splits)

lemma set_enumerate_storage [simp]:
  "storage (set_enumerate_rps s cmd rps i) = storage s"
  "storage (set_enumerate_credentials s cmd cs i) = storage s"
  by (simp_all add: set_enumerate_rps_def set_enumerate_credentials_def)

lemma respond_with_credential_storage:
  "respond_with_credential env s e c n = Some (status, s', e') \<Longrightarrow> storage s' = storage s"
  by (auto simp: respond_with_credential_def Let_def split: prod.splits if_splits bind_splits)

text \<open>What a subcommand that succeeds, or changes the storage, relies on.\<close>

definition subcommand_allowed :: "('h, 's) ctap_interfaces \<Rightarrow> ('h, 's) ctap_state
    \<Rightarrow> CTAP_credentialManagement \<Rightarrow> bool" where
  "subcommand_allowed env s cm \<longleftrightarrow>
     (let cmd = cm_subCommand cm; t = pin_uv_auth_token_state s;
          active = active_cmd (stateful_command_state s) in
      cmd \<in> {1, 2, 3, 4, 5, 6, 7}
    \<and> (cmd \<in> {1, 2} \<longrightarrow> \<not> rpId_set t)
    \<and> (cmd = 3 \<longrightarrow> active = CTAP_STATEFUL_CMD_CRED_MGMT_ENUMERATE_RPS)
    \<and> (cmd = 4 \<and> rpId_set t \<longrightarrow> rpIDHash (cm_subCommandParams cm) = rpId_hash t)
    \<and> (cmd = 5 \<longrightarrow> active = CTAP_STATEFUL_CMD_CRED_MGMT_ENUMERATE_CREDENTIALS)
    \<and> (cmd \<in> {6, 7} \<longrightarrow> (\<exists>c. managed_credential env s cm c)))"

lemma same_but_use_allowed:
  assumes "same_but_use s s'"
  shows "subcommand_allowed env s' cm = subcommand_allowed env s cm"
proof -
  have "stateful_command_state s' = stateful_command_state s" using assms by (auto simp: same_but_use_def)
  then show ?thesis using same_but_use_simps [OF assms] by (simp add: subcommand_allowed_def Let_def)
qed

lemma discard_managed [simp]:
  "managed_credential env (ctap_discard_stateful_command_state s) cm c = managed_credential env s cm c"
  by (simp add: managed_credential_def ctap_discard_stateful_command_state_def)

lemma enumeration_storage:
  "credential_management_get_creds_metadata env s e = Some (status, s', e') \<Longrightarrow> storage s' = storage s"
  "credential_management_enumerate_rps_begin env s e = Some (status, s', e') \<Longrightarrow> storage s' = storage s"
  "credential_management_enumerate_rps_get_next_rp env s e = Some (status, s', e') \<Longrightarrow> storage s' = storage s"
  "credential_management_enumerate_credentials_begin env s cm e = Some (status, s', e') \<Longrightarrow> storage s' = storage s"
  "credential_management_enumerate_credentials_get_next_credential env s e = Some (status, s', e') \<Longrightarrow>
     storage s' = storage s"
  subgoal by (auto simp: credential_management_get_creds_metadata_def Let_def
      split: if_splits bind_splits prod.splits)
  subgoal by (auto simp: credential_management_enumerate_rps_begin_def Let_def
      split: if_splits bind_splits prod.splits sum.splits dest!: update_timer_storage)
  subgoal by (auto simp: credential_management_enumerate_rps_get_next_rp_def Let_def require_eq_Some
      split: if_splits bind_splits prod.splits stateful_data.splits dest!: update_timer_storage)
  subgoal by (auto simp: credential_management_enumerate_credentials_begin_def Let_def ctap_check_state_eq_Some
      split: if_splits bind_splits prod.splits sum.splits dest!: update_timer_storage respond_with_credential_storage)
  subgoal by (auto simp: credential_management_enumerate_credentials_get_next_credential_def Let_def
      require_eq_Some ctap_check_state_eq_Some split: if_splits bind_splits prod.splits stateful_data.splits
      dest!: update_timer_storage respond_with_credential_storage)
  done

lemma find_managed_error: "find_managed_credential env s cm = Some (Inl e) \<Longrightarrow> e \<noteq> CTAP2_OK"
  by (auto simp: find_managed_credential_def Let_def split: bind_splits if_splits option.splits)

lemma change_needs_credential:
  "credential_management_delete_credential env s cm = Some (status, s') \<Longrightarrow>
     status = CTAP2_OK \<or> storage s' \<noteq> storage s \<Longrightarrow> \<exists>c. managed_credential env s cm c"
  "credential_management_update_user_information env junk s cm = Some (status, s') \<Longrightarrow>
     status = CTAP2_OK \<or> storage s' \<noteq> storage s \<Longrightarrow> \<exists>c. managed_credential env s cm c"
  using find_managed [of env "ctap_discard_stateful_command_state s" cm]
    find_managed_error [of env "ctap_discard_stateful_command_state s" cm]
  by (auto simp: credential_management_delete_credential_def credential_management_update_user_information_def
      Let_def split: bind_splits sum.splits)

text \<open>The guards of the enumerations.\<close>

lemma enumeration_guards:
  "credential_management_get_creds_metadata env s e = Some (CTAP2_OK, s', e') \<Longrightarrow>
     \<not> rpId_set (pin_uv_auth_token_state s)"
  "credential_management_enumerate_rps_begin env s e = Some (CTAP2_OK, s', e') \<Longrightarrow>
     \<not> rpId_set (pin_uv_auth_token_state s)"
  "credential_management_enumerate_rps_get_next_rp env s e = Some (CTAP2_OK, s', e') \<Longrightarrow>
     active_cmd (stateful_command_state s) = CTAP_STATEFUL_CMD_CRED_MGMT_ENUMERATE_RPS"
  "credential_management_enumerate_credentials_begin env s cm e = Some (CTAP2_OK, s', e') \<Longrightarrow>
     rpId_set (pin_uv_auth_token_state s) \<Longrightarrow>
     rpIDHash (cm_subCommandParams cm) = rpId_hash (pin_uv_auth_token_state s)"
  "credential_management_enumerate_credentials_get_next_credential env s e = Some (CTAP2_OK, s', e') \<Longrightarrow>
     active_cmd (stateful_command_state s) = CTAP_STATEFUL_CMD_CRED_MGMT_ENUMERATE_CREDENTIALS"
  by (simp_all add: credential_management_get_creds_metadata_def credential_management_enumerate_rps_begin_def
      credential_management_enumerate_rps_get_next_rp_def credential_management_enumerate_credentials_begin_def
      credential_management_enumerate_credentials_get_next_credential_def Let_def split: if_split_asm)

lemma subcommand_allowed_if:
  assumes "credential_management_subcommand env junk s cm e = Some (status, s', e')"
    and "status = CTAP2_OK \<or> storage s' \<noteq> storage s"
  shows "subcommand_allowed env s cm \<and> (storage s' \<noteq> storage s \<longrightarrow> cm_subCommand cm \<in> {6, 7})"
proof (cases "cm_subCommand cm = 6 \<or> cm_subCommand cm = 7")
  case True
  then have "\<exists>c. managed_credential env s cm c"
    using assms change_needs_credential(1) [of env s cm] change_needs_credential(2) [where env = env and junk = junk and s = s and cm = cm]
    by (auto simp: credential_management_subcommand_def Let_def)
  with True show ?thesis by (auto simp: subcommand_allowed_def Let_def)
next
  case False
  then have same: "storage s' = storage s"
    using assms(1) by (auto simp: credential_management_subcommand_def Let_def
        dest: enumeration_storage split: if_split_asm)
  with assms have "credential_management_subcommand env junk s cm e = Some (CTAP2_OK, s', e')" by simp
  with False same show ?thesis
    by (auto simp: credential_management_subcommand_def subcommand_allowed_def Let_def
        dest: enumeration_guards split: if_split_asm)
qed

text \<open>The whole command, after its parameters were parsed.\<close>

lemma management_OK:
  assumes "ctap_credential_management env dec junk now request s it e = Some (status, s', e')"
    and "status = CTAP2_OK \<or> storage s' \<noteq> storage s"
  obtains cm it1 s1 where "ctap_parse_credential_management dec it = Ok (cm, it1)" "same_but_use s s1"
    "credential_management_subcommand env junk s1 cm e = Some (status, s', e')"
    "cm_subCommand cm \<noteq> 3 \<and> cm_subCommand cm \<noteq> 5 \<longrightarrow> management_authorised env now request s cm"
proof -
  have refl: "same_but_use s s"
    unfolding same_but_use_def by (intro exI [of _ "usage_timer_last_use (pin_uv_auth_token_state s)"]) simp
  obtain cm it1 where p: "ctap_parse_credential_management dec it = Ok (cm, it1)"
    using assms by (auto simp: ctap_credential_management_def split: presult.splits)
  show ?thesis
  proof (cases "cm_subCommand cm = 3 \<or> cm_subCommand cm = 5")
    case True
    with assms p have "credential_management_subcommand env junk s cm e = Some (status, s', e')"
      by (auto simp: ctap_credential_management_def Let_def split: if_split_asm)
    with that [OF p refl] True show ?thesis by blast
  next
    case False
    with assms p obtain i where i: "ctap_get_pin_protocol s (unat (cm_pinUvAuthProtocol cm)) = Some i"
      "ctap_check_state (verify_credential_management_params env now request s cm i)
        (\<lambda>s1. credential_management_subcommand env junk s1 cm e) (\<lambda>s1. (s1, e)) = Some (status, s', e')"
      by (auto simp: ctap_credential_management_def Let_def split: if_split_asm option.splits)
    then obtain st s1 where v: "verify_credential_management_params env now request s cm i = Some (st, s1)"
      "if st \<noteq> CTAP2_OK then (status, s', e') = (st, s1, e)
       else credential_management_subcommand env junk s1 cm e = Some (status, s', e')"
      by (auto simp: ctap_check_state_eq_Some)
    note use = verify_management(1) [OF v(1)]
    have "st = CTAP2_OK" using v(2) assms(2) same_but_use_simps(1) [OF use] by (auto split: if_splits)
    with v(2) verify_management(2) [OF v(1)] i(1) have
      "credential_management_subcommand env junk s1 cm e = Some (status, s', e')"
      "management_authorised env now request s cm"
      by (auto simp: management_authorised_def)
    with that [OF p use] show ?thesis by blast
  qed
qed

section \<open>Deleting\<close>

lemma live_items_other:
  "slot_key x \<noteq> key \<Longrightarrow> key \<noteq> 0 \<Longrightarrow> live_items key (L1 @ kill x # L2) = live_items key (L1 @ x # L2)"
  by (simp add: live_items_append live_items_kill) (simp add: live_items_def slot_matches_def)

lemma delete_credential_ok:
  assumes storage: "item_storage srep fits (find_item (storage_ops env)) (create_or_update_item (storage_ops env))
      (delete_item (storage_ops env))"
    and rep: "srep (storage s) L"
    and run: "credential_management_delete_credential env s cm = Some (status, s')"
  defines "named \<equiv> \<lambda>c. ctap_credential_get_id c = credDesc_id (credentialID (cm_subCommandParams cm))"
  shows "if status = CTAP2_OK
    then \<exists>c L'. c \<in> set (stored_credentials L) \<and> named c \<and> srep (storage s') L'
      \<and> stored_credentials L' = without_first named (stored_credentials L)
      \<and> (\<forall>key. key \<noteq> 0 \<longrightarrow> key \<noteq> CTAP_STORAGE_KEY_CREDENTIAL \<longrightarrow> live_items key L' = live_items key L)
    else storage s' = storage s"
proof -
  let ?s1 = "ctap_discard_stateful_command_state s"
  have s1: "storage ?s1 = storage s" by simp
  consider (refused) err where "find_managed_credential env ?s1 cm = Some (Inl err)" "s' = ?s1" "status = err"
    | (found) c st1 where "find_managed_credential env ?s1 cm = Some (Inr c)"
        "ctap_delete_credential (storage_ops env) (storage s) c = Some (status, st1)" "s' = ?s1\<lparr>storage := st1\<rparr>"
    using run by (auto simp: credential_management_delete_credential_def Let_def split: bind_splits sum.splits)
  then show ?thesis
  proof cases
    case refused
    with find_managed_error [OF refused(1)] s1 show ?thesis by simp
  next
    case found
    have "ctap_lookup_credential_by_desc (storage_ops env) (storage s) (credentialID (cm_subCommandParams cm))
        = Some (Some c)"
      using find_managed [OF found(1)] s1 by (simp add: managed_credential_def)
    with item_storage.lookup_credential [OF storage rep refl]
    have c: "List.find named (stored_credentials L) = Some c" by (auto simp: named_def split: if_splits)
    from find_stored [OF this] obtain L1 x L2 where x: "L = L1 @ x # L2" "slot_live x"
        "slot_handle x = cred_item_handle c" "slot_key x = CTAP_STORAGE_KEY_CREDENTIAL"
        "stored_credentials (L1 @ kill x # L2) = without_first named (stored_credentials L)" by blast
    from item_storage.delete [OF storage _ x(2)] rep x(1,3) found(2)
    have "status = CTAP2_OK \<and> srep st1 (L1 @ kill x # L2)"
      by (fastforce simp: ctap_delete_credential_def)
    with found(3) x c show ?thesis using live_items_other [of x _ L1 L2]
      by (intro if_P [THEN iffD2] exI [of _ c] exI [of _ "L1 @ kill x # L2"]) (auto simp: find_Some_iff)
  qed
qed

section \<open>An example\<close>

text \<open>A deleteCredential request with protocol one, and an authenticator with one credential.\<close>

definition delete_request :: "bytes \<Rightarrow> bytes \<Rightarrow> ref_it" where
  "delete_request i sig = ([[I_Map [(I_Int 1, I_Int 6),
     (I_Int 2, I_Map [(I_Int 2, I_Map [(I_Text (ctap_str ''type''), I_Text (ctap_str ''public-key'')),
        (I_Text (ctap_str ''id''), I_Bytes i)])]),
     (I_Int 3, I_Int 1), (I_Int 4, I_Bytes sig)]]], 0)"

definition delete_params :: "bytes \<Rightarrow> bytes \<Rightarrow> CTAP_credentialManagement" where
  "delete_params i sig = \<lparr>cm_present = 30, cm_subCommand = 6, cm_subCommandParams =
     \<lparr>raw_start = 3, raw_size = 1, sub_present = 4, rpIDHash = [],
       credentialID = \<lparr>credDesc_type = 1, credDesc_id = i\<rparr>, sub_user = zero_CTAP_userEntity\<rparr>,
     cm_pinUvAuthProtocol = 1, cm_pinUvAuthParam = sig\<rparr>"

lemma delete_parsed:
  "ctap_parse_credential_management ref_decoder (Some (delete_request i sig)) = Ok (delete_params i sig, [[]], 1)"
  by (simp add: delete_request_def ctap_parse_credential_management_def ref_simps delete_params_def
      ctap_parse_credential_management_entry_def parse_credential_management_subcommand_params_def
      parse_credential_management_subcommand_params_entry_def parse_cred_desc_def parse_cred_desc_entry_def
      ctap_string_matches_def ctap_str_def Let_def zero_CTAP_credentialManagement_def
      ctap_set_present_def ctap_is_present_def ctap_param_to_mask_def)

definition managing_state :: "ctap_memory_storage_context \<Rightarrow> (sha256_ctx, ctap_memory_storage_context) ctap_state" where
  "managing_state st = (CTAP_STATE_CONST_INIT st)\<lparr>pin_uv_auth_token_state :=
     zero_token_state\<lparr>in_use := True, permissions := permission_cm\<rparr>\<rparr>"

definition delete_signature :: bytes where
  "delete_signature = take 16 (hmac_spec sha256_spec 64 (zeros 32) [6, 9])"

lemma managing_verified:
  "\<exists>s1. verify_with_token memory_env now (managing_state st) 0 ds
     (take 16 (hmac_spec sha256_spec 64 (zeros 32) (concat ds))) = Some (True, s1)"
proof -
  let ?sig = "take 16 (hmac_spec sha256_spec 64 (zeros 32) (concat ds))"
  obtain ctx where ctx: "ctap_pin_protocol_verify_init (software_crypto example_libraries) (zeros 32) = Some ctx"
      "ctap_pin_protocol_v1_verify_final (software_crypto example_libraries)
         (fold (\<lambda>d x. ctap_pin_protocol_verify_update (software_crypto example_libraries) x d) ds ctx) ?sig
       = Some True"
    using sw_crypto.verify_ok [of example_libraries "zeros 32" ds ?sig] by auto
  then show ?thesis
    by (simp add: verify_with_token_def managing_state_def CTAP_STATE_CONST_INIT_def zero_ctap_state_def
        protocol_inits memory_env_def ctap_pin_protocol_verify_init_with_pin_uv_auth_token_def)
qed

lemma wf_credential_id_length: "wf_credential H c \<Longrightarrow> length (ctap_credential_get_id c) = 32"
  by (auto simp: wf_credential_def ctap_credential_get_id_def cred_source_def laid_out_def source_arrays_def)

lemma example_credential:
  "\<exists>c s L. mem_rep s L \<and> stored_credentials L = [c] \<and> length (ctap_credential_get_id c) = 32"
proof -
  obtain c s L r where "mem_rep s L" "stored_credentials L = [c]" "wf_credential (\<lambda>_. replicate 32 7) c"
    using example_create [OF credential_memory_rep, of example_libraries 0 True]
    by (auto simp: without_first_def credential_memory_def)
  then show ?thesis using wf_credential_id_length by blast
qed

lemma delete_runs:
  assumes "mem_rep st L" and "stored_credentials L = [c]" and "length (ctap_credential_get_id c) = 32"
  shows "\<exists>s'. ctap_credential_management memory_env ref_decoder session_stack 5 [0, 0, 0, 9] (managing_state st)
    (Some (delete_request (ctap_credential_get_id c) delete_signature)) [] = Some (CTAP2_OK, s', [])"
proof -
  let ?cm = "delete_params (ctap_credential_get_id c) delete_signature"
  obtain s1 where v: "verify_with_token memory_env 5 (managing_state st) 0 [[6], [9]] delete_signature = Some (True, s1)"
    using managing_verified [of 5 st "[[6], [9]]"] by (auto simp: delete_signature_def)
  obtain last where s1: "s1 = managing_state st\<lparr>pin_uv_auth_token_state :=
      (pin_uv_auth_token_state (managing_state st))\<lparr>usage_timer_last_use := last\<rparr>\<rparr>"
    using verify_with_token_gestures [OF v] by blast
  let ?s2 = "ctap_discard_stateful_command_state s1"
  have st: "storage ?s2 = st" "\<not> rpId_set (pin_uv_auth_token_state ?s2)"
      "ctap_pin_uv_auth_token_has_permissions s1 permission_cm"
      "ctap_get_pin_protocol (managing_state st) 1 = Some 0"
    by (simp_all add: s1 managing_state_def CTAP_STATE_CONST_INIT_def zero_ctap_state_def zero_token_state_def
        ctap_discard_stateful_command_state_def ctap_pin_uv_auth_token_has_permissions_def
        ctap_get_pin_protocol_def)
  have found: "find_managed_credential memory_env ?s2 ?cm = Some (Inr c)"
    using item_storage.lookup_credential [OF memory_storage_ok assms(1) refl, of "credentialID (cm_subCommandParams ?cm)"]
      assms(2,3) st
    by (simp add: find_managed_credential_def delete_params_def ctap_is_present_def ctap_param_to_mask_def
        ensure_pin_uv_auth_token_can_be_used_def memory_env_def)
  have "List.find (\<lambda>_. True) (stored_credentials L) = Some c" using assms(2) by simp
  from find_stored [OF this] obtain L1 x L2 where x: "L = L1 @ x # L2" "slot_live x"
      "slot_handle x = cred_item_handle c" by blast
  from item_storage.delete [OF memory_storage_ok _ x(2)] assms(1) x(1,3)
  obtain st1 where d: "ctap_delete_credential (storage_ops memory_env) st c = Some (CTAP2_OK, st1)"
    by (fastforce simp: ctap_delete_credential_def memory_env_def)
  show ?thesis
    using v found d st
    by (simp add: ctap_credential_management_def delete_parsed)
      (simp add: delete_params_def ctap_is_present_def ctap_param_to_mask_def verify_credential_management_params_def
        credential_management_subcommand_def credential_management_delete_credential_def Let_def)
qed

section \<open>Properties\<close>



text \<open>
  C31: Deleting a credential. On a storage that meets its contract, a deleteCredential request that
  succeeds removes exactly the first credential with the identifier in the request: the other
  credentials stay, in their order, and so do the items of other kinds. A request that fails, for
  whatever reason, leaves the storage as it is.
\<close>

theorem credential_deleted:
  assumes "item_storage srep fits (find_item (storage_ops env)) (create_or_update_item (storage_ops env))
      (delete_item (storage_ops env))"
    and "srep (storage s) L"
    and "ctap_parse_credential_management dec it = Ok (cm, it1)" and "cm_subCommand cm = 6"
    and "ctap_credential_management env dec junk now request s it e = Some (status, s', e')"
  shows "if status = CTAP2_OK
    then \<exists>c L'. c \<in> set (stored_credentials L)
      \<and> ctap_credential_get_id c = credDesc_id (credentialID (cm_subCommandParams cm))
      \<and> srep (storage s') L'
      \<and> stored_credentials L' = without_first
          (\<lambda>c. ctap_credential_get_id c = credDesc_id (credentialID (cm_subCommandParams cm))) (stored_credentials L)
      \<and> (\<forall>key. key \<noteq> 0 \<longrightarrow> key \<noteq> CTAP_STORAGE_KEY_CREDENTIAL \<longrightarrow> live_items key L' = live_items key L)
    else storage s' = storage s"
proof (cases "status = CTAP2_OK \<or> storage s' \<noteq> storage s")
  case True
  obtain cm' it1' s1 where "ctap_parse_credential_management dec it = Ok (cm', it1')" "same_but_use s s1"
      "credential_management_subcommand env junk s1 cm' e = Some (status, s', e')"
    using management_OK [OF assms(5) True] by metis
  with assms(3,4) have run: "credential_management_delete_credential env s1 cm = Some (status, s')"
    and same: "storage s1 = storage s"
    using same_but_use_simps(1) by (auto simp: credential_management_subcommand_def Let_def)
  have "srep (storage s1) L" using assms(2) same by simp
  from delete_credential_ok [OF assms(1) this run] show ?thesis unfolding same .
qed simp

theorem credential_deleted_witness:
  "\<exists>st L c s' L'. mem_rep st L \<and> stored_credentials L = [c]
     \<and> ctap_credential_management memory_env ref_decoder session_stack 5 [0, 0, 0, 9] (managing_state st)
         (Some (delete_request (ctap_credential_get_id c) delete_signature)) [] = Some (CTAP2_OK, s', [])
     \<and> mem_rep (storage s') L' \<and> stored_credentials L' = []"
proof -
  obtain c st L where c: "mem_rep st L" "stored_credentials L = [c]" "length (ctap_credential_get_id c) = 32"
    using example_credential by blast
  from delete_runs [OF c] obtain s' where run: "ctap_credential_management memory_env ref_decoder session_stack 5
      [0, 0, 0, 9] (managing_state st) (Some (delete_request (ctap_credential_get_id c) delete_signature)) []
      = Some (CTAP2_OK, s', [])" by blast
  have "storage_ops memory_env = CTAP_MEMORY_STORAGE_CONST_INIT" "storage (managing_state st) = st"
    by (simp_all add: memory_env_def managing_state_def CTAP_STATE_CONST_INIT_def zero_ctap_state_def)
  with credential_deleted [where srep = mem_rep and fits = mem_fits and L = L, OF _ _ delete_parsed _ run] memory_storage_ok c(1)
  obtain L' where "mem_rep (storage s') L'" "stored_credentials L' = without_first
      (\<lambda>d. ctap_credential_get_id d = ctap_credential_get_id c) (stored_credentials L)"
    by (auto simp: delete_params_def)
  with c run show ?thesis by (intro exI [of _ st] exI [of _ L] exI [of _ c] exI [of _ s'] exI [of _ L'])
    (simp add: without_first_def)
qed

end
