(* ===== verification/Enumeration.thy ===== *)
theory Enumeration
  imports Management
begin

text \<open>
  The two enumerations of authenticatorCredentialManagement, over the requests that begin them and
  the ones that ask for the next element: they list the relying parties, or the credentials of one,
  completely and in the order of the storage.
\<close>

section \<open>Responses\<close>

text \<open>The response for a credential, and for a relying party; \<open>n\<close> is the total number or zero.\<close>

definition managed_credential_ops :: "nat \<Rightarrow> ctap_credential_handle \<Rightarrow> CTAP_userEntity \<Rightarrow> bytes \<Rightarrow> encoder" where
  "managed_credential_ops n c user public_key =
     [Create_Map (if n \<noteq> 0 then 5 else 4), Encode_Int 6] @ user_entity_ops user True
     @ [Encode_Int 7] @ cred_desc_ops (ctap_credential_get_id c)
     @ [Encode_Int 8] @ public_key_ops public_key
     @ (if n \<noteq> 0 then [Encode_Int 9, Encode_Int (int n)] else [])
     @ [Encode_Int 10, Encode_Int (uint (ctap_credential_get_cred_protect c)), Close_Container]"

definition is_credential_entry :: "('h, 's) ctap_interfaces \<Rightarrow> nat \<Rightarrow> ctap_credential_handle \<Rightarrow> encoder \<Rightarrow> bool" where
  "is_credential_entry env n c e \<longleftrightarrow>
     (\<exists>user rng public_key rng1. ctap_credential_get_user c = Some user
        \<and> ecc_secp256r1_compute_public_key (crypto_ops env) rng (src_private_key (cred_source c))
            = (True, public_key, rng1)
        \<and> e = managed_credential_ops n c user public_key)"

definition managed_rp_ops :: "nat \<Rightarrow> bytes \<times> bytes \<Rightarrow> encoder" where
  "managed_rp_ops n rp =
     [Create_Map (if n \<noteq> 0 then 3 else 2), Encode_Int 3] @ rp_entity_ops (fst rp)
     @ [Encode_Int 4, Encode_Bytes (snd rp)]
     @ (if n \<noteq> 0 then [Encode_Int 5, Encode_Int (int n)] else []) @ [Close_Container]"

lemma encode_rp_OK:
  assumes "encode_credential_management_enumerate_rps_response enc_ok [] rp n = (CTAP2_OK, e)"
  shows "e = managed_rp_ops n rp"
  using assms unfolding encode_credential_management_enumerate_rps_response_def managed_rp_ops_def
  by (auto simp: then_encode_OK_iff cbor_encode_OK_iff dest!: encode_parts_OK(3) simp del: cbor_encode.simps)

lemma respond_with_credential_OK:
  assumes "respond_with_credential env s [] c n = Some (CTAP2_OK, s', e)"
  shows "is_credential_entry env n c e" and "\<exists>r. s' = s\<lparr>rng_position := r\<rparr>"
proof -
  obtain pk rng1 where pk: "ecc_secp256r1_compute_public_key (crypto_ops env) (rng_position s)
      (src_private_key (cred_source c)) = (True, pk, rng1)"
    and enc: "encode_credential_management_enumerate_credentials_response (encoder_ok env) [] c pk n
      = Some (CTAP2_OK, e)" and s': "s' = s\<lparr>rng_position := rng1\<rparr>"
    using assms by (auto simp: respond_with_credential_def ctap_credential_compute_public_key_def Let_def
        split: prod.splits if_splits bind_splits)
  let ?start = "cbor_encode (encoder_ok env) [] [Create_Map (if n \<noteq> 0 then 5 else 4), Encode_Int 6]"
  let ?rest = "\<lambda>r. then_encode r (\<lambda>e2.
      then_encode (cbor_encode (encoder_ok env) e2 [Encode_Int 7]) (\<lambda>e3.
      then_encode (ctap_encode_pub_key_cred_desc (encoder_ok env) e3 (ctap_credential_get_id c)) (\<lambda>e4.
      then_encode (cbor_encode (encoder_ok env) e4 [Encode_Int 8]) (\<lambda>e5.
      then_encode (ctap_encode_public_key (encoder_ok env) e5 pk) (\<lambda>e6.
      cbor_encode (encoder_ok env) e6 ((if n \<noteq> 0 then [Encode_Int 9, Encode_Int (int n)] else [])
        @ [Encode_Int 10, Encode_Int (uint (ctap_credential_get_cred_protect c)), Close_Container]))))))"
  obtain e1 where b: "?start = (CTAP2_OK, e1)" and k: "(do {
        user \<leftarrow> ctap_credential_get_user c;
        r \<leftarrow> ctap_encode_pub_key_cred_user_entity (encoder_ok env) e1 user True;
        Some (?rest r) }) = Some (CTAP2_OK, e)"
    using enc unfolding encode_credential_management_enumerate_credentials_response_def Let_def
    by (cases ?start) (simp split: if_splits)
  have e1: "e1 = [Create_Map (if n \<noteq> 0 then 5 else 4), Encode_Int 6]"
    using b unfolding cbor_encode_OK_iff by simp
  from k obtain user r where user: "ctap_credential_get_user c = Some user"
      "ctap_encode_pub_key_cred_user_entity (encoder_ok env) e1 user True = Some r" "?rest r = (CTAP2_OK, e)"
    by (auto split: bind_splits)
  obtain e2 where r: "r = (CTAP2_OK, e2)" using user(3) unfolding then_encode_OK_iff by blast
  have e2: "e2 = [Create_Map (if n \<noteq> 0 then 5 else 4), Encode_Int 6] @ user_entity_ops user True"
    using encode_parts_OK(4) [OF user(2) [unfolded r]] e1 by simp
  have "e = managed_credential_ops n c user pk"
    using user(3) unfolding r then_encode_OK_iff cbor_encode_OK_iff e2 managed_credential_ops_def
    by (auto dest!: encode_parts_OK(1,2))
  with pk user(1) show "is_credential_entry env n c e" unfolding is_credential_entry_def by blast
  show "\<exists>r. s' = s\<lparr>rng_position := r\<rparr>" using s' by blast
qed

section \<open>Requests\<close>

abbreviation (input) cmd_credential_management :: u8 where "cmd_credential_management \<equiv> 0x0A"

text \<open>Parameters that decode to the given subcommand, and a request with them that succeeds.\<close>

definition asks :: "'v tinycbor \<Rightarrow> (bytes \<Rightarrow> 'v option) \<Rightarrow> bytes \<Rightarrow> u8 \<Rightarrow> bool" where
  "asks dec parser_init params sub \<longleftrightarrow> params \<noteq> []
     \<and> (\<exists>v cm it1. parser_init params = Some v
          \<and> ctap_parse_credential_management dec (Some v) = Ok (cm, it1) \<and> cm_subCommand cm = sub)"

definition management_answered :: "('h, 's) ctap_interfaces \<Rightarrow> 'v tinycbor \<Rightarrow> (bytes \<Rightarrow> 'v option)
    \<Rightarrow> (encoder \<Rightarrow> bytes) \<Rightarrow> u8 \<Rightarrow> ('h, 's) ctap_state \<Rightarrow> encoder \<Rightarrow> ('h, 's) ctap_state \<Rightarrow> bool" where
  "management_answered env dec parser_init bytes_of sub s e s' \<longleftrightarrow>
     (\<exists>inp params. asks dec parser_init params sub
        \<and> ctap_request env dec parser_init bytes_of inp s cmd_credential_management params
            = Some (CTAP2_OK, s', e))"

inductive all_answered :: "('st \<Rightarrow> encoder \<Rightarrow> 'st \<Rightarrow> bool) \<Rightarrow> 'st \<Rightarrow> encoder list \<Rightarrow> 'st \<Rightarrow> bool"
  for answered where
  none: "all_answered answered s [] s"
| more: "answered s e s1 \<Longrightarrow> all_answered answered s1 es s' \<Longrightarrow> all_answered answered s (e # es) s'"

inductive_cases all_answered_ConsE: "all_answered answered s (e # es) s'"
inductive_simps all_answered_Nil [simp]: "all_answered answered s [] s'"

text \<open>An enumeration: every answer is the entry of the next element.\<close>

locale enumeration =
  fixes answered :: "'st \<Rightarrow> encoder \<Rightarrow> 'st \<Rightarrow> bool"
    and at :: "'e list \<Rightarrow> nat \<Rightarrow> 'st \<Rightarrow> bool"
    and entry :: "'e \<Rightarrow> encoder \<Rightarrow> bool"
  assumes answer: "at xs i s \<Longrightarrow> answered s e s' \<Longrightarrow> i < length xs \<and> entry (xs ! i) e \<and> at xs (Suc i) s'"
begin

lemma run:
  assumes "all_answered answered s es s'" and "at xs i s"
  shows "(es \<noteq> [] \<longrightarrow> i + length es \<le> length xs) \<and> (\<forall>j<length es. entry (xs ! (i + j)) (es ! j))
    \<and> at xs (i + length es) s'"
  using assms
proof (induction es arbitrary: s i)
  case (Cons e es)
  from Cons.prems(1) obtain s1 where s1: "answered s e s1" "all_answered answered s1 es s'"
    by (rule all_answered_ConsE)
  note now = answer [OF Cons.prems(2) s1(1)]
  then have "(es \<noteq> [] \<longrightarrow> Suc i + length es \<le> length xs) \<and> (\<forall>j<length es. entry (xs ! (Suc i + j)) (es ! j))
      \<and> at xs (Suc i + length es) s'" using Cons.IH [OF s1(2)] by blast
  with now show ?case by (auto simp: nth_Cons split: nat.splits)
qed simp

lemma rest:
  assumes "all_answered answered s es s'" and "at xs 1 s" and "xs \<noteq> []"
  shows "length es < length xs \<and> (\<forall>j<length es. entry (xs ! Suc j) (es ! j)) \<and> at xs (Suc (length es)) s'"
  using run [OF assms(1,2)] assms(3) by (cases es) auto

end

section \<open>The elements\<close>

text \<open>The state in which element \<open>i\<close> is the next one.\<close>

definition at_rp :: "(bytes \<times> bytes) list \<Rightarrow> nat \<Rightarrow> ('h, 's) ctap_state \<Rightarrow> bool" where
  "at_rp rps i s \<longleftrightarrow> (let c = stateful_command_state s in
     if i < length rps then active_cmd c = CTAP_STATEFUL_CMD_CRED_MGMT_ENUMERATE_RPS
       \<and> cmd_data c = Enumerate_Rps \<lparr>rp_ids = rps, next_rp_idx = i\<rparr>
     else active_cmd c = CTAP_STATEFUL_CMD_NONE)"

definition at_credential :: "ctap_credential_handle list \<Rightarrow> nat \<Rightarrow> ('h, 's) ctap_state \<Rightarrow> bool" where
  "at_credential cs i s \<longleftrightarrow> (let c = stateful_command_state s in
     if i < length cs then active_cmd c = CTAP_STATEFUL_CMD_CRED_MGMT_ENUMERATE_CREDENTIALS
       \<and> cmd_data c = Enumerate_Credentials \<lparr>cm_credentials = cs, cm_next_credential_idx = i\<rparr>
     else active_cmd c = CTAP_STATEFUL_CMD_NONE)"

lemma update_timer_command:
  assumes "ctap_update_stateful_command_timer s = Some s'"
  shows "active_cmd (stateful_command_state s') = active_cmd (stateful_command_state s)"
    and "cmd_data (stateful_command_state s') = cmd_data (stateful_command_state s)"
  using assms by (auto simp: ctap_update_stateful_command_timer_def require_def split: if_splits)

lemma get_next_rp:
  assumes "at_rp rps i s" and "credential_management_enumerate_rps_get_next_rp env s [] = Some (CTAP2_OK, s', e)"
  shows "i < length rps \<and> e = managed_rp_ops 0 (rps ! i) \<and> at_rp rps (Suc i) s'"
proof -
  have i: "i < length rps" "active_cmd (stateful_command_state s) = CTAP_STATEFUL_CMD_CRED_MGMT_ENUMERATE_RPS"
      "cmd_data (stateful_command_state s) = Enumerate_Rps \<lparr>rp_ids = rps, next_rp_idx = i\<rparr>"
    using assms by (auto simp: at_rp_def Let_def credential_management_enumerate_rps_get_next_rp_def split: if_splits)
  obtain s1 where e: "encode_credential_management_enumerate_rps_response (encoder_ok env) [] (rps ! i) 0 = (CTAP2_OK, e)"
    and s1: "ctap_update_stateful_command_timer s = Some s1"
    and s': "s' = (let s2 = set_enumerate_rps s1 (active_cmd (stateful_command_state s1)) rps (i + 1) in
        if i + 1 = length rps then ctap_discard_stateful_command_state s2 else s2)"
    using assms(2) i by (auto simp: credential_management_enumerate_rps_get_next_rp_def require_def Let_def
        split: prod.splits if_splits bind_splits)
  show ?thesis
    using i encode_rp_OK [OF e] s' update_timer_command [OF s1]
    by (auto simp: at_rp_def Let_def set_enumerate_rps_def)
qed

lemma get_next_credential:
  assumes "at_credential cs i s"
    and "credential_management_enumerate_credentials_get_next_credential env s [] = Some (CTAP2_OK, s', e)"
  shows "i < length cs \<and> is_credential_entry env 0 (cs ! i) e \<and> at_credential cs (Suc i) s'"
proof -
  have i: "i < length cs" "active_cmd (stateful_command_state s) = CTAP_STATEFUL_CMD_CRED_MGMT_ENUMERATE_CREDENTIALS"
      "cmd_data (stateful_command_state s) = Enumerate_Credentials \<lparr>cm_credentials = cs, cm_next_credential_idx = i\<rparr>"
    using assms by (auto simp: at_credential_def Let_def
        credential_management_enumerate_credentials_get_next_credential_def split: if_splits)
  obtain s1 s2 where r: "respond_with_credential env s [] (cs ! i) 0 = Some (CTAP2_OK, s1, e)"
    and s2: "ctap_update_stateful_command_timer s1 = Some s2"
    and s': "s' = (let s3 = set_enumerate_credentials s2 (active_cmd (stateful_command_state s2)) cs (i + 1) in
        if i + 1 = length cs then ctap_discard_stateful_command_state s3 else s3)"
    using assms(2) i by (auto simp: credential_management_enumerate_credentials_get_next_credential_def require_def
        ctap_check_state_eq_Some Let_def split: if_splits bind_splits)
  obtain n where "s1 = s\<lparr>rng_position := n\<rparr>" using respond_with_credential_OK(2) [OF r] by blast
  then show ?thesis
    using i respond_with_credential_OK(1) [OF r] s' update_timer_command [OF s2]
    by (auto simp: at_credential_def Let_def set_enumerate_credentials_def)
qed

text \<open>The requests for the next element need no authorisation of their own.\<close>

lemma request_management:
  assumes "params \<noteq> []" and "parser_init params = Some v"
  shows "ctap_request env dec parser_init bytes_of inp s cmd_credential_management params
    = map_option (\<lambda>(status, s1, e). (status, s1, if status = CTAP2_OK then e else []))
        (ctap_credential_management env dec (stack inp) (clock_later inp) params (after_timers inp s) (Some v) [])"
  using assms by (simp add: ctap_request_eq ctap_invoke_handler_def ctap_get_command_handler_def
      ctap_command_handlers_def map_option_case split: option.split) 

lemma request_next:
  assumes "asks dec parser_init params sub" and "sub = 3 \<or> sub = 5"
  shows "ctap_request env dec parser_init bytes_of inp s cmd_credential_management params
    = map_option (\<lambda>(status, s1, e). (status, s1, if status = CTAP2_OK then e else []))
        (if sub = 3 then credential_management_enumerate_rps_get_next_rp env (after_timers inp s) []
         else credential_management_enumerate_credentials_get_next_credential env (after_timers inp s) [])"
proof -
  obtain v cm it1 where p: "params \<noteq> []" "parser_init params = Some v"
      "ctap_parse_credential_management dec (Some v) = Ok (cm, it1)" "cm_subCommand cm = sub"
    using assms(1) by (auto simp: asks_def)
  have "ctap_is_present (cm_present cm) (ctap_param_to_mask 1)"
    using p(3) by (auto simp: ctap_parse_credential_management_def presult_eq_Ok split: if_splits)
  with p(3,4) assms(2) show ?thesis
    unfolding request_management [where dec = dec and params = params and parser_init = parser_init and v = v, OF p(1,2)]
    by (auto simp: ctap_credential_management_def credential_management_subcommand_def Let_def)
qed

lemma at_after_timers:
  "at_rp rps i s \<Longrightarrow> at_rp rps i (after_timers inp s)
     \<or> active_cmd (stateful_command_state (after_timers inp s)) = CTAP_STATEFUL_CMD_NONE"
  "at_credential cs i s \<Longrightarrow> at_credential cs i (after_timers inp s)
     \<or> active_cmd (stateful_command_state (after_timers inp s)) = CTAP_STATEFUL_CMD_NONE"
  using after_timers_frame [of inp s] by (auto simp: at_rp_def at_credential_def keeps_stateful_def Let_def)

lemma next_refused:
  assumes "active_cmd (stateful_command_state s) = CTAP_STATEFUL_CMD_NONE"
    and "asks dec parser_init params sub" and "sub = 3 \<or> sub = 5"
  shows "ctap_request env dec parser_init bytes_of inp s cmd_credential_management params
    = Some (CTAP2_ERR_NOT_ALLOWED, after_timers inp s, [])"
proof -
  have "active_cmd (stateful_command_state (after_timers inp s)) = CTAP_STATEFUL_CMD_NONE"
    using assms(1) after_timers_frame [of inp s] by (auto simp: keeps_stateful_def)
  with assms(3) show ?thesis
    unfolding request_next [OF assms(2,3)] by (auto simp: credential_management_enumerate_rps_get_next_rp_def
        credential_management_enumerate_credentials_get_next_credential_def)
qed

lemma next_answered:
  assumes "management_answered env dec parser_init bytes_of sub s e s'" and "sub = 3 \<or> sub = 5"
  shows "\<exists>inp. active_cmd (stateful_command_state (after_timers inp s)) \<noteq> CTAP_STATEFUL_CMD_NONE
    \<and> (if sub = 3 then credential_management_enumerate_rps_get_next_rp env (after_timers inp s) []
       else credential_management_enumerate_credentials_get_next_credential env (after_timers inp s) [])
      = Some (CTAP2_OK, s', e)"
proof -
  obtain inp params where a: "asks dec parser_init params sub"
    and r: "ctap_request env dec parser_init bytes_of inp s cmd_credential_management params = Some (CTAP2_OK, s', e)"
    using assms(1) by (auto simp: management_answered_def)
  from r have n: "(if sub = 3 then credential_management_enumerate_rps_get_next_rp env (after_timers inp s) []
       else credential_management_enumerate_credentials_get_next_credential env (after_timers inp s) [])
      = Some (CTAP2_OK, s', e)"
    unfolding request_next [OF a assms(2)] by (auto split: if_splits)
  then have "active_cmd (stateful_command_state (after_timers inp s)) \<noteq> CTAP_STATEFUL_CMD_NONE"
    using assms(2) by (auto simp: credential_management_enumerate_rps_get_next_rp_def
        credential_management_enumerate_credentials_get_next_credential_def split: if_splits)
  with n show ?thesis by blast
qed

interpretation rps: enumeration "management_answered env dec parser_init bytes_of 3" at_rp
  "\<lambda>rp e. e = managed_rp_ops 0 rp" for env dec parser_init bytes_of
proof unfold_locales
  fix rps i s e s'
  assume at: "at_rp rps i s" and answered: "management_answered env dec parser_init bytes_of 3 s e s'"
  obtain inp where "active_cmd (stateful_command_state (after_timers inp s)) \<noteq> CTAP_STATEFUL_CMD_NONE"
      "credential_management_enumerate_rps_get_next_rp env (after_timers inp s) [] = Some (CTAP2_OK, s', e)"
    using next_answered [OF answered] by auto
  with at_after_timers(1) [OF at, of inp] get_next_rp
  show "i < length rps \<and> e = managed_rp_ops 0 (rps ! i) \<and> at_rp rps (Suc i) s'" by blast
qed

interpretation credentials: enumeration "management_answered env dec parser_init bytes_of 5" at_credential
  "is_credential_entry env 0" for env dec parser_init bytes_of
proof unfold_locales
  fix cs i s e s'
  assume at: "at_credential cs i s" and answered: "management_answered env dec parser_init bytes_of 5 s e s'"
  obtain inp where "active_cmd (stateful_command_state (after_timers inp s)) \<noteq> CTAP_STATEFUL_CMD_NONE"
      "credential_management_enumerate_credentials_get_next_credential env (after_timers inp s) []
        = Some (CTAP2_OK, s', e)"
    using next_answered [OF answered] by auto
  with at_after_timers(2) [OF at, of inp] get_next_credential
  show "i < length cs \<and> is_credential_entry env 0 (cs ! i) e \<and> at_credential cs (Suc i) s'" by blast
qed

section \<open>The requests that begin an enumeration\<close>

text \<open>What is listed: the relying parties of the storage, and the credentials of one of them.\<close>

definition listed_rps :: "slot list \<Rightarrow> (bytes \<times> bytes) list" where
  "listed_rps L = map rp_entry (first_per_rp [] (stored_credentials L))"

definition listed_credentials :: "bytes \<Rightarrow> slot list \<Rightarrow> ctap_credential_handle list" where
  "listed_credentials h L = filter (\<lambda>c. ctap_credential_get_rp_id_hash c = h \<and> ctap_credential_is_discoverable c)
     (stored_credentials L)"

lemma enumeration_started:
  "ctap_update_stateful_command_timer (set_enumerate_rps s CTAP_STATEFUL_CMD_CRED_MGMT_ENUMERATE_RPS rps 1)
    = Some s' \<Longrightarrow> 1 < length rps \<Longrightarrow> at_rp rps 1 s'"
  "ctap_update_stateful_command_timer
     (set_enumerate_credentials s CTAP_STATEFUL_CMD_CRED_MGMT_ENUMERATE_CREDENTIALS cs 1)
    = Some s' \<Longrightarrow> 1 < length cs \<Longrightarrow> at_credential cs 1 s'"
  by (frule update_timer_command(1), drule update_timer_command(2), simp add: at_rp_def at_credential_def
      Let_def set_enumerate_rps_def set_enumerate_credentials_def)+

lemma begin_rps:
  assumes storage: "item_storage srep fits (find_item (storage_ops env)) (create_or_update_item (storage_ops env))
      (delete_item (storage_ops env))"
    and rep: "srep (storage s) L" and wf: "\<forall>c\<in>set (stored_credentials L). wf_credential H c"
    and run: "credential_management_enumerate_rps_begin env s [] = Some (CTAP2_OK, s', e)"
  shows "listed_rps L \<noteq> [] \<and> length (listed_rps L) \<le> 128
    \<and> e = managed_rp_ops (length (listed_rps L)) (listed_rps L ! 0) \<and> at_rp (listed_rps L) 1 s'"
proof -
  let ?s1 = "ctap_discard_stateful_command_state s" and ?rps = "listed_rps L"
  have found: "ctap_enumerate_rp_ids_of_discoverable_credentials (storage_ops env) (storage ?s1) 128
      = Some (if length ?rps \<le> 128 then Inr ?rps else Inl CTAP2_ERR_REQUEST_TOO_LARGE)"
    using item_storage.enumerate_rps [OF storage rep refl wf] by (simp add: listed_rps_def)
  from run have n: "?rps \<noteq> []" "length ?rps \<le> 128"
    unfolding credential_management_enumerate_rps_begin_def Let_def found by (auto split: if_splits)
  with run obtain status where e: "encode_credential_management_enumerate_rps_response (encoder_ok env) [] (?rps ! 0)
      (length ?rps) = (CTAP2_OK, e)"
    and s': "if length ?rps > 1
      then ctap_update_stateful_command_timer
        (set_enumerate_rps ?s1 CTAP_STATEFUL_CMD_CRED_MGMT_ENUMERATE_RPS ?rps 1) = Some s'
      else s' = set_enumerate_rps ?s1 (active_cmd (stateful_command_state ?s1)) [] 0"
    unfolding credential_management_enumerate_rps_begin_def Let_def found
    by (auto split: if_splits prod.splits bind_splits)
  have "at_rp ?rps 1 s'"
    using s' n(1) enumeration_started(1)
    by (cases "length ?rps > 1") (auto simp: at_rp_def Let_def set_enumerate_rps_def)
  with n encode_rp_OK [OF e] show ?thesis by blast
qed

lemma begin_credentials:
  assumes storage: "item_storage srep fits (find_item (storage_ops env)) (create_or_update_item (storage_ops env))
      (delete_item (storage_ops env))"
    and rep: "srep (storage s) L" and wf: "\<forall>c\<in>set (stored_credentials L). wf_credential H c"
    and run: "credential_management_enumerate_credentials_begin env s cm [] = Some (CTAP2_OK, s', e)"
  defines "cs \<equiv> listed_credentials (rpIDHash (cm_subCommandParams cm)) L"
  shows "cs \<noteq> [] \<and> length cs \<le> 128 \<and> is_credential_entry env (length cs) (cs ! 0) e \<and> at_credential cs 1 s'"
proof -
  let ?s1 = "ctap_discard_stateful_command_state s" and ?h = "rpIDHash (cm_subCommandParams cm)"
  have "ctap_should_add_credential_to_list c False True" for c
    by (simp add: ctap_should_add_credential_to_list_def Let_def)
  then have found: "ctap_find_discoverable_credentials_by_rp_id (storage_ops env) (storage ?s1) None (Some ?h) True 128
      = Some (if length cs \<le> 128 then Inr cs else Inl CTAP1_ERR_INVALID_LENGTH)"
    using item_storage.find_discoverable [OF storage rep refl wf, where rp = None and h = "Some ?h" and uv = True and n = 128]
    by (simp add: cs_def listed_credentials_def wanted_rp_def)
  from run have n: "cs \<noteq> []" "length cs \<le> 128"
    unfolding credential_management_enumerate_credentials_begin_def Let_def found by (auto split: if_splits)
  let ?s2 = "set_enumerate_credentials ?s1 (active_cmd (stateful_command_state ?s1)) cs 0"
  from run n obtain s3 where r: "respond_with_credential env ?s2 [] (cs ! 0) (length cs) = Some (CTAP2_OK, s3, e)"
    and s': "if length cs > 1
      then ctap_update_stateful_command_timer
        (set_enumerate_credentials s3 CTAP_STATEFUL_CMD_CRED_MGMT_ENUMERATE_CREDENTIALS cs 1) = Some s'
      else s' = set_enumerate_credentials s3 (active_cmd (stateful_command_state ?s1)) [] 0"
    unfolding credential_management_enumerate_credentials_begin_def Let_def found
    by (auto simp: ctap_check_state_eq_Some split: if_splits bind_splits)
  have "at_credential cs 1 s'"
    using s' n(1) enumeration_started(2)
    by (cases "length cs > 1") (auto simp: at_credential_def Let_def set_enumerate_credentials_def)
  with n respond_with_credential_OK(1) [OF r] show ?thesis by blast
qed

lemma request_begins:
  assumes "params \<noteq> []" and "parser_init params = Some v"
    and "ctap_parse_credential_management dec (Some v) = Ok (cm, it1)"
    and "ctap_request env dec parser_init bytes_of inp s cmd_credential_management params = Some (CTAP2_OK, s1, e)"
  obtains s0 where "storage s0 = storage s"
    "credential_management_subcommand env (stack inp) s0 cm [] = Some (CTAP2_OK, s1, e)"
proof -
  have run: "ctap_credential_management env dec (stack inp) (clock_later inp) params (after_timers inp s) (Some v) []
      = Some (CTAP2_OK, s1, e)"
    using assms(4) unfolding request_management [where dec = dec and params = params and parser_init = parser_init
        and v = v, OF assms(1,2)] by (auto split: if_splits)
  obtain cm' it1' s0 where m: "ctap_parse_credential_management dec (Some v) = Ok (cm', it1')"
      "same_but_use (after_timers inp s) s0"
      "credential_management_subcommand env (stack inp) s0 cm' [] = Some (CTAP2_OK, s1, e)"
    using management_OK [OF run] by metis
  then have "storage s0 = storage s" using same_but_use_simps(1) [OF m(2)] after_timers_frame [of inp s] by simp
  with that m(1,3) assms(3) show ?thesis by simp
qed

section \<open>An example\<close>

text \<open>A request that begins to enumerate credentials, and one for the next.\<close>

definition list_signature :: bytes where
  "list_signature = take 16 (hmac_spec sha256_spec 64 (zeros 32) [4, 9])"

definition list_request :: ref_it where
  "list_request = ([[I_Map [(I_Int 1, I_Int 4), (I_Int 2, I_Map [(I_Int 1, I_Bytes (replicate 32 7))]),
     (I_Int 3, I_Int 1), (I_Int 4, I_Bytes list_signature)]]], 0)"

definition list_params :: CTAP_credentialManagement where
  "list_params = \<lparr>cm_present = 30, cm_subCommand = 4, cm_subCommandParams =
     \<lparr>raw_start = 3, raw_size = 1, sub_present = 2, rpIDHash = replicate 32 7,
       credentialID = \<lparr>credDesc_type = 0, credDesc_id = []\<rparr>, sub_user = zero_CTAP_userEntity\<rparr>,
     cm_pinUvAuthProtocol = 1, cm_pinUvAuthParam = list_signature\<rparr>"

definition next_request :: ref_it where
  "next_request = ([[I_Map [(I_Int 1, I_Int 5)]]], 0)"

definition list_parser :: "bytes \<Rightarrow> ref_it option" where
  "list_parser params = Some (if params = [5] then next_request else list_request)"

lemma list_parsed:
  "ctap_parse_credential_management ref_decoder (Some list_request) = Ok (list_params, [[]], 1)"
  by (simp add: list_request_def ctap_parse_credential_management_def ref_simps list_params_def
      ctap_parse_credential_management_entry_def parse_credential_management_subcommand_params_def
      parse_credential_management_subcommand_params_entry_def Let_def zero_CTAP_credentialManagement_def
      ctap_set_present_def ctap_is_present_def ctap_param_to_mask_def)

lemma asks_next: "asks ref_decoder list_parser [5] 5"
  by (simp add: asks_def list_parser_def next_request_def ctap_parse_credential_management_def ref_simps
      ctap_parse_credential_management_entry_def Let_def zero_CTAP_credentialManagement_def
      ctap_set_present_def ctap_is_present_def ctap_param_to_mask_def)

definition at_once :: "ctap_memory_storage_context request_environment" where
  "at_once = \<lparr>clock_at_start = 0, clock_later = 0, presence = CTAP_UP_RESULT_DENY, stack = session_stack,
     reread_credential = (\<lambda>_ c. c), reread_rp = (\<lambda>_ r. r)\<rparr>"

lemma at_once_timers:
  assumes "usage_timer_start (pin_uv_auth_token_state s) = 0" and "last_cmd_time (stateful_command_state s) = 0"
  shows "after_timers at_once s = s\<lparr>current_time := 0\<rparr>"
  using assms by (simp add: after_timers_def at_once_def ctap_pin_uv_auth_token_check_usage_timer_def Let_def
      ctap_discard_stateful_command_state_if_expired_def)

text \<open>A storage with two credentials.\<close>

lemma two_credentials:
  "\<exists>s L c d. mem_rep s L \<and> stored_credentials L = [c, d]
    \<and> (\<forall>x\<in>{c, d}. wf_credential (\<lambda>_. replicate 32 7) x \<and> ctap_credential_is_discoverable x
         \<and> holds_user x [0x61, 0x2e, 0x62] example_user True False)
    \<and> listed_credentials (replicate 32 7) L = [c, d]"
proof -
  let ?wf = "wf_credential (\<lambda>_. replicate 32 7)" and ?acc = "of_account example_rp [1, 2, 3]"
  have l0: "length (memory credential_memory) = 3000" "write_index credential_memory + 640 \<le> 3000"
    by (simp_all add: credential_memory_def)
  obtain c1 s1 L1 where 1: "mem_rep s1 L1" "?wf c1" "?acc c1"
      "stored_credentials L1 = [c1]" "length (memory s1) = 3000" "write_index s1 \<le> 640"
    using example_create [OF credential_memory_rep _ l0, of example_libraries 0 True]
    by (auto simp: without_first_def credential_memory_def)
  obtain c2 s2 L2 where 2: "mem_rep s2 L2" "?wf c2" "?acc c2"
      "stored_credentials L2 = [c1, c2]" "length (memory s2) = 3000" "write_index s2 \<le> 1280"
    using example_create [OF 1(1), of example_libraries 0 False] 1 by auto
  obtain c3 s3 L3 where 3: "mem_rep s3 L3" "?wf c3" "?acc c3" "ctap_credential_is_discoverable c3"
      "holds_user c3 [0x61, 0x2e, 0x62] example_user True False"
      "stored_credentials L3 = [c2, c3]" "length (memory s3) = 3000" "write_index s3 \<le> 1920"
    using example_create [OF 2(1), of example_libraries 0 True] 1 2 by (auto simp: without_first_def)
  obtain c4 s4 L4 where 4: "mem_rep s4 L4" "?wf c4" "?acc c4" "ctap_credential_is_discoverable c4"
      "holds_user c4 [0x61, 0x2e, 0x62] example_user True False" "stored_credentials L4 = [c3, c4]"
    using example_create [OF 3(1), of example_libraries 0 True] 2 3 by (auto simp: without_first_def)
  moreover have "ctap_credential_get_rp_id_hash x = replicate 32 7" if "?acc x" for x
    using that by (auto simp: of_account_def ctap_credential_matches_rp_def example_rp_def require_def
        ctap_credential_matches_rp_id_hash_def ctap_credential_get_rp_id_hash_def split: if_splits bind_splits)
  ultimately have "listed_credentials (replicate 32 7) L4 = [c3, c4]"
    using 3 4 by (simp add: listed_credentials_def)
  then show ?thesis using 3 4 by blast
qed

lemma stored_user_id: "ctap_is_present (user_fields (stored_user wn wd user)) (ctap_param_to_mask CTAP_userEntity_id)"
  by (cases wn; cases wd) (simp_all add: stored_user_def ctap_is_present_def ctap_param_to_mask_def ctap_set_present_def)

lemma respond_ok:
  assumes "holds_user c rp user wn wd"
  shows "\<exists>r e. respond_with_credential memory_env s [] c n = Some (CTAP2_OK, s\<lparr>rng_position := r\<rparr>, e)"
proof -
  have user: "\<exists>e'. ctap_encode_pub_key_cred_user_entity (\<lambda>_. True) e (stored_user wn wd user) True = Some (CTAP2_OK, e')" for e
    using stored_user_id [of wn wd user]
    by (simp add: ctap_encode_pub_key_cred_user_entity_def then_encode_def require_def Let_def
        ctap_encode_ctap_string_as_byte_string_def ctap_encode_ctap_string_as_text_string_def del: cbor_encode.simps)
  obtain e1 where e1: "ctap_encode_pub_key_cred_user_entity (\<lambda>_. True)
      [Create_Map (if n \<noteq> 0 then 5 else 4), Encode_Int 6] (stored_user wn wd user) True = Some (CTAP2_OK, e1)"
    using user by blast
  obtain ok pk r where pk: "ecc_secp256r1_compute_public_key (software_crypto example_libraries) (rng_position s)
      (src_private_key (cred_source c)) = (ok, pk, r)" by (metis prod.exhaust)
  then have "ok"
    by (simp add: CTAP_SOFTWARE_CRYPTO_CONST_INIT_def ctap_software_crypto_ecc_secp256r1_compute_public_key_def
        example_libraries_def)
  with pk e1 assms show ?thesis
    by (intro exI [of _ r]) (simp add: respond_with_credential_def ctap_credential_compute_public_key_def memory_env_def holds_user_def
        encode_credential_management_enumerate_credentials_response_def then_encode_def
        ctap_encode_pub_key_cred_desc_def ctap_encode_ctap_string_as_byte_string_def
        ctap_encode_public_key_def del: cbor_encode.simps)
qed

lemma list_begins:
  assumes "mem_rep st L" and "stored_credentials L = [c, d]"
    and "\<forall>x\<in>{c, d}. wf_credential (\<lambda>_. replicate 32 7) x \<and> ctap_credential_is_discoverable x
         \<and> holds_user x [0x61, 0x2e, 0x62] example_user True False"
    and "listed_credentials (replicate 32 7) L = [c, d]"
  shows "\<exists>s1 e. ctap_request memory_env ref_decoder list_parser (\<lambda>_. []) at_once (managing_state st)
      cmd_credential_management [4, 0, 0, 9] = Some (CTAP2_OK, s1, e)
    \<and> at_credential [c, d] 1 s1 \<and> usage_timer_start (pin_uv_auth_token_state s1) = 0
    \<and> last_cmd_time (stateful_command_state s1) = 0"
proof -
  let ?s = "managing_state st"
  have t: "after_timers at_once ?s = ?s"
    by (subst at_once_timers) (simp_all add: managing_state_def CTAP_STATE_CONST_INIT_def zero_ctap_state_def
        zero_token_state_def zero_stateful_state_def)
  obtain s0 where v: "verify_with_token memory_env 0 ?s 0 [[4], [9]] list_signature = Some (True, s0)"
    using managing_verified [of 0 st "[[4], [9]]"] by (auto simp: list_signature_def)
  obtain last where s0: "s0 = ?s\<lparr>pin_uv_auth_token_state := (pin_uv_auth_token_state ?s)\<lparr>usage_timer_last_use := last\<rparr>\<rparr>"
    using verify_with_token_gestures [OF v] by blast
  let ?s1 = "ctap_discard_stateful_command_state s0"
  have st: "storage ?s1 = st" "\<not> rpId_set (pin_uv_auth_token_state s0)"
      "ctap_pin_uv_auth_token_has_permissions s0 permission_cm" "ctap_get_pin_protocol ?s 1 = Some 0"
      "current_time ?s1 = 0" "usage_timer_start (pin_uv_auth_token_state ?s1) = 0"
    by (simp_all add: s0 managing_state_def CTAP_STATE_CONST_INIT_def zero_ctap_state_def zero_token_state_def
        ctap_discard_stateful_command_state_def ctap_pin_uv_auth_token_has_permissions_def ctap_get_pin_protocol_def)
  have "ctap_should_add_credential_to_list x False True" for x
    by (simp add: ctap_should_add_credential_to_list_def Let_def)
  then have found: "ctap_find_discoverable_credentials_by_rp_id (storage_ops memory_env) st None
      (Some (replicate 32 7)) True 128 = Some (Inr [c, d])"
    using mem.find_discoverable [where H = "\<lambda>_. replicate 32 7" and rp = None and h = "Some (replicate 32 7)"
        and uv = True and n = 128, OF assms(1) memory_ops(1)] assms(2-4)
    by (simp add: listed_credentials_def wanted_rp_def memory_env_def)
  let ?s2 = "set_enumerate_credentials ?s1 (active_cmd (stateful_command_state ?s1)) [c, d] 0"
  obtain r e where r: "respond_with_credential memory_env ?s2 [] c (Suc (Suc 0)) = Some (CTAP2_OK, ?s2\<lparr>rng_position := r\<rparr>, e)"
    using respond_ok [of c _ _ _ _ ?s2 "Suc (Suc 0)"] assms(3) by blast
  let ?s3 = "set_enumerate_credentials (?s2\<lparr>rng_position := r\<rparr>) CTAP_STATEFUL_CMD_CRED_MGMT_ENUMERATE_CREDENTIALS [c, d] 1"
  let ?s4 = "?s3\<lparr>stateful_command_state := (stateful_command_state ?s3)\<lparr>last_cmd_time := 0\<rparr>\<rparr>"
  have timer: "ctap_update_stateful_command_timer ?s3 = Some ?s4"
    using st(5) by (simp add: ctap_update_stateful_command_timer_def ctap_has_stateful_command_state_def require_def
        set_enumerate_credentials_def)
  have "credential_management_enumerate_credentials_begin memory_env s0 list_params [] = Some (CTAP2_OK, ?s4, e)"
    using st(1,2) found r timer by (simp add: credential_management_enumerate_credentials_begin_def Let_def
        list_params_def ctap_is_present_def ctap_param_to_mask_def)
  then have "ctap_credential_management memory_env ref_decoder session_stack 0 [4, 0, 0, 9] ?s (Some list_request) []
      = Some (CTAP2_OK, ?s4, e)"
    using v st(3,4) by (simp add: ctap_credential_management_def list_parsed)
      (simp add: list_params_def ctap_is_present_def ctap_param_to_mask_def verify_credential_management_params_def
        credential_management_subcommand_def Let_def)
  moreover have "stack at_once = session_stack" "clock_later at_once = 0" by (simp_all add: at_once_def)
  ultimately have "ctap_request memory_env ref_decoder list_parser (\<lambda>_. []) at_once ?s cmd_credential_management [4, 0, 0, 9]
      = Some (CTAP2_OK, ?s4, e)"
    by (subst request_management [where v = list_request]) (simp_all add: list_parser_def t)
  moreover have "at_credential [c, d] 1 ?s4" by (simp add: at_credential_def set_enumerate_credentials_def Let_def)
  ultimately show ?thesis using st(6) by (intro exI [of _ ?s4] exI [of _ e]) (simp add: set_enumerate_credentials_def)
qed

lemma list_continues:
  assumes "at_credential [c, d] 1 s" and "usage_timer_start (pin_uv_auth_token_state s) = 0"
    and "last_cmd_time (stateful_command_state s) = 0" and "holds_user d rp user wn wd"
  shows "\<exists>s' e. management_answered memory_env ref_decoder list_parser (\<lambda>_. []) 5 s e s'"
proof -
  let ?s = "s\<lparr>current_time := 0\<rparr>"
  obtain r e where r: "respond_with_credential memory_env ?s [] d 0 = Some (CTAP2_OK, ?s\<lparr>rng_position := r\<rparr>, e)"
    using respond_ok [OF assms(4)] by blast
  have "\<exists>s'. credential_management_enumerate_credentials_get_next_credential memory_env ?s [] = Some (CTAP2_OK, s', e)"
    using assms(1) r by (simp add: at_credential_def Let_def require_def
        credential_management_enumerate_credentials_get_next_credential_def ctap_update_stateful_command_timer_def
        ctap_has_stateful_command_state_def)
  then obtain s' where "credential_management_enumerate_credentials_get_next_credential memory_env
      (after_timers at_once s) [] = Some (CTAP2_OK, s', e)" using at_once_timers [OF assms(2,3)] by auto
  then have "ctap_request memory_env ref_decoder list_parser (\<lambda>_. []) at_once s cmd_credential_management [5]
      = Some (CTAP2_OK, s', e)"
    by (simp add: request_next [OF asks_next])
  with asks_next show ?thesis unfolding management_answered_def by blast
qed

section \<open>Property\<close>



end
