(* ===== verification/Spec2Isabelle.thy ===== *)
theory Spec2Isabelle
  imports Prelude Ctaphid App_Hid Memory_Storage Flash_Storage Sha256_Test Hmac_Hkdf Strings_Asn1
    Pin_Uv_Auth_Token Pin_Protocol Cbor_Reference Client_Pin_Tokens Pin_Policy Ctap_Boot
    Credential_Properties Stateful_Commands Making Nfc_Chaining Nfc_Presence Hw_Crypto
    Device_Properties Enumeration
begin

text \<open>
  LionKey FIDO2 authenticator: verification development.

  \<^bold>\<open>The program.\<close> LionKey is a FIDO2 (CTAP 2.1) authenticator for the STM32H533. Requests arrive over USB
  (CTAPHID packets of 64 bytes) or NFC (ISO 7816-4 commands); the CTAP layer decodes their CBOR
  parameters, checks PIN/UV authorisation, asks for the presence of the user, makes or uses
  credentials in a persistent storage, and encodes the response. The main loop is
  \<open>app_run\<close> (\<open>targets/stm32h533/Src/app.c\<close>), which runs the USB stack, the CTAPHID transport and the
  NFC task in turn, in one thread; \<open>ctap_request\<close> (\<open>core/ctap.c\<close>) is the entry to the CTAP layer.

  \<^bold>\<open>Conventions.\<close>
  \<^item> Integers of a fixed width are words (\<open>u8\<close>, \<open>u16\<close>, \<open>u32\<close>, \<open>u64\<close>), sizes and offsets are \<open>nat\<close> where the
    code bounds them before it computes with them, and are reduced (\<open>wrap32\<close>) where it does not.
    Arrays are byte lists; \<open>memcpy_at\<close> and its relatives in \<open>Prelude\<close> fail behind the end.
  \<^item> The outer \<open>option\<close> of an operation is \<open>None\<close> for behaviour after which the C program has no defined
    state: a failed assertion, an access outside an object, a loop that does not end. An inner
    \<open>option\<close> or a status is the result the C function returns, errors included.
  \<^item> State is passed explicitly, as a record with the fields of the C structure. Pointers into the
    storage are the byte strings they show; what they show after the storage was erased is a
    parameter (\<open>reread_credential\<close>, \<open>reread_rp\<close>). Uninitialised memory that the code reads is a
    parameter (\<open>stack_memory\<close>), the clock and the wait for the user are inputs of a request
    (\<open>request_environment\<close>).
  \<^item> Code outside the repository, or below its own code, is a parameter: the decoder and the encoder
    of TinyCBOR (a record of functions; the list of encoder calls with the predicate \<open>enc_ok\<close>,
    \<open>tinycbor_ok\<close> states the documented behaviour and \<open>Cbor_Reference\<close> has a decoder that meets it),
    micro-ecc, tiny-AES-c and TinyMT (\<open>crypto_libraries\<close>), the HAL drivers (\<open>stm32h533_hal\<close>, the
    flash driver in \<open>Flash_Storage\<close>), RFAL (\<open>rfal\<close>), the USB stack.
  \<^item> Fuel: the loops over a storage have as many turns as the storage has bytes, while an item takes at
    least one header, so the fuel is never used up on a well-formed storage (\<open>mem_find_loop\<close>,
    \<open>flash_find_loop\<close>: the lemmas need only more turns than items); \<open>hkdf_loop\<close> has one turn for each
    block of output. \<open>storage_loop\<close> in \<open>Credential_Store\<close> is a partial function, since it may not end over
    an arbitrary storage; \<open>credential_searches\<close> proves that it ends over every storage that meets the
    contract. The loops over \<open>excludeList\<close> and \<open>allowList\<close> have fuel too:
    \<open>credential_lists_terminate\<close> proves that the number of entries, and one, is enough.

  \<^bold>\<open>The theories\<close>, in the order of their layers:
  \<^item> \<open>Prelude\<close>: words, byte buffers, \<open>require\<close>, the collections of simplification rules.
  \<^item> \<open>Ctaphid\<close> (\<open>core/ctaphid.c\<close>): packets, the reassembly buffer, channel allocation, fragmentation. The
    lemmas show the buffer invariant, isolation of transactions and the round trip of a message.
  \<^item> \<open>App_Hid\<close> (\<open>app.c\<close>, \<open>usb.c\<close>), \<open>User_Presence\<close>: the report handler, the send queue, keepalives, the wait for
    the user; the main loop is the step relation \<open>app_step\<close>, with invariants over its reachable states.
  \<^item> \<open>Storage\<close> (\<open>core/ctap_storage.h\<close>): items and the locale \<open>item_storage\<close>, the contract of a
    storage: what an iteration returns after each operation. \<open>Memory_Storage\<close> and \<open>Flash_Storage\<close> model
    \<open>core/ctap_memory_storage.c\<close> and \<open>flash_storage.c\<close> down to the bytes of the log and interpret it
    (\<open>mem\<close>, \<open>flash\<close>).
  \<^item> \<open>Sha256\<close>, \<open>Sha256_Test\<close>, \<open>Hmac_Hkdf\<close> (\<open>crypto/\<close>): the streaming hash against FIPS 180-4, HMAC against
    RFC 2104 and HKDF against RFC 5869, in the locales \<open>hash_algorithm\<close> and \<open>hash_algorithm_64_32\<close>,
    interpreted by \<open>sha256\<close> and \<open>sha256_mac\<close>.
  \<^item> \<open>Ctap_State\<close> (\<open>core/ctap.h\<close>, \<open>core/ctap_crypto.h\<close>): the state of the authenticator, the cryptographic
    interface. \<open>Crypto_Software\<close> and \<open>Hw_Crypto\<close> are its two implementations
    (\<open>core/ctap_crypto_software.c\<close>, \<open>hw_crypto.c\<close>).
  \<^item> \<open>Pin_Uv_Auth_Token\<close>, \<open>Pin_Protocol\<close> (\<open>core/ctap_pin_uv_auth_token.c\<close>, \<open>core/ctap_pin_protocol.c\<close>): the
    state machine of the token, the two protocols over the locale \<open>ctap_crypto_mac\<close>, which
    \<open>sw_crypto\<close> interprets; \<open>hw_crypto_mac\<close> shows that the peripherals meet it.
  \<^item> \<open>Strings_Asn1\<close>, \<open>Cbor_Decode\<close>, \<open>Ctap_Parse\<close> (\<open>core/ctap_string.c\<close>, \<open>core/ctap_asn1.c\<close>,
    \<open>core/ctap_cbor.h\<close>, \<open>core/ctap_parse.c\<close>), with \<open>Cbor_Contract\<close>, \<open>Cbor_Reference\<close> and \<open>Parse_Status\<close>: every
    request makes the parsers report an error or consume it exactly, within the bounds of the fields.
  \<^item> \<open>Client_Pin\<close> (\<open>core/ctap_pin.c\<close>) with \<open>Client_Pin_Security\<close>, \<open>Client_Pin_Tokens\<close>, \<open>Pin_Policy\<close>: the
    effect of each subcommand, which PINs can be set, and how many can be tried; \<open>Ctap_Boot\<close>
    (\<open>ctap_init\<close>) extends the bound over power cycles.
  \<^item> \<open>Credential_Store\<close> (\<open>core/ctap_credential_store.c\<close>) with \<open>Credential_Contract\<close>,
    \<open>Credential_Creation\<close>, \<open>Credential_Update\<close>, \<open>Credential_Properties\<close>: the layout of a credential, and
    creation, update and the searches over every storage that meets its contract.
  \<^item> \<open>Ctap_Encode\<close>, \<open>Credentials\<close>, \<open>Cred_Mgmt\<close>, \<open>Ctap_Request\<close> (\<open>core/ctap_encode.c\<close>, \<open>core/ctap_get_info.c\<close>,
    \<open>core/ctap_credentials.c\<close>, \<open>core/ctap_credential_management.c\<close>, \<open>core/ctap_selection.c\<close>,
    \<open>core/ctap_reset.c\<close>, \<open>core/ctap.c\<close>): the remaining commands and their dispatch.
    \<open>Stateful_Commands\<close> shows the invariant of the state between requests, over
    \<open>authenticator_reachable\<close>; \<open>Assertions\<close>, \<open>Assertion_Properties\<close>, \<open>Credential_Lists\<close>, \<open>Making\<close> show what
    a successful makeCredential, getAssertion and getNextAssertion guarantee.
  \<^item> \<open>Nfc_Apdu\<close>, \<open>Ctap_Nfc\<close>, \<open>Nfc_Task\<close> (\<open>nfc/\<close>): commands and responses, the two applets, the card
    emulation over RFAL and the request handler of the CTAP layer as parameters; \<open>Nfc_Chaining\<close>
    and \<open>Nfc_Presence\<close> hold the properties of chaining and of the user presence, the latter over
    \<open>nfc_reachable\<close>.
  \<^item> \<open>Management\<close> (\<open>core/ctap_credential_management.c\<close>): who may manage credentials, and what deleting one
    does to the storage. \<open>Enumeration\<close> follows the requests that list relying parties and credentials, in
    the locale \<open>enumeration\<close>, which both kinds interpret (\<open>rps\<close>, \<open>credentials\<close>).
  \<^item> \<open>Device\<close>, \<open>Device_Properties\<close> (\<open>app_init\<close>, \<open>app_run\<close>, \<open>ctap_request\<close>): the parts put together. The request
    handler of both transports is \<open>device_service\<close>: \<open>ctap_request\<close> with the effects it has on \<open>app.c\<close>
    while it runs (\<open>request_effects\<close>: keepalives, the wait for the user; what happens at these points
    is an input, \<open>request_events\<close>). \<open>device_step\<close> is a step of the main loop, \<open>device_reachable\<close> its
    states from power-up on, \<open>device_inv\<close> their invariant. The theorems follow a request over USB from
    the channel buffer to its response, tie the making and erasing of credentials to the user, and
    show what a late request over NFC does. \<open>Device_Examples\<close> runs a concrete device.

  \<^bold>\<open>Not modelled.\<close> The bodies of cryptographic primitives other than SHA-256, TinyCBOR, TinyUSB, RFAL, the
  HAL and the CMSIS headers: third-party code. Initialisation of the hardware and its interrupt
  handlers (\<open>main.c\<close>, \<open>usb_init\<close>, the hardware in \<open>app_init\<close>, the initialisation in \<open>hw_crypto.c\<close>), the USB descriptors,
  the LED and the log: they only configure peripherals or write output. \<open>app_test.c\<close>, \<open>demo_ce.c\<close>,
  \<open>nfc_test.c\<close>, \<open>eval_utils.c\<close> and \<open>test/\<close>: interactive tests, demonstrations and measurements, which
  the authenticator does not use. Interrupts change nothing that is modelled but the flag of the
  button, which is an input of the wait for the user.
\<close>

end
